(* ===== verification/Hop_Prelude.thy ===== *)
theory Hop_Prelude
  imports Main "HOL-Library.Word" "HOL-Library.AList"
begin

text \<open>
  Shared vocabulary of the development.

  Rust's machine integers are words of their width; a Rust \<open>Vec<u8>\<close>, \<open>Bytes\<close> or \<open>BytesMut\<close> is
  a list of bytes; a Rust \<open>String\<close> is Isabelle's \<open>string\<close>, one character per UTF-8 byte, so that
  \<open>len()\<close> is \<^const>\<open>length\<close>. A \<open>HashMap\<close> that the code iterates over is an association list
  with distinct keys (its order stands for the unspecified iteration order); one that is only looked
  up is a partial map. A fallible operation returns a sum: \<^const>\<open>Inl\<close> the error, \<^const>\<open>Inr\<close>
  the value.
\<close>

unbundle bit_operations_syntax

type_synonym u8 = "8 word"
type_synonym u16 = "16 word"
type_synonym u32 = "32 word"
type_synonym u64 = "64 word"
type_synonym usize = "64 word"
type_synonym bytes = "u8 list"

text \<open>
  \<open>step_defs\<close> collects the definitions of handlers that proofs unfold together; \<open>wf_intros\<close> the facts
  that an operation preserves a component's well-formedness.
\<close>

named_theorems step_defs "definitions of handlers and of the helpers they call"
named_theorems wf_intros "preservation of well-formedness"

section \<open>Lists of bytes and words\<close>

text \<open>The value of a \<open>len()\<close> call, at the width of \<open>usize\<close> on a 64-bit target.\<close>

abbreviation len_usize :: "'a list \<Rightarrow> usize" where
  "len_usize xs \<equiv> word_of_nat (length xs)"

lemma unat_len_usize:
  "length xs < 2 ^ 64 \<Longrightarrow> unat (len_usize xs) = length xs"
  by (simp add: unat_of_nat take_bit_nat_eq_self)

text \<open>The bits of a word below \<open>2 ^ m\<close> all lie below position \<open>m\<close>.\<close>

lemma bit_below:
  fixes w :: "'a::len word"
  assumes "unat w < 2 ^ m" and "bit w k"
  shows "k < m"
proof (rule ccontr)
  assume "\<not> k < m"
  then have "(2::nat) ^ m \<le> 2 ^ k"
    by (simp add: power_increasing)
  with assms(1) have "unat w < 2 ^ k"
    by (rule less_le_trans)
  then have "unat w div 2 ^ k = 0"
    by (rule div_less)
  moreover have "bit (unat w) k"
    using assms(2) by (simp add: bit_unsigned_iff)
  ultimately show False by (simp add: bit_iff_odd)
qed

section \<open>Prefixes of a stream\<close>

lemma append_split_longer:
  assumes "w @ ys = us @ vs" and "length us \<le> length w"
  shows "\<exists>t. w = us @ t \<and> t @ ys = vs"
  using assms by (auto simp: append_eq_append_conv2)

lemma append_split_shorter:
  assumes "w @ ys = us @ vs" and "length w < length us"
  shows "\<exists>q. us = w @ q \<and> q \<noteq> []"
  using assms by (auto simp: append_eq_append_conv2)

section \<open>Strings and their bytes\<close>

text \<open>\<open>as_bytes()\<close> and its inverse on byte sequences that are already known to be a string.\<close>

definition as_bytes :: "string \<Rightarrow> bytes" where
  "as_bytes s = map (\<lambda>c. word_of_nat (of_char c)) s"

definition from_bytes :: "bytes \<Rightarrow> string" where
  "from_bytes bs = map (\<lambda>b. char_of (unat b)) bs"

lemma from_as_bytes [simp]: "from_bytes (as_bytes s) = s"
proof -
  have "char_of (unat (word_of_nat (of_char c) :: u8)) = c" for c
    using nat_of_char_less_256[of c] by (simp add: unat_of_nat take_bit_nat_eq_self)
  then show ?thesis by (simp add: from_bytes_def as_bytes_def o_def map_idI)
qed

lemma as_from_bytes [simp]: "as_bytes (from_bytes bs) = bs"
proof -
  have "word_of_nat (of_char (char_of (unat b) :: char)) = b" for b :: u8
    using unsigned_less[of b, where 'a = nat] by simp
  then show ?thesis by (simp add: from_bytes_def as_bytes_def o_def map_idI)
qed

lemma length_as_bytes [simp]: "length (as_bytes s) = length s"
  by (simp add: as_bytes_def)

lemma length_from_bytes [simp]: "length (from_bytes bs) = length bs"
  by (simp add: from_bytes_def)

lemma from_bytes_Nil [simp]: "from_bytes bs = [] \<longleftrightarrow> bs = []"
  by (simp add: from_bytes_def)

lemma as_bytes_Nil [simp]: "as_bytes s = [] \<longleftrightarrow> s = []" "as_bytes [] = []"
  by (simp_all add: as_bytes_def)

lemma as_bytes_append [simp]: "as_bytes (s @ t) = as_bytes s @ as_bytes t"
  by (simp add: as_bytes_def)

lemma as_bytes_drop: "as_bytes (drop n s) = drop n (as_bytes s)"
  by (simp add: as_bytes_def drop_map)

subsection \<open>Prefixes\<close>

definition starts_with :: "'a list \<Rightarrow> 'a list \<Rightarrow> bool" where
  "starts_with s p \<longleftrightarrow> take (length p) s = p"

definition ends_with :: "'a list \<Rightarrow> 'a list \<Rightarrow> bool" where
  "ends_with s p \<longleftrightarrow> length p \<le> length s \<and> drop (length s - length p) s = p"

lemma starts_with_append [simp]: "starts_with (p @ s) p"
  by (simp add: starts_with_def)

lemma starts_with_conv: "starts_with s p \<longleftrightarrow> (\<exists>t. s = p @ t)"
  unfolding starts_with_def by (metis append_eq_conv_conj append_take_drop_id)

lemma ends_with_append [simp]: "ends_with (s @ p) p"
  by (simp add: ends_with_def)

subsection \<open>White space\<close>

text \<open>\<open>str::trim\<close> removes the characters of Unicode's \<open>White_Space\<close>, here as their UTF-8 bytes.\<close>

definition WHITE :: "string list" where
  "WHITE = map (\<lambda>n. [char_of (n :: nat)]) [9, 10, 11, 12, 13, 32]
    @ map (map char_of) [[0xC2, 0x85], [0xC2, 0xA0], [0xE1, 0x9A, 0x80 :: nat]]
    @ map (\<lambda>n. map char_of [0xE2, 0x80, n]) ([0x80..<0x8B] @ [0xA8, 0xA9, 0xAF])
    @ map (map char_of) [[0xE2, 0x81, 0x9F], [0xE3, 0x80, 0x80 :: nat]]"

lemma white_nonempty: "w \<in> set WHITE \<Longrightarrow> w \<noteq> []"
  by (auto simp: WHITE_def)

lemma white_found:
  assumes "find P WHITE = Some w"
  shows "w \<noteq> []" "P w"
  using assms white_nonempty by (metis find_Some_iff nth_mem)+

function trim_start :: "string \<Rightarrow> string" where
  "trim_start s = (case find (starts_with s) WHITE of Some w \<Rightarrow> trim_start (drop (length w) s) | None \<Rightarrow> s)"
  by pat_completeness auto
termination
proof (relation "measure length")
  fix s w
  assume f: "find (starts_with s) WHITE = Some w"
  obtain t where "s = w @ t" using white_found(2)[OF f] starts_with_conv by metis
  then show "(drop (length w) s, s) \<in> measure length" using white_found(1)[OF f] by simp
qed simp

function trim_end :: "string \<Rightarrow> string" where
  "trim_end s = (case find (ends_with s) WHITE of Some w \<Rightarrow> trim_end (take (length s - length w) s) | None \<Rightarrow> s)"
  by pat_completeness auto
termination
proof (relation "measure length")
  fix s w
  assume f: "find (ends_with s) WHITE = Some w"
  have "length w \<le> length s" using white_found(2)[OF f] by (simp add: ends_with_def)
  moreover have "0 < length w" using white_found(1)[OF f] by simp
  ultimately have "length s - length w < length s" by (intro diff_less) linarith+
  then show "(take (length s - length w) s, s) \<in> measure length" by simp
qed simp

declare trim_start.simps [simp del] trim_end.simps [simp del]

definition trim_str :: "string \<Rightarrow> string" where
  "trim_str s = trim_end (trim_start s)"

subsection \<open>Decimal numerals\<close>

text \<open>\<open>to_string()\<close> of an unsigned integer, and the value a decimal string stands for.\<close>

fun show_nat :: "nat \<Rightarrow> string" where
  "show_nat n = (if n < 10 then [char_of (48 + n)] else show_nat (n div 10) @ [char_of (48 + n mod 10)])"

declare show_nat.simps [simp del]

definition show_int :: "int \<Rightarrow> string" where
  "show_int n = (if n < 0 then ''-'' @ show_nat (nat (- n)) else show_nat (nat n))"

definition digit_val :: "char \<Rightarrow> nat" where
  "digit_val c = of_char c - 48"

definition dec_val :: "string \<Rightarrow> nat" where
  "dec_val s = foldl (\<lambda>acc c. 10 * acc + digit_val c) 0 s"

lemma dec_val_snoc: "dec_val (s @ [c]) = 10 * dec_val s + digit_val c"
  by (simp add: dec_val_def)

lemma digit_val_char [simp]: "d < 10 \<Longrightarrow> digit_val (char_of (48 + d)) = d"
  by (simp add: digit_val_def)

lemma dec_val_show_nat [simp]: "dec_val (show_nat n) = n"
proof (induction n rule: show_nat.induct)
  case (1 n)
  show ?case
  proof (cases "n < 10")
    case True
    then show ?thesis
      by (subst show_nat.simps) (simp add: dec_val_def)
  next
    case False
    then show ?thesis
      using 1 by (subst show_nat.simps) (simp add: dec_val_snoc)
  qed
qed

lemma dec_val_zeros: "dec_val (replicate k (CHR ''0'') @ s) = dec_val s"
proof -
  have "foldl (\<lambda>acc c. 10 * acc + digit_val c) 0 (replicate k (CHR ''0'')) = 0"
    by (induction k) (simp_all add: digit_val_def)
  then show ?thesis by (simp add: dec_val_def)
qed

lemma length_show_nat: "n < 10 ^ k \<Longrightarrow> 0 < k \<Longrightarrow> length (show_nat n) \<le> k"
proof (induction n arbitrary: k rule: show_nat.induct)
  case (1 n)
  show ?case
  proof (cases "n < 10")
    case True
    then show ?thesis using 1 by (subst show_nat.simps) simp
  next
    case False
    with 1 obtain j where k: "k = Suc j" "0 < j"
      by (cases k; cases "k - 1") auto
    with False 1 have "length (show_nat (n div 10)) \<le> j"
      by (intro "1.IH") (auto simp: less_mult_imp_div_less mult.commute)
    with False k show ?thesis by (subst show_nat.simps) simp
  qed
qed

section \<open>Association lists\<close>

text \<open>An association list holds after an update or a deletion only what it held or was given, and keeps its
  keys when its values are mapped.\<close>

lemma values_update: "(k', w) \<in> set (AList.update k v xs) \<Longrightarrow> k' = k \<and> w = v \<or> (k', w) \<in> set xs"
  by (induction xs) (auto split: if_splits)

lemma values_delete: "(k', w) \<in> set (AList.delete k xs) \<Longrightarrow> (k', w) \<in> set xs"
  by (induction xs) (auto split: if_splits)

lemma keys_map: "map fst (map (\<lambda>(j, u). (j, f j u)) xs) = map fst xs"
  by (induction xs) auto

section \<open>Signed arithmetic\<close>

text \<open>Addition of \<open>i64\<close> values as the release build does it.\<close>

definition i64_add :: "int \<Rightarrow> int \<Rightarrow> int" where
  "i64_add a b = sint (word_of_int (a + b) :: u64)"

lemma i64_add_exact: "- (2 ^ 63) \<le> a + b \<Longrightarrow> a + b < 2 ^ 63 \<Longrightarrow> i64_add a b = a + b"
  unfolding i64_add_def by (simp add: signed_of_int signed_take_bit_int_eq_self del: of_int_add)

end
