(* ===== verification/Float_Rounding.thy ===== *)
theory Float_Rounding
  imports Complex_Main "HOL-Library.Log_Nat"
begin

text \<open>
  The standard library's \<open>f32\<close> and \<open>f64\<close>: a value is the rational number it stands for, and every operation
  rounds its exact result to 24 or 53 significant bits, ties to even. The values of this development stay far
  from the limits of the exponent, which are left out. The lemmas characterise the exponent, and show that
  rounding is monotone and keeps every number that fits in the significant bits.
\<close>

section \<open>Values and rounding\<close>

text \<open>The exponent of a positive number, and rounding to the nearest multiple, ties to even.\<close>

definition exponent_of :: "rat \<Rightarrow> int" where
  "exponent_of x =
    (let (a, b) = quotient_of x;
         k = int (floorlog 2 (nat a)) - int (floorlog 2 (nat b))
     in if 2 powi k \<le> x then k else k - 1)"

definition round_even :: "rat \<Rightarrow> int" where
  "round_even x =
    (let n = \<lfloor>x\<rfloor>; d = x - of_int n in
     if d < 1 / 2 then n else if d > 1 / 2 then n + 1 else if even n then n else n + 1)"

text \<open>Rounding to \<open>p + 1\<close> significant bits.\<close>

definition rounded :: "nat \<Rightarrow> rat \<Rightarrow> rat" where
  "rounded p x =
    (if x = 0 then 0
     else let e = exponent_of \<bar>x\<bar> - int p in of_int (round_even (x / 2 powi e)) * 2 powi e)"

definition f32 :: "rat \<Rightarrow> rat" where
  "f32 x = rounded 23 x"

definition f64 :: "rat \<Rightarrow> rat" where
  "f64 x = rounded 52 x"

section \<open>Rounding\<close>

lemma powi_nat: "0 \<le> k \<Longrightarrow> (2::rat) powi k = 2 ^ nat k"
  by (simp add: power_int_def)

lemma powi_mono: "a \<le> b \<Longrightarrow> (2::rat) powi a \<le> 2 powi b"
  by (rule power_int_increasing) simp_all

lemma powi_less_iff: "(2::rat) powi a < 2 powi b \<longleftrightarrow> a < b"
  by (metis linorder_not_le one_less_numeral_iff power_int_strict_increasing powi_mono semiring_norm(76))

lemma powi_add: "(2::rat) powi a * 2 powi b = 2 powi (a + b)"
  by (simp add: power_int_add)

lemma powi_add_nat: "0 \<le> a \<Longrightarrow> (2::rat) ^ nat a * 2 powi b = 2 powi (a + b)"
  by (simp only: powi_add flip: powi_nat)

lemma powi_add_int: "(2::rat) ^ n * 2 powi b = 2 powi (int n + b)"
  by (simp flip: powi_add)

lemma floorlog_bounds:
  assumes "0 < n"
  shows "(2::rat) powi (int (floorlog 2 n) - 1) \<le> of_nat n" "(of_nat n :: rat) < 2 powi int (floorlog 2 n)"
proof -
  let ?k = "floorlog 2 n"
  have b: "2 ^ (?k - 1) \<le> n \<and> n < 2 ^ ?k" using floorlog_bounds[of n 2] assms by simp
  have k: "0 < ?k" using assms by (simp add: floorlog_def)
  have "(2::rat) powi (int ?k - 1) = 2 ^ (?k - 1)" using k by (simp add: powi_nat nat_diff_distrib)
  also have "\<dots> = of_nat (2 ^ (?k - 1))" by simp
  also have "\<dots> \<le> of_nat n" using b by (simp only: of_nat_le_iff)
  finally show "(2::rat) powi (int ?k - 1) \<le> of_nat n" .
  have "(of_nat n :: rat) < of_nat (2 ^ ?k)" using b by (simp only: of_nat_less_iff)
  then show "(of_nat n :: rat) < 2 powi int ?k" by simp
qed

lemma exponent_of_bounds:
  assumes "0 < x"
  shows "2 powi exponent_of x \<le> x" "x < 2 powi (exponent_of x + 1)"
proof -
  obtain a b where ab: "quotient_of x = (a, b)" by force
  have b: "0 < b" using ab by (rule quotient_of_denom_pos)
  have x: "x = of_int a / of_int b" using ab by (rule quotient_of_div)
  have a: "0 < a" using assms b x by (simp add: zero_less_divide_iff)
  let ?a = "floorlog 2 (nat a)" and ?b = "floorlog 2 (nat b)"
  let ?k = "int ?a - int ?b"
  have xa: "x = of_nat (nat a) / of_nat (nat b)" using x a b by simp
  have fa: "(2::rat) powi (int ?a - 1) \<le> of_nat (nat a)" "(of_nat (nat a) :: rat) < 2 powi int ?a"
    using floorlog_bounds[of "nat a"] a by simp_all
  have fb: "(2::rat) powi (int ?b - 1) \<le> of_nat (nat b)" "(of_nat (nat b) :: rat) < 2 powi int ?b"
    using floorlog_bounds[of "nat b"] b by simp_all
  have nb: "(0::rat) < of_nat (nat b)" using b by simp
  have "of_nat (nat a) < (2::rat) powi int ?a" by (fact fa)
  also have "(2::rat) powi int ?a = 2 powi (?k + 1) * 2 powi (int ?b - 1)"
    by (simp only: powi_add) simp
  also have "\<dots> \<le> 2 powi (?k + 1) * of_nat (nat b)" using fb(1) by (intro mult_left_mono) simp_all
  finally have up: "x < 2 powi (?k + 1)" using nb by (simp add: xa divide_less_eq)
  have "2 powi (?k - 1) * of_nat (nat b) \<le> (2::rat) powi (?k - 1) * 2 powi int ?b"
    using fb(2) by (intro mult_left_mono) simp_all
  also have "\<dots> = 2 powi (int ?a - 1)" by (simp only: powi_add) simp
  also have "\<dots> \<le> of_nat (nat a)" by (fact fa)
  finally have lo: "2 powi (?k - 1) \<le> x" using nb by (simp add: xa le_divide_eq)
  have e: "exponent_of x = (if 2 powi ?k \<le> x then ?k else ?k - 1)"
    unfolding exponent_of_def ab Let_def prod.case by simp
  show "2 powi exponent_of x \<le> x" using lo by (simp add: e)
  show "x < 2 powi (exponent_of x + 1)" using up by (simp add: e)
qed

lemma exponent_of_unique: "2 powi k \<le> x \<Longrightarrow> x < 2 powi (k + 1) \<Longrightarrow> exponent_of x = k"
proof -
  assume a: "2 powi k \<le> x" "x < 2 powi (k + 1)"
  have "(0::rat) < 2 powi k" by simp
  then have x: "0 < x" using a(1) by (rule less_le_trans)
  have "2 powi k < (2::rat) powi (exponent_of x + 1)" using a exponent_of_bounds[OF x] by simp
  moreover have "2 powi exponent_of x < (2::rat) powi (k + 1)" using a exponent_of_bounds[OF x] by simp
  ultimately show ?thesis by (simp add: powi_less_iff)
qed

lemma exponent_of_mono: "0 < x \<Longrightarrow> x \<le> y \<Longrightarrow> exponent_of x \<le> exponent_of y"
proof -
  assume a: "0 < x" "x \<le> y"
  have "2 powi exponent_of x < (2::rat) powi (exponent_of y + 1)"
    using exponent_of_bounds[of x] exponent_of_bounds[of y] a by simp
  then show ?thesis by (simp add: powi_less_iff)
qed

lemma round_even_of_int [simp]: "round_even (of_int n) = n"
  by (simp add: round_even_def)

lemma round_even_mono: "x \<le> y \<Longrightarrow> round_even x \<le> round_even y"
proof -
  assume xy: "x \<le> y"
  then have f: "\<lfloor>x\<rfloor> \<le> \<lfloor>y\<rfloor>" by (rule floor_mono)
  have b: "\<lfloor>z\<rfloor> \<le> round_even z \<and> round_even z \<le> \<lfloor>z\<rfloor> + 1" for z
    by (simp add: round_even_def Let_def)
  show ?thesis
  proof (cases "\<lfloor>x\<rfloor> = \<lfloor>y\<rfloor>")
    case True
    then show ?thesis using xy by (auto simp: round_even_def Let_def)
  next
    case False
    then show ?thesis using f b[of x] b[of y] by linarith
  qed
qed

text \<open>A number of so many significant bits is kept.\<close>

lemma rounded_exact:
  assumes "m < 2 ^ Suc p"
  shows "rounded p (of_nat m * 2 powi e) = of_nat m * 2 powi e"
proof (cases "m = 0")
  case True
  then show ?thesis by (simp add: rounded_def)
next
  case False
  let ?x = "(of_nat m :: rat) * 2 powi e"
  have x: "0 < ?x" using False by simp
  let ?k = "exponent_of ?x"
  have "(of_nat m :: rat) < of_nat (2 ^ Suc p)" using assms by (simp only: of_nat_less_iff)
  then have "?x < 2 ^ (Suc p) * 2 powi e" by simp
  also have "\<dots> = (2::rat) powi (int (Suc p) + e)" by (rule powi_add_int)
  finally have "2 powi ?k < (2::rat) powi (int (Suc p) + e)" using exponent_of_bounds[OF x] by linarith
  then have k: "?k < int (Suc p) + e" by (simp only: powi_less_iff)
  have s: "?x / 2 powi (?k - int p) = of_int (int m * 2 ^ nat (e - (?k - int p)))"
  proof -
    have "?x / 2 powi (?k - int p) = of_nat m * (2 powi e / 2 powi (?k - int p))" by simp
    also have "(2::rat) powi e / 2 powi (?k - int p) = 2 powi (e - (?k - int p))" by (simp add: power_int_diff)
    also have "\<dots> = 2 ^ nat (e - (?k - int p))" using k by (intro powi_nat) simp
    finally show ?thesis by simp
  qed
  have "rounded p ?x = of_int (round_even (?x / 2 powi (?k - int p))) * 2 powi (?k - int p)"
    using x False unfolding rounded_def Let_def by simp
  also have "\<dots> = ?x / 2 powi (?k - int p) * 2 powi (?k - int p)" unfolding s round_even_of_int by simp
  finally show ?thesis by simp
qed

lemma rounded_dyadic: "m < 2 ^ Suc p \<Longrightarrow> rounded p (of_nat m / 2 ^ k) = of_nat m / 2 ^ k"
  using rounded_exact[of m p "- int k"] by (simp add: power_int_minus divide_inverse)

lemma rounded_mantissa:
  assumes "0 < x"
  shows "2 ^ p \<le> round_even (x / 2 powi (exponent_of x - int p))"
    and "round_even (x / 2 powi (exponent_of x - int p)) \<le> 2 ^ Suc p"
proof -
  let ?e = "exponent_of x"
  have p: "(2::rat) powi ?e = 2 ^ p * 2 powi (?e - int p)" "(2::rat) powi (?e + 1) = 2 ^ (Suc p) * 2 powi (?e - int p)"
    by (simp_all only: powi_add_int) (simp_all add: add.commute)
  have "of_int (2 ^ p) \<le> x / 2 powi (?e - int p)"
    using exponent_of_bounds(1)[OF assms] unfolding p by (simp add: le_divide_eq)
  from round_even_mono[OF this] show "2 ^ p \<le> round_even (x / 2 powi (?e - int p))" by (simp only: round_even_of_int)
  have "x / 2 powi (?e - int p) \<le> of_int (2 ^ Suc p)"
    using exponent_of_bounds(2)[OF assms] unfolding p by (simp add: divide_le_eq)
  from round_even_mono[OF this] show "round_even (x / 2 powi (?e - int p)) \<le> 2 ^ Suc p" by (simp only: round_even_of_int)
qed

lemma rounded_pos: "0 < x \<Longrightarrow> rounded p x = of_int (round_even (x / 2 powi (exponent_of x - int p))) * 2 powi (exponent_of x - int p)"
  unfolding rounded_def Let_def by simp

lemma rounded_nonneg: "0 \<le> x \<Longrightarrow> 0 \<le> rounded p x"
proof (cases "x = 0")
  case False
  assume "0 \<le> x"
  with False have x: "0 < x" by simp
  have "(0::int) \<le> 2 ^ p" by simp
  also have "\<dots> \<le> round_even (x / 2 powi (exponent_of x - int p))" by (rule rounded_mantissa(1)[OF x])
  finally have "0 \<le> round_even (x / 2 powi (exponent_of x - int p))" .
  then show ?thesis unfolding rounded_pos[OF x] by simp
qed (simp add: rounded_def)

lemma rounded_mono: "0 \<le> x \<Longrightarrow> x \<le> y \<Longrightarrow> rounded p x \<le> rounded p y"
proof (cases "x = 0")
  case True
  assume "x \<le> y"
  then show ?thesis using True rounded_nonneg[of y] by (simp add: rounded_def)
next
  case False
  assume "0 \<le> x" "x \<le> y"
  with False have x: "0 < x" and y: "0 < y" by simp_all
  let ?a = "exponent_of x" and ?b = "exponent_of y"
  have e: "?a \<le> ?b" by (rule exponent_of_mono[OF x \<open>x \<le> y\<close>])
  show ?thesis
  proof (cases "?a = ?b")
    case True
    have "x / 2 powi (?a - int p) \<le> y / 2 powi (?b - int p)"
      unfolding True using \<open>x \<le> y\<close> by (intro divide_right_mono) simp_all
    from round_even_mono[OF this] show ?thesis unfolding rounded_pos[OF x] rounded_pos[OF y] True by simp
  next
    case False
    with e have lt: "?a + 1 \<le> ?b" by simp
    have "rounded p x \<le> of_int (2 ^ Suc p) * 2 powi (?a - int p)"
      unfolding rounded_pos[OF x] using rounded_mantissa(2)[OF x] by (intro mult_right_mono) (simp_all only: of_int_le_iff, simp)
    also have "\<dots> = (2::rat) ^ (Suc p) * 2 powi (?a - int p)" by simp
    also have "\<dots> = 2 powi (?a + 1)" by (simp only: powi_add_int) (simp add: add.commute)
    also have "\<dots> \<le> 2 powi ?b" using lt by (rule powi_mono)
    also have "\<dots> = 2 ^ p * 2 powi (?b - int p)" by (simp only: powi_add_int) simp
    also have "\<dots> = of_int (2 ^ p) * 2 powi (?b - int p)" by simp
    also have "\<dots> \<le> rounded p y"
      unfolding rounded_pos[OF y] using rounded_mantissa(1)[OF y] by (intro mult_right_mono) (simp_all only: of_int_le_iff, simp)
    finally show ?thesis .
  qed
qed

section \<open>Single precision\<close>

lemma f32_exact: "m < 2 ^ 24 \<Longrightarrow> f32 (of_nat m * 2 powi e) = of_nat m * 2 powi e"
  unfolding f32_def by (rule rounded_exact) simp

lemma f32_dyadic: "m < 2 ^ 24 \<Longrightarrow> f32 (of_nat m / 2 ^ k) = of_nat m / 2 ^ k"
  unfolding f32_def by (rule rounded_dyadic) simp

lemma f32_nonneg: "0 \<le> x \<Longrightarrow> 0 \<le> f32 x"
  unfolding f32_def by (rule rounded_nonneg)

lemma f32_mono: "0 \<le> x \<Longrightarrow> x \<le> y \<Longrightarrow> f32 x \<le> f32 y"
  unfolding f32_def by (rule rounded_mono)

lemma f32_zero: "f32 0 = 0"
  by (simp add: f32_def rounded_def)

section \<open>Double precision\<close>

lemma f64_exact: "m < 2 ^ 53 \<Longrightarrow> f64 (of_nat m * 2 powi e) = of_nat m * 2 powi e"
  unfolding f64_def by (rule rounded_exact) simp

lemma f64_nonneg: "0 \<le> x \<Longrightarrow> 0 \<le> f64 x"
  unfolding f64_def by (rule rounded_nonneg)

lemma f64_mono: "0 \<le> x \<Longrightarrow> x \<le> y \<Longrightarrow> f64 x \<le> f64 y"
  unfolding f64_def by (rule rounded_mono)

lemma f64_zero: "f64 0 = 0"
  by (simp add: f64_def rounded_def)

end
