(* ===== verification/Json_Value.thy ===== *)
theory Json_Value
  imports Hop_Prelude Float_Rounding
begin

text \<open>
  The values of \<open>serde_json\<close> as the automation server and the dashboard use them. A number is an integer of 64
  bits, signed or unsigned, or a floating-point number; an object keeps its members in the order of insertion
  (the feature \<open>preserve_order\<close> of \<open>Cargo.toml\<close>). The parser and the printer of the library are parameters
  of the definitions that use them.
\<close>

datatype json =
    JNull
  | JBool bool
  | JInt int
  | JFloat rat
  | JStr string
  | JArr "json list"
  | JObj "(string \<times> json) list"

text \<open>\<open>get\<close>, and indexing with a name, which gives \<open>null\<close> for what is not there.\<close>

fun jget :: "json \<Rightarrow> string \<Rightarrow> json option" where
  "jget (JObj kvs) k = map_of kvs k"
| "jget _ _ = None"

definition field :: "json \<Rightarrow> string \<Rightarrow> json" where
  "field v k = (case jget v k of Some x \<Rightarrow> x | None \<Rightarrow> JNull)"

text \<open>Assignment to a member of an object; \<open>null\<close> becomes an object first.\<close>

fun jset :: "string \<Rightarrow> json \<Rightarrow> json \<Rightarrow> json" where
  "jset k x (JObj kvs) = JObj (AList.update k x kvs)"
| "jset k x _ = JObj [(k, x)]"

fun as_str :: "json \<Rightarrow> string option" where
  "as_str (JStr s) = Some s"
| "as_str _ = None"

fun as_bool :: "json \<Rightarrow> bool option" where
  "as_bool (JBool b) = Some b"
| "as_bool _ = None"

fun as_array :: "json \<Rightarrow> json list option" where
  "as_array (JArr vs) = Some vs"
| "as_array _ = None"

fun as_i64 :: "json \<Rightarrow> int option" where
  "as_i64 (JInt n) = (if - (2 ^ 63) \<le> n \<and> n < 2 ^ 63 then Some n else None)"
| "as_i64 _ = None"

fun as_u64 :: "json \<Rightarrow> nat option" where
  "as_u64 (JInt n) = (if 0 \<le> n \<and> n < 2 ^ 64 then Some (nat n) else None)"
| "as_u64 _ = None"

fun as_f64 :: "json \<Rightarrow> rat option" where
  "as_f64 (JInt n) = Some (if n < 0 then - f64 (of_int (- n)) else f64 (of_int n))"
| "as_f64 (JFloat x) = Some x"
| "as_f64 _ = None"

text \<open>\<open>unwrap_or\<close>, and the conversion \<open>as i32\<close> of an \<open>i64\<close>.\<close>

definition get_or_else :: "'a option \<Rightarrow> 'a \<Rightarrow> 'a" where
  "get_or_else x d = (case x of Some v \<Rightarrow> v | None \<Rightarrow> d)"

definition as_i32 :: "int \<Rightarrow> int" where
  "as_i32 n = sint (word_of_int n :: 32 word)"

definition i32_at :: "json \<Rightarrow> string \<Rightarrow> int option" where
  "i32_at v k = map_option as_i32 (as_i64 (field v k))"

lemma get_or_else_simps [simp]: "get_or_else (Some v) d = v" "get_or_else None d = d"
  by (simp_all add: get_or_else_def)

lemma field_simps_obj [simp]:
  "field JNull k = JNull"
  "field (JStr s) k = JNull"
  "field (JArr vs) k = JNull"
  "field (JObj []) k = JNull"
  "field (JObj ((k', x) # kvs)) k = (if k = k' then x else field (JObj kvs) k)"
  by (simp_all add: field_def)

lemma jget_field: "jget v k = Some x \<Longrightarrow> field v k = x"
  by (simp add: field_def)

lemma jget_jset: "jget (jset k x (JObj kvs)) k' = (if k' = k then Some x else map_of kvs k')"
  by (simp add: update_conv')

lemma as_i32_exact: "- (2 ^ 31) \<le> n \<Longrightarrow> n < 2 ^ 31 \<Longrightarrow> as_i32 n = n"
  unfolding as_i32_def by (simp add: signed_of_int signed_take_bit_int_eq_self)

lemma as_i32_range: "- (2 ^ 31) \<le> as_i32 n" "as_i32 n < 2 ^ 31"
  unfolding as_i32_def using sint_range_size[of "word_of_int n :: 32 word"] by (simp_all add: word_size)

end
