(* ===== verification/Mcp_Screen.thy ===== *)
theory Mcp_Screen
  imports Json_Value
begin

text \<open>
  What the automation server of \<open>src/mcp_server.rs\<close> sees of the screen, as built for FreeBSD: capturing and
  cropping a frame, and comparing two captures as a whole and by regions. The lemmas show that the nine cells
  of the comparison divide the picture, so that the regions account for the whole change. The capture library
  and the clock are parameters that change a world of type \<open>'w\<close>.
\<close>

section \<open>Capturing\<close>

datatype frame_answer = PixelFrame nat bytes | TextureFrame | WouldBlock | FrameError string

text \<open>
  The machine: a monotonic clock in milliseconds, the displays with their sizes, the creation of a capturer for
  a display (an error or nothing) and its next frame, given with the bytes of a row.
\<close>

record 'w machine =
  now_ms :: "'w \<Rightarrow> nat"
  sleep_ms :: "nat \<Rightarrow> 'w \<Rightarrow> 'w"
  all_displays :: "'w \<Rightarrow> (string + (nat \<times> nat) list) \<times> 'w"
  new_capturer :: "nat \<Rightarrow> 'w \<Rightarrow> string option \<times> 'w"
  next_frame :: "nat \<Rightarrow> 'w \<Rightarrow> frame_answer \<times> 'w"

type_synonym region = "int \<times> int \<times> int \<times> int"
type_synonym capture = "bytes \<times> u32 \<times> u32"

definition parse_crop_region :: "json \<Rightarrow> region option" where
  "parse_crop_region args =
    (case (i32_at args ''x'', i32_at args ''y'', i32_at args ''width'', i32_at args ''height'') of
       (Some x, Some y, Some w, Some h) \<Rightarrow> Some (x, y, w, h)
     | _ \<Rightarrow> None)"

text \<open>Thirty attempts; a frame that is not there yet is waited for.\<close>

primrec grab :: "('w, 'z) machine_scheme \<Rightarrow> nat \<Rightarrow> nat \<Rightarrow> 'w \<Rightarrow> (string + frame_answer) option \<times> 'w" where
  "grab M d 0 w = (None, w)"
| "grab M d (Suc n) w =
    (case next_frame M d w of
       (WouldBlock, w) \<Rightarrow> grab M d n (sleep_ms M 100 w)
     | (FrameError e, w) \<Rightarrow> (Some (Inl (''Capture error: '' @ e)), w)
     | (f, w) \<Rightarrow> (Some (Inr f), w))"

definition rgba_pixel :: "bytes \<Rightarrow> nat \<Rightarrow> bytes" where
  "rgba_pixel bgra i = (if i + 3 < length bgra then [bgra ! (i + 2), bgra ! (i + 1), bgra ! i, bgra ! (i + 3)] else [])"

definition to_rgba :: "nat \<Rightarrow> nat \<Rightarrow> nat \<Rightarrow> bytes \<Rightarrow> bytes" where
  "to_rgba w h stride bgra = concat (map (\<lambda>row. concat (map (\<lambda>col. rgba_pixel bgra (stride * row + 4 * col)) [0..<w])) [0..<h])"

definition as_usize :: "int \<Rightarrow> nat" where
  "as_usize n = unat (word_of_int n :: usize)"

definition crop :: "nat \<Rightarrow> nat \<Rightarrow> bytes \<Rightarrow> region \<Rightarrow> string + capture" where
  "crop w h full = (\<lambda>(rx, ry, rw, rh).
    let rx = nat (max rx 0); ry = nat (max ry 0); rw = min (as_usize rw) (w - rx); rh = min (as_usize rh) (h - ry)
    in if rw = 0 \<or> rh = 0 then Inl ''Crop region out of bounds''
       else Inr (concat (map (\<lambda>row.
                   let start = (row * w + rx) * 4; last = start + rw * 4
                   in if last \<le> length full then take (rw * 4) (drop start full) else []) [ry..<ry + rh]),
                 word_of_nat rw, word_of_nat rh))"

definition capture_rgba :: "('w, 'z) machine_scheme \<Rightarrow> region option \<Rightarrow> 'w \<Rightarrow> (string + capture) \<times> 'w" where
  "capture_rgba M region w =
    (case all_displays M w of
       (Inl e, w) \<Rightarrow> (Inl (''Failed to get displays: '' @ e), w)
     | (Inr [], w) \<Rightarrow> (Inl ''No displays found'', w)
     | (Inr ((dw, dh) # _), w) \<Rightarrow>
         (case new_capturer M 0 w of
            (Some e, w) \<Rightarrow> (Inl (''Failed to create capturer: '' @ e), w)
          | (None, w) \<Rightarrow>
              (case grab M 0 30 w of
                 (Some (Inl e), w) \<Rightarrow> (Inl e, w)
               | (Some (Inr (PixelFrame stride bgra)), w) \<Rightarrow>
                   let full = to_rgba dw dh stride bgra
                   in (case region of
                         Some r \<Rightarrow> crop dw dh full r
                       | None \<Rightarrow> Inr (full, word_of_nat dw, word_of_nat dh), w)
               | (Some (Inr _), w) \<Rightarrow> (Inl ''GPU texture frames not supported'', w)
               | (None, w) \<Rightarrow> (Inl ''Failed to capture frame after retries'', w))))"

section \<open>Comparing captures\<close>

definition byte_diff :: "u8 \<Rightarrow> u8 \<Rightarrow> nat" where
  "byte_diff a b = nat \<bar>int (unat a) - int (unat b)\<bar>"

definition pixel_changed :: "nat \<Rightarrow> bytes \<Rightarrow> bytes \<Rightarrow> nat \<Rightarrow> bool" where
  "pixel_changed threshold buf1 buf2 i \<longleftrightarrow>
    byte_diff (buf1 ! i) (buf2 ! i) > threshold \<or> byte_diff (buf1 ! (i + 1)) (buf2 ! (i + 1)) > threshold
    \<or> byte_diff (buf1 ! (i + 2)) (buf2 ! (i + 2)) > threshold"

text \<open>The share of the changed pixels in percent, as computed in double precision.\<close>

definition percentage :: "nat \<Rightarrow> nat \<Rightarrow> rat" where
  "percentage changed whole = f64 (f64 (of_nat changed / of_nat whole) * 100)"

text \<open>
  \<^const>\<open>None\<close>: an index is out of range, or the number of pixels is zero. Captures consist of whole pixels,
  where neither happens.
\<close>

definition pixel_diff_percentage :: "bytes \<Rightarrow> bytes \<Rightarrow> nat \<Rightarrow> rat option" where
  "pixel_diff_percentage buf1 buf2 threshold =
    (if length buf1 \<noteq> length buf2 \<or> buf1 = [] then Some 100
     else if length buf1 mod 4 = 1 \<or> length buf1 mod 4 = 2 \<or> length buf1 = 3 then None
     else let changed = length (filter (\<lambda>k. pixel_changed threshold buf1 buf2 (4 * k)) [0..<(length buf1 + 3) div 4])
          in Some (percentage changed (length buf1 div 4)))"

text \<open>The range of rows or columns of a cell, of three along \<open>n\<close>.\<close>

definition cell_range :: "u32 \<Rightarrow> nat \<Rightarrow> nat list" where
  "cell_range n g = (let c = unat n div 3 in [g * c..<if g = 2 then unat n else g * c + c])"

definition cell_indices :: "u32 \<Rightarrow> u32 \<Rightarrow> nat \<Rightarrow> nat \<Rightarrow> nat list" where
  "cell_indices width height gy gx =
    concat (map (\<lambda>row. map (\<lambda>col. unat ((word_of_nat row * width + word_of_nat col) * 4 :: u32)) (cell_range width gx))
      (cell_range height gy))"

definition in_both :: "bytes \<Rightarrow> bytes \<Rightarrow> nat \<Rightarrow> bool" where
  "in_both buf1 buf2 i \<longleftrightarrow> i + 3 < length buf1 \<and> i + 3 < length buf2"

definition cell_total :: "bytes \<Rightarrow> bytes \<Rightarrow> u32 \<Rightarrow> u32 \<Rightarrow> nat \<Rightarrow> nat \<Rightarrow> nat" where
  "cell_total buf1 buf2 width height gy gx = length (filter (in_both buf1 buf2) (cell_indices width height gy gx))"

definition cell_changed :: "bytes \<Rightarrow> bytes \<Rightarrow> u32 \<Rightarrow> u32 \<Rightarrow> nat \<Rightarrow> nat \<Rightarrow> nat" where
  "cell_changed buf1 buf2 width height gy gx =
    length (filter (\<lambda>i. in_both buf1 buf2 i \<and> pixel_changed 10 buf1 buf2 i) (cell_indices width height gy gx))"

definition AREAS :: "string list" where
  "AREAS = [''top-left'', ''top-center'', ''top-right'', ''middle-left'', ''center'', ''middle-right'',
            ''bottom-left'', ''bottom-center'', ''bottom-right'']"

text \<open>\<open>(pct * 10.0).round() / 10.0\<close> of a number that is not negative.\<close>

definition round_tenth :: "rat \<Rightarrow> rat" where
  "round_tenth p = f64 (of_int \<lfloor>f64 (p * 10) + 1 / 2\<rfloor> / 10)"

definition region_value :: "nat \<Rightarrow> rat \<Rightarrow> json" where
  "region_value idx pct =
    JObj [(''area'', JStr (AREAS ! idx)), (''changed_percentage'', JFloat (round_tenth pct)),
          (''intensity'', JStr (if pct > 30 then ''high'' else if pct > 5 then ''medium'' else ''low''))]"

definition cell_region :: "bytes \<Rightarrow> bytes \<Rightarrow> u32 \<Rightarrow> u32 \<Rightarrow> nat \<Rightarrow> nat \<Rightarrow> json list" where
  "cell_region buf1 buf2 width height gy gx =
    (let n = cell_total buf1 buf2 width height gy gx;
         pct = percentage (cell_changed buf1 buf2 width height gy gx) n
     in if n > 0 \<and> pct > 1 / 2 then [region_value (gy * 3 + gx) pct] else [])"

definition grid_diff :: "bytes \<Rightarrow> bytes \<Rightarrow> u32 \<Rightarrow> u32 \<Rightarrow> json list" where
  "grid_diff buf1 buf2 width height =
    concat (map (\<lambda>gy. concat (map (cell_region buf1 buf2 width height gy) [0..<3])) [0..<3])"

section \<open>The cells divide the picture\<close>

lemma length_filter_upt: "length (filter P (map h [m..<n])) = (\<Sum>k = m..<n. if P (h k) then 1 else 0)"
  by (induction n) (auto simp: atLeastLessThanSuc)

lemma length_filter_grid:
  "length (filter P (concat (map (\<lambda>r. map (g r) [a..<b]) [c..<d]))) = (\<Sum>r = c..<d. \<Sum>k = a..<b. if P (g r k) then 1 else 0)"
proof (induction d)
  case (Suc d)
  then show ?case by (cases "c \<le> d") (simp_all only: upt_Suc if_True map_append concat_append filter_append length_append
    list.map concat.simps append_Nil2 length_filter_upt atLeastLessThanSuc sum.insert, simp_all add: add.commute)
qed simp

lemma sum_three:
  fixes f :: "nat \<Rightarrow> nat"
  shows "(\<Sum>g = 0..<3. \<Sum>k\<in>set (cell_range n g). f k) = (\<Sum>k = 0..<unat n. f k)"
proof -
  let ?c = "unat n div 3"
  have c: "?c + ?c \<le> unat n" by simp
  have three: "(\<Sum>g = 0..<3. F g) = F 0 + (F 1 + F 2)" for F :: "nat \<Rightarrow> nat"
    by (simp add: numeral_3_eq_3 numeral_2_eq_2)
  have "(\<Sum>k = 0..<unat n. f k) = (\<Sum>k = 0..<?c. f k) + ((\<Sum>k = ?c..<?c + ?c. f k) + (\<Sum>k = ?c + ?c..<unat n. f k))"
    using c sum.atLeastLessThan_concat[of 0 ?c "?c + ?c" f] sum.atLeastLessThan_concat[of 0 "?c + ?c" "unat n" f] by linarith
  moreover have "set (cell_range n 0) = {0..<?c}" "set (cell_range n 1) = {?c..<?c + ?c}" "set (cell_range n 2) = {?c + ?c..<unat n}"
    by (simp_all add: cell_range_def Let_def mult_2)
  ultimately show ?thesis unfolding three by presburger
qed

lemma sum_rows:
  fixes f :: "nat \<Rightarrow> nat"
  shows "(\<Sum>r = 0..<h. \<Sum>c = 0..<w. f (r * w + c)) = (\<Sum>k = 0..<h * w. f k)"
proof (induction h)
  case (Suc h)
  have "(\<Sum>c = 0..<w. f (h * w + c)) = (\<Sum>k = h * w..<h * w + w. f k)"
    using sum.shift_bounds_nat_ivl[of f 0 "h * w" w] by (simp add: add.commute)
  then show ?case
    using Suc sum.atLeastLessThan_concat[of 0 "h * w" "h * w + w" f] by (simp add: atLeast0_lessThan_Suc add.commute)
qed simp

text \<open>Where the picture has fewer than \<open>2 ^ 30\<close> pixels, the index of a pixel does not wrap around.\<close>

lemma pixel_index:
  assumes "r < unat height" and "c < unat width" and "unat width * unat height < 2 ^ 30"
  shows "unat ((word_of_nat r * width + word_of_nat c) * 4 :: u32) = 4 * (r * unat width + c)"
proof -
  have "r * unat width + c < Suc r * unat width" using assms(2) by simp
  also have "\<dots> \<le> unat height * unat width" using assms(1) by (intro mult_le_mono1) simp
  finally have b: "r * unat width + c < 2 ^ 30" using assms(3) by (simp add: mult.commute)
  have "(word_of_nat r * width + word_of_nat c) * 4 = (word_of_nat (4 * (r * unat width + c)) :: u32)" by (simp add: algebra_simps)
  then show ?thesis using b by (simp add: unat_of_nat take_bit_nat_eq_self del: of_nat_mult of_nat_add)
qed

definition cell_count :: "(nat \<Rightarrow> bool) \<Rightarrow> u32 \<Rightarrow> u32 \<Rightarrow> nat \<Rightarrow> nat \<Rightarrow> nat" where
  "cell_count P width height gy gx = length (filter P (cell_indices width height gy gx))"

lemma cell_range_below: "g < 3 \<Longrightarrow> k \<in> set (cell_range n g) \<Longrightarrow> k < unat n"
proof -
  assume a: "g < 3" "k \<in> set (cell_range n g)"
  obtain c where c: "c = unat n div 3" "3 * c \<le> unat n" by simp
  have k: "k < (if g = 2 then unat n else g * c + c)" using a(2) by (auto simp: cell_range_def Let_def c(1))
  have "g = 0 \<or> g = 1 \<or> g = 2" using a(1) by linarith
  then show ?thesis using k c(2) by (auto simp del: c(1))
qed

lemma cell_count_sum:
  assumes "unat width * unat height < 2 ^ 30" and "gy < 3" and "gx < 3"
  shows "cell_count P width height gy gx
    = (\<Sum>r\<in>set (cell_range height gy). \<Sum>c\<in>set (cell_range width gx). if P (4 * (r * unat width + c)) then 1 else 0)"
proof -
  have "cell_count P width height gy gx
      = (\<Sum>r\<in>set (cell_range height gy). \<Sum>c\<in>set (cell_range width gx).
          if P (unat ((word_of_nat r * width + word_of_nat c) * 4 :: u32)) then 1 else 0)"
    unfolding cell_count_def cell_indices_def cell_range_def Let_def length_filter_grid set_upt ..
  also have "\<dots> = (\<Sum>r\<in>set (cell_range height gy). \<Sum>c\<in>set (cell_range width gx). if P (4 * (r * unat width + c)) then 1 else 0)"
    by (intro sum.cong refl) (simp only: pixel_index[OF cell_range_below[OF assms(2)] cell_range_below[OF assms(3)] assms(1)])
  finally show ?thesis .
qed

lemma cells_partition:
  assumes "unat width * unat height < 2 ^ 30"
  shows "(\<Sum>gy = 0..<3. \<Sum>gx = 0..<3. cell_count P width height gy gx)
    = length (filter (\<lambda>k. P (4 * k)) [0..<unat width * unat height])"
proof -
  let ?f = "\<lambda>k. (if P (4 * k) then 1 else 0) :: nat" and ?w = "unat width"
  have "(\<Sum>gy = 0..<3. \<Sum>gx = 0..<3. cell_count P width height gy gx)
      = (\<Sum>gy = 0..<3. \<Sum>gx = 0..<3. \<Sum>r\<in>set (cell_range height gy). \<Sum>c\<in>set (cell_range width gx). ?f (r * ?w + c))"
    by (intro sum.cong refl cell_count_sum[OF assms]) simp_all
  also have "\<dots> = (\<Sum>gy = 0..<3. \<Sum>r\<in>set (cell_range height gy). \<Sum>c = 0..<?w. ?f (r * ?w + c))"
    by (rule sum.cong[OF refl], subst sum.swap) (simp only: sum_three)
  also have "\<dots> = (\<Sum>k = 0..<unat height * ?w. ?f k)" unfolding sum_three by (rule sum_rows)
  also have "\<dots> = length (filter (\<lambda>k. P (4 * k)) [0..<?w * unat height])"
    using length_filter_grid[of "\<lambda>k. P (4 * k)" "\<lambda>_ k. k" 0 "?w * unat height" 0 1] by (simp add: mult.commute)
  finally show ?thesis .
qed

lemma length_filter_conj: "length (filter (\<lambda>x. P x \<and> Q x) xs) \<le> length (filter P xs)"
  by (induction xs) auto

lemma cell_counts:
  "cell_total b1 b2 width height gy gx = cell_count (in_both b1 b2) width height gy gx"
  "cell_changed b1 b2 width height gy gx = cell_count (\<lambda>i. in_both b1 b2 i \<and> pixel_changed 10 b1 b2 i) width height gy gx"
  by (simp_all add: cell_total_def cell_changed_def cell_count_def)

section \<open>The regions account for the change\<close>

text \<open>A share of the whole is at most the largest share of a part.\<close>

lemma some_part_at_least:
  fixes c n :: "'a \<Rightarrow> nat"
  assumes "finite A" and "(\<Sum>a\<in>A. n a) > 0" and "\<And>a. a \<in> A \<Longrightarrow> c a \<le> n a"
  shows "\<exists>a\<in>A. 0 < n a \<and> of_nat (\<Sum>a\<in>A. c a) / of_nat (\<Sum>a\<in>A. n a) \<le> (of_nat (c a) / of_nat (n a) :: rat)"
proof (rule ccontr)
  let ?C = "\<Sum>a\<in>A. c a" and ?N = "\<Sum>a\<in>A. n a"
  assume no: "\<not> ?thesis"
  have less: "c a * ?N < n a * ?C" if a: "a \<in> A" "0 < n a" for a
  proof -
    have "(of_nat (c a) / of_nat (n a) :: rat) < of_nat ?C / of_nat ?N" using no a by (metis linorder_not_le)
    then have "(of_nat (c a) * of_nat ?N :: rat) < of_nat ?C * of_nat (n a)"
      using a(2) assms(2) by (simp add: divide_less_eq less_divide_eq del: of_nat_sum)
    then have "(of_nat (c a * ?N) :: rat) < of_nat (n a * ?C)" by (simp only: of_nat_mult mult.commute)
    then show ?thesis by (simp only: of_nat_less_iff)
  qed
  obtain a where a: "a \<in> A" "0 < n a" using assms(2) by (metis gr0I sum.neutral less_irrefl)
  have "(\<Sum>a\<in>A. c a * ?N) < (\<Sum>a\<in>A. n a * ?C)"
  proof (rule sum_strict_mono_ex1[OF assms(1)])
    show "\<forall>x\<in>A. c x * ?N \<le> n x * ?C"
    proof
      fix x assume x: "x \<in> A"
      show "c x * ?N \<le> n x * ?C"
        using less[OF x] assms(3)[OF x] by (cases "n x = 0") (auto simp: less_imp_le)
    qed
    show "\<exists>x\<in>A. c x * ?N < n x * ?C" using less[OF a] a by blast
  qed
  then show False by (simp add: sum_distrib_right[symmetric] mult.commute)
qed

lemma percentage_mono:
  "of_nat c / of_nat n \<le> (of_nat c' / of_nat n' :: rat) \<Longrightarrow> percentage c n \<le> percentage c' n'"
  unfolding percentage_def by (intro f64_mono mult_right_mono) (simp_all add: f64_nonneg)

text \<open>Two captures of the same \<open>width\<close> and \<open>height\<close>, whose pixels have indices below \<open>2 ^ 32\<close>.\<close>

definition same_size :: "bytes \<Rightarrow> bytes \<Rightarrow> u32 \<Rightarrow> u32 \<Rightarrow> bool" where
  "same_size b1 b2 width height \<longleftrightarrow>
    length b1 = 4 * (unat width * unat height) \<and> length b2 = length b1 \<and> 0 < length b1 \<and> unat width * unat height < 2 ^ 30"

lemma whole_counts:
  assumes "same_size b1 b2 width height"
  shows "(\<Sum>gy = 0..<3. \<Sum>gx = 0..<3. cell_total b1 b2 width height gy gx) = length b1 div 4"
    and "pixel_diff_percentage b1 b2 10
      = Some (percentage (\<Sum>gy = 0..<3. \<Sum>gx = 0..<3. cell_changed b1 b2 width height gy gx) (length b1 div 4))"
proof -
  let ?n = "unat width * unat height"
  have n: "length b1 = 4 * ?n" "length b2 = 4 * ?n" "?n < 2 ^ 30" "0 < ?n"
    using assms unfolding same_size_def by (simp_all only: mult_pos_pos zero_less_mult_iff, simp_all)
  have all: "filter (\<lambda>k. in_both b1 b2 (4 * k)) [0..<?n] = [0..<?n]"
    by (rule filter_True) (simp add: in_both_def n)
  then show "(\<Sum>gy = 0..<3. \<Sum>gx = 0..<3. cell_total b1 b2 width height gy gx) = length b1 div 4"
    unfolding cell_counts cells_partition[OF n(3)] by (simp add: n)
  have "filter (\<lambda>k. in_both b1 b2 (4 * k) \<and> pixel_changed 10 b1 b2 (4 * k)) [0..<?n] = filter (\<lambda>k. pixel_changed 10 b1 b2 (4 * k)) [0..<?n]"
    by (rule filter_cong[OF refl]) (simp add: in_both_def n)
  moreover have "(4 * ?n + 3) div 4 = ?n" by simp
  moreover have "b1 \<noteq> []" using n(1,4) by force
  moreover have "4 * m \<noteq> 3" for m :: nat by presburger
  ultimately show "pixel_diff_percentage b1 b2 10
      = Some (percentage (\<Sum>gy = 0..<3. \<Sum>gx = 0..<3. cell_changed b1 b2 width height gy gx) (length b1 div 4))"
    unfolding cell_counts cells_partition[OF n(3)] pixel_diff_percentage_def using n by (simp add: mod_mult_self1_is_0)
qed

lemma some_region_changed_most:
  assumes "same_size b1 b2 width height"
  shows "\<exists>gy<3. \<exists>gx<3. 0 < cell_total b1 b2 width height gy gx
    \<and> the (pixel_diff_percentage b1 b2 10)
        \<le> percentage (cell_changed b1 b2 width height gy gx) (cell_total b1 b2 width height gy gx)"
proof -
  let ?A = "{0..<3} \<times> {0..<3} :: (nat \<times> nat) set"
  let ?c = "\<lambda>(gy, gx). cell_changed b1 b2 width height gy gx" and ?n = "\<lambda>(gy, gx). cell_total b1 b2 width height gy gx"
  have N: "(\<Sum>a\<in>?A. ?n a) = length b1 div 4" using whole_counts(1)[OF assms] by (simp add: sum.cartesian_product)
  have p: "pixel_diff_percentage b1 b2 10 = Some (percentage (\<Sum>a\<in>?A. ?c a) (\<Sum>a\<in>?A. ?n a))"
    unfolding N using whole_counts(2)[OF assms] by (simp add: sum.cartesian_product)
  have "0 < length b1" "length b1 mod 4 = 0" using assms unfolding same_size_def by (blast, simp)
  then have "0 < length b1 div 4" by presburger
  moreover have "?c a \<le> ?n a" for a
    by (cases a) (auto simp: cell_counts cell_count_def intro: length_filter_conj)
  ultimately obtain gy gx where g: "gy < 3" "gx < 3" "0 < ?n (gy, gx)"
    and le: "percentage (\<Sum>a\<in>?A. ?c a) (\<Sum>a\<in>?A. ?n a) \<le> percentage (?c (gy, gx)) (?n (gy, gx))"
    using some_part_at_least[of ?A ?n ?c] percentage_mono N by (fastforce simp del: of_nat_sum)
  show ?thesis unfolding p option.sel using g le by auto
qed

lemma in_grid:
  "gy < 3 \<Longrightarrow> gx < 3 \<Longrightarrow> v \<in> set (cell_region b1 b2 width height gy gx) \<Longrightarrow> v \<in> set (grid_diff b1 b2 width height)"
  by (simp add: grid_diff_def) (metis atLeastLessThan_iff le0)

lemma nothing_changed: "cell_changed b b width height gy gx = 0"
  by (simp add: cell_changed_def pixel_changed_def byte_diff_def)

text \<open>
  C34. For two captures of the same size, of fewer than \<open>2 ^ 30\<close> pixels, the share of changed pixels is a number, and
  when it is more than half a percent some region is reported whose own share, from which its entry is made, is
  at least that; a capture compared with itself has no share and no regions.
\<close>

theorem regions_explain_change:
  assumes "same_size b1 b2 width height"
  shows "\<exists>p. pixel_diff_percentage b1 b2 10 = Some p
    \<and> (p > 1 / 2 \<longrightarrow> (\<exists>area<9. \<exists>pct\<ge>p. region_value area pct \<in> set (grid_diff b1 b2 width height)))
    \<and> (b1 = b2 \<longrightarrow> p = 0 \<and> grid_diff b1 b2 width height = [])"
proof -
  obtain p where p: "pixel_diff_percentage b1 b2 10 = Some p" using whole_counts(2)[OF assms] by blast
  obtain gy gx where g: "gy < 3" "gx < 3" "0 < cell_total b1 b2 width height gy gx"
      "p \<le> percentage (cell_changed b1 b2 width height gy gx) (cell_total b1 b2 width height gy gx)"
    using some_region_changed_most[OF assms] p by auto
  have "region_value (gy * 3 + gx) (percentage (cell_changed b1 b2 width height gy gx) (cell_total b1 b2 width height gy gx))
      \<in> set (cell_region b1 b2 width height gy gx)" if "p > 1 / 2"
    using g(3,4) that by (simp add: cell_region_def Let_def)
  then have region: "\<exists>area<9. \<exists>pct\<ge>p. region_value area pct \<in> set (grid_diff b1 b2 width height)" if "p > 1 / 2"
    using that g in_grid[OF g(1,2)] by (intro exI[of _ "gy * 3 + gx"] conjI exI[of _ "percentage _ _"]) auto
  have zero: "percentage 0 n = 0" for n by (simp add: percentage_def f64_zero)
  have "p = 0 \<and> grid_diff b1 b2 width height = []" if "b1 = b2"
    using whole_counts(2)[OF assms] p that by (simp add: nothing_changed zero grid_diff_def cell_region_def)
  then show ?thesis using p region by blast
qed

theorem regions_explain_change_witness:
  "\<exists>p. pixel_diff_percentage (replicate 4 0) (replicate 4 255) 10 = Some p
    \<and> (p > 1 / 2 \<longrightarrow> (\<exists>area<9. \<exists>pct\<ge>p. region_value area pct \<in> set (grid_diff (replicate 4 0) (replicate 4 255) 1 1)))"
proof -
  have "same_size (replicate 4 0) (replicate 4 255) 1 1" by (simp add: same_size_def)
  from regions_explain_change[OF this] show ?thesis by blast
qed

end
