(* ===== verification/Ui_Sessions.thy ===== *)
theory Ui_Sessions
  imports Hop_Prelude
begin

text \<open>
  The sessions of the main window, each a process of its own: the registry of \<open>src/ui.rs\<close> and the commands that
  a session reads from its standard input (\<open>src/ui/remote.rs\<close>). The registry is keyed by peer and kind of
  session, the pipes by the peer alone. The text written to a pipe is kept whole; what the operating system
  answers is an argument.
\<close>

section \<open>The registry\<close>

type_synonym child_key = "string \<times> string"

text \<open>\<open>running\<close> stands for the keys of the hash map in the order of an iteration.\<close>

record ui_children =
  running :: "child_key list"
  pipes :: "(string \<times> string) list"
  spawned :: "string list list"
  killed :: "child_key list"

text \<open>
  Whether a session's process has ended, whether the program finds itself and can be started, and whether a
  pipe can be written to.
\<close>

record children_env =
  has_exited :: "child_key \<Rightarrow> bool"
  can_spawn :: "string list \<Rightarrow> bool"
  pipe_open :: "string \<Rightarrow> bool"

definition remote_args :: "string \<Rightarrow> string \<Rightarrow> bool \<Rightarrow> string option \<Rightarrow> string option \<Rightarrow> string list" where
  "remote_args i remote_type force_relay self_id password =
    (if remote_type = ''invite'' then
       [''--invite'', i] @ (case self_id of Some s \<Rightarrow> [s] | None \<Rightarrow> []) @ (case password of Some p \<Rightarrow> [p] | None \<Rightarrow> [])
     else [''--'' @ remote_type, i] @ (case password of Some p \<Rightarrow> [''--password'', p] | None \<Rightarrow> []))
    @ (if force_relay then (if remote_type \<noteq> ''invite'' then [''''] else []) @ [''--relay''] else [])"

definition new_remote ::
  "children_env \<Rightarrow> string \<Rightarrow> string \<Rightarrow> bool \<Rightarrow> string option \<Rightarrow> string option \<Rightarrow> ui_children \<Rightarrow> ui_children" where
  "new_remote X i remote_type force_relay self_id password s =
    (let args = remote_args i remote_type force_relay self_id password; key = (i, remote_type);
         start = (\<lambda>s. if can_spawn X args
                   then s\<lparr>pipes := AList.update i '''' (pipes s), running := running s @ [key], spawned := spawned s @ [args]\<rparr>
                   else s)
     in if key \<notin> set (running s) then start s
        else if has_exited X key then start (s\<lparr>running := remove1 key (running s)\<rparr>)
        else if remote_type = ''rdp'' then start (s\<lparr>running := remove1 key (running s), killed := killed s @ [key]\<rparr>)
        else s)"

definition list_active_connections :: "ui_children \<Rightarrow> (string \<times> string \<times> bool) list" where
  "list_active_connections s = map (\<lambda>(i, k). (i, k, True)) (running s)"

definition send_to_child :: "children_env \<Rightarrow> string \<Rightarrow> string \<Rightarrow> ui_children \<Rightarrow> bool \<times> ui_children" where
  "send_to_child X peer cmd s =
    (case map_of (pipes s) peer of
       Some p \<Rightarrow> if pipe_open X peer then (True, s\<lparr>pipes := AList.update peer (p @ cmd @ [CHR 0x0A]) (pipes s)\<rparr>) else (False, s)
     | None \<Rightarrow> (False, s))"

definition send_dismiss_to_all_children :: "children_env \<Rightarrow> ui_children \<Rightarrow> nat \<times> ui_children" where
  "send_dismiss_to_all_children X s =
    (length (filter (\<lambda>(i, _). pipe_open X i) (pipes s)),
     s\<lparr>pipes := map (\<lambda>(i, p). (i, if pipe_open X i then p @ ''dismiss'' @ [CHR 0x0A] else p)) (pipes s)\<rparr>)"

definition close_remote_connection :: "string \<Rightarrow> ui_children \<Rightarrow> ui_children" where
  "close_remote_connection peer s =
    (case find (\<lambda>(i, _). i = peer) (running s) of
       Some key \<Rightarrow> s\<lparr>running := remove1 key (running s), killed := killed s @ [key], pipes := AList.delete peer (pipes s)\<rparr>
     | None \<Rightarrow> s)"

section \<open>The commands of a session\<close>

record child =
  dismiss_flag :: bool
  query_flag :: bool
  state_result :: string
  clicked :: string
  chat_msg :: string
  entered_password :: string

definition child_command :: "string \<Rightarrow> child \<Rightarrow> child" where
  "child_command line c =
    (let cmd = trim_str line in
     if cmd = ''dismiss'' then c\<lparr>dismiss_flag := True\<rparr>
     else if cmd = ''query_state'' then c\<lparr>state_result := [], query_flag := True\<rparr>
     else if starts_with cmd ''click_button:'' then c\<lparr>clicked := drop 13 cmd\<rparr>
     else if starts_with cmd ''chat:'' then c\<lparr>chat_msg := drop 5 cmd\<rparr>
     else if starts_with cmd ''password:'' then c\<lparr>entered_password := drop 9 cmd\<rparr>
     else c)"

text \<open>The lines of the pipe, read to the end of each; a carriage return before it is dropped.\<close>

fun stdin_lines :: "string \<Rightarrow> string \<Rightarrow> string list" where
  "stdin_lines acc [] = []"
| "stdin_lines acc (c # cs) =
    (if c = CHR 0x0A then (if ends_with acc [CHR 0x0D] then butlast acc else acc) # stdin_lines [] cs else stdin_lines (acc @ [c]) cs)"

definition run_commands :: "string \<Rightarrow> child \<Rightarrow> child" where
  "run_commands text c = fold child_command (stdin_lines [] text) c"

end
