(* ===== verification/Utf8_Lossy.thy ===== *)
theory Utf8_Lossy
  imports Hop_Prelude
begin

text \<open>
  \<open>String::from_utf8_lossy\<close> and \<open>String::from_utf8\<close> of Rust's standard library, which the code uses
  whenever decrypted or received bytes become a string. A malformed sequence is cut at its first
  byte that cannot continue it and replaced by U+FFFD.
\<close>

definition byte_at :: "bytes \<Rightarrow> nat \<Rightarrow> u8" where
  "byte_at xs i = (if i < length xs then xs ! i else 0)"

definition is_cont :: "u8 \<Rightarrow> bool" where
  "is_cont b \<longleftrightarrow> 0x80 \<le> b \<and> b \<le> 0xBF"

definition second3_ok :: "u8 \<Rightarrow> u8 \<Rightarrow> bool" where
  "second3_ok b c \<longleftrightarrow>
    (b = 0xE0 \<and> 0xA0 \<le> c \<and> c \<le> 0xBF) \<or> (0xE1 \<le> b \<and> b \<le> 0xEC \<and> is_cont c) \<or>
    (b = 0xED \<and> 0x80 \<le> c \<and> c \<le> 0x9F) \<or> (0xEE \<le> b \<and> b \<le> 0xEF \<and> is_cont c)"

definition second4_ok :: "u8 \<Rightarrow> u8 \<Rightarrow> bool" where
  "second4_ok b c \<longleftrightarrow>
    (b = 0xF0 \<and> 0x90 \<le> c \<and> c \<le> 0xBF) \<or> (0xF1 \<le> b \<and> b \<le> 0xF3 \<and> is_cont c) \<or>
    (b = 0xF4 \<and> 0x80 \<le> c \<and> c \<le> 0x8F)"

text \<open>The bytes of the next character or malformed sequence, and whether it is a character.\<close>

definition utf8_step :: "bytes \<Rightarrow> nat \<times> bool" where
  "utf8_step xs =
    (let b = byte_at xs 0; c = byte_at xs 1; d = byte_at xs 2; e = byte_at xs 3 in
     if b < 0x80 then (1, True)
     else if 0xC2 \<le> b \<and> b \<le> 0xDF then (if is_cont c then (2, True) else (1, False))
     else if 0xE0 \<le> b \<and> b \<le> 0xEF then
       (if \<not> second3_ok b c then (1, False)
        else if \<not> is_cont d then (2, False) else (3, True))
     else if 0xF0 \<le> b \<and> b \<le> 0xF4 then
       (if \<not> second4_ok b c then (1, False)
        else if \<not> is_cont d then (2, False)
        else if \<not> is_cont e then (3, False) else (4, True))
     else (1, False))"

lemma utf8_step_pos [simp]: "0 < fst (utf8_step xs)"
  by (simp add: utf8_step_def Let_def)

function utf8_lossy :: "bytes \<Rightarrow> bytes" where
  "utf8_lossy [] = []"
| "utf8_lossy (x # xs) =
    (if snd (utf8_step (x # xs)) then take (fst (utf8_step (x # xs))) (x # xs) else [0xEF, 0xBF, 0xBD]) @
    utf8_lossy (drop (fst (utf8_step (x # xs))) (x # xs))"
  by pat_completeness auto
termination
proof (relation "measure length", simp)
  fix x :: u8 and xs
  show "(drop (fst (utf8_step (x # xs))) (x # xs), x # xs) \<in> measure length"
    using utf8_step_pos[of "x # xs"] by simp
qed

function utf8_valid :: "bytes \<Rightarrow> bool" where
  "utf8_valid [] = True"
| "utf8_valid (x # xs) =
    (snd (utf8_step (x # xs)) \<and> utf8_valid (drop (fst (utf8_step (x # xs))) (x # xs)))"
  by pat_completeness auto
termination
proof (relation "measure length", simp)
  fix x :: u8 and xs
  show "(drop (fst (utf8_step (x # xs))) (x # xs), x # xs) \<in> measure length"
    using utf8_step_pos[of "x # xs"] by simp
qed

lemma utf8_lossy_valid: "utf8_valid xs \<Longrightarrow> utf8_lossy xs = xs"
  by (induction xs rule: utf8_valid.induct) (simp_all del: drop_Cons' take_Cons')

lemma utf8_valid_ascii: "\<forall>b \<in> set xs. b < 0x80 \<Longrightarrow> utf8_valid xs"
  by (induction xs) (simp_all add: utf8_step_def byte_at_def)

definition from_utf8_lossy :: "bytes \<Rightarrow> string" where
  "from_utf8_lossy bs = from_bytes (utf8_lossy bs)"

definition from_utf8 :: "bytes \<Rightarrow> string option" where
  "from_utf8 bs = (if utf8_valid bs then Some (from_bytes bs) else None)"

lemma from_utf8_lossy_as_bytes: "utf8_valid (as_bytes s) \<Longrightarrow> from_utf8_lossy (as_bytes s) = s"
  by (simp add: from_utf8_lossy_def utf8_lossy_valid)

lemma from_utf8_as_bytes: "utf8_valid (as_bytes s) \<Longrightarrow> from_utf8 (as_bytes s) = Some s"
  by (simp add: from_utf8_def)

end
