(* ===== verification/At_Rest_Encryption.thy ===== *)
theory At_Rest_Encryption
  imports Utf8_Lossy
begin

text \<open>
  How secrets are kept on disk: the encryption half of \<open>libs/hbb_common/src/password_security.rs\<close>.
  A value is sealed with a key derived from the machine's uuid, base64-encoded and prefixed with its
  format version. The secretbox, the base64 coder and the uuid come from outside the repository; they
  are the fields of a \<open>vault\<close>, and \<open>vault_ok\<close> states what the code relies on: unsealing and
  decoding undo sealing and encoding, and neither yields nothing. The log lines are not modelled.
\<close>

record vault =
  uuid :: bytes
  seal :: "bytes \<Rightarrow> bytes \<Rightarrow> bytes \<Rightarrow> bytes"
  unseal :: "bytes \<Rightarrow> bytes \<Rightarrow> bytes \<Rightarrow> bytes option"
  b64_encode :: "bytes \<Rightarrow> string"
  b64_decode :: "bytes \<Rightarrow> bytes option"

definition vault_ok :: "vault \<Rightarrow> bool" where
  "vault_ok V \<longleftrightarrow>
    (\<forall>k n m. unseal V k n (seal V k n m) = Some m \<and> seal V k n m \<noteq> []) \<and>
    (\<forall>b. b64_decode V (as_bytes (b64_encode V b)) = Some b) \<and>
    (\<forall>b. b \<noteq> [] \<longrightarrow> b64_encode V b \<noteq> [])"

lemma vault_okD:
  assumes "vault_ok V"
  shows "unseal V k n (seal V k n m) = Some m" "seal V k n m \<noteq> []"
    "b64_decode V (as_bytes (b64_encode V b)) = Some b" "b \<noteq> [] \<Longrightarrow> b64_encode V b \<noteq> []"
  using assms by (simp_all add: vault_ok_def)

section \<open>The operations\<close>

definition VERSION_LEN :: nat where
  "VERSION_LEN = 2"

definition resize_bytes :: "nat \<Rightarrow> bytes \<Rightarrow> bytes" where
  "resize_bytes n xs = take n xs @ replicate (n - length xs) 0"

definition symmetric_crypt :: "vault \<Rightarrow> bytes \<Rightarrow> bool \<Rightarrow> unit + bytes" where
  "symmetric_crypt V data encrypting =
    (let key = resize_bytes 32 (uuid V); nonce = replicate 24 0 in
     if encrypting then Inr (seal V key nonce data)
     else (case unseal V key nonce data of None \<Rightarrow> Inl () | Some m \<Rightarrow> Inr m))"

definition encrypt :: "vault \<Rightarrow> bytes \<Rightarrow> nat \<Rightarrow> unit + string" where
  "encrypt V v max_len =
    (if v \<noteq> [] \<and> length v \<le> max_len then
       (case symmetric_crypt V v True of Inl e \<Rightarrow> Inl e | Inr c \<Rightarrow> Inr (b64_encode V c))
     else Inl ())"

definition decrypt :: "vault \<Rightarrow> bytes \<Rightarrow> unit + bytes" where
  "decrypt V v =
    (if v \<noteq> [] then
       (case b64_decode V v of None \<Rightarrow> Inl () | Some c \<Rightarrow> symmetric_crypt V c False)
     else Inl ())"

text \<open>The three results: the value, whether it was decrypted, whether it should be stored again.\<close>

definition decrypt_str_or_original :: "vault \<Rightarrow> string \<Rightarrow> string \<Rightarrow> string \<times> bool \<times> bool" where
  "decrypt_str_or_original V s current_version =
    (if length s > VERSION_LEN \<and> starts_with s ''00'' then
       (case decrypt V (as_bytes (drop VERSION_LEN s)) of
         Inr v \<Rightarrow> (from_utf8_lossy v, True, ''00'' \<noteq> current_version)
       | Inl _ \<Rightarrow> (s, False, s \<noteq> []))
     else (s, False, s \<noteq> []))"

definition encrypt_str_or_original :: "vault \<Rightarrow> string \<Rightarrow> string \<Rightarrow> nat \<Rightarrow> string" where
  "encrypt_str_or_original V s version max_len =
    (if fst (snd (decrypt_str_or_original V s version)) then s
     else if length (as_bytes s) > max_len then []
     else if version = ''00'' then
       (case encrypt V (as_bytes s) max_len of Inr e \<Rightarrow> version @ e | Inl _ \<Rightarrow> s)
     else s)"

definition decrypt_vec_or_original :: "vault \<Rightarrow> bytes \<Rightarrow> string \<Rightarrow> bytes \<times> bool \<times> bool" where
  "decrypt_vec_or_original V v current_version =
    (if length v > VERSION_LEN then
       let version = from_utf8_lossy (take VERSION_LEN v) in
       if version = ''00'' then
         (case decrypt V (drop VERSION_LEN v) of
           Inr d \<Rightarrow> (d, True, version \<noteq> current_version)
         | Inl _ \<Rightarrow> (v, False, v \<noteq> []))
       else (v, False, v \<noteq> [])
     else (v, False, v \<noteq> []))"

definition encrypt_vec_or_original :: "vault \<Rightarrow> bytes \<Rightarrow> string \<Rightarrow> nat \<Rightarrow> bytes" where
  "encrypt_vec_or_original V v version max_len =
    (if fst (snd (decrypt_vec_or_original V v version)) then v
     else if length v > max_len then []
     else if version = ''00'' then
       (case encrypt V v max_len of Inr e \<Rightarrow> as_bytes version @ as_bytes e | Inl _ \<Rightarrow> v)
     else v)"

section \<open>Lemmas\<close>

lemma decrypt_encrypt:
  assumes "vault_ok V" and "encrypt V v n = Inr e"
  shows "decrypt V (as_bytes e) = Inr v" "e \<noteq> []"
  using assms vault_okD[OF assms(1)]
  by (auto simp: encrypt_def decrypt_def symmetric_crypt_def Let_def split: if_splits)

lemma encrypt_succeeds: "v \<noteq> [] \<Longrightarrow> length v \<le> n \<Longrightarrow> \<exists>e. encrypt V v n = Inr e"
  by (simp add: encrypt_def symmetric_crypt_def Let_def)

lemma encrypt_Nil [simp]: "encrypt V [] n = Inl ()"
  by (simp add: encrypt_def)

lemma decrypt_str_versioned:
  assumes "decrypt V (as_bytes e) = Inr v" and "e \<noteq> []"
  shows "decrypt_str_or_original V (''00'' @ e) cur = (from_utf8_lossy v, True, ''00'' \<noteq> cur)"
  using assms by (simp add: decrypt_str_or_original_def VERSION_LEN_def starts_with_def)

lemma as_bytes_00: "as_bytes ''00'' = [0x30, 0x30]"
  by (simp add: as_bytes_def)

lemma lossy_version: "from_utf8_lossy [0x30, 0x30] = ''00''"
proof -
  have "utf8_valid [0x30, 0x30]" by (rule utf8_valid_ascii) simp
  then show ?thesis
    using from_utf8_lossy_as_bytes[of "''00''"] by (simp add: as_bytes_00)
qed

lemma decrypt_vec_versioned:
  assumes "decrypt V e = Inr v" and "e \<noteq> []"
  shows "decrypt_vec_or_original V ([0x30, 0x30] @ e) cur = (v, True, ''00'' \<noteq> cur)"
  using assms by (simp add: decrypt_vec_or_original_def VERSION_LEN_def lossy_version)

lemma decrypt_short [simp]:
  "decrypt_str_or_original V [] cur = ([], False, False)"
  "decrypt_vec_or_original V [] cur = ([], False, False)"
  by (simp_all add: decrypt_str_or_original_def decrypt_vec_or_original_def VERSION_LEN_def)

text \<open>The three outcomes of storing: as it is, dropped, sealed.\<close>

lemma encrypt_str_cases:
  "encrypt_str_or_original V s version n = s \<or> encrypt_str_or_original V s version n = [] \<or>
   (\<exists>e. encrypt_str_or_original V s version n = ''00'' @ e \<and> encrypt V (as_bytes s) n = Inr e)"
  by (simp add: encrypt_str_or_original_def split: sum.split)

lemma encrypt_vec_cases:
  "encrypt_vec_or_original V v version n = v \<or> encrypt_vec_or_original V v version n = [] \<or>
   (\<exists>e. encrypt_vec_or_original V v version n = [0x30, 0x30] @ as_bytes e \<and> encrypt V v n = Inr e)"
  by (simp add: encrypt_vec_or_original_def as_bytes_00 split: sum.split)

text \<open>Strings read back: the sealed form of a plain string is recognised and opened.\<close>

lemma stored_str_readable:
  assumes "vault_ok V" and "utf8_valid (as_bytes s)" and "s \<noteq> []" and "length s \<le> max_len"
    and "\<not> fst (snd (decrypt_str_or_original V s ''00''))"
  shows "decrypt_str_or_original V (encrypt_str_or_original V s ''00'' max_len) cur
    = (s, True, cur \<noteq> ''00'')"
proof -
  obtain e where e: "encrypt V (as_bytes s) max_len = Inr e"
    using assms(3,4) encrypt_succeeds[of "as_bytes s" max_len V] by auto
  then have "encrypt_str_or_original V s ''00'' max_len = ''00'' @ e"
    using assms(4,5) by (simp add: encrypt_str_or_original_def)
  then show ?thesis
    using decrypt_str_versioned[OF decrypt_encrypt[OF assms(1) e], of cur] assms(2)
    by (auto simp: from_utf8_lossy_as_bytes)
qed

lemma stored_vec_readable:
  assumes "vault_ok V" and "v \<noteq> []" and "length v \<le> max_len"
    and "\<not> fst (snd (decrypt_vec_or_original V v ''00''))"
  shows "decrypt_vec_or_original V (encrypt_vec_or_original V v ''00'' max_len) cur
    = (v, True, cur \<noteq> ''00'')"
proof -
  obtain e where e: "encrypt V v max_len = Inr e"
    using assms(2,3) encrypt_succeeds by blast
  then have "encrypt_vec_or_original V v ''00'' max_len = [0x30, 0x30] @ as_bytes e"
    using assms(3,4) by (simp add: encrypt_vec_or_original_def as_bytes_00)
  then show ?thesis
    using decrypt_vec_versioned[of V "as_bytes e" v cur] decrypt_encrypt[OF assms(1) e] by auto
qed

section \<open>Properties\<close>

text \<open>A vault that meets the laws: sealing appends a 16-byte tag, and base64 is the identity.\<close>

definition tag_vault :: vault where
  "tag_vault = \<lparr>uuid = [1, 2, 3], seal = (\<lambda>k n m. m @ replicate 16 0),
     unseal = (\<lambda>k n c. if ends_with c (replicate 16 0) then Some (take (length c - 16) c) else None),
     b64_encode = from_bytes, b64_decode = Some\<rparr>"

lemma tag_vault_ok: "vault_ok tag_vault"
  by (auto simp: vault_ok_def tag_vault_def ends_with_def)

text \<open>
  C2. Round trip of stored secrets: a non-empty UTF-8 string or byte vector within the length limit
  that is not itself in stored form comes back unchanged from storage, is reported as decrypted, and
  is marked for re-encryption exactly when the current format version is another one.
\<close>

theorem stored_secret_roundtrip:
  assumes "vault_ok V"
    and "utf8_valid (as_bytes s)" and "s \<noteq> []" and "length s \<le> max_len"
    and "\<not> fst (snd (decrypt_str_or_original V s ''00''))"
    and "v \<noteq> []" and "length v \<le> max_len" and "\<not> fst (snd (decrypt_vec_or_original V v ''00''))"
  shows "decrypt_str_or_original V (encrypt_str_or_original V s ''00'' max_len) cur
      = (s, True, cur \<noteq> ''00'') \<and>
    decrypt_vec_or_original V (encrypt_vec_or_original V v ''00'' max_len) cur
      = (v, True, cur \<noteq> ''00'')"
  using stored_str_readable[OF assms(1-5)] stored_vec_readable[OF assms(1,6-8)] by simp

theorem stored_secret_roundtrip_witness:
  "decrypt_str_or_original tag_vault (encrypt_str_or_original tag_vault ''pw'' ''00'' 128) ''01''
      = (''pw'', True, True) \<and>
   decrypt_vec_or_original tag_vault (encrypt_vec_or_original tag_vault [255] ''00'' 128) ''01''
      = ([255], True, True)"
proof -
  have valid: "utf8_valid (as_bytes ''pw'')"
    by (rule utf8_valid_ascii) (simp add: as_bytes_def)
  have fresh: "\<not> fst (snd (decrypt_str_or_original tag_vault ''pw'' ''00''))"
    "\<not> fst (snd (decrypt_vec_or_original tag_vault [255] ''00''))"
    by (simp_all add: decrypt_str_or_original_def decrypt_vec_or_original_def VERSION_LEN_def)
  show ?thesis
    using stored_secret_roundtrip[OF tag_vault_ok valid _ _ fresh(1) _ _ fresh(2), of 128 "''01''"]
    by simp
qed

text \<open>
  Encrypting is idempotent, for strings and for byte vectors and whatever their content, length
  limit and version: a value read from storage and stored again is never sealed twice.
\<close>

theorem encrypt_idempotent:
  assumes "vault_ok V"
  shows "encrypt_str_or_original V (encrypt_str_or_original V s version max_len) version max_len
      = encrypt_str_or_original V s version max_len \<and>
    encrypt_vec_or_original V (encrypt_vec_or_original V v version max_len) version max_len
      = encrypt_vec_or_original V v version max_len"
proof
  consider (stored) "encrypt_str_or_original V s version max_len = s"
    | (long) "encrypt_str_or_original V s version max_len = []"
    | (sealed) e where "encrypt_str_or_original V s version max_len = ''00'' @ e"
        "encrypt V (as_bytes s) max_len = Inr e"
    using encrypt_str_cases[of V s version max_len] by blast
  then show "encrypt_str_or_original V (encrypt_str_or_original V s version max_len) version max_len
      = encrypt_str_or_original V s version max_len"
  proof cases
    case sealed
    show ?thesis
      using decrypt_str_versioned[OF decrypt_encrypt[OF assms sealed(2)], of version]
      unfolding sealed(1) by (simp add: encrypt_str_or_original_def)
  qed (simp_all add: encrypt_str_or_original_def)
next
  consider (stored) "encrypt_vec_or_original V v version max_len = v"
    | (long) "encrypt_vec_or_original V v version max_len = []"
    | (sealed) e where "encrypt_vec_or_original V v version max_len = [0x30, 0x30] @ as_bytes e"
        "encrypt V v max_len = Inr e"
    using encrypt_vec_cases[of V v version max_len] by blast
  then show "encrypt_vec_or_original V (encrypt_vec_or_original V v version max_len) version max_len
      = encrypt_vec_or_original V v version max_len"
  proof cases
    case sealed
    have "as_bytes e \<noteq> []"
      using decrypt_encrypt(2)[OF assms sealed(2)] by simp
    from decrypt_vec_versioned[OF decrypt_encrypt(1)[OF assms sealed(2)] this, of version]
    show ?thesis
      unfolding sealed(1) by (simp add: encrypt_vec_or_original_def)
  qed (simp_all add: encrypt_vec_or_original_def)
qed

theorem encrypt_idempotent_witness:
  "encrypt_str_or_original tag_vault (encrypt_str_or_original tag_vault ''pw'' ''00'' 128) ''00'' 128
    = encrypt_str_or_original tag_vault ''pw'' ''00'' 128"
  using encrypt_idempotent[OF tag_vault_ok, of "''pw''" "''00''" 128] by blast

end
