(* ===== verification/Config_Store.thy ===== *)
theory Config_Store
  imports At_Rest_Encryption
begin

text \<open>
  The configuration of \<open>libs/hbb_common/src/config.rs\<close>: the layered options (settings that overwrite
  the user's, the user's own, defaults), the per-machine \<open>LocalConfig\<close>, the user default settings,
  the hard settings, the passwords and the trusted devices of two-factor login. Each global
  \<open>RwLock\<close> is a field of the state; writing the file to disk (\<open>store\<close>) changes nothing in memory
  and is not modelled. The contract of a layered option table is the locale \<open>option_table\<close>.
\<close>

section \<open>Layered options\<close>

type_synonym settings = "string \<Rightarrow> string option"

text \<open>The field names are those of the code: OVERWRITE\_SETTINGS, CONFIG2, DEFAULT\_SETTINGS, and
  their local and display counterparts.\<close>

record trusted_device =
  hwid :: bytes
  td_time :: int
  td_id :: string
  td_name :: string
  td_platform :: string

record config =
  options :: settings
  overwrite_settings :: settings
  default_settings :: settings
  hard_settings :: settings
  builtin_settings :: settings
  cfg_id :: string
  temporary_password :: string
  permanent_password :: string
  salt :: string
  trusted_devices :: string
  trusted_cache :: "trusted_device list \<times> bool"

record local_config =
  local_options :: settings
  ui_flutter :: settings
  overwrite_local_settings :: settings
  default_local_settings :: settings

record user_default_config =
  display_options :: settings
  overwrite_display_settings :: settings
  default_display_settings :: settings

definition unwrap_or_default :: "string option \<Rightarrow> string" where
  "unwrap_or_default o' = (case o' of None \<Rightarrow> [] | Some s \<Rightarrow> s)"

lemma unwrap_or_default_simps [simp]:
  "unwrap_or_default None = []" "unwrap_or_default (Some s) = s"
  by (simp_all add: unwrap_or_default_def)

definition get_or :: "settings \<Rightarrow> settings \<Rightarrow> settings \<Rightarrow> string \<Rightarrow> string option" where
  "get_or a b c k =
    (case a k of Some v \<Rightarrow> Some v
     | None \<Rightarrow> (case b k of Some v \<Rightarrow> Some v | None \<Rightarrow> c k))"

definition is_option_can_save :: "settings \<Rightarrow> string \<Rightarrow> settings \<Rightarrow> string \<Rightarrow> bool" where
  "is_option_can_save overwrite k defaults v =
    (if overwrite k \<noteq> None \<or> (case defaults k of None \<Rightarrow> False | Some x \<Rightarrow> x = v) then False else True)"

definition option2bool :: "string \<Rightarrow> string \<Rightarrow> bool" where
  "option2bool option value =
    (if option = ''enable-terminal'' then value = ''Y''
     else if starts_with option ''enable-'' then value \<noteq> ''N''
     else if starts_with option ''allow-'' \<or> option = ''stop-service'' \<or> option = ''direct-server''
       \<or> option = ''force-always-relay'' then value = ''Y''
     else value \<noteq> ''N'')"

subsection \<open>\<open>Config\<close>\<close>

definition get_options :: "config \<Rightarrow> settings" where
  "get_options c = ((default_settings c) ++ (options c)) ++ (overwrite_settings c)"

definition purify_options :: "config \<Rightarrow> settings \<Rightarrow> settings" where
  "purify_options c v = (\<lambda>k.
    case v k of None \<Rightarrow> None
    | Some x \<Rightarrow> if is_option_can_save (overwrite_settings c) k (default_settings c) x then Some x else None)"

definition set_options :: "settings \<Rightarrow> config \<Rightarrow> config" where
  "set_options v c = c\<lparr>options := purify_options c v\<rparr>"

definition get_option :: "config \<Rightarrow> string \<Rightarrow> string" where
  "get_option c k = unwrap_or_default (get_or (overwrite_settings c) (options c) (default_settings c) k)"

definition get_bool_option :: "config \<Rightarrow> string \<Rightarrow> bool" where
  "get_bool_option c k = option2bool k (get_option c k)"

definition set_option :: "string \<Rightarrow> string \<Rightarrow> config \<Rightarrow> config" where
  "set_option k v c =
    (if \<not> is_option_can_save (overwrite_settings c) k (default_settings c) v then c
     else
       let v2 = (if v = [] then None else Some v) in
       if v2 \<noteq> options c k then
         (if v2 = None then c\<lparr>options := (options c)(k := None)\<rparr>
          else c\<lparr>options := (options c)(k \<mapsto> v)\<rparr>)
       else c)"

subsection \<open>\<open>LocalConfig\<close>\<close>

definition local_get_option :: "local_config \<Rightarrow> string \<Rightarrow> string" where
  "local_get_option c k =
    unwrap_or_default (get_or (overwrite_local_settings c) (local_options c) (default_local_settings c) k)"

definition local_get_bool_option :: "local_config \<Rightarrow> string \<Rightarrow> bool" where
  "local_get_bool_option c k = option2bool k (local_get_option c k)"

definition local_set_option :: "string \<Rightarrow> string \<Rightarrow> local_config \<Rightarrow> local_config" where
  "local_set_option k v c =
    (if \<not> is_option_can_save (overwrite_local_settings c) k (default_local_settings c) v then c
     else if k = ''lang'' \<and> v = ''default'' then c\<lparr>local_options := (local_options c)(k \<mapsto> [])\<rparr>
     else
       let v2 = (if v = [] then None else Some v) in
       if v2 \<noteq> local_options c k then
         (if v2 = None then c\<lparr>local_options := (local_options c)(k := None)\<rparr>
          else c\<lparr>local_options := (local_options c)(k \<mapsto> v)\<rparr>)
       else c)"

definition get_flutter_option :: "local_config \<Rightarrow> string \<Rightarrow> string" where
  "get_flutter_option c k =
    unwrap_or_default (get_or (overwrite_local_settings c) (ui_flutter c) (default_local_settings c) k)"

definition set_flutter_option :: "string \<Rightarrow> string \<Rightarrow> local_config \<Rightarrow> local_config" where
  "set_flutter_option k v c =
    (let v2 = (if v = [] then None else Some v) in
     if v2 \<noteq> ui_flutter c k then
       (if v2 = None then c\<lparr>ui_flutter := (ui_flutter c)(k := None)\<rparr>
        else c\<lparr>ui_flutter := (ui_flutter c)(k \<mapsto> v)\<rparr>)
     else c)"

subsection \<open>\<open>UserDefaultConfig\<close>\<close>

definition udc_get_after :: "user_default_config \<Rightarrow> string \<Rightarrow> string option" where
  "udc_get_after c k =
    get_or (overwrite_display_settings c) (display_options c) (default_display_settings c) k"

definition udc_set :: "string \<Rightarrow> string \<Rightarrow> user_default_config \<Rightarrow> user_default_config" where
  "udc_set k v c =
    (if \<not> is_option_can_save (overwrite_display_settings c) k (default_display_settings c) v then c
     else if v = [] then c\<lparr>display_options := (display_options c)(k := None)\<rparr>
     else c\<lparr>display_options := (display_options c)(k \<mapsto> v)\<rparr>)"

definition udc_get_string :: "user_default_config \<Rightarrow> string \<Rightarrow> string \<Rightarrow> string list \<Rightarrow> string" where
  "udc_get_string c key dflt others =
    (case udc_get_after c key of
      Some opt \<Rightarrow> (if opt \<in> set others then opt else dflt)
    | None \<Rightarrow> dflt)"

subsection \<open>Hard settings\<close>

definition is_incoming_only :: "config \<Rightarrow> bool" where
  "is_incoming_only c = (case hard_settings c ''conn-type'' of None \<Rightarrow> False | Some x \<Rightarrow> x = ''incoming'')"

definition is_outgoing_only :: "config \<Rightarrow> bool" where
  "is_outgoing_only c = (case hard_settings c ''conn-type'' of None \<Rightarrow> False | Some x \<Rightarrow> x = ''outgoing'')"

definition is_some_hard_opton :: "config \<Rightarrow> string \<Rightarrow> bool" where
  "is_some_hard_opton c name = (case hard_settings c name of None \<Rightarrow> False | Some x \<Rightarrow> x = ''Y'')"

definition get_builtin_option :: "config \<Rightarrow> string \<Rightarrow> string" where
  "get_builtin_option c key = unwrap_or_default (builtin_settings c key)"

definition is_disable_tcp_listen :: "config \<Rightarrow> bool" where
  "is_disable_tcp_listen c = is_some_hard_opton c ''disable-tcp-listen''"

definition is_disable_settings :: "config \<Rightarrow> bool" where
  "is_disable_settings c = is_some_hard_opton c ''disable-settings''"

definition is_disable_ab :: "config \<Rightarrow> bool" where
  "is_disable_ab c = is_some_hard_opton c ''disable-ab''"

definition is_disable_account :: "config \<Rightarrow> bool" where
  "is_disable_account c = is_some_hard_opton c ''disable-account''"

definition is_disable_installation :: "config \<Rightarrow> bool" where
  "is_disable_installation c = is_some_hard_opton c ''disable-installation''"

section \<open>The contract of a layered table\<close>

text \<open>Reading: the overwriting layer first, then what is stored, then the default.\<close>

locale layered_read =
  fixes get :: "'c \<Rightarrow> string \<Rightarrow> string"
    and over :: "'c \<Rightarrow> settings" and stored :: "'c \<Rightarrow> settings" and dflt :: "'c \<Rightarrow> settings"
  assumes get_layers: "get c k = unwrap_or_default (get_or (over c) (stored c) (dflt c) k)"
begin

lemma get_over: "over c k = Some v \<Longrightarrow> get c k = v"
  by (simp add: get_layers get_or_def)

lemma get_stored: "over c k = None \<Longrightarrow> stored c k = Some v \<Longrightarrow> get c k = v"
  by (simp add: get_layers get_or_def)

lemma get_default: "over c k = None \<Longrightarrow> stored c k = None \<Longrightarrow> get c k = unwrap_or_default (dflt c k)"
  by (simp add: get_layers get_or_def)

lemma get_cong:
  "over c k = over c' k \<Longrightarrow> stored c k = stored c' k \<Longrightarrow> dflt c k = dflt c' k \<Longrightarrow> get c k = get c' k"
  by (simp only: get_layers get_or_def)

end

text \<open>Writing: refused when the key is overwritten or the value is the default, otherwise the entry
  for the key is replaced and nothing else changes.\<close>

locale option_table = layered_read +
  fixes put :: "string \<Rightarrow> string \<Rightarrow> 'c \<Rightarrow> 'c"
    and entry :: "string \<Rightarrow> string \<Rightarrow> string option"
  assumes put_refused: "\<not> is_option_can_save (over c) k (dflt c) v \<Longrightarrow> put k v c = c"
    and put_stored: "is_option_can_save (over c) k (dflt c) v \<Longrightarrow> stored (put k v c) = (stored c)(k := entry k v)"
    and put_frame: "over (put k v c) = over c" "dflt (put k v c) = dflt c"
begin

lemma get_put_same:
  assumes "is_option_can_save (over c) k (dflt c) v"
  shows "get (put k v c) k = (case entry k v of Some x \<Rightarrow> x | None \<Rightarrow> unwrap_or_default (dflt c k))"
proof -
  have "over c k = None"
    using assms by (auto simp: is_option_can_save_def split: if_splits)
  then show ?thesis
    by (simp add: get_layers get_or_def put_stored[OF assms] put_frame split: option.split)
qed

lemma get_put_other: "k' \<noteq> k \<Longrightarrow> get (put k v c) k' = get c k'"
  by (cases "is_option_can_save (over c) k (dflt c) v")
    (auto intro!: get_cong simp: put_frame put_stored put_refused)

lemma get_put:
  "get (put k v c) k' =
    (if k' = k \<and> is_option_can_save (over c) k (dflt c) v
     then (case entry k v of Some x \<Rightarrow> x | None \<Rightarrow> unwrap_or_default (dflt c k)) else get c k')"
  by (cases "k' = k") (auto simp: get_put_same get_put_other put_refused)

text \<open>A value equal to the default is never stored, so an older value stays.\<close>

lemma put_default_keeps:
  "dflt c k = Some d \<Longrightarrow> put k d c = c"
  by (rule put_refused) (simp add: is_option_can_save_def)

end

definition plain_entry :: "string \<Rightarrow> string \<Rightarrow> string option" where
  "plain_entry k v = (if v = [] then None else Some v)"

definition local_entry :: "string \<Rightarrow> string \<Rightarrow> string option" where
  "local_entry k v = (if k = ''lang'' \<and> v = ''default'' then Some [] else plain_entry k v)"

interpretation config_table:
  option_table get_option overwrite_settings options default_settings set_option plain_entry
  by unfold_locales
    (auto simp: get_option_def set_option_def plain_entry_def Let_def fun_upd_idem_iff)

interpretation local_table:
  option_table local_get_option overwrite_local_settings local_options default_local_settings
    local_set_option local_entry
  by unfold_locales
    (auto simp: local_get_option_def local_set_option_def local_entry_def plain_entry_def Let_def fun_upd_idem_iff)

interpretation display_table:
  option_table "\<lambda>c k. unwrap_or_default (udc_get_after c k)" overwrite_display_settings display_options
    default_display_settings udc_set plain_entry
  by unfold_locales (auto simp: udc_get_after_def udc_set_def plain_entry_def)

interpretation flutter_table:
  layered_read get_flutter_option overwrite_local_settings ui_flutter default_local_settings
  by unfold_locales (simp add: get_flutter_option_def)

section \<open>Trusted devices\<close>

text \<open>What the operations read from outside: the machine's vault, the clock (milliseconds) and the
  JSON library, whose serialiser of a list of devices and its parser are parameters.\<close>

record device_env =
  dev_vault :: vault
  get_time :: int
  to_json :: "trusted_device list \<Rightarrow> string option"
  from_json :: "string \<Rightarrow> trusted_device list option"

definition PASSWORD_ENC_VERSION :: string where
  "PASSWORD_ENC_VERSION = ''00''"

definition outdate :: "device_env \<Rightarrow> trusted_device \<Rightarrow> bool" where
  "outdate E d \<longleftrightarrow> i64_add (td_time d) (90 * 24 * 60 * 60 * 1000) < get_time E"

definition set_trusted_devices :: "device_env \<Rightarrow> trusted_device list \<Rightarrow> config \<Rightarrow> config" where
  "set_trusted_devices E ds c =
    (let ds = filter (\<lambda>d. \<not> outdate E d) ds;
         devices = unwrap_or_default (to_json E ds);
         max_len = 1024 * 1024
     in if length (as_bytes devices) > max_len then c
        else let devices = encrypt_str_or_original (dev_vault E) devices PASSWORD_ENC_VERSION max_len
             in c\<lparr>trusted_devices := devices, trusted_cache := (ds, True)\<rparr>)"

definition get_trusted_devices :: "device_env \<Rightarrow> config \<Rightarrow> trusted_device list \<times> config" where
  "get_trusted_devices E c =
    (if snd (trusted_cache c) then (fst (trusted_cache c), c)
     else
       let (devices, succ, store) =
             decrypt_str_or_original (dev_vault E) (trusted_devices c) PASSWORD_ENC_VERSION
       in if succ then
            let ds = (case from_json E devices of None \<Rightarrow> [] | Some ds \<Rightarrow> ds);
                kept = filter (\<lambda>d. \<not> outdate E d) ds;
                c1 = (if store \<or> length kept \<noteq> length ds then set_trusted_devices E kept c else c)
            in (kept, c1\<lparr>trusted_cache := (kept, True)\<rparr>)
          else ([], c))"

definition get_trusted_devices_json :: "device_env \<Rightarrow> config \<Rightarrow> string \<times> config" where
  "get_trusted_devices_json E c =
    (let (ds, c) = get_trusted_devices E c in (unwrap_or_default (to_json E ds), c))"

definition add_trusted_device :: "device_env \<Rightarrow> trusted_device \<Rightarrow> config \<Rightarrow> config" where
  "add_trusted_device E d c =
    (let (ds, c) = get_trusted_devices E c in
     set_trusted_devices E (filter (\<lambda>x. hwid x \<noteq> hwid d) ds @ [d]) c)"

definition remove_trusted_devices :: "device_env \<Rightarrow> bytes list \<Rightarrow> config \<Rightarrow> config" where
  "remove_trusted_devices E hwids c =
    (let (ds, c) = get_trusted_devices E c in
     set_trusted_devices E (filter (\<lambda>x. hwid x \<notin> set hwids) ds) c)"

definition clear_trusted_devices :: "device_env \<Rightarrow> config \<Rightarrow> config" where
  "clear_trusted_devices E c = set_trusted_devices E [] c"

section \<open>Passwords\<close>

definition set_temporary_password :: "string \<Rightarrow> config \<Rightarrow> config" where
  "set_temporary_password password c =
    (if password = temporary_password c then c else c\<lparr>temporary_password := password\<rparr>)"

definition set_permanent_password :: "device_env \<Rightarrow> string \<Rightarrow> config \<Rightarrow> config" where
  "set_permanent_password E password c =
    (if password = permanent_password c then c
     else clear_trusted_devices E (c\<lparr>permanent_password := password\<rparr>))"

definition set_salt :: "string \<Rightarrow> config \<Rightarrow> config" where
  "set_salt s c = (if s = salt c then c else c\<lparr>salt := s\<rparr>)"

definition CHARS :: string where
  "CHARS = ''23456789abcdefghijkmnpqrstuvwxyz''"

text \<open>The draws of the thread's random generator are the argument \<open>rs\<close>.\<close>

definition get_auto_password :: "(nat \<Rightarrow> nat) \<Rightarrow> nat \<Rightarrow> string" where
  "get_auto_password rs len = map (\<lambda>i. CHARS ! (rs i mod length CHARS)) [0..<len]"

definition get_salt :: "(nat \<Rightarrow> nat) \<Rightarrow> config \<Rightarrow> string \<times> config" where
  "get_salt rs c =
    (if salt c = [] then let s = get_auto_password rs 6 in (s, set_salt s c) else (salt c, c))"

section \<open>Lemmas on trusted devices\<close>

text \<open>What is relied on of the JSON library for one list: it can be written, what is written is a
  UTF-8 JSON array, and parsing it gives the list back.\<close>

definition json_ok :: "device_env \<Rightarrow> trusted_device list \<Rightarrow> bool" where
  "json_ok E ds \<longleftrightarrow>
    (case to_json E ds of None \<Rightarrow> False
     | Some s \<Rightarrow> from_json E s = Some ds \<and> starts_with s ''['' \<and> utf8_valid (as_bytes s))"

definition json_fits :: "device_env \<Rightarrow> trusted_device list \<Rightarrow> bool" where
  "json_fits E ds \<longleftrightarrow> length (unwrap_or_default (to_json E ds)) \<le> 1024 * 1024"

definition live :: "device_env \<Rightarrow> trusted_device list \<Rightarrow> trusted_device list" where
  "live E ds = filter (\<lambda>d. \<not> outdate E d) ds"

text \<open>A new process starts with an empty, unsynchronised cache.\<close>

definition restart :: "config \<Rightarrow> config" where
  "restart c = c\<lparr>trusted_cache := ([], False)\<rparr>"

lemma set_trusted_devices_eq:
  "set_trusted_devices E ds c =
    (if json_fits E (live E ds)
     then c\<lparr>trusted_devices := encrypt_str_or_original (dev_vault E)
              (unwrap_or_default (to_json E (live E ds))) ''00'' (1024 * 1024),
            trusted_cache := (live E ds, True)\<rparr>
     else c)"
  by (simp add: set_trusted_devices_def json_fits_def live_def PASSWORD_ENC_VERSION_def Let_def)

lemma get_cached [simp]:
  "snd (trusted_cache c) \<Longrightarrow> get_trusted_devices E c = (fst (trusted_cache c), c)"
  by (simp add: get_trusted_devices_def)

lemma get_set_trusted:
  "json_fits E (live E ds) \<Longrightarrow> fst (get_trusted_devices E (set_trusted_devices E ds c)) = live E ds"
  by (simp add: set_trusted_devices_eq)

lemma get_trusted_again:
  "fst (get_trusted_devices E (snd (get_trusted_devices E c))) = fst (get_trusted_devices E c)"
proof (cases "snd (trusted_cache c)")
  case False
  obtain ds succ store where
    "decrypt_str_or_original (dev_vault E) (trusted_devices c) PASSWORD_ENC_VERSION = (ds, succ, store)"
    by (metis prod_cases3)
  with False show ?thesis
    by (cases succ) (simp_all add: get_trusted_devices_def Let_def)
qed simp

lemma stored_json_decrypts:
  assumes "vault_ok (dev_vault E)" and "json_ok E ds" and "json_fits E ds"
  shows "decrypt_str_or_original (dev_vault E)
      (encrypt_str_or_original (dev_vault E) (unwrap_or_default (to_json E ds)) ''00'' (1024 * 1024)) ''00''
    = (unwrap_or_default (to_json E ds), True, False)"
proof -
  obtain s where s: "to_json E ds = Some s" "starts_with s ''[''" "utf8_valid (as_bytes s)"
    using assms(2) by (auto simp: json_ok_def split: option.splits)
  have ne: "s \<noteq> []" and plain: "\<not> starts_with s ''00''"
    using s(2) by (auto simp: starts_with_conv)
  have "\<not> fst (snd (decrypt_str_or_original (dev_vault E) s ''00''))"
    using plain by (simp add: decrypt_str_or_original_def)
  moreover have "length s \<le> 1024 * 1024"
    using assms(3) s(1) by (simp add: json_fits_def)
  ultimately show ?thesis
    using stored_str_readable[OF assms(1) s(3) ne] s(1) by simp
qed

section \<open>Properties\<close>

text \<open>
  C3. Writing one option and reading any option back, for the three layered tables: the write is
  seen under its own key exactly when that key is not overwritten and the value is not the default,
  an empty value uncovers the default, the language \<open>default\<close> is stored as the empty string, and no
  other key is affected.
\<close>

theorem set_option_then_get:
  "get_option (set_option k v c) k' =
      (if k' = k \<and> overwrite_settings c k = None \<and> default_settings c k \<noteq> Some v
       then (if v = [] then unwrap_or_default (default_settings c k) else v) else get_option c k') \<and>
   local_get_option (local_set_option k v l) k' =
      (if k' = k \<and> overwrite_local_settings l k = None \<and> default_local_settings l k \<noteq> Some v
       then (if k = ''lang'' \<and> v = ''default'' then []
             else if v = [] then unwrap_or_default (default_local_settings l k) else v)
       else local_get_option l k') \<and>
   udc_get_after (udc_set k v u) k' =
      (if k' = k \<and> overwrite_display_settings u k = None \<and> default_display_settings u k \<noteq> Some v
       then (if v = [] then default_display_settings u k else Some v) else udc_get_after u k')"
proof (intro conjI)
  have can: "is_option_can_save a k b v \<longleftrightarrow> a k = None \<and> b k \<noteq> Some v" for a b
    by (auto simp: is_option_can_save_def split: option.splits)
  show "get_option (set_option k v c) k' =
      (if k' = k \<and> overwrite_settings c k = None \<and> default_settings c k \<noteq> Some v
       then (if v = [] then unwrap_or_default (default_settings c k) else v) else get_option c k')"
    by (simp add: config_table.get_put can plain_entry_def)
  show "local_get_option (local_set_option k v l) k' =
      (if k' = k \<and> overwrite_local_settings l k = None \<and> default_local_settings l k \<noteq> Some v
       then (if k = ''lang'' \<and> v = ''default'' then []
             else if v = [] then unwrap_or_default (default_local_settings l k) else v)
       else local_get_option l k')"
    by (simp add: local_table.get_put can local_entry_def plain_entry_def)
  show "udc_get_after (udc_set k v u) k' =
      (if k' = k \<and> overwrite_display_settings u k = None \<and> default_display_settings u k \<noteq> Some v
       then (if v = [] then default_display_settings u k else Some v) else udc_get_after u k')"
    by (auto simp: udc_set_def can udc_get_after_def get_or_def cong: option.case_cong)
qed

text \<open>
  Dropping the entries that cannot be saved loses nothing: after storing a whole option map,
  every key reads as if the map had been stored unpurified (overwritten settings, then the map, then
  the defaults), the map of all options agrees with the single reads, and storing it again is a
  no-op.
\<close>

theorem set_options_then_get:
  "get_option (set_options v c) k = unwrap_or_default (get_or (overwrite_settings c) v (default_settings c) k) \<and>
   get_options (set_options v c) k = get_or (overwrite_settings c) v (default_settings c) k \<and>
   set_options v (set_options v c) = set_options v c"
proof -
  have "purify_options (c\<lparr>options := opts\<rparr>) v = purify_options c v" for opts
    by (simp add: purify_options_def cong: option.case_cong)
  moreover have "get_or (overwrite_settings c) (purify_options c v) (default_settings c) k
      = get_or (overwrite_settings c) v (default_settings c) k"
    by (auto simp: get_or_def purify_options_def is_option_can_save_def split: option.splits if_splits)
  moreover have "get_options (set_options v c) k = get_or (overwrite_settings c) (purify_options c v) (default_settings c) k"
    by (auto simp: get_options_def set_options_def get_or_def map_add_def split: option.splits)
  ultimately show ?thesis
    by (simp add: get_option_def set_options_def)
qed

text \<open>
  Choosing the default value again does not undo a stored choice: the write is refused, and the
  old value stays in force.
\<close>

theorem default_value_not_restored:
  assumes "overwrite_settings c k = None" and "default_settings c k = Some d" and "options c k = Some v"
  shows "get_option (set_option k d c) k = v"
  using config_table.put_default_keeps[OF assms(2)] config_table.get_stored[OF assms(1,3)] by simp

definition empty_config :: config where
  "empty_config = \<lparr>options = (\<lambda>_. None), overwrite_settings = (\<lambda>_. None), default_settings = (\<lambda>_. None),
    hard_settings = (\<lambda>_. None), builtin_settings = (\<lambda>_. None), cfg_id = [], temporary_password = [],
    permanent_password = [], salt = [], trusted_devices = [], trusted_cache = ([], False)\<rparr>"

theorem default_value_not_restored_witness:
  "get_option (set_option ''enable-audio'' ''Y''
     (empty_config\<lparr>default_settings := [''enable-audio'' \<mapsto> ''Y''],
        options := [''enable-audio'' \<mapsto> ''N'']\<rparr>)) ''enable-audio'' = ''N''"
  by (rule default_value_not_restored[where d = "''Y''"]) (simp_all add: empty_config_def)

text \<open>
  Adding a trusted device, on every branch: when the new list fits the size limit it is the old
  list without the device's earlier entry, followed by the device, less everything outdated; when it
  does not fit, the list stays as it was.
\<close>

theorem add_trusted_device_then_get:
  "fst (get_trusted_devices E (add_trusted_device E d c)) =
    (let old = fst (get_trusted_devices E c);
         new = live E (filter (\<lambda>x. hwid x \<noteq> hwid d) old @ [d])
     in if json_fits E new then new else old)"
proof -
  have "add_trusted_device E d c = set_trusted_devices E
      (filter (\<lambda>x. hwid x \<noteq> hwid d) (fst (get_trusted_devices E c)) @ [d]) (snd (get_trusted_devices E c))"
    by (simp add: add_trusted_device_def split: prod.split)
  then show ?thesis
    by (simp add: Let_def get_set_trusted set_trusted_devices_eq get_trusted_again)
qed

text \<open>
  Trusted devices survive a restart of the process: a list that fits is read back from the
  sealed configuration entry, less what has become outdated by the later clock.
\<close>

theorem trusted_devices_survive_restart:
  assumes "vault_ok (dev_vault E)" and "json_ok E (live E ds)" and "json_fits E (live E ds)"
    and "E' = E\<lparr>get_time := now\<rparr>"
  shows "fst (get_trusted_devices E' (restart (set_trusted_devices E ds c))) = live E' (live E ds)"
proof -
  have "from_json E (unwrap_or_default (to_json E (live E ds))) = Some (live E ds)"
    using assms(2) by (auto simp: json_ok_def split: option.splits)
  then show ?thesis
    using stored_json_decrypts[OF assms(1-3)]
    by (simp add: get_trusted_devices_def set_trusted_devices_eq assms(3)[unfolded live_def] assms(4)
        restart_def PASSWORD_ENC_VERSION_def Let_def live_def)
qed

text \<open>
  C4. A changed permanent password revokes every trusted device, in the running process and after
  a restart.
\<close>

theorem new_password_revokes_devices:
  assumes "vault_ok (dev_vault E)" and "json_ok E []" and "json_fits E []"
    and "password \<noteq> permanent_password c"
  shows "permanent_password (set_permanent_password E password c) = password \<and>
    fst (get_trusted_devices E (set_permanent_password E password c)) = [] \<and>
    fst (get_trusted_devices E (restart (set_permanent_password E password c))) = []"
proof -
  have live: "live E [] = []" by (simp add: live_def)
  have "from_json E (unwrap_or_default (to_json E [])) = Some []"
    using assms(2) by (auto simp: json_ok_def split: option.splits)
  then show ?thesis
    using stored_json_decrypts[OF assms(1-3)] assms(3,4)
    by (simp add: set_permanent_password_def clear_trusted_devices_def set_trusted_devices_eq live
        get_trusted_devices_def restart_def PASSWORD_ENC_VERSION_def Let_def)
qed

text \<open>A concrete environment: one known device, the clock just after it was trusted.\<close>

definition laptop :: trusted_device where
  "laptop = \<lparr>hwid = [7], td_time = 1000, td_id = ''42'', td_name = ''laptop'', td_platform = ''Linux''\<rparr>"

definition one_device_env :: device_env where
  "one_device_env = \<lparr>dev_vault = tag_vault, get_time = 2000,
     to_json = (\<lambda>ds. if ds = [] then Some ''[]'' else if ds = [laptop] then Some ''[1]'' else None),
     from_json = (\<lambda>s. if s = ''[]'' then Some [] else if s = ''[1]'' then Some [laptop] else None)\<rparr>"

lemma one_device_env_ok:
  "vault_ok (dev_vault one_device_env)" "json_ok one_device_env []" "json_fits one_device_env []"
  "live one_device_env [laptop] = [laptop]" "json_ok one_device_env [laptop]"
  "json_fits one_device_env [laptop]"
proof -
  have "utf8_valid (as_bytes ''[1]'')" "utf8_valid (as_bytes ''[]'')"
    by (rule utf8_valid_ascii, simp add: as_bytes_def)+
  then show "json_ok one_device_env []" "json_ok one_device_env [laptop]"
    by (simp_all add: one_device_env_def json_ok_def starts_with_def)
  show "vault_ok (dev_vault one_device_env)"
    by (simp add: one_device_env_def tag_vault_ok)
  show "json_fits one_device_env []" "json_fits one_device_env [laptop]"
    by (simp_all add: one_device_env_def json_fits_def)
  show "live one_device_env [laptop] = [laptop]"
    by (simp add: live_def outdate_def one_device_env_def laptop_def i64_add_exact)
qed

theorem trusted_devices_survive_restart_witness:
  "fst (get_trusted_devices (one_device_env\<lparr>get_time := 3000\<rparr>)
     (restart (set_trusted_devices one_device_env [laptop] empty_config))) = [laptop]"
proof -
  have "live (one_device_env\<lparr>get_time := 3000\<rparr>) [laptop] = [laptop]"
    by (simp add: live_def outdate_def laptop_def i64_add_exact)
  then show ?thesis
    using trusted_devices_survive_restart[of one_device_env "[laptop]" _ 3000 empty_config] one_device_env_ok
    by simp
qed

theorem new_password_revokes_devices_witness:
  "fst (get_trusted_devices one_device_env (set_permanent_password one_device_env ''new''
     (set_trusted_devices one_device_env [laptop] empty_config))) = []"
  using new_password_revokes_devices[OF one_device_env_ok(1-3), of "''new''"
      "set_trusted_devices one_device_env [laptop] empty_config"] one_device_env_ok
  by (simp add: set_trusted_devices_eq empty_config_def)

end
