(* ===== verification/Net_Util.thy ===== *)
theory Net_Util
  imports Hop_Prelude
begin

text \<open>
  The address and version helpers of \<open>libs/hbb_common/src/lib.rs\<close>: \<open>AddrMangle\<close>, which hides an
  address from middleboxes by mixing it with a timestamp, version numbers, and the tag of a request
  for the public key on a direct connection. The clock is an argument.
\<close>

section \<open>Socket addresses\<close>

datatype socket_addr =
  V4 u8 u8 u8 u8 u16
| V6 (octets: bytes) (port: u16) (flowinfo: u32) (scope_id: u32)

definition is_loopback :: "bytes \<Rightarrow> bool" where
  "is_loopback ip \<longleftrightarrow> ip = replicate 15 0 @ [1]"

text \<open>\<open>Ipv6Addr::to_ipv4\<close>: IPv4-compatible and IPv4-mapped addresses.\<close>

definition to_ipv4 :: "bytes \<Rightarrow> (u8 \<times> u8 \<times> u8 \<times> u8) option" where
  "to_ipv4 ip =
    (if take 10 ip = replicate 10 0 \<and>
        (ip ! 10 = 0 \<and> ip ! 11 = 0 \<or> ip ! 10 = 0xFF \<and> ip ! 11 = 0xFF)
     then Some (ip ! 12, ip ! 13, ip ! 14, ip ! 15) else None)"

definition try_into_v4 :: "socket_addr \<Rightarrow> socket_addr" where
  "try_into_v4 addr =
    (case addr of
       V6 ip p fl sc \<Rightarrow>
         if \<not> is_loopback ip then
           (case to_ipv4 ip of Some (a, b, c, d) \<Rightarrow> V4 a b c d p | None \<Rightarrow> addr)
         else addr
     | V4 _ _ _ _ _ \<Rightarrow> addr)"

type_synonym u128 = "128 word"

definition u32_from_le :: "u8 \<Rightarrow> u8 \<Rightarrow> u8 \<Rightarrow> u8 \<Rightarrow> u32" where
  "u32_from_le a b c d =
    ucast a OR push_bit 8 (ucast b) OR push_bit 16 (ucast c) OR push_bit 24 (ucast d)"

fun to_le_bytes :: "nat \<Rightarrow> nat \<Rightarrow> bytes" where
  "to_le_bytes 0 n = []"
| "to_le_bytes (Suc k) n = word_of_nat n # to_le_bytes k (n div 256)"

fun from_le_bytes :: "bytes \<Rightarrow> nat" where
  "from_le_bytes [] = 0"
| "from_le_bytes (b # bs) = unat b + 256 * from_le_bytes bs"

definition strip_zeros :: "bytes \<Rightarrow> bytes" where
  "strip_zeros bs = rev (dropWhile (\<lambda>b. b = 0) (rev bs))"

definition mangled :: "u32 \<Rightarrow> u32 \<Rightarrow> u16 \<Rightarrow> u128" where
  "mangled tm ip p =
    (let tm = ucast tm in
     push_bit 49 (ucast ip + tm) OR push_bit 17 tm OR (ucast p + (tm AND 0xFFFF)))"

text \<open>\<open>AddrMangle::encode\<close>; \<open>tm\<close> is the low half of the clock in microseconds.\<close>

definition addr_encode :: "u32 \<Rightarrow> socket_addr \<Rightarrow> bytes" where
  "addr_encode tm addr =
    (case try_into_v4 addr of
       V4 a b c d p \<Rightarrow> strip_zeros (to_le_bytes 16 (unat (mangled tm (u32_from_le a b c d) p)))
     | V6 ip p _ _ \<Rightarrow> ip @ [ucast p, ucast (drop_bit 8 p)])"

text \<open>\<open>AddrMangle::decode\<close>; \<open>any\<close> is \<open>Config::get_any_listen_addr(false)\<close>.\<close>

definition addr_decode :: "socket_addr \<Rightarrow> bytes \<Rightarrow> socket_addr" where
  "addr_decode any bytes =
    (if length bytes > 16 then
       (if length bytes \<noteq> 18 then any
        else V6 (take 16 bytes) (ucast (bytes ! 16) OR push_bit 8 (ucast (bytes ! 17))) 0 0)
     else
       let number = word_of_nat (from_le_bytes (bytes @ replicate (16 - length bytes) 0)) :: u128;
           tm = drop_bit 17 number AND 0xFFFFFFFF;
           ip = ucast (drop_bit 49 number - tm) :: u32;
           p = (number AND 0xFFFFFF) - (tm AND 0xFFFF)
       in V4 (ucast ip) (ucast (drop_bit 8 ip)) (ucast (drop_bit 16 ip)) (ucast (drop_bit 24 ip)) (ucast p))"

subsection \<open>Bytes in little-endian order\<close>

lemma length_to_le_bytes [simp]: "length (to_le_bytes k n) = k"
  by (induction k arbitrary: n) simp_all

lemma from_to_le_bytes: "n < 256 ^ k \<Longrightarrow> from_le_bytes (to_le_bytes k n) = n"
proof (induction k arbitrary: n)
  case (Suc k)
  then have "n div 256 < 256 ^ k"
    by (simp add: less_mult_imp_div_less mult.commute)
  then show ?case
    using Suc.IH by (simp add: unat_of_nat take_bit_eq_mod)
qed simp

lemma from_le_bytes_zeros: "from_le_bytes (bs @ replicate k 0) = from_le_bytes bs"
  by (induction bs) (induction k, simp_all)

lemma strip_zeros_split: "\<exists>k. bs = strip_zeros bs @ replicate k 0"
proof -
  have "rev bs = takeWhile (\<lambda>b. b = 0) (rev bs) @ rev (strip_zeros bs)"
    by (simp add: strip_zeros_def)
  moreover have "takeWhile (\<lambda>b. b = 0) (rev bs) = replicate (length (takeWhile (\<lambda>b. b = 0) (rev bs))) 0"
    by (intro replicate_length_same[symmetric]) (auto dest: set_takeWhileD)
  ultimately have "bs = strip_zeros bs @ replicate (length (takeWhile (\<lambda>b. b = 0) (rev bs))) 0"
    by (metis rev_append rev_replicate rev_rev_ident)
  then show ?thesis by blast
qed

lemma strip_zeros_padded:
  assumes "length bs = n"
  shows "length (strip_zeros bs) \<le> n" "strip_zeros bs @ replicate (n - length (strip_zeros bs)) 0 = bs"
proof -
  obtain k where k: "bs = strip_zeros bs @ replicate k 0" using strip_zeros_split by blast
  then have "n = length (strip_zeros bs) + k"
    using assms by (metis length_append length_replicate)
  then show "length (strip_zeros bs) \<le> n" "strip_zeros bs @ replicate (n - length (strip_zeros bs)) 0 = bs"
    using k by simp_all
qed

subsection \<open>Taking the mangled number apart\<close>

lemma no_bit_8 [simp]: "8 \<le> n \<Longrightarrow> \<not> bit (a :: u8) n"
  by (auto dest: bit_imp_le_length)

lemma u32_octets:
  "ucast (u32_from_le a b c d) = a" "ucast (drop_bit 8 (u32_from_le a b c d)) = b"
  "ucast (drop_bit 16 (u32_from_le a b c d)) = c" "ucast (drop_bit 24 (u32_from_le a b c d)) = d"
  by (auto intro!: bit_word_eqI simp: u32_from_le_def bit_simps dest: bit_imp_le_length)

lemma unat_add_le: "unat (a + b :: 'a::len word) \<le> unat a + unat b"
  by (simp add: unat_word_ariths)

text \<open>The three parts lie side by side: 17 bits, 32 bits, 33 bits.\<close>

lemma mangled_parts:
  fixes tm ip :: u32 and p :: u16
  shows "unat (ucast p + (ucast tm AND 0xFFFF) :: u128) < 2 ^ 17"
    and "unat (ucast ip + ucast tm :: u128) < 2 ^ 33" and "unat (ucast tm :: u128) < 2 ^ 32"
proof -
  have "(ucast tm AND 0xFFFF :: u128) = take_bit 16 (ucast tm)"
    by (simp add: take_bit_eq_mask mask_eq_exp_minus_1)
  then have "unat (ucast tm AND 0xFFFF :: u128) < 2 ^ 16"
    by (simp only: unsigned_take_bit_eq take_bit_nat_less_exp)
  moreover have "unat (ucast p :: u128) < 2 ^ 16"
    using unsigned_less[of p, where 'a = nat] by (simp add: unsigned_ucast_eq take_bit_nat_eq_self)
  ultimately show "unat (ucast p + (ucast tm AND 0xFFFF) :: u128) < 2 ^ 17"
    using unat_add_le[of "ucast p :: u128" "ucast tm AND 0xFFFF"]
    by (simp del: unsigned_and_eq)
  have small: "unat (ucast w :: u128) < 2 ^ 32" for w :: u32
    using unsigned_less[of w, where 'a = nat] by (simp add: unsigned_ucast_eq take_bit_nat_eq_self)
  then show "unat (ucast tm :: u128) < 2 ^ 32" .
  show "unat (ucast ip + ucast tm :: u128) < 2 ^ 33"
    using unat_add_le[of "ucast ip :: u128" "ucast tm"] small[of ip] small[of tm] by simp
qed

lemma side_by_side:
  fixes hi mid lo :: u128
  assumes "unat lo < 2 ^ 17" and "unat mid < 2 ^ 32" and "unat hi < 2 ^ 33"
  defines "v \<equiv> push_bit 49 hi OR push_bit 17 mid OR lo"
  shows "drop_bit 17 v AND 0xFFFFFFFF = mid" and "drop_bit 49 v = hi"
    and "ucast (v AND 0xFFFFFF) = (ucast lo :: u16)"
proof -
  note below = bit_below[OF assms(1)] bit_below[OF assms(2)] bit_below[OF assms(3)]
  have mask: "(0xFFFFFFFF :: u128) = mask 32" "(0xFFFFFF :: u128) = mask 24"
    by (simp_all add: mask_eq_exp_minus_1)
  show "drop_bit 17 v AND 0xFFFFFFFF = mid"
    unfolding mask by (rule bit_word_eqI) (auto simp: v_def bit_simps dest: below)
  show "drop_bit 49 v = hi"
    by (rule bit_word_eqI) (auto simp: v_def bit_simps dest: below)
  show "ucast (v AND 0xFFFFFF) = (ucast lo :: u16)"
    unfolding mask by (rule bit_word_eqI) (auto simp: v_def bit_simps dest: below)
qed

lemma ucast_down_of_int:
  "LENGTH('b::len) \<le> LENGTH('a::len) \<Longrightarrow> ucast (word_of_int k :: 'a word) = (word_of_int k :: 'b word)"
  by (rule bit_word_eqI) (simp add: bit_simps)

lemma ucast_minus_down:
  fixes a b :: "'a::len word"
  assumes "LENGTH('b::len) \<le> LENGTH('a)"
  shows "ucast (a - b) = (ucast a - ucast b :: 'b word)" "ucast (a + b) = (ucast a + ucast b :: 'b word)"
proof -
  show "ucast (a - b) = (ucast a - ucast b :: 'b word)"
    using ucast_down_of_int[OF assms, of "uint a - uint b"] by simp
  show "ucast (a + b) = (ucast a + ucast b :: 'b word)"
    using ucast_down_of_int[OF assms, of "uint a + uint b"] by simp
qed

lemma ucast_up_down [simp]:
  "ucast (ucast w :: u128) = (w :: u32)" "ucast (ucast p :: u128) = (p :: u16)"
  by (auto intro!: bit_word_eqI simp: bit_simps dest: bit_imp_le_length)

lemma addr_decode_mangled:
  "addr_decode any (strip_zeros (to_le_bytes 16 (unat (mangled tm (u32_from_le a b c d) p)))) = V4 a b c d p"
proof -
  let ?bs = "to_le_bytes 16 (unat (mangled tm (u32_from_le a b c d) p))"
  have pad: "length (strip_zeros ?bs) \<le> 16" "strip_zeros ?bs @ replicate (16 - length (strip_zeros ?bs)) 0 = ?bs"
    by (rule strip_zeros_padded, simp)+
  have "unat (mangled tm (u32_from_le a b c d) p) < 256 ^ 16"
    using unsigned_less[of "mangled tm (u32_from_le a b c d) p", where 'a = nat] by simp
  then have num: "word_of_nat (from_le_bytes ?bs) = mangled tm (u32_from_le a b c d) p"
    by (simp add: from_to_le_bytes)
  note parts = side_by_side[OF mangled_parts(1,3,2)]
  have "drop_bit 17 (mangled tm ip p) AND 0xFFFFFFFF = ucast tm"
    "drop_bit 49 (mangled tm ip p) = ucast ip + ucast tm"
    "ucast (mangled tm ip p AND 0xFFFFFF) = (ucast (ucast p + (ucast tm AND 0xFFFF) :: u128) :: u16)" for ip
    unfolding mangled_def Let_def by (rule parts)+
  then show ?thesis
    using pad by (simp add: addr_decode_def num Let_def ucast_minus_down u32_octets)
qed

section \<open>Version numbers\<close>

fun split_on :: "char \<Rightarrow> string \<Rightarrow> string list" where
  "split_on sep [] = [[]]"
| "split_on sep (c # cs) =
    (if c = sep then [] # split_on sep cs
     else (case split_on sep cs of [] \<Rightarrow> [[c]] | w # ws \<Rightarrow> (c # w) # ws))"

definition is_digit :: "char \<Rightarrow> bool" where
  "is_digit c \<longleftrightarrow> 48 \<le> (of_char c :: nat) \<and> (of_char c :: nat) \<le> 57"

text \<open>\<open>str::parse\<close> of a signed integer of \<open>w\<close> bits.\<close>

definition parse_int :: "nat \<Rightarrow> string \<Rightarrow> int option" where
  "parse_int w s =
    (let (neg, ds) = (if starts_with s ''-'' then (True, tl s)
                      else if starts_with s ''+'' then (False, tl s) else (False, s));
         v = (if neg then - int (dec_val ds) else int (dec_val ds))
     in if ds \<noteq> [] \<and> list_all is_digit ds \<and> - (2 ^ (w - 1)) \<le> v \<and> v < 2 ^ (w - 1) then Some v else None)"

definition i64_wrap :: "int \<Rightarrow> int" where
  "i64_wrap x = sint (word_of_int x :: u64)"

definition get_version_number :: "string \<Rightarrow> int" where
  "get_version_number v =
    foldl (\<lambda>n x. i64_wrap (n * 1000 + (case parse_int 64 x of None \<Rightarrow> 0 | Some k \<Rightarrow> k))) 0 (split_on (CHR ''.'') v)"

text \<open>\<open>chars().rev().position(..)\<close>.\<close>

definition rev_position :: "char \<Rightarrow> string \<Rightarrow> nat option" where
  "rev_position c s =
    (let n = length (takeWhile (\<lambda>x. x \<noteq> c) (rev s)) in if n < length s then Some n else None)"

definition get_version_from_url :: "string \<Rightarrow> string" where
  "get_version_from_url url =
    (let n = length url in
     case rev_position (CHR ''-'') url of None \<Rightarrow> []
     | Some a \<Rightarrow>
       (case rev_position (CHR ''.'') url of None \<Rightarrow> []
        | Some b \<Rightarrow>
          if a > b then
            (if parse_int 32 (drop (n - b) url) \<noteq> None then drop (n - a) url
             else take (a - b - 1) (drop (n - a) url))
          else drop (n - a) url))"

subsection \<open>Dotted numerals\<close>

fun dotted :: "nat list \<Rightarrow> string" where
  "dotted [] = []"
| "dotted [x] = show_nat x"
| "dotted (x # xs) = show_nat x @ ''.'' @ dotted xs"

lemma split_on_plain: "sep \<notin> set s \<Longrightarrow> split_on sep s = [s]"
  by (induction s) auto

lemma split_on_sep: "sep \<notin> set s \<Longrightarrow> split_on sep (s @ sep # rest) = s # split_on sep rest"
  by (induction s) auto

lemma is_digit_char: "(d :: nat) < 10 \<Longrightarrow> is_digit (char_of (48 + d))"
  by (simp add: is_digit_def)

lemma show_nat_digits: "list_all is_digit (show_nat n)"
proof (induction n rule: show_nat.induct)
  case (1 n)
  then show ?case
    by (cases "n < 10") (subst show_nat.simps, simp add: is_digit_char)+
qed

lemma show_nat_not_Nil [simp]: "show_nat n \<noteq> []"
  by (subst show_nat.simps) simp

lemma digit_not_special: "is_digit c \<Longrightarrow> c \<noteq> CHR ''.'' \<and> c \<noteq> CHR ''-'' \<and> c \<noteq> CHR ''+''"
  by (auto simp: is_digit_def)

lemma show_nat_no_dot: "CHR ''.'' \<notin> set (show_nat n)"
  using show_nat_digits[of n] digit_not_special by (auto simp: list_all_iff)

lemma split_dotted: "xs \<noteq> [] \<Longrightarrow> split_on (CHR ''.'') (dotted xs) = map show_nat xs"
  by (induction xs rule: dotted.induct) (simp_all add: split_on_plain split_on_sep show_nat_no_dot)

lemma parse_show_nat:
  assumes "int n < 2 ^ (w - 1)"
  shows "parse_int w (show_nat n) = Some (int n)"
proof -
  obtain c cs where "show_nat n = c # cs" by (meson list.exhaust show_nat_not_Nil)
  moreover from this have "is_digit c" using show_nat_digits[of n] by simp
  ultimately have "\<not> starts_with (show_nat n) ''-''" "\<not> starts_with (show_nat n) ''+''"
    using digit_not_special by (auto simp: starts_with_def)
  moreover have "- (2 ^ (w - 1)) \<le> int n" by (meson negative_zle_0 order_trans of_nat_0_le_iff neg_le_0_iff_le zero_le_numeral zero_le_power)
  ultimately show ?thesis
    using assms show_nat_digits[of n] by (simp add: parse_int_def Let_def)
qed

lemma i64_wrap_exact: "- (2 ^ 63) \<le> x \<Longrightarrow> x < 2 ^ 63 \<Longrightarrow> i64_wrap x = x"
  unfolding i64_wrap_def by (simp add: signed_of_int signed_take_bit_int_eq_self)

text \<open>The value of a dotted version: its components as digits of base 1000.\<close>

definition base1000 :: "nat list \<Rightarrow> nat" where
  "base1000 xs = foldl (\<lambda>n x. n * 1000 + x) 0 xs"

lemma foldl_base1000: "foldl (\<lambda>n x. n * 1000 + x) a xs = a * 1000 ^ length xs + base1000 xs"
proof (induction xs rule: rev_induct)
  case (snoc x xs)
  then show ?case by (simp add: base1000_def algebra_simps)
qed (simp add: base1000_def)

lemma base1000_Cons: "base1000 (x # xs) = x * 1000 ^ length xs + base1000 xs"
  using foldl_base1000[of x xs] by (simp add: base1000_def)

lemma base1000_less: "list_all (\<lambda>x. x < 1000) xs \<Longrightarrow> base1000 xs < 1000 ^ length xs"
proof (induction xs)
  case (Cons x xs)
  then have "base1000 xs < 1000 ^ length xs" "x \<le> 999" by simp_all
  moreover from this(2) have "x * 1000 ^ length xs \<le> 999 * 1000 ^ length xs"
    by (rule mult_right_mono) simp
  ultimately have "x * 1000 ^ length xs + base1000 xs < 1000 * 1000 ^ length xs" by linarith
  then show ?case by (simp add: base1000_Cons)
qed (simp add: base1000_def)

lemma base1000_less_iff:
  "length xs = length ys \<Longrightarrow> list_all (\<lambda>x. x < 1000) xs \<Longrightarrow> list_all (\<lambda>x. x < 1000) ys \<Longrightarrow>
   base1000 xs < base1000 ys \<longleftrightarrow> ord_class.lexordp xs ys"
proof (induction xs ys rule: list_induct2)
  case (Cons x xs y ys)
  have b: "base1000 xs < 1000 ^ length xs" "base1000 ys < 1000 ^ length xs"
    using base1000_less[of xs] base1000_less[of ys] Cons.prems Cons.hyps by simp_all
  have step: "u * 1000 ^ length xs + base1000 us < v * 1000 ^ length xs + base1000 vs"
    if "u < v" "base1000 us < 1000 ^ length xs" for u v us vs
  proof -
    from that(1) have "(u + 1) * 1000 ^ length xs \<le> v * 1000 ^ length xs" by (intro mult_right_mono) simp_all
    with that(2) show ?thesis by simp
  qed
  consider "x < y" | "x = y" | "y < x" by linarith
  then show ?case
  proof cases
    case 1
    then show ?thesis using step[OF 1 b(1)] Cons.hyps by (simp add: base1000_Cons)
  next
    case 2
    then show ?thesis using Cons by (simp add: base1000_Cons)
  next
    case 3
    then show ?thesis using step[OF 3 b(2), of xs] Cons.hyps by (simp add: base1000_Cons)
  qed
qed (simp add: base1000_def)

lemma version_number_dotted:
  assumes "xs \<noteq> []" and "length xs \<le> 6" and "list_all (\<lambda>x. x < 1000) xs"
  shows "get_version_number (dotted xs) = int (base1000 xs)"
proof -
  let ?step = "\<lambda>n x. i64_wrap (n * 1000 + (case parse_int 64 x of None \<Rightarrow> 0 | Some k \<Rightarrow> k))"
  have "length zs \<le> 6 \<Longrightarrow> list_all (\<lambda>x. x < 1000) zs \<Longrightarrow>
      foldl ?step 0 (map show_nat zs) = int (base1000 zs)" for zs
  proof (induction zs rule: rev_induct)
    case (snoc z zs)
    then have z: "z < 1000" and zs: "base1000 zs < 1000 ^ length zs" and "length zs \<le> 5"
      by (auto simp: base1000_less)
    then have "base1000 zs < 1000 ^ 5"
      by (meson less_le_trans power_increasing one_le_numeral)
    with z have "int (base1000 zs) * 1000 + int z < 2 ^ 63" by simp
    then have "i64_wrap (int (base1000 zs) * 1000 + int z) = int (base1000 zs) * 1000 + int z"
      by (intro i64_wrap_exact) simp_all
    with snoc z show ?case by (simp add: parse_show_nat base1000_def)
  qed (simp add: base1000_def)
  with assms show ?thesis
    by (simp add: get_version_number_def split_dotted)
qed

section \<open>Properties\<close>

definition wf_addr :: "socket_addr \<Rightarrow> bool" where
  "wf_addr a = (case a of V6 ip _ _ _ \<Rightarrow> length ip = 16 | V4 _ _ _ _ _ \<Rightarrow> True)"

text \<open>What the wire format keeps of an address: everything but the flow label and the scope.\<close>

definition on_wire :: "socket_addr \<Rightarrow> socket_addr" where
  "on_wire a = (case a of V6 ip p _ _ \<Rightarrow> V6 ip p 0 0 | V4 _ _ _ _ _ \<Rightarrow> a)"

lemma try_into_v4_cases:
  "(\<exists>x1 x2 x3 x4 p. try_into_v4 a = V4 x1 x2 x3 x4 p) \<or> (\<exists>ip p fl sc. a = V6 ip p fl sc \<and> try_into_v4 a = a)"
  by (cases a) (auto simp: try_into_v4_def split: option.split)

text \<open>
  C5. Unmangling inverts mangling whatever the clock shows: a receiver recovers the IPv4 address and
  port, or the IPv6 address and port, of the canonical form of the sender's address, and the two
  forms never collide in length.
\<close>

theorem addr_mangle_roundtrip:
  assumes "wf_addr a"
  shows "addr_decode any (addr_encode tm a) = on_wire (try_into_v4 a) \<and>
    (length (addr_encode tm a) \<le> 16 \<or> length (addr_encode tm a) = 18)"
  using try_into_v4_cases[of a]
proof (elim disjE exE conjE)
  fix x1 x2 x3 x4 p assume v4: "try_into_v4 a = V4 x1 x2 x3 x4 p"
  then have enc: "addr_encode tm a = strip_zeros (to_le_bytes 16 (unat (mangled tm (u32_from_le x1 x2 x3 x4) p)))"
    by (simp add: addr_encode_def)
  show ?thesis
    unfolding enc using v4 strip_zeros_padded(1)[of _ 16] by (simp add: addr_decode_mangled on_wire_def)
next
  fix ip p fl sc assume v6: "a = V6 ip p fl sc" "try_into_v4 a = a"
  have "ucast (ucast p :: u8) OR push_bit 8 (ucast (ucast (drop_bit 8 p) :: u8)) = p"
    by (rule bit_word_eqI) (auto simp: bit_simps)
  then show ?thesis
    using assms v6 by (simp add: addr_encode_def addr_decode_def wf_addr_def on_wire_def nth_append)
qed

theorem addr_mangle_roundtrip_witness:
  "addr_decode (V4 0 0 0 0 0) (addr_encode 0xDEADBEEF (V4 192 168 1 20 21116)) = V4 192 168 1 20 21116 \<and>
   addr_decode (V4 0 0 0 0 0) (addr_encode 7 (V6 (0x20 # replicate 15 1) 443 9 9)) = V6 (0x20 # replicate 15 1) 443 0 0"
proof -
  have v6: "try_into_v4 (V6 (0x20 # replicate 15 1) 443 9 9) = V6 (0x20 # replicate 15 1) 443 9 9"
    by (simp add: try_into_v4_def is_loopback_def to_ipv4_def nth_Cons')
  show ?thesis
    using addr_mangle_roundtrip[where a = "V4 192 168 1 20 21116" and any = "V4 0 0 0 0 0" and tm = "0xDEADBEEF"]
      addr_mangle_roundtrip[where a = "V6 (0x20 # replicate 15 1) 443 9 9" and any = "V4 0 0 0 0 0" and tm = "7"] v6
    by (simp add: wf_addr_def on_wire_def try_into_v4_def)
qed

text \<open>
  Version numbers order releases: for dotted versions of the same number of components, at most
  six, each below 1000, the numbers compare as the component lists do lexicographically, with no
  overflow.
\<close>

theorem version_number_order:
  assumes "xs \<noteq> []" and "length xs \<le> 6" and "length ys = length xs"
    and "list_all (\<lambda>x. x < 1000) xs" and "list_all (\<lambda>x. x < 1000) ys"
  shows "get_version_number (dotted xs) < get_version_number (dotted ys) \<longleftrightarrow> ord_class.lexordp xs ys"
proof -
  have "ys \<noteq> []" using assms(1,3) by auto
  then show ?thesis
    using assms by (simp add: version_number_dotted base1000_less_iff)
qed

theorem version_number_order_witness:
  "get_version_number (dotted [1, 9, 12]) < get_version_number (dotted [1, 10, 2])"
  using version_number_order[of "[1, 9, 12]" "[1, 10, 2]"] by simp

end
