(* ===== verification/Peer_Config.thy ===== *)
theory Peer_Config
  imports Config_Store Net_Util Float_Rounding
begin

text \<open>
  What a client remembers of each machine it connects to: \<open>PeerConfig\<close> and \<open>UserDefaultConfig\<close> of
  \<open>libs/hbb_common/src/config.rs\<close>. A file is a record as \<open>store\<close> wrote it, or \<^const>\<open>None\<close> when the text is not a
  configuration; the TOML library is outside the repository, and what the field attributes of the source
  say about reading it back (which empty fields are left out, which values are replaced by defaults) is
  \<open>deserialised\<close>. Files have a time of last change. The theory ends with the round trip of a
  configuration through its file and with the list of known peers.
\<close>

section \<open>Numbers and their order\<close>

text \<open>\<open>std::cmp::Reverse\<close>: the order of the wrapped value turned round, by which the latest peers come first.\<close>

datatype 'a reverse = Reverse (unreverse: 'a)

instantiation reverse :: (linorder) linorder
begin

definition less_eq_reverse :: "'a reverse \<Rightarrow> 'a reverse \<Rightarrow> bool" where
  "less_eq_reverse x y \<longleftrightarrow> unreverse y \<le> unreverse x"

definition less_reverse :: "'a reverse \<Rightarrow> 'a reverse \<Rightarrow> bool" where
  "less_reverse x y \<longleftrightarrow> unreverse y < unreverse x"

instance
  by standard (auto simp: less_eq_reverse_def less_reverse_def intro: reverse.expand)

end

text \<open>
  \<open>str::parse\<close> of an \<open>f64\<close>. The texts of infinities and of NaN give \<^const>\<open>None\<close> like a text that is no
  number: they fail every range test below, with the same result.
\<close>

definition parse_decimal :: "string \<Rightarrow> (nat \<times> nat) option" where
  "parse_decimal s =
    (let i = takeWhile is_digit s; r = drop (length i) s;
         f = (if starts_with r ''.'' then tl r else [])
     in if (r = [] \<or> starts_with r ''.'') \<and> list_all is_digit f \<and> i @ f \<noteq> [] then Some (dec_val (i @ f), length f) else None)"

definition parse_f64 :: "string \<Rightarrow> rat option" where
  "parse_f64 s =
    (let (neg, t) = (if starts_with s ''-'' then (True, tl s) else if starts_with s ''+'' then (False, tl s) else (False, s));
         m = takeWhile (\<lambda>c. c \<noteq> CHR ''e'' \<and> c \<noteq> CHR ''E'') t;
         x = drop (length m) t;
         ds = (if starts_with (tl x) ''-'' \<or> starts_with (tl x) ''+'' then tl (tl x) else tl x);
         e = (if x = [] then Some 0
              else if ds \<noteq> [] \<and> list_all is_digit ds then Some (if starts_with (tl x) ''-'' then - int (dec_val ds) else int (dec_val ds))
              else None)
     in case (parse_decimal m, e) of
          (Some (n, d), Some k) \<Rightarrow> let v = f64 (of_nat n * 10 powi (k - int d)) in Some (if neg then - v else v)
        | _ \<Rightarrow> None)"

text \<open>\<open>to_string()\<close> of a positive \<open>f64\<close>: the shortest decimal that is read as the same number.\<close>

definition show_f64 :: "rat \<Rightarrow> string" where
  "show_f64 x =
    (let digits = (\<lambda>k. nat (round_even (x * 10 ^ k)));
         k = (case find (\<lambda>k. f64 (of_nat (digits k) / 10 ^ k) = x) [0..<18] of Some k \<Rightarrow> k | None \<Rightarrow> 18);
         n = digits k;
         frac = show_nat (n mod 10 ^ k)
     in if k = 0 then show_nat n
        else show_nat (n div 10 ^ k) @ ''.'' @ replicate (k - length frac) (CHR ''0'') @ frac)"

section \<open>Default settings of the display\<close>

definition get_num_string ::
  "(string \<Rightarrow> 'n::linorder option) \<Rightarrow> ('n \<Rightarrow> string) \<Rightarrow> user_default_config \<Rightarrow> string \<Rightarrow> 'n \<Rightarrow> 'n \<Rightarrow> 'n \<Rightarrow> string" where
  "get_num_string parse to_str U k dflt lo hi =
    (case udc_get_after U k of
       Some x \<Rightarrow>
         let v = (case parse x of Some v \<Rightarrow> v | None \<Rightarrow> dflt)
         in if lo \<le> v \<and> v \<le> hi then to_str v else to_str dflt
     | None \<Rightarrow> to_str dflt)"

definition udc_get :: "user_default_config \<Rightarrow> string \<Rightarrow> string" where
  "udc_get U k =
    (if k = ''view_style'' then udc_get_string U k ''shrink'' [''adaptive'']
     else if k = ''scroll_style'' then udc_get_string U k ''scrollauto'' [''scrolledge'', ''scrollbar'']
     else if k = ''image_quality'' then udc_get_string U k ''balanced'' [''best'', ''low'', ''custom'']
     else if k = ''codec-preference'' then udc_get_string U k ''auto'' [''vp8'', ''vp9'', ''av1'', ''h264'', ''h265'']
     else if k = ''custom_image_quality'' then get_num_string parse_f64 show_f64 U k 50 10 4095
     else if k = ''custom-fps'' then get_num_string parse_f64 show_f64 U k 30 5 120
     else if k = ''enable-file-copy-paste'' then udc_get_string U k ''Y'' [[], ''N'']
     else if k = ''edge-scroll-edge-thickness'' then get_num_string (parse_int 32) show_int U k 100 20 150
     else if k = ''trackpad-speed'' then get_num_string (parse_int 32) show_int U k 100 10 1000
     else unwrap_or_default (udc_get_after U k))"

section \<open>The configuration of a peer\<close>

type_synonym size4 = "int \<times> int \<times> int \<times> int"

record peer_info_serde =
  info_username :: string
  info_hostname :: string
  info_platform :: string

record transfer_serde =
  write_job_names :: "string list"
  read_job_names :: "string list"

record peer_config =
  pc_password :: bytes
  pc_size :: size4
  pc_size_ft :: size4
  pc_size_pf :: size4
  pc_view_style :: string
  pc_scroll_style :: string
  pc_edge_scroll_edge_thickness :: int
  pc_image_quality :: string
  pc_custom_image_quality :: "int list"
  pc_show_remote_cursor :: bool
  pc_lock_after_session_end :: bool
  pc_privacy_mode :: bool
  pc_allow_swap_key :: bool
  pc_port_forwards :: "(int \<times> string \<times> int) list"
  pc_direct_failures :: int
  pc_disable_audio :: bool
  pc_disable_clipboard :: bool
  pc_enable_file_copy_paste :: bool
  pc_show_quality_monitor :: bool
  pc_follow_remote_cursor :: bool
  pc_follow_remote_window :: bool
  pc_keyboard_mode :: string
  pc_view_only :: bool
  pc_show_my_cursor :: bool
  pc_sync_init_clipboard :: bool
  pc_reverse_mouse_wheel :: string
  pc_displays_as_individual_windows :: string
  pc_use_all_my_displays :: string
  pc_trackpad_speed :: int
  pc_public_key :: bytes
  pc_custom_resolutions :: "string \<Rightarrow> (int \<times> int) option"
  pc_options :: settings
  pc_ui_flutter :: settings
  pc_info :: peer_info_serde
  pc_transfer :: transfer_serde

definition default_custom_image_quality :: "user_default_config \<Rightarrow> int list" where
  "default_custom_image_quality U =
    [\<lfloor>case parse_f64 (udc_get U ''custom_image_quality'') of Some f \<Rightarrow> f | None \<Rightarrow> 50\<rfloor>]"

definition deserialize_custom_image_quality :: "user_default_config \<Rightarrow> int list \<Rightarrow> int list" where
  "deserialize_custom_image_quality U v =
    (if length v = 1 \<and> v ! 0 \<ge> 10 \<and> v ! 0 \<le> 0xFFF then v else default_custom_image_quality U)"

definition default_options :: "user_default_config \<Rightarrow> settings" where
  "default_options U = (\<lambda>k.
    if k \<in> set [''codec-preference'', ''custom-fps'', ''zoom-cursor'', ''touch-mode'', ''i444'', ''swap-left-right-mouse'',
      ''collapse_toolbar''] then Some (udc_get U k) else None)"

definition default_trackpad_speed :: "user_default_config \<Rightarrow> int" where
  "default_trackpad_speed U = (case parse_int 32 (udc_get U ''trackpad-speed'') of Some n \<Rightarrow> n | None \<Rightarrow> 100)"

definition deserialize_trackpad_speed :: "user_default_config \<Rightarrow> int \<Rightarrow> int" where
  "deserialize_trackpad_speed U v = (if v \<ge> 10 \<and> v \<le> 1000 then v else default_trackpad_speed U)"

definition default_edge_thickness :: "user_default_config \<Rightarrow> int" where
  "default_edge_thickness U = (case parse_int 32 (udc_get U ''edge-scroll-edge-thickness'') of Some n \<Rightarrow> n | None \<Rightarrow> 100)"

definition deserialize_edge_thickness :: "user_default_config \<Rightarrow> int \<Rightarrow> int" where
  "deserialize_edge_thickness U v = (if v \<ge> 20 \<and> v \<le> 150 then v else default_edge_thickness U)"

text \<open>The macros \<open>serde_field_string\<close> and \<open>serde_field_bool\<close>.\<close>

definition serde_field_string :: "user_default_config \<Rightarrow> string \<Rightarrow> string \<Rightarrow> string" where
  "serde_field_string U k s = (if s = [] then udc_get U k else s)"

definition serde_field_bool :: "user_default_config \<Rightarrow> string \<Rightarrow> bool" where
  "serde_field_bool U k = (udc_get U k = ''Y'')"

definition peer_default :: "user_default_config \<Rightarrow> peer_config" where
  "peer_default U =
    \<lparr>pc_password = [], pc_size = (0, 0, 0, 0), pc_size_ft = (0, 0, 0, 0), pc_size_pf = (0, 0, 0, 0),
     pc_view_style = udc_get U ''view_style'', pc_scroll_style = udc_get U ''scroll_style'',
     pc_edge_scroll_edge_thickness = default_edge_thickness U,
     pc_image_quality = udc_get U ''image_quality'', pc_custom_image_quality = default_custom_image_quality U,
     pc_show_remote_cursor = serde_field_bool U ''show_remote_cursor'',
     pc_lock_after_session_end = serde_field_bool U ''lock_after_session_end'',
     pc_privacy_mode = serde_field_bool U ''privacy_mode'',
     pc_allow_swap_key = serde_field_bool U ''allow_swap_key'',
     pc_port_forwards = [], pc_direct_failures = 0,
     pc_disable_audio = serde_field_bool U ''disable_audio'',
     pc_disable_clipboard = serde_field_bool U ''disable_clipboard'',
     pc_enable_file_copy_paste = serde_field_bool U ''enable-file-copy-paste'',
     pc_show_quality_monitor = serde_field_bool U ''show_quality_monitor'',
     pc_follow_remote_cursor = serde_field_bool U ''follow_remote_cursor'',
     pc_follow_remote_window = serde_field_bool U ''follow_remote_window'',
     pc_keyboard_mode = [],
     pc_view_only = serde_field_bool U ''view_only'',
     pc_show_my_cursor = serde_field_bool U ''show_my_cursor'',
     pc_sync_init_clipboard = serde_field_bool U ''sync-init-clipboard'',
     pc_reverse_mouse_wheel = udc_get U ''reverse_mouse_wheel'',
     pc_displays_as_individual_windows = udc_get U ''displays_as_individual_windows'',
     pc_use_all_my_displays = udc_get U ''use_all_my_displays_for_the_remote_session'',
     pc_trackpad_speed = default_trackpad_speed U,
     pc_public_key = [], pc_custom_resolutions = Map.empty, pc_options = default_options U, pc_ui_flutter = Map.empty,
     pc_info = \<lparr>info_username = [], info_hostname = [], info_platform = []\<rparr>,
     pc_transfer = \<lparr>write_job_names = [], read_job_names = []\<rparr>\<rparr>"

text \<open>A stored record as it is read: the fields with a default of their own. The others are read as written.\<close>

definition deserialised :: "user_default_config \<Rightarrow> peer_config \<Rightarrow> peer_config" where
  "deserialised U c = c\<lparr>
    pc_view_style := serde_field_string U ''view_style'' (pc_view_style c),
    pc_scroll_style := serde_field_string U ''scroll_style'' (pc_scroll_style c),
    pc_edge_scroll_edge_thickness := deserialize_edge_thickness U (pc_edge_scroll_edge_thickness c),
    pc_image_quality := serde_field_string U ''image_quality'' (pc_image_quality c),
    pc_custom_image_quality := deserialize_custom_image_quality U (pc_custom_image_quality c),
    pc_reverse_mouse_wheel := serde_field_string U ''reverse_mouse_wheel'' (pc_reverse_mouse_wheel c),
    pc_displays_as_individual_windows :=
      serde_field_string U ''displays_as_individual_windows'' (pc_displays_as_individual_windows c),
    pc_use_all_my_displays :=
      serde_field_string U ''use_all_my_displays_for_the_remote_session'' (pc_use_all_my_displays c),
    pc_trackpad_speed := deserialize_trackpad_speed U (pc_trackpad_speed c)\<rparr>"

section \<open>Files\<close>

record peer_store =
  peer_files :: "string \<Rightarrow> (nat \<times> peer_config option) option"
  new_stored :: "string set"

text \<open>\<open>can_write\<close>: writing the file of a path succeeds.\<close>

record peer_env =
  vlt :: vault
  defaults :: user_default_config
  write_time :: nat
  can_write :: "string \<Rightarrow> bool"

definition PEERS :: string where "PEERS = ''peers''"

definition encode_id :: "vault \<Rightarrow> string \<Rightarrow> string" where
  "encode_id V i =
    (if list_ex (\<lambda>c. c \<in> set ''<>:/|?*'' \<or> c = CHR 0x5C) i then ''base64_'' @ b64_encode V (as_bytes i) else i)"

text \<open>
  \<open>with_extension\<close> on the joined path appends \<open>.toml\<close> to its last component, which is that of the
  directory when the id is empty or a dot; two dots have no name to extend.
\<close>

definition peer_path :: "vault \<Rightarrow> string \<Rightarrow> string" where
  "peer_path V i =
    (if i = [] \<or> i = ''.'' then PEERS @ ''.toml''
     else if i = ''..'' then PEERS @ ''/..''
     else PEERS @ ''/'' @ encode_id V i @ ''.toml'')"

definition SECRET_OPTIONS :: "string list" where
  "SECRET_OPTIONS = [''rdp_password'', ''os-username'', ''os-password'']"

definition ENCRYPT_MAX_LEN :: nat where "ENCRYPT_MAX_LEN = 128"

definition seal_option :: "vault \<Rightarrow> string \<Rightarrow> settings \<Rightarrow> settings" where
  "seal_option V k m =
    (case m k of None \<Rightarrow> m | Some v \<Rightarrow> m(k \<mapsto> encrypt_str_or_original V v PASSWORD_ENC_VERSION ENCRYPT_MAX_LEN))"

definition unseal_option :: "vault \<Rightarrow> string \<Rightarrow> settings \<times> bool \<Rightarrow> settings \<times> bool" where
  "unseal_option V k = (\<lambda>(m, store).
    (case m k of
       None \<Rightarrow> (m, store)
     | Some v \<Rightarrow>
         let (x, _, store2) = decrypt_str_or_original V v PASSWORD_ENC_VERSION in (m(k \<mapsto> x), store \<or> store2)))"

definition sealed :: "vault \<Rightarrow> peer_config \<Rightarrow> peer_config" where
  "sealed V c = c\<lparr>pc_password := encrypt_vec_or_original V (pc_password c) PASSWORD_ENC_VERSION ENCRYPT_MAX_LEN,
    pc_options := fold (seal_option V) SECRET_OPTIONS (pc_options c)\<rparr>"

definition unsealed :: "vault \<Rightarrow> peer_config \<Rightarrow> peer_config \<times> bool" where
  "unsealed V c =
    (let (pw, _, store2) = decrypt_vec_or_original V (pc_password c) PASSWORD_ENC_VERSION;
         (m, store) = fold (unseal_option V) SECRET_OPTIONS (pc_options c, store2)
     in (c\<lparr>pc_password := pw, pc_options := m\<rparr>, store))"

definition peer_store_config :: "peer_env \<Rightarrow> string \<Rightarrow> peer_config \<Rightarrow> peer_store \<Rightarrow> peer_store" where
  "peer_store_config E i c st =
    (let p = peer_path (vlt E) i;
         st = (if can_write E p then st\<lparr>peer_files := (peer_files st)(p \<mapsto> (write_time E, Some (sealed (vlt E) c)))\<rparr> else st)
     in st\<lparr>new_stored := insert i (new_stored st)\<rparr>)"

definition peer_load :: "peer_env \<Rightarrow> string \<Rightarrow> peer_store \<Rightarrow> peer_config \<times> peer_store" where
  "peer_load E i st =
    (case peer_files st (peer_path (vlt E) i) of
       Some (_, Some raw) \<Rightarrow>
         let (c, store) = unsealed (vlt E) (deserialised (defaults E) raw)
         in (c, if store then peer_store_config E i c st else st)
     | _ \<Rightarrow> (peer_default (defaults E), st))"

definition peer_remove :: "peer_env \<Rightarrow> string \<Rightarrow> peer_store \<Rightarrow> peer_store" where
  "peer_remove E i st = st\<lparr>peer_files := (peer_files st)(peer_path (vlt E) i := None)\<rparr>"

definition peer_exists :: "peer_env \<Rightarrow> string \<Rightarrow> peer_store \<Rightarrow> bool" where
  "peer_exists E i st \<longleftrightarrow> peer_files st (peer_path (vlt E) i) \<noteq> None"

section \<open>The list of peers\<close>

text \<open>The id of a file name, when the file is a configuration.\<close>

definition file_id :: "vault \<Rightarrow> string \<Rightarrow> string option" where
  "file_id V n =
    (if \<not> (ends_with n ''.toml'' \<and> length n > 5) then None
     else
       let stem = take (length n - 5) n;
           i = (if utf8_valid (as_bytes stem) then stem else [])
       in Some (if starts_with i ''base64_'' \<and> length i \<noteq> 7 then
                  from_utf8_lossy (case b64_decode V (as_bytes (drop 7 i)) of Some b \<Rightarrow> b | None \<Rightarrow> [])
                else i))"

definition entry_path :: "string \<Rightarrow> string" where
  "entry_path n = PEERS @ ''/'' @ n"

definition peer_entry ::
  "peer_env \<Rightarrow> string list option \<Rightarrow> string \<Rightarrow> (string \<times> nat \<times> peer_config) list \<times> peer_store \<Rightarrow>
   (string \<times> nat \<times> peer_config) list \<times> peer_store" where
  "peer_entry E filters n = (\<lambda>(acc, st).
    (case (peer_files st (entry_path n), file_id (vlt E) n) of
       (Some (t, _), Some i) \<Rightarrow>
         if (case filters of Some fs \<Rightarrow> i \<notin> set fs | None \<Rightarrow> False) then (acc, st)
         else
           let (c, st) = peer_load E i st
           in if info_platform (pc_info c) = [] then
                (acc, st\<lparr>peer_files := (peer_files st)(entry_path n := None)\<rparr>)
              else (acc @ [(i, t, c)], st)
     | _ \<Rightarrow> (acc, st)))"

text \<open>\<open>names\<close> are the names of the directory. Peers of the same time are in no particular order.\<close>

definition peers ::
  "peer_env \<Rightarrow> string list option \<Rightarrow> string list \<Rightarrow> peer_store \<Rightarrow> (string \<times> nat \<times> peer_config) list \<times> peer_store" where
  "peers E filters names st =
    (let (acc, st) = fold (peer_entry E filters) names ([], st) in (sort_key (\<lambda>(_, t, _). Reverse t) acc, st))"

section \<open>Lemmas\<close>

lemma seal_options:
  assumes "distinct ks"
  shows "fold (seal_option V) ks m k =
    (if k \<in> set ks then map_option (\<lambda>v. encrypt_str_or_original V v PASSWORD_ENC_VERSION ENCRYPT_MAX_LEN) (m k) else m k)"
  using assms by (induction ks arbitrary: m) (auto simp: seal_option_def split: option.splits)

lemma unseal_options:
  assumes "distinct ks"
  shows "fst (fold (unseal_option V) ks (m, b)) k =
      (if k \<in> set ks then map_option (\<lambda>v. fst (decrypt_str_or_original V v PASSWORD_ENC_VERSION)) (m k) else m k)"
  using assms by (induction ks arbitrary: m b) (auto simp: unseal_option_def split: option.splits prod.splits)

definition needs_store :: "vault \<Rightarrow> string option \<Rightarrow> bool" where
  "needs_store V x = (case x of None \<Rightarrow> False | Some v \<Rightarrow> snd (snd (decrypt_str_or_original V v PASSWORD_ENC_VERSION)))"

lemma unseal_options_store:
  assumes "distinct ks"
  shows "snd (fold (unseal_option V) ks (m, b)) \<longleftrightarrow> b \<or> list_ex (\<lambda>k. needs_store V (m k)) ks"
  using assms
proof (induction ks arbitrary: m b)
  case (Cons k ks)
  obtain m' b' where u: "unseal_option V k (m, b) = (m', b')" by force
  then have "b' \<longleftrightarrow> b \<or> needs_store V (m k)" "\<And>j. j \<noteq> k \<Longrightarrow> m' j = m j"
    by (auto simp: unseal_option_def needs_store_def split: option.splits prod.splits)
  moreover have "list_ex (\<lambda>j. needs_store V (m' j)) ks = list_ex (\<lambda>j. needs_store V (m j)) ks"
    by (rule list_ex_cong[OF refl]) (use calculation(2) Cons.prems in \<open>metis distinct.simps(2)\<close>)
  ultimately show ?case using Cons u by simp
qed simp

definition secret_ok :: "vault \<Rightarrow> string \<Rightarrow> bool" where
  "secret_ok V s \<longleftrightarrow> s = [] \<or>
    utf8_valid (as_bytes s) \<and> length s \<le> ENCRYPT_MAX_LEN \<and> \<not> fst (snd (decrypt_str_or_original V s PASSWORD_ENC_VERSION))"

text \<open>Secrets that fit and do not look sealed, and fields that their attributes leave as they are.\<close>

definition storable :: "vault \<Rightarrow> user_default_config \<Rightarrow> peer_config \<Rightarrow> bool" where
  "storable V U c \<longleftrightarrow> deserialised U c = c \<and>
    length (pc_password c) \<le> ENCRYPT_MAX_LEN \<and>
    \<not> fst (snd (decrypt_vec_or_original V (pc_password c) PASSWORD_ENC_VERSION)) \<and>
    (\<forall>k \<in> set SECRET_OPTIONS. \<forall>s. pc_options c k = Some s \<longrightarrow> secret_ok V s)"

lemma secret_read_back:
  assumes "vault_ok V" and "secret_ok V s"
  shows "decrypt_str_or_original V (encrypt_str_or_original V s PASSWORD_ENC_VERSION ENCRYPT_MAX_LEN) PASSWORD_ENC_VERSION
    = (s, s \<noteq> [], False)"
  using assms stored_str_readable[of V s ENCRYPT_MAX_LEN "''00''"]
  by (cases "s = []") (auto simp: secret_ok_def PASSWORD_ENC_VERSION_def encrypt_str_or_original_def split: sum.split)

lemma password_read_back:
  assumes "vault_ok V" and "length v \<le> ENCRYPT_MAX_LEN"
    and "\<not> fst (snd (decrypt_vec_or_original V v PASSWORD_ENC_VERSION))"
  shows "decrypt_vec_or_original V (encrypt_vec_or_original V v PASSWORD_ENC_VERSION ENCRYPT_MAX_LEN) PASSWORD_ENC_VERSION
    = (v, v \<noteq> [], False)"
  using assms stored_vec_readable[of V v ENCRYPT_MAX_LEN "''00''"]
  by (cases "v = []") (auto simp: PASSWORD_ENC_VERSION_def encrypt_vec_or_original_def split: sum.split)

lemma secret_options_distinct [simp]: "distinct SECRET_OPTIONS"
  by (simp add: SECRET_OPTIONS_def)

lemma deserialised_parts [simp]:
  "pc_password (deserialised U c) = pc_password c" "pc_options (deserialised U c) = pc_options c"
  "pc_info (deserialised U c) = pc_info c"
  by (simp_all add: deserialised_def)

lemma deserialised_sealed: "deserialised U (sealed V c) = sealed V (deserialised U c)"
  by (simp add: deserialised_def sealed_def)

lemma unsealed_sealed:
  assumes "vault_ok V" and "storable V U c"
  shows "unsealed V (deserialised U (sealed V c)) = (c, False)"
proof -
  let ?m = "fold (seal_option V) SECRET_OPTIONS (pc_options c)"
  have pw: "decrypt_vec_or_original V (pc_password (sealed V c)) PASSWORD_ENC_VERSION = (pc_password c, pc_password c \<noteq> [], False)"
    using assms password_read_back by (simp add: storable_def sealed_def)
  have one: "map_option (\<lambda>v. fst (decrypt_str_or_original V v PASSWORD_ENC_VERSION)) (?m k) = pc_options c k"
    "\<not> needs_store V (?m k)" if "k \<in> set SECRET_OPTIONS" for k
    using that assms secret_read_back[OF assms(1)]
    by (cases "pc_options c k"; auto simp: seal_options storable_def needs_store_def)+
  have "fst (fold (unseal_option V) SECRET_OPTIONS (?m, False)) = pc_options c"
    by (rule ext) (use one in \<open>simp add: unseal_options seal_options\<close>)
  moreover have "\<not> snd (fold (unseal_option V) SECRET_OPTIONS (?m, False))"
    using one by (simp add: unseal_options_store list_ex_iff)
  ultimately have "fold (unseal_option V) SECRET_OPTIONS (?m, False) = (pc_options c, False)"
    by (metis prod.collapse)
  then show ?thesis
    using pw assms(2) by (simp add: unsealed_def deserialised_sealed storable_def) (simp add: sealed_def)
qed

section \<open>Paths\<close>

text \<open>Ids that name a file of their own.\<close>

definition own_file :: "string \<Rightarrow> bool" where
  "own_file i \<longleftrightarrow> i \<noteq> [] \<and> i \<noteq> ''.'' \<and> i \<noteq> ''..'' \<and> \<not> starts_with i ''base64_''"

lemma b64_inj: "vault_ok V \<Longrightarrow> b64_encode V a = b64_encode V b \<longleftrightarrow> a = b"
  by (metis option.inject vault_okD(3))

lemma as_bytes_inj [simp]: "as_bytes s = as_bytes t \<longleftrightarrow> s = t"
  by (metis from_as_bytes)

lemma encode_id_cases: "encode_id V i = i \<or> encode_id V i = ''base64_'' @ b64_encode V (as_bytes i)"
  by (simp add: encode_id_def)

lemma peer_path_inj:
  assumes "vault_ok V" "own_file i" "own_file j" "peer_path V i = peer_path V j"
  shows "i = j"
proof -
  have "encode_id V i = encode_id V j"
    using assms(2-4) by (simp add: own_file_def peer_path_def)
  then consider "i = j" | "i = ''base64_'' @ b64_encode V (as_bytes j)" | "j = ''base64_'' @ b64_encode V (as_bytes i)"
    | "b64_encode V (as_bytes i) = b64_encode V (as_bytes j)"
    using encode_id_cases[of V i] encode_id_cases[of V j] by (metis same_append_eq)
  then show ?thesis
  proof cases
    case 2
    then show ?thesis using assms(2) unfolding own_file_def by (metis starts_with_append)
  next
    case 3
    then show ?thesis using assms(3) unfolding own_file_def by (metis starts_with_append)
  next
    case 4
    then show ?thesis using b64_inj[OF assms(1)] as_bytes_inj by blast
  qed
qed

section \<open>Reading back\<close>

lemma stored_file:
  "can_write E (peer_path (vlt E) i) \<Longrightarrow> peer_files (peer_store_config E i c st) =
    (peer_files st)(peer_path (vlt E) i \<mapsto> (write_time E, Some (sealed (vlt E) c)))"
  by (simp add: peer_store_config_def Let_def)

lemma load_other:
  assumes "peer_path (vlt E) j \<noteq> peer_path (vlt E) i"
  shows "fst (peer_load E j (peer_store_config E i c st)) = fst (peer_load E j st)"
  using assms by (simp add: peer_load_def peer_store_config_def Let_def split: option.splits prod.splits)

lemma load_stored:
  assumes "vault_ok (vlt E)" "storable (vlt E) (defaults E) c" "can_write E (peer_path (vlt E) i)"
  shows "peer_load E i (peer_store_config E i c st) = (c, peer_store_config E i c st)"
  using assms unsealed_sealed[OF assms(1,2)] by (simp add: peer_load_def stored_file)


section \<open>Listing\<close>

lemma entry_path_inj [simp]: "entry_path n = entry_path m \<longleftrightarrow> n = m"
  by (simp add: entry_path_def)

definition file_config :: "peer_env \<Rightarrow> peer_store \<Rightarrow> string \<Rightarrow> nat \<times> peer_config \<times> bool" where
  "file_config E st n =
    (case peer_files st (entry_path n) of
       Some (t, Some raw) \<Rightarrow> (t, unsealed (vlt E) (deserialised (defaults E) raw))
     | _ \<Rightarrow> (0, peer_default (defaults E), False))"

text \<open>A file whose name is that of its id, and whose secrets are sealed.\<close>

definition config_file :: "peer_env \<Rightarrow> peer_store \<Rightarrow> string \<Rightarrow> bool" where
  "config_file E st n \<longleftrightarrow>
    (\<exists>t raw i. peer_files st (entry_path n) = Some (t, Some raw) \<and> file_id (vlt E) n = Some i \<and>
      peer_path (vlt E) i = entry_path n) \<and> \<not> snd (snd (file_config E st n))"

definition entry_of :: "peer_env \<Rightarrow> peer_store \<Rightarrow> string \<Rightarrow> string \<times> nat \<times> peer_config" where
  "entry_of E st n = (the (file_id (vlt E) n), fst (file_config E st n), fst (snd (file_config E st n)))"

definition known :: "string \<times> nat \<times> peer_config \<Rightarrow> bool" where
  "known x \<longleftrightarrow> info_platform (pc_info (snd (snd x))) \<noteq> []"

lemma peer_entry_file:
  assumes "config_file E st n"
  shows "peer_entry E None n (acc, st) =
    (if known (entry_of E st n) then (acc @ [entry_of E st n], st)
     else (acc, st\<lparr>peer_files := (peer_files st)(entry_path n := None)\<rparr>))"
  using assms
  by (auto simp: config_file_def peer_entry_def known_def entry_of_def file_config_def peer_load_def
      split: prod.splits)

lemma peer_entries:
  assumes "distinct names" "\<And>n. n \<in> set names \<Longrightarrow> config_file E st n"
  shows "fold (peer_entry E None) names (acc, st) =
    (acc @ filter known (map (entry_of E st) names),
     st\<lparr>peer_files := (\<lambda>p. if \<exists>n \<in> set names. p = entry_path n \<and> \<not> known (entry_of E st n) then None else peer_files st p)\<rparr>)"
  using assms
proof (induction names arbitrary: acc st)
  case (Cons n names)
  let ?st = "if known (entry_of E st n) then st else st\<lparr>peer_files := (peer_files st)(entry_path n := None)\<rparr>"
  have other: "file_config E ?st m = file_config E st m" "peer_files ?st (entry_path m) = peer_files st (entry_path m)"
    if "m \<in> set names" for m
    using that Cons.prems(1) by (auto simp: file_config_def)
  then have same: "entry_of E ?st m = entry_of E st m" "config_file E ?st m" if "m \<in> set names" for m
    using that Cons.prems(2)[of m] by (simp_all add: entry_of_def config_file_def)
  have "fold (peer_entry E None) (n # names) (acc, st)
      = fold (peer_entry E None) names (acc @ filter known [entry_of E st n], ?st)"
    using peer_entry_file[OF Cons.prems(2)[of n], of acc] by simp
  also have "\<dots> = ((acc @ filter known [entry_of E st n]) @ filter known (map (entry_of E ?st) names),
      ?st\<lparr>peer_files := (\<lambda>p. if \<exists>n \<in> set names. p = entry_path n \<and> \<not> known (entry_of E ?st n) then None else peer_files ?st p)\<rparr>)"
    by (rule Cons.IH) (use Cons.prems(1) same(2) in auto)
  also have "map (entry_of E ?st) names = map (entry_of E st) names"
    by (rule map_cong[OF refl same(1)])
  also have "?st\<lparr>peer_files := (\<lambda>p. if \<exists>n \<in> set names. p = entry_path n \<and> \<not> known (entry_of E ?st n) then None else peer_files ?st p)\<rparr>
      = st\<lparr>peer_files := (\<lambda>p. if \<exists>m \<in> set (n # names). p = entry_path m \<and> \<not> known (entry_of E st m) then None else peer_files st p)\<rparr>"
    using same(1) by (cases "known (entry_of E st n)") (auto simp: fun_eq_iff intro!: peer_store.equality)
  finally show ?case by simp
qed simp

text \<open>
  The list of recent peers: for a directory of configurations it holds exactly those whose platform is
  known, the latest first; the files of the others, and only those, are deleted.
\<close>

theorem recent_peers:
  assumes "distinct names" and "\<forall>n \<in> set names. config_file E st n" and "peers E None names st = (ps, st')"
  shows "sorted_wrt (\<lambda>(_, t, _) (_, u, _). u \<le> t) ps \<and>
    set ps = {x \<in> entry_of E st ` set names. known x} \<and>
    peer_files st' = (\<lambda>p. if \<exists>n \<in> set names. p = entry_path n \<and> \<not> known (entry_of E st n) then None else peer_files st p)"
proof -
  let ?f = "\<lambda>(_, t, _). Reverse t" and ?xs = "filter known (map (entry_of E st) names)"
  have "ps = sort_key ?f ?xs" "peer_files st' = (\<lambda>p. if \<exists>n \<in> set names. p = entry_path n \<and> \<not> known (entry_of E st n) then None else peer_files st p)"
    using assms(3) peer_entries[of names E st "[]"] assms(1,2) by (auto simp: peers_def)
  moreover have "sorted_wrt (\<lambda>(_, t, _) (_, u, _). u \<le> t) (sort_key ?f ?xs)"
    using sorted_sort_key[of ?f ?xs] by (auto simp: sorted_wrt_map less_eq_reverse_def case_prod_unfold)
  ultimately show ?thesis by auto
qed

section \<open>Witnesses\<close>

definition plain_defaults :: user_default_config where
  "plain_defaults = \<lparr>display_options = Map.empty, overwrite_display_settings = Map.empty, default_display_settings = Map.empty\<rparr>"

definition plain_peer_env :: peer_env where
  "plain_peer_env = \<lparr>vlt = tag_vault, defaults = plain_defaults, write_time = 7, can_write = (\<lambda>_. True)\<rparr>"

definition no_peers :: peer_store where
  "no_peers = \<lparr>peer_files = Map.empty, new_stored = {}\<rparr>"

definition sample_peer :: peer_config where
  "sample_peer = \<lparr>pc_password = [1, 2], pc_size = (0, 0, 0, 0), pc_size_ft = (0, 0, 0, 0), pc_size_pf = (0, 0, 0, 0),
     pc_view_style = ''adaptive'', pc_scroll_style = ''scrollbar'', pc_edge_scroll_edge_thickness = 30,
     pc_image_quality = ''low'', pc_custom_image_quality = [60], pc_show_remote_cursor = True,
     pc_lock_after_session_end = False, pc_privacy_mode = False, pc_allow_swap_key = False, pc_port_forwards = [],
     pc_direct_failures = 0, pc_disable_audio = False, pc_disable_clipboard = False, pc_enable_file_copy_paste = True,
     pc_show_quality_monitor = False, pc_follow_remote_cursor = False, pc_follow_remote_window = False,
     pc_keyboard_mode = ''map'', pc_view_only = False, pc_show_my_cursor = False, pc_sync_init_clipboard = False,
     pc_reverse_mouse_wheel = ''N'', pc_displays_as_individual_windows = ''N'', pc_use_all_my_displays = ''N'',
     pc_trackpad_speed = 100, pc_public_key = [], pc_custom_resolutions = Map.empty,
     pc_options = [''os-password'' \<mapsto> ''pw''], pc_ui_flutter = Map.empty,
     pc_info = \<lparr>info_username = ''me'', info_hostname = ''host'', info_platform = ''Linux''\<rparr>,
     pc_transfer = \<lparr>write_job_names = [], read_job_names = []\<rparr>\<rparr>"

lemma sample_peer_storable: "storable tag_vault U sample_peer"
proof -
  have "utf8_valid (as_bytes ''pw'')" by (rule utf8_valid_ascii) (simp add: as_bytes_def)
  then show ?thesis
    by (simp add: storable_def sample_peer_def deserialised_def serde_field_string_def deserialize_edge_thickness_def
        deserialize_custom_image_quality_def deserialize_trackpad_speed_def SECRET_OPTIONS_def secret_ok_def
        ENCRYPT_MAX_LEN_def PASSWORD_ENC_VERSION_def decrypt_str_or_original_def decrypt_vec_or_original_def VERSION_LEN_def)
qed


lemma sample_read: "file_config plain_peer_env (peer_store_config plain_peer_env ''123'' sample_peer no_peers) ''123.toml'' =
    (7, sample_peer, False)"
  using unsealed_sealed[OF tag_vault_ok sample_peer_storable, of plain_defaults]
  by (simp add: file_config_def peer_store_config_def plain_peer_env_def peer_path_def entry_path_def encode_id_def)

theorem recent_peers_witness:
  "set (fst (peers plain_peer_env None [''123.toml''] (peer_store_config plain_peer_env ''123'' sample_peer no_peers)))
    = {(''123'', 7, sample_peer)}"
proof -
  let ?st = "peer_store_config plain_peer_env ''123'' sample_peer no_peers"
  have "utf8_valid (as_bytes ''123'')" by (rule utf8_valid_ascii) (simp add: as_bytes_def)
  then have i: "file_id (vlt plain_peer_env) ''123.toml'' = Some ''123''"
    by (simp add: file_id_def ends_with_def starts_with_def)
  then have "config_file plain_peer_env ?st ''123.toml''"
    by (simp add: config_file_def sample_read)
      (simp add: peer_store_config_def plain_peer_env_def peer_path_def entry_path_def encode_id_def)
  moreover have "entry_of plain_peer_env ?st ''123.toml'' = (''123'', 7, sample_peer)"
    by (simp add: entry_of_def sample_read i)
  moreover have "known (''123'', 7, sample_peer)" by (simp add: known_def sample_peer_def)
  ultimately show ?thesis
    using recent_peers[of "[''123.toml'']" plain_peer_env ?st] by (cases "peers plain_peer_env None [''123.toml''] ?st") auto
qed

section \<open>Limits\<close>

text \<open>A secret that is longer than the limit is stored as the empty text.\<close>

lemma long_secret_lost:
  assumes "pc_options c k = Some s" "k \<in> set SECRET_OPTIONS" "length s > ENCRYPT_MAX_LEN"
    "\<not> fst (snd (decrypt_str_or_original V s PASSWORD_ENC_VERSION))"
  shows "pc_options (sealed V c) k = Some []"
  using assms by (simp add: sealed_def seal_options encrypt_str_or_original_def)

text \<open>Base64 text may hold a slash: such a peer gets a file below another directory, which is never listed.\<close>

lemma nested_peer_not_listed:
  assumes "b64_encode (vlt E) (as_bytes i) = x @ ''/'' @ y" "CHR ''/'' \<in> set i" "CHR ''/'' \<notin> set n"
  shows "peer_path (vlt E) i \<noteq> entry_path n"
proof
  assume e: "peer_path (vlt E) i = entry_path n"
  have "encode_id (vlt E) i = ''base64_'' @ x @ ''/'' @ y"
    using assms(1,2) by (auto simp: encode_id_def list_ex_iff)
  moreover have "i \<noteq> []" "i \<noteq> ''.''" "i \<noteq> ''..''" using assms(2) by auto
  ultimately have "n = ''base64_'' @ x @ ''/'' @ y @ ''.toml''"
    using e by (simp add: peer_path_def entry_path_def)
  then show False using assms(3) by simp
qed

text \<open>An id that already has the form of an encoded one shares its file.\<close>

lemma encoded_id_collides:
  assumes "encode_id V i = j" "encode_id V j = j" "i \<noteq> []" "i \<noteq> ''.''" "i \<noteq> ''..''" "j \<noteq> []" "j \<noteq> ''.''" "j \<noteq> ''..''"
  shows "peer_path V i = peer_path V j"
  using assms by (simp add: peer_path_def)

end
