(* ===== verification/Api_Table.thy ===== *)
theory Api_Table
  imports Json_Value Config_Store Utf8_Lossy
begin

text \<open>
  The table of addresses that every part of the program fetches once (\<open>libs/hbb_common/src/api.rs\<close>): it is kept in
  memory, a file \<open>api.json\<close> goes before everything else, the option \<open>api-cache\<close> before the network, and the
  network is asked at most once in eleven hours for an address. A fetched table is stored in \<open>api-cache\<close>. Instants
  are milliseconds.

  The tasks that store a table are taken to run at once; the task that fetches again every twelve hours is the
  operation \<open>background_round\<close>. The requests, the JSON texts, Base64 and the file are parameters.
\<close>

section \<open>State\<close>

record once_api =
  api_response :: "json option"
  last_calls :: "(string, nat) map"
  refresh_started :: bool
  force_refresh :: bool
  from_local :: bool
  last_forced_refresh :: "nat option"

definition once_default :: once_api where
  "once_default = \<lparr>api_response = None, last_calls = Map.empty, refresh_started = False, force_refresh = False, from_local = False,
     last_forced_refresh = None\<rparr>"

record 'w api_env =
  api_now :: "'w \<Rightarrow> nat"
  api_get :: "string \<Rightarrow> 'w \<Rightarrow> (string + json) \<times> 'w"
  local_table :: "'w \<Rightarrow> string option"
  read_json :: "string \<Rightarrow> json option"
  show_json :: "json \<Rightarrow> string"
  encode64 :: "bytes \<Rightarrow> string"
  decode64 :: "string \<Rightarrow> bytes option"

type_synonym 'w api_sys = "once_api \<times> config \<times> 'w"

definition API_URI :: string where "API_URI = ''https://api.hoptodesk.com/''"

section \<open>Operations\<close>

text \<open>What the user has chosen instead of the address of the table; the option is read from the stored ones.\<close>

definition table_uri :: "config \<Rightarrow> string" where
  "table_uri c = (case options c ''custom-api-url'' of Some v \<Rightarrow> v | None \<Rightarrow> API_URI)"

text \<open>The spawned task.\<close>

definition store_table :: "'w api_env \<Rightarrow> json \<Rightarrow> config \<Rightarrow> config" where
  "store_table E v c =
    (let cache_value = encode64 E (as_bytes (show_json E v))
     in case v of
          JObj _ \<Rightarrow> if cache_value \<noteq> [] then set_option ''api-cache'' cache_value c else c
        | _ \<Rightarrow> c)"

definition cached_table :: "'w api_env \<Rightarrow> config \<Rightarrow> json option" where
  "cached_table E c =
    (case options c ''api-cache'' of
       Some v \<Rightarrow>
         if v = [] then None
         else (case decode64 E v of
                 Some bs \<Rightarrow> if utf8_valid bs then read_json E (from_bytes bs) else None
               | None \<Rightarrow> None)
     | None \<Rightarrow> None)"

definition load_from_persistent_cache :: "'w api_env \<Rightarrow> 'w api_sys \<Rightarrow> (string + json) \<times> 'w api_sys" where
  "load_from_persistent_cache E = (\<lambda>(a, c, w).
    case cached_table E c of
      Some v \<Rightarrow> (Inr v, a\<lparr>api_response := Some v\<rparr>, c, w)
    | None \<Rightarrow> (Inl ''No valid cache available'', a, c, w))"

definition try_api_call :: "'w api_env \<Rightarrow> string \<Rightarrow> 'w api_sys \<Rightarrow> (string + json) \<times> 'w api_sys" where
  "try_api_call E uri = (\<lambda>(a, c, w).
    let now = api_now E w in
    if (case last_calls a uri of Some t \<Rightarrow> now - t < 39600 * 1000 | None \<Rightarrow> False)
    then (Inl ''Rate limited - API called too recently'', a, c, w)
    else let (r, w) = api_get E uri w in (r, a\<lparr>last_calls := (last_calls a)(uri \<mapsto> now)\<rparr>, c, w))"

definition start_background_refresh :: "once_api \<Rightarrow> once_api" where
  "start_background_refresh a = a\<lparr>refresh_started := True\<rparr>"

text \<open>The network, and when it fails the stored table.\<close>

definition fetch_table :: "'w api_env \<Rightarrow> 'w api_sys \<Rightarrow> (string + json) \<times> 'w api_sys" where
  "fetch_table E = (\<lambda>(a, c, w).
    case try_api_call E (table_uri c) (a, c, w) of
      (Inr v, a, c, w) \<Rightarrow> (Inr v, start_background_refresh (a\<lparr>api_response := Some v\<rparr>), store_table E v c, w)
    | (Inl _, s) \<Rightarrow> load_from_persistent_cache E s)"

definition table_call :: "'w api_env \<Rightarrow> 'w api_sys \<Rightarrow> (string + json) \<times> 'w api_sys" where
  "table_call E = (\<lambda>(a, c, w).
    let force = force_refresh a; a = a\<lparr>force_refresh := False\<rparr> in
    case (if from_local a \<or> \<not> force then api_response a else None) of
      Some v \<Rightarrow> (Inr v, a, c, w)
    | None \<Rightarrow>
        (case Option.bind (local_table E w) (read_json E) of
           Some v \<Rightarrow> (Inr v, a\<lparr>api_response := Some v, from_local := True\<rparr>, c, w)
         | None \<Rightarrow>
             if force then fetch_table E (a, c, w)
             else (case load_from_persistent_cache E (a, c, w) of
                     (Inr v, a, c, w) \<Rightarrow> (Inr v, start_background_refresh a, c, w)
                   | (Inl _, s) \<Rightarrow> fetch_table E s)))"

definition erase_table :: "once_api \<Rightarrow> once_api" where
  "erase_table a = a\<lparr>api_response := None, force_refresh := True\<rparr>"

text \<open>One round of the background task.\<close>

definition background_round :: "'w api_env \<Rightarrow> 'w api_sys \<Rightarrow> 'w api_sys" where
  "background_round E = (\<lambda>(a, c, w). snd (table_call E (erase_table a, c, w)))"

definition force_refresh_on_connect_failure :: "'w api_env \<Rightarrow> 'w api_sys \<Rightarrow> bool \<times> 'w api_sys" where
  "force_refresh_on_connect_failure E = (\<lambda>(a, c, w).
    let now = api_now E w in
    if from_local a \<or> (case last_forced_refresh a of Some t \<Rightarrow> now - t < 3600 * 1000 | None \<Rightarrow> False) then (False, a, c, w)
    else
      let a = a\<lparr>last_forced_refresh := Some now\<rparr>; uri = table_uri c
      in (case api_get E uri w of
            (Inl _, w) \<Rightarrow> (False, a, c, w)
          | (Inr v, w) \<Rightarrow>
              (True, a\<lparr>api_response := Some v, last_calls := (last_calls a)(uri \<mapsto> api_now E w)\<rparr>, store_table E v c, w)))"

section \<open>What it changes\<close>

text \<open>The only setting that is ever changed is the stored table.\<close>

definition same_but_cache :: "config \<Rightarrow> config \<Rightarrow> bool" where
  "same_but_cache c c' \<longleftrightarrow> c' = c \<or> (\<exists>v. c' = set_option ''api-cache'' v c)"

lemma store_table_cache: "same_but_cache c (store_table E v c)"
  by (auto simp: store_table_def same_but_cache_def Let_def split: json.split)

lemma cache_load_config: "load_from_persistent_cache E (a, c, w) = (r, a', c', w') \<Longrightarrow> c' = c \<and> w' = w"
  by (auto simp: load_from_persistent_cache_def split: option.splits)

lemma try_config: "try_api_call E uri (a, c, w) = (r, a', c', w') \<Longrightarrow> c' = c"
  by (auto simp: try_api_call_def Let_def split: if_splits prod.splits)

lemma fetch_cache:
  assumes "fetch_table E (a, c, w) = (r, a', c', w')"
  shows "same_but_cache c c'"
proof -
  obtain r1 a1 c1 w1 where t: "try_api_call E (table_uri c) (a, c, w) = (r1, a1, c1, w1)" by (metis prod_cases4)
  note c1 = try_config[OF t]
  show ?thesis
  proof (cases r1)
    case (Inl e)
    then show ?thesis
      using assms t c1 cache_load_config[of E a1 c1 w1 r a' c' w'] by (simp add: fetch_table_def same_but_cache_def)
  next
    case (Inr v)
    then have "c' = store_table E v c" using assms t c1 by (auto simp: fetch_table_def)
    then show ?thesis using store_table_cache by simp
  qed
qed

lemma table_call_cache:
  assumes "table_call E (a, c, w) = (r, a', c', w')"
  shows "same_but_cache c c'"
proof -
  let ?a = "a\<lparr>force_refresh := False\<rparr>"
  have same: "same_but_cache c c" by (simp add: same_but_cache_def)
  obtain r1 a1 c1 w1 where l: "load_from_persistent_cache E (?a, c, w) = (r1, a1, c1, w1)" by (metis prod_cases4)
  note c1 = cache_load_config[OF l]
  consider v where "(if from_local a \<or> \<not> force_refresh a then api_response a else None) = Some v"
    | v where "(if from_local a \<or> \<not> force_refresh a then api_response a else None) = None" "Option.bind (local_table E w) (read_json E) = Some v"
    | "(if from_local a \<or> \<not> force_refresh a then api_response a else None) = None" "Option.bind (local_table E w) (read_json E) = None"
    by (cases "if from_local a \<or> \<not> force_refresh a then api_response a else None"; cases "Option.bind (local_table E w) (read_json E)") blast+
  then show ?thesis
  proof cases
    case 3
    show ?thesis
    proof (cases "force_refresh a")
      case True
      then show ?thesis using assms 3 fetch_cache by (simp add: table_call_def Let_def split: if_splits)
    next
      case False
      then show ?thesis
        using assms 3 l c1 fetch_cache[of E a1 c1 w1 r a' c' w'] same
        by (cases r1) (simp_all add: table_call_def Let_def)
    qed
  qed (use assms same in \<open>simp_all add: table_call_def Let_def split: if_splits\<close>)
qed

lemma background_round_cache: "background_round E (a, c, w) = (a', c', w') \<Longrightarrow> same_but_cache c c'"
  unfolding background_round_def prod.case by (metis prod.collapse snd_conv table_call_cache)

text \<open>A table in memory is given without asking anybody; within eleven hours of a request the same address is not
  asked again; and a failure to connect asks again at most once an hour, never when there is a local table.\<close>

lemma table_in_memory:
  "api_response a = Some v \<Longrightarrow> \<not> force_refresh a \<or> from_local a \<Longrightarrow> \<exists>a'. table_call E (a, c, w) = (Inr v, a', c, w)"
  by (auto simp: table_call_def Let_def)

lemma asked_once:
  "last_calls a (table_uri c) = Some t \<Longrightarrow> api_now E w - t < 39600 * 1000 \<Longrightarrow>
   snd (snd (snd (fetch_table E (a, c, w)))) = w"
  by (simp add: fetch_table_def try_api_call_def load_from_persistent_cache_def split: option.split)

lemma forced_once:
  "from_local a \<or> last_forced_refresh a = Some t \<and> api_now E w - t < 3600 * 1000 \<Longrightarrow>
   force_refresh_on_connect_failure E (a, c, w) = (False, a, c, w)"
  by (auto simp: force_refresh_on_connect_failure_def Let_def)

lemma forced_refresh_cache:
  assumes "force_refresh_on_connect_failure E (a, c, w) = (b, a', c', w')"
  shows "same_but_cache c c'"
  using assms store_table_cache
  by (auto simp: force_refresh_on_connect_failure_def Let_def same_but_cache_def split: if_splits prod.splits sum.splits)

text \<open>A table that was fetched is found in the cache after a restart, when the option can be stored and the
  encodings can be undone.\<close>

lemma stored_table_found:
  assumes "\<And>bs. decode64 E (encode64 E bs) = Some bs" and "\<And>bs. bs \<noteq> [] \<Longrightarrow> encode64 E bs \<noteq> []"
    and "read_json E (show_json E (JObj kvs)) = Some (JObj kvs)" and "show_json E (JObj kvs) \<noteq> []"
    and "utf8_valid (as_bytes (show_json E (JObj kvs)))"
    and "is_option_can_save (overwrite_settings c) ''api-cache'' (default_settings c) (encode64 E (as_bytes (show_json E (JObj kvs))))"
  shows "fst (load_from_persistent_cache E (once_default, store_table E (JObj kvs) c, w)) = Inr (JObj kvs)"
proof -
  have "encode64 E (as_bytes (show_json E (JObj kvs))) \<noteq> []" using assms(2,4) by (simp add: as_bytes_def)
  then have "options (store_table E (JObj kvs) c) ''api-cache'' = Some (encode64 E (as_bytes (show_json E (JObj kvs))))"
    using assms(6) by (simp add: store_table_def set_option_def Let_def)
  then show ?thesis
    using assms(1,3,5) \<open>encode64 E _ \<noteq> []\<close> by (simp add: load_from_persistent_cache_def cached_table_def)
qed

end
