(* ===== verification/Mcp_Tools.thy ===== *)
theory Mcp_Tools
  imports Mcp_Screen Ui_Sessions Peer_Config Utf8_Lossy Api_Table "HOL-Library.List_Lexorder" "HOL-Library.Product_Lexorder" "HOL-Library.Sublist"
begin

text \<open>
  The tools of the automation server (\<open>src/mcp_server.rs\<close>), as built for FreeBSD without flutter: each takes
  its arguments as a JSON value, acts on the machine and answers with a JSON value or a message of error. The
  state is that of the server and of the main window; every action on the machine is kept in a history. The
  input library, the clipboard, the processes and the file system are parameters.
\<close>

section \<open>State and environment\<close>

datatype button = LeftButton | RightButton | MiddleButton

datatype ekey =
    KControl | KAlt | KShift | KMeta | KReturn | KEscape | KTab | KBackspace | KDelete | KUpArrow | KDownArrow
  | KLeftArrow | KRightArrow | KHome | KEnd | KPageUp | KPageDown | KSpace | KFunction nat | KLayout char

datatype action =
    MouseMove int int
  | MouseClick button
  | MouseDown button
  | MouseUp button
  | ScrollX int
  | ScrollY int
  | KeySequence string
  | KeyDown ekey
  | KeyUp ekey
  | KeyClick ekey
  | SetClipboard string
  | SwitchPermission int string bool
  | Spawn string "string list"
  | SpawnSelf "string list"

record 'w mcp =
  world :: 'w
  mcp_cfg :: config
  mcp_peers :: peer_store
  ui :: ui_children
  is_recording :: bool
  wf_steps :: "(string \<times> json \<times> nat) list"
  rec_start :: "nat option"
  diff_refs :: "(string \<times> capture \<times> nat) list"
  actions :: "action list"
  api :: once_api

datatype command_end = NotSpawned string | TimedOut | WaitFailed string | Finished "int option" bytes bytes | Disconnected

datatype path_kind = Missing | Directory | RegularFile | OtherNode

text \<open>
  An entry of a directory: its name, and its metadata (directory, size, modified in seconds) when readable.
  An entry of the log directory: its path, whether it is a directory, whether its extension is \<open>log\<close>, and its
  time of modification when readable.
\<close>

type_synonym dir_entry = "bytes \<times> (bool \<times> nat \<times> nat option) option"
type_synonym log_entry = "string \<times> bool \<times> bool \<times> nat option"

record 'w mcp_env = "'w machine" +
  parse :: "string \<Rightarrow> json option"
  compact :: "json \<Rightarrow> string"
  pretty :: "json \<Rightarrow> string"
  lower :: "string \<Rightarrow> string"
  react :: "action \<Rightarrow> 'w \<Rightarrow> 'w"
  press_error :: "'w \<Rightarrow> string option"
  clipboard_error :: "'w \<Rightarrow> string option"
  clipboard_text :: "'w \<Rightarrow> string option"
  clipboard_set_error :: "string \<Rightarrow> 'w \<Rightarrow> string option"
  command_output :: "string \<Rightarrow> string list \<Rightarrow> 'w \<Rightarrow> ((string + int option \<times> bytes \<times> bytes) \<times> 'w) option"
  timed_output :: "nat \<Rightarrow> string \<Rightarrow> string list \<Rightarrow> 'w \<Rightarrow> command_end \<times> 'w"
  window_env :: "'w \<Rightarrow> children_env"
  drop_state_file :: "string \<Rightarrow> 'w \<Rightarrow> 'w"
  read_state_file :: "string \<Rightarrow> 'w \<Rightarrow> string option \<times> 'w"
  png_base64 :: "nat \<Rightarrow> nat \<Rightarrow> bytes \<Rightarrow> string + string"
  base64 :: "bytes \<Rightarrow> string"
  pkg_version :: string
  host_name :: string
  auto_id :: "string option"
  app_name :: string
  connect_status :: "'w \<Rightarrow> int"
  peer_environment :: peer_env
  peer_names :: "'w \<Rightarrow> string list"
  epoch_secs :: "nat \<Rightarrow> nat"
  favourites :: "'w \<Rightarrow> string list"
  lan_peers :: "'w \<Rightarrow> (string \<times> string \<times> string \<times> string) list"
  home_dir :: "string option"
  config_dir :: string
  temp_dir :: string
  log_dir :: string
  fresh_id :: "'w \<Rightarrow> string"
  path_node :: "string \<Rightarrow> 'w \<Rightarrow> path_kind"
  list_dir :: "string \<Rightarrow> 'w \<Rightarrow> string + dir_entry list"
  list_logs :: "string \<Rightarrow> 'w \<Rightarrow> log_entry list option"
  file_size :: "string \<Rightarrow> 'w \<Rightarrow> string + nat"
  file_bytes :: "string \<Rightarrow> 'w \<Rightarrow> string + bytes"

text \<open>What a tool gives: content, a message of error, or a panic that ends the thread of the server.\<close>

datatype answer = Good json | Bad string | Panicked

definition act :: "('w, 'z) mcp_env_scheme \<Rightarrow> action \<Rightarrow> 'w mcp \<Rightarrow> 'w mcp" where
  "act E a s = s\<lparr>world := react E a (world s), actions := actions s @ [a]\<rparr>"

definition pause :: "('w, 'z) mcp_env_scheme \<Rightarrow> nat \<Rightarrow> 'w mcp \<Rightarrow> 'w mcp" where
  "pause E ms s = s\<lparr>world := sleep_ms E ms (world s)\<rparr>"

definition clock :: "('w, 'z) mcp_env_scheme \<Rightarrow> 'w mcp \<Rightarrow> nat" where
  "clock E s = now_ms E (world s)"

text \<open>The answers \<open>[\{type: text, text: ...\}]\<close>, with a message or with a printed value.\<close>

definition text_content :: "string \<Rightarrow> json" where
  "text_content t = JArr [JObj [(''type'', JStr ''text''), (''text'', JStr t)]]"

definition say :: "string \<Rightarrow> 's \<Rightarrow> answer \<times> 's" where
  "say t s = (Good (text_content t), s)"

definition report :: "('w, 'z) mcp_env_scheme \<Rightarrow> (string \<times> json) list \<Rightarrow> 's \<Rightarrow> answer \<times> 's" where
  "report E kvs s = (Good (text_content (pretty E (JObj kvs))), s)"

definition quoted :: "string \<Rightarrow> string" where
  "quoted t = [CHR 0x27] @ t @ [CHR 0x27]"

definition capture :: "('w, 'z) mcp_env_scheme \<Rightarrow> region option \<Rightarrow> 'w mcp \<Rightarrow> (string + capture) \<times> 'w mcp" where
  "capture E region s = (let (r, w) = capture_rgba E region (world s) in (r, s\<lparr>world := w\<rparr>))"

section \<open>Waiting\<close>

text \<open>
  The loops that look for something until a time limit. The body may itself wait; \<^const>\<open>None\<close> stands for a loop
  that never ends.
\<close>

partial_function (option) poll ::
  "('s \<Rightarrow> nat) \<Rightarrow> nat \<Rightarrow> nat \<Rightarrow> ('s \<Rightarrow> ('r option \<times> 's) option) \<Rightarrow> 's \<Rightarrow> ('r option \<times> 's) option" where
  "poll clk t0 limit body s =
    (if limit \<le> clk s - t0 then Some (None, s)
     else (case body s of
             None \<Rightarrow> None
           | Some (r, s) \<Rightarrow> (case r of Some x \<Rightarrow> Some (Some x, s) | None \<Rightarrow> poll clk t0 limit body s)))"

declare poll.simps [simp del]

section \<open>Mouse and keyboard\<close>

definition button_of :: "json \<Rightarrow> string \<times> button" where
  "button_of args =
    (let b = get_or_else (as_str (field args ''button'')) ''left''
     in (b, if b = ''right'' then RightButton else if b = ''middle'' then MiddleButton else LeftButton))"

definition tool_mouse_click :: "('w, 'z) mcp_env_scheme \<Rightarrow> json \<Rightarrow> 'w mcp \<Rightarrow> answer \<times> 'w mcp" where
  "tool_mouse_click E args s =
    (case (i32_at args ''x'', i32_at args ''y'') of
       (None, _) \<Rightarrow> (Bad ''Missing x'', s)
     | (_, None) \<Rightarrow> (Bad ''Missing y'', s)
     | (Some x, Some y) \<Rightarrow>
         let (name, b) = button_of args; double = get_or_else (as_bool (field args ''double_click'')) False;
             s = act E (MouseClick b) (pause E 10 (act E (MouseMove x y) s));
             s = (if double then act E (MouseClick b) (pause E 50 s) else s)
         in say (''Clicked ('' @ show_int x @ '', '' @ show_int y @ '') '' @ name @ (if double then '' (double)'' else '''')) s)"

definition tool_mouse_move :: "('w, 'z) mcp_env_scheme \<Rightarrow> json \<Rightarrow> 'w mcp \<Rightarrow> answer \<times> 'w mcp" where
  "tool_mouse_move E args s =
    (case (i32_at args ''x'', i32_at args ''y'') of
       (None, _) \<Rightarrow> (Bad ''Missing x'', s)
     | (_, None) \<Rightarrow> (Bad ''Missing y'', s)
     | (Some x, Some y) \<Rightarrow> say (''Moved mouse to ('' @ show_int x @ '', '' @ show_int y @ '')'') (act E (MouseMove x y) s))"

definition tool_type_text :: "('w, 'z) mcp_env_scheme \<Rightarrow> json \<Rightarrow> 'w mcp \<Rightarrow> answer \<times> 'w mcp" where
  "tool_type_text E args s =
    (case as_str (field args ''text'') of
       None \<Rightarrow> (Bad ''Missing text'', s)
     | Some t \<Rightarrow> say (''Typed '' @ show_nat (length t) @ '' characters'') (act E (KeySequence t) s))"

definition KEY_NAMES :: "(string \<times> ekey) list" where
  "KEY_NAMES =
    [(''return'', KReturn), (''enter'', KReturn), (''escape'', KEscape), (''esc'', KEscape), (''tab'', KTab),
     (''backspace'', KBackspace), (''delete'', KDelete), (''up'', KUpArrow), (''down'', KDownArrow),
     (''left'', KLeftArrow), (''right'', KRightArrow), (''home'', KHome), (''end'', KEnd), (''pageup'', KPageUp),
     (''pagedown'', KPageDown), (''space'', KSpace)]
    @ map (\<lambda>n. (''f'' @ show_nat n, KFunction n)) [1..<13]"

definition MODIFIER_NAMES :: "(string \<times> ekey) list" where
  "MODIFIER_NAMES =
    [(''ctrl'', KControl), (''control'', KControl), (''alt'', KAlt), (''shift'', KShift), (''meta'', KMeta),
     (''super'', KMeta), (''win'', KMeta), (''cmd'', KMeta)]"

definition key_named :: "(string \<times> ekey) list \<Rightarrow> string \<Rightarrow> ekey option" where
  "key_named names k =
    (case map_of names k of Some x \<Rightarrow> Some x | None \<Rightarrow> if length k = 1 then Some (KLayout (hd k)) else None)"

definition parse_enigo_key :: "('w, 'z) mcp_env_scheme \<Rightarrow> string \<Rightarrow> string + ekey" where
  "parse_enigo_key E key =
    (case key_named (MODIFIER_NAMES @ KEY_NAMES) (lower E key) of Some k \<Rightarrow> Inr k | None \<Rightarrow> Inl (''Unknown key: '' @ key))"

text \<open>The modifiers are pressed in order and released in reverse; names that are no modifier are passed over.\<close>

definition tool_key_press :: "('w, 'z) mcp_env_scheme \<Rightarrow> json \<Rightarrow> 'w mcp \<Rightarrow> answer \<times> 'w mcp" where
  "tool_key_press E args s =
    (case as_str (field args ''key'') of
       None \<Rightarrow> (Bad ''Missing key'', s)
     | Some key \<Rightarrow>
         let names = List.map_filter as_str (get_or_else (as_array (field args ''modifiers'')) []);
             mods = List.map_filter (\<lambda>m. map_of MODIFIER_NAMES (lower E m)) names
         in (case key_named KEY_NAMES (lower E key) of
               None \<Rightarrow> (Bad (''Unknown key: '' @ key), s)
             | Some k \<Rightarrow>
                 let s = fold (\<lambda>m. act E (KeyDown m)) mods s;
                     s = act E (KeyClick k) s;
                     s = fold (\<lambda>m. act E (KeyUp m)) (rev mods) s
                 in say (''Pressed '' @ concat (map (\<lambda>m. m @ ''+'') names) @ key) s))"

definition tool_key_hold :: "('w, 'z) mcp_env_scheme \<Rightarrow> json \<Rightarrow> 'w mcp \<Rightarrow> answer \<times> 'w mcp" where
  "tool_key_hold E args s =
    (case as_str (field args ''key'') of
       None \<Rightarrow> (Bad ''Missing key'', s)
     | Some key \<Rightarrow> (case parse_enigo_key E key of Inl e \<Rightarrow> (Bad e, s) | Inr k \<Rightarrow> say (''Holding '' @ key) (act E (KeyDown k) s)))"

definition tool_key_release :: "('w, 'z) mcp_env_scheme \<Rightarrow> json \<Rightarrow> 'w mcp \<Rightarrow> answer \<times> 'w mcp" where
  "tool_key_release E args s =
    (case as_str (field args ''key'') of
       None \<Rightarrow> (Bad ''Missing key'', s)
     | Some key \<Rightarrow> (case parse_enigo_key E key of Inl e \<Rightarrow> (Bad e, s) | Inr k \<Rightarrow> say (''Released '' @ key) (act E (KeyUp k) s)))"

definition tool_scroll :: "('w, 'z) mcp_env_scheme \<Rightarrow> json \<Rightarrow> 'w mcp \<Rightarrow> answer \<times> 'w mcp" where
  "tool_scroll E args s =
    (let x = get_or_else (i32_at args ''x'') (- 1); y = get_or_else (i32_at args ''y'') (- 1);
         direction = get_or_else (as_str (field args ''direction'')) ''down'';
         amount = get_or_else (i32_at args ''amount'') 3;
         s = (if x \<ge> 0 \<and> y \<ge> 0 then pause E 10 (act E (MouseMove x y) s) else s);
         done_text = ''Scrolled '' @ direction @ '' by '' @ show_int amount @ '' lines at ('' @ show_int x @ '', '' @ show_int y @ '')''
     in if direction = ''up'' then say done_text (act E (ScrollY (as_i32 (- amount))) s)
        else if direction = ''down'' then say done_text (act E (ScrollY amount) s)
        else if direction = ''left'' then say done_text (act E (ScrollX (as_i32 (- amount))) s)
        else if direction = ''right'' then say done_text (act E (ScrollX amount) s)
        else (Bad (''Invalid direction: '' @ direction @ ''. Use up/down/left/right.''), s))"

text \<open>
  The points of a drag in double precision. The difference of the ends wraps as in a release build, and the
  conversion to \<open>i32\<close> cuts off the fraction and saturates.
\<close>

definition signed_f64 :: "rat \<Rightarrow> rat" where
  "signed_f64 x = (if x < 0 then - f64 (- x) else f64 x)"

definition to_i32 :: "rat \<Rightarrow> int" where
  "to_i32 x = max (- (2 ^ 31)) (min (2 ^ 31 - 1) (if x < 0 then - \<lfloor>- x\<rfloor> else \<lfloor>x\<rfloor>))"

definition drag_point :: "int \<Rightarrow> int \<Rightarrow> int \<Rightarrow> int \<Rightarrow> int" where
  "drag_point a b step steps =
    to_i32 (signed_f64 (of_int a + signed_f64 (of_int (as_i32 (b - a)) * signed_f64 (of_int step / of_int steps))))"

definition tool_mouse_drag :: "('w, 'z) mcp_env_scheme \<Rightarrow> json \<Rightarrow> 'w mcp \<Rightarrow> answer \<times> 'w mcp" where
  "tool_mouse_drag E args s =
    (case map (i32_at args) [''start_x'', ''start_y'', ''end_x'', ''end_y''] of
       [Some x0, Some y0, Some x1, Some y1] \<Rightarrow>
         let steps = as_i32 (max 1 (get_or_else (as_i64 (field args ''steps'')) 10));
             b = snd (button_of args);
             s = pause E 20 (act E (MouseMove x0 y0) s)
         in (case press_error E (world s) of
               Some e \<Rightarrow> (Bad (''mouse_down failed: '' @ e), s)
             | None \<Rightarrow>
                 let s = pause E 20 (act E (MouseDown b) s);
                     s = fold (\<lambda>k s. pause E 20 (act E (MouseMove (drag_point x0 x1 k steps) (drag_point y0 y1 k steps)) s)) [1..steps] s
                 in say (''Dragged from ('' @ show_int x0 @ '', '' @ show_int y0 @ '') to ('' @ show_int x1 @ '', '' @ show_int y1
                         @ '') in '' @ show_int steps @ '' steps'') (act E (MouseUp b) s))
     | [None, _, _, _] \<Rightarrow> (Bad ''Missing start_x'', s)
     | [_, None, _, _] \<Rightarrow> (Bad ''Missing start_y'', s)
     | [_, _, None, _] \<Rightarrow> (Bad ''Missing end_x'', s)
     | _ \<Rightarrow> (Bad ''Missing end_y'', s))"

section \<open>The device and its peers\<close>

definition get_id :: "('w, 'z) mcp_env_scheme \<Rightarrow> config \<Rightarrow> string \<times> config" where
  "get_id E c =
    (if cfg_id c = [] then (case auto_id E of Some i \<Rightarrow> (i, c\<lparr>cfg_id := i\<rparr>) | None \<Rightarrow> ([], c)) else (cfg_id c, c))"

definition device_info :: "('w, 'z) mcp_env_scheme \<Rightarrow> 'w mcp \<Rightarrow> (string \<times> json) list \<times> 'w mcp" where
  "device_info E s =
    (let (i, c) = get_id E (mcp_cfg s); n = connect_status E (world s);
         status = (if n = 1 then ''online'' else if n = 0 then ''connecting'' else ''offline'')
     in ([(''device_id'', JStr i), (''version'', JStr (pkg_version E)), (''platform'', JStr ''freebsd''),
          (''hostname'', JStr (host_name E)), (''status'', JStr status), (''status_num'', JInt n)],
         s\<lparr>mcp_cfg := c\<rparr>))"

definition tool_get_device_info :: "('w, 'z) mcp_env_scheme \<Rightarrow> 'w mcp \<Rightarrow> answer \<times> 'w mcp" where
  "tool_get_device_info E s = (let (info, s) = device_info E s in report E info s)"

text \<open>The known peers, most recent first; reading them may rewrite or remove files of the store.\<close>

definition known_peers :: "('w, 'z) mcp_env_scheme \<Rightarrow> 'w mcp \<Rightarrow> (string \<times> nat \<times> peer_config) list \<times> 'w mcp" where
  "known_peers E s =
    (let (ps, st) = peers (peer_environment E) None (peer_names E (world s)) (mcp_peers s) in (ps, s\<lparr>mcp_peers := st\<rparr>))"

definition peer_value :: "('w, 'z) mcp_env_scheme \<Rightarrow> bool \<Rightarrow> string \<times> nat \<times> peer_config \<Rightarrow> json" where
  "peer_value E with_alias = (\<lambda>(i, t, c).
    JObj ([(''id'', JStr i), (''username'', JStr (info_username (pc_info c))), (''hostname'', JStr (info_hostname (pc_info c))),
           (''platform'', JStr (info_platform (pc_info c)))]
          @ (if with_alias then [(''alias'', JStr (get_or_else (pc_options c ''alias'') []))] else [])
          @ [(''last_seen_epoch'', JInt (int (epoch_secs E t)))]))"

definition tool_list_peers :: "('w, 'z) mcp_env_scheme \<Rightarrow> json \<Rightarrow> 'w mcp \<Rightarrow> answer \<times> 'w mcp" where
  "tool_list_peers E args s =
    (let f = get_or_else (as_str (field args ''filter'')) ''all'';
         (recent, s) = (if f = ''recent'' \<or> f = ''all''
           then (let (ps, s) = known_peers E s in ([(''recent'', JArr (map (peer_value E True) ps))], s)) else ([], s));
         favs = (if f = ''favorites'' \<or> f = ''all'' then [(''favorites'', JArr (map JStr (favourites E (world s))))] else []);
         lan = (if f = ''lan'' \<or> f = ''all''
           then [(''lan'', JArr (map (\<lambda>(i, u, h, p). JObj [(''id'', JStr i), (''username'', JStr u), (''hostname'', JStr h), (''platform'', JStr p)])
                   (lan_peers E (world s))))] else [])
     in report E (recent @ favs @ lan) s)"

section \<open>Sessions of the main window\<close>

definition CONNECTION_TYPES :: "string list" where
  "CONNECTION_TYPES = [''connect'', ''file-transfer'', ''port-forward'']"

text \<open>A session that is not running yet is a process of the program itself.\<close>

definition tool_connect_to_peer :: "('w, 'z) mcp_env_scheme \<Rightarrow> json \<Rightarrow> 'w mcp \<Rightarrow> answer \<times> 'w mcp" where
  "tool_connect_to_peer E args s =
    (case as_str (field args ''peer_id'') of
       None \<Rightarrow> (Bad ''Missing peer_id'', s)
     | Some peer \<Rightarrow>
         let kind = get_or_else (as_str (field args ''connection_type'')) ''connect''
         in if kind \<notin> set CONNECTION_TYPES
            then (Bad (''Invalid connection_type: '' @ kind @ ''. Use: connect, file-transfer, port-forward''), s)
            else
              let u = new_remote (window_env E (world s)) peer kind False None (as_str (field args ''password'')) (ui s);
                  started = drop (length (spawned (ui s))) (spawned u)
              in say (''Connection initiated to '' @ peer @ '' (type: '' @ kind @ '')'')
                   (fold (\<lambda>a. act E (SpawnSelf a)) started (s\<lparr>ui := u\<rparr>)))"

definition tool_disconnect_peer :: "json \<Rightarrow> 'w mcp \<Rightarrow> answer \<times> 'w mcp" where
  "tool_disconnect_peer args s =
    (case as_str (field args ''peer_id'') of
       None \<Rightarrow> (Bad ''Missing peer_id'', s)
     | Some peer \<Rightarrow> say (''Disconnected peer '' @ peer) (s\<lparr>ui := close_remote_connection peer (ui s)\<rparr>))"

definition command_child :: "('w, 'z) mcp_env_scheme \<Rightarrow> string \<Rightarrow> string \<Rightarrow> 'w mcp \<Rightarrow> bool \<times> 'w mcp" where
  "command_child E peer cmd s =
    (let (ok, u) = send_to_child (window_env E (world s)) peer cmd (ui s) in (ok, s\<lparr>ui := u\<rparr>))"

text \<open>The session is asked for its state, which it writes into a file; the file is looked at for a second.\<close>

definition query_child_state :: "('w, 'z) mcp_env_scheme \<Rightarrow> string \<Rightarrow> 'w mcp \<Rightarrow> (json option \<times> 'w mcp) option" where
  "query_child_state E peer s =
    (let s = s\<lparr>world := drop_state_file E peer (world s)\<rparr>;
         (_, s) = command_child E peer ''query_state'' s;
         body = (\<lambda>s. let (content, w) = read_state_file E peer (world s); s = s\<lparr>world := w\<rparr>
                     in case Option.bind content (parse E) of
                          Some v \<Rightarrow> Some (Some v, s\<lparr>world := drop_state_file E peer (world s)\<rparr>)
                        | None \<Rightarrow> Some (None, pause E 100 s))
     in poll (clock E) (clock E s) 1000 body s)"

definition video_width :: "json \<Rightarrow> int" where
  "video_width state = get_or_else (as_i64 (field (field state ''video'') ''width'')) 0"

primrec connection_values :: "('w, 'z) mcp_env_scheme \<Rightarrow> (string \<times> string \<times> bool) list \<Rightarrow> 'w mcp \<Rightarrow> (json list \<times> 'w mcp) option" where
  "connection_values E [] s = Some ([], s)"
| "connection_values E (c # cs) s =
    (let (i, kind, alive) = c in
     case (if alive then query_child_state E i s else Some (None, s)) of
       None \<Rightarrow> None
     | Some (st, s) \<Rightarrow>
         (case connection_values E cs s of
            None \<Rightarrow> None
          | Some (vs, s) \<Rightarrow>
              Some (JObj [(''peer_id'', JStr i), (''connection_type'', JStr kind), (''alive'', JBool alive),
                          (''connected'', JBool (case st of Some v \<Rightarrow> video_width v > 0 | None \<Rightarrow> False))] # vs, s)))"

definition tool_list_active_connections :: "('w, 'z) mcp_env_scheme \<Rightarrow> 'w mcp \<Rightarrow> (answer \<times> 'w mcp) option" where
  "tool_list_active_connections E s =
    map_option (\<lambda>(vs, s). (Good (text_content (pretty E (JArr vs))), s)) (connection_values E (list_active_connections (ui s)) s)"

definition tool_dismiss_dialog :: "('w, 'z) mcp_env_scheme \<Rightarrow> json \<Rightarrow> 'w mcp \<Rightarrow> answer \<times> 'w mcp" where
  "tool_dismiss_dialog E args s =
    (case as_str (field args ''peer_id'') of
       None \<Rightarrow> (Bad ''Missing peer_id'', s)
     | Some peer \<Rightarrow>
         if peer = ''all'' then
           let (n, u) = send_dismiss_to_all_children (window_env E (world s)) (ui s)
           in say (''Dismiss signal sent to '' @ show_nat n @ '' connections'') (s\<lparr>ui := u\<rparr>)
         else (case command_child E peer ''dismiss'' s of
                 (True, s) \<Rightarrow> say (''Dismiss signal sent for peer '' @ peer) s
               | (False, s) \<Rightarrow> (Bad (''No active connection found for peer '' @ peer), s)))"

definition tool_send_chat_message :: "('w, 'z) mcp_env_scheme \<Rightarrow> json \<Rightarrow> 'w mcp \<Rightarrow> answer \<times> 'w mcp" where
  "tool_send_chat_message E args s =
    (case (as_str (field args ''peer_id''), as_str (field args ''text'')) of
       (None, _) \<Rightarrow> (Bad ''Missing peer_id'', s)
     | (_, None) \<Rightarrow> (Bad ''Missing text'', s)
     | (Some peer, Some t) \<Rightarrow>
         (case command_child E peer (''chat:'' @ t) s of
            (True, s) \<Rightarrow> say (''Chat message sent to peer '' @ peer) s
          | (False, s) \<Rightarrow> (Bad (''No active connection found for peer '' @ peer), s)))"

section \<open>The toolbar of a session\<close>

definition VALID_BUTTONS :: "string list" where
  "VALID_BUTTONS = [''fullscreen'', ''chat'', ''action'', ''display'', ''keyboard'', ''recording'', ''securitycode'',
    ''transfer-file'', ''remote-print'', ''screenshot'', ''switch-sides'', ''privacy-mode'']"

definition VALID_ITEMS :: "(string \<times> string list) list" where
  "VALID_ITEMS =
    [(''action'', [''request-elevation'', ''os-password'', ''tunnel'', ''ctrl-alt-del'', ''restart_remote_device'', ''lock-screen'',
        ''block-input'', ''take-screenshot'', ''refresh'']),
     (''display'', [''original'', ''shrink'', ''stretch'', ''adaptive'', ''best'', ''balanced'', ''low'', ''custom'',
        ''show-remote-cursor'', ''disable-audio'', ''disable-clipboard'', ''lock-after-session-end'', ''privacy-mode'',
        ''show-quality-monitor'']),
     (''keyboard'', [''auto'', ''map'', ''translate''])]"

definition is_valid_button :: "string \<Rightarrow> bool" where
  "is_valid_button b =
    (if CHR '':'' \<in> set b then
       let menu = takeWhile (\<lambda>c. c \<noteq> CHR '':'') b; item = drop (length menu + 1) b
       in (case map_of VALID_ITEMS menu of Some items \<Rightarrow> item \<in> set items | None \<Rightarrow> False)
     else b \<in> set VALID_BUTTONS)"

definition tool_click_toolbar_button :: "('w, 'z) mcp_env_scheme \<Rightarrow> json \<Rightarrow> 'w mcp \<Rightarrow> answer \<times> 'w mcp" where
  "tool_click_toolbar_button E args s =
    (case (as_str (field args ''peer_id''), as_str (field args ''button_id'')) of
       (None, _) \<Rightarrow> (Bad ''Missing peer_id'', s)
     | (_, None) \<Rightarrow> (Bad ''Missing button_id'', s)
     | (Some peer, Some b) \<Rightarrow>
         if \<not> is_valid_button b then
           (Bad (''Invalid button_id '' @ quoted b @ ''. Use a button ID (e.g. '' @ quoted ''chat'' @ '') or '' @ quoted ''menu:item''
              @ '' for submenus (e.g. '' @ quoted ''display:shrink'' @ '', '' @ quoted ''action:ctrl-alt-del'' @ '', ''
              @ quoted ''keyboard:map'' @ '')''), s)
         else (case command_child E peer (''click_button:'' @ b) s of
                 (True, s) \<Rightarrow> say (''Clicked '' @ quoted b @ '' on peer '' @ peer) s
               | (False, s) \<Rightarrow> (Bad (''No active connection found for peer '' @ peer), s)))"

definition BUTTON_LABELS :: "(string \<times> string) list" where
  "BUTTON_LABELS =
    [(''fullscreen'', ''Full Screen''), (''screens'', ''Display Selector (security + remote ID + monitor buttons)''),
     (''chat'', ''Chat''), (''action'', ''Control Actions (lightning bolt)''), (''display'', ''Display Settings (monitor icon)''),
     (''keyboard'', ''Keyboard mode''), (''recording'', ''Recording (red dot toggle)''), (''securitycode'', ''Security Code (shield)''),
     (''transfer-file'', ''Transfer File''), (''remote-print'', ''Remote Print (printer icon)''),
     (''screenshot'', ''Screenshot (camera icon, copies to clipboard)''), (''switch-sides'', ''Switch Sides''),
     (''privacy-mode'', ''Privacy Mode (eye icon toggle)'')]"

definition get_button_label :: "string \<Rightarrow> string" where
  "get_button_label b = get_or_else (map_of BUTTON_LABELS b) b"

definition menu_item :: "string \<Rightarrow> string \<Rightarrow> json" where
  "menu_item i label = JObj [(''id'', JStr i), (''label'', JStr label)]"

definition display_item :: "string \<Rightarrow> string \<Rightarrow> string \<Rightarrow> json" where
  "display_item i label kind = JObj [(''id'', JStr i), (''label'', JStr label), (''type'', JStr kind)]"

definition MENU_TIP :: "string \<Rightarrow> json" where
  "MENU_TIP example = JStr (''Use click_toolbar_button with button_id '' @ quoted ''menu:item'' @ '' format, e.g. '' @ quoted example)"

definition submenu_info :: "string \<Rightarrow> (string \<times> json) list" where
  "submenu_info b =
    (if b = ''action'' then
       [(''submenu'', JArr
          [menu_item ''request-elevation'' ''Request Elevation (Windows remote only)'', menu_item ''os-password'' ''OS Password'',
           menu_item ''tunnel'' ''TCP Tunneling'', menu_item ''ctrl-alt-del'' ''Insert Ctrl+Alt+Del'',
           menu_item ''restart_remote_device'' ''Restart Remote Device'', menu_item ''lock-screen'' ''Lock Screen'',
           menu_item ''block-input'' ''Block user input (Windows remote only)'',
           menu_item ''take-screenshot'' ''Take screenshot (saves to file, shows dialog)'', menu_item ''refresh'' ''Refresh video'']),
        (''tip'', MENU_TIP ''action:ctrl-alt-del'')]
     else if b = ''display'' then
       [(''submenu'', JArr
          [display_item ''original'' ''Original'' ''view-style'', display_item ''shrink'' ''Shrink'' ''view-style'',
           display_item ''stretch'' ''Stretch'' ''view-style'', display_item ''best'' ''Good image quality'' ''image-quality'',
           display_item ''balanced'' ''Balanced'' ''image-quality'', display_item ''low'' ''Optimize reaction time'' ''image-quality'',
           display_item ''custom'' ''Custom quality'' ''image-quality'', display_item ''show-remote-cursor'' ''Show remote cursor'' ''toggle'',
           display_item ''disable-audio'' ''Mute'' ''toggle'', display_item ''disable-clipboard'' ''Disable clipboard'' ''toggle'',
           display_item ''lock-after-session-end'' ''Lock after session end'' ''toggle'']),
        (''tip'', MENU_TIP ''display:shrink'')]
     else if b = ''keyboard'' then
       [(''submenu'', JArr [menu_item ''auto'' ''Auto (default)'', menu_item ''map'' ''Same layout'', menu_item ''translate'' ''Different layout'']),
        (''tip'', MENU_TIP ''keyboard:auto'')]
     else [])"

definition toolbar_ids :: "string \<Rightarrow> string list" where
  "toolbar_ids conn_type =
    (let ft = (conn_type = ''file-transfer''); cam = (conn_type = ''view-camera'')
     in (if \<not> ft then [''fullscreen''] else [])
        @ (if \<not> cam \<and> \<not> ft then [''chat'', ''action''] else [])
        @ (if \<not> ft then [''display''] else [])
        @ (if \<not> cam \<and> \<not> ft then [''keyboard'', ''transfer-file'', ''remote-print'', ''screenshot''] else []))"

definition get_toolbar_buttons :: "string \<Rightarrow> json" where
  "get_toolbar_buttons conn_type =
    JObj [(''buttons'', JArr (map (\<lambda>b. JObj ([(''id'', JStr b), (''label'', JStr (get_button_label b))] @ submenu_info b)) (toolbar_ids conn_type))),
          (''how_to_click'', JStr (''Use click_toolbar_button with button_id for top-level buttons, or '' @ quoted ''menu:item''
             @ '' for submenus (e.g. '' @ quoted ''display:shrink'' @ '', '' @ quoted ''action:ctrl-alt-del'' @ '', '' @ quoted ''keyboard:map'' @ '').'')),
          (''keyboard_shortcut_print'', JStr ''Ctrl+P opens Remote Print dialog'')]"

section \<open>Windows and the state of the interface\<close>

text \<open>\<open>str::lines\<close>, and \<open>splitn\<close> at single characters of white space.\<close>

fun lines_of :: "string \<Rightarrow> string \<Rightarrow> string list" where
  "lines_of acc [] = (if acc = [] then [] else [acc])"
| "lines_of acc (c # cs) =
    (if c = CHR 0x0A then (if ends_with acc [CHR 0x0D] then butlast acc else acc) # lines_of [] cs else lines_of (acc @ [c]) cs)"

fun split_white :: "string \<Rightarrow> string \<Rightarrow> (string \<times> string) option" where
  "split_white acc [] = None"
| "split_white acc (c # cs) =
    (case find (starts_with (c # cs)) WHITE of
       Some w \<Rightarrow> Some (acc, drop (length w) (c # cs))
     | None \<Rightarrow> split_white (acc @ [c]) cs)"

fun splitn_white :: "nat \<Rightarrow> string \<Rightarrow> string list" where
  "splitn_white 0 s = []"
| "splitn_white (Suc 0) s = [s]"
| "splitn_white (Suc (Suc n)) s = (case split_white [] s of None \<Rightarrow> [s] | Some (a, r) \<Rightarrow> a # splitn_white (Suc n) r)"

definition window_value :: "string list \<Rightarrow> json" where
  "window_value parts =
    (let n = (\<lambda>k. JInt (get_or_else (parse_int 32 (trim_str (parts ! k))) 0))
     in JObj [(''title'', JStr (trim_str (parts ! 7))), (''x'', n 2), (''y'', n 3), (''width'', n 4), (''height'', n 5)])"

definition get_window_list_platform :: "('w, 'z) mcp_env_scheme \<Rightarrow> 'w mcp \<Rightarrow> ((string + json) \<times> 'w mcp) option" where
  "get_window_list_platform E s =
    (let s = act E (Spawn ''wmctrl'' [''-lG'']) s
     in map_option (\<lambda>(r, w).
          (case r of
             Inl e \<Rightarrow> Inl (''wmctrl error (install the wmctrl package): '' @ e)
           | Inr (_, out, _) \<Rightarrow>
               Inr (JArr (map window_value (filter (\<lambda>ps. length ps \<ge> 8) (map (splitn_white 8) (lines_of [] (from_utf8_lossy out)))))),
           s\<lparr>world := w\<rparr>)) (command_output E ''wmctrl'' [''-lG''] (world s)))"

definition tool_get_window_list :: "('w, 'z) mcp_env_scheme \<Rightarrow> 'w mcp \<Rightarrow> (answer \<times> 'w mcp) option" where
  "tool_get_window_list E s =
    map_option (\<lambda>(r, s). (case r of Inl e \<Rightarrow> Bad e | Inr v \<Rightarrow> Good (text_content (pretty E v)), s)) (get_window_list_platform E s)"

primrec child_states ::
  "('w, 'z) mcp_env_scheme \<Rightarrow> string option \<Rightarrow> (string \<times> string \<times> bool) list \<Rightarrow> (string \<rightharpoonup> json) \<times> 'w mcp \<Rightarrow> ((string \<rightharpoonup> json) \<times> 'w mcp) option" where
  "child_states E only [] ms = Some ms"
| "child_states E only (c # cs) ms =
    (let (i, _, alive) = c; (m, s) = ms in
     if \<not> alive \<or> (only \<noteq> None \<and> only \<noteq> Some i) then child_states E only cs ms
     else (case query_child_state E i s of
             None \<Rightarrow> None
           | Some (st, s) \<Rightarrow> child_states E only cs (case st of Some v \<Rightarrow> m(i \<mapsto> v) | None \<Rightarrow> m, s)))"

definition window_titled :: "json list \<Rightarrow> string \<Rightarrow> json" where
  "window_titled ws t = get_or_else (find (\<lambda>w. as_str (field w ''title'') = Some t) ws) JNull"

definition conn_state :: "json list \<Rightarrow> (string \<rightharpoonup> json) \<Rightarrow> string \<times> string \<times> bool \<Rightarrow> json" where
  "conn_state ws m = (\<lambda>(i, kind, alive).
    JObj ([(''peer_id'', JStr i), (''connection_type'', JStr kind), (''alive'', JBool alive),
           (''connected'', JBool (case m i of Some v \<Rightarrow> video_width v > 0 | None \<Rightarrow> False)),
           (''window'', window_titled ws i), (''toolbar'', get_toolbar_buttons kind)]
          @ (case m i of Some v \<Rightarrow> [(''state'', v)] | None \<Rightarrow> [])))"

definition tool_get_ui_state :: "('w, 'z) mcp_env_scheme \<Rightarrow> json \<Rightarrow> 'w mcp \<Rightarrow> (answer \<times> 'w mcp) option" where
  "tool_get_ui_state E args s =
    (let only = as_str (field args ''peer_id''); cs = list_active_connections (ui s)
     in case get_window_list_platform E s of
          None \<Rightarrow> None
        | Some (Inl e, s) \<Rightarrow> Some (Bad e, s)
        | Some (Inr v, s) \<Rightarrow>
            let ws = get_or_else (as_array v) [] in
            map_option (\<lambda>(m, s). report E
                [(''main_window'', window_titled ws ''HopToDesk''),
                 (''connections'', JArr (map (conn_state ws m) (filter (\<lambda>(i, _). only = None \<or> only = Some i) cs)))] s)
              (child_states E only cs (Map.empty, s)))"

section \<open>Waiting for an event of a session\<close>

definition EVENTS :: "string list" where
  "EVENTS = [''connection_ready'', ''connection_closed'', ''dialog_appeared'', ''dialog_dismissed'', ''quality_stable'']"

definition event_answer :: "('w, 'z) mcp_env_scheme \<Rightarrow> nat \<Rightarrow> string \<Rightarrow> string \<Rightarrow> (string \<times> json) list \<Rightarrow> 'w mcp \<Rightarrow> answer" where
  "event_answer E t0 event peer extra s =
    Good (text_content (compact E (JObj ([(''event'', JStr event), (''peer_id'', JStr peer), (''status'', JStr ''fired''),
      (''elapsed_ms'', JInt (int (clock E s - t0)))] @ extra))))"

text \<open>What an event adds to the answer once the state of the session shows it.\<close>

definition event_in_state :: "string \<Rightarrow> json \<Rightarrow> (string \<times> json) list option" where
  "event_in_state event st =
    (let open_dialog = (as_bool (field (field st ''ui'') ''dialog_open'') = Some True);
         quality = field (field st ''connection'') ''quality'';
         fps = get_or_else (as_i64 (field quality ''fps'')) 0; delay = get_or_else (as_i64 (field quality ''delay_ms'')) 9999
     in if event = ''connection_ready'' then (if video_width st > 0 then Some [(''state'', st)] else None)
        else if event = ''dialog_appeared'' then
          (if open_dialog then Some [(''dialog_type'', field (field st ''ui'') ''dialog_type''), (''state'', st)] else None)
        else if event = ''dialog_dismissed'' then (if \<not> open_dialog then Some [(''state'', st)] else None)
        else if event = ''quality_stable'' then
          (if fps > 0 \<and> delay < 500 then Some [(''fps'', JInt fps), (''delay_ms'', JInt delay), (''state'', st)] else None)
        else None)"

definition look_for_event ::
  "('w, 'z) mcp_env_scheme \<Rightarrow> nat \<Rightarrow> string \<Rightarrow> string \<Rightarrow> 'w mcp \<Rightarrow> (answer option \<times> 'w mcp) option" where
  "look_for_event E t0 event peer s =
    (let conn = find (\<lambda>(i, _). i = peer) (list_active_connections (ui s));
         usable = (case conn of Some (_, _, alive) \<Rightarrow> event \<noteq> ''connection_ready'' \<or> alive | None \<Rightarrow> False)
     in if event \<notin> set EVENTS then Some (Some (Bad (''Unknown event: '' @ event)), s)
        else if event = ''connection_closed'' then
          (if (case conn of None \<Rightarrow> True | Some (_, _, alive) \<Rightarrow> \<not> alive)
           then Some (Some (event_answer E t0 event peer [] s), s) else Some (None, pause E 500 s))
        else if \<not> usable then Some (None, pause E 500 s)
        else (case query_child_state E peer s of
                None \<Rightarrow> None
              | Some (st, s) \<Rightarrow>
                  (case Option.bind st (event_in_state event) of
                     Some extra \<Rightarrow> Some (Some (event_answer E t0 event peer extra s), s)
                   | None \<Rightarrow> Some (None, pause E 500 s))))"

definition tool_wait_for_event :: "('w, 'z) mcp_env_scheme \<Rightarrow> json \<Rightarrow> 'w mcp \<Rightarrow> (answer \<times> 'w mcp) option" where
  "tool_wait_for_event E args s =
    (case (as_str (field args ''event''), as_str (field args ''peer_id'')) of
       (None, _) \<Rightarrow> Some (Bad ''Missing event'', s)
     | (_, None) \<Rightarrow> Some (Bad ''Missing peer_id'', s)
     | (Some event, Some peer) \<Rightarrow>
         let limit = min (get_or_else (as_u64 (field args ''timeout_ms'')) 30000) 60000; t0 = clock E s
         in map_option (\<lambda>(r, s). (case r of Some a \<Rightarrow> a | None \<Rightarrow>
                Good (text_content (compact E (JObj [(''event'', JStr event), (''peer_id'', JStr peer), (''status'', JStr ''timeout''),
                  (''elapsed_ms'', JInt (int (clock E s - t0))),
                  (''message'', JStr (''Timed out waiting for '' @ quoted event @ '' after '' @ show_nat limit @ ''ms''))]))), s))
              (poll (clock E) t0 limit (look_for_event E t0 event peer) s))"

section \<open>Commands\<close>

text \<open>
  The exit code of a process that was killed by a signal is reported as \<open>-1\<close>. The time limit that is passed to
  \<open>run_command\<close> is not used: the server waits as long as the command runs, and \<^const>\<open>None\<close> stands for a command
  that never ends.
\<close>

definition run_command :: "('w, 'z) mcp_env_scheme \<Rightarrow> string \<Rightarrow> string list \<Rightarrow> 'w mcp \<Rightarrow> ((string + string) \<times> 'w mcp) option" where
  "run_command E cmd args s =
    (let s = act E (Spawn cmd args) s
     in map_option (\<lambda>(r, w).
          (case r of
             Inl e \<Rightarrow> Inl (''Failed to execute '' @ cmd @ '': '' @ e)
           | Inr (code, out, err) \<Rightarrow>
               let stdout = from_utf8_lossy out; stderr = from_utf8_lossy err; shown = show_int (get_or_else code (- 1))
               in if code = Some 0 then Inr (if stdout = [] then stderr else stdout)
                  else if stderr \<noteq> [] then Inl (''Exit code '' @ shown @ '': '' @ trim_str stderr)
                  else Inl (''Exit code '' @ shown),
           s\<lparr>world := w\<rparr>)) (command_output E cmd args (world s)))"

definition append_output :: "(string + string) \<Rightarrow> (string \<Rightarrow> string) \<Rightarrow> string \<Rightarrow> string" where
  "append_output r f info = (case r of Inr out \<Rightarrow> info @ f out | Inl _ \<Rightarrow> info)"

definition exec_get_system_info :: "('w, 'z) mcp_env_scheme \<Rightarrow> 'w mcp \<Rightarrow> ((string + string) \<times> 'w mcp) option" where
  "exec_get_system_info E s =
    Option.bind (run_command E ''uname'' [''-a''] s) (\<lambda>(a, s).
    Option.bind (run_command E ''sysctl'' [''-n'', ''hw.physmem''] s) (\<lambda>(b, s).
    Option.bind (run_command E ''uptime'' [] s) (\<lambda>(c, s).
      Some (Inr (append_output c id (append_output b (\<lambda>out. ''Memory: '' @ trim_str out @ '' bytes'' @ [CHR 0x0A])
        (append_output a id []))), s))))"

text \<open>\<open>limit + 1\<close> wraps in a release build.\<close>

definition exec_list_processes :: "('w, 'z) mcp_env_scheme \<Rightarrow> json \<Rightarrow> 'w mcp \<Rightarrow> ((string + string) \<times> 'w mcp) option" where
  "exec_list_processes E args s =
    (let limit = get_or_else (as_u64 (field args ''limit'')) 20;
         flag = (if get_or_else (as_str (field args ''sort_by'')) ''cpu'' = ''memory'' then ''-m'' else ''-r'')
     in run_command E ''sh'' [''-c'', ''ps aux '' @ flag @ '' | head -n '' @ show_nat ((limit + 1) mod 2 ^ 64)] s)"

text \<open>
  The newest file with the extension \<open>log\<close> below the log directory. Directories wait on a stack; a directory
  that cannot be read is passed over. Links that lead upwards make the walk go on for ever.
\<close>

definition newer :: "string \<times> bool \<times> bool \<times> nat option \<Rightarrow> (nat \<times> string) option \<Rightarrow> (nat \<times> string) option" where
  "newer e newest =
    (case e of
       (path, False, True, Some t) \<Rightarrow>
         (if (case newest of None \<Rightarrow> True | Some (t', _) \<Rightarrow> t > t') then Some (t, path) else newest)
     | _ \<Rightarrow> newest)"

partial_function (option) newest_log ::
  "(string \<Rightarrow> log_entry list option) \<Rightarrow> string list \<Rightarrow> (nat \<times> string) option \<Rightarrow> (nat \<times> string) option option" where
  "newest_log ls dirs newest =
    (case dirs of
       [] \<Rightarrow> Some newest
     | d # ds \<Rightarrow>
         (case ls d of
            None \<Rightarrow> newest_log ls ds newest
          | Some entries \<Rightarrow>
              newest_log ls (rev (map fst (filter (\<lambda>(_, is_dir, _). is_dir) entries)) @ ds) (fold newer entries newest)))"

declare newest_log.simps [simp del]

fun joined :: "string \<Rightarrow> string list \<Rightarrow> string" where
  "joined sep [] = []"
| "joined sep [t] = t"
| "joined sep (t # ts) = t @ sep @ joined sep ts"

definition exec_get_service_logs :: "('w, 'z) mcp_env_scheme \<Rightarrow> json \<Rightarrow> 'w mcp \<Rightarrow> ((string + string) \<times> 'w mcp) option" where
  "exec_get_service_logs E args s =
    (let n = min (get_or_else (as_u64 (field args ''lines'')) 50) 200 in
     map_option (\<lambda>newest.
       (case newest of
          None \<Rightarrow> Inr ''No log file found''
        | Some (_, path) \<Rightarrow>
            (case file_bytes E path (world s) of
               Inl e \<Rightarrow> Inl (''Failed to read '' @ path @ '': '' @ e)
             | Inr bs \<Rightarrow>
                 (case from_utf8 bs of
                    None \<Rightarrow> Inl (''Failed to read '' @ path @ '': stream did not contain valid UTF-8'')
                  | Some content \<Rightarrow>
                      let all = lines_of [] content
                      in Inr (path @ [CHR 0x0A, CHR 0x0A] @ joined [CHR 0x0A] (drop (length all - n) all)))), s))
       (newest_log (\<lambda>d. list_logs E d (world s)) [log_dir E] None))"

definition SHELL_CHARS :: string where
  "SHELL_CHARS = '';|&`$(){}[]'' @ [CHR 0x5C] @ ''!#~<>'' @ [CHR 0x22, CHR 0x27]"

definition no_shell_char :: "string \<Rightarrow> bool" where
  "no_shell_char t = list_all (\<lambda>c. c \<notin> set SHELL_CHARS) t"

definition exec_ping_test :: "('w, 'z) mcp_env_scheme \<Rightarrow> json \<Rightarrow> 'w mcp \<Rightarrow> ((string + string) \<times> 'w mcp) option" where
  "exec_ping_test E args s =
    (let host = trim_str (get_or_else (as_str (field args ''host'')) [])
     in if host = [] then Some (Inl ''host parameter is required'', s)
        else if \<not> no_shell_char host then Some (Inl ''Invalid host'', s)
        else run_command E ''ping'' [''-c'', show_nat (min (get_or_else (as_u64 (field args ''count'')) 4) 10), host] s)"

definition exec_restart_hoptodesk :: "('w, 'z) mcp_env_scheme \<Rightarrow> 'w mcp \<Rightarrow> ((string + string) \<times> 'w mcp) option" where
  "exec_restart_hoptodesk E =
    run_command E ''sh'' [''-c'', ''service '' @ lower E (app_name E) @ '' restart 2>/dev/null || echo '' @ quoted ''Service restart requested'']"

definition exec_kill_process :: "('w, 'z) mcp_env_scheme \<Rightarrow> json \<Rightarrow> 'w mcp \<Rightarrow> ((string + string) \<times> 'w mcp) option" where
  "exec_kill_process E args s =
    (let name = get_or_else (as_str (field args ''process_name'')) []; pid = as_u64 (field args ''pid'')
     in if name = [] \<and> pid = None then Some (Inl ''process_name or pid is required'', s)
        else if name \<noteq> [] \<and> \<not> no_shell_char name then Some (Inl ''Invalid process name'', s)
        else (case pid of
                Some p \<Rightarrow> run_command E ''kill'' [''-9'', show_nat p] s
              | None \<Rightarrow> run_command E ''sh'' [''-c'', ''pkill -f '' @ quoted name] s))"

text \<open>The operations whose command is fixed.\<close>

definition FIXED_COMMANDS :: "(string \<times> string \<times> string list) list" where
  "FIXED_COMMANDS =
    [(''disk_usage'', ''df'', [''-h'']),
     (''network_info'', ''ifconfig'', []),
     (''installed_software'', ''sh'', [''-c'', ''pkg info 2>/dev/null | head -100 || echo '' @ quoted ''Package manager not found'']),
     (''flush_dns'', ''sh'', [''-c'', ''service local_unbound restart 2>/dev/null && echo '' @ quoted ''DNS cache flushed''
        @ '' || echo '' @ quoted ''DNS flush not supported'']),
     (''reboot_device'', ''sh'', [''-c'', ''sudo shutdown -r +1 '' @ quoted ''Reboot requested from HopToDesk Dashboard''
        @ '' 2>/dev/null || echo '' @ quoted ''Reboot scheduled'']),
     (''clear_temp_files'', ''sh'', [''-c'', ''rm -rf /tmp/hoptodesk-* 2>/dev/null; du -sh /tmp/ 2>/dev/null || echo ''
        @ quoted ''Temp files cleared'']),
     (''run_update_check'', ''sh'', [''-c'', ''pkg upgrade -n 2>/dev/null | head -20 || echo '' @ quoted ''Package manager not found''])]"

definition run_operation :: "('w, 'z) mcp_env_scheme \<Rightarrow> string \<Rightarrow> json \<Rightarrow> 'w mcp \<Rightarrow> ((string + string) \<times> 'w mcp) option" where
  "run_operation E operation args s =
    (case map_of FIXED_COMMANDS operation of
       Some (cmd, cargs) \<Rightarrow> run_command E cmd cargs s
     | None \<Rightarrow>
         if operation = ''get_system_info'' then exec_get_system_info E s
         else if operation = ''list_processes'' then exec_list_processes E args s
         else if operation = ''get_service_logs'' then exec_get_service_logs E args s
         else if operation = ''ping_test'' then exec_ping_test E args s
         else if operation = ''restart_hoptodesk'' then exec_restart_hoptodesk E s
         else if operation = ''kill_process'' then exec_kill_process E args s
         else Some (Inl (''Unknown operation: '' @ operation), s))"

definition enrolled :: "'w mcp \<Rightarrow> bool" where
  "enrolled s \<longleftrightarrow> get_option (mcp_cfg s) ''dashboard_user_id'' \<noteq> []"

text \<open>An operation that fails is reported as an answer with the exit code 1, not as an error of the tool.\<close>

definition tool_exec_operation :: "('w, 'z) mcp_env_scheme \<Rightarrow> json \<Rightarrow> 'w mcp \<Rightarrow> (answer \<times> 'w mcp) option" where
  "tool_exec_operation E args s =
    (let operation = get_or_else (as_str (field args ''operation'')) []
     in if operation = [] then Some (Bad ''operation is required'', s)
        else if \<not> enrolled s then Some (Bad ''Remote execution requires dashboard enrollment'', s)
        else map_option (\<lambda>(r, s).
            report E [(''operation'', JStr operation), (''exit_code'', JInt (case r of Inr _ \<Rightarrow> 0 | Inl _ \<Rightarrow> 1)),
                      (''output'', JStr (case r of Inr out \<Rightarrow> out | Inl e \<Rightarrow> e))] s)
          (run_operation E operation args s))"

text \<open>
  At most 64 KiB of each output is reported. Slicing a string inside of a character panics, which is
  \<^const>\<open>None\<close>.
\<close>

definition MAX_OUTPUT :: nat where "MAX_OUTPUT = 65536"

definition cut_output :: "string \<Rightarrow> string option" where
  "cut_output t =
    (if length t > MAX_OUTPUT then (if is_cont (as_bytes t ! MAX_OUTPUT) then None else Some (take MAX_OUTPUT t)) else Some t)"

definition command_report :: "('w, 'z) mcp_env_scheme \<Rightarrow> string \<Rightarrow> int \<Rightarrow> string \<Rightarrow> string \<Rightarrow> bool \<Rightarrow> 'w mcp \<Rightarrow> answer \<times> 'w mcp" where
  "command_report E command code out err truncated =
    report E [(''command'', JStr command), (''exit_code'', JInt code), (''stdout'', JStr out), (''stderr'', JStr err),
              (''truncated'', JBool truncated)]"

definition tool_run_command :: "('w, 'z) mcp_env_scheme \<Rightarrow> json \<Rightarrow> 'w mcp \<Rightarrow> answer \<times> 'w mcp" where
  "tool_run_command E args s =
    (let command = get_or_else (as_str (field args ''command'')) []
     in if command = [] then (Bad ''command is required'', s)
        else if \<not> enrolled s then (Bad ''run_command requires dashboard enrollment'', s)
        else
          let secs = min (get_or_else (as_u64 (field args ''timeout'')) 30) 120;
              s = act E (Spawn ''sh'' [''-c'', command]) s;
              (r, w) = timed_output E secs ''sh'' [''-c'', command] (world s); s = s\<lparr>world := w\<rparr>;
              failed = (\<lambda>e. command_report E command (- 1) [] e False s)
          in (case r of
                NotSpawned e \<Rightarrow> failed (''Failed to spawn command: '' @ e)
              | TimedOut \<Rightarrow> failed (''Command timed out after '' @ show_nat secs @ ''s'')
              | WaitFailed e \<Rightarrow> failed (''Command failed: '' @ e)
              | Disconnected \<Rightarrow> failed ''Command thread disconnected''
              | Finished code out err \<Rightarrow>
                  let o1 = from_utf8_lossy out; e1 = from_utf8_lossy err
                  in (case (cut_output o1, cut_output e1) of
                        (Some o2, Some e2) \<Rightarrow>
                          command_report E command (get_or_else code (- 1)) o2 e2 (length o1 > MAX_OUTPUT \<or> length e1 > MAX_OUTPUT) s
                      | _ \<Rightarrow> (Panicked, s))))"

section \<open>Clipboard, permissions and files\<close>

definition tool_get_clipboard :: "('w, 'z) mcp_env_scheme \<Rightarrow> 'w mcp \<Rightarrow> answer \<times> 'w mcp" where
  "tool_get_clipboard E s =
    (case clipboard_error E (world s) of
       Some e \<Rightarrow> (Bad (''Failed to access clipboard: '' @ e), s)
     | None \<Rightarrow> say (get_or_else (clipboard_text E (world s)) []) s)"

definition tool_set_clipboard :: "('w, 'z) mcp_env_scheme \<Rightarrow> json \<Rightarrow> 'w mcp \<Rightarrow> answer \<times> 'w mcp" where
  "tool_set_clipboard E args s =
    (case as_str (field args ''text'') of
       None \<Rightarrow> (Bad ''Missing text'', s)
     | Some t \<Rightarrow>
         (case clipboard_error E (world s) of
            Some e \<Rightarrow> (Bad (''Failed to access clipboard: '' @ e), s)
          | None \<Rightarrow>
              (case clipboard_set_error E t (world s) of
                 Some e \<Rightarrow> (Bad (''Failed to set clipboard: '' @ e), s)
               | None \<Rightarrow> say (''Clipboard set ('' @ show_nat (length t) @ '' chars)'') (act E (SetClipboard t) s))))"

definition SWITCHABLE :: "string list" where
  "SWITCHABLE = [''keyboard'', ''clipboard'', ''audio'', ''file'', ''restart'', ''recording'']"

text \<open>The connection manager passes the switch on to the connection, when there is one of that number.\<close>

definition tool_switch_permission :: "('w, 'z) mcp_env_scheme \<Rightarrow> json \<Rightarrow> 'w mcp \<Rightarrow> answer \<times> 'w mcp" where
  "tool_switch_permission E args s =
    (case (i32_at args ''conn_id'', as_str (field args ''permission''), as_bool (field args ''enabled'')) of
       (None, _, _) \<Rightarrow> (Bad ''Missing conn_id'', s)
     | (_, None, _) \<Rightarrow> (Bad ''Missing permission'', s)
     | (_, _, None) \<Rightarrow> (Bad ''Missing enabled'', s)
     | (Some i, Some p, Some b) \<Rightarrow>
         if p \<notin> set SWITCHABLE then
           (Bad (''Invalid permission '' @ quoted p @ ''. Valid: ['' @ joined '', '' (map (\<lambda>v. [CHR 0x22] @ v @ [CHR 0x22]) SWITCHABLE) @ '']''), s)
         else say (''Permission '' @ quoted p @ (if b then '' enabled'' else '' disabled'') @ '' for connection '' @ show_int i)
                (act E (SwitchPermission i p b) s))"

definition entry_value :: "dir_entry \<Rightarrow> json" where
  "entry_value = (\<lambda>(name, meta).
    let (is_dir, size, modified) = get_or_else meta (False, 0, None)
    in JObj [(''name'', JStr (from_utf8_lossy name)), (''type'', JStr (if is_dir then ''directory'' else ''file'')),
             (''size'', JInt (int size)), (''modified_epoch'', JInt (int (get_or_else modified 0)))])"

text \<open>Directories first, then by the name in lower case, whose bytes are compared; the order of equal names is kept.\<close>

definition entry_key :: "('w, 'z) mcp_env_scheme \<Rightarrow> json \<Rightarrow> bool \<times> nat list" where
  "entry_key E v =
    (as_str (field v ''type'') \<noteq> Some ''directory'', map of_char (lower E (get_or_else (as_str (field v ''name'')) [])))"

definition shown_entries :: "('w, 'z) mcp_env_scheme \<Rightarrow> bool \<Rightarrow> dir_entry list \<Rightarrow> json list" where
  "shown_entries E hidden es =
    sort_key (entry_key E) (map entry_value (filter (\<lambda>(name, _). hidden \<or> \<not> starts_with (from_utf8_lossy name) ''.'') es))"

definition tool_list_local_files :: "('w, 'z) mcp_env_scheme \<Rightarrow> json \<Rightarrow> 'w mcp \<Rightarrow> answer \<times> 'w mcp" where
  "tool_list_local_files E args s =
    (let path = get_or_else (as_str (field args ''path'')) []; hidden = get_or_else (as_bool (field args ''include_hidden'')) False;
         dir = (if path = [] then get_or_else (home_dir E) ''/'' else path)
     in case path_node E dir (world s) of
          Missing \<Rightarrow> (Bad (''Path does not exist: '' @ dir), s)
        | Directory \<Rightarrow>
            (case list_dir E dir (world s) of
               Inl e \<Rightarrow> (Bad (''Failed to read directory: '' @ e), s)
             | Inr es \<Rightarrow>
                 let vs = shown_entries E hidden es
                 in report E [(''path'', JStr dir), (''count'', JInt (int (length vs))), (''entries'', JArr vs)] s)
        | _ \<Rightarrow> (Bad (''Not a directory: '' @ dir), s))"

definition tool_read_local_file :: "('w, 'z) mcp_env_scheme \<Rightarrow> json \<Rightarrow> 'w mcp \<Rightarrow> answer \<times> 'w mcp" where
  "tool_read_local_file E args s =
    (case as_str (field args ''path'') of
       None \<Rightarrow> (Bad ''Missing path'', s)
     | Some path \<Rightarrow>
         (case path_node E path (world s) of
            Missing \<Rightarrow> (Bad (''File does not exist: '' @ path), s)
          | RegularFile \<Rightarrow>
              (case file_size E path (world s) of
                 Inl e \<Rightarrow> (Bad (''Failed to read metadata: '' @ e), s)
               | Inr n \<Rightarrow>
                   if n > 1048576 then (Bad (''File too large ('' @ show_nat n @ '' bytes, max 1MB)''), s)
                   else (case file_bytes E path (world s) of
                           Inl e \<Rightarrow> (Bad (''Failed to read file: '' @ e), s)
                         | Inr bs \<Rightarrow> say (case from_utf8 bs of Some t \<Rightarrow> t | None \<Rightarrow> ''base64:'' @ base64 E bs) s))
          | _ \<Rightarrow> (Bad (''Not a file: '' @ path), s)))"

section \<open>The screen\<close>

definition tool_screenshot :: "('w, 'z) mcp_env_scheme \<Rightarrow> json \<Rightarrow> 'w mcp \<Rightarrow> answer \<times> 'w mcp" where
  "tool_screenshot E args s =
    (let idx = get_or_else (as_u64 (field args ''display'')) 0; (ds, w) = all_displays E (world s); s = s\<lparr>world := w\<rparr>
     in case ds of
          Inl e \<Rightarrow> (Bad (''Failed to get displays: '' @ e), s)
        | Inr ds \<Rightarrow>
            if idx \<ge> length ds then (Bad (''Display '' @ show_nat idx @ '' not found (have '' @ show_nat (length ds) @ '')''), s)
            else
              let (dw, dh) = ds ! idx; (err, w) = new_capturer E idx (world s); s = s\<lparr>world := w\<rparr>
              in (case err of
                    Some e \<Rightarrow> (Bad (''Failed to create capturer: '' @ e), s)
                  | None \<Rightarrow>
                      let (f, w) = grab E idx 30 (world s); s = s\<lparr>world := w\<rparr>
                      in (case f of
                            Some (Inl e) \<Rightarrow> (Bad e, s)
                          | Some (Inr (PixelFrame stride bgra)) \<Rightarrow>
                              (case png_base64 E dw dh (to_rgba dw dh stride bgra) of
                                 Inl e \<Rightarrow> (Bad (''PNG encode error: '' @ e), s)
                               | Inr b \<Rightarrow> (Good (JArr [JObj [(''type'', JStr ''image''), (''data'', JStr b), (''mimeType'', JStr ''image/png'')]]), s))
                          | Some (Inr _) \<Rightarrow> (Bad ''GPU texture frames not supported in MCP mode'', s)
                          | None \<Rightarrow> (Bad ''Failed to capture frame after retries. The desktop may be locked or inaccessible.'', s))))"

definition tool_get_screen_size :: "('w, 'z) mcp_env_scheme \<Rightarrow> 'w mcp \<Rightarrow> answer \<times> 'w mcp" where
  "tool_get_screen_size E s =
    (let (ds, w) = all_displays E (world s); s = s\<lparr>world := w\<rparr>
     in case ds of
          Inl e \<Rightarrow> (Bad (''Failed to get displays: '' @ e), s)
        | Inr [] \<Rightarrow> (Bad ''No display found'', s)
        | Inr ((dw, dh) # _) \<Rightarrow> report E [(''width'', JInt (int dw)), (''height'', JInt (int dh))] s)"

text \<open>One look at the screen while waiting for a change; a capture that fails is passed over.\<close>

definition look_for_change ::
  "('w, 'z) mcp_env_scheme \<Rightarrow> region option \<Rightarrow> bytes \<Rightarrow> rat \<Rightarrow> (rat \<Rightarrow> bytes \<Rightarrow> 'w mcp \<Rightarrow> answer) \<Rightarrow> 'w mcp \<Rightarrow> (answer option \<times> 'w mcp) option" where
  "look_for_change E region baseline threshold found s =
    (case capture E region (pause E 200 s) of
       (Inl _, s) \<Rightarrow> Some (None, s)
     | (Inr (current, _, _), s) \<Rightarrow>
         (case pixel_diff_percentage baseline current 10 of
            None \<Rightarrow> Some (Some Panicked, s)
          | Some p \<Rightarrow> if p \<ge> threshold then Some (Some (found p current s), s) else Some (None, s)))"

definition elapsed_value :: "('w, 'z) mcp_env_scheme \<Rightarrow> nat \<Rightarrow> 'w mcp \<Rightarrow> string \<times> json" where
  "elapsed_value E t0 s = (''elapsed_ms'', JInt (int (clock E s - t0)))"

definition wait_for_change ::
  "('w, 'z) mcp_env_scheme \<Rightarrow> json \<Rightarrow> nat \<Rightarrow> (capture \<Rightarrow> nat \<Rightarrow> rat \<Rightarrow> bytes \<Rightarrow> 'w mcp \<Rightarrow> answer) \<Rightarrow> (nat \<Rightarrow> 'w mcp \<Rightarrow> answer) \<Rightarrow>
   'w mcp \<Rightarrow> (answer \<times> 'w mcp) option" where
  "wait_for_change E args limit found nothing s =
    (let region = parse_crop_region args; threshold = get_or_else (as_f64 (field args ''threshold'')) 1
     in case capture E region s of
          (Inl e, s) \<Rightarrow> Some (Bad e, s)
        | (Inr c, s) \<Rightarrow>
            let t0 = clock E s
            in map_option (\<lambda>(r, s). (case r of Some a \<Rightarrow> a | None \<Rightarrow> nothing t0 s, s))
                 (poll (clock E) t0 limit (look_for_change E region (fst c) threshold (found c t0)) s))"

definition tool_wait_for_screen_change :: "('w, 'z) mcp_env_scheme \<Rightarrow> json \<Rightarrow> 'w mcp \<Rightarrow> (answer \<times> 'w mcp) option" where
  "tool_wait_for_screen_change E args =
    wait_for_change E args (min (get_or_else (as_u64 (field args ''timeout_ms'')) 10000) 60000)
      (\<lambda>_ t0 p _ s. fst (report E [(''changed'', JBool True), elapsed_value E t0 s, (''changed_percentage'', JFloat (round_tenth p))] s))
      (\<lambda>t0 s. fst (report E [(''changed'', JBool False), elapsed_value E t0 s, (''status'', JStr ''timeout'')] s))"

definition tool_verify_action_result :: "('w, 'z) mcp_env_scheme \<Rightarrow> json \<Rightarrow> 'w mcp \<Rightarrow> (answer \<times> 'w mcp) option" where
  "tool_verify_action_result E args =
    wait_for_change E args (min (get_or_else (as_u64 (field args ''timeout_ms'')) 3000) 30000)
      (\<lambda>(b, w, h) t0 p cur s. fst (report E [(''changed'', JBool True), elapsed_value E t0 s, (''changed_percentage'', JFloat (round_tenth p)),
          (''changed_regions'', JArr (grid_diff b cur w h)), (''status'', JStr ''change_detected'')] s))
      (\<lambda>t0 s. fst (report E [(''changed'', JBool False), elapsed_value E t0 s, (''changed_percentage'', JFloat 0),
          (''status'', JStr ''no_change_detected'')] s))"

definition cleanup_diff_refs :: "('w, 'z) mcp_env_scheme \<Rightarrow> 'w mcp \<Rightarrow> 'w mcp" where
  "cleanup_diff_refs E s = s\<lparr>diff_refs := filter (\<lambda>(_, _, created). clock E s - created < 60000) (diff_refs s)\<rparr>"

definition tool_screen_diff_summary :: "('w, 'z) mcp_env_scheme \<Rightarrow> json \<Rightarrow> 'w mcp \<Rightarrow> answer \<times> 'w mcp" where
  "tool_screen_diff_summary E args s =
    (let s = cleanup_diff_refs E s; region = parse_crop_region args
     in case as_str (field args ''reference_id'') of
          None \<Rightarrow>
            (case capture E region s of
               (Inl e, s) \<Rightarrow> (Bad e, s)
             | (Inr (rgba, w, h), s) \<Rightarrow>
                 let i = fresh_id E (world s)
                 in report E [(''reference_id'', JStr i), (''status'', JStr ''baseline_captured''), (''width'', JInt (uint w)), (''height'', JInt (uint h))]
                      (s\<lparr>diff_refs := AList.update i ((rgba, w, h), clock E s) (diff_refs s)\<rparr>))
        | Some i \<Rightarrow>
            (case map_of (diff_refs s) i of
               None \<Rightarrow> (Bad (''Reference '' @ quoted i @ '' not found or expired''), s)
             | Some ((base, bw, bh), _) \<Rightarrow>
                 (case capture E region s of
                    (Inl e, s) \<Rightarrow> (Bad e, s)
                  | (Inr (current, cw, ch), s) \<Rightarrow>
                      if bw \<noteq> cw \<or> bh \<noteq> ch then (Bad ''Screen dimensions changed since baseline capture'', s)
                      else (case pixel_diff_percentage base current 10 of
                              None \<Rightarrow> (Panicked, s)
                            | Some p \<Rightarrow>
                                report E [(''changed_percentage'', JFloat (round_tenth p)), (''changed'', JBool (p > 1 / 2)),
                                          (''changed_regions'', JArr (grid_diff base current bw bh))]
                                  (s\<lparr>diff_refs := AList.delete i (diff_refs s)\<rparr>)))))"

text \<open>Text is not recognised on this platform: the screen is captured all the same.\<close>

definition run_ocr :: "string + string" where
  "run_ocr = Inl ''OCR is not supported on this platform.''"

definition tool_read_screen_text :: "('w, 'z) mcp_env_scheme \<Rightarrow> json \<Rightarrow> 'w mcp \<Rightarrow> answer \<times> 'w mcp" where
  "tool_read_screen_text E args s =
    (case capture E (parse_crop_region args) s of
       (Inl e, s) \<Rightarrow> (Bad e, s)
     | (Inr _, s) \<Rightarrow> (case run_ocr of Inl e \<Rightarrow> (Bad e, s) | Inr t \<Rightarrow> say t s))"

definition find_elements_on_screen :: "('w, 'z) mcp_env_scheme \<Rightarrow> 'w mcp \<Rightarrow> string \<times> 'w mcp" where
  "find_elements_on_screen E s =
    (case capture E None s of (Inl e, s) \<Rightarrow> (e, s) | (Inr _, s) \<Rightarrow> (''OCR is not supported in this build.'', s))"

definition tool_find_element :: "('w, 'z) mcp_env_scheme \<Rightarrow> json \<Rightarrow> 'w mcp \<Rightarrow> answer \<times> 'w mcp" where
  "tool_find_element E args s =
    (case as_str (field args ''text'') of
       None \<Rightarrow> (Bad ''Missing text'', s)
     | Some _ \<Rightarrow> (let (e, s) = find_elements_on_screen E s in (Bad e, s)))"

definition tool_click_text :: "('w, 'z) mcp_env_scheme \<Rightarrow> json \<Rightarrow> 'w mcp \<Rightarrow> answer \<times> 'w mcp" where
  "tool_click_text E args s =
    (case as_str (field args ''text'') of
       None \<Rightarrow> (Bad ''Missing text'', s)
     | Some _ \<Rightarrow> (let (e, s) = find_elements_on_screen E s in (Bad e, s)))"

definition tool_wait_for_text :: "('w, 'z) mcp_env_scheme \<Rightarrow> json \<Rightarrow> 'w mcp \<Rightarrow> (answer \<times> 'w mcp) option" where
  "tool_wait_for_text E args s =
    (case as_str (field args ''text'') of
       None \<Rightarrow> Some (Bad ''Missing text'', s)
     | Some t \<Rightarrow>
         let limit = min (get_or_else (as_u64 (field args ''timeout_ms'')) 10000) 60000;
             interval = max (get_or_else (as_u64 (field args ''interval_ms'')) 500) 200; t0 = clock E s;
             body = (\<lambda>s. case capture E None s of
                       (Inr _, s) \<Rightarrow>
                         (case run_ocr of
                            Inr seen \<Rightarrow> if sublist (lower E t) (lower E seen)
                              then Some (Some (fst (report E [(''found'', JBool True), elapsed_value E t0 s] s)), s) else Some (None, pause E interval s)
                          | Inl _ \<Rightarrow> Some (None, pause E interval s))
                     | (Inl _, s) \<Rightarrow> Some (None, pause E interval s))
         in map_option (\<lambda>(r, s). (case r of Some a \<Rightarrow> a | None \<Rightarrow>
                fst (report E [(''found'', JBool False), elapsed_value E t0 s, (''status'', JStr ''timeout'')] s), s))
              (poll (clock E) t0 limit body s))"

section \<open>Recording\<close>

definition tool_start_recording :: "('w, 'z) mcp_env_scheme \<Rightarrow> 'w mcp \<Rightarrow> answer \<times> 'w mcp" where
  "tool_start_recording E s =
    say ''Recording started. All tool calls will be captured. Use stop_recording to finish.''
      (s\<lparr>is_recording := True, wf_steps := [], rec_start := Some (clock E s)\<rparr>)"

fun step_values :: "nat \<Rightarrow> (string \<times> json \<times> nat) list \<Rightarrow> json list" where
  "step_values prev [] = []"
| "step_values prev ((name, args, ts) # steps) =
    JObj [(''tool_name'', JStr name), (''arguments'', args), (''delay_ms'', JInt (int (ts - prev))), (''timestamp_ms'', JInt (int ts))]
    # step_values ts steps"

definition tool_stop_recording :: "('w, 'z) mcp_env_scheme \<Rightarrow> 'w mcp \<Rightarrow> answer \<times> 'w mcp" where
  "tool_stop_recording E s =
    (let vs = step_values 0 (wf_steps s)
     in report E [(''steps'', JArr vs), (''count'', JInt (int (length vs)))] (s\<lparr>is_recording := False, wf_steps := [], rec_start := None\<rparr>))"

end
