(* ===== verification/Mcp_Catalogue.thy ===== *)
theory Mcp_Catalogue
  imports Json_Value
begin

text \<open>
  What the automation server tells its clients about itself (\<open>src/mcp_server.rs\<close>): the tools with the schemas of
  their arguments, the prompts and the resources. Quotation marks and characters beyond ASCII are written as
  their bytes.
\<close>

section \<open>Tools\<close>

definition TOOLS_1 :: "json list" where
  "TOOLS_1 = [
    (JObj [
      (''name'', (JStr ''screenshot'')),
      (''description'', (JStr (''Capture the primary display (or a cropped region) and return as a PNG image. Use x/y/width/height to crop a specific area '' @ [CHR 0xE2, CHR 0x80, CHR 0x94] @ '' useful for inspecting toolbar buttons, dialog text, or other small UI elements.''))),
      (''inputSchema'', (JObj [
        (''type'', (JStr ''object'')),
        (''properties'', (JObj [
          (''display'', (JObj [(''type'', (JStr ''integer'')), (''description'', (JStr ''Display index (0 = primary). Default: 0''))])),
          (''x'', (JObj [(''type'', (JStr ''integer'')), (''description'', (JStr ''Crop region left X coordinate in pixels''))])),
          (''y'', (JObj [(''type'', (JStr ''integer'')), (''description'', (JStr ''Crop region top Y coordinate in pixels''))])),
          (''width'', (JObj [(''type'', (JStr ''integer'')), (''description'', (JStr ''Crop region width in pixels''))])),
          (''height'', (JObj [(''type'', (JStr ''integer'')), (''description'', (JStr ''Crop region height in pixels''))]))]))])),
      (''annotations'', (JObj [(''readOnlyHint'', (JBool True))]))]),
    (JObj [
      (''name'', (JStr ''get_window_list'')),
      (''description'', (JStr ''List all visible windows with their titles, positions, and sizes'')),
      (''inputSchema'', (JObj [(''type'', (JStr ''object'')), (''properties'', (JObj []))])),
      (''annotations'', (JObj [(''readOnlyHint'', (JBool True))]))]),
    (JObj [
      (''name'', (JStr ''mouse_click'')),
      (''description'', (JStr ''Move the mouse to (x, y) and click'')),
      (''inputSchema'', (JObj [
        (''type'', (JStr ''object'')),
        (''properties'', (JObj [
          (''x'', (JObj [(''type'', (JStr ''integer'')), (''description'', (JStr ''X coordinate in pixels''))])),
          (''y'', (JObj [(''type'', (JStr ''integer'')), (''description'', (JStr ''Y coordinate in pixels''))])),
          (''button'', (JObj [
            (''type'', (JStr ''string'')),
            (''enum'', (JArr [JStr ''left'', JStr ''right'', JStr ''middle''])),
            (''description'', (JStr ''Mouse button. Default: left''))])),
          (''double_click'', (JObj [
            (''type'', (JStr ''boolean'')),
            (''description'', (JStr ''Double-click instead of single click. Default: false''))]))])),
        (''required'', (JArr [JStr ''x'', JStr ''y'']))])),
      (''annotations'', (JObj [(''readOnlyHint'', (JBool False))]))]),
    (JObj [
      (''name'', (JStr ''type_text'')),
      (''description'', (JStr ''Type text using keyboard input. Supports unicode characters.'')),
      (''inputSchema'', (JObj [
        (''type'', (JStr ''object'')),
        (''properties'', (JObj [(''text'', (JObj [(''type'', (JStr ''string'')), (''description'', (JStr ''Text to type''))]))])),
        (''required'', (JArr [JStr ''text'']))])),
      (''annotations'', (JObj [(''readOnlyHint'', (JBool False))]))]),
    (JObj [
      (''name'', (JStr ''key_press'')),
      (''description'', (JStr (''Press a keyboard key or combination (e.g. '' @ [CHR 0x27] @ ''Return'' @ [CHR 0x27] @ '', '' @ [CHR 0x27] @ ''ctrl+a'' @ [CHR 0x27] @ '', '' @ [CHR 0x27] @ ''alt+F4'' @ [CHR 0x27] @ '')''))),
      (''inputSchema'', (JObj [
        (''type'', (JStr ''object'')),
        (''properties'', (JObj [
          (''key'', (JObj [
            (''type'', (JStr ''string'')),
            (''description'', (JStr (''Key name (e.g. '' @ [CHR 0x27] @ ''Return'' @ [CHR 0x27] @ '', '' @ [CHR 0x27] @ ''Escape'' @ [CHR 0x27] @ '', '' @ [CHR 0x27] @ ''Tab'' @ [CHR 0x27] @ '', '' @ [CHR 0x27] @ ''BackSpace'' @ [CHR 0x27] @ '', '' @ [CHR 0x27] @ ''Delete'' @ [CHR 0x27] @ '', '' @ [CHR 0x27] @ ''F1'' @ [CHR 0x27] @ ''-'' @ [CHR 0x27] @ ''F12'' @ [CHR 0x27] @ '', '' @ [CHR 0x27] @ ''Up'' @ [CHR 0x27] @ '', '' @ [CHR 0x27] @ ''Down'' @ [CHR 0x27] @ '', '' @ [CHR 0x27] @ ''Left'' @ [CHR 0x27] @ '', '' @ [CHR 0x27] @ ''Right'' @ [CHR 0x27] @ '', '' @ [CHR 0x27] @ ''Home'' @ [CHR 0x27] @ '', '' @ [CHR 0x27] @ ''End'' @ [CHR 0x27] @ '', '' @ [CHR 0x27] @ ''PageUp'' @ [CHR 0x27] @ '', '' @ [CHR 0x27] @ ''PageDown'' @ [CHR 0x27] @ '')'')))])),
          (''modifiers'', (JObj [
            (''type'', (JStr ''array'')),
            (''items'', (JObj [
              (''type'', (JStr ''string'')),
              (''enum'', (JArr [JStr ''ctrl'', JStr ''alt'', JStr ''shift'', JStr ''meta'']))])),
            (''description'', (JStr ''Modifier keys to hold while pressing''))]))])),
        (''required'', (JArr [JStr ''key'']))])),
      (''annotations'', (JObj [(''readOnlyHint'', (JBool False))]))]),
    (JObj [
      (''name'', (JStr ''mouse_move'')),
      (''description'', (JStr ''Move the mouse to (x, y) without clicking'')),
      (''inputSchema'', (JObj [
        (''type'', (JStr ''object'')),
        (''properties'', (JObj [
          (''x'', (JObj [(''type'', (JStr ''integer'')), (''description'', (JStr ''X coordinate in pixels''))])),
          (''y'', (JObj [(''type'', (JStr ''integer'')), (''description'', (JStr ''Y coordinate in pixels''))]))])),
        (''required'', (JArr [JStr ''x'', JStr ''y'']))])),
      (''annotations'', (JObj [(''readOnlyHint'', (JBool False))]))]),
    (JObj [
      (''name'', (JStr ''get_device_info'')),
      (''description'', (JStr (''Get this device'' @ [CHR 0x27] @ ''s ID, version, platform, hostname, and signal server connection status''))),
      (''inputSchema'', (JObj [(''type'', (JStr ''object'')), (''properties'', (JObj []))])),
      (''annotations'', (JObj [(''readOnlyHint'', (JBool True))]))]),
    (JObj [
      (''name'', (JStr ''list_peers'')),
      (''description'', (JStr ''List known peers (recent sessions, favorites, LAN discovered). Returns peer ID, username, hostname, platform.'')),
      (''inputSchema'', (JObj [
        (''type'', (JStr ''object'')),
        (''properties'', (JObj [
          (''filter'', (JObj [
            (''type'', (JStr ''string'')),
            (''enum'', (JArr [JStr ''all'', JStr ''recent'', JStr ''favorites'', JStr ''lan''])),
            (''description'', (JStr ''Which peers to list. Default: all''))]))]))])),
      (''annotations'', (JObj [(''readOnlyHint'', (JBool True))]))]),
    (JObj [
      (''name'', (JStr ''connect_to_peer'')),
      (''description'', (JStr ''Initiate a remote desktop connection to a peer by device ID. Spawns a new connection window. Optionally pass a password to skip the password dialog.'')),
      (''inputSchema'', (JObj [
        (''type'', (JStr ''object'')),
        (''properties'', (JObj [
          (''peer_id'', (JObj [(''type'', (JStr ''string'')), (''description'', (JStr ''The peer device ID to connect to''))])),
          (''connection_type'', (JObj [
            (''type'', (JStr ''string'')),
            (''enum'', (JArr [JStr ''connect'', JStr ''file-transfer'', JStr ''port-forward''])),
            (''description'', (JStr ''Type of connection. Default: connect''))])),
          (''password'', (JObj [
            (''type'', (JStr ''string'')),
            (''description'', (JStr ''Optional password for the remote peer. If provided, skips the password dialog.''))]))])),
        (''required'', (JArr [JStr ''peer_id'']))])),
      (''annotations'', (JObj [(''readOnlyHint'', (JBool False))]))]),
    (JObj [
      (''name'', (JStr ''disconnect_peer'')),
      (''description'', (JStr ''Close the remote connection to a peer by device ID'')),
      (''inputSchema'', (JObj [
        (''type'', (JStr ''object'')),
        (''properties'', (JObj [
          (''peer_id'', (JObj [(''type'', (JStr ''string'')), (''description'', (JStr ''The peer device ID to disconnect''))]))])),
        (''required'', (JArr [JStr ''peer_id'']))])),
      (''annotations'', (JObj [(''readOnlyHint'', (JBool False)), (''destructiveHint'', (JBool True))]))])]"

definition TOOLS_2 :: "json list" where
  "TOOLS_2 = [
    (JObj [
      (''name'', (JStr ''list_active_connections'')),
      (''description'', (JStr ''List all currently active remote connections with their type and alive status'')),
      (''inputSchema'', (JObj [(''type'', (JStr ''object'')), (''properties'', (JObj []))])),
      (''annotations'', (JObj [(''readOnlyHint'', (JBool True))]))]),
    (JObj [
      (''name'', (JStr ''get_ui_state'')),
      (''description'', (JStr (''Get rich structured UI state for HopToDesk. Returns per-connection: toolbar buttons, connection quality (speed/fps/delay/codec), display info (resolution, current monitor), permissions (keyboard/clipboard/audio/file), dialog/popup state, video dimensions, view settings, recording/privacy mode. No screenshot needed '' @ [CHR 0xE2, CHR 0x80, CHR 0x94] @ '' use this to assess UI health programmatically.''))),
      (''inputSchema'', (JObj [
        (''type'', (JStr ''object'')),
        (''properties'', (JObj [
          (''peer_id'', (JObj [
            (''type'', (JStr ''string'')),
            (''description'', (JStr ''Optional: only return UI state for this specific connection. Default: return all.''))]))]))])),
      (''annotations'', (JObj [(''readOnlyHint'', (JBool True))]))]),
    (JObj [
      (''name'', (JStr ''dismiss_dialog'')),
      (''description'', (JStr ''Dismiss the currently visible modal dialog on a connection window (e.g. security code prompt, password prompt). Sends a signal to the child process via stdin pipe.'')),
      (''inputSchema'', (JObj [
        (''type'', (JStr ''object'')),
        (''properties'', (JObj [
          (''peer_id'', (JObj [
            (''type'', (JStr ''string'')),
            (''description'', (JStr (''The peer ID of the connection whose dialog to dismiss. Use '' @ [CHR 0x27] @ ''all'' @ [CHR 0x27] @ '' to dismiss dialogs on all connections.'')))]))])),
        (''required'', (JArr [JStr ''peer_id'']))])),
      (''annotations'', (JObj [(''readOnlyHint'', (JBool False))]))]),
    (JObj [
      (''name'', (JStr ''click_toolbar_button'')),
      (''description'', (JStr (''Click a toolbar button or submenu item on a remote connection window. Supports top-level buttons and submenu items using '' @ [CHR 0x27] @ ''menu:item'' @ [CHR 0x27] @ '' format. Use get_ui_state to see available buttons and submenu items.''))),
      (''inputSchema'', (JObj [
        (''type'', (JStr ''object'')),
        (''properties'', (JObj [
          (''peer_id'', (JObj [
            (''type'', (JStr ''string'')),
            (''description'', (JStr ''The peer ID of the connection whose toolbar button to click.''))])),
          (''button_id'', (JObj [
            (''type'', (JStr ''string'')),
            (''description'', (JStr (''Button ID or '' @ [CHR 0x27] @ ''menu:item'' @ [CHR 0x27] @ '' for submenu. Top-level: fullscreen, chat, transfer-file, remote-print, recording, privacy-mode. Submenus: '' @ [CHR 0x27] @ ''action:ctrl-alt-del'' @ [CHR 0x27] @ '', '' @ [CHR 0x27] @ ''action:lock-screen'' @ [CHR 0x27] @ '', '' @ [CHR 0x27] @ ''action:restart_remote_device'' @ [CHR 0x27] @ '', '' @ [CHR 0x27] @ ''action:take-screenshot'' @ [CHR 0x27] @ '', '' @ [CHR 0x27] @ ''action:refresh'' @ [CHR 0x27] @ '', '' @ [CHR 0x27] @ ''action:block-input'' @ [CHR 0x27] @ '', '' @ [CHR 0x27] @ ''action:tunnel'' @ [CHR 0x27] @ '', '' @ [CHR 0x27] @ ''display:original'' @ [CHR 0x27] @ '', '' @ [CHR 0x27] @ ''display:shrink'' @ [CHR 0x27] @ '', '' @ [CHR 0x27] @ ''display:stretch'' @ [CHR 0x27] @ '', '' @ [CHR 0x27] @ ''display:best'' @ [CHR 0x27] @ '', '' @ [CHR 0x27] @ ''display:balanced'' @ [CHR 0x27] @ '', '' @ [CHR 0x27] @ ''display:low'' @ [CHR 0x27] @ '', '' @ [CHR 0x27] @ ''display:show-remote-cursor'' @ [CHR 0x27] @ '', '' @ [CHR 0x27] @ ''display:disable-audio'' @ [CHR 0x27] @ '', '' @ [CHR 0x27] @ ''display:disable-clipboard'' @ [CHR 0x27] @ '', '' @ [CHR 0x27] @ ''display:lock-after-session-end'' @ [CHR 0x27] @ '', '' @ [CHR 0x27] @ ''keyboard:legacy'' @ [CHR 0x27] @ '', '' @ [CHR 0x27] @ ''keyboard:map'' @ [CHR 0x27] @ '', '' @ [CHR 0x27] @ ''keyboard:translate'' @ [CHR 0x27])))]))])),
        (''required'', (JArr [JStr ''peer_id'', JStr ''button_id'']))])),
      (''annotations'', (JObj [(''readOnlyHint'', (JBool False))]))]),
    (JObj [
      (''name'', (JStr ''test_print'')),
      (''description'', (JStr (''Send a test print job to the configured remote printer. This simulates receiving a print job from the remote machine '' @ [CHR 0xE2, CHR 0x80, CHR 0x94] @ '' useful for verifying the local print pipeline works. Requires set_remote_printer to be configured first.''))),
      (''inputSchema'', (JObj [
        (''type'', (JStr ''object'')),
        (''properties'', (JObj [
          (''text'', (JObj [
            (''type'', (JStr ''string'')),
            (''description'', (JStr (''Text content to print. Default: '' @ [CHR 0x27] @ ''HopToDesk Remote Print Test'' @ [CHR 0x27])))]))]))])),
      (''annotations'', (JObj [(''readOnlyHint'', (JBool False))]))]),
    (JObj [
      (''name'', (JStr ''set_remote_printer'')),
      (''description'', (JStr (''Set the printer for remote print jobs and enable auto-print mode. When enabled, print jobs from the remote machine are automatically sent to the selected printer without showing a dialog. Use '' @ [CHR 0x27] @ ''auto'' @ [CHR 0x27] @ '' for printer_name to auto-select the only available printer. Returns the list of available printers if no name is given.''))),
      (''inputSchema'', (JObj [
        (''type'', (JStr ''object'')),
        (''properties'', (JObj [
          (''printer_name'', (JObj [
            (''type'', (JStr ''string'')),
            (''description'', (JStr (''Printer name to use, or '' @ [CHR 0x27] @ ''auto'' @ [CHR 0x27] @ '' to select the only available printer. Omit to list available printers.'')))])),
          (''auto_print'', (JObj [
            (''type'', (JStr ''boolean'')),
            (''description'', (JStr ''Enable auto-print mode (default: true). When true, incoming print jobs are sent directly to the printer without prompting.''))]))]))])),
      (''annotations'', (JObj [(''readOnlyHint'', (JBool False))]))]),
    (JObj [
      (''name'', (JStr ''wait_for_event'')),
      (''description'', (JStr (''Block until a specified event occurs or timeout. Eliminates polling '' @ [CHR 0xE2, CHR 0x80, CHR 0x94] @ '' use this instead of looping get_ui_state. Events: '' @ [CHR 0x27] @ ''connection_ready'' @ [CHR 0x27] @ '' (peer connects and video starts), '' @ [CHR 0x27] @ ''connection_closed'' @ [CHR 0x27] @ '' (peer disconnects), '' @ [CHR 0x27] @ ''dialog_appeared'' @ [CHR 0x27] @ '' (dialog/prompt shows up), '' @ [CHR 0x27] @ ''dialog_dismissed'' @ [CHR 0x27] @ '' (dialog closes), '' @ [CHR 0x27] @ ''quality_stable'' @ [CHR 0x27] @ '' (fps > 0 and delay < 500ms). Returns the current state when the event fires.''))),
      (''inputSchema'', (JObj [
        (''type'', (JStr ''object'')),
        (''properties'', (JObj [
          (''event'', (JObj [
            (''type'', (JStr ''string'')),
            (''enum'', (JArr [JStr ''connection_ready'', JStr ''connection_closed'', JStr ''dialog_appeared'', JStr ''dialog_dismissed'', JStr ''quality_stable''])),
            (''description'', (JStr ''The event to wait for''))])),
          (''peer_id'', (JObj [
            (''type'', (JStr ''string'')),
            (''description'', (JStr ''Peer ID to monitor. Required for connection_ready, connection_closed, dialog_appeared, dialog_dismissed, quality_stable.''))])),
          (''timeout_ms'', (JObj [
            (''type'', (JStr ''integer'')),
            (''description'', (JStr ''Maximum time to wait in milliseconds. Default: 30000 (30s). Max: 60000 (60s).''))]))])),
        (''required'', (JArr [JStr ''event'', JStr ''peer_id'']))])),
      (''annotations'', (JObj [(''readOnlyHint'', (JBool True))]))]),
    (JObj [
      (''name'', (JStr ''exec_operation'')),
      (''description'', (JStr (''Execute a predefined system operation on this device. Operations are hardcoded '' @ [CHR 0xE2, CHR 0x80, CHR 0x94] @ '' only the operation name is accepted, no raw shell commands. Device must be enrolled with a dashboard.''))),
      (''inputSchema'', (JObj [
        (''type'', (JStr ''object'')),
        (''properties'', (JObj [
          (''operation'', (JObj [
            (''type'', (JStr ''string'')),
            (''enum'', (JArr [JStr ''get_system_info'', JStr ''disk_usage'', JStr ''list_processes'', JStr ''network_info'', JStr ''get_service_logs'', JStr ''ping_test'', JStr ''installed_software'', JStr ''restart_hoptodesk'', JStr ''kill_process'', JStr ''flush_dns'', JStr ''reboot_device'', JStr ''clear_temp_files'', JStr ''run_update_check''])),
            (''description'', (JStr ''The operation to execute''))])),
          (''sort_by'', (JObj [
            (''type'', (JStr ''string'')),
            (''enum'', (JArr [JStr ''cpu'', JStr ''memory''])),
            (''description'', (JStr ''For list_processes: sort by cpu or memory''))])),
          (''limit'', (JObj [(''type'', (JStr ''integer'')), (''description'', (JStr ''For list_processes: max number of processes''))])),
          (''lines'', (JObj [
            (''type'', (JStr ''integer'')),
            (''description'', (JStr ''For get_service_logs: number of log lines (max 200)''))])),
          (''host'', (JObj [(''type'', (JStr ''string'')), (''description'', (JStr ''For ping_test: hostname or IP to ping''))])),
          (''count'', (JObj [(''type'', (JStr ''integer'')), (''description'', (JStr ''For ping_test: number of pings (max 10)''))])),
          (''process_name'', (JObj [(''type'', (JStr ''string'')), (''description'', (JStr ''For kill_process: name of process to kill''))])),
          (''pid'', (JObj [(''type'', (JStr ''integer'')), (''description'', (JStr ''For kill_process: PID to kill''))]))])),
        (''required'', (JArr [JStr ''operation'']))])),
      (''annotations'', (JObj [(''readOnlyHint'', (JBool False)), (''destructiveHint'', (JBool True)), (''confirmationHint'', (JBool True))]))]),
    (JObj [
      (''name'', (JStr ''get_clipboard'')),
      (''description'', (JStr ''Read the current text content of the local clipboard'')),
      (''inputSchema'', (JObj [(''type'', (JStr ''object'')), (''properties'', (JObj []))])),
      (''annotations'', (JObj [(''readOnlyHint'', (JBool True))]))])]"

definition TOOLS_3 :: "json list" where
  "TOOLS_3 = [
    (JObj [
      (''name'', (JStr ''set_clipboard'')),
      (''description'', (JStr ''Set the local clipboard to the specified text content'')),
      (''inputSchema'', (JObj [
        (''type'', (JStr ''object'')),
        (''properties'', (JObj [
          (''text'', (JObj [(''type'', (JStr ''string'')), (''description'', (JStr ''Text to copy to the clipboard''))]))])),
        (''required'', (JArr [JStr ''text'']))])),
      (''annotations'', (JObj [(''readOnlyHint'', (JBool False))]))]),
    (JObj [
      (''name'', (JStr ''send_chat_message'')),
      (''description'', (JStr ''Send a chat message to a connected remote peer. Requires an active remote desktop connection to the peer.'')),
      (''inputSchema'', (JObj [
        (''type'', (JStr ''object'')),
        (''properties'', (JObj [
          (''peer_id'', (JObj [
            (''type'', (JStr ''string'')),
            (''description'', (JStr ''The peer ID of the active connection to send the message to''))])),
          (''text'', (JObj [(''type'', (JStr ''string'')), (''description'', (JStr ''The chat message text to send''))]))])),
        (''required'', (JArr [JStr ''peer_id'', JStr ''text'']))])),
      (''annotations'', (JObj [(''readOnlyHint'', (JBool False))]))]),
    (JObj [
      (''name'', (JStr ''switch_permission'')),
      (''description'', (JStr ''Toggle a permission on an incoming remote connection. Only works for connections where a remote peer is connected TO this device (not outgoing connections you initiated). Permissions: keyboard, clipboard, audio, file, restart, recording.'')),
      (''inputSchema'', (JObj [
        (''type'', (JStr ''object'')),
        (''properties'', (JObj [
          (''conn_id'', (JObj [
            (''type'', (JStr ''integer'')),
            (''description'', (JStr ''The incoming connection ID (from list_incoming_connections)''))])),
          (''permission'', (JObj [
            (''type'', (JStr ''string'')),
            (''enum'', (JArr [JStr ''keyboard'', JStr ''clipboard'', JStr ''audio'', JStr ''file'', JStr ''restart'', JStr ''recording''])),
            (''description'', (JStr ''The permission to toggle''))])),
          (''enabled'', (JObj [(''type'', (JStr ''boolean'')), (''description'', (JStr ''true to enable, false to disable''))]))])),
        (''required'', (JArr [JStr ''conn_id'', JStr ''permission'', JStr ''enabled'']))])),
      (''annotations'', (JObj [(''readOnlyHint'', (JBool False))]))]),
    (JObj [
      (''name'', (JStr ''list_incoming_connections'')),
      (''description'', (JStr ''List all incoming remote connections (peers connected TO this device). Returns connection ID, peer info, authorization status, and permissions. Use conn_id with switch_permission to manage permissions.'')),
      (''inputSchema'', (JObj [(''type'', (JStr ''object'')), (''properties'', (JObj []))])),
      (''annotations'', (JObj [(''readOnlyHint'', (JBool True))]))]),
    (JObj [
      (''name'', (JStr ''list_local_files'')),
      (''description'', (JStr ''List files and directories at a given path on this device. Returns name, size, type (file/directory), and modified timestamp.'')),
      (''inputSchema'', (JObj [
        (''type'', (JStr ''object'')),
        (''properties'', (JObj [
          (''path'', (JObj [
            (''type'', (JStr ''string'')),
            (''description'', (JStr ''Directory path to list. Default: home directory''))])),
          (''include_hidden'', (JObj [
            (''type'', (JStr ''boolean'')),
            (''description'', (JStr (''Include hidden files (starting with '' @ [CHR 0x27] @ ''.'' @ [CHR 0x27] @ ''). Default: false'')))]))]))])),
      (''annotations'', (JObj [(''readOnlyHint'', (JBool True))]))]),
    (JObj [
      (''name'', (JStr ''read_local_file'')),
      (''description'', (JStr ''Read the text content of a local file. For binary files, returns base64-encoded content. Max 1MB.'')),
      (''inputSchema'', (JObj [
        (''type'', (JStr ''object'')),
        (''properties'', (JObj [
          (''path'', (JObj [(''type'', (JStr ''string'')), (''description'', (JStr ''Absolute path to the file to read''))]))])),
        (''required'', (JArr [JStr ''path'']))])),
      (''annotations'', (JObj [(''readOnlyHint'', (JBool True))]))]),
    (JObj [
      (''name'', (JStr ''run_command'')),
      (''description'', (JStr ''Execute a shell command on this device. Runs via cmd.exe on Windows or /bin/sh on Unix. Device must be enrolled with a dashboard. Output is truncated to 64KB.'')),
      (''inputSchema'', (JObj [
        (''type'', (JStr ''object'')),
        (''properties'', (JObj [
          (''command'', (JObj [(''type'', (JStr ''string'')), (''description'', (JStr ''The shell command to execute''))])),
          (''timeout'', (JObj [(''type'', (JStr ''integer'')), (''description'', (JStr ''Timeout in seconds (default: 30, max: 120)''))]))])),
        (''required'', (JArr [JStr ''command'']))])),
      (''annotations'', (JObj [(''readOnlyHint'', (JBool False)), (''destructiveHint'', (JBool True)), (''confirmationHint'', (JBool True))]))]),
    (JObj [
      (''name'', (JStr ''scroll'')),
      (''description'', (JStr ''Scroll the mouse wheel at a position. Move the mouse to (x, y) first if provided, then scroll in the given direction.'')),
      (''inputSchema'', (JObj [
        (''type'', (JStr ''object'')),
        (''properties'', (JObj [
          (''x'', (JObj [
            (''type'', (JStr ''integer'')),
            (''description'', (JStr ''X coordinate to scroll at. Omit to scroll at current position.''))])),
          (''y'', (JObj [
            (''type'', (JStr ''integer'')),
            (''description'', (JStr ''Y coordinate to scroll at. Omit to scroll at current position.''))])),
          (''direction'', (JObj [
            (''type'', (JStr ''string'')),
            (''enum'', (JArr [JStr ''up'', JStr ''down'', JStr ''left'', JStr ''right''])),
            (''description'', (JStr ''Scroll direction. Default: down''))])),
          (''amount'', (JObj [(''type'', (JStr ''integer'')), (''description'', (JStr ''Number of scroll lines. Default: 3''))]))]))])),
      (''annotations'', (JObj [(''readOnlyHint'', (JBool False))]))]),
    (JObj [
      (''name'', (JStr ''mouse_drag'')),
      (''description'', (JStr ''Click and drag from one point to another. Useful for selecting text, moving windows, resizing, or drag-and-drop operations.'')),
      (''inputSchema'', (JObj [
        (''type'', (JStr ''object'')),
        (''properties'', (JObj [
          (''start_x'', (JObj [(''type'', (JStr ''integer'')), (''description'', (JStr ''Start X coordinate''))])),
          (''start_y'', (JObj [(''type'', (JStr ''integer'')), (''description'', (JStr ''Start Y coordinate''))])),
          (''end_x'', (JObj [(''type'', (JStr ''integer'')), (''description'', (JStr ''End X coordinate''))])),
          (''end_y'', (JObj [(''type'', (JStr ''integer'')), (''description'', (JStr ''End Y coordinate''))])),
          (''button'', (JObj [
            (''type'', (JStr ''string'')),
            (''enum'', (JArr [JStr ''left'', JStr ''right'', JStr ''middle''])),
            (''description'', (JStr ''Mouse button. Default: left''))])),
          (''steps'', (JObj [
            (''type'', (JStr ''integer'')),
            (''description'', (JStr ''Number of intermediate move steps for smooth drag. Default: 10''))]))])),
        (''required'', (JArr [JStr ''start_x'', JStr ''start_y'', JStr ''end_x'', JStr ''end_y'']))])),
      (''annotations'', (JObj [(''readOnlyHint'', (JBool False))]))]),
    (JObj [
      (''name'', (JStr ''wait_for_screen_change'')),
      (''description'', (JStr ''Block until pixels change on the screen (or in a region). Use after performing an action to wait for the UI to update instead of polling with screenshots. Returns when the screen changes or timeout is reached.'')),
      (''inputSchema'', (JObj [
        (''type'', (JStr ''object'')),
        (''properties'', (JObj [
          (''x'', (JObj [(''type'', (JStr ''integer'')), (''description'', (JStr ''Region left X coordinate''))])),
          (''y'', (JObj [(''type'', (JStr ''integer'')), (''description'', (JStr ''Region top Y coordinate''))])),
          (''width'', (JObj [(''type'', (JStr ''integer'')), (''description'', (JStr ''Region width''))])),
          (''height'', (JObj [(''type'', (JStr ''integer'')), (''description'', (JStr ''Region height''))])),
          (''timeout_ms'', (JObj [
            (''type'', (JStr ''integer'')),
            (''description'', (JStr ''Max wait time in milliseconds. Default: 10000. Max: 60000.''))])),
          (''threshold'', (JObj [
            (''type'', (JStr ''number'')),
            (''description'', (JStr ''Percentage of pixels that must change to trigger. Default: 1.0''))]))]))])),
      (''annotations'', (JObj [(''readOnlyHint'', (JBool True))]))])]"

definition TOOLS_4 :: "json list" where
  "TOOLS_4 = [
    (JObj [
      (''name'', (JStr ''screen_diff_summary'')),
      (''description'', (JStr (''Two-phase screen comparison. Call once with no reference_id to capture a baseline (returns a reference_id). Then perform your action. Then call again with the reference_id to compare '' @ [CHR 0xE2, CHR 0x80, CHR 0x94] @ '' returns which grid sectors changed and by how much. References expire after 60 seconds.''))),
      (''inputSchema'', (JObj [
        (''type'', (JStr ''object'')),
        (''properties'', (JObj [
          (''reference_id'', (JObj [
            (''type'', (JStr ''string'')),
            (''description'', (JStr ''Reference ID from a previous baseline capture. Omit to capture a new baseline.''))])),
          (''x'', (JObj [(''type'', (JStr ''integer'')), (''description'', (JStr ''Region left X coordinate''))])),
          (''y'', (JObj [(''type'', (JStr ''integer'')), (''description'', (JStr ''Region top Y coordinate''))])),
          (''width'', (JObj [(''type'', (JStr ''integer'')), (''description'', (JStr ''Region width''))])),
          (''height'', (JObj [(''type'', (JStr ''integer'')), (''description'', (JStr ''Region height''))]))]))])),
      (''annotations'', (JObj [(''readOnlyHint'', (JBool True))]))]),
    (JObj [
      (''name'', (JStr ''verify_action_result'')),
      (''description'', (JStr ''Verify that a screen action had an effect. Captures the current screen, then polls for pixel changes. Returns whether the screen changed and which regions were affected. Use immediately after clicking a button or performing an action.'')),
      (''inputSchema'', (JObj [
        (''type'', (JStr ''object'')),
        (''properties'', (JObj [
          (''x'', (JObj [(''type'', (JStr ''integer'')), (''description'', (JStr ''Region left X coordinate''))])),
          (''y'', (JObj [(''type'', (JStr ''integer'')), (''description'', (JStr ''Region top Y coordinate''))])),
          (''width'', (JObj [(''type'', (JStr ''integer'')), (''description'', (JStr ''Region width''))])),
          (''height'', (JObj [(''type'', (JStr ''integer'')), (''description'', (JStr ''Region height''))])),
          (''timeout_ms'', (JObj [
            (''type'', (JStr ''integer'')),
            (''description'', (JStr ''Max wait time in milliseconds. Default: 3000. Max: 30000.''))])),
          (''threshold'', (JObj [
            (''type'', (JStr ''number'')),
            (''description'', (JStr ''Percentage of pixels that must change. Default: 1.0''))]))]))])),
      (''annotations'', (JObj [(''readOnlyHint'', (JBool True))]))]),
    (JObj [
      (''name'', (JStr ''start_recording'')),
      (''description'', (JStr ''Start recording MCP tool calls into a workflow. All subsequent tool calls (except recording tools) will be captured with their arguments and relative timestamps. Call stop_recording to get the recorded workflow.'')),
      (''inputSchema'', (JObj [(''type'', (JStr ''object'')), (''properties'', (JObj []))])),
      (''annotations'', (JObj [(''readOnlyHint'', (JBool False))]))]),
    (JObj [
      (''name'', (JStr ''stop_recording'')),
      (''description'', (JStr ''Stop recording and return the captured workflow as a JSON array of steps. Each step has tool_name, arguments, and delay_ms (time since previous step). The returned workflow can be passed to replay_workflow.'')),
      (''inputSchema'', (JObj [(''type'', (JStr ''object'')), (''properties'', (JObj []))])),
      (''annotations'', (JObj [(''readOnlyHint'', (JBool True))]))]),
    (JObj [
      (''name'', (JStr ''replay_workflow'')),
      (''description'', (JStr ''Replay a previously recorded workflow. Executes each step in sequence with the recorded delays. Use delay_multiplier to speed up (0.5) or slow down (2.0) playback.'')),
      (''inputSchema'', (JObj [
        (''type'', (JStr ''object'')),
        (''properties'', (JObj [
          (''steps'', (JObj [
            (''type'', (JStr ''array'')),
            (''description'', (JStr ''Array of workflow steps from stop_recording. Each: {tool_name, arguments, delay_ms}'')),
            (''items'', (JObj [
              (''type'', (JStr ''object'')),
              (''properties'', (JObj [
                (''tool_name'', (JObj [(''type'', (JStr ''string''))])),
                (''arguments'', (JObj [(''type'', (JStr ''object''))])),
                (''delay_ms'', (JObj [(''type'', (JStr ''integer''))]))])),
              (''required'', (JArr [JStr ''tool_name'', JStr ''arguments'']))]))])),
          (''delay_multiplier'', (JObj [
            (''type'', (JStr ''number'')),
            (''description'', (JStr ''Multiply all delays by this factor. Default: 1.0. Use 0 for no delays.''))]))])),
        (''required'', (JArr [JStr ''steps'']))])),
      (''annotations'', (JObj [(''readOnlyHint'', (JBool False))]))]),
    (JObj [
      (''name'', (JStr ''read_screen_text'')),
      (''description'', (JStr ''OCR the primary display (or a cropped region) and return recognized text. Uses native OS OCR (Windows Media.Ocr / macOS Vision framework). Useful for reading dialog text, error messages, labels, or any on-screen text.'')),
      (''inputSchema'', (JObj [
        (''type'', (JStr ''object'')),
        (''properties'', (JObj [
          (''x'', (JObj [(''type'', (JStr ''integer'')), (''description'', (JStr ''Crop region left X coordinate in pixels''))])),
          (''y'', (JObj [(''type'', (JStr ''integer'')), (''description'', (JStr ''Crop region top Y coordinate in pixels''))])),
          (''width'', (JObj [(''type'', (JStr ''integer'')), (''description'', (JStr ''Crop region width in pixels''))])),
          (''height'', (JObj [(''type'', (JStr ''integer'')), (''description'', (JStr ''Crop region height in pixels''))])),
          (''language'', (JObj [
            (''type'', (JStr ''string'')),
            (''description'', (JStr (''BCP-47 language tag (e.g. '' @ [CHR 0x27] @ ''en'' @ [CHR 0x27] @ '', '' @ [CHR 0x27] @ ''ja'' @ [CHR 0x27] @ ''). Default: system default'')))]))]))])),
      (''annotations'', (JObj [(''readOnlyHint'', (JBool True))]))]),
    (JObj [
      (''name'', (JStr ''get_screen_size'')),
      (''description'', (JStr ''Get the primary display resolution in pixels. Returns width and height.'')),
      (''inputSchema'', (JObj [(''type'', (JStr ''object'')), (''properties'', (JObj []))])),
      (''annotations'', (JObj [(''readOnlyHint'', (JBool True))]))]),
    (JObj [
      (''name'', (JStr ''find_element'')),
      (''description'', (JStr ''OCR the screen and find text matching a query. Returns matching text blocks with their pixel coordinates and center points, useful for clicking. Case-insensitive substring match by default.'')),
      (''inputSchema'', (JObj [
        (''type'', (JStr ''object'')),
        (''properties'', (JObj [
          (''text'', (JObj [(''type'', (JStr ''string'')), (''description'', (JStr ''Text to search for on screen''))])),
          (''exact'', (JObj [
            (''type'', (JStr ''boolean'')),
            (''description'', (JStr ''Require exact match instead of substring. Default: false''))]))])),
        (''required'', (JArr [JStr ''text'']))])),
      (''annotations'', (JObj [(''readOnlyHint'', (JBool True))]))]),
    (JObj [
      (''name'', (JStr ''click_text'')),
      (''description'', (JStr ''OCR the screen, find the specified text, and click its center in one step. Reduces 3 round-trips (screenshot + find + click) to 1.'')),
      (''inputSchema'', (JObj [
        (''type'', (JStr ''object'')),
        (''properties'', (JObj [
          (''text'', (JObj [(''type'', (JStr ''string'')), (''description'', (JStr ''Text to find and click''))])),
          (''button'', (JObj [
            (''type'', (JStr ''string'')),
            (''enum'', (JArr [JStr ''left'', JStr ''right'', JStr ''middle''])),
            (''description'', (JStr ''Mouse button. Default: left''))])),
          (''occurrence'', (JObj [
            (''type'', (JStr ''integer'')),
            (''description'', (JStr ''Which occurrence to click if text appears multiple times (1-based). Default: 1''))]))])),
        (''required'', (JArr [JStr ''text'']))])),
      (''annotations'', (JObj [(''readOnlyHint'', (JBool False))]))]),
    (JObj [
      (''name'', (JStr ''wait_for_text'')),
      (''description'', (JStr ''Block until specific text appears on screen via OCR polling. Returns when text is found or timeout is reached.'')),
      (''inputSchema'', (JObj [
        (''type'', (JStr ''object'')),
        (''properties'', (JObj [
          (''text'', (JObj [
            (''type'', (JStr ''string'')),
            (''description'', (JStr ''Text to wait for (case-insensitive substring match)''))])),
          (''timeout_ms'', (JObj [
            (''type'', (JStr ''integer'')),
            (''description'', (JStr ''Maximum wait time in ms. Default: 10000, max: 60000''))])),
          (''interval_ms'', (JObj [(''type'', (JStr ''integer'')), (''description'', (JStr ''Polling interval in ms. Default: 500''))]))])),
        (''required'', (JArr [JStr ''text'']))])),
      (''annotations'', (JObj [(''readOnlyHint'', (JBool True))]))]),
    (JObj [
      (''name'', (JStr ''key_hold'')),
      (''description'', (JStr ''Press and hold a key without releasing it. Use with key_release for modifier+click workflows (e.g. Ctrl+click, Shift+drag).'')),
      (''inputSchema'', (JObj [
        (''type'', (JStr ''object'')),
        (''properties'', (JObj [
          (''key'', (JObj [
            (''type'', (JStr ''string'')),
            (''description'', (JStr (''Key to hold (e.g. '' @ [CHR 0x27] @ ''ctrl'' @ [CHR 0x27] @ '', '' @ [CHR 0x27] @ ''shift'' @ [CHR 0x27] @ '', '' @ [CHR 0x27] @ ''alt'' @ [CHR 0x27] @ '', '' @ [CHR 0x27] @ ''meta'' @ [CHR 0x27] @ '', or any key name from key_press)'')))]))])),
        (''required'', (JArr [JStr ''key'']))])),
      (''annotations'', (JObj [(''readOnlyHint'', (JBool False))]))])]"

definition TOOLS_5 :: "json list" where
  "TOOLS_5 = [
    (JObj [
      (''name'', (JStr ''key_release'')),
      (''description'', (JStr ''Release a previously held key. Must be paired with a prior key_hold call.'')),
      (''inputSchema'', (JObj [
        (''type'', (JStr ''object'')),
        (''properties'', (JObj [
          (''key'', (JObj [(''type'', (JStr ''string'')), (''description'', (JStr ''Key to release (must match a prior key_hold)''))]))])),
        (''required'', (JArr [JStr ''key'']))])),
      (''annotations'', (JObj [(''readOnlyHint'', (JBool False))]))])]"

definition TOOL_LIST :: "json list" where
  "TOOL_LIST = TOOLS_1 @ TOOLS_2 @ TOOLS_3 @ TOOLS_4 @ TOOLS_5"

section \<open>Prompts and resources\<close>

definition PROMPTS :: "json list" where
  "PROMPTS = [
    (JObj [
      (''name'', (JStr ''device_health_check'')),
      (''description'', (JStr ''Check device health: CPU, memory, disk, and connectivity status''))]),
    (JObj [
      (''name'', (JStr ''automate_ui_task'')),
      (''description'', (JStr ''Step-by-step UI automation using screenshot, find, click, and verify pattern''))]),
    (JObj [
      (''name'', (JStr ''monitor_screen'')),
      (''description'', (JStr ''Watch a screen region for changes and report when something happens''))]),
    (JObj [
      (''name'', (JStr ''connect_and_verify'')),
      (''description'', (JStr ''Connect to a remote peer and verify the session is working properly''))]),
    (JObj [
      (''name'', (JStr ''diagnose_connection'')),
      (''description'', (JStr ''Diagnose why a remote connection is failing or performing poorly''))]),
    (JObj [
      (''name'', (JStr ''file_operations'')),
      (''description'', (JStr ''Transfer and manage files between local and remote devices''))]),
    (JObj [
      (''name'', (JStr ''run_maintenance'')),
      (''description'', (JStr ''Run standard maintenance tasks: clear temp files, check updates, restart services''))]),
    (JObj [
      (''name'', (JStr ''screen_interaction'')),
      (''description'', (JStr (''Best practice pattern for screen interaction: screenshot '' @ [CHR 0xE2, CHR 0x86, CHR 0x92] @ '' identify '' @ [CHR 0xE2, CHR 0x86, CHR 0x92] @ '' click '' @ [CHR 0xE2, CHR 0x86, CHR 0x92] @ '' verify'')))]),
    (JObj [
      (''name'', (JStr ''batch_device_check'')),
      (''description'', (JStr ''Check status of multiple devices via dashboard API''))])]"

definition PROMPT_TEXTS :: "(string \<times> string) list" where
  "PROMPT_TEXTS = [
    (''device_health_check'', (''Check this device'' @ [CHR 0x27] @ ''s health. Use get_device_info for basic status, then exec_operation with '' @ [CHR 0x27] @ ''get_system_info'' @ [CHR 0x27] @ '' for CPU/memory, '' @ [CHR 0x27] @ ''disk_usage'' @ [CHR 0x27] @ '' for storage, and '' @ [CHR 0x27] @ ''network_info'' @ [CHR 0x27] @ '' for connectivity. Summarize any issues found.'')),
    (''automate_ui_task'', (''To automate a UI task: 1) Take a screenshot to understand the current state. 2) Identify the target element'' @ [CHR 0x27] @ ''s coordinates. 3) Use mouse_click or type_text to interact. 4) Use verify_action_result to confirm the action worked. 5) Repeat for each step. Use wait_for_screen_change between steps to avoid acting too fast.'')),
    (''monitor_screen'', ''Monitor a screen region for changes. Use screen_diff_summary to capture a baseline, then periodically call it again with the reference_id to check for changes. Use wait_for_screen_change for event-driven monitoring with a specific region (x, y, width, height). Report what changed and where.''),
    (''connect_and_verify'', (''Connect to a remote peer: 1) Use list_peers to find the target device. 2) Use connect_to_peer with the peer_id. 3) Use wait_for_event with '' @ [CHR 0x27] @ ''connection_ready'' @ [CHR 0x27] @ '' to wait for video. 4) Use get_ui_state to verify toolbar, quality metrics, and permissions. 5) Take a screenshot to confirm the remote desktop is visible.'')),
    (''diagnose_connection'', (''Diagnose a connection issue: 1) Use get_device_info to check signal server status. 2) Use list_active_connections to see current sessions. 3) Use get_ui_state to check quality metrics (fps, delay, codec). 4) Use exec_operation with '' @ [CHR 0x27] @ ''ping_test'' @ [CHR 0x27] @ '' to check network. 5) Use exec_operation with '' @ [CHR 0x27] @ ''network_info'' @ [CHR 0x27] @ '' for interface details. Report findings and suggest fixes.'')),
    (''file_operations'', (''For file operations: 1) Use list_local_files to browse directories. 2) Use read_local_file to read file contents (max 1MB). 3) For remote file transfer, use connect_to_peer with connection_type '' @ [CHR 0x27] @ ''file-transfer'' @ [CHR 0x27] @ ''. 4) Use get_clipboard/set_clipboard for small text transfers between machines.'')),
    (''run_maintenance'', (''Run maintenance tasks: 1) exec_operation '' @ [CHR 0x27] @ ''get_system_info'' @ [CHR 0x27] @ '' to check current state. 2) exec_operation '' @ [CHR 0x27] @ ''clear_temp_files'' @ [CHR 0x27] @ '' to free disk space. 3) exec_operation '' @ [CHR 0x27] @ ''run_update_check'' @ [CHR 0x27] @ '' to check for updates. 4) exec_operation '' @ [CHR 0x27] @ ''flush_dns'' @ [CHR 0x27] @ '' if having DNS issues. 5) exec_operation '' @ [CHR 0x27] @ ''restart_hoptodesk'' @ [CHR 0x27] @ '' if the service needs a refresh. Report results of each step.'')),
    (''screen_interaction'', ''Best practice for screen interaction: 1) screenshot to see current state. 2) Identify target coordinates from the screenshot. 3) mouse_click or type_text to interact. 4) verify_action_result to confirm something changed. 5) screenshot again if needed. Use scroll to navigate long content. Use mouse_drag for selection or drag-and-drop. Use wait_for_screen_change to wait for animations/loading to complete before taking the next action.''),
    (''batch_device_check'', (''To check multiple devices: 1) Use list_peers to get all known devices. 2) For each device, use connect_to_peer, wait_for_event '' @ [CHR 0x27] @ ''connection_ready'' @ [CHR 0x27] @ '', then exec_operation '' @ [CHR 0x27] @ ''get_system_info'' @ [CHR 0x27] @ ''. 3) disconnect_peer when done. 4) Compile a summary report of all device statuses. For dashboard-enrolled devices, the dashboard API can query device status without connecting.''))]"

definition RESOURCES :: "json list" where
  "RESOURCES = [
    (JObj [
      (''uri'', (JStr ''hoptodesk://device/info'')),
      (''name'', (JStr ''Device Info'')),
      (''description'', (JStr ''Device ID, version, platform, hostname, and signal server status'')),
      (''mimeType'', (JStr ''application/json''))]),
    (JObj [
      (''uri'', (JStr ''hoptodesk://device/config'')),
      (''name'', (JStr ''Device Configuration'')),
      (''description'', (JStr ''HopToDesk configuration: device ID, dashboard enrollment, options'')),
      (''mimeType'', (JStr ''application/json''))]),
    (JObj [
      (''uri'', (JStr ''hoptodesk://device/peers'')),
      (''name'', (JStr ''Known Peers'')),
      (''description'', (JStr ''List of known peers from recent sessions, favorites, and LAN discovery'')),
      (''mimeType'', (JStr ''application/json''))]),
    (JObj [
      (''uri'', (JStr ''hoptodesk://device/connections'')),
      (''name'', (JStr ''Active Connections'')),
      (''description'', (JStr ''Currently active remote desktop connections'')),
      (''mimeType'', (JStr ''application/json''))])]"

section \<open>Reading the catalogue\<close>

definition tool_name :: "json \<Rightarrow> string" where
  "tool_name t = get_or_else (as_str (field t ''name'')) []"

text \<open>The arguments that the schema of a tool requires.\<close>

definition required_args :: "json \<Rightarrow> string list" where
  "required_args t = List.map_filter as_str (get_or_else (as_array (field (field t ''inputSchema'') ''required'')) [])"

end
