(* ===== verification/Mcp_Server.thy ===== *)
theory Mcp_Server
  imports Mcp_Tools Mcp_Catalogue
begin

text \<open>
  The automation server (\<open>src/mcp_server.rs\<close>): the dispatch of the tools, recording and replaying of calls,
  the requests of the protocol, and the three ways they arrive: standard input, a TCP connection and a
  websocket, of which the last two want a token first.
\<close>

section \<open>Calling a tool\<close>

type_synonym 'w tool = "json \<Rightarrow> 'w mcp \<Rightarrow> (answer \<times> 'w mcp) option"

text \<open>
  The dispatch. The connection manager's list of clients (\<open>incoming\<close>) is a parameter; replaying is passed in,
  since it calls tools itself.
\<close>

definition tools :: "('w, 'z) mcp_env_scheme \<Rightarrow> ('w \<Rightarrow> string + json list) \<Rightarrow> 'w tool \<Rightarrow> (string \<times> 'w tool) list" where
  "tools E incoming replay =
    [(''screenshot'', \<lambda>a s. Some (tool_screenshot E a s)),
     (''get_window_list'', \<lambda>_ s. tool_get_window_list E s),
     (''mouse_click'', \<lambda>a s. Some (tool_mouse_click E a s)),
     (''type_text'', \<lambda>a s. Some (tool_type_text E a s)),
     (''key_press'', \<lambda>a s. Some (tool_key_press E a s)),
     (''mouse_move'', \<lambda>a s. Some (tool_mouse_move E a s)),
     (''get_device_info'', \<lambda>_ s. Some (tool_get_device_info E s)),
     (''list_peers'', \<lambda>a s. Some (tool_list_peers E a s)),
     (''connect_to_peer'', \<lambda>a s. Some (tool_connect_to_peer E a s)),
     (''disconnect_peer'', \<lambda>a s. Some (tool_disconnect_peer a s)),
     (''list_active_connections'', \<lambda>_ s. tool_list_active_connections E s),
     (''get_ui_state'', tool_get_ui_state E),
     (''dismiss_dialog'', \<lambda>a s. Some (tool_dismiss_dialog E a s)),
     (''click_toolbar_button'', \<lambda>a s. Some (tool_click_toolbar_button E a s)),
     (''set_remote_printer'', \<lambda>_ s. Some (Bad ''set_remote_printer is only available on Windows'', s)),
     (''test_print'', \<lambda>_ s. Some (Bad ''test_print is only available on Windows'', s)),
     (''wait_for_event'', tool_wait_for_event E),
     (''exec_operation'', tool_exec_operation E),
     (''get_clipboard'', \<lambda>_ s. Some (tool_get_clipboard E s)),
     (''set_clipboard'', \<lambda>a s. Some (tool_set_clipboard E a s)),
     (''send_chat_message'', \<lambda>a s. Some (tool_send_chat_message E a s)),
     (''switch_permission'', \<lambda>a s. Some (tool_switch_permission E a s)),
     (''list_incoming_connections'', \<lambda>_ s. Some (case incoming (world s) of
        Inl e \<Rightarrow> (Bad (''Lock failed: '' @ e), s) | Inr vs \<Rightarrow> (Good (text_content (pretty E (JArr vs))), s))),
     (''list_local_files'', \<lambda>a s. Some (tool_list_local_files E a s)),
     (''read_local_file'', \<lambda>a s. Some (tool_read_local_file E a s)),
     (''run_command'', \<lambda>a s. Some (tool_run_command E a s)),
     (''scroll'', \<lambda>a s. Some (tool_scroll E a s)),
     (''mouse_drag'', \<lambda>a s. Some (tool_mouse_drag E a s)),
     (''wait_for_screen_change'', tool_wait_for_screen_change E),
     (''screen_diff_summary'', \<lambda>a s. Some (tool_screen_diff_summary E a s)),
     (''verify_action_result'', tool_verify_action_result E),
     (''start_recording'', \<lambda>_ s. Some (tool_start_recording E s)),
     (''stop_recording'', \<lambda>_ s. Some (tool_stop_recording E s)),
     (''replay_workflow'', replay),
     (''read_screen_text'', \<lambda>a s. Some (tool_read_screen_text E a s)),
     (''get_screen_size'', \<lambda>_ s. Some (tool_get_screen_size E s)),
     (''find_element'', \<lambda>a s. Some (tool_find_element E a s)),
     (''click_text'', \<lambda>a s. Some (tool_click_text E a s)),
     (''wait_for_text'', tool_wait_for_text E),
     (''key_hold'', \<lambda>a s. Some (tool_key_hold E a s)),
     (''key_release'', \<lambda>a s. Some (tool_key_release E a s))]"

definition dispatch :: "('w, 'z) mcp_env_scheme \<Rightarrow> ('w \<Rightarrow> string + json list) \<Rightarrow> 'w tool \<Rightarrow> string \<Rightarrow> 'w tool" where
  "dispatch E incoming replay name args s =
    (case map_of (tools E incoming replay) name of Some f \<Rightarrow> f args s | None \<Rightarrow> Some (Bad (''Unknown tool: '' @ name), s))"

definition NOT_RECORDED :: "string list" where
  "NOT_RECORDED = [''start_recording'', ''stop_recording'', ''replay_workflow'']"

text \<open>The milliseconds since the start of the recording, as an unsigned number of 64 bits.\<close>

definition record_step :: "('w, 'z) mcp_env_scheme \<Rightarrow> string \<Rightarrow> json \<Rightarrow> 'w mcp \<Rightarrow> 'w mcp" where
  "record_step E name args s =
    (if name \<notin> set NOT_RECORDED \<and> is_recording s
     then s\<lparr>wf_steps := wf_steps s @ [(name, args, (case rec_start s of Some t \<Rightarrow> (clock E s - t) mod 2 ^ 64 | None \<Rightarrow> 0))]\<rparr>
     else s)"

definition call_response :: "answer \<Rightarrow> json option" where
  "call_response r =
    (case r of
       Good content \<Rightarrow> Some (JObj [(''jsonrpc'', JStr ''2.0''), (''result'', JObj [(''content'', content)])])
     | Bad msg \<Rightarrow> Some (JObj [(''jsonrpc'', JStr ''2.0''),
         (''result'', JObj [(''content'', text_content (''Error: '' @ msg)), (''isError'', JBool True)])])
     | Panicked \<Rightarrow> None)"

text \<open>The response of a call is \<^const>\<open>None\<close> when the thread panics; then nothing is recorded either.\<close>

definition tools_call ::
  "('w, 'z) mcp_env_scheme \<Rightarrow> ('w \<Rightarrow> string + json list) \<Rightarrow> 'w tool \<Rightarrow> json \<Rightarrow> 'w mcp \<Rightarrow> (json option \<times> 'w mcp) option" where
  "tools_call E incoming replay request s =
    (let name = get_or_else (as_str (field (field request ''params'') ''name'')) [];
         args = field (field request ''params'') ''arguments''
     in map_option (\<lambda>(r, s). (call_response r, if r = Panicked then s else record_step E name args s))
          (dispatch E incoming replay name args s))"

section \<open>Replaying\<close>

text \<open>What a replayed call is given for replaying; the loop below never calls it.\<close>

definition no_replay :: "'w tool" where
  "no_replay args s = Some (Bad [], s)"

definition step_delay :: "rat \<Rightarrow> nat \<Rightarrow> json \<Rightarrow> nat" where
  "step_delay multiplier i step =
    (let delay = get_or_else (as_u64 (field step ''delay_ms'')) 0
     in if i > 0 \<and> delay > 0 \<and> multiplier > 0 then nat (min (2 ^ 64 - 1) \<lfloor>f64 (f64 (of_nat delay) * multiplier)\<rfloor>) else 0)"

definition is_error :: "json \<Rightarrow> bool" where
  "is_error response = get_or_else (as_bool (field (field response ''result'') ''isError'')) False"

primrec replay_steps ::
  "('w, 'z) mcp_env_scheme \<Rightarrow> ('w \<Rightarrow> string + json list) \<Rightarrow> rat \<Rightarrow> nat \<Rightarrow> json list \<Rightarrow> json list \<Rightarrow> 'w mcp \<Rightarrow> (json list option \<times> 'w mcp) option" where
  "replay_steps E incoming multiplier i [] results s = Some (Some results, s)"
| "replay_steps E incoming multiplier i (step # steps) results s =
    (let name = get_or_else (as_str (field step ''tool_name'')) []
     in if name \<in> set NOT_RECORDED then replay_steps E incoming multiplier (i + 1) steps results s
        else
          let d = step_delay multiplier i step;
              s = (if d > 0 then pause E d s else s);
              request = JObj [(''params'', JObj [(''name'', JStr name), (''arguments'', field step ''arguments'')])]
          in (case tools_call E incoming no_replay request s of
                None \<Rightarrow> None
              | Some (None, s) \<Rightarrow> Some (None, s)
              | Some (Some response, s) \<Rightarrow>
                  replay_steps E incoming multiplier (i + 1) steps
                    (results @ [JObj [(''step'', JInt (int i)), (''tool_name'', JStr name), (''success'', JBool (\<not> is_error response))]]) s))"

definition tool_replay_workflow :: "('w, 'z) mcp_env_scheme \<Rightarrow> ('w \<Rightarrow> string + json list) \<Rightarrow> 'w tool" where
  "tool_replay_workflow E incoming args s =
    (case as_array (field args ''steps'') of
       None \<Rightarrow> Some (Bad ''steps array is required'', s)
     | Some steps \<Rightarrow>
         map_option (\<lambda>(r, s). case r of
             None \<Rightarrow> (Panicked, s)
           | Some results \<Rightarrow> report E [(''replayed'', JInt (int (length results))), (''results'', JArr results)] s)
           (replay_steps E incoming (get_or_else (as_f64 (field args ''delay_multiplier'')) 1) 0 steps [] s))"

definition handle_tools_call ::
  "('w, 'z) mcp_env_scheme \<Rightarrow> ('w \<Rightarrow> string + json list) \<Rightarrow> json \<Rightarrow> 'w mcp \<Rightarrow> (json option \<times> 'w mcp) option" where
  "handle_tools_call E incoming = tools_call E incoming (tool_replay_workflow E incoming)"

section \<open>The other requests\<close>

definition SERVER_NAME :: string where "SERVER_NAME = ''hoptodesk-mcp''"
definition PROTOCOL_VERSION :: string where "PROTOCOL_VERSION = ''2024-11-05''"

definition result_of :: "(string \<times> json) list \<Rightarrow> json" where
  "result_of kvs = JObj [(''jsonrpc'', JStr ''2.0''), (''result'', JObj kvs)]"

definition error_of :: "int \<Rightarrow> string \<Rightarrow> json" where
  "error_of code msg = JObj [(''jsonrpc'', JStr ''2.0''), (''error'', JObj [(''code'', JInt code), (''message'', JStr msg)])]"

definition handle_initialize :: "('w, 'z) mcp_env_scheme \<Rightarrow> json" where
  "handle_initialize E = result_of
    [(''protocolVersion'', JStr PROTOCOL_VERSION),
     (''capabilities'', JObj [(''tools'', JObj []), (''prompts'', JObj []), (''resources'', JObj []),
        (''roots'', JObj [(''listChanged'', JBool False)])]),
     (''serverInfo'', JObj [(''name'', JStr SERVER_NAME), (''version'', JStr (pkg_version E))])]"

definition handle_tools_list :: json where
  "handle_tools_list = result_of [(''tools'', JArr TOOL_LIST)]"

definition handle_prompts_list :: json where
  "handle_prompts_list = result_of [(''prompts'', JArr PROMPTS)]"

definition handle_prompts_get :: "json \<Rightarrow> json" where
  "handle_prompts_get request =
    (let name = get_or_else (as_str (field (field request ''params'') ''name'')) []
     in case map_of PROMPT_TEXTS name of
          None \<Rightarrow> error_of (- 32602) (''Unknown prompt: '' @ name)
        | Some t \<Rightarrow> result_of
            [(''description'', JStr (''Prompt: '' @ name)),
             (''messages'', JArr [JObj [(''role'', JStr ''user''), (''content'', JObj [(''type'', JStr ''text''), (''text'', JStr t)])]])])"

definition handle_resources_list :: json where
  "handle_resources_list = result_of [(''resources'', JArr RESOURCES)]"

definition contents_of :: "string \<Rightarrow> string \<Rightarrow> json" where
  "contents_of uri t = result_of [(''contents'', JArr [JObj [(''uri'', JStr uri), (''mimeType'', JStr ''application/json''), (''text'', JStr t)]])]"

definition config_value :: "('w, 'z) mcp_env_scheme \<Rightarrow> string \<Rightarrow> string \<Rightarrow> json" where
  "config_value E i user =
    JObj [(''device_id'', JStr i), (''dashboard_user_id'', if user = [] then JNull else JStr user),
          (''config_directory'', JStr (config_dir E)), (''version'', JStr (pkg_version E)), (''platform'', JStr ''freebsd'')]"

definition handle_resources_read :: "('w, 'z) mcp_env_scheme \<Rightarrow> json \<Rightarrow> 'w mcp \<Rightarrow> (json \<times> 'w mcp) option" where
  "handle_resources_read E request s =
    (let uri = get_or_else (as_str (field (field request ''params'') ''uri'')) []
     in if uri = ''hoptodesk://device/info'' then
          (let (info, s) = device_info E s in Some (contents_of uri (pretty E (JObj info)), s))
        else if uri = ''hoptodesk://device/config'' then
          (let (i, c) = get_id E (mcp_cfg s); s = s\<lparr>mcp_cfg := c\<rparr>
           in Some (contents_of uri (pretty E (config_value E i (get_option (mcp_cfg s) ''dashboard_user_id''))), s))
        else if uri = ''hoptodesk://device/peers'' then
          (let (ps, s) = known_peers E s in Some (contents_of uri (pretty E (JArr (map (peer_value E False) ps))), s))
        else if uri = ''hoptodesk://device/connections'' then
          map_option (\<lambda>(vs, s). (contents_of uri (pretty E (JArr vs)), s)) (connection_values E (list_active_connections (ui s)) s)
        else Some (error_of (- 32602) (''Unknown resource URI: '' @ uri), s))"

definition root_value :: "string \<Rightarrow> string \<Rightarrow> json" where
  "root_value path name = JObj [(''uri'', JStr (''file://'' @ path)), (''name'', JStr name)]"

definition handle_roots_list :: "('w, 'z) mcp_env_scheme \<Rightarrow> json" where
  "handle_roots_list E = result_of [(''roots'', JArr
    ((case home_dir E of Some h \<Rightarrow> [root_value h ''Home Directory''] | None \<Rightarrow> [])
     @ [root_value (config_dir E) ''HopToDesk Config'', root_value (temp_dir E) ''Temp Directory'']))]"

section \<open>Requests\<close>

datatype line_result = NoReply | Reply string | ThreadPanics

definition handle_request ::
  "('w, 'z) mcp_env_scheme \<Rightarrow> ('w \<Rightarrow> string + json list) \<Rightarrow> json \<Rightarrow> json \<Rightarrow> 'w mcp \<Rightarrow> (json option \<times> 'w mcp) option" where
  "handle_request E incoming request i s =
    (let meth = get_or_else (as_str (field request ''method'')) []
     in if meth = ''initialize'' then Some (Some (handle_initialize E), s)
        else if meth = ''tools/list'' then Some (Some handle_tools_list, s)
        else if meth = ''tools/call'' then handle_tools_call E incoming request s
        else if meth = ''prompts/list'' then Some (Some handle_prompts_list, s)
        else if meth = ''prompts/get'' then Some (Some (handle_prompts_get request), s)
        else if meth = ''resources/list'' then Some (Some handle_resources_list, s)
        else if meth = ''resources/read'' then map_option (\<lambda>(v, s). (Some v, s)) (handle_resources_read E request s)
        else if meth = ''roots/list'' then Some (Some (handle_roots_list E), s)
        else if meth = ''ping'' then Some (Some (JObj [(''jsonrpc'', JStr ''2.0''), (''id'', i), (''result'', JObj [])]), s)
        else Some (Some (JObj [(''jsonrpc'', JStr ''2.0''), (''id'', i),
               (''error'', JObj [(''code'', JInt (- 32601)), (''message'', JStr (''Unknown method: '' @ meth))])]), s))"

text \<open>A request without an id is a notification: it is not answered, and not carried out either.\<close>

definition process_line ::
  "('w, 'z) mcp_env_scheme \<Rightarrow> ('w \<Rightarrow> string + json list) \<Rightarrow> string \<Rightarrow> 'w mcp \<Rightarrow> (line_result \<times> 'w mcp) option" where
  "process_line E incoming line s =
    (let line = trim_str line
     in if line = [] then Some (NoReply, s)
        else (case parse E line of
                None \<Rightarrow> Some (NoReply, s)
              | Some request \<Rightarrow>
                  (case jget request ''id'' of
                     None \<Rightarrow> Some (NoReply, s)
                   | Some i \<Rightarrow>
                       map_option (\<lambda>(r, s). (case r of Some v \<Rightarrow> Reply (compact E (jset ''id'' i v)) | None \<Rightarrow> ThreadPanics, s))
                         (handle_request E incoming request i s))))"

section \<open>Connections\<close>

definition token_char :: "nat \<Rightarrow> char" where
  "token_char idx = char_of (if idx \<le> 9 then 48 + idx else if idx \<le> 35 then 97 + idx - 10 else 65 + idx - 36)"

text \<open>The token, from 32 random numbers below 62.\<close>

definition generate_auth_token :: "nat list \<Rightarrow> string" where
  "generate_auth_token idxs = map token_char idxs"

definition AUTHENTICATED :: string where
  "AUTHENTICATED = ''{'' @ [CHR 0x22] @ ''authenticated'' @ [CHR 0x22] @ '':true}''"

definition AUTH_FAILED :: string where
  "AUTH_FAILED = ''{'' @ [CHR 0x22] @ ''error'' @ [CHR 0x22] @ '':'' @ [CHR 0x22] @ ''authentication failed'' @ [CHR 0x22] @ ''}''"

definition presents :: "('w, 'z) mcp_env_scheme \<Rightarrow> string \<Rightarrow> string \<Rightarrow> bool" where
  "presents E token text \<longleftrightarrow> (case parse E text of Some v \<Rightarrow> as_str (field v ''auth'') = Some token | None \<Rightarrow> False)"

text \<open>
  The lines of a TCP connection and the lines sent back, until the connection ends or the thread panics; with
  \<open>authenticated\<close> from the start, the lines of the standard input.
\<close>

fun serve_lines ::
  "('w, 'z) mcp_env_scheme \<Rightarrow> ('w \<Rightarrow> string + json list) \<Rightarrow> string \<Rightarrow> bool \<Rightarrow> string list \<Rightarrow> 'w mcp \<Rightarrow> (string list \<times> 'w mcp) option" where
  "serve_lines E incoming token authenticated [] s = Some ([], s)"
| "serve_lines E incoming token False (l # ls) s =
    (if presents E token l then map_option (\<lambda>(out, s). (AUTHENTICATED # out, s)) (serve_lines E incoming token True ls s)
     else Some ([AUTH_FAILED], s))"
| "serve_lines E incoming token True (l # ls) s =
    (case process_line E incoming l s of
       None \<Rightarrow> None
     | Some (NoReply, s) \<Rightarrow> serve_lines E incoming token True ls s
     | Some (Reply r, s) \<Rightarrow> map_option (\<lambda>(out, s). (r # out, s)) (serve_lines E incoming token True ls s)
     | Some (ThreadPanics, s) \<Rightarrow> Some ([], s))"

datatype ws_message = WsText string | WsClose | WsPing bytes | WsOther
datatype ws_answer = SendText string | SendPong bytes

text \<open>The messages of a websocket; a ping is answered before the token as well.\<close>

fun serve_messages ::
  "('w, 'z) mcp_env_scheme \<Rightarrow> ('w \<Rightarrow> string + json list) \<Rightarrow> string \<Rightarrow> bool \<Rightarrow> ws_message list \<Rightarrow> 'w mcp \<Rightarrow> (ws_answer list \<times> 'w mcp) option" where
  "serve_messages E incoming token authenticated [] s = Some ([], s)"
| "serve_messages E incoming token authenticated (WsClose # ms) s = Some ([], s)"
| "serve_messages E incoming token authenticated (WsPing d # ms) s =
    map_option (\<lambda>(out, s). (SendPong d # out, s)) (serve_messages E incoming token authenticated ms s)"
| "serve_messages E incoming token authenticated (WsOther # ms) s = serve_messages E incoming token authenticated ms s"
| "serve_messages E incoming token False (WsText t # ms) s =
    (if presents E token t
     then map_option (\<lambda>(out, s). (SendText AUTHENTICATED # out, s)) (serve_messages E incoming token True ms s)
     else Some ([SendText AUTH_FAILED], s))"
| "serve_messages E incoming token True (WsText t # ms) s =
    (case process_line E incoming t s of
       None \<Rightarrow> None
     | Some (NoReply, s) \<Rightarrow> serve_messages E incoming token True ms s
     | Some (Reply r, s) \<Rightarrow> map_option (\<lambda>(out, s). (SendText r # out, s)) (serve_messages E incoming token True ms s)
     | Some (ThreadPanics, s) \<Rightarrow> Some ([], s))"

end
