(* ===== verification/Mcp_Runs.thy ===== *)
theory Mcp_Runs
  imports Mcp_Server "HOL-Library.Multiset"
begin

text \<open>
  The runs of the automation server: a step relation that covers everything the tools do, the proof that each
  tool is a sequence of steps, and what holds of all runs: commands need the enrollment with a dashboard, the
  history of actions only grows, and no step turns the clock back.
\<close>

section \<open>Steps\<close>

text \<open>
  What a device does that is not enrolled: of processes, it starts the listing of the windows and the program
  itself, with the arguments of a session; other commands are started by enrolled devices only. The recording
  changes in a step only where \<open>rc\<close> allows it.
\<close>

definition session_args :: "string list \<Rightarrow> bool" where
  "session_args args \<longleftrightarrow>
    (case args of
       [t, _] \<Rightarrow> t \<in> set (map ((@) ''--'') CONNECTION_TYPES)
     | [t, _, p, _] \<Rightarrow> t \<in> set (map ((@) ''--'') CONNECTION_TYPES) \<and> p = ''--password''
     | _ \<Rightarrow> False)"

definition harmless :: "action \<Rightarrow> bool" where
  "harmless a \<longleftrightarrow>
    (case a of
       Spawn cmd args \<Rightarrow> cmd = ''wmctrl'' \<and> args = [''-lG'']
     | SpawnSelf args \<Rightarrow> session_args args
     | _ \<Rightarrow> True)"

inductive mstep :: "('w, 'z) mcp_env_scheme \<Rightarrow> bool \<Rightarrow> 'w mcp \<Rightarrow> 'w mcp \<Rightarrow> bool" for E rc where
  Act: "harmless a \<or> enrolled s \<Longrightarrow> mstep E rc s (act E a s)"
| Pause: "mstep E rc s (pause E d s)"
| Displays: "mstep E rc s (s\<lparr>world := snd (all_displays E (world s))\<rparr>)"
| Capturer: "mstep E rc s (s\<lparr>world := snd (new_capturer E i (world s))\<rparr>)"
| Frame: "mstep E rc s (s\<lparr>world := snd (next_frame E i (world s))\<rparr>)"
| Output: "command_output E cmd args (world s) = Some (r, w) \<Longrightarrow> mstep E rc s (s\<lparr>world := w\<rparr>)"
| TimedOutput: "mstep E rc s (s\<lparr>world := snd (timed_output E n cmd args (world s))\<rparr>)"
| DropState: "mstep E rc s (s\<lparr>world := drop_state_file E peer (world s)\<rparr>)"
| ReadState: "mstep E rc s (s\<lparr>world := snd (read_state_file E peer (world s))\<rparr>)"
| Ident: "mstep E rc s (s\<lparr>mcp_cfg := (mcp_cfg s)\<lparr>cfg_id := i\<rparr>\<rparr>)"
| Peers: "mstep E rc s (s\<lparr>mcp_peers := st\<rparr>)"
| Window: "mstep E rc s (s\<lparr>ui := u\<rparr>)"
| Refs: "mstep E rc s (s\<lparr>diff_refs := r\<rparr>)"
| Recording: "rc \<Longrightarrow> mstep E rc s (s\<lparr>is_recording := b, wf_steps := w, rec_start := t\<rparr>)"
| Steps: "rc \<Longrightarrow> mstep E rc s (s\<lparr>wf_steps := w\<rparr>)"

definition reach :: "('w, 'z) mcp_env_scheme \<Rightarrow> bool \<Rightarrow> 'w mcp \<Rightarrow> 'w mcp \<Rightarrow> bool" where
  "reach E rc = (mstep E rc)\<^sup>*\<^sup>*"

named_theorems reach_intros "a tool is a sequence of steps"

lemma reach_refl [reach_intros]: "reach E rc s s"
  by (simp add: reach_def)

lemma reach_trans: "reach E rc s t \<Longrightarrow> reach E rc t u \<Longrightarrow> reach E rc s u"
  by (simp add: reach_def)

lemma reach_step: "reach E rc s t \<Longrightarrow> mstep E rc t u \<Longrightarrow> reach E rc s u"
  by (simp add: reach_def)

lemma reach_act [reach_intros]: "reach E rc s t \<Longrightarrow> harmless a \<Longrightarrow> reach E rc s (act E a t)"
  by (auto intro: reach_step mstep.intros)

lemma reach_act_enrolled: "reach E rc s t \<Longrightarrow> enrolled t \<Longrightarrow> reach E rc s (act E a t)"
  by (auto intro: reach_step mstep.intros)

lemma reach_pause [reach_intros]: "reach E rc s t \<Longrightarrow> reach E rc s (pause E d t)"
  by (auto intro: reach_step mstep.intros)

lemma reach_updates [reach_intros]:
  "reach E rc s t \<Longrightarrow> reach E rc s (t\<lparr>mcp_cfg := (mcp_cfg t)\<lparr>cfg_id := i\<rparr>\<rparr>)"
  "reach E rc s t \<Longrightarrow> reach E rc s (t\<lparr>mcp_peers := st\<rparr>)"
  "reach E rc s t \<Longrightarrow> reach E rc s (t\<lparr>ui := u\<rparr>)"
  "reach E rc s t \<Longrightarrow> reach E rc s (t\<lparr>diff_refs := r\<rparr>)"
  "rc \<Longrightarrow> reach E rc s t \<Longrightarrow> reach E rc s (t\<lparr>is_recording := b, wf_steps := w, rec_start := x\<rparr>)"
  "rc \<Longrightarrow> reach E rc s t \<Longrightarrow> reach E rc s (t\<lparr>wf_steps := w\<rparr>)"
  "reach E rc s t \<Longrightarrow> reach E rc s (t\<lparr>world := drop_state_file E peer (world t)\<rparr>)"
  by (auto intro: reach_step mstep.intros)

text \<open>The answers of the machine, given as equations.\<close>

lemma reach_answers:
  "all_displays E (world t) = (r1, w) \<Longrightarrow> reach E rc s t \<Longrightarrow> reach E rc s (t\<lparr>world := w\<rparr>)"
  "new_capturer E i (world t) = (r2, w) \<Longrightarrow> reach E rc s t \<Longrightarrow> reach E rc s (t\<lparr>world := w\<rparr>)"
  "next_frame E i (world t) = (r3, w) \<Longrightarrow> reach E rc s t \<Longrightarrow> reach E rc s (t\<lparr>world := w\<rparr>)"
  "command_output E cmd args (world t) = Some (r4, w) \<Longrightarrow> reach E rc s t \<Longrightarrow> reach E rc s (t\<lparr>world := w\<rparr>)"
  "timed_output E n cmd args (world t) = (r5, w) \<Longrightarrow> reach E rc s t \<Longrightarrow> reach E rc s (t\<lparr>world := w\<rparr>)"
  "read_state_file E peer (world t) = (r6, w) \<Longrightarrow> reach E rc s t \<Longrightarrow> reach E rc s (t\<lparr>world := w\<rparr>)"
  by (metis reach_step mstep.intros(3-7,9) snd_conv)+

lemma harmless_simps [simp]:
  "harmless (MouseMove x y)" "harmless (MouseClick b)" "harmless (MouseDown b)" "harmless (MouseUp b)"
  "harmless (ScrollX n)" "harmless (ScrollY n)" "harmless (KeySequence t)" "harmless (KeyDown k)" "harmless (KeyUp k)"
  "harmless (KeyClick k)" "harmless (SetClipboard t)" "harmless (SwitchPermission i p on)"
  "harmless (Spawn cmd args) \<longleftrightarrow> cmd = ''wmctrl'' \<and> args = [''-lG'']" "harmless (SpawnSelf args) \<longleftrightarrow> session_args args"
  by (simp_all add: harmless_def)

section \<open>Captures\<close>

lemma reach_grab: "reach E rc s (t\<lparr>world := w\<rparr>) \<Longrightarrow> reach E rc s (t\<lparr>world := snd (grab E i n w)\<rparr>)"
proof (induction n arbitrary: w)
  case (Suc n)
  obtain f w' where f: "next_frame E i w = (f, w')" by fastforce
  have r: "reach E rc s (t\<lparr>world := w'\<rparr>)"
    using reach_answers(3)[of E i "t\<lparr>world := w\<rparr>" f w' rc s] f Suc.prems by simp
  have "reach E rc s (t\<lparr>world := sleep_ms E 100 w'\<rparr>)"
    using reach_pause[OF r, of 100] by (simp add: pause_def)
  then show ?case using r Suc.IH by (cases f) (simp_all add: f)
qed simp

lemma reach_capture_rgba: "reach E rc s t \<Longrightarrow> reach E rc s (t\<lparr>world := snd (capture_rgba E region (world t))\<rparr>)"
proof -
  assume that: "reach E rc s t"
  obtain ds w1 where d: "all_displays E (world t) = (ds, w1)" by fastforce
  have r1: "reach E rc s (t\<lparr>world := w1\<rparr>)" using reach_answers(1)[OF d that] .
  obtain c w2 where c: "new_capturer E 0 w1 = (c, w2)" by fastforce
  have r2: "reach E rc s (t\<lparr>world := w2\<rparr>)" using reach_answers(2)[of E 0 "t\<lparr>world := w1\<rparr>" c w2 rc s] c r1 by simp
  obtain g w3 where g: "grab E 0 30 w2 = (g, w3)" by fastforce
  have r3: "reach E rc s (t\<lparr>world := w3\<rparr>)" using reach_grab[OF r2, of 0 30] g by simp
  show ?thesis using r1 r2 r3
    by (auto simp: capture_rgba_def d c g Let_def split: sum.splits list.splits option.splits prod.splits frame_answer.splits)
qed

lemma reach_capture: "capture E region t = (r, t') \<Longrightarrow> reach E rc s t \<Longrightarrow> reach E rc s t'"
  using reach_capture_rgba[of E rc s t region] by (auto simp: capture_def split: prod.splits)

section \<open>Waiting\<close>

text \<open>What every round keeps, the whole loop keeps.\<close>

lemma poll_keeps:
  assumes "poll clk t0 limit body t = Some y" and "\<And>t r t'. P t \<Longrightarrow> body t = Some (r, t') \<Longrightarrow> P t'" and "P t"
  shows "P (snd y)"
proof -
  have "(\<forall>t r t'. P t \<longrightarrow> body t = Some (r, t') \<longrightarrow> P t') \<longrightarrow> P t \<longrightarrow> P (snd y)"
  proof (rule poll.raw_induct[where P = "\<lambda>clk t0 limit body t y. (\<forall>t r t'. P t \<longrightarrow> body t = Some (r, t') \<longrightarrow> P t') \<longrightarrow> P t \<longrightarrow> P (snd y)", OF _ assms(1)], goal_cases)
    case (1 poll' clk t0 limit body t y)
    show ?case
    proof (intro impI)
      assume keep: "\<forall>t r t'. P t \<longrightarrow> body t = Some (r, t') \<longrightarrow> P t'" and t: "P t"
      show "P (snd y)"
      proof (cases "limit \<le> clk t - t0")
        case True
        then show ?thesis using 1(2) t by auto
      next
        case False
        then obtain r t' where b: "body t = Some (r, t')" using 1(2) by (cases "body t") auto
        have t': "P t'" using keep t b by blast
        show ?thesis
        proof (cases r)
          case None
          then have "poll' clk t0 limit body t' = Some y" using 1(2) False b by simp
          then show ?thesis using 1(1) keep t' by blast
        next
          case (Some x)
          then show ?thesis using 1(2) False b t' by auto
        qed
      qed
    qed
  qed
  then show ?thesis using assms(2,3) by blast
qed

lemma reach_fold [reach_intros]:
  "(\<And>x t. reach E rc s t \<Longrightarrow> reach E rc s (f x t)) \<Longrightarrow> reach E rc s t \<Longrightarrow> reach E rc s (fold f xs t)"
  by (induction xs arbitrary: t) auto

section \<open>The tools are sequences of steps\<close>

lemma reach_say [simp]: "snd (say m t) = t" "fst (say m t) = Good (text_content m)"
  by (simp_all add: say_def)

lemma reach_report [simp]: "snd (report E kvs t) = t"
  by (simp add: report_def)

lemmas input_tools =
  tool_mouse_click_def tool_mouse_move_def tool_type_text_def tool_key_press_def tool_key_hold_def tool_key_release_def
  tool_scroll_def tool_mouse_drag_def

lemma reach_input_tools:
  "reach E rc s (snd (tool_mouse_click E args s))"
  "reach E rc s (snd (tool_mouse_move E args s))"
  "reach E rc s (snd (tool_type_text E args s))"
  "reach E rc s (snd (tool_key_press E args s))"
  "reach E rc s (snd (tool_key_hold E args s))"
  "reach E rc s (snd (tool_key_release E args s))"
  "reach E rc s (snd (tool_scroll E args s))"
  "reach E rc s (snd (tool_mouse_drag E args s))"
  unfolding input_tools Let_def
  by (auto intro!: reach_intros split: option.split sum.split prod.split list.split)

lemma reach_get_id: "get_id E (mcp_cfg t) = (i, c) \<Longrightarrow> reach E rc s t \<Longrightarrow> reach E rc s (t\<lparr>mcp_cfg := c\<rparr>)"
  using reach_updates(1)[of E rc s t] by (auto simp: get_id_def split: if_splits option.splits)

lemma reach_known_peers: "known_peers E t = (ps, t') \<Longrightarrow> reach E rc s t \<Longrightarrow> reach E rc s t'"
  by (auto simp: known_peers_def split: prod.splits intro: reach_intros)

lemma reach_device_info: "device_info E t = (info, t') \<Longrightarrow> reach E rc s t \<Longrightarrow> reach E rc s t'"
  by (auto simp: device_info_def Let_def split: prod.splits intro: reach_get_id)

lemma reach_command_child: "command_child E peer cmd t = (ok, t') \<Longrightarrow> reach E rc s t \<Longrightarrow> reach E rc s t'"
  by (auto simp: command_child_def split: prod.splits intro: reach_intros)

lemma reach_info_tools:
  "reach E rc s (snd (tool_get_device_info E s))"
  "reach E rc s (snd (tool_list_peers E args s))"
  by (auto simp: tool_get_device_info_def tool_list_peers_def Let_def split: prod.split
      intro: reach_device_info reach_known_peers reach_intros)

text \<open>A new session is started with the arguments of a session, or not at all.\<close>

lemma new_remote_spawned:
  "kind \<in> set CONNECTION_TYPES \<Longrightarrow> \<exists>started. spawned (new_remote X peer kind False None pw u) = spawned u @ started \<and> list_all session_args started"
  by (auto simp: new_remote_def remote_args_def session_args_def Let_def CONNECTION_TYPES_def split: option.split)

lemma reach_started: "list_all session_args started \<Longrightarrow> reach E rc s t \<Longrightarrow> reach E rc s (fold (\<lambda>a. act E (SpawnSelf a)) started t)"
  by (induction started arbitrary: t) (simp_all add: reach_act)

lemma reach_connect: "reach E rc s (snd (tool_connect_to_peer E args s))"
proof (cases "as_str (field args ''peer_id'')")
  case (Some peer)
  define kind where "kind = get_or_else (as_str (field args ''connection_type'')) ''connect''"
  define u where "u = new_remote (window_env E (world s)) peer kind False None (as_str (field args ''password'')) (ui s)"
  show ?thesis
  proof (cases "kind \<in> set CONNECTION_TYPES")
    case True
    then have "list_all session_args (drop (length (spawned (ui s))) (spawned u))"
      using new_remote_spawned[of kind "window_env E (world s)" peer "as_str (field args ''password'')" "ui s"] by (auto simp: u_def)
    then have "reach E rc s (fold (\<lambda>a. act E (SpawnSelf a)) (drop (length (spawned (ui s))) (spawned u)) (s\<lparr>ui := u\<rparr>))"
      by (rule reach_started) (rule reach_updates(3)[OF reach_refl])
    then show ?thesis
      using True by (simp add: tool_connect_to_peer_def Some Let_def kind_def[symmetric] u_def[symmetric])
  qed (simp add: tool_connect_to_peer_def Some Let_def kind_def[symmetric] reach_refl)
qed (simp add: tool_connect_to_peer_def reach_refl)

lemma reach_window_tools:
  "reach E rc s (snd (tool_disconnect_peer args s))"
  "reach E rc s (snd (tool_dismiss_dialog E args s))"
  "reach E rc s (snd (tool_send_chat_message E args s))"
  "reach E rc s (snd (tool_click_toolbar_button E args s))"
  unfolding tool_disconnect_peer_def tool_dismiss_dialog_def tool_send_chat_message_def
    tool_click_toolbar_button_def Let_def
  by (auto split: option.split prod.split bool.split intro: reach_command_child reach_intros)

lemma reach_read_drop:
  assumes "read_state_file E peer (world t) = (r, w)" and "reach E rc s t"
  shows "reach E rc s (t\<lparr>world := drop_state_file E peer w\<rparr>)"
  using reach_updates(7)[OF reach_answers(6)[OF assms], of peer] by simp

lemma reach_query:
  assumes "query_child_state E peer t = Some (r, t')" and "reach E rc s t"
  shows "reach E rc s t'"
proof -
  define t1 where "t1 = t\<lparr>world := drop_state_file E peer (world t)\<rparr>"
  obtain ok t2 where c: "command_child E peer ''query_state'' t1 = (ok, t2)" by fastforce
  have t2: "reach E rc s t2"
    using reach_command_child[OF c] reach_updates(7)[OF assms(2)] by (simp add: t1_def)
  have "reach E rc s (snd (r, t'))"
    using assms(1) unfolding query_child_state_def Let_def t1_def[symmetric] c prod.case
    by (rule poll_keeps) (auto simp: t2 split: prod.splits option.splits intro: reach_answers(6) reach_read_drop intro!: reach_pause)
  then show ?thesis by simp
qed

lemma reach_connection_values: "connection_values E cs t = Some (vs, t') \<Longrightarrow> reach E rc s t \<Longrightarrow> reach E rc s t'"
proof (induction cs arbitrary: t vs t')
  case (Cons c cs)
  obtain i kind alive where c: "c = (i, kind, alive)" by (metis prod_cases3)
  obtain st t1 where q: "(if alive then query_child_state E i t else Some (None, t)) = Some (st, t1)"
    using Cons.prems(1) by (auto simp: c split: option.splits if_splits)
  then have "reach E rc s t1" using Cons.prems(2) reach_query by (fastforce split: if_splits)
  then show ?case using Cons.prems(1) Cons.IH by (auto simp: c q split: option.splits)
qed simp

lemma reach_child_states: "child_states E only cs (m, t) = Some (m', t') \<Longrightarrow> reach E rc s t \<Longrightarrow> reach E rc s t'"
proof (induction cs arbitrary: m t)
  case (Cons c cs)
  obtain i kind alive where c: "c = (i, kind, alive)" by (metis prod_cases3)
  show ?case
  proof (cases "\<not> alive \<or> (only \<noteq> None \<and> only \<noteq> Some i)")
    case True
    then show ?thesis using Cons by (auto simp: c)
  next
    case False
    then obtain st t1 where q: "query_child_state E i t = Some (st, t1)"
      using Cons.prems(1) by (auto simp: c split: option.splits)
    then show ?thesis using Cons.prems Cons.IH reach_query[OF q] False by (auto simp: c)
  qed
qed simp

lemma reach_windows: "get_window_list_platform E t = Some (r, t') \<Longrightarrow> reach E rc s t \<Longrightarrow> reach E rc s t'"
proof -
  assume a: "get_window_list_platform E t = Some (r, t')" and t: "reach E rc s t"
  let ?t = "act E (Spawn ''wmctrl'' [''-lG'']) t"
  obtain x w where c: "command_output E ''wmctrl'' [''-lG''] (world ?t) = Some (x, w)" "t' = ?t\<lparr>world := w\<rparr>"
    using a by (auto simp: get_window_list_platform_def Let_def)
  have "reach E rc s ?t" by (rule reach_act[OF t]) simp
  then show "reach E rc s t'" unfolding c(2) by (rule reach_answers(4)[OF c(1)])
qed

lemma reach_look_for_event:
  "look_for_event E t0 event peer t = Some (r, t') \<Longrightarrow> reach E rc s t \<Longrightarrow> reach E rc s t'"
  unfolding look_for_event_def Let_def
  by (auto split: if_splits option.splits prod.splits intro: reach_query reach_intros)

lemma reach_state_tools:
  "tool_list_active_connections E s = Some (r, s') \<Longrightarrow> reach E rc s s'"
  "tool_get_window_list E s = Some (r, s') \<Longrightarrow> reach E rc s s'"
  "tool_get_ui_state E args s = Some (r, s') \<Longrightarrow> reach E rc s s'"
proof -
  show "tool_list_active_connections E s = Some (r, s') \<Longrightarrow> reach E rc s s'"
    by (auto simp: tool_list_active_connections_def intro: reach_connection_values reach_refl)
  show "tool_get_window_list E s = Some (r, s') \<Longrightarrow> reach E rc s s'"
    by (auto simp: tool_get_window_list_def intro: reach_windows reach_refl)
  assume a: "tool_get_ui_state E args s = Some (r, s')"
  obtain v s1 where w: "get_window_list_platform E s = Some (v, s1)"
    using a by (auto simp: tool_get_ui_state_def Let_def split: option.splits)
  have s1: "reach E rc s s1" using reach_windows[OF w] reach_refl .
  show "reach E rc s s'"
  proof (cases v)
    case (Inr v)
    then obtain m where "child_states E (as_str (field args ''peer_id'')) (list_active_connections (ui s)) (Map.empty, s1) = Some (m, s')"
      using a by (auto simp: tool_get_ui_state_def w report_def Let_def)
    then show ?thesis using s1 by (rule reach_child_states)
  qed (use a s1 in \<open>auto simp: tool_get_ui_state_def w\<close>)
qed

lemma reach_wait_for_event: "tool_wait_for_event E args s = Some (r, s') \<Longrightarrow> reach E rc s s'"
proof -
  assume a: "tool_wait_for_event E args s = Some (r, s')"
  show "reach E rc s s'"
  proof (cases "as_str (field args ''event'')"; cases "as_str (field args ''peer_id'')")
    fix event peer assume e: "as_str (field args ''event'') = Some event" "as_str (field args ''peer_id'') = Some peer"
    then obtain r' where p: "poll (clock E) (clock E s) (min (get_or_else (as_u64 (field args ''timeout_ms'')) 30000) 60000)
        (look_for_event E (clock E s) event peer) s = Some (r', s')"
      using a by (auto simp: tool_wait_for_event_def Let_def)
    have "reach E rc s (snd (r', s'))" using p by (rule poll_keeps) (auto intro: reach_look_for_event reach_refl)
    then show ?thesis by simp
  qed (use a in \<open>auto simp: tool_wait_for_event_def intro: reach_refl\<close>)
qed

text \<open>Commands: started by an enrolled device, which stays enrolled.\<close>

lemma enrolled_act [simp]: "enrolled (act E a s) \<longleftrightarrow> enrolled s"
  by (simp add: enrolled_def act_def)

lemma enrolled_world [simp]: "enrolled (s\<lparr>world := w\<rparr>) \<longleftrightarrow> enrolled s"
  by (simp add: enrolled_def)

lemma reach_run_command:
  "run_command E cmd args t = Some (r, t') \<Longrightarrow> reach E rc s t \<Longrightarrow> enrolled t \<Longrightarrow> reach E rc s t' \<and> enrolled t'"
  unfolding run_command_def Let_def by (auto split: prod.splits intro: reach_answers(4) reach_act_enrolled)

lemma reach_system_info: "exec_get_system_info E t = Some (r, t') \<Longrightarrow> reach E rc s t \<Longrightarrow> enrolled t \<Longrightarrow> reach E rc s t'"
  unfolding exec_get_system_info_def by (auto simp: bind_eq_Some_conv dest!: reach_run_command)

lemma reach_operation: "run_operation E operation args t = Some (r, t') \<Longrightarrow> reach E rc s t \<Longrightarrow> enrolled t \<Longrightarrow> reach E rc s t'"
  unfolding run_operation_def exec_list_processes_def exec_get_service_logs_def exec_ping_test_def exec_restart_hoptodesk_def
    exec_kill_process_def Let_def
  by (auto split: option.splits prod.splits if_splits dest: reach_run_command reach_system_info)

lemma reach_exec_operation: "tool_exec_operation E args s = Some (r, s') \<Longrightarrow> reach E rc s s'"
  unfolding tool_exec_operation_def Let_def
  by (auto split: if_splits prod.splits intro: reach_refl reach_operation simp: report_def)

lemma reach_run_command_tool: "reach E rc s (snd (tool_run_command E args s))"
proof -
  have "reach E rc s (t\<lparr>world := w\<rparr>)"
    if "enrolled s" "t = act E (Spawn ''sh'' [''-c'', c]) s" "timed_output E n ''sh'' [''-c'', c] (world t) = (x, w)" for t w c n x
    using reach_answers(5)[OF that(3), of rc s] reach_act_enrolled[OF reach_refl[of E rc s] that(1)] that(2) by simp
  then show ?thesis
    unfolding tool_run_command_def Let_def command_report_def
    by (auto simp: reach_refl split: prod.split command_end.split option.split)
qed

lemma reach_file_tools:
  "reach E rc s (snd (tool_get_clipboard E s))"
  "reach E rc s (snd (tool_set_clipboard E args s))"
  "reach E rc s (snd (tool_switch_permission E args s))"
  "reach E rc s (snd (tool_list_local_files E args s))"
  "reach E rc s (snd (tool_read_local_file E args s))"
  unfolding tool_get_clipboard_def tool_set_clipboard_def tool_switch_permission_def tool_list_local_files_def
    tool_read_local_file_def Let_def
  by (auto split: option.split sum.split path_kind.split intro: reach_intros)

lemma reach_screenshot: "reach E rc s (snd (tool_screenshot E args s))"
proof -
  obtain ds w1 where d: "all_displays E (world s) = (ds, w1)" by fastforce
  have r1: "reach E rc s (s\<lparr>world := w1\<rparr>)" using reach_answers(1)[OF d reach_refl] .
  define i where "i = get_or_else (as_u64 (field args ''display'')) 0"
  obtain c w2 where c: "new_capturer E i w1 = (c, w2)" by fastforce
  have r2: "reach E rc s (s\<lparr>world := w2\<rparr>)" using reach_answers(2)[of E i "s\<lparr>world := w1\<rparr>" c w2 rc s] c r1 by simp
  obtain g w3 where g: "grab E i 30 w2 = (g, w3)" by fastforce
  have r3: "reach E rc s (s\<lparr>world := w3\<rparr>)" using reach_grab[OF r2, of i 30] g by simp
  show ?thesis using r1 r2 r3
    by (auto simp: tool_screenshot_def d c g Let_def i_def[symmetric]
        split: sum.split option.split prod.split frame_answer.split)
qed

lemma reach_capture_refs: "capture E region t = (r, t') \<Longrightarrow> reach E rc s t \<Longrightarrow> reach E rc s (t'\<lparr>diff_refs := x\<rparr>)"
  by (blast intro: reach_capture reach_updates(4))

lemma reach_screen_tools:
  "reach E rc s (snd (tool_get_screen_size E s))"
  "reach E rc s (snd (tool_screen_diff_summary E args s))"
  "reach E rc s (snd (tool_read_screen_text E args s))"
  "reach E rc s (snd (tool_find_element E args s))"
  "reach E rc s (snd (tool_click_text E args s))"
  unfolding tool_get_screen_size_def tool_screen_diff_summary_def cleanup_diff_refs_def tool_read_screen_text_def tool_find_element_def
    tool_click_text_def find_elements_on_screen_def Let_def
  by (auto split: option.split sum.split prod.split list.split intro: reach_answers(1) reach_capture reach_capture_refs reach_intros)

lemma reach_look_for_change:
  "look_for_change E region b threshold found t = Some (r, t') \<Longrightarrow> reach E rc s t \<Longrightarrow> reach E rc s t'"
  unfolding look_for_change_def
  by (auto split: prod.splits sum.splits option.splits if_splits intro: reach_capture reach_pause)

lemma reach_wait_for_change: "wait_for_change E args limit found nothing s = Some (r, s') \<Longrightarrow> reach E rc s s'"
proof -
  assume a: "wait_for_change E args limit found nothing s = Some (r, s')"
  obtain c s1 where c: "capture E (parse_crop_region args) s = (c, s1)" by fastforce
  have s1: "reach E rc s s1" using reach_capture[OF c reach_refl] .
  show "reach E rc s s'"
  proof (cases c)
    case (Inr cap)
    then obtain r' where p: "poll (clock E) (clock E s1) limit (look_for_change E (parse_crop_region args) (fst cap)
        (get_or_else (as_f64 (field args ''threshold'')) 1) (found cap (clock E s1))) s1 = Some (r', s')"
      using a by (auto simp: wait_for_change_def Let_def c)
    have "reach E rc s (snd (r', s'))" using p by (rule poll_keeps) (auto intro: reach_look_for_change s1)
    then show ?thesis by simp
  qed (use a s1 in \<open>auto simp: wait_for_change_def c\<close>)
qed

lemma reach_wait_for_text: "tool_wait_for_text E args s = Some (r, s') \<Longrightarrow> reach E rc s s'"
proof -
  assume a: "tool_wait_for_text E args s = Some (r, s')"
  show "reach E rc s s'"
  proof (cases "as_str (field args ''text'')")
    case (Some wanted)
    have keeps: "reach E rc s (snd y)"
      if "poll clk t0 limit (\<lambda>s. case capture E None s of
             (Inr _, s) \<Rightarrow> (case run_ocr of Inr seen \<Rightarrow> if P seen then Some (Some (f s), s) else Some (None, pause E d s)
               | Inl _ \<Rightarrow> Some (None, pause E d s))
           | (Inl _, s) \<Rightarrow> Some (None, pause E d s)) s = Some y" for clk t0 limit P f d y
      using that
      by (rule poll_keeps) (auto split: prod.splits sum.splits if_splits intro: reach_capture reach_pause reach_refl)
    show ?thesis
      using a keeps by (fastforce simp: tool_wait_for_text_def Let_def Some)
  qed (use a in \<open>auto simp: tool_wait_for_text_def intro: reach_refl\<close>)
qed

lemma reach_recording_tools:
  "reach E True s (snd (tool_start_recording E s))"
  "reach E True s (snd (tool_stop_recording E s))"
  by (auto simp: tool_start_recording_def tool_stop_recording_def Let_def intro: reach_intros)

section \<open>Calls, requests and connections\<close>

definition stepwise :: "('w, 'z) mcp_env_scheme \<Rightarrow> bool \<Rightarrow> 'w tool \<Rightarrow> bool" where
  "stepwise E rc f \<longleftrightarrow> (\<forall>args s r s'. f args s = Some (r, s') \<longrightarrow> reach E rc s s')"

lemma stepwise_pure: "(\<And>args s. reach E rc s (snd (g args s))) \<Longrightarrow> stepwise E rc (\<lambda>args s. Some (g args s))"
  unfolding stepwise_def by (metis option.inject snd_conv)

lemma stepwiseI: "(\<And>args s r s'. f args s = Some (r, s') \<Longrightarrow> reach E rc s s') \<Longrightarrow> stepwise E rc f"
  unfolding stepwise_def by blast

lemma stepwise_const: "stepwise E rc (\<lambda>_ s. Some (Bad m, s))"
  by (simp add: stepwise_def reach_refl)

lemmas stepwise_tools =
  stepwise_const
  stepwise_pure[OF reach_input_tools(1)] stepwise_pure[OF reach_input_tools(2)] stepwise_pure[OF reach_input_tools(3)]
  stepwise_pure[OF reach_input_tools(4)] stepwise_pure[OF reach_input_tools(5)] stepwise_pure[OF reach_input_tools(6)]
  stepwise_pure[OF reach_input_tools(7)] stepwise_pure[OF reach_input_tools(8)]
  stepwise_pure[OF reach_info_tools(1)] stepwise_pure[OF reach_info_tools(2)]
  stepwise_pure[OF reach_connect]
  stepwise_pure[OF reach_window_tools(1)] stepwise_pure[OF reach_window_tools(2)] stepwise_pure[OF reach_window_tools(3)]
  stepwise_pure[OF reach_window_tools(4)]
  stepwiseI[OF reach_state_tools(1)] stepwiseI[OF reach_state_tools(2)] stepwiseI[OF reach_state_tools(3)]
  stepwiseI[OF reach_wait_for_event] stepwiseI[OF reach_exec_operation] stepwise_pure[OF reach_run_command_tool]
  stepwise_pure[OF reach_file_tools(1)] stepwise_pure[OF reach_file_tools(2)] stepwise_pure[OF reach_file_tools(3)]
  stepwise_pure[OF reach_file_tools(4)] stepwise_pure[OF reach_file_tools(5)]
  stepwise_pure[OF reach_screenshot] stepwise_pure[OF reach_screen_tools(1)] stepwise_pure[OF reach_screen_tools(2)]
  stepwise_pure[OF reach_screen_tools(3)] stepwise_pure[OF reach_screen_tools(4)] stepwise_pure[OF reach_screen_tools(5)]
  stepwiseI[OF reach_wait_for_text]

lemma stepwise_waits:
  "stepwise E rc (tool_wait_for_screen_change E)" "stepwise E rc (tool_verify_action_result E)"
  unfolding tool_wait_for_screen_change_def[abs_def] tool_verify_action_result_def[abs_def]
  by (auto intro!: stepwiseI elim: reach_wait_for_change)

lemma stepwise_clients:
  "stepwise E rc (\<lambda>_ s. Some (case incoming (world s) of
      Inl e \<Rightarrow> (Bad (''Lock failed: '' @ e), s) | Inr vs \<Rightarrow> (Good (text_content (pretty E (JArr vs))), s)))"
  by (rule stepwise_pure) (auto split: sum.split intro: reach_refl)

lemma stepwise_recording:
  "stepwise E True (\<lambda>_ s. Some (tool_start_recording E s))" "stepwise E True (\<lambda>_ s. Some (tool_stop_recording E s))"
  by (rule stepwise_pure, rule reach_recording_tools)+

lemma all_tools_stepwise:
  assumes "stepwise E True replay"
  shows "list_all (\<lambda>nf. stepwise E True (snd nf)) (tools E incoming replay)"
  unfolding tools_def list.pred_inject snd_conv
  by (simp only: stepwise_tools stepwise_waits stepwise_clients stepwise_recording assms simp_thms list.pred_inject)

lemma stepwise_dispatch:
  assumes "stepwise E True replay" and "dispatch E incoming replay n a s = Some (r, s')"
  shows "reach E True s s'"
proof (cases "map_of (tools E incoming replay) n")
  case None
  then show ?thesis using assms(2) by (simp add: dispatch_def reach_refl)
next
  case (Some f)
  then have "stepwise E True f" using all_tools_stepwise[OF assms(1), of incoming] map_of_SomeD by (fastforce simp: list_all_iff)
  then show ?thesis using assms(2) Some by (simp add: dispatch_def stepwise_def)
qed

lemma quiet_tools:
  "list_all (\<lambda>nf. fst nf \<in> set NOT_RECORDED \<or> stepwise E False (snd nf)) (tools E incoming replay)"
  unfolding tools_def list.pred_inject fst_conv snd_conv
  by (simp only: stepwise_tools stepwise_waits stepwise_clients simp_thms list.pred_inject) (simp add: NOT_RECORDED_def)

lemma quiet_dispatch:
  assumes "n \<notin> set NOT_RECORDED" and "dispatch E incoming replay n a s = Some (r, s')"
  shows "reach E False s s'"
proof (cases "map_of (tools E incoming replay) n")
  case None
  then show ?thesis using assms(2) by (simp add: dispatch_def reach_refl)
next
  case (Some f)
  then have "stepwise E False f" using quiet_tools[of E incoming replay] map_of_SomeD assms(1) by (fastforce simp: list_all_iff)
  then show ?thesis using assms(2) Some by (simp add: dispatch_def stepwise_def)
qed

lemma reach_record_step: "reach E True s t \<Longrightarrow> reach E True s (record_step E n a t)"
  by (auto simp: record_step_def intro: reach_intros)

lemma reach_tools_call: "stepwise E True replay \<Longrightarrow> tools_call E incoming replay request s = Some (r, s') \<Longrightarrow> reach E True s s'"
  unfolding tools_call_def Let_def by (auto dest!: stepwise_dispatch intro: reach_record_step)

lemma stepwise_no_replay: "stepwise E True no_replay"
  by (simp add: stepwise_def no_replay_def reach_refl)

lemma reach_replay_steps: "replay_steps E incoming m i steps results t = Some (r, t') \<Longrightarrow> reach E True s t \<Longrightarrow> reach E True s t'"
proof (induction steps arbitrary: i results t)
  case (Cons step steps)
  let ?n = "get_or_else (as_str (field step ''tool_name'')) []"
  show ?case
  proof (cases "?n \<in> set NOT_RECORDED")
    case True
    then show ?thesis using Cons by simp
  next
    case False
    define t1 where "t1 = (if step_delay m i step > 0 then pause E (step_delay m i step) t else t)"
    define req where "req = JObj [(''params'', JObj [(''name'', JStr ?n), (''arguments'', field step ''arguments'')])]"
    have t1: "reach E True s t1" using Cons.prems(2) by (simp add: t1_def reach_pause)
    obtain r2 t2 where c: "tools_call E incoming no_replay req t1 = Some (r2, t2)"
      using Cons.prems(1) False by (auto simp: Let_def t1_def[symmetric] req_def[symmetric] split: option.splits)
    have t2: "reach E True s t2" using reach_trans[OF t1 reach_tools_call[OF stepwise_no_replay c]] .
    show ?thesis
      using Cons.prems(1) Cons.IH[OF _ t2] t2 False c
      by (auto simp: Let_def t1_def[symmetric] req_def[symmetric] split: option.splits)
  qed
qed simp

lemma stepwise_replay: "stepwise E True (tool_replay_workflow E incoming)"
  by (rule stepwiseI)
    (auto simp: tool_replay_workflow_def report_def split: option.splits intro: reach_refl reach_replay_steps[OF _ reach_refl])

lemma reach_tools_request: "handle_tools_call E incoming request s = Some (r, s') \<Longrightarrow> reach E True s s'"
  unfolding handle_tools_call_def by (rule reach_tools_call[OF stepwise_replay])

lemma reach_resources: "handle_resources_read E request s = Some (v, s') \<Longrightarrow> reach E True s s'"
  unfolding handle_resources_read_def Let_def
  by (auto split: if_splits prod.splits intro: reach_device_info reach_get_id reach_known_peers reach_connection_values reach_refl)

lemma reach_request: "handle_request E incoming request i s = Some (r, s') \<Longrightarrow> reach E True s s'"
  unfolding handle_request_def Let_def
  by (auto split: if_splits intro: reach_refl reach_tools_request reach_resources)

lemma reach_line: "process_line E incoming line s = Some (r, s') \<Longrightarrow> reach E True s s'"
  unfolding process_line_def Let_def by (auto split: if_splits option.splits intro: reach_refl reach_request)

lemma reach_lines: "serve_lines E incoming token auth ls s = Some (out, s') \<Longrightarrow> reach E True s s'"
proof (induction E incoming token auth ls s arbitrary: out rule: serve_lines.induct)
  case (3 E incoming token l ls s)
  obtain r t where p: "process_line E incoming l s = Some (r, t)" using "3.prems" by (auto split: option.splits)
  show ?case
    using "3.prems" "3.IH" reach_trans[OF reach_line[OF p]] reach_line[OF p] by (cases r) (auto simp: p)
qed (auto intro: reach_refl split: if_splits)

lemma reach_messages: "serve_messages E incoming token auth ms s = Some (out, s') \<Longrightarrow> reach E True s s'"
proof (induction E incoming token auth ms s arbitrary: out rule: serve_messages.induct)
  case (6 E incoming token t ms s)
  obtain r u where p: "process_line E incoming t s = Some (r, u)" using "6.prems" by (auto split: option.splits)
  show ?case
    using "6.prems" "6.IH" reach_trans[OF reach_line[OF p]] reach_line[OF p] by (cases r) (auto simp: p)
qed (auto intro: reach_refl split: if_splits)

section \<open>What holds of all runs\<close>

inductive_cases mstep_elim: "mstep E rc s s'"

lemma reach_enrolled: "reach E rc s s' \<Longrightarrow> enrolled s' \<longleftrightarrow> enrolled s"
  unfolding reach_def
  by (induction rule: rtranclp_induct) (auto elim!: mstep_elim simp: enrolled_def get_option_def act_def pause_def)

definition only_harmless :: "'w mcp \<Rightarrow> action list \<Rightarrow> bool" where
  "only_harmless s as \<longleftrightarrow> enrolled s \<or> list_all harmless as"

lemma reach_history: "reach E rc s s' \<Longrightarrow> \<exists>as. actions s' = actions s @ as \<and> only_harmless s as"
  unfolding reach_def
proof (induction rule: rtranclp_induct)
  case base
  show ?case by (simp add: only_harmless_def)
next
  case (step t u)
  then obtain as where as: "actions t = actions s @ as" "only_harmless s as" by blast
  have e: "enrolled t \<longleftrightarrow> enrolled s" using step.hyps(1) reach_enrolled by (auto simp: reach_def)
  have "\<exists>as. actions u = actions t @ as \<and> only_harmless t as"
    using step.hyps(2) by (auto elim!: mstep_elim simp: act_def pause_def only_harmless_def)
  then show ?case using as e by (auto simp: only_harmless_def)
qed

text \<open>The tools that are recorded leave the recording alone.\<close>

lemma quiet_recording:
  "reach E False s s' \<Longrightarrow> is_recording s' = is_recording s \<and> wf_steps s' = wf_steps s \<and> rec_start s' = rec_start s"
  unfolding reach_def by (induction rule: rtranclp_induct) (auto elim!: mstep_elim simp: act_def pause_def)

text \<open>
  A steady clock: sleeping takes at least the time that was asked for, and nothing turns the clock back.
\<close>

definition steady :: "('w, 'z) mcp_env_scheme \<Rightarrow> bool" where
  "steady E \<longleftrightarrow>
    (\<forall>d w. now_ms E w + d \<le> now_ms E (sleep_ms E d w)) \<and>
    (\<forall>w. now_ms E w \<le> now_ms E (snd (all_displays E w))) \<and>
    (\<forall>i w. now_ms E w \<le> now_ms E (snd (new_capturer E i w))) \<and>
    (\<forall>i w. now_ms E w \<le> now_ms E (snd (next_frame E i w))) \<and>
    (\<forall>c as w. case command_output E c as w of Some (_, w') \<Rightarrow> now_ms E w \<le> now_ms E w' | None \<Rightarrow> True) \<and>
    (\<forall>n c as w. now_ms E w \<le> now_ms E (snd (timed_output E n c as w))) \<and>
    (\<forall>p w. now_ms E w \<le> now_ms E (drop_state_file E p w)) \<and>
    (\<forall>p w. now_ms E w \<le> now_ms E (snd (read_state_file E p w))) \<and>
    (\<forall>a w. now_ms E w \<le> now_ms E (react E a w))"

lemma clock_pause: "steady E \<Longrightarrow> clock E s + d \<le> clock E (pause E d s)"
  by (simp add: steady_def clock_def pause_def)

lemma clock_step: "steady E \<Longrightarrow> mstep E rc s s' \<Longrightarrow> clock E s \<le> clock E s'"
  using clock_pause[of E s] by (auto elim!: mstep_elim simp: steady_def clock_def act_def split: option.splits intro: add_leD1)

lemma clock_reach: "reach E rc s s' \<Longrightarrow> steady E \<Longrightarrow> clock E s \<le> clock E s'"
  unfolding reach_def by (induction rule: rtranclp_induct) (auto intro: order_trans clock_step)

section \<open>Every wait ends\<close>

text \<open>
  A loop ends if its body always returns, keeps what is assumed of the state, and has waited when it found
  nothing; the number of rounds is bounded by the time that is left.
\<close>

lemma poll_ends:
  assumes body: "\<And>t. P t \<Longrightarrow> \<exists>r t'. body t = Some (r, t') \<and> P t' \<and> (r = None \<longrightarrow> clk t < clk t')" and "P t" and "t0 \<le> clk t"
  shows "\<exists>y. poll clk t0 limit body t = Some y"
  using assms(2,3)
proof (induction "limit + t0 - clk t" arbitrary: t rule: less_induct)
  case (less t)
  show ?case
  proof (cases "limit \<le> clk t - t0")
    case True
    then show ?thesis by (subst poll.simps) simp
  next
    case False
    obtain r t' where b: "body t = Some (r, t')" "P t'" "r = None \<longrightarrow> clk t < clk t'" using body[OF less.prems(1)] by blast
    show ?thesis
    proof (cases r)
      case None
      have "\<exists>y. poll clk t0 limit body t' = Some y"
        using False b None less.prems(2) by (intro less.hyps) auto
      then show ?thesis using False b None by (subst poll.simps) simp
    qed (use False b in \<open>subst poll.simps, simp\<close>)
  qed
qed

lemma query_ends:
  assumes "steady E"
  shows "\<exists>r s'. query_child_state E peer s = Some (r, s')"
proof -
  define body where "body = (\<lambda>s. let (content, w) = read_state_file E peer (world s); s = s\<lparr>world := w\<rparr>
      in case Option.bind content (parse E) of
           Some v \<Rightarrow> Some (Some v, s\<lparr>world := drop_state_file E peer (world s)\<rparr>)
         | None \<Rightarrow> Some (None, pause E 100 s))"
  obtain ok t where ct: "command_child E peer ''query_state'' (s\<lparr>world := drop_state_file E peer (world s)\<rparr>) = (ok, t)" by fastforce
  have t: "query_child_state E peer s = poll (clock E) (clock E t) 1000 body t"
    unfolding query_child_state_def Let_def body_def ct prod.case ..
  have "\<exists>r u'. body u = Some (r, u') \<and> True \<and> (r = None \<longrightarrow> clock E u < clock E u')" for u
  proof -
    obtain c w where c: "read_state_file E peer (world u) = (c, w)" by fastforce
    have "clock E u \<le> clock E (u\<lparr>world := w\<rparr>)" using clock_reach[OF reach_answers(6)[OF c reach_refl] assms] .
    then have "clock E u < clock E (pause E 100 (u\<lparr>world := w\<rparr>))" using clock_pause[OF assms, of "u\<lparr>world := w\<rparr>" 100] by linarith
    then show ?thesis by (cases "Option.bind c (parse E)") (simp_all add: body_def c)
  qed
  then show ?thesis unfolding t using poll_ends[of "\<lambda>_. True" body "clock E" t "clock E t" 1000] by auto
qed

lemma connection_values_end:
  assumes "steady E"
  shows "\<exists>vs s'. connection_values E cs s = Some (vs, s')"
proof (induction cs arbitrary: s)
  case (Cons c cs)
  obtain i kind alive where c: "c = (i, kind, alive)" by (metis prod_cases3)
  obtain st t where "(if alive then query_child_state E i s else Some (None, s)) = Some (st, t)"
    using query_ends[OF assms, of i s] by (cases alive) auto
  then show ?case using Cons[of t] by (auto simp: c)
qed simp

lemma child_states_end:
  assumes "steady E"
  shows "\<exists>y. child_states E only cs ms = Some y"
proof (induction cs arbitrary: ms)
  case (Cons c cs)
  obtain i kind alive where c: "c = (i, kind, alive)" by (metis prod_cases3)
  obtain m s where ms: "ms = (m, s)" by fastforce
  obtain st t where "query_child_state E i s = Some (st, t)" using query_ends[OF assms] by blast
  then show ?case using Cons by (simp add: c ms)
qed simp

lemma look_for_event_ends:
  assumes "steady E"
  shows "\<exists>r s'. look_for_event E t0 event peer s = Some (r, s') \<and> (r = None \<longrightarrow> clock E s < clock E s')"
proof -
  have p: "clock E t < clock E (pause E 500 t)" for t using clock_pause[OF assms, of t 500] by linarith
  obtain st t where q: "query_child_state E peer s = Some (st, t)" using query_ends[OF assms] by blast
  have "clock E s \<le> clock E t" using clock_reach[OF reach_query[OF q reach_refl] assms] .
  then have "clock E s < clock E (pause E 500 t)" using p[of t] by linarith
  then show ?thesis using p[of s] unfolding look_for_event_def Let_def q
    by (auto split: option.split prod.split if_splits)
qed

lemma change_ends:
  assumes "steady E"
  shows "\<exists>r s'. look_for_change E region b threshold found s = Some (r, s') \<and> (r = None \<longrightarrow> clock E s < clock E s')"
proof -
  obtain c t where c: "capture E region (pause E 200 s) = (c, t)" by fastforce
  have "clock E (pause E 200 s) \<le> clock E t" using clock_reach[OF reach_capture[OF c reach_refl] assms] .
  then have "clock E s < clock E t" using clock_pause[OF assms, of s 200] by linarith
  then show ?thesis by (auto simp: look_for_change_def c split: sum.split prod.split option.split)
qed

lemma poll_from_now:
  assumes "\<And>t. \<exists>r t'. body t = Some (r, t') \<and> (r = None \<longrightarrow> clock E t < clock E t')"
  shows "\<exists>y. map_option f (poll (clock E) (clock E s) limit body s) = Some y"
  using poll_ends[of "\<lambda>_. True" body "clock E" s "clock E s" limit] assms by fastforce

lemma wait_for_change_ends: "steady E \<Longrightarrow> \<exists>y. wait_for_change E args limit found nothing s = Some y"
proof -
  assume st: "steady E"
  obtain c t where c: "capture E (parse_crop_region args) s = (c, t)" by fastforce
  show ?thesis
  proof (cases c)
    case (Inr cap)
    show ?thesis unfolding wait_for_change_def Let_def c Inr prod.case sum.case
      by (rule poll_from_now[OF change_ends[OF st]])
  qed (simp add: wait_for_change_def Let_def c)
qed

lemma wait_for_event_ends: "steady E \<Longrightarrow> \<exists>y. tool_wait_for_event E args s = Some y"
proof -
  assume st: "steady E"
  show ?thesis
  proof (cases "as_str (field args ''event'')"; cases "as_str (field args ''peer_id'')")
    fix event peer assume e: "as_str (field args ''event'') = Some event" "as_str (field args ''peer_id'') = Some peer"
    show ?thesis unfolding tool_wait_for_event_def Let_def e prod.case option.case
      by (rule poll_from_now[OF look_for_event_ends[OF st]])
  qed (simp_all add: tool_wait_for_event_def)
qed

text \<open>The log directory: no directory is below itself, which a rank shows.\<close>

definition logs_finite :: "('w, 'z) mcp_env_scheme \<Rightarrow> bool" where
  "logs_finite E \<longleftrightarrow> (\<forall>w. \<exists>rank :: string \<Rightarrow> nat. \<forall>d es. list_logs E d w = Some es \<longrightarrow>
     (\<forall>e\<in>set es. fst (snd e) \<longrightarrow> rank (fst e) < rank d))"

lemma newest_log_ends:
  assumes rank: "\<And>d es e. ls d = Some es \<Longrightarrow> e \<in> set es \<Longrightarrow> fst (snd e) \<Longrightarrow> rank (fst e) < (rank d :: nat)"
  shows "\<exists>y. newest_log ls dirs newest = Some y"
proof (induction "mset (map rank dirs)" arbitrary: dirs newest rule: wf_induct_rule[OF wf_mult[OF wf_less]])
  case (1 dirs)
  show ?case
  proof (cases dirs)
    case (Cons d ds)
    show ?thesis
    proof (cases "ls d")
      case None
      have "(mset (map rank ds), mset (map rank dirs)) \<in> mult {(x, y). x < y}"
        unfolding Cons using one_step_implies_mult[of "{#rank d#}" "{#}" "{(x, y). x < y}" "mset (map rank ds)"] by simp
      then show ?thesis using 1[of ds newest] Cons None by (subst newest_log.simps) simp
    next
      case (Some es)
      let ?new = "rev (map fst (filter (\<lambda>(_, is_dir, _). is_dir) es))"
      have "(mset (map rank (?new @ ds)), mset (map rank dirs)) \<in> mult {(x, y). x < y}"
        unfolding Cons using one_step_implies_mult[of "{#rank d#}" "mset (map rank ?new)" "{(x, y). x < y}" "mset (map rank ds)"]
          rank[OF Some] by (fastforce simp: add.commute)
      then show ?thesis using 1[of "?new @ ds"] Cons Some by (subst newest_log.simps) simp
    qed
  qed (subst newest_log.simps, simp)
qed

lemma wait_for_text_ends: "steady E \<Longrightarrow> \<exists>y. tool_wait_for_text E args s = Some y"
proof -
  assume st: "steady E"
  show ?thesis
  proof (cases "as_str (field args ''text'')")
    case (Some wanted)
    have "\<exists>r t'. (case capture E None t of
           (Inr _, s) \<Rightarrow> (case run_ocr of Inr seen \<Rightarrow> if P seen then Some (Some (f s), s) else Some (None, pause E (max n 200) s)
             | Inl _ \<Rightarrow> Some (None, pause E (max n 200) s))
         | (Inl _, s) \<Rightarrow> Some (None, pause E (max n 200) s)) = Some (r, t') \<and> (r = None \<longrightarrow> clock E t < clock E t')" for t P n f
    proof -
      obtain c u where c: "capture E None t = (c, u)" by fastforce
      have "clock E t \<le> clock E u" using clock_reach[OF reach_capture[OF c reach_refl] st] .
      moreover have "clock E u + max n 200 \<le> clock E (pause E (max n 200) u)" by (rule clock_pause[OF st])
      ultimately have "clock E t < clock E (pause E (max n 200) u)" by linarith
      then show ?thesis by (auto simp: c run_ocr_def split: sum.split)
    qed
    then show ?thesis unfolding tool_wait_for_text_def Let_def Some option.case by (rule poll_from_now)
  qed (simp add: tool_wait_for_text_def)
qed

text \<open>Commands without a time limit end.\<close>

definition commands_end :: "('w, 'z) mcp_env_scheme \<Rightarrow> bool" where
  "commands_end E \<longleftrightarrow> (\<forall>cmd args w. command_output E cmd args w \<noteq> None)"

lemma run_command_ends: "commands_end E \<Longrightarrow> \<exists>r s'. run_command E cmd args s = Some (r, s')"
  by (fastforce simp: commands_end_def run_command_def Let_def)

lemma windows_end: "commands_end E \<Longrightarrow> \<exists>r s'. get_window_list_platform E s = Some (r, s')"
  by (fastforce simp: commands_end_def get_window_list_platform_def Let_def)

lemma system_info_ends: "commands_end E \<Longrightarrow> \<exists>y. exec_get_system_info E s = Some y"
proof -
  assume e: "commands_end E"
  obtain a t where a: "run_command E ''uname'' [''-a''] s = Some (a, t)" using run_command_ends[OF e] by blast
  obtain b u where b: "run_command E ''sysctl'' [''-n'', ''hw.physmem''] t = Some (b, u)" using run_command_ends[OF e] by blast
  obtain c v where "run_command E ''uptime'' [] u = Some (c, v)" using run_command_ends[OF e] by blast
  then show ?thesis by (simp add: exec_get_system_info_def a b)
qed

lemma exec_operation_ends: "logs_finite E \<Longrightarrow> commands_end E \<Longrightarrow> \<exists>y. tool_exec_operation E args s = Some y"
proof -
  assume lf: "logs_finite E" and ce: "commands_end E"
  have run: "\<exists>y. run_command E cmd cargs s = Some y" for cmd cargs using run_command_ends[OF ce] by blast
  obtain rank :: "string \<Rightarrow> nat" where rank: "\<And>d es e. list_logs E d (world s) = Some es \<Longrightarrow> e \<in> set es \<Longrightarrow> fst (snd e) \<Longrightarrow> rank (fst e) < rank d"
    using lf unfolding logs_finite_def by meson
  have "\<exists>y. newest_log (\<lambda>d. list_logs E d (world s)) [log_dir E] None = Some y"
    by (rule newest_log_ends[where rank = rank], rule rank)
  then have logs: "\<exists>y. exec_get_service_logs E args s = Some y" unfolding exec_get_service_logs_def Let_def by fastforce
  have ops: "\<exists>y. exec_list_processes E args s = Some y" "\<exists>y. exec_restart_hoptodesk E s = Some y"
    "\<exists>y. exec_ping_test E args s = Some y"
    unfolding exec_list_processes_def exec_restart_hoptodesk_def exec_ping_test_def Let_def
    by (rule run, rule run) (simp only: run split: if_split, blast)
  have kill: "\<exists>y. exec_kill_process E args s = Some y"
    unfolding exec_kill_process_def Let_def
    by (cases "as_u64 (field args ''pid'')") (simp_all only: run option.case split: if_split, blast+)
  have "\<exists>y. run_operation E operation args s = Some y" for operation
  proof (cases "map_of FIXED_COMMANDS operation")
    case None
    then show ?thesis unfolding run_operation_def None option.case using logs ops kill system_info_ends[OF ce, of s]
      by (simp only: split: if_split) blast
  next
    case (Some c)
    then show ?thesis unfolding run_operation_def Some option.case by (cases c) (simp only: prod.case run)
  qed
  then obtain y where "run_operation E (get_or_else (as_str (field args ''operation'')) []) args s = Some y" by blast
  then show ?thesis unfolding tool_exec_operation_def Let_def by simp
qed

definition returns :: "'w tool \<Rightarrow> bool" where
  "returns f \<longleftrightarrow> (\<forall>args s. \<exists>y. f args s = Some y)"

lemma returns_pure: "returns (\<lambda>args s. Some (g args s))"
  by (simp add: returns_def)

lemma waiting_tools_return:
  assumes "steady E" and "logs_finite E" and "commands_end E"
  shows "returns (\<lambda>_ s. tool_get_window_list E s)" "returns (\<lambda>_ s. tool_list_active_connections E s)" "returns (tool_get_ui_state E)" "returns (tool_wait_for_event E)"
    "returns (tool_exec_operation E)" "returns (tool_wait_for_screen_change E)" "returns (tool_verify_action_result E)"
    "returns (tool_wait_for_text E)"
proof -
  show "returns (\<lambda>_ s. tool_get_window_list E s)"
    using windows_end[OF assms(3)] by (fastforce simp: returns_def tool_get_window_list_def)
  show "returns (\<lambda>_ s. tool_list_active_connections E s)"
    using connection_values_end[OF assms(1)] by (fastforce simp: returns_def tool_list_active_connections_def)
  show "returns (tool_get_ui_state E)"
    unfolding returns_def
  proof (intro allI)
    fix args s
    obtain v t where w: "get_window_list_platform E s = Some (v, t)" using windows_end[OF assms(3)] by blast
    obtain y where y: "child_states E (as_str (field args ''peer_id'')) (list_active_connections (ui s)) (Map.empty, t) = Some y"
      using child_states_end[OF assms(1)] by blast
    show "\<exists>y. tool_get_ui_state E args s = Some y" unfolding tool_get_ui_state_def Let_def w option.case prod.case y by (simp split: sum.split)
  qed
  show "returns (tool_wait_for_event E)" "returns (tool_exec_operation E)" "returns (tool_wait_for_text E)"
    using wait_for_event_ends[OF assms(1)] exec_operation_ends[OF assms(2,3)] wait_for_text_ends[OF assms(1)] by (simp_all add: returns_def)
  show "returns (tool_wait_for_screen_change E)" "returns (tool_verify_action_result E)"
    using wait_for_change_ends[OF assms(1)] by (simp_all add: returns_def tool_wait_for_screen_change_def tool_verify_action_result_def)
qed

lemma dispatch_returns:
  assumes "steady E" and "logs_finite E" and "commands_end E" and "returns replay"
  shows "\<exists>y. dispatch E incoming replay n a s = Some y"
proof (cases "map_of (tools E incoming replay) n")
  case (Some f)
  have "list_all (\<lambda>nf. returns (snd nf)) (tools E incoming replay)"
    unfolding tools_def list.pred_inject snd_conv
    by (simp only: returns_pure waiting_tools_return[OF assms(1-3)] assms(4) simp_thms list.pred_inject)
  then have "returns f" using Some map_of_SomeD by (fastforce simp: list_all_iff)
  then show ?thesis by (simp add: dispatch_def Some returns_def)
qed (simp add: dispatch_def)

lemma tools_call_returns: "steady E \<Longrightarrow> logs_finite E \<Longrightarrow> commands_end E \<Longrightarrow> returns replay \<Longrightarrow> \<exists>y. tools_call E incoming replay request s = Some y"
  using dispatch_returns unfolding tools_call_def Let_def by fastforce

lemma replay_returns:
  assumes "steady E" and "logs_finite E" and "commands_end E"
  shows "returns (tool_replay_workflow E incoming)"
proof -
  have nr: "returns no_replay" by (simp add: returns_def no_replay_def)
  have rs: "\<exists>y. replay_steps E incoming m i steps results s = Some y" for m i steps results s
  proof (induction steps arbitrary: i results s)
    case (Cons step steps)
    let ?n = "get_or_else (as_str (field step ''tool_name'')) []"
    define u where "u = (if step_delay m i step > 0 then pause E (step_delay m i step) s else s)"
    define req where "req = JObj [(''params'', JObj [(''name'', JStr ?n), (''arguments'', field step ''arguments'')])]"
    obtain r t where c: "tools_call E incoming no_replay req u = Some (r, t)"
      using tools_call_returns[OF assms nr] by fastforce
    have IH: "\<exists>a b. replay_steps E incoming m i steps results s = Some (a, b)" for i results s
      using Cons.IH[of i results s] by (metis surj_pair)
    show ?case
    proof (cases "?n \<in> set NOT_RECORDED")
      case True
      then show ?thesis by (simp add: IH)
    next
      case False
      then show ?thesis
        by (simp add: Let_def u_def[symmetric] req_def[symmetric] c IH split: option.split)
    qed
  qed simp
  show ?thesis
    unfolding returns_def
  proof (intro allI)
    fix args s
    show "\<exists>y. tool_replay_workflow E incoming args s = Some y"
    proof (cases "as_array (field args ''steps'')")
      case (Some steps)
      obtain y where "replay_steps E incoming (get_or_else (as_f64 (field args ''delay_multiplier'')) 1) 0 steps [] s = Some y"
        using rs by blast
      then show ?thesis by (simp add: tool_replay_workflow_def Some)
    qed (simp add: tool_replay_workflow_def)
  qed
qed

lemma line_returns:
  assumes "steady E" and "logs_finite E" and "commands_end E"
  shows "\<exists>y. process_line E incoming line s = Some y"
proof -
  have "\<exists>y. handle_tools_call E incoming request s = Some y" for request s
    unfolding handle_tools_call_def by (rule tools_call_returns[OF assms replay_returns[OF assms]])
  moreover have "\<exists>y. handle_resources_read E request s = Some y" for request s
    using connection_values_end[OF assms(1)] unfolding handle_resources_read_def Let_def by (fastforce split: prod.split)
  ultimately have "\<exists>y. handle_request E incoming request i s = Some y" for request i s
    unfolding handle_request_def Let_def by (auto split: if_split) blast
  then show ?thesis unfolding process_line_def Let_def by (auto split: option.split) blast
qed

end
