(* ===== verification/Session_Commands.thy ===== *)
theory Session_Commands
  imports Mcp_Server
begin

text \<open>
  What the commands that the automation server writes to a session do there: a button or a chat message without
  a line break is one command of its kind and nothing else; a line break in a chat message starts another
  command. And the catalogue of tools that is announced (\<open>src/mcp_server.rs\<close>) against the tools that are served.
\<close>

section \<open>A machine to run the server on\<close>

text \<open>The world is the clock; every answer takes no time, and sleeping takes what was asked for.\<close>

definition demo_env :: "nat mcp_env" where
  "demo_env =
    \<lparr>now_ms = (\<lambda>w. w), sleep_ms = (\<lambda>d w. w + d), all_displays = (\<lambda>w. (Inr [], w)), new_capturer = (\<lambda>_ w. (None, w)),
     next_frame = (\<lambda>_ w. (WouldBlock, w)),
     parse = (\<lambda>t. if t = ''auth'' then Some (JObj [(''auth'', JStr ''secret'')])
                  else if t = ''ping'' then Some (JObj [(''id'', JInt 7), (''method'', JStr ''ping'')])
                  else if t = ''run'' then Some (JObj [(''id'', JInt 8), (''method'', JStr ''tools/call''),
                    (''params'', JObj [(''name'', JStr ''run_command''), (''arguments'', JObj [(''command'', JStr ''ls'')])])])
                  else None),
     compact = (\<lambda>v. (case field v ''id'' of JInt n \<Rightarrow> show_int n | _ \<Rightarrow> ''?'')), pretty = (\<lambda>_. ''value''), lower = id,
     react = (\<lambda>_ w. w), press_error = (\<lambda>_. None), clipboard_error = (\<lambda>_. None), clipboard_text = (\<lambda>_. None),
     clipboard_set_error = (\<lambda>_ _. None), command_output = (\<lambda>_ _ w. Some (Inr (Some 0, [], []), w)),
     timed_output = (\<lambda>_ _ _ w. (TimedOut, w)),
     window_env = (\<lambda>_. \<lparr>has_exited = (\<lambda>_. False), can_spawn = (\<lambda>_. True), pipe_open = (\<lambda>_. True)\<rparr>),
     drop_state_file = (\<lambda>_ w. w), read_state_file = (\<lambda>_ w. (None, w)), png_base64 = (\<lambda>_ _ _. Inr []), base64 = (\<lambda>_. []),
     pkg_version = ''1.0'', host_name = ''host'', auto_id = None, app_name = ''HopToDesk'', connect_status = (\<lambda>_. 1),
     peer_environment = plain_peer_env, peer_names = (\<lambda>_. []), epoch_secs = id, favourites = (\<lambda>_. []), lan_peers = (\<lambda>_. []),
     home_dir = None, config_dir = ''/c'', temp_dir = ''/t'', log_dir = ''/l'', fresh_id = (\<lambda>w. show_nat w), path_node = (\<lambda>_ _. Missing),
     list_dir = (\<lambda>_ _. Inr []), list_logs = (\<lambda>_ _. None), file_size = (\<lambda>_ _. Inr 0), file_bytes = (\<lambda>_ _. Inr [])\<rparr>"

definition demo_config :: config where
  "demo_config = \<lparr>options = Map.empty, overwrite_settings = Map.empty, default_settings = Map.empty, hard_settings = Map.empty,
     builtin_settings = Map.empty, cfg_id = ''1'', temporary_password = [], permanent_password = [], salt = [], trusted_devices = [],
     trusted_cache = ([], False)\<rparr>"

definition demo_state :: "nat mcp" where
  "demo_state = \<lparr>world = 0, mcp_cfg = demo_config, mcp_peers = no_peers,
     ui = \<lparr>running = [(''p'', ''connect'')], pipes = [(''p'', [])], spawned = [], killed = []\<rparr>,
     is_recording = False, wf_steps = [], rec_start = None, diff_refs = [], actions = [],
     api = once_default\<lparr>api_response := Some JNull\<rparr>\<rparr>"

abbreviation nobody :: "nat \<Rightarrow> string + json list" where
  "nobody \<equiv> \<lambda>_. Inr []"

section \<open>Texts without blanks\<close>

text \<open>A text of printable ASCII characters without blanks is trimmed to itself.\<close>

definition graphic :: "char \<Rightarrow> bool" where
  "graphic c \<longleftrightarrow> (33::nat) \<le> of_char c \<and> (of_char c :: nat) \<le> 126"

lemma white_not_graphic: "list_all (list_all (\<lambda>c. \<not> graphic c)) WHITE"
  by code_simp

lemma white_char_not_graphic: "w \<in> set WHITE \<Longrightarrow> c \<in> set w \<Longrightarrow> \<not> graphic c"
  using white_not_graphic by (auto simp: list_all_iff)

lemma trim_graphic: "list_all graphic s \<Longrightarrow> trim_str s = s"
proof -
  assume s: "list_all graphic s"
  have no: "\<not> (\<exists>c\<in>set w. c \<in> set s)" if "w \<in> set WHITE" for w
    using s white_char_not_graphic[OF that] by (auto simp: list_all_iff)
  have "find (starts_with s) WHITE = None" "find (ends_with s) WHITE = None"
    unfolding find_None_iff starts_with_conv ends_with_def
    using no white_nonempty by (metis UnCI last_in_set set_append) (metis no white_nonempty in_set_dropD last_in_set)
  then show ?thesis by (simp add: trim_str_def trim_start.simps[of s] trim_end.simps[of s])
qed

text \<open>A graphic beginning is not trimmed off.\<close>

lemma trim_start_graphic: "graphic c \<Longrightarrow> trim_start (c # s) = c # s"
proof -
  assume "graphic c"
  then have "find (starts_with (c # s)) WHITE = None"
    unfolding find_None_iff using white_char_not_graphic white_nonempty
    by (metis (no_types, lifting) append_Cons list.exhaust list.sel(1) list.set_intros(1) starts_with_conv)
  then show ?thesis by (simp add: trim_start.simps[of "c # s"])
qed

lemma ends_with_conv: "ends_with s w \<longleftrightarrow> (\<exists>t. s = t @ w)"
  unfolding ends_with_def by (metis append_take_drop_id diff_diff_cancel diff_le_self length_append length_drop append_eq_conv_conj add_diff_cancel_right' le_add2)

lemma trim_end_keeps: "list_all graphic p \<Longrightarrow> \<exists>r. trim_end (p @ s) = p @ r \<and> set r \<subseteq> set s"
proof (induction "length s" arbitrary: s rule: less_induct)
  case less
  show ?case
  proof (cases "find (ends_with (p @ s)) WHITE")
    case None
    then show ?thesis by (simp add: trim_end.simps[of "p @ s"])
  next
    case (Some w)
    then have w: "w \<in> set WHITE" "w \<noteq> []" and "ends_with (p @ s) w"
      using white_nonempty by (auto simp: find_Some_iff)
    then obtain t where t: "p @ s = t @ w" by (auto simp: ends_with_conv)
    have "\<not> (\<exists>u. p = t @ u \<and> u \<noteq> [])"
    proof
      assume "\<exists>u. p = t @ u \<and> u \<noteq> []"
      then obtain u where u: "p = t @ u" "u \<noteq> []" by blast
      then have "hd u \<in> set w" "graphic (hd u)"
        using t less.prems by (auto simp: list_all_iff append_eq_append_conv2)
      then show False using white_char_not_graphic[OF w(1)] by blast
    qed
    then obtain s' where s': "t = p @ s'" "s = s' @ w"
      using t by (auto simp: append_eq_append_conv2)
    then obtain r where "trim_end (p @ s') = p @ r" "set r \<subseteq> set s'"
      using less.hyps[of s'] less.prems w(2) by auto
    moreover have "trim_end (p @ s) = trim_end (p @ s')"
      unfolding trim_end.simps[of "p @ s"] Some using s' by simp
    ultimately show ?thesis using s'(2) by auto
  qed
qed

lemma trim_str_keeps:
  assumes "list_all graphic p" and "p \<noteq> []"
  shows "\<exists>r. trim_str (p @ s) = p @ r \<and> set r \<subseteq> set s"
proof -
  obtain c q where p: "p = c # q" using assms(2) by (cases p) auto
  then have "trim_start (p @ s) = p @ s" using trim_start_graphic[of c] assms(1) by simp
  then show ?thesis using trim_end_keeps[OF assms(1)] by (simp add: trim_str_def)
qed

section \<open>The lines of a pipe\<close>

definition whole_lines :: "string \<Rightarrow> bool" where
  "whole_lines p \<longleftrightarrow> p = [] \<or> last p = CHR 0x0A"

definition drop_return :: "string \<Rightarrow> string" where
  "drop_return l = (if ends_with l [CHR 0x0D] then butlast l else l)"

lemma stdin_lines_split: "stdin_lines acc (p @ CHR 0x0A # q) = stdin_lines acc (p @ [CHR 0x0A]) @ stdin_lines [] q"
  by (induction acc p rule: stdin_lines.induct) simp_all

lemma stdin_lines_append: "whole_lines p \<Longrightarrow> stdin_lines [] (p @ q) = stdin_lines [] p @ stdin_lines [] q"
  unfolding whole_lines_def by (metis append_Cons append_Nil append_assoc append_butlast_last_id stdin_lines.simps(1) stdin_lines_split)

lemma stdin_line: "CHR 0x0A \<notin> set l \<Longrightarrow> stdin_lines acc (l @ [CHR 0x0A]) = [drop_return (acc @ l)]"
  by (induction l arbitrary: acc) (auto simp: drop_return_def)

lemma run_commands_append: "whole_lines p \<Longrightarrow> run_commands (p @ q) c = run_commands q (run_commands p c)"
  by (simp add: run_commands_def stdin_lines_append)

lemma run_command_line: "CHR 0x0A \<notin> set l \<Longrightarrow> run_commands (l @ [CHR 0x0A]) c = child_command (drop_return l) c"
  by (simp add: run_commands_def stdin_line)

text \<open>Two lines are two commands.\<close>

lemma run_two_lines:
  "CHR 0x0A \<notin> set l \<Longrightarrow> run_commands (l @ CHR 0x0A # q) c = run_commands q (child_command (drop_return l) c)"
  unfolding run_commands_def stdin_lines_split[of "[]" l q] by (simp add: stdin_line)

lemma drop_return_keeps: "list_all graphic p \<Longrightarrow> \<exists>t'. drop_return (p @ t) = p @ t'"
proof -
  assume p: "list_all graphic p"
  show ?thesis
  proof (cases "t = []")
    case True
    have "last p \<noteq> CHR 0x0D" if "p \<noteq> []"
      using p last_in_set[OF that] by (auto simp: list_all_iff graphic_def)
    then have "\<not> ends_with p [CHR 0x0D]" by (auto simp: ends_with_conv)
    then show ?thesis using True by (simp add: drop_return_def)
  next
    case False
    then show ?thesis by (auto simp: drop_return_def butlast_append)
  qed
qed

lemma drop_return_graphic: "list_all graphic p \<Longrightarrow> drop_return p = p"
  by (auto simp: drop_return_def ends_with_conv list_all_iff graphic_def)

section \<open>Buttons and chat messages\<close>

text \<open>The pipe of a session that can be written to: what was written before, in whole lines.\<close>

definition pipe_connected :: "('w, 'z) mcp_env_scheme \<Rightarrow> 'w mcp \<Rightarrow> string \<Rightarrow> string \<Rightarrow> bool" where
  "pipe_connected E s peer p \<longleftrightarrow> map_of (pipes (ui s)) peer = Some p \<and> pipe_open (window_env E (world s)) peer \<and> whole_lines p"

lemma command_child_open:
  "pipe_connected E s peer p \<Longrightarrow>
    command_child E peer cmd s = (True, s\<lparr>ui := (ui s)\<lparr>pipes := AList.update peer (p @ cmd @ [CHR 0x0A]) (pipes (ui s))\<rparr>\<rparr>)"
  by (simp add: pipe_connected_def command_child_def send_to_child_def)

lemma valid_buttons_graphic:
  "list_all (list_all graphic) (VALID_BUTTONS @ map fst VALID_ITEMS @ concat (map snd VALID_ITEMS))"
  by code_simp

lemma graphic_colon: "graphic CHR '':''"
  by code_simp

lemma valid_button_graphic: "is_valid_button b \<Longrightarrow> list_all graphic b"
proof -
  assume b: "is_valid_button b"
  show "list_all graphic b"
  proof (cases "CHR '':'' \<in> set b")
    case True
    then obtain menu item where split: "b = menu @ CHR '':'' # item" "CHR '':'' \<notin> set menu"
      by (metis split_list_first)
    then have "takeWhile (\<lambda>c. c \<noteq> CHR '':'') b = menu" unfolding split(1) by (subst takeWhile_append2) auto
    then obtain items where items: "map_of VALID_ITEMS menu = Some items" "item \<in> set items"
      using b split(1) by (auto simp: is_valid_button_def Let_def split: option.splits)
    then have "menu \<in> set (map fst VALID_ITEMS)" "item \<in> set (concat (map snd VALID_ITEMS))"
      using map_of_SomeD[OF items(1)] by force+
    then have "list_all graphic menu" "list_all graphic item"
      using valid_buttons_graphic by (simp_all only: list_all_append list_all_iff[of "list_all graphic"] set_append set_concat)
    then show ?thesis using graphic_colon split(1) by simp
  next
    case False
    then show ?thesis using b valid_buttons_graphic by (simp add: is_valid_button_def list_all_iff[of "list_all graphic"])
  qed
qed

text \<open>The session of \<open>peer\<close> as \<open>c\<close>, once it has read its pipe.\<close>

definition heard :: "'w mcp \<Rightarrow> string \<Rightarrow> child \<Rightarrow> child" where
  "heard s peer c = (case map_of (pipes (ui s)) peer of Some p \<Rightarrow> run_commands p c | None \<Rightarrow> c)"

lemma heard_command:
  assumes "pipe_connected E s peer p"
  shows "heard (snd (command_child E peer cmd s)) q c
    = (if q = peer then run_commands (cmd @ [CHR 0x0A]) (heard s peer c) else heard s q c)"
  using assms unfolding command_child_open[OF assms]
  by (simp add: heard_def pipe_connected_def update_conv' run_commands_append)

lemma click_command:
  assumes "pipe_connected E s peer p" and "is_valid_button b"
  shows "snd (tool_click_toolbar_button E (JObj [(''peer_id'', JStr peer), (''button_id'', JStr b)]) s)
    = snd (command_child E peer (''click_button:'' @ b) s)"
  using assms(2) command_child_open[OF assms(1)] by (simp add: tool_click_toolbar_button_def say_def)

lemma click_refused:
  "\<not> is_valid_button b \<Longrightarrow> snd (tool_click_toolbar_button E (JObj [(''peer_id'', JStr peer), (''button_id'', JStr b)]) s) = s"
  by (simp add: tool_click_toolbar_button_def)

lemma chat_command:
  assumes "pipe_connected E s peer p"
  shows "snd (tool_send_chat_message E (JObj [(''peer_id'', JStr peer), (''text'', JStr t)]) s)
    = snd (command_child E peer (''chat:'' @ t) s)"
  using command_child_open[OF assms] by (simp add: tool_send_chat_message_def say_def)

lemma graphic_names: "list_all (list_all graphic) [''click_button:'', ''chat:'', ''password:'']"
  by code_simp

lemma hear_click: "list_all graphic b \<Longrightarrow> run_commands (''click_button:'' @ b @ [CHR 0x0A]) c = c\<lparr>clicked := b\<rparr>"
proof -
  assume b: "list_all graphic b"
  then have g: "list_all graphic (''click_button:'' @ b)" using graphic_names by (simp only: list_all_append list.pred_inject)
  then have "CHR 0x0A \<notin> set (''click_button:'' @ b)" unfolding list_all_iff graphic_def by force
  then have "run_commands ((''click_button:'' @ b) @ [CHR 0x0A]) c = child_command (''click_button:'' @ b) c"
    using run_command_line drop_return_graphic[OF g] by metis
  then show ?thesis using trim_graphic[OF g] by (simp add: child_command_def starts_with_def)
qed

lemma hear_chat:
  assumes "CHR 0x0A \<notin> set t"
  shows "\<exists>m. child_command (drop_return (''chat:'' @ t)) c = c\<lparr>chat_msg := m\<rparr> \<and> (list_all graphic t \<longrightarrow> m = t)"
proof (cases "list_all graphic t")
  case True
  then have g: "list_all graphic (''chat:'' @ t)" using graphic_names by (simp only: list_all_append list.pred_inject)
  then show ?thesis
    using drop_return_graphic[OF g] trim_graphic[OF g] by (simp add: child_command_def starts_with_def)
next
  case False
  have g: "list_all graphic ''chat:''" using graphic_names by (simp only: list.pred_inject)
  obtain t' where t': "drop_return (''chat:'' @ t) = ''chat:'' @ t'" using drop_return_keeps[OF g] by blast
  obtain r where "trim_str (''chat:'' @ t') = ''chat:'' @ r" using trim_str_keeps[OF g] by blast
  then show ?thesis using False t' by (intro exI[of _ r]) (simp add: child_command_def starts_with_def)
qed

lemma hear_password: "list_all graphic w \<Longrightarrow> run_commands (''password:'' @ w @ [CHR 0x0A]) c = c\<lparr>entered_password := w\<rparr>"
proof -
  assume w: "list_all graphic w"
  then have g: "list_all graphic (''password:'' @ w)" using graphic_names by (simp only: list_all_append list.pred_inject)
  then have "CHR 0x0A \<notin> set (''password:'' @ w)" unfolding list_all_iff graphic_def by force
  then have "run_commands ((''password:'' @ w) @ [CHR 0x0A]) c = child_command (''password:'' @ w) c"
    using run_command_line drop_return_graphic[OF g] by metis
  then show ?thesis using trim_graphic[OF g] by (simp add: child_command_def starts_with_def)
qed

text \<open>
  C35. A button that the server accepts is exactly one command of the session that it is meant for: that button
  is clicked. A chat message without a line break changes nothing there but the message that is shown; with a
  line break, what follows is read as a command of its own, here as the password. Of neither, whatever its text,
  any other session hears anything.
\<close>

theorem session_commands_isolated:
  assumes "pipe_connected E s peer p"
  shows "\<forall>c. (is_valid_button b \<longrightarrow>
        heard (snd (tool_click_toolbar_button E (JObj [(''peer_id'', JStr peer), (''button_id'', JStr b)]) s)) peer c
          = (heard s peer c)\<lparr>clicked := b\<rparr>)
    \<and> (CHR 0x0A \<notin> set t \<longrightarrow> (\<exists>m. (list_all graphic t \<longrightarrow> m = t)
        \<and> heard (snd (tool_send_chat_message E (JObj [(''peer_id'', JStr peer), (''text'', JStr t)]) s)) peer c
            = (heard s peer c)\<lparr>chat_msg := m\<rparr>
        \<and> (list_all graphic w \<longrightarrow>
            heard (snd (tool_send_chat_message E
              (JObj [(''peer_id'', JStr peer), (''text'', JStr (t @ CHR 0x0A # ''password:'' @ w))]) s)) peer c
            = (heard s peer c)\<lparr>chat_msg := m, entered_password := w\<rparr>)))
    \<and> (q \<noteq> peer \<longrightarrow>
        heard (snd (tool_send_chat_message E (JObj [(''peer_id'', JStr peer), (''text'', JStr u)]) s)) q c = heard s q c
        \<and> heard (snd (tool_click_toolbar_button E (JObj [(''peer_id'', JStr peer), (''button_id'', JStr b)]) s)) q c = heard s q c)"
proof (intro allI conjI impI)
  fix c
  show "heard (snd (tool_send_chat_message E (JObj [(''peer_id'', JStr peer), (''text'', JStr u)]) s)) q c = heard s q c"
    if "q \<noteq> peer"
    using that by (simp only: chat_command[OF assms] heard_command[OF assms] if_False)
  show "heard (snd (tool_click_toolbar_button E (JObj [(''peer_id'', JStr peer), (''button_id'', JStr b)]) s)) q c = heard s q c"
    if "q \<noteq> peer"
  proof (cases "is_valid_button b")
    case True
    then show ?thesis using that by (simp only: click_command[OF assms] heard_command[OF assms] if_False)
  next
    case False
    then show ?thesis by (simp only: click_refused[OF False])
  qed
  show "heard (snd (tool_click_toolbar_button E (JObj [(''peer_id'', JStr peer), (''button_id'', JStr b)]) s)) peer c
      = (heard s peer c)\<lparr>clicked := b\<rparr>" if "is_valid_button b"
    using hear_click[OF valid_button_graphic[OF that]] by (simp only: click_command[OF assms that] heard_command[OF assms] append_assoc if_True simp_thms)
  assume t: "CHR 0x0A \<notin> set t"
  then have n: "CHR 0x0A \<notin> set (''chat:'' @ t)" by simp
  obtain m where m: "child_command (drop_return (''chat:'' @ t)) (heard s peer c) = (heard s peer c)\<lparr>chat_msg := m\<rparr>"
    "list_all graphic t \<longrightarrow> m = t" using hear_chat[OF t] by blast
  have "run_commands ((''chat:'' @ t) @ CHR 0x0A # ''password:'' @ w @ [CHR 0x0A]) (heard s peer c)
      = (heard s peer c)\<lparr>chat_msg := m, entered_password := w\<rparr>" if "list_all graphic w"
    unfolding run_two_lines[OF n] m(1) hear_password[OF that] by (rule refl)
  then show "\<exists>m. (list_all graphic t \<longrightarrow> m = t)
      \<and> heard (snd (tool_send_chat_message E (JObj [(''peer_id'', JStr peer), (''text'', JStr t)]) s)) peer c
          = (heard s peer c)\<lparr>chat_msg := m\<rparr>
      \<and> (list_all graphic w \<longrightarrow>
          heard (snd (tool_send_chat_message E
            (JObj [(''peer_id'', JStr peer), (''text'', JStr (t @ CHR 0x0A # ''password:'' @ w))]) s)) peer c
          = (heard s peer c)\<lparr>chat_msg := m, entered_password := w\<rparr>)"
    using m run_command_line[OF n] unfolding chat_command[OF assms] heard_command[OF assms]
    by (intro exI[of _ m]) simp
qed

theorem session_commands_isolated_witness:
  "\<forall>c. heard (snd (tool_click_toolbar_button demo_env (JObj [(''peer_id'', JStr ''p''), (''button_id'', JStr ''display:shrink'')]) demo_state)) ''p'' c
    = (heard demo_state ''p'' c)\<lparr>clicked := ''display:shrink''\<rparr>"
proof -
  have c: "pipe_connected demo_env demo_state ''p'' []" by (simp add: pipe_connected_def demo_env_def demo_state_def whole_lines_def)
  have "is_valid_button ''display:shrink''" by code_simp
  then show ?thesis using session_commands_isolated[OF c, of "''display:shrink''" "[]" "[]" "''q''" "[]"] by blast
qed

section \<open>The catalogue\<close>

definition announced_name :: "json \<Rightarrow> string" where
  "announced_name t = get_or_else (as_str (field t ''name'')) []"

lemma catalogue_table: "map (\<lambda>t. (announced_name t, required_args t)) TOOL_LIST =
  [(''screenshot'', []), (''get_window_list'', []), (''mouse_click'', [''x'', ''y'']), (''type_text'', [''text'']),
   (''key_press'', [''key'']), (''mouse_move'', [''x'', ''y'']), (''get_device_info'', []), (''list_peers'', []),
   (''connect_to_peer'', [''peer_id'']), (''disconnect_peer'', [''peer_id'']), (''list_active_connections'', []),
   (''get_ui_state'', []), (''dismiss_dialog'', [''peer_id'']), (''click_toolbar_button'', [''peer_id'', ''button_id'']),
   (''test_print'', []), (''set_remote_printer'', []), (''wait_for_event'', [''event'', ''peer_id'']),
   (''exec_operation'', [''operation'']), (''get_clipboard'', []), (''set_clipboard'', [''text'']),
   (''send_chat_message'', [''peer_id'', ''text'']), (''switch_permission'', [''conn_id'', ''permission'', ''enabled'']),
   (''list_incoming_connections'', []), (''list_local_files'', []), (''read_local_file'', [''path'']),
   (''run_command'', [''command'']), (''scroll'', []), (''mouse_drag'', [''start_x'', ''start_y'', ''end_x'', ''end_y'']),
   (''wait_for_screen_change'', []), (''screen_diff_summary'', []), (''verify_action_result'', []), (''start_recording'', []),
   (''stop_recording'', []), (''replay_workflow'', [''steps'']), (''read_screen_text'', []), (''get_screen_size'', []),
   (''find_element'', [''text'']), (''click_text'', [''text'']), (''wait_for_text'', [''text'']), (''key_hold'', [''key'']),
   (''key_release'', [''key''])]"
  by code_simp

text \<open>A tool without an argument that it needs says so and does nothing.\<close>

definition needs :: "'w tool \<Rightarrow> string \<Rightarrow> bool" where
  "needs f r \<longleftrightarrow> (\<forall>args s. field args r = JNull \<longrightarrow> (\<exists>m. f args s = Some (Bad m, s)))"

lemma i32_missing [simp]: "field args k = JNull \<Longrightarrow> i32_at args k = None"
  by (simp add: i32_at_def)

lemma same_elements: "list_all (\<lambda>x. x \<in> set ys) xs \<Longrightarrow> list_all (\<lambda>y. y \<in> set xs) ys \<Longrightarrow> set xs = set ys"
  by (auto simp: list_all_iff)

lemma dispatch_names:
  "dispatch E incoming rp ''mouse_click'' = (\<lambda>a s. Some (tool_mouse_click E a s))"
  "dispatch E incoming rp ''type_text'' = (\<lambda>a s. Some (tool_type_text E a s))"
  "dispatch E incoming rp ''key_press'' = (\<lambda>a s. Some (tool_key_press E a s))"
  "dispatch E incoming rp ''mouse_move'' = (\<lambda>a s. Some (tool_mouse_move E a s))"
  "dispatch E incoming rp ''connect_to_peer'' = (\<lambda>a s. Some (tool_connect_to_peer E a s))"
  "dispatch E incoming rp ''disconnect_peer'' = (\<lambda>a s. Some (tool_disconnect_peer a s))"
  "dispatch E incoming rp ''dismiss_dialog'' = (\<lambda>a s. Some (tool_dismiss_dialog E a s))"
  "dispatch E incoming rp ''click_toolbar_button'' = (\<lambda>a s. Some (tool_click_toolbar_button E a s))"
  "dispatch E incoming rp ''wait_for_event'' = tool_wait_for_event E"
  "dispatch E incoming rp ''exec_operation'' = tool_exec_operation E"
  "dispatch E incoming rp ''set_clipboard'' = (\<lambda>a s. Some (tool_set_clipboard E a s))"
  "dispatch E incoming rp ''send_chat_message'' = (\<lambda>a s. Some (tool_send_chat_message E a s))"
  "dispatch E incoming rp ''switch_permission'' = (\<lambda>a s. Some (tool_switch_permission E a s))"
  "dispatch E incoming rp ''read_local_file'' = (\<lambda>a s. Some (tool_read_local_file E a s))"
  "dispatch E incoming rp ''run_command'' = (\<lambda>a s. Some (tool_run_command E a s))"
  "dispatch E incoming rp ''mouse_drag'' = (\<lambda>a s. Some (tool_mouse_drag E a s))"
  "dispatch E incoming rp ''find_element'' = (\<lambda>a s. Some (tool_find_element E a s))"
  "dispatch E incoming rp ''click_text'' = (\<lambda>a s. Some (tool_click_text E a s))"
  "dispatch E incoming rp ''wait_for_text'' = tool_wait_for_text E"
  "dispatch E incoming rp ''key_hold'' = (\<lambda>a s. Some (tool_key_hold E a s))"
  "dispatch E incoming rp ''key_release'' = (\<lambda>a s. Some (tool_key_release E a s))"
  "dispatch E incoming rp ''replay_workflow'' = rp"
  by (simp_all add: fun_eq_iff dispatch_def tools_def)

lemma tools_need:
  "needs (dispatch E incoming rp ''mouse_click'') ''x''"
  "needs (dispatch E incoming rp ''mouse_click'') ''y''"
  "needs (dispatch E incoming rp ''type_text'') ''text''"
  "needs (dispatch E incoming rp ''key_press'') ''key''"
  "needs (dispatch E incoming rp ''mouse_move'') ''x''"
  "needs (dispatch E incoming rp ''mouse_move'') ''y''"
  "needs (dispatch E incoming rp ''connect_to_peer'') ''peer_id''"
  "needs (dispatch E incoming rp ''disconnect_peer'') ''peer_id''"
  "needs (dispatch E incoming rp ''dismiss_dialog'') ''peer_id''"
  "needs (dispatch E incoming rp ''click_toolbar_button'') ''peer_id''"
  "needs (dispatch E incoming rp ''click_toolbar_button'') ''button_id''"
  "needs (dispatch E incoming rp ''wait_for_event'') ''event''"
  "needs (dispatch E incoming rp ''wait_for_event'') ''peer_id''"
  "needs (dispatch E incoming rp ''exec_operation'') ''operation''"
  "needs (dispatch E incoming rp ''set_clipboard'') ''text''"
  "needs (dispatch E incoming rp ''send_chat_message'') ''peer_id''"
  "needs (dispatch E incoming rp ''send_chat_message'') ''text''"
  "needs (dispatch E incoming rp ''switch_permission'') ''conn_id''"
  "needs (dispatch E incoming rp ''switch_permission'') ''permission''"
  "needs (dispatch E incoming rp ''switch_permission'') ''enabled''"
  "needs (dispatch E incoming rp ''read_local_file'') ''path''"
  "needs (dispatch E incoming rp ''run_command'') ''command''"
  "needs (dispatch E incoming rp ''find_element'') ''text''"
  "needs (dispatch E incoming rp ''click_text'') ''text''"
  "needs (dispatch E incoming rp ''wait_for_text'') ''text''"
  "needs (dispatch E incoming rp ''key_hold'') ''key''"
  "needs (dispatch E incoming rp ''key_release'') ''key''"
  unfolding dispatch_names needs_def
  by (auto simp: tool_mouse_click_def
    tool_type_text_def
    tool_key_press_def
    tool_mouse_move_def
    tool_connect_to_peer_def
    tool_disconnect_peer_def
    tool_dismiss_dialog_def
    tool_click_toolbar_button_def
    tool_wait_for_event_def
    tool_exec_operation_def
    tool_set_clipboard_def
    tool_send_chat_message_def
    tool_switch_permission_def
    tool_read_local_file_def
    tool_run_command_def
    tool_find_element_def
    tool_click_text_def
    tool_wait_for_text_def
    tool_key_hold_def
    tool_key_release_def split: option.splits)

lemma drag_needs:
  "k \<in> {''start_x'', ''start_y'', ''end_x'', ''end_y''} \<Longrightarrow> needs (dispatch E incoming rp ''mouse_drag'') k"
  unfolding dispatch_names by (auto simp: needs_def tool_mouse_drag_def split: option.splits)

lemma replay_needs: "needs (dispatch E incoming (tool_replay_workflow E incoming) ''replay_workflow'') ''steps''"
  unfolding dispatch_names by (simp add: needs_def tool_replay_workflow_def)

text \<open>
  C36. The catalogue announces exactly the tools that are served, each once; and a call that lacks an argument
  that the catalogue calls required, or has \<open>null\<close> for it, is an error and does nothing.
\<close>

theorem catalogue_is_served:
  "distinct (map announced_name TOOL_LIST) \<and> set (map announced_name TOOL_LIST) = fst ` set (tools E incoming replay)
    \<and> (\<forall>t\<in>set TOOL_LIST. \<forall>r\<in>set (required_args t). \<forall>args s. field args r = JNull \<longrightarrow>
        (\<exists>m. dispatch E incoming (tool_replay_workflow E incoming) (announced_name t) args s = Some (Bad m, s)))"
proof (intro conjI)
  have names: "map announced_name TOOL_LIST = map fst (map (\<lambda>t. (announced_name t, required_args t)) TOOL_LIST)" by simp
  show "distinct (map announced_name TOOL_LIST)" unfolding names catalogue_table by code_simp
  have served: "fst ` set (tools E incoming replay) = set (map fst (tools E incoming replay))" by simp
  show "set (map announced_name TOOL_LIST) = fst ` set (tools E incoming replay)"
    unfolding names catalogue_table served
    unfolding tools_def list.map fst_conv by (rule same_elements) code_simp+
  have "\<forall>(n, rs)\<in>set (map (\<lambda>t. (announced_name t, required_args t)) TOOL_LIST). \<forall>r\<in>set rs.
      needs (dispatch E incoming (tool_replay_workflow E incoming) n) r"
    unfolding catalogue_table by (simp add: tools_need drag_needs replay_needs)
  then show "\<forall>t\<in>set TOOL_LIST. \<forall>r\<in>set (required_args t). \<forall>args s. field args r = JNull \<longrightarrow>
      (\<exists>m. dispatch E incoming (tool_replay_workflow E incoming) (announced_name t) args s = Some (Bad m, s))"
    by (simp add: needs_def)
qed

theorem catalogue_is_served_witness:
  "\<exists>m. dispatch demo_env nobody (tool_replay_workflow demo_env nobody) ''run_command'' JNull demo_state = Some (Bad m, demo_state)"
proof -
  have "(''run_command'', [''command'']) \<in> set (map (\<lambda>t. (announced_name t, required_args t)) TOOL_LIST)"
    unfolding catalogue_table by simp
  then have "(''run_command'', [''command'']) \<in> (\<lambda>t. (announced_name t, required_args t)) ` set TOOL_LIST" by (simp only: set_map)
  then obtain t where "t \<in> set TOOL_LIST" "(''run_command'', [''command'']) = (announced_name t, required_args t)" by (rule imageE)
  then have t: "t \<in> set TOOL_LIST" "announced_name t = ''run_command''" "''command'' \<in> set (required_args t)"
    by (simp_all only: prod.inject) (metis list.set_intros(1))
  have "field JNull ''command'' = JNull" by simp
  then show ?thesis
    using catalogue_is_served[of demo_env nobody no_replay, THEN conjunct2, THEN conjunct2] t by metis
qed

end
