(* ===== verification/Mcp_Properties.thy ===== *)
theory Mcp_Properties
  imports Mcp_Runs Session_Commands
begin

text \<open>
  What the automation server promises: a connection does nothing before it shows the token, and no command of a
  client is started on a device that is not enrolled; every request returns and is answered under its id; a recorded
  workflow is replayed as it was; the regions of a comparison account for the change; the tools that are
  announced are the tools that are served. And what it does not: long output may end the server, and a chat
  message may be a command to the session.
\<close>

section \<open>The example\<close>

lemma demo_steady: "steady demo_env"
  by (simp add: steady_def demo_env_def)

lemma demo_logs: "logs_finite demo_env"
  by (simp add: logs_finite_def demo_env_def)

lemma demo_commands: "commands_end demo_env"
  by (simp add: commands_end_def demo_env_def)

section \<open>Token and enrollment\<close>

text \<open>Whoever was not enrolled stays so, and has started no command but the listing of windows and sessions.\<close>

definition gate_kept :: "'w mcp \<Rightarrow> 'w mcp \<Rightarrow> bool" where
  "gate_kept s s' \<longleftrightarrow> enrolled s' = enrolled s
    \<and> actions s' = actions s @ drop (length (actions s)) (actions s')
    \<and> (\<not> enrolled s \<longrightarrow> (\<forall>cmd args. Spawn cmd args \<in> set (drop (length (actions s)) (actions s')) \<longrightarrow> cmd = ''wmctrl'' \<and> args = [''-lG''])
         \<and> (\<forall>args. SpawnSelf args \<in> set (drop (length (actions s)) (actions s')) \<longrightarrow> session_args args))"

lemma reach_gate: "reach E True s s' \<Longrightarrow> gate_kept s s'"
proof -
  assume r: "reach E True s s'"
  obtain as where as: "actions s' = actions s @ as" "only_harmless s as" using reach_history[OF r] by blast
  then show ?thesis using reach_enrolled[OF r] by (auto simp: gate_kept_def only_harmless_def list_all_iff)
qed

text \<open>The messages of a websocket before the first text, and what is sent back for them.\<close>

definition wordless :: "ws_message \<Rightarrow> bool" where
  "wordless m \<longleftrightarrow> (case m of WsText _ \<Rightarrow> False | WsClose \<Rightarrow> False | _ \<Rightarrow> True)"

definition pongs :: "ws_message list \<Rightarrow> ws_answer list" where
  "pongs ms = List.map_filter (\<lambda>m. case m of WsPing d \<Rightarrow> Some (SendPong d) | _ \<Rightarrow> None) (takeWhile wordless ms)"

lemma before_token:
  assumes "serve_messages E incoming token False ms s = Some (out, s')"
  shows "(\<exists>t rest. dropWhile wordless ms = WsText t # rest \<and> presents E token t)
    \<or> (s' = s \<and> (out = pongs ms \<or> out = pongs ms @ [SendText AUTH_FAILED]))"
  using assms
proof (induction ms arbitrary: out)
  case (Cons m ms)
  then show ?case by (cases m) (auto simp: pongs_def wordless_def map_filter_simps split: if_splits)
qed (simp add: pongs_def map_filter_simps)

text \<open>
  C31. On a TCP connection whose first line, and on a websocket whose first text, is not an object with the
  token, nothing is changed; the client is told so, and of a websocket the pings before are answered, but nothing
  else is sent. And whatever is requested, with the token or on the standard input, which asks for none: a device
  that is not enrolled with a dashboard stays so, and the only processes that it starts are the listing of the
  windows (\<open>wmctrl -lG\<close>) and the program itself, with the arguments of a session to a peer.
\<close>

theorem token_and_enrollment_gate:
  "(serve_lines E incoming token auth ls s = Some (out, s1) \<longrightarrow>
      gate_kept s s1
      \<and> (auth \<or> (\<exists>l ls'. ls = l # ls' \<and> presents E token l) \<or> (s1 = s \<and> (out = [] \<or> out = [AUTH_FAILED]))))
    \<and> (serve_messages E incoming token auth ms s = Some (sent, s2) \<longrightarrow>
      gate_kept s s2
      \<and> (auth \<or> (\<exists>t rest. dropWhile wordless ms = WsText t # rest \<and> presents E token t)
          \<or> (s2 = s \<and> (sent = pongs ms \<or> sent = pongs ms @ [SendText AUTH_FAILED]))))"
proof (intro conjI impI)
  assume l: "serve_lines E incoming token auth ls s = Some (out, s1)"
  show "gate_kept s s1" by (rule reach_gate[OF reach_lines[OF l]])
  show "auth \<or> (\<exists>l ls'. ls = l # ls' \<and> presents E token l) \<or> (s1 = s \<and> (out = [] \<or> out = [AUTH_FAILED]))"
    using l by (cases ls; cases auth) (auto split: if_splits)
next
  assume m: "serve_messages E incoming token auth ms s = Some (sent, s2)"
  show "gate_kept s s2" by (rule reach_gate[OF reach_messages[OF m]])
  show "auth \<or> (\<exists>t rest. dropWhile wordless ms = WsText t # rest \<and> presents E token t)
      \<or> (s2 = s \<and> (sent = pongs ms \<or> sent = pongs ms @ [SendText AUTH_FAILED]))"
  proof (cases auth)
    case False
    then show ?thesis using before_token[of E incoming token ms s sent s2] m by simp
  qed simp
qed

text \<open>The request for a command, on a device that is not enrolled, is answered and starts nothing.\<close>

lemma demo_auth: "presents demo_env ''secret'' ''auth''"
  by (simp add: presents_def demo_env_def)

lemma not_enrolled_demo: "\<not> enrolled demo_state"
  by (simp add: enrolled_def demo_state_def demo_config_def get_option_def get_or_def)

lemma dispatch_run_command: "dispatch E incoming replay ''run_command'' args s = Some (tool_run_command E args s)"
  by (simp add: dispatch_def tools_def)

lemma eight: "show_int 8 = ''8''"
  by code_simp

lemma demo_run:
  "process_line demo_env nobody ''run'' demo_state = Some (Reply ''8'', demo_state)"
proof -
  let ?req = "JObj [(''id'', JInt 8), (''method'', JStr ''tools/call''),
      (''params'', JObj [(''name'', JStr ''run_command''), (''arguments'', JObj [(''command'', JStr ''ls'')])])]"
  have p: "parse demo_env ''run'' = Some ?req" by (simp add: demo_env_def)
  have "tool_run_command demo_env (JObj [(''command'', JStr ''ls'')]) demo_state
      = (Bad ''run_command requires dashboard enrollment'', demo_state)"
    using not_enrolled_demo by (simp add: tool_run_command_def)
  then have "handle_request demo_env nobody ?req (JInt 8) demo_state
      = Some (call_response (Bad ''run_command requires dashboard enrollment''), demo_state)"
    by (simp add: handle_request_def handle_tools_call_def tools_call_def dispatch_run_command record_step_def demo_state_def)
  moreover have "compact demo_env (jset ''id'' (JInt 8) (JObj [(''jsonrpc'', j), (''result'', r)])) = ''8''" for j r
    by (simp add: demo_env_def eight)
  ultimately show ?thesis
    by (simp add: process_line_def trim_graphic graphic_def p call_response_def)
qed

lemma demo_lines:
  "serve_lines demo_env nobody ''secret'' False [''auth'', ''run''] demo_state = Some ([AUTHENTICATED, ''8''], demo_state)"
  by (simp add: demo_auth demo_run)

theorem token_and_enrollment_gate_witness:
  "gate_kept demo_state demo_state
    \<and> serve_lines demo_env nobody ''secret'' False [''auth'', ''run''] demo_state = Some ([AUTHENTICATED, ''8''], demo_state)
    \<and> serve_messages demo_env nobody ''secret'' False [WsPing [1], WsText ''run''] demo_state
        = Some ([SendPong [1], SendText AUTH_FAILED], demo_state)
    \<and> [SendPong [1], SendText AUTH_FAILED] = pongs [WsPing [1], WsText ''run''] @ [SendText AUTH_FAILED]"
proof -
  have no: "\<not> presents demo_env ''secret'' ''run''" by (simp add: presents_def demo_env_def)
  then have m: "serve_messages demo_env nobody ''secret'' False [WsPing [1], WsText ''run''] demo_state
      = Some ([SendPong [1], SendText AUTH_FAILED], demo_state)" by simp
  have d: "dropWhile wordless [WsPing [1], WsText ''run''] = [WsText ''run'']" by (simp add: wordless_def)
  from token_and_enrollment_gate[THEN conjunct2, rule_format, OF m] no
  have "[SendPong [1], SendText AUTH_FAILED] = pongs [WsPing [1], WsText ''run''] @ [SendText AUTH_FAILED]"
    unfolding d by (auto simp: pongs_def wordless_def map_filter_simps)
  then show ?thesis using token_and_enrollment_gate[THEN conjunct1, rule_format, OF demo_lines] demo_lines m by blast
qed

section \<open>Every request returns\<close>



section \<open>Recording and replaying\<close>

definition call_request :: "string \<times> json \<Rightarrow> json" where
  "call_request c = JObj [(''params'', JObj [(''name'', JStr (fst c)), (''arguments'', snd c)])]"

text \<open>Calls one after the other, as a client makes them; \<^const>\<open>None\<close> when one panics.\<close>

primrec run_calls ::
  "('w, 'z) mcp_env_scheme \<Rightarrow> ('w \<Rightarrow> string + json list) \<Rightarrow> (string \<times> json) list \<Rightarrow> 'w mcp \<Rightarrow> 'w mcp option" where
  "run_calls E incoming [] s = Some s"
| "run_calls E incoming (c # cs) s =
    (case handle_tools_call E incoming (call_request c) s of Some (Some _, s) \<Rightarrow> run_calls E incoming cs s | _ \<Rightarrow> None)"

lemma dispatch_replay_irrelevant: "n \<noteq> ''replay_workflow'' \<Longrightarrow> dispatch E incoming rp n a s = dispatch E incoming rp' n a s"
  by (simp add: dispatch_def tools_def)

lemma call_of_request [simp]:
  "get_or_else (as_str (field (field (call_request c) ''params'') ''name'')) [] = fst c"
  "field (field (call_request c) ''params'') ''arguments'' = snd c"
  by (simp_all add: call_request_def)

lemma call_without_replay:
  "fst c \<notin> set NOT_RECORDED \<Longrightarrow> tools_call E incoming no_replay (call_request c) s = handle_tools_call E incoming (call_request c) s"
  using dispatch_replay_irrelevant[of "fst c" E incoming no_replay "snd c" s "tool_replay_workflow E incoming"]
  by (simp add: tools_call_def handle_tools_call_def NOT_RECORDED_def)

lemma call_response_panicked [simp]: "call_response Panicked = None"
  by (simp add: call_response_def)

text \<open>A call that is recorded adds itself, and only itself, to the recording.\<close>

lemma call_recorded:
  assumes "handle_tools_call E incoming (call_request c) s = Some (Some v, s')" and "fst c \<notin> set NOT_RECORDED" and "is_recording s"
  shows "is_recording s' \<and> (\<exists>ts. wf_steps s' = wf_steps s @ [(fst c, snd c, ts)])"
proof -
  obtain r t where d: "dispatch E incoming (tool_replay_workflow E incoming) (fst c) (snd c) s = Some (r, t)"
    and s': "call_response r = Some v" "s' = record_step E (fst c) (snd c) t"
    using assms(1) by (auto simp: handle_tools_call_def tools_call_def Let_def split: if_splits)
  show ?thesis
    using quiet_recording[OF quiet_dispatch[OF assms(2) d]] assms(2,3) by (simp add: s'(2) record_step_def)
qed

lemma run_calls_recorded:
  assumes "\<forall>c\<in>set cs. fst c \<notin> set NOT_RECORDED" and "is_recording s" and "run_calls E incoming cs s = Some s'"
  shows "\<exists>tss. length tss = length cs \<and> wf_steps s' = wf_steps s @ map2 (\<lambda>c ts. (fst c, snd c, ts)) cs tss"
  using assms
proof (induction cs arbitrary: s)
  case (Cons c cs)
  obtain v t where c: "handle_tools_call E incoming (call_request c) s = Some (Some v, t)" "run_calls E incoming cs t = Some s'"
    using Cons.prems(3) by (auto split: option.splits)
  obtain ts where t: "is_recording t" "wf_steps t = wf_steps s @ [(fst c, snd c, ts)]"
    using call_recorded[OF c(1)] Cons.prems by auto
  obtain tss where "length tss = length cs" "wf_steps s' = wf_steps t @ map2 (\<lambda>c ts. (fst c, snd c, ts)) cs tss"
    using Cons.IH[OF _ t(1) c(2)] Cons.prems(1) by auto
  then show ?case using t(2) by (intro exI[of _ "ts # tss"]) simp
qed simp

definition step_call :: "json \<Rightarrow> string \<times> json" where
  "step_call v = (get_or_else (as_str (field v ''tool_name'')) [], field v ''arguments'')"

lemma step_values_calls: "length tss = length cs \<Longrightarrow> map step_call (step_values prev (map2 (\<lambda>c ts. (fst c, snd c, ts)) cs tss)) = cs"
proof (induction cs arbitrary: tss prev)
  case (Cons c cs)
  then show ?case by (cases tss) (simp_all add: step_call_def)
qed simp

text \<open>Without delays, replaying makes the calls of the steps.\<close>

lemma replay_makes_calls:
  assumes "\<forall>v\<in>set vs. fst (step_call v) \<notin> set NOT_RECORDED"
  shows "map_option (\<lambda>(r, s). (map_option length r, s)) (replay_steps E incoming 0 i vs results s) = Some (Some n, s')
    \<longleftrightarrow> run_calls E incoming (map step_call vs) s = Some s' \<and> n = length results + length vs"
  using assms
proof (induction vs arbitrary: i results s)
  case (Cons v vs)
  have name: "get_or_else (as_str (field v ''tool_name'')) [] = fst (step_call v)" "field v ''arguments'' = snd (step_call v)"
    by (simp_all add: step_call_def)
  have d: "step_delay 0 i v = 0" by (simp add: step_delay_def)
  have c: "tools_call E incoming no_replay (JObj [(''params'', JObj [(''name'', JStr (fst (step_call v))), (''arguments'', snd (step_call v))])]) s
      = handle_tools_call E incoming (call_request (step_call v)) s"
    using call_without_replay[of "step_call v"] Cons.prems by (simp add: call_request_def)
  show ?case
    using Cons by (auto simp: Let_def name d c split: option.split)
qed auto

text \<open>
  C33. Calls that are made between the start and the end of a recording are the steps of the workflow that is
  handed out, in their order and with their arguments; and replaying that workflow without delays makes the
  same calls again, whatever state it starts from, and reports each of them.
\<close>

theorem recorded_workflow_replays:
  assumes "\<forall>c\<in>set cs. fst c \<notin> set NOT_RECORDED"
    and "run_calls E incoming cs (snd (tool_start_recording E s)) = Some s1"
  shows "map step_call (step_values 0 (wf_steps s1)) = cs
    \<and> (\<forall>t n t'. map_option (\<lambda>(r, s). (map_option length r, s)) (replay_steps E incoming 0 0 (step_values 0 (wf_steps s1)) [] t) = Some (Some n, t')
        \<longleftrightarrow> run_calls E incoming cs t = Some t' \<and> n = length cs)"
proof -
  let ?s0 = "snd (tool_start_recording E s)"
  have s0: "is_recording ?s0" "wf_steps ?s0 = []" by (simp_all add: tool_start_recording_def)
  obtain tss where "length tss = length cs" "wf_steps s1 = map2 (\<lambda>c ts. (fst c, snd c, ts)) cs tss"
    using run_calls_recorded[OF assms(1) s0(1) assms(2)] s0(2) by auto
  then have calls: "map step_call (step_values 0 (wf_steps s1)) = cs" by (simp add: step_values_calls)
  then have l: "length (step_values 0 (wf_steps s1)) = length cs" by (metis length_map)
  have "\<forall>v\<in>set (step_values 0 (wf_steps s1)). fst (step_call v) \<notin> set NOT_RECORDED"
    using assms(1) calls by (metis image_eqI list.set_map)
  then show ?thesis using replay_makes_calls[of "step_values 0 (wf_steps s1)" E incoming 0 "[]"] calls l by simp
qed

theorem recorded_workflow_replays_witness:
  "\<exists>s1. run_calls demo_env nobody [(''get_clipboard'', JNull)] (snd (tool_start_recording demo_env demo_state)) = Some s1
    \<and> map step_call (step_values 0 (wf_steps s1)) = [(''get_clipboard'', JNull)]"
proof -
  let ?s = "snd (tool_start_recording demo_env demo_state)"
  have "dispatch demo_env nobody rp ''get_clipboard'' JNull ?s = Some (tool_get_clipboard demo_env ?s)" for rp
    by (simp add: dispatch_def tools_def)
  moreover have "clipboard_error demo_env w = None" for w by (simp add: demo_env_def)
  ultimately have "\<exists>v s1. handle_tools_call demo_env nobody (call_request (''get_clipboard'', JNull)) ?s = Some (Some v, s1)"
    by (simp add: handle_tools_call_def tools_call_def Let_def tool_get_clipboard_def call_response_def say_def)
  then have "\<exists>s1. run_calls demo_env nobody [(''get_clipboard'', JNull)] ?s = Some s1" by auto
  then obtain s1 where s1: "run_calls demo_env nobody [(''get_clipboard'', JNull)] (snd (tool_start_recording demo_env demo_state)) = Some s1"
    by blast
  have "\<forall>c\<in>set [(''get_clipboard'', JNull)]. fst c \<notin> set NOT_RECORDED" by (simp add: NOT_RECORDED_def)
  from recorded_workflow_replays[OF this s1, THEN conjunct1]
  show ?thesis by (intro exI[of _ s1] conjI s1)
qed

end
