(* ===== verification/Dashboard.thy ===== *)
theory Dashboard
  imports Mcp_Server
begin

text \<open>
  Enrollment of a device with a dashboard, and the requests for support (\<open>src/dashboard.rs\<close>): the stored
  tokens, the addresses of the service, the validation of an invitation, the registration with its deployment
  settings, the network settings of an account, and the attachments of tickets. What the service, the files and
  the operating system answer are parameters that change the world. Messages are logged from the level info on.
\<close>

section \<open>The machine\<close>

text \<open>
  Requests to the service (an error, or a value), what fetching the table of addresses needs, text files with
  their removal and writing (an error or nothing), and the waking of other machines.
\<close>

record 'w dash_env = "'w mcp_env" +
  http_get :: "string \<Rightarrow> 'w \<Rightarrow> (string + json) \<times> 'w"
  http_post :: "string \<Rightarrow> (string \<times> string) list \<Rightarrow> 'w \<Rightarrow> (string + json) \<times> 'w"
  http_upload :: "string \<Rightarrow> (string \<times> string) list \<Rightarrow> string \<times> bytes \<Rightarrow> 'w \<Rightarrow> (string + nat \<times> string) \<times> 'w"
  table_env :: "'w api_env"
  text_file :: "string \<Rightarrow> 'w \<Rightarrow> string option"
  remove_file :: "string \<Rightarrow> 'w \<Rightarrow> 'w"
  write_file :: "string \<Rightarrow> string \<Rightarrow> 'w \<Rightarrow> string option \<times> 'w"
  make_parent :: "string \<Rightarrow> 'w \<Rightarrow> string option \<times> 'w"
  config_path :: "string \<Rightarrow> string"
  shared_path :: "string \<Rightarrow> string"
  restart_network :: "'w \<Rightarrow> 'w"
  notify_relinked :: "'w \<Rightarrow> 'w"
  wake_machine :: "string \<Rightarrow> 'w \<Rightarrow> 'w"
  mac_address :: string
  timezone :: string
  user_name :: "'w \<Rightarrow> string"
  devices :: device_env
  sha256 :: "bytes \<Rightarrow> bytes"

definition opt :: "string \<Rightarrow> 'w mcp \<Rightarrow> string" where
  "opt k s = get_option (mcp_cfg s) k"

definition put :: "string \<Rightarrow> string \<Rightarrow> 'w mcp \<Rightarrow> 'w mcp" where
  "put k v s = s\<lparr>mcp_cfg := set_option k v (mcp_cfg s)\<rparr>"

definition web_get :: "('w, 'z) dash_env_scheme \<Rightarrow> string \<Rightarrow> 'w mcp \<Rightarrow> (string + json) \<times> 'w mcp" where
  "web_get E url s = (let (r, w) = http_get E url (world s) in (r, s\<lparr>world := w\<rparr>))"

definition web_post :: "('w, 'z) dash_env_scheme \<Rightarrow> string \<Rightarrow> (string \<times> string) list \<Rightarrow> 'w mcp \<Rightarrow> (string + json) \<times> 'w mcp" where
  "web_post E url form s = (let (r, w) = http_post E url form (world s) in (r, s\<lparr>world := w\<rparr>))"

definition device_id :: "('w, 'z) dash_env_scheme \<Rightarrow> 'w mcp \<Rightarrow> string \<times> 'w mcp" where
  "device_id E s = (let (i, c) = get_id E (mcp_cfg s) in (i, s\<lparr>mcp_cfg := c\<rparr>))"

definition succeeded :: "json \<Rightarrow> bool" where
  "succeeded v \<longleftrightarrow> as_bool (field v ''success'') = Some True"

text \<open>\<open>as_str().unwrap_or("")\<close> of a member.\<close>

definition text_at :: "json \<Rightarrow> string \<Rightarrow> string" where
  "text_at v k = get_or_else (as_str (field v k)) []"

section \<open>Stored tokens and addresses\<close>

definition get_dashboard_user_id :: "'w mcp \<Rightarrow> string" where
  "get_dashboard_user_id s = opt ''dashboard_user_id'' s"

definition is_linked :: "'w mcp \<Rightarrow> bool" where
  "is_linked s \<longleftrightarrow> opt ''dashboard_user_id'' s \<noteq> []"

definition set_pending_quick_connect_token :: "string \<Rightarrow> 'w mcp \<Rightarrow> 'w mcp" where
  "set_pending_quick_connect_token token s = put ''pending_quick_connect_token'' token s"

definition has_pending_quick_connect_token :: "'w mcp \<Rightarrow> bool" where
  "has_pending_quick_connect_token s \<longleftrightarrow> opt ''pending_quick_connect_token'' s \<noteq> []"

definition take_pending_quick_connect_token :: "'w mcp \<Rightarrow> string \<times> 'w mcp" where
  "take_pending_quick_connect_token s =
    (let token = opt ''pending_quick_connect_token'' s
     in (token, if token \<noteq> [] then put ''pending_quick_connect_token'' [] s else s))"

text \<open>The text of a file without blanks around it, when there is any.\<close>

definition file_token :: "('w, 'z) dash_env_scheme \<Rightarrow> string \<Rightarrow> 'w mcp \<Rightarrow> string option" where
  "file_token E path s =
    (case text_file E path (world s) of
       Some t \<Rightarrow> if trim_str t \<noteq> [] then Some (trim_str t) else None
     | None \<Rightarrow> None)"

definition get_invite_code :: "('w, 'z) dash_env_scheme \<Rightarrow> 'w mcp \<Rightarrow> string" where
  "get_invite_code E s =
    (let code = opt ''invite_code'' s
     in if code \<noteq> [] then code
        else (case file_token E (config_path E ''InviteCode.toml'') s of
                Some code \<Rightarrow> code
              | None \<Rightarrow> get_or_else (file_token E (shared_path E ''InviteCode.toml'') s) []))"

definition get_prefilled_enrollment_token :: "('w, 'z) dash_env_scheme \<Rightarrow> 'w mcp \<Rightarrow> string" where
  "get_prefilled_enrollment_token E s = get_or_else (file_token E (shared_path E ''EnrollmentToken.toml'') s) []"

definition DASHBOARD_API_URL :: string where "DASHBOARD_API_URL = ''https://dashboard.hoptodesk.com/api''"
definition DASHBOARD_WS_URL :: string where "DASHBOARD_WS_URL = ''wss://dashboard.hoptodesk.com/socket.io/''"

definition dashboard_ws_url :: "'w mcp \<Rightarrow> string" where
  "dashboard_ws_url s = (let v = opt ''dashboard-ws-url'' s in if v = [] then DASHBOARD_WS_URL else v)"

definition dashboard_api_base :: "'w mcp \<Rightarrow> string" where
  "dashboard_api_base s = (let v = opt ''dashboard-api-url'' s in if v = [] then DASHBOARD_API_URL else v)"

definition apply_dashboard_endpoint :: "string \<Rightarrow> json \<Rightarrow> string \<Rightarrow> string \<Rightarrow> 'w mcp \<Rightarrow> 'w mcp" where
  "apply_dashboard_endpoint key place scheme path s =
    (let desired = (case (as_str (field place ''host''), as_str (field place ''port'')) of
                      (Some h, Some p) \<Rightarrow> scheme @ ''://'' @ h @ '':'' @ p @ path
                    | _ \<Rightarrow> [])
     in if opt key s \<noteq> desired then put key desired s else s)"

text \<open>The table of addresses: from memory, the local file, the stored option or the network, which stores it.\<close>

definition call_api :: "('w, 'z) dash_env_scheme \<Rightarrow> 'w mcp \<Rightarrow> (string + json) \<times> 'w mcp" where
  "call_api E s =
    (let (r, a, c, w) = table_call (table_env E) (api s, mcp_cfg s, world s) in (r, s\<lparr>api := a, mcp_cfg := c, world := w\<rparr>))"

definition refresh_dashboard_endpoints :: "('w, 'z) dash_env_scheme \<Rightarrow> 'w mcp \<Rightarrow> 'w mcp" where
  "refresh_dashboard_endpoints E s =
    (case call_api E s of
       (Inl _, s) \<Rightarrow> s
     | (Inr m, s) \<Rightarrow>
         apply_dashboard_endpoint ''dashboard-api-url'' (field m ''dashboardapi'') ''https'' ''/api''
           (apply_dashboard_endpoint ''dashboard-ws-url'' (field m ''dashboardws'') ''wss'' ''/socket.io/'' s))"

section \<open>Invitations\<close>

text \<open>The enrollment token, the account, the kind of invitation and the name of the account.\<close>

type_synonym invite = "string \<times> string \<times> string \<times> string"

definition validate_invite :: "('w, 'z) dash_env_scheme \<Rightarrow> string \<Rightarrow> 'w mcp \<Rightarrow> (string + invite) \<times> 'w mcp" where
  "validate_invite E invite_code s =
    (let s = refresh_dashboard_endpoints E s
     in case web_get E (dashboard_api_base s @ ''?action=validateInvite&invite_code='' @ invite_code) s of
          (Inl e, s) \<Rightarrow> (Inl e, s)
        | (Inr resp, s) \<Rightarrow>
            if \<not> succeeded resp then (Inl (''validateInvite failed: '' @ compact E resp), s)
            else
              let v = field resp ''invite''; user = text_at v ''dashboard_user_id''
              in if user = [] \<or> starts_with user ''DASH-'' then (Inl (''Invalid dashboard_user_id: '' @ user), s)
                 else (Inr (text_at v ''enrollment_token'', user, get_or_else (as_str (field v ''invite_type'')) ''standard'',
                            text_at v ''account_name''), s))"

definition get_share_invite :: "('w, 'z) dash_env_scheme \<Rightarrow> 'w mcp \<Rightarrow> (string + string) \<times> 'w mcp" where
  "get_share_invite E s =
    (let s = refresh_dashboard_endpoints E s; cached = opt ''share_invite_code'' s; user = get_dashboard_user_id s
     in if cached \<noteq> [] then (Inr cached, s)
        else if user = [] then (Inl ''Not linked to a dashboard'', s)
        else
          let (i, s) = device_id E s
          in if i = [] then (Inl ''Device ID not available'', s)
             else (case web_post E (dashboard_api_base s @ ''?action=getShareInvite'')
                       [(''device_id'', i), (''dashboard_user_id'', user)] s of
                     (Inl e, s) \<Rightarrow> (Inl e, s)
                   | (Inr resp, s) \<Rightarrow>
                       if \<not> succeeded resp then (Inl (''getShareInvite failed: '' @ compact E resp), s)
                       else let code = text_at resp ''invite_code''
                            in if code = [] then (Inl ''getShareInvite returned empty code'', s)
                               else (Inr code, put ''share_invite_code'' code s)))"

section \<open>Registration\<close>

text \<open>The settings that come with a registration.\<close>

definition apply_deployment :: "('w, 'z) dash_env_scheme \<Rightarrow> json \<Rightarrow> 'w mcp \<Rightarrow> 'w mcp" where
  "apply_deployment E resp s =
    (case jget resp ''deployment_settings'' of
       None \<Rightarrow> s
     | Some settings \<Rightarrow>
         let s = (if as_bool (field settings ''enable_unattended_access'') = Some True then put ''unattended-access'' ''true'' s else s)
         in (case as_str (field settings ''default_password'') of
               Some password \<Rightarrow>
                 if password \<noteq> [] then s\<lparr>mcp_cfg := set_permanent_password (devices E) password (mcp_cfg s)\<rparr> else s
             | None \<Rightarrow> s))"

definition register_device ::
  "('w, 'z) dash_env_scheme \<Rightarrow> string \<Rightarrow> string \<Rightarrow> string \<Rightarrow> 'w mcp \<Rightarrow> (string + string) \<times> 'w mcp" where
  "register_device E enrollment_token invite_code i s =
    (let form = [(''device_id'', i), (''device_name'', host_name E), (''computer_name'', host_name E), (''os'', ''freebsd''),
                 (''mac_address'', mac_address E)]
           @ (if enrollment_token \<noteq> [] then [(''enrollment_token'', enrollment_token)] else [])
           @ (if invite_code \<noteq> [] then [(''invite_code'', invite_code)] else [])
     in case web_post E (dashboard_api_base s @ ''?action=registerDevice'') form s of
          (Inl e, s) \<Rightarrow> (Inl e, s)
        | (Inr resp, s) \<Rightarrow>
            if \<not> succeeded resp then (Inl (''registerDevice failed: '' @ compact E resp), s)
            else (Inr (text_at resp ''dashboard_user_id''), apply_deployment E resp s))"

text \<open>The addresses of an account with a network of its own, from the object that the service gives or from its parts.\<close>

definition server_entry :: "json \<Rightarrow> string \<Rightarrow> (string \<times> json) list" where
  "server_entry resp name =
    (let host = text_at resp (name @ ''_host'')
     in if host = [] then [] else [(name, JObj [(''host'', JStr host), (''port'', JStr (text_at resp (name @ ''_port'')))])])"

definition turn_entry :: "json \<Rightarrow> (string \<times> json) list" where
  "turn_entry resp =
    (let host = text_at resp ''turn_host''; protocol = text_at resp ''turn_protocol''
     in if host = [] then []
        else [(''turnservers'', JArr [JObj
                [(''protocol'', JStr (if protocol = [] then ''turn'' else protocol)), (''host'', JStr host),
                 (''port'', JStr (text_at resp ''turn_port'')), (''username'', JStr (text_at resp ''turn_username'')),
                 (''password'', JStr (text_at resp ''turn_password''))]])])"

definition network_api :: "json \<Rightarrow> json" where
  "network_api resp =
    (case field resp ''api_json'' of
       JObj kvs \<Rightarrow> JObj kvs
     | _ \<Rightarrow> JObj ([(''none'', JStr ''none'')] @ turn_entry resp @ server_entry resp ''rendezvous'' @ server_entry resp ''rendezvousssl''))"

text \<open>
  The file \<open>api.json\<close> is written, the table of addresses is dropped from the settings and from memory, and the
  connection to the rendezvous server is made again.
\<close>

definition get_network_settings :: "('w, 'z) dash_env_scheme \<Rightarrow> string \<Rightarrow> 'w mcp \<Rightarrow> (string + unit) \<times> 'w mcp" where
  "get_network_settings E invite_code s =
    (case web_get E (dashboard_api_base s @ ''?action=getNetworkSettingsByInvite&invite_code='' @ invite_code) s of
       (Inl e, s) \<Rightarrow> (Inl e, s)
     | (Inr resp, s) \<Rightarrow>
         if \<not> succeeded resp \<or> get_or_else (as_str (field resp ''network_type'')) ''hoptodesk'' \<noteq> ''custom'' then (Inr (), s)
         else
           let path = config_path E ''api.json''
           in (case make_parent E path (world s) of
                 (Some e, w) \<Rightarrow> (Inl e, s\<lparr>world := w\<rparr>)
               | (None, w) \<Rightarrow>
                   (case write_file E path (pretty E (network_api resp)) w of
                      (Some e, w) \<Rightarrow> (Inl e, s\<lparr>world := w\<rparr>)
                    | (None, w) \<Rightarrow> let s = put ''api-cache'' [] (s\<lparr>world := w\<rparr>)
                        in (Inr (), s\<lparr>api := erase_table (api s), world := restart_network E (world s)\<rparr>))))"

text \<open>The id of the device, waited for up to fifteen seconds.\<close>

primrec await_id :: "('w, 'z) dash_env_scheme \<Rightarrow> nat \<Rightarrow> string \<Rightarrow> 'w mcp \<Rightarrow> string \<times> 'w mcp" where
  "await_id E 0 i s = (i, s)"
| "await_id E (Suc n) i s = (if i \<noteq> [] then (i, s) else let (i, s) = device_id E (pause E 1000 s) in await_id E n i s)"

text \<open>The first eight bytes of the code go to the log; a cut inside a character panics.\<close>

definition log_cut_panics :: "string \<Rightarrow> bool" where
  "log_cut_panics code \<longleftrightarrow> length code > 8 \<and> is_cont (as_bytes code ! 8)"

text \<open>Which token registers the device, and for which account: a token laid down beforehand comes first.\<close>

definition enrollment_for ::
  "('w, 'z) dash_env_scheme \<Rightarrow> string \<Rightarrow> string \<Rightarrow> 'w mcp \<Rightarrow> (string + string \<times> string) option \<times> 'w mcp" where
  "enrollment_for E invite_code prefilled s =
    (if prefilled \<noteq> [] then (Some (Inr (prefilled, [])), s)
     else if log_cut_panics invite_code then (None, s)
     else (case validate_invite E invite_code s of
             (Inl e, s) \<Rightarrow> (Some (Inl e), s)
           | (Inr (t, u, _, name), s) \<Rightarrow>
               (Some (Inr (t, u)), if name \<noteq> [] then put ''dashboard_account_name'' name s else s)))"

text \<open>\<^const>\<open>None\<close>: the cut panics.\<close>

definition link_device :: "('w, 'z) dash_env_scheme \<Rightarrow> 'w mcp \<Rightarrow> (string + unit) option \<times> 'w mcp" where
  "link_device E s =
    (let invite_code = get_invite_code E s; prefilled = get_prefilled_enrollment_token E s
     in if invite_code = [] \<and> prefilled = [] then (Some (Inl ''No invite code or enrollment token set''), s)
        else (case enrollment_for E invite_code prefilled s of
                (None, s) \<Rightarrow> (None, s)
              | (Some (Inl e), s) \<Rightarrow> (Some (Inl e), s)
              | (Some (Inr (token, user)), s) \<Rightarrow>
                  let (i, s) = device_id E s; (i, s) = await_id E 15 i s
                  in if i = [] then (Some (Inl ''Device ID not available after waiting''), s)
                     else (case register_device E token invite_code i s of
                             (Inl e, s) \<Rightarrow> (Some (Inl e), s)
                           | (Inr resolved, s) \<Rightarrow>
                               let user = (if resolved \<noteq> [] then resolved else user);
                                   s = (if user \<noteq> [] then put ''dashboard_device_id'' i (put ''dashboard_user_id'' user s) else s);
                                   s = (if invite_code \<noteq> [] then snd (get_network_settings E invite_code s) else s)
                               in (Some (Inr ()), s))))"

section \<open>What linking changes\<close>

lemma set_option_update:
  "set_option k v c =
    (if is_option_can_save (overwrite_settings c) k (default_settings c) v
     then c\<lparr>options := (options c)(k := if v = [] then None else Some v)\<rparr> else c)"
proof -
  have "c\<lparr>options := (options c)(k := x)\<rparr> = c" if "x = options c k" for x
    using that by (simp add: fun_upd_idem)
  then show ?thesis by (auto simp: set_option_def Let_def)
qed

lemma opt_put [simp]: "k \<noteq> k' \<Longrightarrow> opt k (put k' v s) = opt k s"
  by (auto simp: opt_def put_def get_option_def set_option_update get_or_def split: option.split)

lemma opt_world [simp]: "opt k (s\<lparr>world := w\<rparr>) = opt k s"
  by (simp add: opt_def)

lemma password_put [simp]: "permanent_password (mcp_cfg (put k v s)) = permanent_password (mcp_cfg s)"
  by (simp add: put_def set_option_update)

lemma opt_api [simp]: "opt k (s\<lparr>api := a\<rparr>) = opt k s"
  by (simp add: opt_def)

lemma layers_put [simp]:
  "overwrite_settings (mcp_cfg (put k v s)) = overwrite_settings (mcp_cfg s)"
  "default_settings (mcp_cfg (put k v s)) = default_settings (mcp_cfg s)"
  by (simp_all add: put_def set_option_update)

text \<open>
  Two machines with the same settings but for the options \<open>K\<close>, with the same layers above and below the stored
  ones, and, when \<open>p\<close>, with the same password.
\<close>

definition alike :: "bool \<Rightarrow> string set \<Rightarrow> 'w mcp \<Rightarrow> 'w mcp \<Rightarrow> bool" where
  "alike p K s s' \<longleftrightarrow> (\<forall>k. k \<notin> K \<longrightarrow> opt k s' = opt k s)
    \<and> overwrite_settings (mcp_cfg s') = overwrite_settings (mcp_cfg s) \<and> default_settings (mcp_cfg s') = default_settings (mcp_cfg s)
    \<and> (p \<longrightarrow> permanent_password (mcp_cfg s') = permanent_password (mcp_cfg s))"

named_theorems alike_intros

lemma alike_refl [alike_intros]: "alike p K s s"
  by (simp add: alike_def)

lemma alike_trans: "alike p K s t \<Longrightarrow> alike p K t u \<Longrightarrow> alike p K s u"
  by (simp add: alike_def)

lemma alike_mono: "alike p K s t \<Longrightarrow> K \<subseteq> L \<Longrightarrow> alike p L s t"
  by (auto simp: alike_def)

lemma alike_put [alike_intros]: "k \<in> K \<Longrightarrow> alike p K s t \<Longrightarrow> alike p K s (put k v t)"
  unfolding alike_def by (metis opt_put password_put layers_put)

lemma alike_world [alike_intros]: "alike p K s t \<Longrightarrow> alike p K s (t\<lparr>world := w\<rparr>)"
  by (simp add: alike_def)

lemma alike_api [alike_intros]: "alike p K s t \<Longrightarrow> alike p K s (t\<lparr>api := a\<rparr>)"
  by (simp add: alike_def)

lemma alike_pause [alike_intros]: "alike p K s t \<Longrightarrow> alike p K s (pause E ms t)"
  by (simp add: alike_def pause_def)

lemma alike_web:
  "web_get E url t = (r, t') \<Longrightarrow> alike p K s t \<Longrightarrow> alike p K s t'"
  "web_post E url form t = (r, t') \<Longrightarrow> alike p K s t \<Longrightarrow> alike p K s t'"
  by (auto simp: web_get_def web_post_def intro: alike_world split: prod.splits)

lemma alike_device_id: "device_id E t = (i, t') \<Longrightarrow> alike p K s t \<Longrightarrow> alike p K s t'"
  by (auto simp: device_id_def get_id_def alike_def opt_def get_option_def split: if_splits option.splits)

lemma alike_await: "await_id E n i t = (j, t') \<Longrightarrow> alike p K s t \<Longrightarrow> alike p K s t'"
proof (induction n arbitrary: i t)
  case (Suc n)
  then show ?case
    by (auto split: if_splits prod.splits) (metis alike_device_id alike_pause)
qed simp

text \<open>The addresses of the service, and the stored table they come from.\<close>

definition ENDPOINTS :: "string set" where
  "ENDPOINTS = {''dashboard-ws-url'', ''dashboard-api-url'', ''api-cache''}"

lemma alike_call_api: "call_api E t = (r, t') \<Longrightarrow> ''api-cache'' \<in> K \<Longrightarrow> alike p K s t \<Longrightarrow> alike p K s t'"
proof -
  assume c: "call_api E t = (r, t')" and K: "''api-cache'' \<in> K" "alike p K s t"
  obtain q a c' w where t: "table_call (table_env E) (api t, mcp_cfg t, world t) = (q, a, c', w)" by (metis prod_cases4)
  have t': "t' = t\<lparr>api := a, mcp_cfg := c', world := w\<rparr>" using c t by (simp add: call_api_def)
  from table_call_cache[OF t] consider "c' = mcp_cfg t" | v where "c' = set_option ''api-cache'' v (mcp_cfg t)"
    by (auto simp: same_but_cache_def)
  then show ?thesis
  proof cases
    case 1
    have "t' = t\<lparr>api := a, world := w\<rparr>" unfolding t' 1 by simp
    then show ?thesis using K(2) by (simp add: alike_intros)
  next
    case (2 v)
    have "t' = (put ''api-cache'' v t)\<lparr>api := a, world := w\<rparr>" unfolding t' 2 put_def by simp
    then show ?thesis using K by (auto intro!: alike_intros)
  qed
qed

lemma alike_endpoint: "key \<in> K \<Longrightarrow> alike p K s t \<Longrightarrow> alike p K s (apply_dashboard_endpoint key place scheme path t)"
  by (simp add: apply_dashboard_endpoint_def Let_def alike_put)

lemma alike_refresh: "ENDPOINTS \<subseteq> K \<Longrightarrow> alike p K s t \<Longrightarrow> alike p K s (refresh_dashboard_endpoints E t)"
proof -
  assume K: "ENDPOINTS \<subseteq> K" "alike p K s t"
  obtain r t' where c: "call_api E t = (r, t')" by (rule prod.exhaust)
  have "alike p K s t'" by (rule alike_call_api[OF c _ K(2)]) (use K(1) in \<open>simp add: ENDPOINTS_def\<close>)
  then show ?thesis
    using K(1) by (cases r) (auto simp: refresh_dashboard_endpoints_def c ENDPOINTS_def intro!: alike_endpoint)
qed

lemma alike_validate: "validate_invite E code t = (r, t') \<Longrightarrow> ENDPOINTS \<subseteq> K \<Longrightarrow> alike p K s t \<Longrightarrow> alike p K s t'"
proof -
  assume v: "validate_invite E code t = (r, t')" and K: "ENDPOINTS \<subseteq> K" "alike p K s t"
  let ?t = "refresh_dashboard_endpoints E t"
  obtain a u where w: "web_get E (dashboard_api_base ?t @ ''?action=validateInvite&invite_code='' @ code) ?t = (a, u)"
    by (rule prod.exhaust)
  have "t' = u" using v w by (auto simp: validate_invite_def Let_def split: sum.splits if_splits)
  then show ?thesis using alike_web(1)[OF w] alike_refresh[OF K] by blast
qed

lemma alike_enrollment:
  assumes "enrollment_for E code prefilled t = (r, t')"
  shows "alike p (insert ''dashboard_account_name'' ENDPOINTS) t t'"
proof -
  obtain v u where v: "validate_invite E code t = (v, u)" by (rule prod.exhaust)
  have u: "alike p (insert ''dashboard_account_name'' ENDPOINTS) t u" by (rule alike_validate[OF v]) (auto intro: alike_refl)
  show ?thesis
    using assms u by (auto simp: enrollment_for_def v intro: alike_intros split: if_splits sum.splits)
qed

text \<open>The settings that linking may change.\<close>

definition LINK_SETTINGS :: "string set" where
  "LINK_SETTINGS = ENDPOINTS \<union> {''dashboard_account_name'', ''dashboard_user_id'', ''dashboard_device_id'',
     ''unattended-access''}"

lemma alike_password: "alike False K s t \<Longrightarrow> alike False K s (t\<lparr>mcp_cfg := set_permanent_password D password (mcp_cfg t)\<rparr>)"
proof -
  let ?t = "t\<lparr>mcp_cfg := set_permanent_password D password (mcp_cfg t)\<rparr>"
  have "opt k ?t = opt k t" "overwrite_settings (mcp_cfg ?t) = overwrite_settings (mcp_cfg t)"
    "default_settings (mcp_cfg ?t) = default_settings (mcp_cfg t)" for k
    by (simp_all add: opt_def set_permanent_password_def get_option_def clear_trusted_devices_def set_trusted_devices_eq)
  then show "alike False K s t \<Longrightarrow> alike False K s ?t" unfolding alike_def by metis
qed

lemma alike_deployment: "''unattended-access'' \<in> K \<Longrightarrow> alike False K s t \<Longrightarrow> alike False K s (apply_deployment E resp t)"
  by (auto simp: apply_deployment_def Let_def intro!: alike_password alike_intros split: option.splits)

lemma alike_network: "''api-cache'' \<in> K \<Longrightarrow> alike p K s t \<Longrightarrow> alike p K s (snd (get_network_settings E code t))"
proof -
  assume K: "''api-cache'' \<in> K" "alike p K s t"
  obtain a u where w: "web_get E (dashboard_api_base t @ ''?action=getNetworkSettingsByInvite&invite_code='' @ code) t = (a, u)"
    by (rule prod.exhaust)
  have "alike p K s u" by (rule alike_web(1)[OF w K(2)])
  then show ?thesis
    using w K(1) by (auto simp: get_network_settings_def Let_def intro!: alike_intros split: sum.splits prod.splits option.splits)
qed

lemma alike_register_error: "register_device E token code i v = (Inl e, w) \<Longrightarrow> alike p K s v \<Longrightarrow> alike p K s w"
  by (auto simp: register_device_def Let_def split: prod.splits sum.splits if_splits intro: alike_web(2))

lemma alike_register: "register_device E token code i v = (r, w) \<Longrightarrow> ''unattended-access'' \<in> K \<Longrightarrow> alike False K s v \<Longrightarrow> alike False K s w"
  by (auto simp: register_device_def Let_def split: prod.splits sum.splits if_splits intro: alike_web(2) alike_deployment)

text \<open>What is left to do after a registration.\<close>

definition finish_link :: "('w, 'z) dash_env_scheme \<Rightarrow> string \<Rightarrow> string \<Rightarrow> string \<Rightarrow> 'w mcp \<Rightarrow> 'w mcp" where
  "finish_link E code user i w =
    (let s = (if user \<noteq> [] then put ''dashboard_device_id'' i (put ''dashboard_user_id'' user w) else w)
     in if code \<noteq> [] then snd (get_network_settings E code s) else s)"

text \<open>
  Before the registration, and whenever it fails, only the addresses of the service, the table that they come from
  and the name of the account have changed.
\<close>

lemma link_device_cases:
  assumes "link_device E s = (r, s')"
  obtains (failed) "r \<noteq> Some (Inr ())" "\<And>p. alike p (insert ''dashboard_account_name'' ENDPOINTS) s s'"
  | (linked) token user i v resolved w where "r = Some (Inr ())" "i \<noteq> []"
      "\<exists>t. enrollment_for E (get_invite_code E s) (get_prefilled_enrollment_token E s) s = (Some (Inr (token, user)), t)"
      "\<And>p. alike p (insert ''dashboard_account_name'' ENDPOINTS) s v"
      "register_device E token (get_invite_code E s) i v = (Inr resolved, w)"
      "s' = finish_link E (get_invite_code E s) (if resolved \<noteq> [] then resolved else user) i w"
proof -
  let ?K = "insert ''dashboard_account_name'' ENDPOINTS" and ?code = "get_invite_code E s"
  obtain a t where a: "enrollment_for E ?code (get_prefilled_enrollment_token E s) s = (a, t)" by (rule prod.exhaust)
  have t: "alike p ?K s t" for p by (rule alike_enrollment[OF a])
  show thesis
  proof (cases "(?code = [] \<and> get_prefilled_enrollment_token E s = []) \<or> \<not> (\<exists>token user. a = Some (Inr (token, user)))")
    case True
    then have "r \<noteq> Some (Inr ())" "alike p ?K s s'" for p
      using assms t by (auto simp: link_device_def Let_def a alike_refl split: if_splits option.splits sum.splits)
    then show thesis by (rule failed)
  next
    case False
    then obtain token user where a': "a = Some (Inr (token, user))" by blast
    obtain i u where i: "device_id E t = (i, u)" by (rule prod.exhaust)
    obtain j v where j: "await_id E 15 i u = (j, v)" by (rule prod.exhaust)
    obtain b w where b: "register_device E token ?code j v = (b, w)" by (rule prod.exhaust)
    have v: "alike p ?K s v" for p using alike_await[OF j alike_device_id[OF i t]] .
    show thesis
    proof (cases "j = [] \<or> (\<exists>e. b = Inl e)")
      case True
      then have "r \<noteq> Some (Inr ())" "alike p ?K s s'" for p
        using assms v alike_register_error[OF _ v] b False
        by (auto simp: link_device_def Let_def a a' i j split: if_splits)
      then show thesis by (rule failed)
    next
      case b': False
      then obtain resolved where "b = Inr resolved" by (cases b) auto
      then show thesis
        using assms linked[OF _ _ _ v, of j token user resolved w] b b' False a a'
        by (auto simp: link_device_def Let_def a a' i j finish_link_def split: if_splits)
    qed
  qed
qed

lemma failed_link:
  assumes "link_device E s = (r, s')" and "r \<noteq> Some (Inr ())"
  shows "alike p (insert ''dashboard_account_name'' ENDPOINTS) s s'"
  using assms by (cases rule: link_device_cases) auto

end
