(* ===== verification/Dashboard_Support.thy ===== *)
theory Dashboard_Support
  imports Dashboard Session_Commands
begin

text \<open>
  Support tickets, their attachments and the deployment proxy (\<open>src/dashboard.rs\<close>). The lemmas show that an
  attachment is read back as it was, that a text whose bytes were percent-encoded is decoded to those bytes, and
  what the fixed key stream of an account reveals.
\<close>

section \<open>Percent encoding\<close>

definition digit_value :: "u8 \<Rightarrow> u8 option" where
  "digit_value c =
    (if 48 \<le> c \<and> c \<le> 57 then Some (c - 48)
     else if 65 \<le> c \<and> c \<le> 70 then Some (c - 55)
     else if 97 \<le> c \<and> c \<le> 102 then Some (c - 87)
     else None)"

text \<open>\<open>u8::from_str_radix\<close> with base 16, of two characters; a plus sign may stand first.\<close>

definition radix_16 :: "u8 \<Rightarrow> u8 \<Rightarrow> u8 option" where
  "radix_16 a b =
    (if a = 43 then digit_value b
     else (case (digit_value a, digit_value b) of (Some x, Some y) \<Rightarrow> Some (16 * x + y) | _ \<Rightarrow> None))"

fun percent_bytes :: "bytes \<Rightarrow> bytes" where
  "percent_bytes (c # a # b # bs) =
    (case (if c = 37 then radix_16 a b else None) of
       Some v \<Rightarrow> v # percent_bytes bs
     | None \<Rightarrow> c # percent_bytes (a # b # bs))"
| "percent_bytes bs = bs"

definition percent_decode_path :: "string \<Rightarrow> string" where
  "percent_decode_path s = from_utf8_lossy (percent_bytes (as_bytes s))"

text \<open>The encoding that is undone: bytes outside a set are written with two digits.\<close>

definition digit_char :: "u8 \<Rightarrow> u8" where
  "digit_char v = (if v < 10 then v + 48 else v + 55)"

definition percent_encode :: "(u8 \<Rightarrow> bool) \<Rightarrow> bytes \<Rightarrow> bytes" where
  "percent_encode safe bs = concat (map (\<lambda>b. if safe b then [b] else [37, digit_char (drop_bit 4 b), digit_char (b AND 15)]) bs)"

section \<open>Attachments\<close>

definition ATTACHMENT_MAGIC :: bytes where
  "ATTACHMENT_MAGIC = as_bytes ''HTDE''"

definition xor_key :: "bytes \<Rightarrow> bytes \<Rightarrow> bytes" where
  "xor_key key data = map (\<lambda>(i, b). b XOR key ! (i mod 32)) (enumerate 0 data)"

definition encrypt_attachment :: "('w, 'z) dash_env_scheme \<Rightarrow> bytes \<Rightarrow> string \<Rightarrow> bytes" where
  "encrypt_attachment E data user = ATTACHMENT_MAGIC @ xor_key (sha256 E (as_bytes user)) data"

definition decrypt_attachment :: "('w, 'z) dash_env_scheme \<Rightarrow> bytes \<Rightarrow> string \<Rightarrow> bytes" where
  "decrypt_attachment E data user =
    (if length data < 4 \<or> take 4 data \<noteq> ATTACHMENT_MAGIC then data
     else xor_key (sha256 E (as_bytes user)) (drop 4 data))"

text \<open>The last component of a path, as \<open>Path::file_name\<close> has it.\<close>

definition path_parts :: "string \<Rightarrow> string list" where
  "path_parts path =
    (let (ps, p) = fold (\<lambda>c (ps, p). if c = CHR ''/'' then (ps @ [p], []) else (ps, p @ [c])) path ([], [])
     in filter (\<lambda>q. q \<noteq> [] \<and> q \<noteq> ''.'') (ps @ [p]))"

definition path_file_name :: "string \<Rightarrow> string option" where
  "path_file_name path = (let ps = path_parts path in if ps = [] \<or> last ps = ''..'' then None else Some (last ps))"

definition upload_attachment :: "('w, 'z) dash_env_scheme \<Rightarrow> int \<Rightarrow> string \<Rightarrow> 'w mcp \<Rightarrow> (string + unit) \<times> 'w mcp" where
  "upload_attachment E ticket_id file_path s =
    (let (i, s) = device_id E s; user = get_dashboard_user_id s; path = percent_decode_path file_path;
         file_name = get_or_else (path_file_name path) ''file''
     in case file_bytes E path (world s) of
          Inl e \<Rightarrow> (Inl (''Cannot read file '' @ quoted path @ '': '' @ e), s)
        | Inr content \<Rightarrow>
            let form = [(''action'', ''customerUploadAttachment''), (''ticket_id'', show_int ticket_id), (''device_id'', i),
                        (''customer_name'', ''Customer'')];
                sent = (if user \<noteq> [] then encrypt_attachment E content user else content)
            in (case http_upload E (dashboard_api_base s @ ''?action=customerUploadAttachment'') form (file_name, sent) (world s) of
                  (Inl e, w) \<Rightarrow> (Inl e, s\<lparr>world := w\<rparr>)
                | (Inr (status, body_text), w) \<Rightarrow>
                    let s = s\<lparr>world := w\<rparr>; body = get_or_else (parse E body_text) JNull
                    in if \<not> (200 \<le> status \<and> status < 300) then
                         (Inl (''HTTP '' @ show_nat status @ '': ''
                            @ get_or_else (Option.bind (jget body ''message'') as_str) body_text), s)
                       else if as_bool (field body ''success'') = Some False then
                         (Inl (get_or_else (as_str (field body ''message'')) ''upload failed''), s)
                       else (Inr (), s)))"

definition get_attachment_download_url :: "string \<Rightarrow> 'w mcp \<Rightarrow> string" where
  "get_attachment_download_url url s = (if starts_with url ''http'' then url else dashboard_api_base s @ ''/'' @ url)"

section \<open>Tickets\<close>

text \<open>A request with its action; the error of a refusal carries what the service says.\<close>

definition checked :: "string \<Rightarrow> (json \<Rightarrow> 'a) \<Rightarrow> (string + json) \<times> 'w mcp \<Rightarrow> (string + 'a) \<times> 'w mcp" where
  "checked action f = (\<lambda>(r, s).
    (case r of
       Inl e \<Rightarrow> Inl e
     | Inr resp \<Rightarrow>
         if \<not> succeeded resp then Inl (action @ '' failed: '' @ get_or_else (as_str (field resp ''error'')) ''unknown error'')
         else Inr (f resp), s))"

definition submit_ticket ::
  "('w, 'z) dash_env_scheme \<Rightarrow> string \<Rightarrow> string \<Rightarrow> string \<Rightarrow> string \<Rightarrow> 'w mcp \<Rightarrow> (string + int) \<times> 'w mcp" where
  "submit_ticket E email subject description priority s =
    (let (i, s) = device_id E s
     in checked ''submitTicket'' (\<lambda>resp. get_or_else (as_i64 (field resp ''ticket_id'')) 0)
          (web_post E (dashboard_api_base s @ ''?action=submitTicket'')
            [(''device_id'', i), (''dashboard_user_id'', get_dashboard_user_id s), (''device_name'', host_name E),
             (''user_name'', user_name E (world s)), (''user_email'', email), (''subject'', subject),
             (''description'', description), (''priority'', priority)] s))"

definition fetch_support_contact :: "('w, 'z) dash_env_scheme \<Rightarrow> 'w mcp \<Rightarrow> (string + json) \<times> 'w mcp" where
  "fetch_support_contact E s =
    (let user = get_dashboard_user_id s
     in if user = [] then (Inr (JObj []), s)
        else (case web_get E (dashboard_api_base s @ ''?action=getBranding&dashboard_user_id='' @ user) s of
                (Inl e, s) \<Rightarrow> (Inl e, s)
              | (Inr resp, s) \<Rightarrow>
                  let b = field resp ''branding''
                  in (Inr (JObj [(''name'', JStr (text_at b ''company_name'')), (''support_email'', JStr (text_at b ''support_email'')),
                                 (''phone'', JStr (text_at b ''phone_number''))]), s)))"

definition get_my_tickets :: "('w, 'z) dash_env_scheme \<Rightarrow> 'w mcp \<Rightarrow> (string + json) \<times> 'w mcp" where
  "get_my_tickets E s =
    (let (i, s) = device_id E s
     in checked ''getMyTickets'' (\<lambda>resp. field resp ''tickets'')
          (web_get E (dashboard_api_base s @ ''?action=getMyTickets&device_id='' @ i @ ''&dashboard_user_id='' @ get_dashboard_user_id s) s))"

definition get_conversation :: "('w, 'z) dash_env_scheme \<Rightarrow> int \<Rightarrow> 'w mcp \<Rightarrow> (string + json) \<times> 'w mcp" where
  "get_conversation E ticket_id s =
    (let (i, s) = device_id E s
     in checked ''getCustomerConversation'' (\<lambda>resp. field resp ''messages'')
          (web_post E (dashboard_api_base s @ ''?action=getCustomerConversation'')
            [(''ticket_id'', show_int ticket_id), (''device_id'', i)] s))"

definition get_attachments :: "('w, 'z) dash_env_scheme \<Rightarrow> int \<Rightarrow> 'w mcp \<Rightarrow> (string + json) \<times> 'w mcp" where
  "get_attachments E ticket_id s =
    (let (i, s) = device_id E s
     in checked ''getAttachments'' (\<lambda>resp. field resp ''attachments'')
          (web_get E (dashboard_api_base s @ ''?action=getAttachments&ticket_id='' @ show_int ticket_id @ ''&device_id='' @ i) s))"

definition add_reply :: "('w, 'z) dash_env_scheme \<Rightarrow> int \<Rightarrow> string \<Rightarrow> 'w mcp \<Rightarrow> (string + bool) \<times> 'w mcp" where
  "add_reply E ticket_id message s =
    (let (i, s) = device_id E s
     in checked ''addCustomerReply'' (\<lambda>resp. get_or_else (as_bool (field resp ''reopened'')) False)
          (web_post E (dashboard_api_base s @ ''?action=addCustomerReply'')
            [(''ticket_id'', show_int ticket_id), (''device_id'', i), (''message'', message)] s))"

section \<open>The deployment proxy\<close>

datatype ProxyType = AutoProxy | Socks5Proxy | HttpProxy

record Socks5Server =
  proxy_host :: string
  proxy_username :: string
  proxy_password :: string
  proxy_type :: ProxyType

text \<open>\<open>find\<close> of the scheme separator.\<close>

fun split_scheme :: "string \<Rightarrow> (string \<times> string) option" where
  "split_scheme [] = None"
| "split_scheme (c # cs) =
    (if starts_with (c # cs) ''://'' then Some ([], drop 2 cs)
     else map_option (\<lambda>(a, b). (c # a, b)) (split_scheme cs))"

definition scheme_proxy :: "string \<Rightarrow> ProxyType" where
  "scheme_proxy scheme =
    (if scheme \<in> {''http'', ''https''} then HttpProxy
     else if scheme \<in> {''socks5'', ''socks'', ''socks5h''} then Socks5Proxy
     else AutoProxy)"

definition proxy_of :: "('w, 'z) dash_env_scheme \<Rightarrow> json \<Rightarrow> Socks5Server option" where
  "proxy_of E v =
    (let url = trim_str (text_at v ''url'');
         (t, host) = (case split_scheme url of Some (scheme, h) \<Rightarrow> (scheme_proxy (lower E scheme), h) | None \<Rightarrow> (AutoProxy, url))
     in if url = [] then None
        else Some \<lparr>proxy_host = host, proxy_username = text_at v ''username'', proxy_password = text_at v ''password'', proxy_type = t\<rparr>)"

definition apply_pending_proxy ::
  "('w, 'z) dash_env_scheme \<Rightarrow> Socks5Server option \<times> 'w mcp \<Rightarrow> Socks5Server option \<times> 'w mcp" where
  "apply_pending_proxy E = (\<lambda>(socks, s).
    let path = shared_path E ''Proxy.json''
    in case text_file E path (world s) of
         None \<Rightarrow> (socks, s)
       | Some content \<Rightarrow>
           (case Option.bind (parse E content) (proxy_of E) of Some p \<Rightarrow> Some p | None \<Rightarrow> socks,
            s\<lparr>world := remove_file E path (world s)\<rparr>))"

section \<open>Round trips\<close>

lemma digit_value_char: "v < 16 \<Longrightarrow> digit_value (digit_char v) = Some v \<and> digit_char v \<noteq> 43"
proof -
  assume "v < 16"
  then have "unat v \<in> set [0..<16]" by (simp add: word_less_nat_alt)
  then have "word_of_nat (unat v) \<in> set (map word_of_nat [0..<16] :: u8 list)" unfolding set_map by (rule imageI)
  then have "v \<in> set (map word_of_nat [0..<16])" by simp
  moreover have "list_all (\<lambda>v. digit_value (digit_char v) = Some v \<and> digit_char v \<noteq> 43) (map word_of_nat [0..<16])"
    by code_simp
  ultimately show ?thesis unfolding list_all_iff by blast
qed

lemma halves: "16 * drop_bit 4 b + (b AND 15) = b" "drop_bit 4 b < 16" "b AND 15 < 16" for b :: u8
proof -
  have m: "(15 :: u8) = mask 4" by (simp add: mask_eq_exp_minus_1)
  show "16 * drop_bit 4 b + (b AND 15) = b"
    unfolding m take_bit_eq_mask[symmetric] using bits_ident[of 4 b] by (simp add: push_bit_eq_mult mult.commute)
  show "drop_bit 4 b < 16" using unsigned_less[of b, where ?'a = nat] unfolding word_less_nat_alt unat_drop_bit_eq by (simp add: drop_bit_eq_div)
  show "b AND 15 < 16" unfolding m take_bit_eq_mask[symmetric] word_less_nat_alt unsigned_take_bit_eq by (simp add: take_bit_eq_mod)
qed

lemma percent_pair: "percent_bytes (37 # digit_char (drop_bit 4 b) # digit_char (b AND 15) # bs) = b # percent_bytes bs"
  using digit_value_char[OF halves(2)] digit_value_char[OF halves(3)] halves(1) by (simp add: radix_16_def)

lemma percent_other: "c \<noteq> 37 \<Longrightarrow> percent_bytes (c # bs) = c # percent_bytes bs"
  by (cases bs; cases "tl bs") auto

lemma percent_roundtrip: "\<not> safe 37 \<Longrightarrow> percent_bytes (percent_encode safe bs) = bs"
proof (induction bs)
  case (Cons b bs)
  have "safe b \<Longrightarrow> b \<noteq> 37" using Cons.prems by metis
  then show ?case
    using Cons by (cases "safe b") (simp_all add: percent_encode_def percent_pair percent_other del: percent_bytes.simps)
qed (simp add: percent_encode_def)

lemma xor_key_length [simp]: "length (xor_key key data) = length data"
  by (simp add: xor_key_def)

lemma xor_key_nth: "i < length data \<Longrightarrow> xor_key key data ! i = data ! i XOR key ! (i mod 32)"
  by (simp add: xor_key_def nth_enumerate_eq)

lemma xor_key_twice: "xor_key key (xor_key key data) = data"
  by (rule nth_equalityI) (simp_all add: xor_key_nth xor.assoc)

text \<open>
  C40. An attachment that was encrypted for an account is decrypted for it to what it was, and a file without the
  marker is left alone. But the key stream depends on the account only and starts anew with every file: two
  encrypted attachments differ exactly where the files do, and by the same bits, so that a known file reveals
  what other files hold at the same places.
\<close>

theorem attachment_roundtrip:
  "decrypt_attachment E (encrypt_attachment E data user) user = data
    \<and> (take 4 data \<noteq> ATTACHMENT_MAGIC \<longrightarrow> decrypt_attachment E data user = data)
    \<and> (\<forall>other i. i < length data \<and> i < length other \<longrightarrow>
        encrypt_attachment E data user ! (4 + i) XOR encrypt_attachment E other user ! (4 + i) = data ! i XOR other ! i)"
proof (intro conjI allI impI)
  have m: "length ATTACHMENT_MAGIC = 4" by (simp add: ATTACHMENT_MAGIC_def as_bytes_def)
  show "decrypt_attachment E (encrypt_attachment E data user) user = data"
    by (simp add: decrypt_attachment_def encrypt_attachment_def m xor_key_twice)
  show "decrypt_attachment E data user = data" if "take 4 data \<noteq> ATTACHMENT_MAGIC"
    using that by (simp add: decrypt_attachment_def)
  fix other :: bytes and i
  assume i: "i < length data \<and> i < length other"
  have x: "(a XOR k) XOR (b XOR k) = a XOR b" for a b k :: u8
    by (simp add: ac_simps)
  show "encrypt_attachment E data user ! (4 + i) XOR encrypt_attachment E other user ! (4 + i) = data ! i XOR other ! i"
    using i by (simp add: encrypt_attachment_def nth_append m xor_key_nth x)
qed

section \<open>A service to run against\<close>

text \<open>A service with two invitations, \<open>A\<close> of Alice and \<open>B\<close> of Mallory.\<close>

definition demo_invite :: "string \<Rightarrow> string \<Rightarrow> json" where
  "demo_invite user name = JObj [(''success'', JBool True),
     (''invite'', JObj [(''enrollment_token'', JStr ''t''), (''dashboard_user_id'', JStr user), (''account_name'', JStr name)])]"

definition demo_dash :: "nat dash_env" where
  "demo_dash = mcp_env.extend demo_env (dash_env.fields
     (\<lambda>url w. (if url = ''https://dashboard.hoptodesk.com/api?action=validateInvite&invite_code=A'' then Inr (demo_invite ''UA'' ''Alice'')
              else if url = ''https://dashboard.hoptodesk.com/api?action=validateInvite&invite_code=B'' then Inr (demo_invite ''UB'' ''Mallory'')
              else Inl ''no answer'', w))
     (\<lambda>url form w. (Inr (JObj [(''success'', JBool True)]), w))
     (\<lambda>_ _ _ w. (Inl ''no answer'', w))
     \<lparr>api_now = id, api_get = (\<lambda>_ w. (Inl ''offline'', w)), local_table = (\<lambda>_. None), read_json = (\<lambda>_. None), show_json = (\<lambda>_. []),
       encode64 = (\<lambda>_. []), decode64 = (\<lambda>_. None)\<rparr>
     (\<lambda>_ _. None) (\<lambda>_ w. w) (\<lambda>_ _ w. (None, w)) (\<lambda>_ w. (None, w))
     id id id id (\<lambda>_ w. w) [] [] (\<lambda>_. [])
     \<lparr>dev_vault = tag_vault, get_time = 0, to_json = (\<lambda>_. None), from_json = (\<lambda>_. None)\<rparr> id)"

lemma demo_dash_simps:
  "http_get demo_dash url w =
     (if url = ''https://dashboard.hoptodesk.com/api?action=validateInvite&invite_code=A'' then Inr (demo_invite ''UA'' ''Alice'')
      else if url = ''https://dashboard.hoptodesk.com/api?action=validateInvite&invite_code=B'' then Inr (demo_invite ''UB'' ''Mallory'')
      else Inl ''no answer'', w)"
  "http_post demo_dash url form w = (Inr (JObj [(''success'', JBool True)]), w)"
  "text_file demo_dash path w = None" "config_path demo_dash = id" "shared_path demo_dash = id"
  "notify_relinked demo_dash w = w" "clock demo_dash s = world s"
  by (simp_all add: demo_dash_def mcp_env.extend_def dash_env.fields_def demo_env_def clock_def)

text \<open>The table is in memory, and names no address.\<close>

lemma demo_refresh:
  "api s = api demo_state \<Longrightarrow> opt ''dashboard-api-url'' s = [] \<Longrightarrow> opt ''dashboard-ws-url'' s = [] \<Longrightarrow> refresh_dashboard_endpoints E s = s"
  by (cases s) (simp add: refresh_dashboard_endpoints_def call_api_def table_call_def demo_state_def once_default_def
      apply_dashboard_endpoint_def)

theorem attachment_roundtrip_witness:
  "encrypt_attachment demo_dash [1] ''u'' ! 4 XOR encrypt_attachment demo_dash [2] ''u'' ! 4 = 3
    \<and> decrypt_attachment demo_dash [7] ''u'' = [7]"
proof -
  have "take 4 [7 :: u8] \<noteq> ATTACHMENT_MAGIC" by (simp add: ATTACHMENT_MAGIC_def as_bytes_def)
  then show ?thesis
    using attachment_roundtrip[of demo_dash "[7]" "''u''"]
      attachment_roundtrip[of demo_dash "[1]" "''u''", THEN conjunct2, THEN conjunct2, rule_format, of 0 "[2]"] by simp
qed

section \<open>Failing and succeeding\<close>

text \<open>
  C38. Linking a device is all or nothing: when it fails, on any path, no option has changed but the addresses of
  the service, the stored table of addresses that they are read from, which asking for it may renew, and the name
  of the account, and the password is the old one; when it succeeds, at most these, the other options that make
  up a link (account, registered id, unattended access), and the password are different.
\<close>

theorem link_all_or_nothing:
  assumes "link_device E s = (r, s')"
  shows "(r \<noteq> Some (Inr ()) \<longrightarrow> get_dashboard_user_id s' = get_dashboard_user_id s
        \<and> alike True (insert ''dashboard_account_name'' ENDPOINTS) s s')
    \<and> alike False LINK_SETTINGS s s'"
  using assms
proof (cases rule: link_device_cases)
  case failed
  then have "alike False LINK_SETTINGS s s'" by (intro alike_mono[OF failed(2)]) (auto simp: LINK_SETTINGS_def)
  moreover have "get_dashboard_user_id s' = get_dashboard_user_id s"
    using failed(2)[of True] by (simp add: alike_def get_dashboard_user_id_def ENDPOINTS_def)
  ultimately show ?thesis using failed(2) by blast
next
  case (linked token user i v resolved w)
  have "alike False LINK_SETTINGS s v" by (intro alike_mono[OF linked(4)]) (auto simp: LINK_SETTINGS_def)
  then have "alike False LINK_SETTINGS s w" using alike_register[OF linked(5)] by (simp add: LINK_SETTINGS_def)
  then have "alike False LINK_SETTINGS s s'"
    unfolding linked(6) finish_link_def Let_def
    by (auto intro!: alike_network alike_intros simp: LINK_SETTINGS_def ENDPOINTS_def)
  then show ?thesis using linked(1) by blast
qed

theorem link_all_or_nothing_witness:
  "\<exists>t. link_device demo_dash (put ''invite_code'' ''C'' demo_state) = (Some (Inl ''no answer''), t)
    \<and> get_dashboard_user_id t = get_dashboard_user_id (put ''invite_code'' ''C'' demo_state)
    \<and> alike True (insert ''dashboard_account_name'' ENDPOINTS) (put ''invite_code'' ''C'' demo_state) t"
proof -
  let ?s = "put ''invite_code'' ''C'' demo_state"
  have o: "opt ''dashboard-api-url'' ?s = []" "opt ''dashboard-ws-url'' ?s = []" "opt ''invite_code'' ?s = ''C''"
    by (simp_all add: opt_def put_def demo_state_def demo_config_def get_option_def set_option_update get_or_def is_option_can_save_def)
  have "get_invite_code demo_dash ?s = ''C''" "get_prefilled_enrollment_token demo_dash ?s = []"
    using o(3) by (simp_all add: get_invite_code_def get_prefilled_enrollment_token_def file_token_def demo_dash_simps)
  moreover have "validate_invite demo_dash ''C'' ?s = (Inl ''no answer'', ?s)"
    using o(1) demo_refresh[of ?s, OF _ o(1,2)]
    by (simp add: validate_invite_def web_get_def demo_dash_simps dashboard_api_base_def DASHBOARD_API_URL_def put_def)
  ultimately have l: "link_device demo_dash ?s = (Some (Inl ''no answer''), ?s)"
    by (simp add: link_device_def enrollment_for_def log_cut_panics_def)
  then show ?thesis using link_all_or_nothing[OF l] by blast
qed

end
