(* ===== verification/Dashboard_Socket.thy ===== *)
theory Dashboard_Socket
  imports Dashboard_Support Mcp_Runs
begin

text \<open>
  The connection of an enrolled device to its dashboard (\<open>src/dashboard.rs\<close>): starting it, the messages of the
  service, heartbeats, and connecting again. Requests of the service to the automation server are answered by
  the definitions of that server. What arrives, and what other threads do meanwhile, is a list of events; a message
  is handled undivided. \<^const>\<open>None\<close> stands for a request that never returns.
\<close>

section \<open>State and messages\<close>

record 'w socket_env = "'w dash_env" +
  ws_dial :: "string \<Rightarrow> 'w \<Rightarrow> string option \<times> 'w"
  ws_send :: "string \<Rightarrow> 'w \<Rightarrow> string option \<times> 'w"
  utc_secs :: "'w \<Rightarrow> nat"
  ui_option :: "string \<Rightarrow> 'w \<Rightarrow> string"

record 'w dash =
  device :: "'w mcp"
  socks :: "Socks5Server option"
  dashboard_running :: bool
  in_session :: bool
  session_meta :: "string \<times> string"
  ticket_replies :: u64

text \<open>
  A frame that is not text has one when its bytes are UTF-8. Between two events the rest of the program may change
  the state.
\<close>

datatype ws_frame = TextFrame string | CloseFrame string | OtherFrame "string option"
datatype 'w ws_event = Arrives ws_frame | Broken string | Ended | Beat | Meanwhile "'w dash \<Rightarrow> 'w dash"

text \<open>How a connection stands: still open, closed, ended by an error, or by a panic of its thread.\<close>

datatype ws_end = Open | Closed | Lost string | ThreadGone

definition user_of :: "'w dash \<Rightarrow> string" where
  "user_of d = get_dashboard_user_id (device d)"

definition on_device :: "('w mcp \<Rightarrow> 'w mcp) \<Rightarrow> 'w dash \<Rightarrow> 'w dash" where
  "on_device f d = d\<lparr>device := f (device d)\<rparr>"

definition set_in_session :: "bool \<Rightarrow> string \<Rightarrow> string \<Rightarrow> 'w dash \<Rightarrow> 'w dash" where
  "set_in_session active session_type remote_ip d =
    (let d = (if active then d\<lparr>session_meta := (session_type, remote_ip)\<rparr> else d) in d\<lparr>in_session := active\<rparr>)"

definition send_ws_message :: "('w, 'z) socket_env_scheme \<Rightarrow> string \<Rightarrow> 'w dash \<Rightarrow> (string + unit) \<times> 'w dash" where
  "send_ws_message E text d =
    (case ws_send E text (world (device d)) of
       (Some e, w) \<Rightarrow> (Inl e, on_device (\<lambda>s. s\<lparr>world := w\<rparr>) d)
     | (None, w) \<Rightarrow> (Inr (), on_device (\<lambda>s. s\<lparr>world := w\<rparr>) d))"

definition send_socketio_event :: "('w, 'z) socket_env_scheme \<Rightarrow> string \<Rightarrow> json \<Rightarrow> 'w dash \<Rightarrow> (string + unit) \<times> 'w dash" where
  "send_socketio_event E event data d =
    send_ws_message E (''42/device,['' @ compact E (JStr event) @ '','' @ compact E data @ '']'') d"

text \<open>
  The effect of an event: an error that ends the connection, or an answer to send. The inner \<^const>\<open>None\<close> is a
  panic.
\<close>

type_synonym 'w event_result = "((string + (string \<times> json) option) option \<times> 'w dash) option"

definition NO_RESPONSE :: string where
  "NO_RESPONSE = ''{'' @ [CHR 0x22] @ ''error'' @ [CHR 0x22] @ '':'' @ [CHR 0x22] @ ''no response'' @ [CHR 0x22] @ ''}''"

definition answer_mcp ::
  "('w, 'z) socket_env_scheme \<Rightarrow> ('w \<Rightarrow> string + json list) \<Rightarrow> json \<Rightarrow> 'w dash \<Rightarrow> 'w event_result" where
  "answer_mcp E incoming data d =
    map_option (\<lambda>(r, s).
        (case r of
           ThreadPanics \<Rightarrow> None
         | _ \<Rightarrow>
             let resp = (case r of Reply t \<Rightarrow> t | _ \<Rightarrow> NO_RESPONSE)
             in Some (Inr (Some (''mcp:response'',
                  JObj [(''request_id'', JStr (text_at data ''request_id'')), (''response'', get_or_else (parse E resp) JNull)]))),
         d\<lparr>device := s\<rparr>))
      (process_line E incoming (compact E (field data ''payload'')) (device d))"

definition nothing_more :: "'w dash \<Rightarrow> 'w event_result" where
  "nothing_more d = Some (Some (Inr None), d)"

definition UNLINKED :: string where
  "UNLINKED = ''Device unlinked from dashboard''"

definition on_event ::
  "('w, 'z) socket_env_scheme \<Rightarrow> ('w \<Rightarrow> string + json list) \<Rightarrow> string \<Rightarrow> json option \<Rightarrow> 'w dash \<Rightarrow> 'w event_result" where
  "on_event E incoming event arg d =
    (if event = ''unlinked'' then
       Some (Some (Inl UNLINKED), on_device (\<lambda>s. put ''invite_code'' [] (put ''dashboard_user_id'' [] s)) d)
     else (case arg of
             None \<Rightarrow> nothing_more d
           | Some data \<Rightarrow>
               if event = ''registered'' then
                 (case as_str (field data ''dashboard_user_id'') of
                    Some uid \<Rightarrow> nothing_more (if uid \<noteq> [] \<and> user_of d = [] then on_device (put ''dashboard_user_id'' uid) d else d)
                  | None \<Rightarrow> nothing_more d)
               else if event = ''ticket:reply'' then nothing_more (d\<lparr>ticket_replies := ticket_replies d + 1\<rparr>)
               else if event = ''wol:send'' then
                 (case as_str (field data ''target_mac'') of
                    Some mac \<Rightarrow> nothing_more (on_device (\<lambda>s. s\<lparr>world := wake_machine E mac (world s)\<rparr>) d)
                  | None \<Rightarrow> nothing_more d)
               else if event = ''mcp:request'' then answer_mcp E incoming data d
               else nothing_more d))"

definition handle_incoming_message ::
  "('w, 'z) socket_env_scheme \<Rightarrow> ('w \<Rightarrow> string + json list) \<Rightarrow> string \<Rightarrow> 'w dash \<Rightarrow> 'w event_result" where
  "handle_incoming_message E incoming text d =
    (if \<not> starts_with text ''42/device,'' then nothing_more d
     else (case Option.bind (parse E (drop 10 text)) as_array of
             Some (JStr event # rest) \<Rightarrow> on_event E incoming event (case rest of [] \<Rightarrow> None | data # _ \<Rightarrow> Some data) d
           | _ \<Rightarrow> nothing_more d))"

section \<open>A connection\<close>

text \<open>What a connection remembers: whether a session was on at the last heartbeat, and when data last arrived.\<close>

record ws =
  was_in_session :: bool
  last_ws_data :: nat

definition WS_READ_TIMEOUT_SECS :: nat where "WS_READ_TIMEOUT_SECS = 90"

definition session_notice :: "('w, 'z) socket_env_scheme \<Rightarrow> string \<Rightarrow> 'w dash \<Rightarrow> json" where
  "session_notice E i d =
    (let (stype, rip) = session_meta d
     in JObj [(''device_id'', JStr i), (''session_type'', JStr (if stype = [] then ''screen'' else stype)),
              (''remote_ip'', JStr rip), (''timestamp'', JInt (int (utc_secs E (world (device d)))))])"

definition wol_enabled :: "('w, 'z) socket_env_scheme \<Rightarrow> 'w dash \<Rightarrow> json" where
  "wol_enabled E d = JBool (ui_option E ''wol-enabled'' (world (device d)) \<noteq> [])"

definition heartbeat :: "('w, 'z) socket_env_scheme \<Rightarrow> string \<Rightarrow> ws \<Rightarrow> 'w dash \<Rightarrow> ws_end \<times> ws \<times> 'w dash" where
  "heartbeat E i ws d =
    (if clock E (device d) - last_ws_data ws > WS_READ_TIMEOUT_SECS * 1000 then (Closed, ws, d)
     else
       let now_in = in_session d;
           (r, d) = (if now_in \<and> \<not> was_in_session ws then send_socketio_event E ''remote_session_start'' (session_notice E i d) d
                     else if \<not> now_in \<and> was_in_session ws then send_socketio_event E ''remote_session_end'' (session_notice E i d) d
                     else (Inr (), d))
       in (case r of
             Inl e \<Rightarrow> (Lost e, ws, d)
           | Inr _ \<Rightarrow>
               (case send_socketio_event E ''heartbeat''
                   (JObj [(''device_id'', JStr i), (''timezone'', JStr (timezone E)), (''in_session'', JBool now_in),
                          (''wol_enabled'', wol_enabled E d)]) d of
                  (Inl e, d) \<Rightarrow> (Lost e, ws\<lparr>was_in_session := now_in\<rparr>, d)
                | (Inr _, d) \<Rightarrow> (Open, ws\<lparr>was_in_session := now_in\<rparr>, d))))"

definition on_text ::
  "('w, 'z) socket_env_scheme \<Rightarrow> ('w \<Rightarrow> string + json list) \<Rightarrow> string \<Rightarrow> 'w dash \<Rightarrow> (ws_end \<times> 'w dash) option" where
  "on_text E incoming text d =
    (if text = ''2'' then
       Some (case send_ws_message E ''3'' d of (Inl e, d) \<Rightarrow> (Lost e, d) | (Inr _, d) \<Rightarrow> (Open, d))
     else if text = ''3'' then Some (Open, d)
     else map_option (\<lambda>(r, d).
            case r of
              None \<Rightarrow> (ThreadGone, d)
            | Some (Inl e) \<Rightarrow> (Lost e, d)
            | Some (Inr None) \<Rightarrow> (Open, d)
            | Some (Inr (Some (event, data))) \<Rightarrow>
                (case send_socketio_event E event data d of (Inl e, d) \<Rightarrow> (Lost e, d) | (Inr _, d) \<Rightarrow> (Open, d)))
          (handle_incoming_message E incoming text d))"

definition ws_step ::
  "('w, 'z) socket_env_scheme \<Rightarrow> ('w \<Rightarrow> string + json list) \<Rightarrow> string \<Rightarrow> 'w ws_event \<Rightarrow> ws \<times> 'w dash
    \<Rightarrow> (ws_end \<times> ws \<times> 'w dash) option" where
  "ws_step E incoming i ev = (\<lambda>(ws, d).
    let fresh = ws\<lparr>last_ws_data := clock E (device d)\<rparr> in
    (case ev of
       Beat \<Rightarrow> Some (heartbeat E i ws d)
     | Arrives (TextFrame text) \<Rightarrow> map_option (\<lambda>(r, d). (r, fresh, d)) (on_text E incoming text d)
     | Arrives (CloseFrame _) \<Rightarrow> Some (Closed, fresh, d)
     | Arrives (OtherFrame _) \<Rightarrow> Some (Open, fresh, d)
     | Broken e \<Rightarrow> Some (Lost (''Dashboard WebSocket error: '' @ e), fresh, d)
     | Ended \<Rightarrow> Some (Closed, fresh, d)
     | Meanwhile f \<Rightarrow> Some (Open, ws, f d)))"

primrec ws_run ::
  "('w, 'z) socket_env_scheme \<Rightarrow> ('w \<Rightarrow> string + json list) \<Rightarrow> string \<Rightarrow> 'w ws_event list \<Rightarrow> ws \<times> 'w dash \<Rightarrow> (ws_end \<times> 'w dash) option" where
  "ws_run E incoming i [] x = Some (Open, snd x)"
| "ws_run E incoming i (ev # evs) x =
    (case ws_step E incoming i ev x of
       None \<Rightarrow> None
     | Some (Open, y) \<Rightarrow> ws_run E incoming i evs y
     | Some (r, _, d) \<Rightarrow> Some (r, d))"

text \<open>The frame that is waited for during the handshake, as text; the heartbeat does not run yet.\<close>

fun expect_text :: "string \<Rightarrow> 'w ws_event list \<Rightarrow> 'w dash \<Rightarrow> (string + string \<times> 'w ws_event list) \<times> 'w dash" where
  "expect_text eof (Beat # evs) d = expect_text eof evs d"
| "expect_text eof (Meanwhile f # evs) d = expect_text eof evs (f d)"
| "expect_text eof (Arrives (TextFrame t) # evs) d = (Inr (t, evs), d)"
| "expect_text eof (Arrives (CloseFrame t) # evs) d = (Inr (t, evs), d)"
| "expect_text eof (Arrives (OtherFrame (Some t)) # evs) d = (Inr (t, evs), d)"
| "expect_text eof (Arrives (OtherFrame None) # evs) d = (Inl ''invalid utf-8 sequence'', d)"
| "expect_text eof (Broken e # evs) d = (Inl e, d)"
| "expect_text eof (Ended # evs) d = (Inl eof, d)"
| "expect_text eof [] d = (Inl eof, d)"

definition register_data :: "('w, 'z) socket_env_scheme \<Rightarrow> string \<Rightarrow> string \<Rightarrow> 'w dash \<Rightarrow> json" where
  "register_data E i user d =
    JObj [(''device_id'', JStr i), (''dashboard_user_id'', JStr user), (''timezone'', JStr (timezone E)),
          (''computer_name'', JStr (host_name E)), (''os'', JStr ''freebsd''), (''mac_address'', JStr (mac_address E)),
          (''wol_enabled'', wol_enabled E d)]"

text \<open>The handshake: the first frame, the answer to the namespace, and the device introduces itself.\<close>

definition introduce ::
  "('w, 'z) socket_env_scheme \<Rightarrow> string \<Rightarrow> string \<Rightarrow> 'w ws_event list \<Rightarrow> 'w dash \<Rightarrow> (string + string \<times> 'w ws_event list) \<times> 'w dash" where
  "introduce E user t evs d =
    (if \<not> starts_with t ''40/device'' then (Inl (''Expected namespace ACK, got: '' @ t), d)
     else
       let (i, s) = device_id E (device d); d = d\<lparr>device := s\<rparr>; data = register_data E i user d
       in (case send_socketio_event E ''register'' data (on_device (pause E 500) d) of
             (Inl e, d) \<Rightarrow> (Inl e, d)
           | (Inr _, d) \<Rightarrow> (Inr (i, evs), d)))"

definition acknowledged ::
  "('w, 'z) socket_env_scheme \<Rightarrow> string \<Rightarrow> string \<Rightarrow> 'w ws_event list \<Rightarrow> 'w dash \<Rightarrow> (string + string \<times> 'w ws_event list) \<times> 'w dash" where
  "acknowledged E user t evs d =
    (if \<not> starts_with t ''0'' then (Inl (''Expected Engine.IO open packet, got: '' @ t), d)
     else (case send_ws_message E ''40/device,'' d of
             (Inl e, d) \<Rightarrow> (Inl e, d)
           | (Inr _, d) \<Rightarrow>
               (case expect_text ''WS closed before namespace ACK'' evs d of
                  (Inl e, d) \<Rightarrow> (Inl e, d)
                | (Inr (t, evs), d) \<Rightarrow> introduce E user t evs d)))"

text \<open>Connecting and introducing the device: an error, or the id that goes with the heartbeats and what is still to come.\<close>

definition ws_open ::
  "('w, 'z) socket_env_scheme \<Rightarrow> string \<Rightarrow> 'w ws_event list \<Rightarrow> 'w dash \<Rightarrow> (string + string \<times> 'w ws_event list) \<times> 'w dash" where
  "ws_open E user evs d =
    (let url = dashboard_ws_url (device d) @ ''?dashboard_user_id='' @ user @ ''&EIO=4&transport=websocket'';
         (r, w) = ws_dial E url (world (device d)); d = on_device (\<lambda>s. s\<lparr>world := w\<rparr>) d
     in case r of
          Some e \<Rightarrow> (Inl e, d)
        | None \<Rightarrow>
            (case expect_text ''WS closed before open packet'' evs d of
               (Inl e, d) \<Rightarrow> (Inl e, d)
             | (Inr (t, evs), d) \<Rightarrow> acknowledged E user t evs d))"

definition dashboard_ws_loop ::
  "('w, 'z) socket_env_scheme \<Rightarrow> ('w \<Rightarrow> string + json list) \<Rightarrow> string \<Rightarrow> 'w ws_event list \<Rightarrow> 'w dash \<Rightarrow> (ws_end \<times> 'w dash) option" where
  "dashboard_ws_loop E incoming user evs d =
    (case ws_open E user evs d of
       (Inl e, d) \<Rightarrow> Some (Lost e, d)
     | (Inr (i, evs), d) \<Rightarrow> ws_run E incoming i evs (\<lparr>was_in_session = False, last_ws_data = clock E (device d)\<rparr>, d))"

section \<open>Starting, and connecting again\<close>

datatype start_end = AlreadyRunning | LinkPanicked | LinkFailed string | NotLinked | Serving string

definition SENTINEL :: "('w, 'z) socket_env_scheme \<Rightarrow> string" where
  "SENTINEL E = shared_path E ''Enrolled.toml''"

text \<open>After an enrollment its code is forgotten, the files that caused it are removed and a marker is left.\<close>

definition after_link :: "('w, 'z) socket_env_scheme \<Rightarrow> string \<Rightarrow> 'w mcp \<Rightarrow> 'w mcp" where
  "after_link E used s =
    (let s = put ''last_enrolled_invite_code'' used (put ''invite_code'' [] s);
         w = fold (remove_file E) [config_path E ''InviteCode.toml'', shared_path E ''InviteCode.toml'', shared_path E ''EnrollmentToken.toml'']
               (world s);
         w = snd (make_parent E (SENTINEL E) w);
         (i, s) = device_id E (s\<lparr>world := w\<rparr>);
         body = ''user_id='' @ get_dashboard_user_id s @ [CHR 0x0A] @ ''device_id='' @ i @ [CHR 0x0A]
     in s\<lparr>world := snd (write_file E (SENTINEL E) body (world s))\<rparr>)"

text \<open>The id under which the device was registered is taken up again.\<close>

definition restore_id :: "('w, 'z) socket_env_scheme \<Rightarrow> 'w mcp \<Rightarrow> 'w mcp" where
  "restore_id E s =
    (let stored = opt ''dashboard_device_id'' s
     in if stored = [] then s
        else let (i, s) = device_id E s in if i \<noteq> stored then s\<lparr>mcp_cfg := (mcp_cfg s)\<lparr>cfg_id := stored\<rparr>\<rparr> else s)"

definition begin_serving :: "('w, 'z) socket_env_scheme \<Rightarrow> 'w dash \<Rightarrow> start_end \<times> 'w dash" where
  "begin_serving E d =
    (let user = user_of d
     in if user = [] then (NotLinked, d\<lparr>dashboard_running := False\<rparr>) else (Serving user, on_device (restore_id E) d))"

definition start :: "('w, 'z) socket_env_scheme \<Rightarrow> 'w dash \<Rightarrow> start_end \<times> 'w dash" where
  "start E d =
    (if dashboard_running d then (AlreadyRunning, d)
     else
       let (p, s) = apply_pending_proxy E (socks d, device d); s = refresh_dashboard_endpoints E s;
           d = d\<lparr>dashboard_running := True, socks := p, device := s\<rparr>
       in if get_invite_code E s \<noteq> [] \<or> get_prefilled_enrollment_token E s \<noteq> [] then
            (case link_device E s of
               (None, s) \<Rightarrow> (LinkPanicked, d\<lparr>device := s\<rparr>)
             | (Some (Inl e), s') \<Rightarrow> (LinkFailed e, d\<lparr>device := s', dashboard_running := False\<rparr>)
             | (Some (Inr _), s') \<Rightarrow> begin_serving E (d\<lparr>device := after_link E (get_invite_code E s) s'\<rparr>))
          else begin_serving E d)"

text \<open>
  One connection after the other, each with what others did before it and with its events. The account is the one
  of the start; the wait doubles up to ten seconds, from one second after an orderly end.
\<close>

definition RECONNECT_DELAY_BASE_SECS :: nat where "RECONNECT_DELAY_BASE_SECS = 1"
definition RECONNECT_DELAY_MAX_SECS :: nat where "RECONNECT_DELAY_MAX_SECS = 10"

definition wait_before :: "ws_end \<Rightarrow> nat \<Rightarrow> nat" where
  "wait_before r delay = (if r = Closed then RECONNECT_DELAY_BASE_SECS else delay)"

fun serve ::
  "('w, 'z) socket_env_scheme \<Rightarrow> ('w \<Rightarrow> string + json list) \<Rightarrow> string \<Rightarrow> (('w dash \<Rightarrow> 'w dash) \<times> 'w ws_event list) list \<Rightarrow> nat \<Rightarrow> 'w dash
    \<Rightarrow> (ws_end \<times> 'w dash) option" where
  "serve E incoming user [] delay d = Some (Open, d)"
| "serve E incoming user ((before, evs) # later) delay d =
    (case dashboard_ws_loop E incoming user evs (before d) of
       None \<Rightarrow> None
     | Some (ThreadGone, d) \<Rightarrow> Some (ThreadGone, d)
     | Some (Open, d) \<Rightarrow> Some (Open, d)
     | Some (r, d) \<Rightarrow>
         if user_of d = [] then Some (r, d\<lparr>dashboard_running := False\<rparr>)
         else let n = wait_before r delay
              in serve E incoming user later (min (n * 2) RECONNECT_DELAY_MAX_SECS) (on_device (pause E (n * 1000)) d))"

section \<open>The account of the device\<close>

text \<open>Two states with the same entries for the account, in all layers of the settings.\<close>

definition same_entry :: "'w mcp \<Rightarrow> 'w mcp \<Rightarrow> bool" where
  "same_entry s s' \<longleftrightarrow> overwrite_settings (mcp_cfg s') = overwrite_settings (mcp_cfg s)
    \<and> default_settings (mcp_cfg s') = default_settings (mcp_cfg s)
    \<and> options (mcp_cfg s') ''dashboard_user_id'' = options (mcp_cfg s) ''dashboard_user_id''"

lemma entry_refl [simp]: "same_entry s s"
  by (simp add: same_entry_def)

lemma entry_trans: "same_entry s t \<Longrightarrow> same_entry t u \<Longrightarrow> same_entry s u"
  by (simp add: same_entry_def)

lemma entry_world [simp]: "same_entry s (t\<lparr>world := w\<rparr>) = same_entry s t"
  by (simp add: same_entry_def)

lemma entry_pause [simp]: "same_entry s (pause E n t) = same_entry s t"
  by (simp add: same_entry_def pause_def)

lemma entry_put [simp]: "k \<noteq> ''dashboard_user_id'' \<Longrightarrow> same_entry s (put k v t) = same_entry s t"
  by (simp add: same_entry_def put_def set_option_update)

lemma entry_device_id: "device_id E t = (i, t') \<Longrightarrow> same_entry s t \<Longrightarrow> same_entry s t'"
  by (auto simp: device_id_def get_id_def same_entry_def split: if_splits option.splits)

lemma entry_mstep: "mstep E rc s t \<Longrightarrow> same_entry s t"
  by (induction rule: mstep.induct) (simp_all add: same_entry_def act_def pause_def)

lemma entry_reach: "reach E rc s t \<Longrightarrow> same_entry s t"
  unfolding reach_def
proof (induction rule: rtranclp_induct)
  case base
  then show ?case by simp
next
  case (step t u)
  show ?case by (rule entry_trans[OF step.IH entry_mstep[OF step.hyps(2)]])
qed

lemma entry_account: "same_entry s t \<Longrightarrow> get_dashboard_user_id t = get_dashboard_user_id s"
  by (simp add: same_entry_def get_dashboard_user_id_def opt_def get_option_def get_or_def split: option.split)

text \<open>Neither the account nor the flag of the running connection changes.\<close>

definition quiet :: "'w dash \<Rightarrow> 'w dash \<Rightarrow> bool" where
  "quiet d d' \<longleftrightarrow> same_entry (device d) (device d') \<and> dashboard_running d' = dashboard_running d"

lemma quiet_refl [simp]: "quiet d d"
  by (simp add: quiet_def)

lemma quiet_trans: "quiet d c \<Longrightarrow> quiet c e \<Longrightarrow> quiet d e"
  by (auto simp: quiet_def intro: entry_trans)

lemma quiet_on_device [simp]:
  "quiet d (on_device (\<lambda>s. s\<lparr>world := w\<rparr>) c) = quiet d c" "quiet d (on_device (pause E n) c) = quiet d c"
  "quiet (on_device (\<lambda>s. s\<lparr>world := w\<rparr>) d) c = quiet d c" "quiet (on_device (pause E n) d) c = quiet d c"
  by (simp_all add: quiet_def on_device_def) (simp_all add: same_entry_def pause_def)

lemma quiet_device_id: "device_id E (device c) = (i, s) \<Longrightarrow> quiet c (c\<lparr>device := s\<rparr>)"
  by (auto simp: quiet_def intro: entry_device_id)

lemma quiet_send: "send_ws_message E text c = (r, d) \<Longrightarrow> quiet c d"
  by (auto simp: send_ws_message_def split: prod.splits option.splits)

lemma quiet_event: "send_socketio_event E event data c = (r, d) \<Longrightarrow> quiet c d"
  unfolding send_socketio_event_def by (rule quiet_send)

text \<open>The message of the service with a name; a device that is unlinked forgets its account.\<close>

definition says :: "('w, 'z) socket_env_scheme \<Rightarrow> string \<Rightarrow> string \<Rightarrow> bool" where
  "says E event text \<longleftrightarrow> starts_with text ''42/device,''
    \<and> (\<exists>rest. Option.bind (parse E (drop 10 text)) as_array = Some (JStr event # rest))"

definition unlinked :: "'w dash \<Rightarrow> 'w dash \<Rightarrow> bool" where
  "unlinked d d' \<longleftrightarrow> overwrite_settings (mcp_cfg (device d')) = overwrite_settings (mcp_cfg (device d))
    \<and> default_settings (mcp_cfg (device d')) = default_settings (mcp_cfg (device d))
    \<and> (overwrite_settings (mcp_cfg (device d)) ''dashboard_user_id'' = None \<longrightarrow>
       default_settings (mcp_cfg (device d)) ''dashboard_user_id'' = None \<longrightarrow> user_of d' = [])"

lemma forget_account: "unlinked d (on_device (\<lambda>s. put ''invite_code'' [] (put ''dashboard_user_id'' [] s)) d)"
  by (auto simp: unlinked_def on_device_def user_of_def get_dashboard_user_id_def put_def set_option_update opt_def get_option_def
      get_or_def is_option_can_save_def unwrap_or_default_def)

text \<open>A message leaves the entry alone, but for the two about the account.\<close>

lemma event_entry:
  assumes "on_event E incoming event arg d = Some (r, d')"
  shows "same_entry (device d) (device d')
    \<or> (event = ''unlinked'' \<and> r = Some (Inl UNLINKED) \<and> unlinked d d')
    \<or> (event = ''registered'' \<and> user_of d = [])"
proof -
  have mcp: "same_entry (device d) (device d')" if "answer_mcp E incoming data d = Some (r, d')" for data
    using that by (auto simp: answer_mcp_def dest!: reach_line entry_reach)
  show ?thesis
  proof (cases "event = ''unlinked''")
    case True
    then show ?thesis using assms forget_account[of d] by (auto simp: on_event_def)
  next
    case False
    then show ?thesis using assms mcp by (auto simp: on_event_def nothing_more_def on_device_def split: if_splits option.splits)
  qed
qed

lemma message_entry:
  assumes "handle_incoming_message E incoming text d = Some (r, d')"
  shows "same_entry (device d) (device d')
    \<or> (says E ''unlinked'' text \<and> r = Some (Inl UNLINKED) \<and> unlinked d d')
    \<or> (says E ''registered'' text \<and> user_of d = [])"
proof (cases "\<exists>event rest. starts_with text ''42/device,'' \<and> Option.bind (parse E (drop 10 text)) as_array = Some (JStr event # rest)")
  case True
  then obtain event rest where e: "starts_with text ''42/device,''" "Option.bind (parse E (drop 10 text)) as_array = Some (JStr event # rest)"
    by blast
  then have "on_event E incoming event (case rest of [] \<Rightarrow> None | data # _ \<Rightarrow> Some data) d = Some (r, d')"
    using assms by (simp add: handle_incoming_message_def)
  from event_entry[OF this] show ?thesis using e by (auto simp: says_def)
next
  case False
  then show ?thesis
    using assms by (auto simp: handle_incoming_message_def nothing_more_def split: if_splits option.splits list.splits json.splits)
qed

lemma event_running: "handle_incoming_message E incoming text d = Some (r, d') \<Longrightarrow> dashboard_running d' = dashboard_running d"
  by (auto simp: handle_incoming_message_def nothing_more_def on_event_def answer_mcp_def on_device_def
      split: if_splits option.splits list.splits json.splits)

text \<open>What others do meanwhile, and the texts that arrive, of a list of events.\<close>

definition others :: "'w ws_event list \<Rightarrow> ('w dash \<Rightarrow> 'w dash) set" where
  "others evs = {f. Meanwhile f \<in> set evs}"

definition texts :: "'w ws_event list \<Rightarrow> string set" where
  "texts evs = {t. Arrives (TextFrame t) \<in> set evs}"

definition leave_account :: "('w dash \<Rightarrow> 'w dash) set \<Rightarrow> bool" where
  "leave_account fs \<longleftrightarrow> (\<forall>f\<in>fs. \<forall>d. quiet d (f d))"

text \<open>A step of a connection, its handshake and its run.\<close>

definition keeps :: "('w, 'z) socket_env_scheme \<Rightarrow> string set \<Rightarrow> 'w dash \<Rightarrow> 'w dash \<Rightarrow> ws_end \<Rightarrow> bool" where
  "keeps E ts d d' r \<longleftrightarrow> quiet d d'
    \<or> (unlinked d d' \<and> r = Lost UNLINKED \<and> (\<exists>t\<in>ts. says E ''unlinked'' t) \<and> dashboard_running d' = dashboard_running d)"

lemma keeps_quiet: "quiet d d' \<Longrightarrow> keeps E ts d d' r"
  by (simp add: keeps_def)

lemma keeps_mono: "keeps E ts d d' r \<Longrightarrow> ts \<subseteq> us \<Longrightarrow> keeps E us d d' r"
  by (auto simp: keeps_def)

lemma message_keeps:
  assumes "handle_incoming_message E incoming text d = Some (a, c)" and "user_of d \<noteq> []"
  shows "quiet d c \<or> (a = Some (Inl UNLINKED) \<and> keeps E {text} d c (Lost UNLINKED))"
  using message_entry[OF assms(1)] event_running[OF assms(1)] assms(2) by (auto simp: quiet_def keeps_def)

lemma text_keeps: "on_text E incoming text d = Some (r, d') \<Longrightarrow> user_of d \<noteq> [] \<Longrightarrow> keeps E {text} d d' r"
proof -
  assume t: "on_text E incoming text d = Some (r, d')" and u: "user_of d \<noteq> []"
  show ?thesis
  proof (cases "text = ''2'' \<or> text = ''3''")
    case True
    then show ?thesis using t by (auto simp: on_text_def split: prod.splits sum.splits dest!: quiet_send intro: keeps_quiet)
  next
    case False
    then obtain a c where h: "handle_incoming_message E incoming text d = Some (a, c)"
      using t by (auto simp: on_text_def)
    show ?thesis
      using message_keeps[OF h u] t False
      by (auto simp: on_text_def h split: option.splits sum.splits prod.splits dest!: quiet_event intro: keeps_quiet quiet_trans)
  qed
qed

lemma heartbeat_quiet: "heartbeat E i ws d = (r, ws', d') \<Longrightarrow> quiet d d'"
  by (auto simp: heartbeat_def Let_def split: if_splits prod.splits sum.splits dest!: quiet_event intro: quiet_trans)

lemma step_keeps:
  assumes "ws_step E incoming i ev (ws, d) = Some (r, ws', d')" and "user_of d \<noteq> []" and "leave_account (others [ev])"
  shows "keeps E (texts [ev]) d d' r"
proof (cases ev)
  case (Arrives f)
  have "keeps E {t} d d' r" if "on_text E incoming t d = Some (r, d')" for t by (rule text_keeps[OF that assms(2)])
  then show ?thesis using assms(1) Arrives by (cases f) (auto simp: ws_step_def Let_def texts_def intro: keeps_quiet)
next
  case Beat
  then have "heartbeat E i ws d = (r, ws', d')" using assms(1) by (simp add: ws_step_def)
  from heartbeat_quiet[OF this] show ?thesis by (rule keeps_quiet)
next
  case (Meanwhile f)
  then have "quiet d (f d)" using assms(3) by (simp add: leave_account_def others_def)
  then show ?thesis using assms(1) Meanwhile by (simp add: ws_step_def keeps_quiet)
qed (use assms(1) in \<open>auto simp: ws_step_def intro: keeps_quiet\<close>)

lemma keeps_open: "keeps E ts d c Open \<Longrightarrow> quiet d c"
  by (simp add: keeps_def)

lemma quiet_keeps: "quiet d c \<Longrightarrow> keeps E ts c e r \<Longrightarrow> keeps E ts d e r"
  by (auto simp: keeps_def intro: quiet_trans) (simp_all add: unlinked_def quiet_def same_entry_def)

lemma quiet_user: "quiet d c \<Longrightarrow> user_of c = user_of d"
  by (simp add: quiet_def user_of_def entry_account)

lemma leave_account_Cons: "leave_account (others (ev # evs)) \<longleftrightarrow> leave_account (others [ev]) \<and> leave_account (others evs)"
  by (auto simp: leave_account_def others_def)

lemma texts_Cons: "texts [ev] \<subseteq> texts (ev # evs)" "texts evs \<subseteq> texts (ev # evs)"
  by (auto simp: texts_def)

lemma run_keeps:
  "ws_run E incoming i evs (ws, d) = Some (r, d') \<Longrightarrow> user_of d \<noteq> [] \<Longrightarrow> leave_account (others evs) \<Longrightarrow> keeps E (texts evs) d d' r"
proof (induction evs arbitrary: ws d)
  case (Cons ev evs)
  note la = Cons.prems(3)[unfolded leave_account_Cons[of ev evs]]
  obtain q ws' c where st: "ws_step E incoming i ev (ws, d) = Some (q, ws', c)"
    using Cons.prems(1) by (cases "ws_step E incoming i ev (ws, d)") auto
  have k: "keeps E (texts [ev]) d c q" by (rule step_keeps[OF st Cons.prems(2) la[THEN conjunct1]])
  show ?case
  proof (cases "q = Open")
    case True
    have c: "quiet d c" using k True keeps_open by blast
    have "ws_run E incoming i evs (ws', c) = Some (r, d')" using Cons.prems(1) st True by simp
    from Cons.IH[OF this _ la[THEN conjunct2]] show ?thesis
      using quiet_user[OF c] Cons.prems(2) quiet_keeps[OF c] keeps_mono[OF _ texts_Cons(2)] by metis
  next
    case False
    then have "keeps E (texts [ev]) d d' r" using Cons.prems(1) st k by (cases q) simp_all
    then show ?thesis by (rule keeps_mono[OF _ texts_Cons(1)])
  qed
qed (simp add: keeps_quiet)

lemma expect_quiet:
  "expect_text eof evs d = (a, d') \<Longrightarrow> leave_account (others evs) \<Longrightarrow>
   quiet d d' \<and> (\<forall>t rest. a = Inr (t, rest) \<longrightarrow> set rest \<subseteq> set evs)"
proof (induction eof evs d rule: expect_text.induct)
  case (2 eof f evs d)
  have "quiet d (f d)" "leave_account (others evs)" using 2(3) by (auto simp: leave_account_def others_def)
  then show ?case using 2 quiet_trans by fastforce
qed (auto simp: leave_account_def others_def)

lemma leave_account_mono: "leave_account (others evs) \<Longrightarrow> set rest \<subseteq> set evs \<Longrightarrow> leave_account (others rest)"
  by (auto simp: leave_account_def others_def)

lemma introduce_quiet:
  assumes "introduce E user t evs d = (a, d')"
  shows "quiet d d' \<and> (\<forall>i rest. a = Inr (i, rest) \<longrightarrow> rest = evs)"
proof -
  obtain i s where x: "device_id E (device d) = (i, s)" by fastforce
  obtain b c where y: "send_socketio_event E ''register'' (register_data E i user (d\<lparr>device := s\<rparr>)) (on_device (pause E 500) (d\<lparr>device := s\<rparr>)) = (b, c)"
    by fastforce
  have "quiet (d\<lparr>device := s\<rparr>) c" using quiet_event[OF y] by simp
  then have "quiet d c" using quiet_device_id[OF x] quiet_trans by blast
  then show ?thesis using assms x y by (cases b) (auto simp: introduce_def split: if_splits)
qed

lemma acknowledged_quiet:
  assumes "acknowledged E user t evs d = (a, d')" and "leave_account (others evs)"
  shows "quiet d d' \<and> (\<forall>i rest. a = Inr (i, rest) \<longrightarrow> set rest \<subseteq> set evs)"
proof -
  obtain b c where x: "send_ws_message E ''40/device,'' d = (b, c)" by fastforce
  obtain r e where y: "expect_text ''WS closed before namespace ACK'' evs c = (r, e)" by fastforce
  have q: "quiet d c" "quiet d e" using quiet_send[OF x] expect_quiet[OF y assms(2)] quiet_trans by blast+
  show ?thesis
  proof (cases "\<exists>u t' rest. starts_with t ''0'' \<and> b = Inr u \<and> r = Inr (t', rest)")
    case True
    then obtain t' rest where r: "r = Inr (t', rest)" "set rest \<subseteq> set evs" and i: "introduce E user t' rest e = (a, d')"
      using assms(1) expect_quiet[OF y assms(2)] x y by (auto simp: acknowledged_def)
    then show ?thesis using introduce_quiet[OF i] quiet_trans[OF q(2)] by auto
  next
    case False
    then show ?thesis using assms(1) q x y by (auto simp: acknowledged_def split: if_splits sum.splits)
  qed
qed

lemma open_quiet:
  assumes "ws_open E user evs d = (a, d')" and "leave_account (others evs)"
  shows "quiet d d' \<and> (\<forall>i rest. a = Inr (i, rest) \<longrightarrow> set rest \<subseteq> set evs)"
proof -
  obtain r w where x: "ws_dial E (dashboard_ws_url (device d) @ ''?dashboard_user_id='' @ user @ ''&EIO=4&transport=websocket'') (world (device d)) = (r, w)"
    by fastforce
  define c where "c = on_device (\<lambda>s. s\<lparr>world := w\<rparr>) d"
  have c: "quiet d c" by (simp add: c_def)
  obtain b e where y: "expect_text ''WS closed before open packet'' evs c = (b, e)" by fastforce
  have o: "(a, d') = (case r of Some e \<Rightarrow> (Inl e, c) | None \<Rightarrow>
      (case b of Inl m \<Rightarrow> (Inl m, e) | Inr (t, evs) \<Rightarrow> acknowledged E user t evs e))"
    unfolding assms(1)[symmetric] ws_open_def x Let_def prod.case c_def[symmetric] y by (simp split: option.split sum.split prod.split)
  note q = expect_quiet[OF y assms(2)]
  show ?thesis
  proof (cases "r = None \<and> (\<exists>t rest. b = Inr (t, rest))")
    case True
    then obtain t rest where b: "b = Inr (t, rest)" by blast
    then have sub: "set rest \<subseteq> set evs" using q by blast
    have "acknowledged E user t rest e = (a, d')" using o True b by simp
    from acknowledged_quiet[OF this leave_account_mono[OF assms(2) sub]] show ?thesis
      using sub quiet_trans[OF c] quiet_trans[of c e d'] q by blast
  next
    case False
    then show ?thesis using o c q quiet_trans[OF c] by (auto split: option.splits sum.splits)
  qed
qed

lemma loop_keeps:
  assumes "dashboard_ws_loop E incoming user evs d = Some (r, d')" and "user_of d \<noteq> []" and "leave_account (others evs)"
  shows "keeps E (texts evs) d d' r"
proof -
  obtain a c where o: "ws_open E user evs d = (a, c)" by (rule prod.exhaust)
  note c = open_quiet[OF o assms(3)]
  have u: "user_of c \<noteq> []" using assms(2) quiet_user[of d c] c by simp
  show ?thesis
  proof (cases a)
    case (Inl e)
    then show ?thesis using assms(1) c by (simp add: dashboard_ws_loop_def o keeps_quiet)
  next
    case (Inr x)
    obtain i rest where x: "x = (i, rest)" by fastforce
    then have sub: "set rest \<subseteq> set evs" using c Inr by blast
    have "ws_run E incoming i rest (\<lparr>was_in_session = False, last_ws_data = clock E (device c)\<rparr>, c) = Some (r, d')"
      using assms(1) by (simp add: dashboard_ws_loop_def o Inr x)
    from run_keeps[OF this u leave_account_mono[OF assms(3) sub]] have "keeps E (texts rest) c d' r" .
    then have "keeps E (texts rest) d d' r" by (rule quiet_keeps[OF c[THEN conjunct1]])
    then show ?thesis by (rule keeps_mono) (use sub in \<open>auto simp: texts_def\<close>)
  qed
qed


definition demo_socket :: "nat socket_env" where
  "demo_socket = dash_env.extend demo_dash (socket_env.fields (\<lambda>_ w. (None, w)) (\<lambda>_ w. (None, w)) id (\<lambda>_ _. []))"

definition demo_linked :: "nat dash" where
  "demo_linked = \<lparr>device = put ''dashboard_user_id'' ''UA'' demo_state, socks = None, dashboard_running = True, in_session = False,
     session_meta = ([], []), ticket_replies = 0\<rparr>"


end
