(* ===== verification/Dashboard_Link.thy ===== *)
theory Dashboard_Link
  imports Dashboard_Socket
begin

text \<open>
  Linking a device from within a session: the peer asks, the connection (\<open>src/server/connection.rs\<close>) validates
  the invitation and asks the user of the connection manager (\<open>src/ui_cm_interface.rs\<close>), whose answer comes back
  over a channel. Connection, manager, the two channels and the other writers of the account (the messages of the
  dashboard, its start, the settings of the user interface) form a labelled transition system, in which each
  operation is undivided. The lemmas show by which of them the account can change, that within a session it takes
  an answer of the user, what the user was shown then and which invitation is redeemed, and where this can go
  wrong.
\<close>

section \<open>The connection\<close>

datatype cm_message = LinkDashboardIncoming string string | LinkDashboardTimeout

record link =
  pending_link_invite_code :: "string option"
  pending_link_request_at :: "nat option"
  to_cm :: "cm_message list"
  to_peer :: "(bool \<times> string) list"

definition send_link_dashboard_response :: "bool \<Rightarrow> string \<Rightarrow> link \<Rightarrow> link" where
  "send_link_dashboard_response accepted reason l = l\<lparr>to_peer := to_peer l @ [(accepted, reason)]\<rparr>"

definition handle_link_dashboard_request ::
  "('w, 'z) dash_env_scheme \<Rightarrow> string \<Rightarrow> link \<times> 'w mcp \<Rightarrow> link \<times> 'w mcp" where
  "handle_link_dashboard_request E invite_code = (\<lambda>(l, s).
    let trimmed = trim_str invite_code in
    if trimmed = [] then (send_link_dashboard_response False ''invalid_invite'' l, s)
    else if pending_link_invite_code l \<noteq> None then (send_link_dashboard_response False ''busy'' l, s)
    else (case validate_invite E trimmed s of
            (Inl _, s) \<Rightarrow> (send_link_dashboard_response False ''invalid_invite'' l, s)
          | (Inr (_, new_user, _, account_name), s) \<Rightarrow>
              let existing = get_dashboard_user_id s in
              if existing \<noteq> [] \<and> existing = new_user then (send_link_dashboard_response False ''already_linked'' l, s)
              else
                let existing_name = (if existing \<noteq> [] then opt ''dashboard_account_name'' s else [])
                in (l\<lparr>pending_link_invite_code := Some trimmed, pending_link_request_at := Some (clock E s),
                      to_cm := to_cm l @ [LinkDashboardIncoming account_name existing_name]\<rparr>, s)))"

text \<open>\<^const>\<open>None\<close>: the connection ends in a panic.\<close>

definition handle_link_dashboard_response ::
  "('w, 'z) dash_env_scheme \<Rightarrow> bool \<Rightarrow> link \<times> 'w mcp \<Rightarrow> (link \<times> 'w mcp) option" where
  "handle_link_dashboard_response E accepted = (\<lambda>(l, s).
    let invite_code = pending_link_invite_code l;
        l = l\<lparr>pending_link_invite_code := None, pending_link_request_at := None\<rparr> in
    if \<not> accepted then Some (send_link_dashboard_response False ''declined'' l, s)
    else (case invite_code of
            None \<Rightarrow> Some (send_link_dashboard_response False ''declined'' l, s)
          | Some code \<Rightarrow>
              (case link_device E (put ''invite_code'' code s) of
                 (None, _) \<Rightarrow> None
               | (Some (Inl _), s) \<Rightarrow> Some (send_link_dashboard_response False ''link_failed'' l, s)
               | (Some (Inr _), s) \<Rightarrow>
                   let s = put ''last_enrolled_invite_code'' code (put ''invite_code'' [] s)
                   in Some (send_link_dashboard_response True [] l, s\<lparr>world := notify_relinked E (world s)\<rparr>))))"

definition maybe_timeout_pending_link_dashboard :: "nat \<Rightarrow> link \<Rightarrow> link" where
  "maybe_timeout_pending_link_dashboard now l =
    (case pending_link_request_at l of
       None \<Rightarrow> l
     | Some started \<Rightarrow>
         if now - started \<ge> 120 * 1000 then
           send_link_dashboard_response False ''timeout''
             (l\<lparr>pending_link_invite_code := None, pending_link_request_at := None, to_cm := to_cm l @ [LinkDashboardTimeout]\<rparr>)
         else l)"

section \<open>The connection manager\<close>

record cm_client =
  incoming_link_dashboard :: bool
  link_dashboard_account_name :: string
  link_dashboard_existing_account_name :: string

definition link_dashboard_incoming :: "string \<Rightarrow> string \<Rightarrow> cm_client \<Rightarrow> cm_client" where
  "link_dashboard_incoming account_name existing_account_name c =
    c\<lparr>incoming_link_dashboard := True, link_dashboard_account_name := account_name,
      link_dashboard_existing_account_name := existing_account_name\<rparr>"

definition link_dashboard_clear :: "cm_client \<Rightarrow> cm_client" where
  "link_dashboard_clear c =
    c\<lparr>incoming_link_dashboard := False, link_dashboard_account_name := [], link_dashboard_existing_account_name := []\<rparr>"

fun cm_receive :: "cm_message \<Rightarrow> cm_client \<Rightarrow> cm_client" where
  "cm_receive (LinkDashboardIncoming a b) c = link_dashboard_incoming a b c"
| "cm_receive LinkDashboardTimeout c = link_dashboard_clear c"

definition cm_handle_link_dashboard_response :: "cm_client \<Rightarrow> cm_client" where
  "cm_handle_link_dashboard_response c = c\<lparr>incoming_link_dashboard := False, link_dashboard_account_name := []\<rparr>"

section \<open>Both together\<close>

text \<open>
  \<open>seen\<close> messages have reached the manager; answers wait with the name that was shown; \<open>asked\<close> records the codes
  that were put before the user, with the messages.
\<close>

record 'w link_sys =
  conn :: link
  host :: "'w mcp"
  client :: cm_client
  seen :: nat
  answers :: "(bool \<times> string) list"
  asked :: "(string \<times> cm_message) list"

definition NO_CLIENT_REQUEST :: cm_client where
  "NO_CLIENT_REQUEST = \<lparr>incoming_link_dashboard = False, link_dashboard_account_name = [], link_dashboard_existing_account_name = []\<rparr>"

definition NO_LINK :: link where
  "NO_LINK = \<lparr>pending_link_invite_code = None, pending_link_request_at = None, to_cm = [], to_peer = []\<rparr>"

definition link_start :: "'w mcp \<Rightarrow> 'w link_sys" where
  "link_start s = \<lparr>conn = NO_LINK, host = s, client = NO_CLIENT_REQUEST, seen = 0, answers = [], asked = []\<rparr>"

datatype 'w link_event =
    PeerAsks string
  | TimeIsUp
  | ManagerReads
  | UserAnswers bool
  | ConnectionReads
  | ServiceSays string
  | DashboardStarts
  | SettingsStored settings
  | WorldGoesOn 'w

inductive link_step ::
  "('w, 'z) socket_env_scheme \<Rightarrow> ('w \<Rightarrow> string + json list) \<Rightarrow> 'w link_event \<Rightarrow> 'w link_sys \<Rightarrow> 'w link_sys \<Rightarrow> bool" for E incoming where
  peer_asks: "handle_link_dashboard_request E code (conn \<sigma>, host \<sigma>) = (l, s) \<Longrightarrow>
    link_step E incoming (PeerAsks code) \<sigma> (\<sigma>\<lparr>conn := l, host := s,
      asked := (if length (to_cm l) > length (to_cm (conn \<sigma>)) then asked \<sigma> @ [(trim_str code, last (to_cm l))] else asked \<sigma>)\<rparr>)"
| time_is_up: "link_step E incoming TimeIsUp \<sigma>
    (\<sigma>\<lparr>conn := maybe_timeout_pending_link_dashboard (clock E (host \<sigma>)) (conn \<sigma>)\<rparr>)"
| manager_reads: "seen \<sigma> < length (to_cm (conn \<sigma>)) \<Longrightarrow>
    link_step E incoming ManagerReads \<sigma>
      (\<sigma>\<lparr>seen := seen \<sigma> + 1, client := cm_receive (to_cm (conn \<sigma>) ! seen \<sigma>) (client \<sigma>)\<rparr>)"
| user_answers: "incoming_link_dashboard (client \<sigma>) \<Longrightarrow>
    link_step E incoming (UserAnswers b) \<sigma> (\<sigma>\<lparr>answers := answers \<sigma> @ [(b, link_dashboard_account_name (client \<sigma>))],
      client := cm_handle_link_dashboard_response (client \<sigma>)\<rparr>)"
| connection_reads: "answers \<sigma> = (b, name) # rest \<Longrightarrow> handle_link_dashboard_response E b (conn \<sigma>, host \<sigma>) = Some (l, s) \<Longrightarrow>
    link_step E incoming ConnectionReads \<sigma> (\<sigma>\<lparr>answers := rest, conn := l, host := s\<rparr>)"
| service_says: "device d = host \<sigma> \<Longrightarrow> handle_incoming_message E incoming text d = Some (r, d') \<Longrightarrow>
    link_step E incoming (ServiceSays text) \<sigma> (\<sigma>\<lparr>host := device d'\<rparr>)"
| dashboard_starts: "device d = host \<sigma> \<Longrightarrow> start E d = (q, d') \<Longrightarrow>
    link_step E incoming DashboardStarts \<sigma> (\<sigma>\<lparr>host := device d'\<rparr>)"
| settings_stored: "link_step E incoming (SettingsStored os) \<sigma>
    (\<sigma>\<lparr>host := (host \<sigma>)\<lparr>mcp_cfg := set_options os (mcp_cfg (host \<sigma>))\<rparr>\<rparr>)"
| world_goes_on: "link_step E incoming (WorldGoesOn w) \<sigma> (\<sigma>\<lparr>host := (host \<sigma>)\<lparr>world := w\<rparr>\<rparr>)"

definition link_reachable :: "('w, 'z) socket_env_scheme \<Rightarrow> ('w \<Rightarrow> string + json list) \<Rightarrow> 'w link_sys \<Rightarrow> bool" where
  "link_reachable E incoming \<sigma> \<longleftrightarrow> (\<exists>s. (\<lambda>\<sigma> \<sigma>'. \<exists>ev. link_step E incoming ev \<sigma> \<sigma>')\<^sup>*\<^sup>* (link_start s) \<sigma>)"

lemma link_reachable_induct [consumes 1, case_names start step]:
  assumes "link_reachable E incoming \<sigma>" and "\<And>s. P (link_start s)"
    and "\<And>\<sigma> ev \<sigma>'. P \<sigma> \<Longrightarrow> link_step E incoming ev \<sigma> \<sigma>' \<Longrightarrow> P \<sigma>'"
  shows "P \<sigma>"
proof -
  obtain s where "(\<lambda>\<sigma> \<sigma>'. \<exists>ev. link_step E incoming ev \<sigma> \<sigma>')\<^sup>*\<^sup>* (link_start s) \<sigma>" using assms(1) by (auto simp: link_reachable_def)
  then show ?thesis by (induction rule: rtranclp_induct) (use assms(2,3) in auto)
qed

lemma reachable_step: "link_reachable E incoming \<sigma> \<Longrightarrow> link_step E incoming ev \<sigma> \<sigma>' \<Longrightarrow> link_reachable E incoming \<sigma>'"
  unfolding link_reachable_def by (metis (mono_tags, lifting) rtranclp.rtrancl_into_rtrancl)

text \<open>What a request does, on its paths.\<close>

lemma request_cases:
  assumes "handle_link_dashboard_request E code (l, s) = (l', s')"
  obtains (refused) reason where "l' = send_link_dashboard_response False reason l" "alike True ENDPOINTS s s'"
  | (shown) name old where "pending_link_invite_code l = None" "trim_str code \<noteq> []" "alike True ENDPOINTS s s'"
      "l' = l\<lparr>pending_link_invite_code := Some (trim_str code), pending_link_request_at := Some (clock E s'),
              to_cm := to_cm l @ [LinkDashboardIncoming name old]\<rparr>"
proof -
  obtain v u where v: "validate_invite E (trim_str code) s = (v, u)" by (rule prod.exhaust)
  have u: "alike True ENDPOINTS s u" by (rule alike_validate[OF v]) (auto intro: alike_refl)
  show thesis
    using assms u refused shown alike_refl[of True ENDPOINTS s]
    by (auto simp: handle_link_dashboard_request_def v Let_def split: if_splits sum.splits)
qed

lemma same_account: "alike p K s s' \<Longrightarrow> ''dashboard_user_id'' \<notin> K \<Longrightarrow> get_dashboard_user_id s' = get_dashboard_user_id s"
  by (simp add: alike_def get_dashboard_user_id_def)

text \<open>
  An account by an invitation: what the service says of the code, or the token that was laid down beforehand, goes
  into the registration; its account is the one of the registration, or else of the invitation.
\<close>

definition redeemed :: "('w, 'z) dash_env_scheme \<Rightarrow> string \<Rightarrow> 'w mcp \<Rightarrow> string \<Rightarrow> bool" where
  "redeemed E code s account \<longleftrightarrow> (\<exists>token user i v resolved w.
    (if get_prefilled_enrollment_token E s = [] then \<exists>kind name. fst (validate_invite E code s) = Inr (token, user, kind, name)
     else token = get_prefilled_enrollment_token E s \<and> user = [])
    \<and> register_device E token code i v = (Inr resolved, w)
    \<and> account = (if resolved \<noteq> [] then resolved else user))"

lemma put_or_keep: "v \<noteq> [] \<Longrightarrow> opt k (put k v s) = v \<or> opt k (put k v s) = opt k s"
  by (auto simp: opt_def put_def get_option_def set_option_update get_or_def unwrap_or_default_def split: option.split)

lemma finish_account:
  "get_dashboard_user_id (finish_link E code user i w) = get_dashboard_user_id w
    \<or> (user \<noteq> [] \<and> get_dashboard_user_id (finish_link E code user i w) = user)"
proof -
  have n: "get_dashboard_user_id (snd (get_network_settings E code v)) = get_dashboard_user_id v" for v
    using same_account[OF alike_network[of "{''api-cache''}" True v v E code]] by (simp add: alike_refl)
  have "get_dashboard_user_id (put ''dashboard_device_id'' i (put ''dashboard_user_id'' user w)) \<in> {user, get_dashboard_user_id w}"
    if "user \<noteq> []" using put_or_keep[OF that, of "''dashboard_user_id''" w] by (auto simp: get_dashboard_user_id_def)
  then show ?thesis unfolding finish_link_def Let_def using n by (auto split: if_split)
qed

lemma link_account:
  assumes "link_device E s = (Some (Inr ()), s')" and "get_dashboard_user_id s' \<noteq> get_dashboard_user_id s"
    and "opt ''invite_code'' s = code" and "code \<noteq> []"
  shows "redeemed E code s (get_dashboard_user_id s')"
  using assms(1)
proof (cases rule: link_device_cases)
  case (linked token user i v resolved w)
  have code: "get_invite_code E s = code" using assms(3,4) by (simp add: get_invite_code_def)
  have "alike False (insert ''unattended-access'' (insert ''dashboard_account_name'' ENDPOINTS)) s v"
    by (rule alike_mono[OF linked(4)]) auto
  then have "alike False (insert ''unattended-access'' (insert ''dashboard_account_name'' ENDPOINTS)) s w"
    using alike_register[OF linked(5)] by simp
  then have "get_dashboard_user_id w = get_dashboard_user_id s" by (rule same_account) (simp add: ENDPOINTS_def)
  then have a: "get_dashboard_user_id s' = (if resolved \<noteq> [] then resolved else user)"
    using finish_account[of E "get_invite_code E s" "if resolved \<noteq> [] then resolved else user" i w] assms(2) linked(6) by simp
  obtain t where t: "enrollment_for E code (get_prefilled_enrollment_token E s) s = (Some (Inr (token, user)), t)"
    using linked(3) code by blast
  have "if get_prefilled_enrollment_token E s = [] then \<exists>kind name. fst (validate_invite E code s) = Inr (token, user, kind, name)
     else token = get_prefilled_enrollment_token E s \<and> user = []"
    using t by (auto simp: enrollment_for_def split: if_splits prod.splits sum.splits)
  then show ?thesis using a linked(5) unfolding code redeemed_def by blast
qed simp

text \<open>What an answer does; only the acceptance of a request that is still pending can change the account.\<close>

lemma response_cases:
  assumes "handle_link_dashboard_response E b (l, s) = Some (l', s')"
  shows "pending_link_invite_code l' = None \<and> pending_link_request_at l' = None \<and> to_cm l' = to_cm l
    \<and> (get_dashboard_user_id s' \<noteq> get_dashboard_user_id s \<longrightarrow>
        b \<and> to_peer l' = to_peer l @ [(True, [])]
        \<and> (\<exists>code. pending_link_invite_code l = Some code
            \<and> (code \<noteq> [] \<and> opt ''invite_code'' (put ''invite_code'' code s) = code \<longrightarrow>
               redeemed E code (put ''invite_code'' code s) (get_dashboard_user_id s'))))"
proof -
  have put: "get_dashboard_user_id (put ''invite_code'' c t) = get_dashboard_user_id t" for c and t :: "'a mcp"
    by (simp add: get_dashboard_user_id_def)
  have failed: "get_dashboard_user_id t = get_dashboard_user_id s"
    if "link_device E (put ''invite_code'' c s) = (Some (Inl e), t)" for c e t
    using same_account[OF failed_link[OF that]] by (simp add: ENDPOINTS_def put)
  have made: "redeemed E c (put ''invite_code'' c s) (get_dashboard_user_id t)"
    if "link_device E (put ''invite_code'' c s) = (Some (Inr ()), t)" "get_dashboard_user_id t \<noteq> get_dashboard_user_id s"
      "c \<noteq> []" "opt ''invite_code'' (put ''invite_code'' c s) = c" for c t
    using link_account[OF that(1) _ that(4,3)] that(2) by (simp add: put)
  have after: "get_dashboard_user_id ((put ''last_enrolled_invite_code'' c (put ''invite_code'' [] t))\<lparr>world := w\<rparr>) = get_dashboard_user_id t"
    for c t and w :: 'a by (simp add: get_dashboard_user_id_def)
  show ?thesis
    using assms failed after
    by (auto simp: handle_link_dashboard_response_def send_link_dashboard_response_def Let_def intro: made
        split: if_splits option.splits prod.splits sum.splits)
qed

section \<open>What the user was shown\<close>

definition calm :: "'w link_sys \<Rightarrow> bool" where
  "calm \<sigma> \<longleftrightarrow> LinkDashboardTimeout \<notin> set (to_cm (conn \<sigma>))"

text \<open>While no request has timed out: where the request that is pending stands, and that its name is the one shown.\<close>

definition on_its_way :: "'w link_sys \<Rightarrow> string \<Rightarrow> bool" where
  "on_its_way \<sigma> name \<longleftrightarrow>
    (Suc (seen \<sigma>) = length (to_cm (conn \<sigma>)) \<and> \<not> incoming_link_dashboard (client \<sigma>) \<and> answers \<sigma> = [])
    \<or> (seen \<sigma> = length (to_cm (conn \<sigma>)) \<and> incoming_link_dashboard (client \<sigma>)
        \<and> link_dashboard_account_name (client \<sigma>) = name \<and> answers \<sigma> = [])
    \<or> (seen \<sigma> = length (to_cm (conn \<sigma>)) \<and> \<not> incoming_link_dashboard (client \<sigma>) \<and> (\<exists>b. answers \<sigma> = [(b, name)]))"

definition link_inv :: "'w link_sys \<Rightarrow> bool" where
  "link_inv \<sigma> \<longleftrightarrow>
    (pending_link_request_at (conn \<sigma>) = None \<longleftrightarrow> pending_link_invite_code (conn \<sigma>) = None)
    \<and> pending_link_invite_code (conn \<sigma>) \<noteq> Some []
    \<and> (calm \<sigma> \<longrightarrow>
        (case pending_link_invite_code (conn \<sigma>) of
           None \<Rightarrow> seen \<sigma> = length (to_cm (conn \<sigma>)) \<and> \<not> incoming_link_dashboard (client \<sigma>) \<and> answers \<sigma> = []
         | Some code \<Rightarrow> \<exists>name old. to_cm (conn \<sigma>) \<noteq> [] \<and> last (to_cm (conn \<sigma>)) = LinkDashboardIncoming name old
             \<and> asked \<sigma> \<noteq> [] \<and> last (asked \<sigma>) = (code, LinkDashboardIncoming name old) \<and> on_its_way \<sigma> name))"

lemma link_inv_start: "link_inv (link_start s)"
  by (simp add: link_inv_def link_start_def NO_LINK_def NO_CLIENT_REQUEST_def)

lemma link_inv_step:
  assumes "link_inv \<sigma>" and "link_step E incoming ev \<sigma> \<sigma>'"
  shows "link_inv \<sigma>'"
  using assms(2,1)
proof (cases rule: link_step.cases)
  case (peer_asks code l s)
  from peer_asks(3) show ?thesis
  proof (cases rule: request_cases)
    case (refused reason)
    then show ?thesis using assms(1) peer_asks(2)
      by (simp add: link_inv_def calm_def on_its_way_def send_link_dashboard_response_def split: option.splits)
  next
    case (shown name old)
    then show ?thesis using assms(1) peer_asks(2) by (simp add: link_inv_def calm_def on_its_way_def)
  qed
next
  case time_is_up
  then show ?thesis using assms(1)
    by (auto simp: link_inv_def calm_def on_its_way_def maybe_timeout_pending_link_dashboard_def
        send_link_dashboard_response_def split: option.splits)
next
  case manager_reads
  have last: "to_cm (conn \<sigma>) ! seen \<sigma> = last (to_cm (conn \<sigma>))" if "Suc (seen \<sigma>) = length (to_cm (conn \<sigma>))"
    using that by (metis diff_Suc_1 last_conv_nth length_0_conv nat.distinct(1))
  show ?thesis using assms(1) manager_reads last
    by (auto simp: link_inv_def calm_def on_its_way_def link_dashboard_incoming_def split: option.splits)
next
  case (user_answers b)
  then show ?thesis using assms(1)
    by (auto simp: link_inv_def calm_def on_its_way_def cm_handle_link_dashboard_response_def split: option.splits)
next
  case (connection_reads b name rest l s)
  then show ?thesis using assms(1) response_cases[OF connection_reads(4)]
    by (auto simp: link_inv_def calm_def on_its_way_def split: option.splits)
qed (use assms(1) in \<open>simp_all add: link_inv_def calm_def on_its_way_def split: option.splits\<close>)

lemma link_inv_reachable: "link_reachable E incoming \<sigma> \<Longrightarrow> link_inv \<sigma>"
  by (induction rule: link_reachable_induct) (auto intro: link_inv_start link_inv_step)

section \<open>The other writers of the account\<close>

text \<open>What the dashboard finds when it is started: the proxy has been applied, and the addresses are asked for.\<close>

definition at_start :: "('w, 'z) dash_env_scheme \<Rightarrow> 'w dash \<Rightarrow> 'w mcp" where
  "at_start E d = refresh_dashboard_endpoints E (snd (apply_pending_proxy E (socks d, device d)))"

lemma at_start_account: "get_dashboard_user_id (at_start E d) = get_dashboard_user_id (device d)"
proof -
  have "alike True ENDPOINTS (device d) (snd (apply_pending_proxy E (socks d, device d)))"
    by (auto simp: apply_pending_proxy_def Let_def intro: alike_intros split: option.split)
  from alike_refresh[OF subset_refl this] show ?thesis unfolding at_start_def by (rule same_account) (simp add: ENDPOINTS_def)
qed

lemma begin_account: "begin_serving E d = (q, d') \<Longrightarrow> get_dashboard_user_id (device d') = user_of d"
  by (auto simp: begin_serving_def user_of_def on_device_def restore_id_def device_id_def get_id_def get_dashboard_user_id_def
      opt_def get_option_def Let_def split: if_splits option.splits prod.splits)

text \<open>The start of the dashboard sets an account only when there is an invitation or a token.\<close>

lemma start_account:
  assumes "start E d = (q, d')" and "get_dashboard_user_id (device d') \<noteq> get_dashboard_user_id (device d)"
  shows "get_invite_code E (at_start E d) \<noteq> [] \<or> get_prefilled_enrollment_token E (at_start E d) \<noteq> []"
proof (rule ccontr)
  assume no: "\<not> ?thesis"
  obtain p s where ps: "apply_pending_proxy E (socks d, device d) = (p, s)" by fastforce
  let ?d = "d\<lparr>dashboard_running := True, socks := p, device := at_start E d\<rparr>"
  have "\<not> dashboard_running d" using assms by (auto simp: start_def)
  then have "begin_serving E ?d = (q, d')"
    using assms(1) no unfolding start_def at_start_def ps Let_def prod.case snd_conv by simp
  from begin_account[OF this] show False using assms(2) at_start_account[of E d] by (simp add: user_of_def)
qed

text \<open>
  What the consent of the user comes to: an acceptance is read while a code is pending, which is settled and
  reported; the name that was shown was announced with that code, unless a request has timed out; and that code
  is redeemed, when the option for it can be stored.
\<close>

definition consented :: "('w, 'z) dash_env_scheme \<Rightarrow> 'w link_sys \<Rightarrow> 'w link_sys \<Rightarrow> bool" where
  "consented E \<sigma> \<sigma>' \<longleftrightarrow> (\<exists>code name rest. answers \<sigma> = (True, name) # rest
    \<and> pending_link_invite_code (conn \<sigma>) = Some code \<and> pending_link_invite_code (conn \<sigma>') = None
    \<and> to_peer (conn \<sigma>') = to_peer (conn \<sigma>) @ [(True, [])]
    \<and> (LinkDashboardTimeout \<notin> set (to_cm (conn \<sigma>)) \<longrightarrow>
        (\<exists>old. asked \<sigma> \<noteq> [] \<and> last (asked \<sigma>) = (code, LinkDashboardIncoming name old)))
    \<and> (opt ''invite_code'' (put ''invite_code'' code (host \<sigma>)) = code \<longrightarrow>
        redeemed E code (put ''invite_code'' code (host \<sigma>)) (get_dashboard_user_id (host \<sigma>'))))"


section \<open>Two runs\<close>

lemma demo_socket_simps:
  "http_get demo_socket url w =
     (if url = ''https://dashboard.hoptodesk.com/api?action=validateInvite&invite_code=A'' then Inr (demo_invite ''UA'' ''Alice'')
      else if url = ''https://dashboard.hoptodesk.com/api?action=validateInvite&invite_code=B'' then Inr (demo_invite ''UB'' ''Mallory'')
      else Inl ''no answer'', w)"
  "http_post demo_socket url form w = (Inr (JObj [(''success'', JBool True)]), w)"
  "text_file demo_socket path w = None" "notify_relinked demo_socket w = w" "clock demo_socket s = world s"
  by (simp_all add: demo_socket_def dash_env.extend_def socket_env.fields_def demo_dash_def mcp_env.extend_def dash_env.fields_def
      demo_env_def clock_def)

lemma demo_validate:
  assumes "opt ''dashboard-api-url'' s = []" and "opt ''dashboard-ws-url'' s = []" and "api s = api demo_state"
  shows "validate_invite demo_socket ''A'' s = (Inr (''t'', ''UA'', ''standard'', ''Alice''), s)"
    and "validate_invite demo_socket ''B'' s = (Inr (''t'', ''UB'', ''standard'', ''Mallory''), s)"
  using assms
  by (simp_all add: validate_invite_def demo_refresh web_get_def demo_socket_simps dashboard_api_base_def
      DASHBOARD_API_URL_def demo_invite_def succeeded_def text_at_def starts_with_def)

lemma demo_trim: "trim_str ''A'' = ''A''" "trim_str ''B'' = ''B''"
  by (simp_all add: trim_graphic graphic_def)

definition asking :: "string \<Rightarrow> nat \<Rightarrow> cm_message list \<Rightarrow> (bool \<times> string) list \<Rightarrow> link" where
  "asking code t ms rs = \<lparr>pending_link_invite_code = Some code, pending_link_request_at = Some t, to_cm = ms, to_peer = rs\<rparr>"

lemma demo_opt [simp]: "opt k (demo_state\<lparr>world := w\<rparr>) = []" "opt k demo_state = []"
  by (simp_all add: opt_def demo_state_def demo_config_def get_option_def get_or_def)

lemma demo_asks:
  "handle_link_dashboard_request demo_socket ''A'' (NO_LINK, demo_state)
    = (asking ''A'' 0 [LinkDashboardIncoming ''Alice'' []] [], demo_state)"
  "pending_link_invite_code l = None \<Longrightarrow> handle_link_dashboard_request demo_socket ''B'' (l, demo_state\<lparr>world := 120000\<rparr>)
    = (asking ''B'' 120000 (to_cm l @ [LinkDashboardIncoming ''Mallory'' []]) (to_peer l), demo_state\<lparr>world := 120000\<rparr>)"
  by (cases l; simp add: handle_link_dashboard_request_def demo_trim demo_validate get_dashboard_user_id_def asking_def NO_LINK_def
      demo_socket_simps; simp add: demo_state_def)+

definition stale_messages :: "cm_message list" where
  "stale_messages = [LinkDashboardIncoming ''Alice'' [], LinkDashboardTimeout, LinkDashboardIncoming ''Mallory'' []]"

lemma await_id_done: "i \<noteq> [] \<Longrightarrow> await_id E n i s = (i, s)"
  by (cases n) simp_all

text \<open>A machine with the settings that matter here: an id and nothing that overrides an option.\<close>

definition plain :: "'w mcp \<Rightarrow> bool" where
  "plain s \<longleftrightarrow> overwrite_settings (mcp_cfg s) = Map.empty \<and> default_settings (mcp_cfg s) = Map.empty
    \<and> cfg_id (mcp_cfg s) \<noteq> [] \<and> opt ''dashboard-api-url'' s = [] \<and> opt ''dashboard-ws-url'' s = [] \<and> api s = api demo_state"

lemma plain_put: "plain s \<Longrightarrow> k \<noteq> ''dashboard-api-url'' \<Longrightarrow> k \<noteq> ''dashboard-ws-url'' \<Longrightarrow> plain (put k v s)"
  by (simp add: plain_def) (simp add: put_def set_option_update)

lemma opt_put_same: "plain s \<Longrightarrow> opt k (put k v s) = v"
  by (simp add: plain_def opt_def put_def get_option_def set_option_update get_or_def is_option_can_save_def unwrap_or_default_def
      split: option.split)

lemma plain_device_id: "plain s \<Longrightarrow> \<exists>i. i \<noteq> [] \<and> device_id E s = (i, s)"
  by (simp add: plain_def device_id_def get_id_def)

definition account_of :: "string \<Rightarrow> string" where
  "account_of code = (if code = ''A'' then ''UA'' else ''UB'')"

lemma demo_link:
  assumes "plain s" and "opt ''invite_code'' s = code" and "code \<in> {''A'', ''B''}"
  shows "\<exists>t. link_device demo_socket s = (Some (Inr ()), t) \<and> get_dashboard_user_id t = account_of code"
proof -
  let ?name = "if code = ''A'' then ''Alice'' else ''Mallory''"
  let ?u = "put ''dashboard_account_name'' ?name s"
  have inv: "get_invite_code demo_socket s = code" "get_prefilled_enrollment_token demo_socket s = []"
    using assms(2,3) by (auto simp: get_invite_code_def get_prefilled_enrollment_token_def file_token_def demo_socket_simps)
  have "opt ''dashboard-api-url'' s = []" "opt ''dashboard-ws-url'' s = []" "api s = api demo_state" using assms(1) by (simp_all add: plain_def)
  from demo_validate[OF this]
  have e: "enrollment_for demo_socket code [] s = (Some (Inr (''t'', account_of code)), ?u)"
    using assms(3) by (auto simp: enrollment_for_def log_cut_panics_def account_of_def)
  have u: "plain ?u" using assms(1) by (rule plain_put) simp_all
  then have base: "dashboard_api_base ?u = DASHBOARD_API_URL" by (simp add: plain_def dashboard_api_base_def)
  obtain i where i: "i \<noteq> []" "device_id demo_socket ?u = (i, ?u)" using plain_device_id[OF u] by blast
  have r: "register_device demo_socket token code i ?u = (Inr [], ?u)" for token
    by (simp add: register_device_def Let_def web_post_def demo_socket_simps succeeded_def text_at_def apply_deployment_def)
  have n: "get_dashboard_user_id (snd (get_network_settings demo_socket code v)) = get_dashboard_user_id v" for v
    using same_account[OF alike_network[of "{''api-cache''}" True v v demo_socket code]] by (simp add: alike_refl)
  have ne: "account_of code \<noteq> []" by (simp add: account_of_def)
  have g: "get_dashboard_user_id (put ''dashboard_device_id'' i (put ''dashboard_user_id'' (account_of code) ?u)) = account_of code"
    using opt_put_same[OF u, of "''dashboard_user_id''"] by (simp add: get_dashboard_user_id_def)
  have "get_dashboard_user_id (finish_link demo_socket code (account_of code) i ?u) = account_of code"
    by (simp only: finish_link_def Let_def ne n g if_True not_False_eq_True split: if_split) simp
  moreover have "link_device demo_socket s = (Some (Inr ()), finish_link demo_socket code (account_of code) i ?u)"
    using assms(3) i by (auto simp: link_device_def Let_def inv e await_id_done r finish_link_def)
  ultimately show ?thesis by blast
qed

lemma demo_accepted:
  assumes "plain s" and "code \<in> {''A'', ''B''}"
  shows "\<exists>l t. handle_link_dashboard_response demo_socket True (asking code t0 ms rs, s) = Some (l, t)
    \<and> get_dashboard_user_id t = account_of code"
proof -
  have p: "plain (put ''invite_code'' code s)" using assms(1) by (rule plain_put) simp_all
  obtain t where t: "link_device demo_socket (put ''invite_code'' code s) = (Some (Inr ()), t)" "get_dashboard_user_id t = account_of code"
    using demo_link[OF p opt_put_same[OF assms(1)] assms(2)] by blast
  then show ?thesis
    by (simp add: handle_link_dashboard_response_def asking_def Let_def get_dashboard_user_id_def)
qed

lemma plain_demo: "plain (demo_state\<lparr>world := w\<rparr>)" "plain demo_state"
  by (simp_all add: plain_def) (simp_all add: demo_state_def demo_config_def)

definition answered :: "nat link_sys" where
  "answered = \<lparr>conn = asking ''A'' 0 [LinkDashboardIncoming ''Alice'' []] [], host = demo_state, client = NO_CLIENT_REQUEST, seen = 1,
     answers = [(True, ''Alice'')], asked = [(''A'', LinkDashboardIncoming ''Alice'' [])]\<rparr>"

lemma answered_reachable: "link_reachable demo_socket nobody answered"
proof -
  let ?s1 = "\<lparr>conn = asking ''A'' 0 [LinkDashboardIncoming ''Alice'' []] [], host = demo_state, client = NO_CLIENT_REQUEST, seen = 0,
     answers = [], asked = [(''A'', LinkDashboardIncoming ''Alice'' [])]\<rparr>"
  have "link_reachable demo_socket nobody (link_start demo_state)" by (auto simp: link_reachable_def)
  moreover have "link_step demo_socket nobody (PeerAsks ''A'') (link_start demo_state) ?s1"
    using peer_asks[of demo_socket "''A''" "link_start demo_state" _ _ nobody] demo_asks(1)
    by (simp add: link_start_def demo_trim asking_def NO_LINK_def)
  moreover have "link_step demo_socket nobody ManagerReads ?s1 (?s1\<lparr>seen := 1, client := link_dashboard_incoming ''Alice'' [] NO_CLIENT_REQUEST\<rparr>)"
    using manager_reads[of ?s1 demo_socket nobody] by (simp add: asking_def)
  moreover have "link_step demo_socket nobody (UserAnswers True) (?s1\<lparr>seen := 1, client := link_dashboard_incoming ''Alice'' [] NO_CLIENT_REQUEST\<rparr>) answered"
    using user_answers[of "?s1\<lparr>seen := 1, client := link_dashboard_incoming ''Alice'' [] NO_CLIENT_REQUEST\<rparr>" demo_socket nobody True]
    by (simp add: answered_def link_dashboard_incoming_def cm_handle_link_dashboard_response_def NO_CLIENT_REQUEST_def)
  ultimately show ?thesis using reachable_step by metis
qed

lemma demo_not_linked: "get_dashboard_user_id (demo_state\<lparr>world := w\<rparr>) = []" "get_dashboard_user_id demo_state = []"
  by (simp_all add: get_dashboard_user_id_def)


text \<open>
  With a timeout the answer to one request can be taken as the answer to the next: the user agreed to be linked to
  Alice, and the device is linked to Mallory.
\<close>

lemma stale_consent:
  "\<exists>\<sigma> \<sigma>'. link_reachable demo_socket nobody \<sigma> \<and> link_step demo_socket nobody ConnectionReads \<sigma> \<sigma>' \<and> answers \<sigma> = [(True, ''Alice'')]
    \<and> last (asked \<sigma>) = (''B'', LinkDashboardIncoming ''Mallory'' []) \<and> get_dashboard_user_id (host \<sigma>') = ''UB''"
proof -
  let ?late = "answered\<lparr>host := demo_state\<lparr>world := 120000\<rparr>\<rparr>"
  let ?over = "?late\<lparr>conn := maybe_timeout_pending_link_dashboard 120000 (conn answered)\<rparr>"
  let ?again = "?over\<lparr>conn := asking ''B'' 120000 stale_messages [(False, ''timeout'')],
      asked := asked answered @ [(''B'', LinkDashboardIncoming ''Mallory'' [])]\<rparr>"
  have "link_step demo_socket nobody (WorldGoesOn 120000) answered ?late"
    using world_goes_on[of demo_socket nobody 120000 answered] by (simp add: answered_def)
  moreover have "link_step demo_socket nobody TimeIsUp ?late ?over"
    using time_is_up[of demo_socket nobody ?late] by (simp add: demo_socket_simps)
  moreover have "link_step demo_socket nobody (PeerAsks ''B'') ?over ?again"
    using peer_asks[of demo_socket "''B''" ?over _ _ nobody] demo_asks(2)[of "conn ?over"]
    by (simp add: answered_def maybe_timeout_pending_link_dashboard_def asking_def send_link_dashboard_response_def
        stale_messages_def demo_trim)
  ultimately have reach: "link_reachable demo_socket nobody ?again" using answered_reachable reachable_step by metis
  obtain l s where r: "handle_link_dashboard_response demo_socket True (conn ?again, host ?again) = Some (l, s)"
      "get_dashboard_user_id s = ''UB''"
    using demo_accepted[OF plain_demo(1)[of 120000], of "''B''" 120000 stale_messages "[(False, ''timeout'')]"] by (auto simp: answered_def account_of_def)
  have "link_step demo_socket nobody ConnectionReads ?again (?again\<lparr>answers := [], conn := l, host := s\<rparr>)"
    using connection_reads[OF _ r(1), of "''Alice''" "[]"] by (simp add: answered_def)
  then show ?thesis using reach r(2)
    by (intro exI[of _ ?again] exI[of _ "?again\<lparr>answers := [], conn := l, host := s\<rparr>"]) (simp add: answered_def)
qed

end
