(* ===== verification/Stream_Framing.thy ===== *)
theory Stream_Framing
  imports Hop_Prelude
begin

text \<open>
  The interface between a byte stream and a message decoder. A reader (the \<open>Framed\<close> transport the
  client wraps around a socket) appends every chunk that arrives to its buffer and calls the decoder
  until it asks for more bytes. The locale \<open>framing\<close> states what a framing must promise for that
  loop to be independent of how the network cuts the stream; \<open>Bytes_Codec\<close> discharges it for
  \<open>BytesCodec\<close>.
\<close>

section \<open>The reading loop\<close>

type_synonym ('s, 'b, 'e, 'm) decoder = "'s \<Rightarrow> 'b list \<Rightarrow> ('e + 'm option) \<times> 's \<times> 'b list"

text \<open>All messages the buffer holds; the fuel bounds the number of decoder calls, and None stands
  for a decoder error or for too little fuel.\<close>

fun drain :: "('s, 'b, 'e, 'm) decoder \<Rightarrow> nat \<Rightarrow> 's \<Rightarrow> 'b list \<Rightarrow> ('m list \<times> 's \<times> 'b list) option" where
  "drain dec 0 s buf = None"
| "drain dec (Suc k) s buf =
    (case dec s buf of
      (Inl e, _, _) \<Rightarrow> None
    | (Inr None, s', buf') \<Rightarrow> Some ([], s', buf')
    | (Inr (Some m), s', buf') \<Rightarrow>
        (case drain dec k s' buf' of
          None \<Rightarrow> None
        | Some (ms, r) \<Rightarrow> Some (m # ms, r)))"

text \<open>The chunks arrive one after another.\<close>

fun feed :: "('s, 'b, 'e, 'm) decoder \<Rightarrow> nat \<Rightarrow> 's \<Rightarrow> 'b list \<Rightarrow> 'b list list
    \<Rightarrow> ('m list \<times> 's \<times> 'b list) option" where
  "feed dec k s buf [] = Some ([], s, buf)"
| "feed dec k s buf (c # cs) =
    (case drain dec k s (buf @ c) of
      None \<Rightarrow> None
    | Some (ms, s', buf') \<Rightarrow>
        (case feed dec k s' buf' cs of
          None \<Rightarrow> None
        | Some (ms', r) \<Rightarrow> Some (ms @ ms', r)))"

section \<open>The contract of a framing\<close>

locale framing =
  fixes enc :: "'m \<Rightarrow> 'b list"
    and dec :: "('s, 'b, 'e, 'm) decoder"
    and ok :: "'m \<Rightarrow> bool"
    and idle :: 's
  assumes dec_idle: "dec idle [] = (Inr None, idle, [])"
    and dec_frame: "ok m \<Longrightarrow> dec idle (enc m @ rest) = (Inr (Some m), idle, rest)"
    and dec_cut: "ok m \<Longrightarrow> enc m = p @ q \<Longrightarrow> q \<noteq> [] \<Longrightarrow>
      \<exists>s p'. dec idle p = (Inr None, s, p') \<and> (\<forall>x. dec s (p' @ x) = dec idle (p @ x))"
begin

text \<open>The reader has consumed \<open>p\<close> of the current frame: it behaves as an idle decoder whose
  buffer starts with \<open>p\<close>.\<close>

definition pending :: "'s \<Rightarrow> 'b list \<Rightarrow> 'b list \<Rightarrow> bool" where
  "pending s buf p \<longleftrightarrow>
    (\<forall>x. dec s (buf @ x) = dec idle (p @ x)) \<and> (p = [] \<longrightarrow> s = idle \<and> buf = [])"

lemma pending_idle: "pending idle [] []"
  by (simp add: pending_def)

lemma enc_not_Nil: "ok m \<Longrightarrow> enc m \<noteq> []"
  using dec_frame[of m "[]"] dec_idle by auto

text \<open>What is left of the stream: \<open>p\<close> is shorter than the frame it starts.\<close>

fun short_of :: "'b list \<Rightarrow> 'm list \<Rightarrow> bool" where
  "short_of p [] \<longleftrightarrow> p = []"
| "short_of p (m # ms) \<longleftrightarrow> length p < length (enc m)"

lemma drain_frames:
  assumes "pending s buf p" and "list_all ok ms" and "p @ c @ rest = concat (map enc ms)"
    and "length ms < k"
  shows "\<exists>ms1 ms2 s' buf' p'. ms = ms1 @ ms2 \<and> drain dec k s (buf @ c) = Some (ms1, s', buf') \<and>
    pending s' buf' p' \<and> short_of p' ms2 \<and> p' @ rest = concat (map enc ms2)"
  using assms
proof (induction ms arbitrary: k s buf p c)
  case Nil
  then have "p = []" "c = []" "rest = []" "s = idle" "buf = []"
    by (auto simp: pending_def)
  moreover obtain j where "k = Suc j" using Nil.prems(4) by (cases k) auto
  ultimately show ?case
    using pending_idle by (auto simp: dec_idle intro!: exI[of _ "[]"])
next
  case (Cons m ms)
  obtain j where k: "k = Suc j" and j: "length ms < j" using Cons.prems(4) by (cases k) auto
  have ok: "ok m" and oks: "list_all ok ms" using Cons.prems(2) by auto
  have step: "dec s (buf @ c) = dec idle (p @ c)" using Cons.prems(1) by (simp add: pending_def)
  have stream: "(p @ c) @ rest = enc m @ concat (map enc ms)" using Cons.prems(3) by simp
  show ?case
  proof (cases "length (enc m) \<le> length (p @ c)")
    case True
    then obtain t where t: "p @ c = enc m @ t" and rest: "t @ rest = concat (map enc ms)"
      using append_split_longer[OF stream] by blast
    then have "dec s (buf @ c) = (Inr (Some m), idle, t)"
      using step dec_frame[OF ok, of t] by simp
    moreover obtain ms1 ms2 s' buf' p' where "ms = ms1 @ ms2"
      and "drain dec j idle ([] @ t) = Some (ms1, s', buf')"
      and "pending s' buf' p'" "short_of p' ms2" "p' @ rest = concat (map enc ms2)"
      using Cons.IH[OF pending_idle oks _ j, of t] rest by auto
    ultimately have "m # ms = (m # ms1) @ ms2 \<and> drain dec k s (buf @ c) = Some (m # ms1, s', buf') \<and>
      pending s' buf' p' \<and> short_of p' ms2 \<and> p' @ rest = concat (map enc ms2)"
      unfolding k by simp
    then show ?thesis by blast
  next
    case False
    then obtain q where q: "enc m = (p @ c) @ q" and "q \<noteq> []"
      using append_split_shorter[OF stream] by auto
    then obtain s' p' where dec: "dec idle (p @ c) = (Inr None, s', p')"
      and eq: "\<forall>x. dec s' (p' @ x) = dec idle ((p @ c) @ x)"
      using dec_cut[OF ok] by metis
    have "pending s' p' (p @ c)"
      using eq dec dec_idle by (auto simp: pending_def)
    with dec step False stream have "m # ms = [] @ m # ms \<and> drain dec k s (buf @ c) = Some ([], s', p') \<and>
      pending s' p' (p @ c) \<and> short_of (p @ c) (m # ms) \<and> (p @ c) @ rest = concat (map enc (m # ms))"
      unfolding k by simp
    then show ?thesis by blast
  qed
qed

lemma feed_pending:
  assumes "pending s buf p" and "list_all ok ms" and "short_of p ms"
    and "p @ concat chunks = concat (map enc ms)" and "length ms < k"
  shows "feed dec k s buf chunks = Some (ms, idle, [])"
  using assms
proof (induction chunks arbitrary: s buf p ms)
  case Nil
  then have "ms = []"
    by (cases ms) auto
  with Nil show ?case by (simp add: pending_def)
next
  case (Cons c cs)
  obtain ms1 ms2 s' buf' p' where ms: "ms = ms1 @ ms2"
    and d: "drain dec k s (buf @ c) = Some (ms1, s', buf')"
    and pend: "pending s' buf' p'" "short_of p' ms2" "p' @ concat cs = concat (map enc ms2)"
    using drain_frames[OF Cons.prems(1,2) _ Cons.prems(5), of c "concat cs"] Cons.prems(4) by auto
  have "feed dec k s' buf' cs = Some (ms2, idle, [])"
    using Cons.IH[OF pend(1) _ pend(2,3)] Cons.prems(2,5) ms by simp
  with d ms show ?case by simp
qed

text \<open>The messages read do not depend on how the stream was cut into chunks.\<close>

lemma feed_chunks:
  assumes "list_all ok ms" and "concat chunks = concat (map enc ms)" and "length ms < k"
  shows "feed dec k idle [] chunks = Some (ms, idle, [])"
proof (rule feed_pending[OF pending_idle assms(1) _ _ assms(3)])
  show "short_of [] ms"
    using assms(1) enc_not_Nil by (cases ms) auto
qed (use assms(2) in simp)

end

end
