(* ===== verification/Bytes_Codec.thy ===== *)
theory Bytes_Codec
  imports Stream_Framing
begin

text \<open>
  The length-prefixed framing of every HopToDesk stream: \<open>BytesCodec\<close> of
  \<open>libs/hbb_common/src/bytes_codec.rs\<close>. A frame is a header of one to four bytes (its length is in
  the low two bits of the first byte, the payload length in the others, little-endian) followed by
  the payload. The receive buffer \<open>BytesMut\<close> is a byte list: \<open>advance\<close> and \<open>split_to\<close> are
  \<^const>\<open>drop\<close> and \<^const>\<open>take\<close>, and \<open>reserve\<close> changes no content.
\<close>

section \<open>The codec\<close>

datatype decode_state = Head | Data usize

datatype codec_error = TooBigPacket | Overflow

record bytes_codec =
  dec_state :: decode_state
  raw :: bool
  max_packet_length :: usize

definition new_codec :: bytes_codec where
  "new_codec = \<lparr>dec_state = Head, raw = False, max_packet_length = - 1\<rparr>"

definition set_raw :: "bytes_codec \<Rightarrow> bytes_codec" where
  "set_raw c = c\<lparr>raw := True\<rparr>"

definition set_max_packet_length :: "usize \<Rightarrow> bytes_codec \<Rightarrow> bytes_codec" where
  "set_max_packet_length n c = c\<lparr>max_packet_length := n\<rparr>"

definition decode_head :: "bytes_codec \<Rightarrow> bytes \<Rightarrow> (codec_error + usize option) \<times> bytes" where
  "decode_head c src =
    (if src = [] then (Inr None, src)
     else
       let head_len = (ucast ((src ! 0 AND 3) + 1) :: usize) in
       if length src < unat head_len then (Inr None, src)
       else
         let n = (ucast (src ! 0) :: usize);
             n = (if head_len > 1 then n OR push_bit 8 (ucast (src ! 1)) else n);
             n = (if head_len > 2 then n OR push_bit 16 (ucast (src ! 2)) else n);
             n = (if head_len > 3 then n OR push_bit 24 (ucast (src ! 3)) else n);
             n = drop_bit 2 n in
         if n > max_packet_length c then (Inl TooBigPacket, src)
         else (Inr (Some n), drop (unat head_len) src))"

definition decode_data :: "usize \<Rightarrow> bytes \<Rightarrow> bytes option \<times> bytes" where
  "decode_data n src =
    (if length src < unat n then (None, src)
     else (Some (take (unat n) src), drop (unat n) src))"

definition decode_payload ::
  "bytes_codec \<Rightarrow> usize \<Rightarrow> bytes \<Rightarrow> (codec_error + bytes option) \<times> bytes_codec \<times> bytes" where
  "decode_payload c n src =
    (case decode_data n src of
      (Some d, rest) \<Rightarrow> (Inr (Some d), c\<lparr>dec_state := Head\<rparr>, rest)
    | (None, rest) \<Rightarrow> (Inr None, c, rest))"

definition decode ::
  "bytes_codec \<Rightarrow> bytes \<Rightarrow> (codec_error + bytes option) \<times> bytes_codec \<times> bytes" where
  "decode c src =
    (if raw c then
       (if src \<noteq> [] then (Inr (Some src), c, []) else (Inr None, c, src))
     else
       case dec_state c of
         Head \<Rightarrow>
           (case decode_head c src of
             (Inl e, src') \<Rightarrow> (Inl e, c, src')
           | (Inr None, src') \<Rightarrow> (Inr None, c, src')
           | (Inr (Some n), src') \<Rightarrow> decode_payload (c\<lparr>dec_state := Data n\<rparr>) n src')
       | Data n \<Rightarrow> decode_payload c n src)"

text \<open>The little-endian bytes that \<open>put_u16_le\<close> and \<open>put_u32_le\<close> append.\<close>

abbreviation le16 :: "u16 \<Rightarrow> bytes" where
  "le16 w \<equiv> [ucast w, ucast (drop_bit 8 w)]"

abbreviation le32 :: "u32 \<Rightarrow> bytes" where
  "le32 w \<equiv> [ucast w, ucast (drop_bit 8 w), ucast (drop_bit 16 w), ucast (drop_bit 24 w)]"

definition encode :: "bytes_codec \<Rightarrow> bytes \<Rightarrow> bytes \<Rightarrow> (codec_error + unit) \<times> bytes" where
  "encode c data buf =
    (if raw c then (Inr (), buf @ data)
     else
       let shifted = push_bit 2 (len_usize data) in
       if length data \<le> 0x3F then (Inr (), buf @ [ucast shifted] @ data)
       else if length data \<le> 0x3FFF then (Inr (), buf @ le16 (ucast shifted OR 1) @ data)
       else if length data \<le> 0x3FFFFF then
         (let h = (ucast shifted OR 2 :: u32) in
          (Inr (), buf @ le16 (ucast (h AND 0xFFFF)) @ [ucast (drop_bit 16 h)] @ data))
       else if length data \<le> 0x3FFFFFFF then (Inr (), buf @ le32 (ucast shifted OR 3) @ data)
       else (Inl Overflow, buf))"

section \<open>Headers\<close>

text \<open>The header that \<^const>\<open>encode\<close> writes, and its width.\<close>

fun header :: "nat \<Rightarrow> bytes" where
  "header len =
    (let shifted = push_bit 2 (word_of_nat len :: usize) in
     if len \<le> 0x3F then [ucast shifted]
     else if len \<le> 0x3FFF then le16 (ucast shifted OR 1)
     else if len \<le> 0x3FFFFF then
       (let h = (ucast shifted OR 2 :: u32) in
        le16 (ucast (h AND 0xFFFF)) @ [ucast (drop_bit 16 h)])
     else le32 (ucast shifted OR 3))"

declare header.simps [simp del]

lemma encode_eq_header:
  assumes "\<not> raw c" and "length data \<le> 0x3FFFFFFF"
  shows "encode c data buf = (Inr (), buf @ header (length data) @ data)"
  using assms by (simp add: encode_def header.simps Let_def)

text \<open>The bits of the constants in the headers, read as masks.\<close>

lemma header_constant_bits:
  "bit (2 :: int) k \<longleftrightarrow> k = 1" "bit (3 :: int) k \<longleftrightarrow> k < 2" "bit (0xFFFF :: int) k \<longleftrightarrow> k < 16"
proof -
  show "bit (2 :: int) k \<longleftrightarrow> k = 1"
    using bit_exp_iff[where 'a = int and m = 1 and n = k] by auto
  have "(3 :: int) = mask 2" and "(0xFFFF :: int) = mask 16"
    by (simp_all add: mask_eq_exp_minus_1)
  then show "bit (3 :: int) k \<longleftrightarrow> k < 2" and "bit (0xFFFF :: int) k \<longleftrightarrow> k < 16"
    by (simp_all only: bit_mask_iff) simp_all
qed

lemmas header_bits = bit_simps header_constant_bits

lemma header_tag:
  fixes n :: usize
  shows "(ucast (push_bit 2 n) AND 3 :: u8) = 0"
    and "((ucast (ucast (push_bit 2 n) OR 1 :: u16) :: u8) AND 3) = 1"
    and "((ucast (ucast ((ucast (push_bit 2 n) OR 2 :: u32) AND 0xFFFF) :: u16) :: u8) AND 3) = 2"
    and "((ucast (ucast (push_bit 2 n) OR 3 :: u32) :: u8) AND 3) = 3"
  by (auto intro!: bit_word_eqI simp: header_bits)

text \<open>Little-endian bytes put together again give the word they were cut from.\<close>

lemma join_le16:
  fixes h :: u16
  shows "ucast (ucast h :: u8) OR push_bit 8 (ucast (ucast (drop_bit 8 h) :: u8)) = (ucast h :: usize)"
proof (rule bit_word_eqI)
  fix k assume "k < LENGTH(64)"
  show "bit (ucast (ucast h :: u8) OR push_bit 8 (ucast (ucast (drop_bit 8 h) :: u8)) :: usize) k
    = bit (ucast h :: usize) k"
  proof (cases "k < 8")
    case True
    then show ?thesis by (simp add: header_bits)
  next
    case False
    then obtain j where "k = 8 + j" by (metis le_Suc_ex linorder_not_less)
    then show ?thesis by (auto simp: header_bits dest: bit_imp_le_length)
  qed
qed

lemma join_le24:
  fixes h :: u32
  shows "ucast (ucast h :: u16) OR push_bit 16 (ucast (ucast (drop_bit 16 h) :: u8))
    = (ucast h AND mask 24 :: usize)"
proof (rule bit_word_eqI)
  fix k assume "k < LENGTH(64)"
  show "bit (ucast (ucast h :: u16) OR push_bit 16 (ucast (ucast (drop_bit 16 h) :: u8)) :: usize) k
    = bit (ucast h AND mask 24 :: usize) k"
  proof (cases "k < 16")
    case True
    then show ?thesis by (simp add: header_bits)
  next
    case False
    then obtain j where "k = 16 + j" by (metis le_Suc_ex linorder_not_less)
    then show ?thesis by (auto simp: header_bits dest: bit_imp_le_length)
  qed
qed

lemma join_le32:
  fixes h :: u32
  shows "(ucast h AND mask 24) OR push_bit 24 (ucast (ucast (drop_bit 24 h) :: u8)) = (ucast h :: usize)"
proof (rule bit_word_eqI)
  fix k assume "k < LENGTH(64)"
  show "bit ((ucast h AND mask 24) OR push_bit 24 (ucast (ucast (drop_bit 24 h) :: u8)) :: usize) k
    = bit (ucast h :: usize) k"
  proof (cases "k < 24")
    case True
    then show ?thesis by (simp add: header_bits)
  next
    case False
    then obtain j where "k = 24 + j" by (metis le_Suc_ex linorder_not_less)
    then show ?thesis by (auto simp: header_bits dest: bit_imp_le_length)
  qed
qed

text \<open>Dropping the two tag bits of a header word leaves the length.\<close>

lemma header_payload_1:
  fixes n :: usize
  assumes "unat n < 2 ^ 6"
  shows "drop_bit 2 (ucast (ucast (push_bit 2 n) :: u8)) = n"
  by (rule bit_word_eqI) (auto simp: header_bits dest: bit_below[OF assms])

lemma header_payload_2:
  fixes n :: usize
  assumes "unat n < 2 ^ 14"
  shows "drop_bit 2 (ucast (ucast (push_bit 2 n) OR 1 :: u16)) = n"
  by (rule bit_word_eqI) (auto simp: header_bits dest: bit_below[OF assms])

lemma header_payload_3:
  fixes n :: usize
  assumes "unat n < 2 ^ 22"
  shows "drop_bit 2 (ucast (ucast (push_bit 2 n) OR 2 :: u32) AND mask 24) = n"
  by (rule bit_word_eqI) (auto simp: header_bits dest: bit_below[OF assms])

lemma header_payload_4:
  fixes n :: usize
  assumes "unat n < 2 ^ 30"
  shows "drop_bit 2 (ucast (ucast (push_bit 2 n) OR 3 :: u32)) = n"
  by (rule bit_word_eqI) (auto simp: header_bits dest: bit_below[OF assms])

lemma header_low16:
  fixes h :: u32
  shows "(ucast (h AND 0xFFFF) :: u16) = ucast h"
  by (rule bit_word_eqI) (auto simp: header_bits)

text \<open>The four header layouts, as \<^const>\<open>decode_head\<close> reassembles them.\<close>

lemma header_value_2:
  fixes n :: usize
  assumes "unat n < 2 ^ 14"
  shows "drop_bit 2 (ucast (ucast (ucast (push_bit 2 n) OR 1 :: u16) :: u8) OR
    push_bit 8 (ucast (ucast (drop_bit 8 (ucast (push_bit 2 n) OR 1 :: u16)) :: u8))) = n"
  unfolding join_le16 using assms by (rule header_payload_2)

lemma header_value_3:
  fixes n :: usize and h :: u32
  assumes "unat n < 2 ^ 22" and "h = ucast (push_bit 2 n) OR 2"
  shows "drop_bit 2 ((ucast (ucast (ucast (h AND 0xFFFF) :: u16) :: u8) OR
    push_bit 8 (ucast (ucast (drop_bit 8 (ucast (h AND 0xFFFF) :: u16)) :: u8))) OR
    push_bit 16 (ucast (ucast (drop_bit 16 h) :: u8))) = n"
  unfolding header_low16 join_le16 join_le24
  using header_payload_3[OF assms(1)] by (simp only: assms(2))

lemma low_bytes_le32:
  fixes h :: u32
  shows "(ucast h :: u8) = ucast (ucast h :: u16)"
    and "(ucast (drop_bit 8 h) :: u8) = ucast (drop_bit 8 (ucast h :: u16))"
  by (rule bit_word_eqI, auto simp: header_bits)+

lemma header_value_4:
  fixes n :: usize and h :: u32
  assumes "unat n < 2 ^ 30" and "h = ucast (push_bit 2 n) OR 3"
  shows "drop_bit 2 (((ucast (ucast h :: u8) OR push_bit 8 (ucast (ucast (drop_bit 8 h) :: u8))) OR
    push_bit 16 (ucast (ucast (drop_bit 16 h) :: u8))) OR
    push_bit 24 (ucast (ucast (drop_bit 24 h) :: u8))) = n"
  unfolding low_bytes_le32[of h] join_le16 join_le24 join_le32
  using header_payload_4[OF assms(1)] by (simp only: assms(2))

lemma unat_word_of_nat_usize [simp]:
  "n \<le> 0x3FFFFFFF \<Longrightarrow> unat (word_of_nat n :: usize) = n"
  by (simp add: unat_of_nat take_bit_nat_eq_self)

lemma length_header:
  "length (header n) = (if n \<le> 0x3F then 1 else if n \<le> 0x3FFF then 2 else if n \<le> 0x3FFFFF then 3 else 4)"
  by (simp add: header.simps Let_def)

lemma header_not_Nil [simp]: "header n \<noteq> []"
  using length_header[of n] by (cases "header n") (auto split: if_splits)

text \<open>The first byte of a header announces its width.\<close>

lemma header_width:
  "ucast ((header n ! 0 AND 3) + 1 :: u8) = (word_of_nat (length (header n)) :: usize)"
  by (simp add: header.simps Let_def header_tag)

lemma decode_head_header:
  assumes "n \<le> 0x3FFFFFFF" and "word_of_nat n \<le> max_packet_length c"
  shows "decode_head c (header n @ rest) = (Inr (Some (word_of_nat n)), rest)"
proof -
  have n: "unat (word_of_nat n :: usize) = n"
    using assms(1) by simp
  consider "n \<le> 0x3F" | "0x3F < n" "n \<le> 0x3FFF" | "0x3FFF < n" "n \<le> 0x3FFFFF" | "0x3FFFFF < n"
    by linarith
  then show ?thesis
  proof cases
    case 1
    then show ?thesis
      using header_payload_1[of "word_of_nat n"] n assms(2)
      by (simp add: decode_head_def header.simps header_tag Let_def not_less del: drop_bit_or)
  next
    case 2
    then show ?thesis
      using header_value_2[of "word_of_nat n"] n assms(2)
      by (simp add: decode_head_def header.simps header_tag Let_def not_less del: drop_bit_or)
  next
    case 3
    then show ?thesis
      using header_value_3[OF _ refl, of "word_of_nat n"] n assms(2)
      by (simp add: decode_head_def header.simps header_tag Let_def not_less del: drop_bit_or)
  next
    case 4
    then show ?thesis
      using header_value_4[OF _ refl, of "word_of_nat n"] n assms
      by (simp add: decode_head_def header.simps header_tag Let_def not_less del: drop_bit_or)
  qed
qed

text \<open>A cut header is not read: the buffer stays as it is.\<close>

lemma decode_head_cut:
  assumes "header n = p @ q" and "q \<noteq> []"
  shows "decode_head c p = (Inr None, p)"
proof (cases p)
  case Nil
  then show ?thesis by (simp add: decode_head_def)
next
  case (Cons b bs)
  have "p ! 0 = header n ! 0"
    using assms(1) Cons by simp
  moreover have "length p < length (header n)"
    using assms by (simp add: length_greater_0_conv)
  ultimately show ?thesis
    using Cons header_width[of n] length_header[of n]
    by (auto simp: decode_head_def Let_def split: if_splits)
qed

section \<open>The framing contract\<close>

text \<open>The frame of a payload, as \<^const>\<open>encode\<close> appends it.\<close>

definition frame :: "bytes \<Rightarrow> bytes" where
  "frame m = header (length m) @ m"

definition fits_frame :: "bytes \<Rightarrow> bool" where
  "fits_frame m \<longleftrightarrow> length m \<le> 0x3FFFFFFF"

lemma new_codec_sel [simp]:
  "dec_state new_codec = Head" "\<not> raw new_codec" "n \<le> max_packet_length new_codec"
  by (simp_all add: new_codec_def)

lemma new_codec_head [simp]: "new_codec\<lparr>dec_state := Head\<rparr> = new_codec"
  by (simp add: new_codec_def)

lemma decode_idle_empty: "decode new_codec [] = (Inr None, new_codec, [])"
  by (simp add: decode_def decode_head_def)

lemma decode_frame:
  assumes "fits_frame m"
  shows "decode new_codec (frame m @ rest) = (Inr (Some m), new_codec, rest)"
  using assms decode_head_header[of "length m" new_codec "m @ rest"]
  by (simp add: decode_def frame_def fits_frame_def decode_payload_def decode_data_def)

text \<open>A cut frame is either a cut header, which stays in the buffer, or a whole header, which
  moves into the decoder's state.\<close>

lemma decode_cut_frame:
  assumes "fits_frame m" and "frame m = p @ q" and "q \<noteq> []"
  shows "\<exists>s p'. decode new_codec p = (Inr None, s, p') \<and>
    (\<forall>x. decode s (p' @ x) = decode new_codec (p @ x))"
proof (cases "length p < length (header (length m))")
  case True
  then obtain q' where "header (length m) = p @ q'" and "q' \<noteq> []"
    using append_split_shorter[of p q "header (length m)" m] assms(2) by (auto simp: frame_def)
  then have "decode new_codec p = (Inr None, new_codec, p)"
    by (simp add: decode_def decode_head_cut)
  then show ?thesis by blast
next
  case False
  then obtain d where p: "p = header (length m) @ d"
    using append_split_longer[of p q "header (length m)" m] assms(2) by (auto simp: frame_def)
  with assms have d: "length d < length m"
    by (auto simp: frame_def)
  let ?n = "word_of_nat (length m) :: usize"
  let ?s = "new_codec\<lparr>dec_state := Data ?n\<rparr>"
  have head: "decode_head new_codec (header (length m) @ y) = (Inr (Some ?n), y)" for y
    using assms(1) decode_head_header[of "length m" new_codec y] by (simp add: fits_frame_def)
  have "decode new_codec p = (Inr None, ?s, d)"
    using d assms(1)
    by (simp add: decode_def p head decode_payload_def decode_data_def fits_frame_def)
  moreover have "decode ?s (d @ x) = decode new_codec (p @ x)" for x
    by (simp add: decode_def p head decode_payload_def)
  ultimately show ?thesis by blast
qed

interpretation hop: framing frame decode fits_frame new_codec
  by unfold_locales (auto simp: decode_idle_empty decode_frame intro: decode_cut_frame)

section \<open>Properties\<close>

text \<open>A sender writes its messages one after another into the same stream.\<close>

fun encode_all :: "bytes_codec \<Rightarrow> bytes list \<Rightarrow> bytes \<Rightarrow> (codec_error + unit) \<times> bytes" where
  "encode_all c [] buf = (Inr (), buf)"
| "encode_all c (m # ms) buf =
    (case encode c m buf of
      (Inl e, buf') \<Rightarrow> (Inl e, buf')
    | (Inr _, buf') \<Rightarrow> encode_all c ms buf')"

lemma encode_new_codec:
  "encode new_codec m buf = (if fits_frame m then (Inr (), buf @ frame m) else (Inl Overflow, buf))"
  by (auto simp: encode_eq_header frame_def fits_frame_def) (simp add: encode_def Let_def)

lemma encode_all_new_codec:
  assumes "encode_all new_codec ms buf = (Inr (), s)"
  shows "list_all fits_frame ms \<and> s = buf @ concat (map frame ms)"
  using assms by (induction ms arbitrary: buf) (fastforce simp: encode_new_codec split: if_splits)+

text \<open>
  C1. End-to-end framing: whatever messages a peer encodes into the stream, and however the network
  cuts the stream into chunks, the receiving codec delivers exactly those messages in order, and ends
  idle with an empty buffer. The fuel (more decoder calls than messages) is enough.
\<close>

theorem framed_stream_chunking:
  assumes "encode_all new_codec ms [] = (Inr (), stream)"
    and "concat chunks = stream"
    and "length ms < fuel"
  shows "feed decode fuel new_codec [] chunks = Some (ms, new_codec, [])"
  using encode_all_new_codec[OF assms(1)] assms(2,3) by (intro hop.feed_chunks) auto

theorem framed_stream_chunking_witness:
  "encode_all new_codec [[1, 2], [3]] [] = (Inr (), [8, 1, 2, 4, 3]) \<and>
   feed decode 3 new_codec [] [[8], [1], [2, 4], [], [3]] = Some ([[1, 2], [3]], new_codec, [])"
proof -
  have sent: "encode_all new_codec [[1, 2], [3]] [] = (Inr (), [8, 1, 2, 4, 3])"
    by (simp add: encode_def)
  show ?thesis
    using sent framed_stream_chunking[OF sent, of "[[8], [1], [2, 4], [], [3]]" 3] by simp
qed

text \<open>The state never holds a payload length above the limit.\<close>

definition codec_ok :: "bytes_codec \<Rightarrow> bool" where
  "codec_ok c \<longleftrightarrow> (case dec_state c of Head \<Rightarrow> True | Data n \<Rightarrow> n \<le> max_packet_length c)"

abbreviation head_width :: "bytes \<Rightarrow> usize" where
  "head_width src \<equiv> ucast ((src ! 0 AND 3) + 1)"

lemma unat_ucast_u8: "unat (ucast (x :: u8) :: usize) = unat x"
  using unsigned_less[of x, where 'a = nat] by (simp add: unsigned_ucast_eq take_bit_nat_eq_self)

lemma head_width_pos: "0 < unat (head_width src)"
proof -
  have "unat (src ! 0 AND 3) \<le> unat (3 :: u8)"
    using word_and_le1 word_le_nat_alt by blast
  then have "unat ((src ! 0 AND 3) + 1) = unat (src ! 0 AND 3) + 1"
    by (simp add: unat_word_ariths)
  then show ?thesis by (simp add: unat_ucast_u8)
qed

text \<open>The shape of \<^const>\<open>decode_head\<close> with the value of the length left open.\<close>

lemma decode_head_shape:
  "\<exists>n. decode_head c src =
    (if src = [] \<or> length src < unat (head_width src) then (Inr None, src)
     else if max_packet_length c < n then (Inl TooBigPacket, src)
     else (Inr (Some n), drop (unat (head_width src)) src))"
  by (cases "src = []", simp add: decode_head_def) (rule exI, simp only: decode_head_def Let_def if_False simp_thms)

lemma decode_head_Some:
  assumes "decode_head c src = (Inr (Some n), rest)"
  shows "n \<le> max_packet_length c \<and> (\<exists>h. src = h @ rest \<and> h \<noteq> [])"
proof -
  have "n \<le> max_packet_length c" and "rest = drop (unat (head_width src)) src" and "src \<noteq> []"
    using decode_head_shape[of c src] assms by (auto simp: not_less split: if_splits)
  moreover have "src = take (unat (head_width src)) src @ drop (unat (head_width src)) src" by simp
  moreover have "take (unat (head_width src)) src \<noteq> []"
    using head_width_pos[of src] \<open>src \<noteq> []\<close> by simp
  ultimately show ?thesis by blast
qed

lemma decode_payload_result:
  assumes "decode_payload c n src = (r, c', rest)" and "n \<le> max_packet_length c"
    and "dec_state c = Data n"
  shows "codec_ok c' \<and> max_packet_length c' = max_packet_length c \<and> raw c' = raw c \<and>
    (\<forall>d. r = Inr (Some d) \<longrightarrow> length d \<le> unat (max_packet_length c) \<and> src = d @ rest) \<and>
    (\<forall>e. r \<noteq> Inl e)"
  using assms by (auto simp: decode_payload_def decode_data_def codec_ok_def word_le_nat_alt split: if_splits)

text \<open>
  Memory safety of the receiver: as long as the pending length respects the limit, no sequence
  of bytes makes the framed codec deliver a packet longer than \<open>max_packet_length\<close>; the pending
  length keeps respecting it, the limit and mode never change, and the bytes taken from the buffer
  are a prefix of it that ends with the delivered packet.
\<close>

theorem decode_bounded:
  assumes "codec_ok c" and "\<not> raw c" and "decode c src = (r, c', rest)"
  shows "codec_ok c' \<and> \<not> raw c' \<and> max_packet_length c' = max_packet_length c \<and>
    (\<exists>used. src = used @ rest) \<and>
    (\<forall>d. r = Inr (Some d) \<longrightarrow>
      length d \<le> unat (max_packet_length c) \<and> dec_state c' = Head \<and> (\<exists>h. src = h @ d @ rest))"
proof (cases "dec_state c")
  case (Data n)
  then have "decode_payload c n src = (r, c', rest)" and "n \<le> max_packet_length c"
    using assms by (simp_all add: decode_def codec_ok_def)
  with Data assms(2) show ?thesis
    by (auto simp: decode_payload_def decode_data_def codec_ok_def word_le_nat_alt
        split: if_splits intro: exI[of _ "take (unat n) src"] exI[of _ "[]"])
next
  case Head
  consider (err) e where "decode_head c src = (Inl e, src)" "r = Inl e" "c' = c" "rest = src"
    | (more) "decode_head c src = (Inr None, src)" "r = Inr None" "c' = c" "rest = src"
    | (len) n src' where "decode_head c src = (Inr (Some n), src')"
        "decode_payload (c\<lparr>dec_state := Data n\<rparr>) n src' = (r, c', rest)"
  proof -
    obtain n where shape: "decode_head c src =
      (if src = [] \<or> length src < unat (head_width src) then (Inr None, src)
       else if max_packet_length c < n then (Inl TooBigPacket, src)
       else (Inr (Some n), drop (unat (head_width src)) src))"
      using decode_head_shape by blast
    have run: "(case decode_head c src of
          (Inl e, src') \<Rightarrow> (Inl e, c, src')
        | (Inr None, src') \<Rightarrow> (Inr None, c, src')
        | (Inr (Some n), src') \<Rightarrow> decode_payload (c\<lparr>dec_state := Data n\<rparr>) n src') = (r, c', rest)"
      using assms(2,3) Head by (simp add: decode_def)
    from shape consider "decode_head c src = (Inl TooBigPacket, src)" | "decode_head c src = (Inr None, src)"
      | src' where "decode_head c src = (Inr (Some n), src')"
      by meson
    then show thesis
    proof cases
      case 1
      with run show thesis by (intro err[of TooBigPacket]) simp_all
    next
      case 2
      with run show thesis by (intro more) simp_all
    next
      case 3
      with run show thesis by (intro len) simp_all
    qed
  qed
  then show ?thesis
  proof cases
    case len
    from decode_head_Some[OF len(1)] obtain h where "n \<le> max_packet_length c" and "src = h @ src'"
      by blast
    then show ?thesis
      using len(2) assms(2)
      by (auto simp: decode_payload_def decode_data_def codec_ok_def word_le_nat_alt
          split: if_splits intro: exI[of _ "h @ take (unat n) src'"])
  qed (use assms(1,2) in \<open>auto intro: exI[of _ "[]"]\<close>)
qed

theorem decode_bounded_witness:
  "decode (set_max_packet_length 2 new_codec) [8, 7, 7, 9] =
     (Inr (Some [7, 7]), set_max_packet_length 2 new_codec, [9]) \<and>
   length ([7, 7] :: bytes) \<le> unat (max_packet_length (set_max_packet_length 2 new_codec))"
proof -
  let ?c = "set_max_packet_length 2 new_codec"
  have d: "decode ?c [8, 7, 7, 9] = (Inr (Some [7, 7]), ?c, [9])"
    by (simp add: decode_def decode_head_def decode_payload_def decode_data_def
        set_max_packet_length_def new_codec_def)
  have "codec_ok ?c" and "\<not> raw ?c"
    by (simp_all add: codec_ok_def set_max_packet_length_def new_codec_def)
  with d show ?thesis
    using decode_bounded[of ?c "[8, 7, 7, 9]"] by blast
qed

text \<open>
  The encoder on every branch: raw mode appends the bytes as they are; otherwise a payload of at
  most 0x3FFFFFFF bytes is appended behind a header of 1, 2, 3 or 4 bytes, the shortest that holds its
  length, and a longer one is refused with \<open>Overflow\<close> and leaves the stream untouched.
\<close>

theorem encode_branches:
  "encode c data buf =
    (if raw c then (Inr (), buf @ data)
     else if 0x3FFFFFFF < length data then (Inl Overflow, buf)
     else (Inr (), buf @ header (length data) @ data)) \<and>
   length (header (length data)) =
    (if length data < 2 ^ 6 then 1 else if length data < 2 ^ 14 then 2
     else if length data < 2 ^ 22 then 3 else 4)"
proof
  show "encode c data buf =
    (if raw c then (Inr (), buf @ data)
     else if 0x3FFFFFFF < length data then (Inl Overflow, buf)
     else (Inr (), buf @ header (length data) @ data))"
    using encode_eq_header[of c data buf] by (auto simp: encode_def)
qed (auto simp: length_header)

end
