(* ===== verification/Password_Policy.thy ===== *)
theory Password_Policy
  imports Config_Store
begin

text \<open>
  The password policy of \<open>libs/hbb_common/src/password_security.rs\<close>: which kinds of password a
  controlled machine accepts, how a connection is approved, how temporary passwords are drawn, and
  the code the two users compare to confirm an encrypted direct connection. The Diffie-Hellman
  function is a parameter.
\<close>

section \<open>The policy\<close>

datatype VerificationMethod = OnlyUseTemporaryPassword | OnlyUsePermanentPassword | UseBothPasswords

datatype ApproveMode = Both | Password | Click

definition verification_method :: "config \<Rightarrow> VerificationMethod" where
  "verification_method c =
    (let method = get_option c ''verification-method'' in
     if method = ''use-temporary-password'' then OnlyUseTemporaryPassword
     else if method = ''use-permanent-password'' then OnlyUsePermanentPassword
     else UseBothPasswords)"

definition temporary_password_length :: "config \<Rightarrow> nat" where
  "temporary_password_length c =
    (let len = get_option c ''temporary-password-length'' in
     if len = ''8'' then 8 else if len = ''10'' then 10 else 6)"

definition update_temporary_password :: "(nat \<Rightarrow> nat) \<Rightarrow> config \<Rightarrow> config" where
  "update_temporary_password rs c =
    set_temporary_password (get_auto_password rs (temporary_password_length c)) c"

definition temporary_enabled :: "config \<Rightarrow> bool" where
  "temporary_enabled c \<longleftrightarrow> verification_method c \<noteq> OnlyUsePermanentPassword"

definition permanent_enabled :: "config \<Rightarrow> bool" where
  "permanent_enabled c \<longleftrightarrow> verification_method c \<noteq> OnlyUseTemporaryPassword"

definition has_valid_password :: "config \<Rightarrow> bool" where
  "has_valid_password c \<longleftrightarrow>
    temporary_enabled c \<and> temporary_password c \<noteq> [] \<or>
    permanent_enabled c \<and> permanent_password c \<noteq> []"

definition approve_mode :: "config \<Rightarrow> ApproveMode" where
  "approve_mode c =
    (let mode = get_option c ''approve-mode'' in
     if mode = ''password'' then Password else if mode = ''click'' then Click else Both)"

definition hide_cm :: "config \<Rightarrow> bool" where
  "hide_cm c \<longleftrightarrow>
    approve_mode c = Password \<and> verification_method c = OnlyUsePermanentPassword \<and>
    get_option c ''allow-hide-cm'' \<noteq> []"

section \<open>The security code\<close>

text \<open>\<open>format!("{:0>5} ", v)\<close>: the decimal numeral padded with zeros on the left to five characters.\<close>

definition fmt5 :: "u16 \<Rightarrow> string" where
  "fmt5 v = (let s = show_nat (unat v) in replicate (5 - length s) (CHR ''0'') @ s @ '' '')"

definition code_group :: "bytes \<Rightarrow> nat \<Rightarrow> string" where
  "code_group secret_vec i =
    fmt5 (push_bit 8 (ucast (secret_vec ! (i * 2))) OR ucast (secret_vec ! (i * 2 + 1)))"

definition compute_security_code :: "('k \<Rightarrow> 'p \<Rightarrow> bytes) \<Rightarrow> 'k \<Rightarrow> 'p \<Rightarrow> string" where
  "compute_security_code diffie_hellman own_private_key peer_public_key =
    concat (map (code_group (diffie_hellman own_private_key peer_public_key)) [0..<16])"

lemma length_fmt5 [simp]: "length (fmt5 v) = 6"
proof -
  have "unat v < 10 ^ 5" using unsigned_less[of v, where 'a = nat] by simp
  then have "length (show_nat (unat v)) \<le> 5" by (rule length_show_nat) simp
  then show ?thesis by (simp add: fmt5_def Let_def)
qed

lemma fmt5_inject [simp]: "fmt5 v = fmt5 w \<longleftrightarrow> v = w"
proof
  assume eq: "fmt5 v = fmt5 w"
  have "dec_val (butlast (fmt5 x)) = unat x" for x :: u16
    by (simp add: fmt5_def Let_def butlast_append dec_val_zeros)
  with eq have "unat v = unat w" by metis
  then show "v = w" by (rule word_unat_eq_iff[THEN iffD2])
qed simp

lemma pair_word_inject:
  fixes a b c d :: u8
  assumes "push_bit 8 (ucast a) OR ucast b = (push_bit 8 (ucast c) OR ucast d :: u16)"
  shows "a = c \<and> b = d"
proof
  show "a = c"
  proof (rule bit_word_eqI)
    fix n assume "n < LENGTH(8)"
    then show "bit a n = bit c n"
      using arg_cong[OF assms, where f = "\<lambda>w. bit w (n + 8)"] bit_imp_le_length[of b] bit_imp_le_length[of d]
      by (auto simp: bit_simps)
  qed
  show "b = d"
  proof (rule bit_word_eqI)
    fix n assume "n < LENGTH(8)"
    then show "bit b n = bit d n"
      using arg_cong[OF assms, where f = "\<lambda>w. bit w n"] by (auto simp: bit_simps)
  qed
qed

lemma concat_same_width:
  assumes "\<And>i. length (f i) = k" and "\<And>i. length (g i) = k"
  shows "concat (map f xs) = concat (map g xs) \<longleftrightarrow> (\<forall>i\<in>set xs. f i = g i)"
  using assms by (induction xs) (auto simp: append_eq_append_conv)

lemma nth_eq_from_pairs:
  assumes "length xs = 2 * k" and "length ys = 2 * k"
    and "\<And>i. i < k \<Longrightarrow> xs ! (i * 2) = ys ! (i * 2) \<and> xs ! (i * 2 + 1) = ys ! (i * 2 + 1)"
  shows "xs = ys"
proof (rule nth_equalityI)
  show "length xs = length ys" using assms(1,2) by simp
  fix i assume "i < length xs"
  then have "i div 2 < k" using assms(1) by linarith
  from assms(3)[OF this] show "xs ! i = ys ! i"
    by (cases "even i") (simp_all add: odd_two_times_div_two_succ[symmetric] mult.commute)
qed

section \<open>Properties\<close>

text \<open>
  The security code is a faithful fingerprint: it always has 96 characters, and two sides read
  the same code exactly when their shared secrets are the same 32 bytes.
\<close>

theorem security_code_faithful:
  assumes "length (dh k p) = 32" and "length (dh k' p') = 32"
  shows "length (compute_security_code dh k p) = 96 \<and>
    (compute_security_code dh k p = compute_security_code dh k' p' \<longleftrightarrow> dh k p = dh k' p')"
proof -
  have "length (code_group s i) = 6" for s i by (simp add: code_group_def)
  note same = concat_same_width[OF this this]
  have "length (concat (map (code_group s) xs)) = 6 * length xs" for s and xs :: "nat list"
    by (induction xs) (simp_all add: code_group_def)
  moreover have "dh k p = dh k' p'" if "\<forall>i\<in>set [0..<16]. code_group (dh k p) i = code_group (dh k' p') i"
    using that assms
    by (intro nth_eq_from_pairs[where k = 16])
      (auto simp: code_group_def dest!: bspec pair_word_inject)
  ultimately show ?thesis
    by (auto simp: compute_security_code_def same)
qed

theorem security_code_faithful_witness:
  "length (compute_security_code (\<lambda>k p. replicate 32 (k + p)) (1::u8) 2) = 96 \<and>
   compute_security_code (\<lambda>k p. replicate 32 (k + p)) (1::u8) 2
     \<noteq> compute_security_code (\<lambda>k p. replicate 32 (k + p)) 1 3"
  using security_code_faithful[of "\<lambda>k p. replicate 32 (k + p)" "1::u8" 2 1 3] by simp

text \<open>
  A fresh temporary password has the configured length (6, 8 or 10), uses only the 32 characters
  of the alphabet, each of which stands for the same number of draws, and changes nothing but the
  temporary password; with it the machine has a valid password whenever temporary passwords are
  enabled, and otherwise exactly when a permanent one is set.
\<close>

theorem update_temporary_password_policy:
  "temporary_password_length c \<in> {6, 8, 10} \<and>
   update_temporary_password rs c =
     c\<lparr>temporary_password := map (\<lambda>i. CHARS ! (rs i mod 32)) [0..<temporary_password_length c]\<rparr> \<and>
   distinct CHARS \<and> length CHARS = 32 \<and>
   has_valid_password (update_temporary_password rs c) =
     (if temporary_enabled c then True else permanent_password c \<noteq> [])"
proof -
  let ?c = "update_temporary_password rs c"
  have len: "temporary_password_length c \<in> {6, 8, 10}"
    by (simp add: temporary_password_length_def Let_def)
  have chars: "length CHARS = 32" "distinct CHARS" by (simp_all add: CHARS_def)
  have c': "?c = c\<lparr>temporary_password := map (\<lambda>i. CHARS ! (rs i mod 32)) [0..<temporary_password_length c]\<rparr>"
    by (simp add: update_temporary_password_def set_temporary_password_def get_auto_password_def chars)
  have opts: "get_option ?c k = get_option c k" for k
    unfolding c' get_option_def by simp
  have "temporary_password ?c \<noteq> []" using len by (auto simp: c')
  then have "has_valid_password ?c = (temporary_enabled c \<or> permanent_password c \<noteq> [])"
    unfolding has_valid_password_def temporary_enabled_def permanent_enabled_def verification_method_def opts
    by (auto simp: c' Let_def)
  then show ?thesis using len chars c' by simp
qed

text \<open>
  The policy options, whatever strings they hold: at least one kind of password is enabled, both
  are when the option holds anything but the two exclusive values, and the connection manager may be
  hidden only where a permanent password is the sole way in.
\<close>

theorem policy_options_total:
  "(temporary_enabled c \<or> permanent_enabled c) \<and>
   (temporary_enabled c \<and> permanent_enabled c \<longleftrightarrow>
      get_option c ''verification-method'' \<notin> {''use-temporary-password'', ''use-permanent-password''}) \<and>
   (approve_mode c = Both \<longleftrightarrow> get_option c ''approve-mode'' \<notin> {''password'', ''click''}) \<and>
   (hide_cm c \<longrightarrow> \<not> temporary_enabled c \<and> permanent_enabled c \<and> approve_mode c = Password)"
  by (simp add: temporary_enabled_def permanent_enabled_def verification_method_def approve_mode_def
      hide_cm_def Let_def)

definition unattended_config :: config where
  "unattended_config = empty_config\<lparr>options :=
     [''verification-method'' \<mapsto> ''use-permanent-password'', ''approve-mode'' \<mapsto> ''password'',
      ''allow-hide-cm'' \<mapsto> ''Y'']\<rparr>"

theorem policy_options_total_witness:
  "hide_cm unattended_config \<and> \<not> temporary_enabled unattended_config"
proof -
  have "hide_cm unattended_config"
    by (simp add: hide_cm_def approve_mode_def verification_method_def get_option_def get_or_def
        unattended_config_def empty_config_def)
  then show ?thesis using policy_options_total[of unattended_config] by simp
qed

end
