(* ===== verification/Output_Buffer.thy ===== *)
theory Output_Buffer
  imports Hop_Prelude
begin

text \<open>
  The scrollback buffer of a terminal, \<open>OutputBuffer\<close> of \<open>src/server/terminal_service.rs\<close>: output
  chunks are cut into lines, and old lines are dropped from the front. Byte counts are \<open>usize\<close> words
  that wrap as in a release build. The trimming loop is a partial function, so that a loop that never
  ends is the value \<^const>\<open>None\<close>.
\<close>

section \<open>State and operations\<close>

definition MAX_OUTPUT_BUFFER_SIZE :: usize where
  "MAX_OUTPUT_BUFFER_SIZE = 1024 * 1024"

definition MAX_BUFFER_LINES :: nat where
  "MAX_BUFFER_LINES = 10000"

record output_buffer =
  lines :: "bytes list"
  total_size :: usize
  last_line_incomplete :: bool

definition new_buffer :: output_buffer where
  "new_buffer = \<lparr>lines = [], total_size = 0, last_line_incomplete = False\<rparr>"

definition NL :: u8 where
  "NL = 10"

text \<open>\<open>data.split(|&b| b == b'\n')\<close>: always at least one piece, possibly empty ones.\<close>

fun split_lines :: "bytes \<Rightarrow> bytes list" where
  "split_lines [] = [[]]"
| "split_lines (b # bs) =
    (if b = NL then [] # split_lines bs
     else (case split_lines bs of [] \<Rightarrow> [[b]] | l # ls \<Rightarrow> (b # l) # ls))"

text \<open>One turn of the loop over the pieces; \<open>e\<close> is \<open>ends_with_newline\<close>, \<open>final\<close> says that the piece is
  the last one.\<close>

definition push_line :: "bool \<Rightarrow> bool \<Rightarrow> bytes \<Rightarrow> output_buffer \<Rightarrow> output_buffer" where
  "push_line e final line b =
    (let b = (if final \<and> \<not> e \<and> line \<noteq> [] then b\<lparr>last_line_incomplete := True\<rparr> else b)
     in if line \<noteq> [] \<or> \<not> final then
          let line_data = (if \<not> final \<or> e then line @ [NL] else line)
          in b\<lparr>total_size := total_size b + len_usize line_data, lines := lines b @ [line_data]\<rparr>
        else b)"

fun push_lines :: "bool \<Rightarrow> bytes list \<Rightarrow> output_buffer \<Rightarrow> output_buffer" where
  "push_lines e [] b = b"
| "push_lines e (line # rest) b = push_lines e rest (push_line e (rest = []) line b)"

partial_function (option) trim :: "output_buffer \<Rightarrow> output_buffer option" where
  "trim b =
    (if total_size b > MAX_OUTPUT_BUFFER_SIZE \<or> length (lines b) > MAX_BUFFER_LINES then
       (case lines b of
          [] \<Rightarrow> trim b
        | removed # rest \<Rightarrow> trim (b\<lparr>total_size := total_size b - len_usize removed, lines := rest\<rparr>))
     else Some b)"

definition append_rest :: "bytes \<Rightarrow> output_buffer \<Rightarrow> output_buffer option" where
  "append_rest remaining b =
    (let ends_with_newline = (remaining \<noteq> [] \<and> last remaining = NL)
     in trim (push_lines ends_with_newline (split_lines remaining) b))"

definition buf_append :: "bytes \<Rightarrow> output_buffer \<Rightarrow> output_buffer option" where
  "buf_append data b =
    (if data = [] then Some b
     else if last_line_incomplete b \<and> lines b \<noteq> [] then
       let newline_pos = length (takeWhile (\<lambda>x. x \<noteq> NL) data) in
       if newline_pos < length data then
         append_rest (drop (newline_pos + 1) data)
           (b\<lparr>lines := butlast (lines b) @ [last (lines b) @ take (newline_pos + 1) data],
              last_line_incomplete := False\<rparr>)
       else
         Some (b\<lparr>lines := butlast (lines b) @ [last (lines b) @ data],
                 total_size := total_size b + len_usize data\<rparr>)
     else append_rest data b)"

text \<open>The loop of \<open>get_recent\<close> over the lines in reverse; the result grows at its front.\<close>

fun recent :: "nat \<Rightarrow> bytes list \<Rightarrow> nat \<Rightarrow> bytes \<Rightarrow> bytes" where
  "recent max_bytes [] sz result = result"
| "recent max_bytes (line # older) sz result =
    (if sz + length line > max_bytes then result
     else recent max_bytes older (sz + length line) (line @ result))"

definition get_recent :: "nat \<Rightarrow> output_buffer \<Rightarrow> bytes" where
  "get_recent max_bytes b = recent max_bytes (rev (lines b)) 0 []"

section \<open>The text held by a buffer\<close>

definition content :: "output_buffer \<Rightarrow> bytes" where
  "content b = concat (lines b)"

text \<open>What the byte count is meant to be.\<close>

definition true_size :: "output_buffer \<Rightarrow> nat" where
  "true_size b = length (content b)"

definition size_exact :: "output_buffer \<Rightarrow> bool" where
  "size_exact b \<longleftrightarrow> unat (total_size b) = true_size b"

text \<open>Putting the pieces together again: all but the last are followed by a newline.\<close>

fun join_lines :: "bytes list \<Rightarrow> bytes" where
  "join_lines [] = []"
| "join_lines [l] = l"
| "join_lines (l # ls) = l @ NL # join_lines ls"

lemma split_lines_not_Nil [simp]: "split_lines bs \<noteq> []"
  by (induction bs) (auto split: list.split)

lemma join_split_lines: "join_lines (split_lines bs) = bs"
proof (induction bs)
  case (Cons b bs)
  obtain l ls where l: "split_lines bs = l # ls" by (meson list.exhaust split_lines_not_Nil)
  have "join_lines ((b # l) # ls) = b # join_lines (l # ls)" by (cases ls) simp_all
  with Cons l show ?case by simp
qed simp

lemma split_lines_no_NL: "l \<in> set (split_lines bs) \<Longrightarrow> NL \<notin> set l"
proof (induction bs arbitrary: l)
  case (Cons b bs)
  then show ?case by (cases "split_lines bs") (auto split: if_splits)
qed simp

lemma last_split_lines: "last (split_lines bs) = [] \<longleftrightarrow> bs = [] \<or> last bs = NL"
proof (induction bs)
  case (Cons b bs)
  obtain l ls where l: "split_lines bs = l # ls" by (meson list.exhaust split_lines_not_Nil)
  with Cons join_split_lines[of bs] show ?case by (cases ls) auto
qed simp

text \<open>Pushing pieces appends exactly the text they stand for.\<close>

lemma content_push_line:
  "content (push_line e final line b) =
    content b @ (if final then if e \<and> line \<noteq> [] then line @ [NL] else line else line @ [NL])"
  by (simp add: push_line_def content_def)

lemma content_push_lines:
  "(e \<longrightarrow> ls \<noteq> [] \<longrightarrow> last ls = []) \<Longrightarrow> content (push_lines e ls b) = content b @ join_lines ls"
proof (induction e ls b rule: push_lines.induct)
  case (2 e line rest b)
  then show ?case by (cases rest) (auto simp: content_push_line)
qed simp

lemma content_push_split:
  "content (push_lines (r \<noteq> [] \<and> last r = NL) (split_lines r) b) = content b @ r"
  by (subst content_push_lines) (simp_all add: last_split_lines join_split_lines)

text \<open>Pushing counts every byte it appends.\<close>

lemma total_push_line:
  "total_size (push_line e final line b) - word_of_nat (true_size (push_line e final line b))
    = total_size b - word_of_nat (true_size b)"
  by (simp add: push_line_def true_size_def content_def Let_def)

lemma total_push_lines:
  "total_size (push_lines e ls b) - word_of_nat (true_size (push_lines e ls b))
    = total_size b - word_of_nat (true_size b)"
  by (induction e ls b rule: push_lines.induct) (simp_all add: total_push_line)

text \<open>The shape of the lines: newlines only at the end, and at the end of every line but the last.\<close>

definition line_ok :: "bytes \<Rightarrow> bool" where
  "line_ok l \<longleftrightarrow> l \<noteq> [] \<and> NL \<notin> set (butlast l)"

definition buffer_ok :: "output_buffer \<Rightarrow> bool" where
  "buffer_ok b \<longleftrightarrow>
    list_all line_ok (lines b) \<and> list_all (\<lambda>l. last l = NL) (butlast (lines b)) \<and>
    last_line_incomplete b = (lines b \<noteq> [] \<and> last (last (lines b)) \<noteq> NL)"

text \<open>The lines of a text: each runs up to and including its newline, the last may lack one. The
  lines of a well-formed buffer are those of its text.\<close>

fun cut_lines :: "bytes \<Rightarrow> bytes list" where
  "cut_lines [] = []"
| "cut_lines (x # xs) =
    (if x = NL then [NL] # cut_lines xs
     else case cut_lines xs of [] \<Rightarrow> [[x]] | l # ls \<Rightarrow> (x # l) # ls)"

lemma cut_lines_append:
  assumes "NL \<notin> set l"
  shows "cut_lines (l @ NL # xs) = (l @ [NL]) # cut_lines xs"
  using assms by (induction l) auto

lemma cut_lines_partial:
  assumes "NL \<notin> set l" and "l \<noteq> []"
  shows "cut_lines l = [l]"
  using assms
proof (induction l)
  case (Cons x l)
  then show ?case by (cases "l = []") auto
qed simp

lemma cut_lines_concat:
  "list_all line_ok ls \<Longrightarrow> list_all (\<lambda>l. last l = NL) (butlast ls) \<Longrightarrow> cut_lines (concat ls) = ls"
proof (induction ls)
  case (Cons l ls)
  have l: "l = butlast l @ [last l]" "NL \<notin> set (butlast l)" "l \<noteq> []"
    using Cons.prems(1) by (simp_all add: line_ok_def)
  have more: "cut_lines (concat ls) = ls"
    using Cons by (cases "ls = []") simp_all
  show ?case
  proof (cases "last l = NL")
    case True
    then have "cut_lines (butlast l @ NL # concat ls) = (butlast l @ [NL]) # cut_lines (concat ls)"
      using l(2) by (intro cut_lines_append)
    then show ?thesis using True l(1) more by (metis append.assoc append_Cons append_Nil concat.simps(2))
  next
    case False
    with Cons.prems(2) have "ls = []" by (auto split: if_splits)
    moreover have "NL \<notin> set l" using l False by (metis UnE set_append empty_iff list.set(1) set_ConsD list.simps(15) insert_iff)
    ultimately show ?thesis using l(3) by (simp add: cut_lines_partial)
  qed
qed simp

lemma cut_lines_content: "buffer_ok b \<Longrightarrow> cut_lines (content b) = lines b"
  by (simp add: buffer_ok_def content_def cut_lines_concat)

lemma buffer_ok_new [wf_intros]: "buffer_ok new_buffer"
  by (simp add: buffer_ok_def new_buffer_def)

lemma buffer_ok_push_line:
  assumes "buffer_ok b" and "\<not> last_line_incomplete b" and "NL \<notin> set line" and "e \<longrightarrow> final \<longrightarrow> line = []"
  shows "buffer_ok (push_line e final line b)"
    and "\<not> final \<Longrightarrow> \<not> last_line_incomplete (push_line e final line b)"
proof -
  have "list_all (\<lambda>l. last l = NL) (lines b)"
    using assms(1,2) by (cases "lines b" rule: rev_cases) (auto simp: buffer_ok_def)
  moreover have "line \<noteq> [] \<Longrightarrow> last line \<noteq> NL" using assms(3) by (metis last_in_set)
  moreover have "NL \<notin> set (butlast line)" using assms(3) by (meson in_set_butlastD)
  ultimately show "buffer_ok (push_line e final line b)"
    "\<not> final \<Longrightarrow> \<not> last_line_incomplete (push_line e final line b)"
    using assms by (auto simp: buffer_ok_def push_line_def line_ok_def Let_def)
qed

lemma buffer_ok_push_lines:
  "buffer_ok b \<Longrightarrow> \<not> last_line_incomplete b \<Longrightarrow> \<forall>l\<in>set ls. NL \<notin> set l \<Longrightarrow>
   e \<longrightarrow> ls \<noteq> [] \<longrightarrow> last ls = [] \<Longrightarrow> buffer_ok (push_lines e ls b)"
proof (induction e ls b rule: push_lines.induct)
  case (2 e line rest b)
  show ?case
  proof (cases "rest = []")
    case True
    with 2 show ?thesis by (simp add: buffer_ok_push_line)
  next
    case False
    have "buffer_ok (push_line e (rest = []) line b)" "\<not> last_line_incomplete (push_line e (rest = []) line b)"
      using buffer_ok_push_line[of b line e "rest = []"] 2 False by simp_all
    with 2 False show ?thesis by simp
  qed
qed simp

section \<open>Trimming\<close>

definition within_limits :: "bytes list \<Rightarrow> bool" where
  "within_limits ls \<longleftrightarrow> length (concat ls) \<le> 1024 * 1024 \<and> length ls \<le> 10000"

text \<open>What trimming is meant to compute: the longest suffix of the lines within the limits.\<close>

fun fit :: "bytes list \<Rightarrow> bytes list" where
  "fit [] = []"
| "fit (l # ls) = (if within_limits (l # ls) then l # ls else fit ls)"

lemma fit_within: "within_limits (fit ls)"
  by (induction ls) (simp_all add: within_limits_def)

lemma fit_suffix: "\<exists>k. fit ls = drop k ls \<and> (\<forall>j<k. \<not> within_limits (drop j ls))"
proof (induction ls)
  case (Cons l ls)
  then obtain k where k: "fit ls = drop k ls" "\<forall>j<k. \<not> within_limits (drop j ls)" by blast
  show ?case
  proof (cases "within_limits (l # ls)")
    case True
    then have "fit (l # ls) = drop 0 (l # ls) \<and> (\<forall>j<0. \<not> within_limits (drop j (l # ls)))" by simp
    then show ?thesis by blast
  next
    case False
    then have "fit (l # ls) = drop (Suc k) (l # ls) \<and> (\<forall>j<Suc k. \<not> within_limits (drop j (l # ls)))"
      using k by (auto simp: less_Suc_eq_0_disj)
    then show ?thesis by blast
  qed
qed (auto simp: within_limits_def intro!: exI[of _ 0])

lemma fit_id [simp]: "within_limits ls \<Longrightarrow> fit ls = ls"
  by (cases ls) simp_all

lemma over_limits_iff:
  assumes "size_exact b"
  shows "(total_size b > MAX_OUTPUT_BUFFER_SIZE \<or> length (lines b) > MAX_BUFFER_LINES)
    \<longleftrightarrow> \<not> within_limits (lines b)"
  using assms
  by (simp add: size_exact_def true_size_def content_def within_limits_def word_less_nat_alt
      MAX_OUTPUT_BUFFER_SIZE_def MAX_BUFFER_LINES_def not_le)

text \<open>With an exact byte count the loop ends, and computes the specification.\<close>

lemma trim_exact:
  assumes "size_exact b"
  shows "trim b = Some (b\<lparr>lines := fit (lines b), total_size := len_usize (concat (fit (lines b)))\<rparr>)"
  using assms
proof (induction "lines b" arbitrary: b)
  case Nil
  then have "total_size b = 0" by (simp add: size_exact_def true_size_def content_def unat_eq_0)
  with Nil show ?case
    by (subst trim.simps) (simp add: over_limits_iff within_limits_def)
next
  case (Cons l ls)
  show ?case
  proof (cases "within_limits (lines b)")
    case True
    have "len_usize (concat (lines b)) = word_of_nat (unat (total_size b))"
      using Cons.prems by (simp only: size_exact_def true_size_def content_def)
    then have "total_size b = len_usize (concat (lines b))" by simp
    moreover have "trim b = Some b"
      by (subst trim.simps) (simp add: over_limits_iff[OF Cons.prems] True)
    ultimately show ?thesis using True by simp
  next
    case False
    define b' where "b' = b\<lparr>total_size := total_size b - len_usize l, lines := ls\<rparr>"
    have tot: "unat (total_size b) = length l + length (concat ls)"
      using Cons.prems Cons.hyps(2)[symmetric] by (simp add: size_exact_def true_size_def content_def)
    then have "length l < 2 ^ 64" using unsigned_less[of "total_size b", where 'a = nat] by simp
    then have "unat (total_size b - len_usize l) = length (concat ls)"
      using tot by (simp add: unat_sub_if' unat_len_usize)
    then have "size_exact b'" by (simp add: b'_def size_exact_def true_size_def content_def)
    moreover have "trim b = trim b'"
      using False Cons.hyps(2)[symmetric] over_limits_iff[OF Cons.prems]
      by (subst trim.simps) (simp add: b'_def)
    ultimately show ?thesis
      using Cons.hyps(1)[of b'] False Cons.hyps(2)[symmetric] by (simp add: b'_def)
  qed
qed

lemma trim_within:
  assumes "total_size b \<le> MAX_OUTPUT_BUFFER_SIZE" and "length (lines b) \<le> MAX_BUFFER_LINES"
  shows "trim b = Some b"
proof -
  have "\<not> MAX_OUTPUT_BUFFER_SIZE < total_size b" "\<not> MAX_BUFFER_LINES < length (lines b)"
    using assms by (simp_all add: leD)
  then show ?thesis by (subst trim.simps) simp
qed

text \<open>With an empty buffer and a count above the limit the loop never ends, and a count that exceeds
  the text by more than the limit gets there.\<close>

lemma trim_stuck:
  assumes "lines b = []" and "total_size b > MAX_OUTPUT_BUFFER_SIZE"
  shows "trim b = None"
proof (rule ccontr)
  assume "trim b \<noteq> None"
  then obtain c where "trim b = Some c" by blast
  then have "\<not> (lines b = [] \<and> total_size b > MAX_OUTPUT_BUFFER_SIZE)"
  proof (induction rule: trim.raw_induct[rotated, consumes 1])
    case (1 tr x y)
    show ?case using 1(2) 1(1)[of x y] by (auto split: if_splits)
  qed
  with assms show False by simp
qed

lemma trim_overcounted:
  "unat MAX_OUTPUT_BUFFER_SIZE + true_size b < unat (total_size b) \<Longrightarrow> trim b = None"
proof (induction "lines b" arbitrary: b)
  case Nil
  then show ?case by (intro trim_stuck) (simp_all add: word_less_nat_alt)
next
  case (Cons l ls)
  define b' where "b' = b\<lparr>total_size := total_size b - len_usize l, lines := ls\<rparr>"
  have sz: "true_size b = length l + true_size b'"
    using Cons.hyps(2)[symmetric] by (simp add: b'_def true_size_def content_def)
  then have "length l < 2 ^ 64"
    using Cons.prems unsigned_less[of "total_size b", where 'a = nat] by simp
  then have "unat (total_size b') = unat (total_size b) - length l"
    using Cons.prems sz by (simp add: b'_def unat_sub_if' unat_len_usize)
  then have "trim b' = None"
    using Cons.prems sz by (intro Cons.hyps(1)) (simp_all add: b'_def)
  moreover have "total_size b > MAX_OUTPUT_BUFFER_SIZE"
    using Cons.prems by (simp add: word_less_nat_alt)
  ultimately show ?case
    using Cons.hyps(2)[symmetric] by (subst trim.simps) (simp add: b'_def)
qed

text \<open>An undercounted buffer with too many lines gets there by popping one line.\<close>

lemma trim_undercounted:
  assumes "length (lines b) > MAX_BUFFER_LINES" and "unat (total_size b) < length (hd (lines b))"
    and "2 * true_size b + unat MAX_OUTPUT_BUFFER_SIZE < 2 ^ 64"
  shows "trim b = None"
proof -
  obtain l ls where ls: "lines b = l # ls" using assms(1) by (cases "lines b") auto
  define b' where "b' = b\<lparr>total_size := total_size b - len_usize l, lines := ls\<rparr>"
  have sz: "true_size b = length l + true_size b'"
    by (simp add: b'_def true_size_def content_def ls)
  then have "length l < 2 ^ 64" using assms(3) by simp
  then have "unat (total_size b') = 2 ^ 64 + unat (total_size b) - length l"
    using assms(2) by (simp add: b'_def ls unat_sub_if' unat_len_usize)
  then have "trim b' = None"
    using assms(3) sz by (intro trim_overcounted) simp
  then show ?thesis
    using assms(1) by (subst trim.simps) (simp add: ls b'_def)
qed

section \<open>Lemmas on appending\<close>

lemma size_exact_push:
  assumes "size_exact b" and "true_size (push_lines e ls b) < 2 ^ 64"
  shows "size_exact (push_lines e ls b)"
proof -
  let ?c = "push_lines e ls b"
  have "word_of_nat (true_size b) = (word_of_nat (unat (total_size b)) :: usize)"
    using assms(1) by (simp only: size_exact_def)
  then have "word_of_nat (true_size b) = total_size b" by simp
  then have "total_size ?c = word_of_nat (true_size ?c)"
    using total_push_lines[of e ls b] by simp
  then show ?thesis
    using assms(2) by (simp add: size_exact_def unat_of_nat take_bit_nat_eq_self)
qed

text \<open>Text that does not complete a partial line: the count stays exact, and appending is pushing
  the lines and keeping the longest suffix that fits.\<close>

lemma append_rest_exact:
  assumes "size_exact b" and "true_size b + length r < 2 ^ 64"
  defines "c \<equiv> push_lines (r \<noteq> [] \<and> last r = NL) (split_lines r) b"
  shows "append_rest r b = Some (c\<lparr>lines := fit (lines c), total_size := len_usize (concat (fit (lines c)))\<rparr>)"
proof -
  have "true_size c = true_size b + length r"
    unfolding c_def true_size_def content_push_split by simp
  then have "size_exact c"
    using size_exact_push[OF assms(1)] assms(2) by (simp add: c_def)
  then show ?thesis by (simp add: append_rest_def c_def Let_def trim_exact)
qed

lemma takeWhile_NL: "NL \<notin> set data \<longleftrightarrow> length (takeWhile (\<lambda>x. x \<noteq> NL) data) = length data"
  by (induction data) auto

lemma content_butlast:
  "ls \<noteq> [] \<Longrightarrow> concat (butlast ls @ [last ls @ d]) = concat ls @ d"
  by (cases ls rule: rev_cases) simp_all

text \<open>Whatever the count says, trimming only drops whole lines from the front.\<close>

lemma trim_suffix:
  assumes "trim b = Some b'"
  shows "\<exists>k. lines b' = drop k (lines b)"
proof (rule trim.raw_induct[where P = "\<lambda>b b'. \<exists>k. lines b' = drop k (lines b)", OF _ assms])
  fix tr x y
  assume IH: "\<And>b b'. tr b = Some b' \<Longrightarrow> \<exists>k. lines b' = drop k (lines b)"
    and step: "(if MAX_OUTPUT_BUFFER_SIZE < total_size x \<or> MAX_BUFFER_LINES < length (lines x) then
        (case lines x of [] \<Rightarrow> tr x
         | removed # rest \<Rightarrow> tr (x\<lparr>total_size := total_size x - len_usize removed, lines := rest\<rparr>))
      else Some x) = Some y"
  show "\<exists>k. lines y = drop k (lines x)"
  proof (cases "MAX_OUTPUT_BUFFER_SIZE < total_size x \<or> MAX_BUFFER_LINES < length (lines x)")
    case True
    show ?thesis
    proof (cases "lines x")
      case Nil
      with True step have "tr x = Some y" by simp
      then show ?thesis by (rule IH)
    next
      case (Cons l ls)
      with True step have "tr (x\<lparr>total_size := total_size x - len_usize l, lines := ls\<rparr>) = Some y" by simp
      from IH[OF this] obtain k where "lines y = drop k ls" by auto
      then have "lines y = drop (Suc k) (lines x)" using Cons by simp
      then show ?thesis by blast
    qed
  next
    case False
    with step have "lines y = drop 0 (lines x)" by (simp split: if_splits)
    then show ?thesis by blast
  qed
qed

lemma concat_drop_suffix: "\<exists>m. concat (drop k ls) = drop m (concat ls)"
proof -
  have "concat ls = concat (take k ls) @ concat (drop k ls)"
    by (metis append_take_drop_id concat_append)
  then have "concat (drop k ls) = drop (length (concat (take k ls))) (concat ls)" by simp
  then show ?thesis by blast
qed

lemma append_rest_suffix: "append_rest r b = Some b' \<Longrightarrow> \<exists>m. content b' = drop m (content b @ r)"
  unfolding append_rest_def Let_def
proof (drule trim_suffix, elim exE)
  let ?c = "push_lines (r \<noteq> [] \<and> last r = NL) (split_lines r) b"
  fix k assume "lines b' = drop k (lines ?c)"
  then obtain m where "content b' = drop m (content ?c)"
    using concat_drop_suffix[of k "lines ?c"] by (auto simp: content_def)
  then show ?thesis by (auto simp: content_push_split)
qed

lemma push_lines_bound:
  "\<forall>l\<in>set (lines b). length l \<le> n \<Longrightarrow> \<forall>l\<in>set ls. length l < n \<Longrightarrow>
   \<forall>l\<in>set (lines (push_lines e ls b)). length l \<le> n"
proof (induction e ls b rule: push_lines.induct)
  case (2 e line rest b)
  have "\<forall>l\<in>set (lines (push_line e (rest = []) line b)). length l \<le> n"
    using 2(2,3) by (auto simp: push_line_def Let_def)
  with 2 show ?case by simp
qed simp

lemma fit_not_Nil:
  assumes "ls \<noteq> []" and "length (last ls) \<le> 1024 * 1024"
  shows "fit ls \<noteq> []"
proof
  assume none: "fit ls = []"
  obtain k where k: "fit ls = drop k ls" "\<forall>j<k. \<not> within_limits (drop j ls)" using fit_suffix by blast
  then have "length ls - 1 < k" using none assms(1) by (cases ls) auto
  moreover have "drop (length ls - 1) ls = [last ls]"
    using assms(1) by (cases ls rule: rev_cases) auto
  ultimately have "\<not> within_limits [last ls]" using k(2) by metis
  then show False using assms(2) by (simp add: within_limits_def)
qed

lemma buffer_ok_drop:
  assumes "buffer_ok b" and "drop k (lines b) \<noteq> []"
  shows "buffer_ok (b\<lparr>lines := drop k (lines b), total_size := t\<rparr>)"
proof -
  have "k < length (lines b)" using assms(2) by simp
  then have "last (drop k (lines b)) = last (lines b)" "lines b \<noteq> []"
    "set (butlast (drop k (lines b))) \<subseteq> set (butlast (lines b))" "set (drop k (lines b)) \<subseteq> set (lines b)"
    by (auto simp: last_drop butlast_drop set_drop_subset dest: in_set_dropD)
  then show ?thesis
    using assms by (auto simp: buffer_ok_def list_all_iff)
qed

lemma length_member_concat: "l \<in> set ls \<Longrightarrow> length l \<le> length (concat ls)"
  by (induction ls) auto

lemma piece_length: "l \<in> set (split_lines bs) \<Longrightarrow> length l \<le> length bs"
proof (induction bs arbitrary: l)
  case (Cons b bs)
  then show ?case
    by (cases "split_lines bs") (fastforce split: if_splits)+
qed simp

section \<open>Properties\<close>

text \<open>
  C6. Appending terminal output implements its specification: for a well-formed buffer of at most a
  MiB with an exact count and without a partial last line, and 1 to 4096 bytes, appending returns a well-formed buffer
  with an exact count that holds the longest suffix of the whole lines of the old text followed by the
  output that fits both limits: only whole lines are dropped, from the front, and with one more of
  them a limit would be exceeded. In particular the trimming loop ends.
\<close>

theorem buf_append_refines:
  assumes "buffer_ok b" and "size_exact b" and "\<not> last_line_incomplete b"
    and "data \<noteq> []" and "length data \<le> 4096" and "true_size b \<le> 1024 * 1024"
  shows "\<exists>b' k. buf_append data b = Some b' \<and> lines b' = drop k (cut_lines (content b @ data)) \<and>
    (\<forall>j<k. \<not> within_limits (drop j (cut_lines (content b @ data)))) \<and>
    within_limits (lines b') \<and> size_exact b' \<and> buffer_ok b'"
proof -
  let ?c = "push_lines (last data = NL) (split_lines data) b"
  let ?b' = "?c\<lparr>lines := fit (lines ?c), total_size := len_usize (concat (fit (lines ?c)))\<rparr>"
  have r: "buf_append data b = Some ?b'"
    using append_rest_exact[OF assms(2), of data] assms(3-6) by (simp add: buf_append_def)
  have c: "content ?c = content b @ data"
    using content_push_split[of data b] assms(4) by simp
  have ok: "buffer_ok ?c"
    using assms(1,3,4) by (intro buffer_ok_push_lines) (auto simp: split_lines_no_NL last_split_lines)
  then have cut: "lines ?c = cut_lines (content b @ data)" by (metis c cut_lines_content)
  have fits: "within_limits (fit (lines ?c))" by (rule fit_within)
  then have exact: "size_exact ?b'"
    by (simp add: size_exact_def true_size_def content_def within_limits_def unat_len_usize)
  have "\<forall>l\<in>set (lines ?c). length l \<le> 1024 * 1024"
  proof (rule push_lines_bound)
    show "\<forall>l\<in>set (lines b). length l \<le> 1024 * 1024"
      using assms(6) length_member_concat[of _ "lines b"] by (auto simp: true_size_def content_def intro: order_trans)
    show "\<forall>l\<in>set (split_lines data). length l < 1024 * 1024"
      using assms(5) piece_length[of _ data] by (fastforce dest: order_trans)
  qed
  moreover have "lines ?c \<noteq> []" using c assms(4) by (auto simp: content_def)
  ultimately have "fit (lines ?c) \<noteq> []" by (simp add: fit_not_Nil)
  moreover obtain k where k: "fit (lines ?c) = drop k (lines ?c)"
    "\<forall>j<k. \<not> within_limits (drop j (lines ?c))" using fit_suffix by blast
  ultimately have "buffer_ok ?b'" using buffer_ok_drop[OF ok] by metis
  then have "buf_append data b = Some ?b' \<and> lines ?b' = drop k (cut_lines (content b @ data)) \<and>
    (\<forall>j<k. \<not> within_limits (drop j (cut_lines (content b @ data)))) \<and>
    within_limits (lines ?b') \<and> size_exact ?b' \<and> buffer_ok ?b'"
    using r k fits exact cut by simp
  then show ?thesis by blast
qed

theorem buf_append_refines_witness:
  "\<exists>b' k. buf_append [0x61, NL, 0x62] new_buffer = Some b' \<and>
    lines b' = drop k [[0x61, NL], [0x62]] \<and> size_exact b'"
proof -
  have "size_exact new_buffer" "content new_buffer = []" "true_size new_buffer = 0" "\<not> last_line_incomplete new_buffer"
    "cut_lines [0x61, NL, 0x62] = [[0x61, NL], [0x62]]"
    by (simp_all add: new_buffer_def size_exact_def true_size_def content_def NL_def)
  with buf_append_refines[OF buffer_ok_new, of "[0x61, NL, 0x62]"] show ?thesis by force
qed

text \<open>
  Output is never invented, reordered or lost in the middle: whenever appending returns, the
  buffer holds a suffix of the old text followed by the output, whatever the state of the buffer and
  its count.
\<close>

theorem buf_append_keeps_suffix:
  assumes "buf_append data b = Some b'"
  shows "\<exists>m. content b' = drop m (content b @ data)"
proof (cases "data = [] \<or> last_line_incomplete b \<and> lines b \<noteq> [] \<and> NL \<notin> set data")
  case True
  have "content b' = content b @ data"
  proof (cases "data = []")
    case False
    with True have part: "last_line_incomplete b" "lines b \<noteq> []" "NL \<notin> set data" by auto
    then have "length (takeWhile (\<lambda>x. x \<noteq> NL) data) = length data" using takeWhile_NL by blast
    then have "b' = b\<lparr>lines := butlast (lines b) @ [last (lines b) @ data], total_size := total_size b + len_usize data\<rparr>"
      using assms part False by (simp add: buf_append_def Let_def)
    then show ?thesis using content_butlast[OF part(2), of data] by (simp add: content_def)
  qed (use assms in \<open>simp add: buf_append_def\<close>)
  then have "content b' = drop 0 (content b @ data)" by simp
  then show ?thesis by blast
next
  case False
  show ?thesis
  proof (cases "last_line_incomplete b \<and> lines b \<noteq> []")
    case True
    let ?n = "length (takeWhile (\<lambda>x. x \<noteq> NL) data)"
    let ?c = "b\<lparr>lines := butlast (lines b) @ [last (lines b) @ take (?n + 1) data], last_line_incomplete := False\<rparr>"
    have "?n \<noteq> length data" using False True takeWhile_NL by blast
    then have "?n < length data" by (simp add: le_neq_implies_less length_takeWhile_le)
    then have "append_rest (drop (?n + 1) data) ?c = Some b'"
      using assms False True by (simp add: buf_append_def Let_def)
    moreover have "content ?c @ drop (?n + 1) data = content b @ data"
      using True content_butlast[of "lines b" "take (?n + 1) data"] by (simp add: content_def)
    ultimately show ?thesis using append_rest_suffix by metis
  next
    case False': False
    then show ?thesis using assms False append_rest_suffix by (auto simp: buf_append_def)
  qed
qed

theorem buf_append_keeps_suffix_witness:
  "\<exists>m. content (the (buf_append [0x62] (new_buffer\<lparr>lines := [[0x61]], last_line_incomplete := True, total_size := 1\<rparr>)))
    = drop m [0x61, 0x62]"
  using buf_append_keeps_suffix[of "[0x62]" "new_buffer\<lparr>lines := [[0x61]], last_line_incomplete := True, total_size := 1\<rparr>"]
  by (simp add: buf_append_def NL_def content_def)

text \<open>
  The byte count misses completed lines: when output completes the partial last line, the text
  grows by the output and the count does not grow at all.
\<close>

theorem completing_line_undercounts:
  assumes "last_line_incomplete b" and "lines b \<noteq> []" and "NL \<notin> set p"
    and "total_size b \<le> MAX_OUTPUT_BUFFER_SIZE" and "length (lines b) \<le> MAX_BUFFER_LINES"
  shows "\<exists>b'. buf_append (p @ [NL]) b = Some b' \<and> content b' = content b @ p @ [NL] \<and>
    total_size b' = total_size b"
proof -
  let ?b' = "b\<lparr>lines := butlast (lines b) @ [last (lines b) @ p @ [NL]], last_line_incomplete := False\<rparr>"
  have "takeWhile (\<lambda>x. x \<noteq> NL) (p @ [NL]) = p" using assms(3) by (induction p) auto
  then have "buf_append (p @ [NL]) b = append_rest [] ?b'"
    using assms(1,2) by (simp add: buf_append_def)
  also have "append_rest [] ?b' = trim ?b'"
    by (simp add: append_rest_def push_line_def)
  also have "trim ?b' = Some ?b'"
  proof (rule trim_within)
    have "0 < length (lines b)" using assms(2) by simp
    then show "length (lines ?b') \<le> MAX_BUFFER_LINES" using assms(5) by simp
  qed (simp add: assms(4))
  finally show ?thesis
    using content_butlast[OF assms(2), of "p @ [NL]"] by (simp add: content_def)
qed

theorem completing_line_undercounts_witness:
  "\<exists>b'. buf_append [0x62, 0x63, NL] (new_buffer\<lparr>lines := [[0x61]], last_line_incomplete := True, total_size := 1\<rparr>)
     = Some b' \<and> content b' = [0x61, 0x62, 0x63, NL] \<and> total_size b' = 1"
  using completing_line_undercounts[of "new_buffer\<lparr>lines := [[0x61]], last_line_incomplete := True, total_size := 1\<rparr>"
      "[0x62, 0x63]"]
  by (simp add: NL_def content_def MAX_OUTPUT_BUFFER_SIZE_def MAX_BUFFER_LINES_def)

subsection \<open>A session that hangs\<close>

fun append_all :: "bytes list \<Rightarrow> output_buffer \<Rightarrow> output_buffer option" where
  "append_all [] b = Some b"
| "append_all (d # ds) b = (case buf_append d b of None \<Rightarrow> None | Some b' \<Rightarrow> append_all ds b')"

lemma split_newlines: "split_lines (replicate n NL) = replicate (Suc n) []"
  by (induction n) simp_all

lemma push_newlines:
  "push_lines True (replicate (Suc n) []) b =
    b\<lparr>total_size := total_size b + word_of_nat n, lines := lines b @ replicate n [NL]\<rparr>"
proof (induction n arbitrary: b)
  case 0
  show ?case by (simp add: push_line_def)
next
  case (Suc n)
  have "push_lines True (replicate (Suc (Suc n)) []) b
      = push_lines True (replicate (Suc n) []) (push_line True False [] b)"
    by simp
  then show ?case
    unfolding Suc by (simp add: push_line_def algebra_simps)
qed

lemma append_newlines:
  assumes "\<not> last_line_incomplete b" and "0 < n"
  shows "buf_append (replicate n NL) b =
    trim (b\<lparr>total_size := total_size b + word_of_nat n, lines := lines b @ replicate n [NL]\<rparr>)"
proof -
  have "replicate n NL \<noteq> []" "last (replicate n NL) = NL" using assms(2) by simp_all
  then show ?thesis
    using assms push_newlines[of n b]
    by (simp add: buf_append_def append_rest_def split_newlines)
qed

definition long_line :: bytes where
  "long_line = 0x61 # replicate 4095 0x61 @ [NL]"

text \<open>A line that arrives as one byte and then the rest is counted as one byte.\<close>

lemma append_long_line:
  assumes "\<not> last_line_incomplete b" and "total_size b < 10" and "length (lines b) < 10"
  shows "append_all [[0x61], replicate 4095 0x61 @ [NL]] b =
    Some (b\<lparr>total_size := total_size b + 1, lines := lines b @ [long_line]\<rparr>)"
proof -
  have small: "total_size b + 1 \<le> MAX_OUTPUT_BUFFER_SIZE"
    using assms(2) by (simp add: MAX_OUTPUT_BUFFER_SIZE_def word_le_nat_alt word_less_nat_alt unat_word_ariths)
  obtain ls t where b: "b = \<lparr>lines = ls, total_size = t, last_line_incomplete = False\<rparr>"
    using assms(1) by (cases b) auto
  let ?b1 = "\<lparr>lines = ls @ [[0x61]], total_size = t + 1, last_line_incomplete = True\<rparr>"
  let ?b2 = "\<lparr>lines = ls @ [long_line], total_size = t + 1, last_line_incomplete = False\<rparr>"
  have b1: "buf_append [0x61] b = Some ?b1"
    using assms small
    by (simp add: b buf_append_def append_rest_def NL_def push_line_def trim_within MAX_BUFFER_LINES_def)
  have tw: "takeWhile (\<lambda>x. x \<noteq> NL) (replicate n 0x61 @ [NL]) = replicate n 0x61" for n
    by (induction n) (simp_all add: NL_def)
  have "buf_append (replicate 4095 0x61 @ [NL]) ?b1 = append_rest [] ?b2"
    unfolding buf_append_def Let_def tw by (simp add: long_line_def)
  also have "\<dots> = Some ?b2"
    using assms small by (simp add: b append_rest_def push_line_def trim_within MAX_BUFFER_LINES_def)
  finally show ?thesis using b1 by (simp add: b)
qed

lemma append_all_append:
  "append_all (xs @ ys) b = (case append_all xs b of None \<Rightarrow> None | Some c \<Rightarrow> append_all ys c)"
  by (induction xs arbitrary: b) (auto split: option.split)

text \<open>Three lines of 4096 bytes, each read as one byte and the rest, are counted as three bytes.\<close>

lemma three_long_lines:
  defines "long \<equiv> [[0x61], replicate 4095 0x61 @ [NL]]"
  shows "append_all (long @ long @ long) new_buffer
    = Some \<lparr>lines = replicate 3 long_line, total_size = 3, last_line_incomplete = False\<rparr>"
proof -
  have "append_all long new_buffer = Some \<lparr>lines = [long_line], total_size = 1, last_line_incomplete = False\<rparr>"
    "append_all long \<lparr>lines = [long_line], total_size = 1, last_line_incomplete = False\<rparr>
      = Some \<lparr>lines = [long_line, long_line], total_size = 2, last_line_incomplete = False\<rparr>"
    "append_all long \<lparr>lines = [long_line, long_line], total_size = 2, last_line_incomplete = False\<rparr>
      = Some \<lparr>lines = replicate 3 long_line, total_size = 3, last_line_incomplete = False\<rparr>"
    unfolding long_def by (subst append_long_line; simp add: new_buffer_def numeral_3_eq_3)+
  then show ?thesis by (simp only: append_all_append option.simps)
qed

text \<open>
  C7. The undercount can hang the reader: a program that prints three long lines, each read as one
  byte and then the rest, and then 10000 empty lines, in reads of at most 4096 bytes, drives the
  count below zero, and the trimming loop never ends.
\<close>

theorem scrollback_hang:
  "\<exists>reads. list_all (\<lambda>r. r \<noteq> [] \<and> length r \<le> 4096) reads \<and> append_all reads new_buffer = None"
proof -
  let ?long = "[[0x61], replicate 4095 0x61 @ [NL]]"
  let ?three = "replicate 3 long_line"
  let ?reads = "?long @ ?long @ ?long @ [replicate 4096 NL, replicate 4096 NL, replicate 1808 NL]"
  let ?st = "\<lambda>n t. \<lparr>lines = ?three @ replicate n [NL], total_size = t, last_line_incomplete = False\<rparr>"
  have st0: "append_all (?long @ ?long @ ?long) new_buffer = Some (?st 0 3)"
    using three_long_lines by simp
  have app: "buf_append (replicate k NL) (?st n t) = trim (?st (n + k) (t + word_of_nat k))" if "0 < k" for k n t
    using append_newlines[of "?st n t" k] that by (simp add: replicate_add)
  have st1: "buf_append (replicate 4096 NL) (?st 0 3) = Some (?st 4096 4099)"
    "buf_append (replicate 4096 NL) (?st 4096 4099) = Some (?st 8192 8195)"
    using app[of 4096 0 3] app[of 4096 4096 4099]
    by (simp_all add: trim_within MAX_OUTPUT_BUFFER_SIZE_def MAX_BUFFER_LINES_def word_le_nat_alt)
  have st2: "buf_append (replicate 1808 NL) (?st 8192 8195) = trim (?st 10000 10003)"
    using app[of 1808 8192 8195] by simp
  have pop: "trim \<lparr>lines = long_line # rest, total_size = t, last_line_incomplete = False\<rparr> =
      trim \<lparr>lines = rest, total_size = t - 4097, last_line_incomplete = False\<rparr>" if "length rest \<ge> 10000" for rest t
    using that by (subst trim.simps) (simp add: MAX_BUFFER_LINES_def long_line_def)
  have "trim (?st 10000 10003) =
      trim \<lparr>lines = long_line # replicate 10000 [NL], total_size = 1809, last_line_incomplete = False\<rparr>"
    by (simp add: numeral_3_eq_3 pop)
  also have "\<dots> = None"
    by (rule trim_undercounted)
      (simp_all add: MAX_BUFFER_LINES_def long_line_def true_size_def content_def MAX_OUTPUT_BUFFER_SIZE_def)
  finally have "append_all [replicate 4096 NL, replicate 4096 NL, replicate 1808 NL] (?st 0 3) = None"
    by (simp only: append_all.simps st1 st2 option.simps)
  with st0 have "append_all ?reads new_buffer = None"
    using append_all_append[of "?long @ ?long @ ?long" "[replicate 4096 NL, replicate 4096 NL, replicate 1808 NL]" new_buffer]
    by (simp only: append_assoc option.simps)
  moreover have "list_all (\<lambda>r. r \<noteq> [] \<and> length r \<le> 4096) ?reads"
    by (simp add: length_greater_0_conv[symmetric] del: length_greater_0_conv)
  ultimately show ?thesis by blast
qed

text \<open>
  Output without newlines is never trimmed: each such chunk is kept whole, so a partial line
  grows past the size limit without bound.
\<close>

theorem partial_line_unbounded:
  assumes "last_line_incomplete b" and "lines b \<noteq> []" and "c \<noteq> []" and "NL \<notin> set c"
  shows "\<exists>b'. append_all (replicate n c) b = Some b' \<and> content b' = content b @ concat (replicate n c)"
proof -
  have "\<exists>b'. append_all (replicate n c) b = Some b' \<and> content b' = content b @ concat (replicate n c) \<and>
      last_line_incomplete b' \<and> lines b' \<noteq> []"
    using assms(1,2)
  proof (induction n arbitrary: b)
    case (Suc n)
    let ?b1 = "b\<lparr>lines := butlast (lines b) @ [last (lines b) @ c], total_size := total_size b + len_usize c\<rparr>"
    have "buf_append c b = Some ?b1"
      using Suc.prems assms(3,4) takeWhile_NL[of c] by (simp add: buf_append_def)
    moreover have "content ?b1 = content b @ c"
      using content_butlast[of "lines b" c] Suc.prems by (simp add: content_def)
    ultimately show ?case using Suc.IH[of ?b1] Suc.prems by auto
  qed simp
  then show ?thesis by blast
qed

theorem partial_line_unbounded_witness:
  "\<exists>b'. append_all (replicate 1000000 [0x62, 0x63]) (new_buffer\<lparr>lines := [[0x61]], last_line_incomplete := True, total_size := 1\<rparr>)
    = Some b' \<and> content b' = 0x61 # concat (replicate 1000000 [0x62, 0x63])"
  using partial_line_unbounded[of "new_buffer\<lparr>lines := [[0x61]], last_line_incomplete := True, total_size := 1\<rparr>" "[0x62, 0x63]" 1000000]
  by (simp add: NL_def content_def)

text \<open>
  What a reconnecting client is sent is the longest run of the newest whole lines within its
  limit.
\<close>

theorem get_recent_longest_suffix:
  "\<exists>k. get_recent n b = concat (drop k (lines b)) \<and> length (get_recent n b) \<le> n \<and>
    (k = 0 \<or> length (concat (drop (k - 1) (lines b))) > n)"
proof -
  have gen: "\<exists>j\<le>length ls. recent n ls (length acc) acc = concat (rev (take j ls)) @ acc \<and>
      length (recent n ls (length acc) acc) \<le> n \<and>
      (j < length ls \<longrightarrow> length (concat (rev (take (Suc j) ls)) @ acc) > n)"
    if "length acc \<le> n" for ls acc
    using that
  proof (induction ls arbitrary: acc)
    case (Cons l ls)
    show ?case
    proof (cases "length acc + length l > n")
      case True
      then have "recent n (l # ls) (length acc) acc = concat (rev (take 0 (l # ls))) @ acc \<and>
          length (recent n (l # ls) (length acc) acc) \<le> n \<and>
          (0 < length (l # ls) \<longrightarrow> length (concat (rev (take (Suc 0) (l # ls))) @ acc) > n)"
        using Cons.prems by simp
      then show ?thesis by (meson le0)
    next
      case False
      then have le: "length (l @ acc) \<le> n" by simp
      from Cons.IH[OF le] obtain j where "j \<le> length ls" "recent n ls (length (l @ acc)) (l @ acc) = concat (rev (take j ls)) @ l @ acc"
        "length (recent n ls (length (l @ acc)) (l @ acc)) \<le> n"
        "j < length ls \<longrightarrow> length (concat (rev (take (Suc j) ls)) @ l @ acc) > n"
        by (metis append_assoc)
      then have "Suc j \<le> length (l # ls)"
        "recent n (l # ls) (length acc) acc = concat (rev (take (Suc j) (l # ls))) @ acc"
        "length (recent n (l # ls) (length acc) acc) \<le> n"
        "Suc j < length (l # ls) \<longrightarrow> length (concat (rev (take (Suc (Suc j)) (l # ls))) @ acc) > n"
        using False by (simp_all add: add.commute)
      then show ?thesis by blast
    qed
  qed simp
  have "\<exists>j\<le>length (lines b). get_recent n b = concat (rev (take j (rev (lines b)))) \<and>
      length (get_recent n b) \<le> n \<and>
      (j < length (lines b) \<longrightarrow> length (concat (rev (take (Suc j) (rev (lines b))))) > n)"
    using gen[of "[]" "rev (lines b)"] unfolding get_recent_def
    by (simp only: length_rev list.size append_Nil2 le0 simp_thms)
  then obtain j where j: "j \<le> length (lines b)"
    "get_recent n b = concat (rev (take j (rev (lines b))))" "length (get_recent n b) \<le> n"
    "j < length (lines b) \<longrightarrow> length (concat (rev (take (Suc j) (rev (lines b))))) > n"
    by blast
  let ?k = "length (lines b) - j"
  have newest: "rev (take j (rev (lines b))) = drop ?k (lines b)"
    "rev (take (Suc j) (rev (lines b))) = drop (?k - 1) (lines b)"
    by (simp_all only: rev_take rev_rev_ident length_rev) simp
  have "get_recent n b = concat (drop ?k (lines b))" using j(2) unfolding newest .
  moreover have "?k = 0 \<or> length (concat (drop (?k - 1) (lines b))) > n"
    using j(1,4) unfolding newest by (cases "j < length (lines b)") simp_all
  ultimately show ?thesis using j(3) by (intro exI[of _ ?k] conjI)
qed

end
