(* ===== verification/Terminal_Service.thy ===== *)
theory Terminal_Service
  imports Output_Buffer "HOL-Library.Multiset"
begin

text \<open>
  The terminal services of \<open>src/server/terminal_service.rs\<close>: a registry of at most 100 services, each
  with its terminals, a list of child processes to reap, and the proxy through which a connection
  opens, feeds, reads and closes terminals. The \<open>HashMap\<close>s are association lists. What the operating
  system and the pseudo-terminal library return (the result of spawning a shell, of killing a child,
  of polling it) are arguments of the operations, as are the clock (milliseconds) and the compressor.
  Two threads per terminal move bytes: their loops are the operations \<open>reader_read\<close> and
  \<open>writer_write\<close>. A session that another thread has locked is skipped by \<open>read_outputs\<close>.
\<close>

section \<open>State\<close>

definition MAX_SERVICES :: nat where "MAX_SERVICES = 100"
definition SERVICE_IDLE_TIMEOUT :: nat where "SERVICE_IDLE_TIMEOUT = 3600 * 1000"
definition CHANNEL_BUFFER_SIZE :: nat where "CHANNEL_BUFFER_SIZE = 100"
definition COMPRESS_THRESHOLD :: nat where "COMPRESS_THRESHOLD = 512"

text \<open>A process is named by its handle; channels hold the messages under way; a thread is there and
  finished or not.\<close>

type_synonym process = nat

record terminal_session =
  last_activity :: nat
  pty_pair :: bool
  child :: "process option"
  input_tx :: "bytes list option"
  output_rx :: "bytes list option"
  exiting :: bool
  reader_thread :: "bool option"
  writer_thread :: "bool option"
  output_buffer :: output_buffer
  title :: string
  pid :: u32
  rows :: u16
  cols :: u16
  closed_message_sent :: bool
  is_opened :: bool

record terminal_service =
  service_id :: string
  sessions :: "(int \<times> terminal_session) list"
  svc_last_activity :: nat
  is_persistent :: bool
  needs_session_sync :: bool
  is_specified_user :: bool

record terminals =
  services :: "(string \<times> terminal_service) list"
  reaper :: "process list"

datatype TerminalResponse =
  Opened (opened_id: int) (opened_message: string) (opened_pid: u32) (opened_service: string) (persistent_sessions: "int list")
| Data int bytes bool
| Closed int int
| Error string

datatype TerminalAction =
  OpenTerminal int u32 u32
| ResizeTerminal int u32 u32
| TerminalData int bytes
| CloseTerminal int

definition new_session :: "nat \<Rightarrow> int \<Rightarrow> u16 \<Rightarrow> u16 \<Rightarrow> terminal_session" where
  "new_session now terminal_id r c =
    \<lparr>last_activity = now, pty_pair = False, child = None, input_tx = None, output_rx = None, exiting = False,
     reader_thread = None, writer_thread = None, output_buffer = new_buffer,
     title = ''Terminal '' @ (if terminal_id < 0 then ''-'' @ show_nat (nat (- terminal_id)) else show_nat (nat terminal_id)),
     pid = 0, rows = r, cols = c, closed_message_sent = False, is_opened = False\<rparr>"

definition new_service :: "nat \<Rightarrow> string \<Rightarrow> bool \<Rightarrow> bool \<Rightarrow> terminal_service" where
  "new_service now sid persistent specified =
    \<lparr>service_id = sid, sessions = [], svc_last_activity = now, is_persistent = persistent,
     needs_session_sync = False, is_specified_user = specified\<rparr>"

section \<open>Sessions\<close>

text \<open>\<open>stop\<close>, also run when a session is dropped: the threads are joined and the child is handed to
  the reaper.\<close>

definition stop :: "terminal_session \<times> process list \<Rightarrow> terminal_session \<times> process list" where
  "stop = (\<lambda>(s, tasks).
    (s\<lparr>is_opened := False, exiting := True, input_tx := None, output_rx := None, pty_pair := False,
       reader_thread := None, writer_thread := None, child := None\<rparr>,
     case child s of None \<Rightarrow> tasks | Some p \<Rightarrow> tasks @ [p]))"

definition add_to_reaper :: "process \<Rightarrow> process list \<Rightarrow> process list" where
  "add_to_reaper p tasks = tasks @ [p]"

definition reset_status :: "bool \<Rightarrow> terminal_service \<Rightarrow> terminal_service" where
  "reset_status persistent svc =
    svc\<lparr>is_persistent := persistent, needs_session_sync := True,
        sessions := map (\<lambda>(i, s). (i, s\<lparr>is_opened := False\<rparr>)) (sessions svc)\<rparr>"

definition list_terminals :: "terminal_service \<Rightarrow> (int \<times> string \<times> u32) list" where
  "list_terminals svc = map (\<lambda>(i, s). (i, title s, pid s)) (sessions svc)"

definition get_terminal_buffer :: "terminal_service \<Rightarrow> int \<Rightarrow> nat \<Rightarrow> bytes option" where
  "get_terminal_buffer svc i n = map_option (\<lambda>s. get_recent n (output_buffer s)) (map_of (sessions svc) i)"

definition get_terminal_info :: "terminal_service \<Rightarrow> int \<Rightarrow> (u16 \<times> u16 \<times> bytes) option" where
  "get_terminal_info svc i =
    map_option (\<lambda>s. (rows s, cols s, get_recent 4096 (output_buffer s))) (map_of (sessions svc) i)"

definition has_active_terminals :: "terminal_service \<Rightarrow> bool" where
  "has_active_terminals svc \<longleftrightarrow> sessions svc \<noteq> []"

section \<open>The registry\<close>

definition get_service :: "string \<Rightarrow> terminals \<Rightarrow> terminal_service option" where
  "get_service sid st = map_of (services st) sid"

definition put_service :: "string \<Rightarrow> terminal_service \<Rightarrow> terminals \<Rightarrow> terminals" where
  "put_service sid svc st = st\<lparr>services := AList.update sid svc (services st)\<rparr>"

definition get_or_create_service ::
  "nat \<Rightarrow> string \<Rightarrow> bool \<Rightarrow> bool \<Rightarrow> terminals \<Rightarrow> (string + terminal_service) \<times> terminals" where
  "get_or_create_service now sid persistent specified st =
    (if get_service sid st = None \<and> length (services st) \<ge> MAX_SERVICES then
       (Inl (''Maximum number of terminal services ('' @ show_nat MAX_SERVICES @ '') reached''), st)
     else
       let svc = (case get_service sid st of Some svc \<Rightarrow> svc | None \<Rightarrow> new_service now sid persistent specified);
           svc = reset_status persistent svc
       in (Inr svc, put_service sid svc st))"

definition stop_all :: "(int \<times> terminal_session) list \<Rightarrow> process list \<Rightarrow> process list" where
  "stop_all ss tasks = foldl (\<lambda>tasks (i, s). snd (stop (s, tasks))) tasks ss"

definition remove_service :: "string \<Rightarrow> terminals \<Rightarrow> terminals" where
  "remove_service sid st =
    (case get_service sid st of
       None \<Rightarrow> st
     | Some svc \<Rightarrow> st\<lparr>services := AList.delete sid (services st), reaper := stop_all (sessions svc) (reaper st)\<rparr>)"

definition list_services :: "terminals \<Rightarrow> (string \<times> nat \<times> bool) list" where
  "list_services st = map (\<lambda>(sid, svc). (sid, length (sessions svc), is_persistent svc)) (services st)"

definition is_service_specified_user :: "string \<Rightarrow> terminals \<Rightarrow> bool option" where
  "is_service_specified_user sid st = map_option is_specified_user (get_service sid st)"

definition set_persistent :: "string \<Rightarrow> bool \<Rightarrow> terminals \<Rightarrow> (string + unit) \<times> terminals" where
  "set_persistent sid persistent st =
    (case get_service sid st of
       Some svc \<Rightarrow> (Inr (), put_service sid (svc\<lparr>is_persistent := persistent\<rparr>) st)
     | None \<Rightarrow> (Inl (''Service '' @ sid @ '' not found''), st))"

definition idle_service :: "nat \<Rightarrow> terminal_service \<Rightarrow> bool" where
  "idle_service now svc \<longleftrightarrow>
    \<not> is_persistent svc \<and> now - svc_last_activity svc > SERVICE_IDLE_TIMEOUT \<or>
    is_persistent svc \<and> sessions svc = [] \<and> now - svc_last_activity svc > SERVICE_IDLE_TIMEOUT * 2"

definition cleanup_inactive_services :: "nat \<Rightarrow> terminals \<Rightarrow> terminals" where
  "cleanup_inactive_services now st =
    foldl (\<lambda>st sid. remove_service sid st) st
      (map fst (filter (\<lambda>(sid, svc). idle_service now svc) (services st)))"

datatype wait_result = Exited int | Running | WaitError

text \<open>The reaper's loop over the task list by index.\<close>

function reap_from :: "(process \<Rightarrow> wait_result) \<Rightarrow> process list \<Rightarrow> nat \<Rightarrow> process list" where
  "reap_from try_wait tasks i =
    (if i < length tasks then
       (case try_wait (tasks ! i) of
          Running \<Rightarrow> reap_from try_wait tasks (i + 1)
        | _ \<Rightarrow> reap_from try_wait (take i tasks @ drop (i + 1) tasks) i)
     else tasks)"
  by pat_completeness auto
termination by (relation "measure (\<lambda>(w, tasks, i). length tasks - i)") auto

declare reap_from.simps [simp del]

definition check_zombie_terminals :: "(process \<Rightarrow> wait_result) \<Rightarrow> terminals \<Rightarrow> terminals" where
  "check_zombie_terminals try_wait st = st\<lparr>reaper := reap_from try_wait (reaper st) 0\<rparr>"

definition get_terminal_session_count :: "bool \<Rightarrow> terminals \<Rightarrow> nat" where
  "get_terminal_session_count include_zombies st =
    length (services st) + (if include_zombies then length (reaper st) else 0)"

section \<open>The proxy of a connection\<close>

record proxy =
  px_service_id :: string
  px_persistent :: bool

definition new_proxy :: "string \<Rightarrow> bool option \<Rightarrow> terminals \<Rightarrow> proxy" where
  "new_proxy sid persistent st =
    \<lparr>px_service_id = sid,
     px_persistent = (case persistent of Some b \<Rightarrow> b
       | None \<Rightarrow> (case get_service sid st of Some svc \<Rightarrow> is_persistent svc | None \<Rightarrow> False))\<rparr>"

text \<open>
  Spawning the shell: nothing was started; or it was, but the writer or the reader of its pseudo-terminal could not
  be had, and the handle of the child is dropped with the error; or the child and its process id.
\<close>

datatype spawn_result = NotStarted string | Dropped process string | Started process u32

definition handle_open ::
  "nat \<Rightarrow> spawn_result \<Rightarrow> proxy \<Rightarrow> int \<Rightarrow> u32 \<Rightarrow> u32 \<Rightarrow> terminal_service
   \<Rightarrow> (string + TerminalResponse option) \<times> terminal_service" where
  "handle_open now spawned px i r c svc =
    (case map_of (sessions svc) i of
       Some s \<Rightarrow>
         (Inr (Some (Opened i ''Reconnected to existing terminal'' (pid s) (px_service_id px)
            (if needs_session_sync svc \<and> length (sessions svc) > 1
             then filter (\<lambda>j. j \<noteq> i) (map fst (sessions svc)) else []))),
          svc\<lparr>sessions := AList.update i (s\<lparr>is_opened := True\<rparr>) (sessions svc), needs_session_sync := False\<rparr>)
     | None \<Rightarrow>
         (case spawned of
            NotStarted err \<Rightarrow> (Inl err, svc)
          | Dropped _ err \<Rightarrow> (Inl err, svc)
          | Started p n \<Rightarrow>
              let s = (new_session now i (ucast r) (ucast c))\<lparr>pid := n, pty_pair := True, child := Some p,
                        input_tx := Some [], output_rx := Some [], reader_thread := Some False,
                        writer_thread := Some False, is_opened := True\<rparr>
              in (Inr (Some (Opened i ''Terminal opened'' n (service_id svc)
                    (if needs_session_sync svc then map fst (sessions svc) else []))),
                  svc\<lparr>sessions := AList.update i s (sessions svc), needs_session_sync := False\<rparr>)))"

text \<open>The pseudo-terminal may refuse the size (\<open>resized\<close> is its error).\<close>

definition handle_resize ::
  "nat \<Rightarrow> string option \<Rightarrow> int \<Rightarrow> u32 \<Rightarrow> u32 \<Rightarrow> terminal_service
   \<Rightarrow> (string + TerminalResponse option) \<times> terminal_service" where
  "handle_resize now resized i r c svc =
    (case map_of (sessions svc) i of
       None \<Rightarrow> (Inr None, svc)
     | Some s \<Rightarrow>
         (case (if pty_pair s then resized else None) of Some err \<Rightarrow> Inl err | None \<Rightarrow> Inr None,
          svc\<lparr>sessions := AList.update i (s\<lparr>last_activity := now, rows := ucast r, cols := ucast c\<rparr>) (sessions svc)\<rparr>))"

definition handle_data ::
  "nat \<Rightarrow> int \<Rightarrow> bytes \<Rightarrow> terminal_service \<Rightarrow> (string + TerminalResponse option) \<times> terminal_service" where
  "handle_data now i d svc =
    (case map_of (sessions svc) i of
       None \<Rightarrow> (Inr None, svc)
     | Some s \<Rightarrow>
         (Inr None,
          svc\<lparr>sessions := AList.update i
            (s\<lparr>last_activity := now,
               input_tx := (case input_tx s of Some q \<Rightarrow>
                   (if writer_thread s = Some False then Some (q @ [d]) else Some q) | None \<Rightarrow> None)\<rparr>) (sessions svc)\<rparr>))"

text \<open>A closed session is taken out of the service and dropped, which stops it.\<close>

definition handle_close ::
  "(process \<Rightarrow> string option) \<Rightarrow> int \<Rightarrow> terminal_service \<times> process list
   \<Rightarrow> (string + TerminalResponse option) \<times> terminal_service \<times> process list" where
  "handle_close kill i = (\<lambda>(svc, tasks).
    (case map_of (sessions svc) i of
       None \<Rightarrow> (Inr None, svc, tasks)
     | Some s \<Rightarrow>
         let svc = svc\<lparr>sessions := AList.delete i (sessions svc)\<rparr> in
         (case child s of
            Some p \<Rightarrow>
              (case kill p of
                 Some err \<Rightarrow> (Inl err, svc, snd (stop (s\<lparr>child := None\<rparr>, tasks)))
               | None \<Rightarrow> (Inr (Some (Closed i (-1))), svc, snd (stop (s\<lparr>child := None\<rparr>, add_to_reaper p tasks))))
          | None \<Rightarrow> (Inr (Some (Closed i 0)), svc, snd (stop (s, tasks))))))"

text \<open>What the outside world answers to one action.\<close>

record pty_answer =
  spawned :: spawn_result
  resized :: "string option"
  kill :: "process \<Rightarrow> string option"

definition handle_action ::
  "nat \<Rightarrow> pty_answer \<Rightarrow> proxy \<Rightarrow> TerminalAction \<Rightarrow> terminals
   \<Rightarrow> (string + TerminalResponse option) \<times> terminals" where
  "handle_action now env px action st =
    (case get_service (px_service_id px) st of
       None \<Rightarrow> (Inr (Some (Error (''Terminal service '' @ px_service_id px @ '' not found''))), st)
     | Some svc \<Rightarrow>
         let svc = svc\<lparr>svc_last_activity := now\<rparr> in
         (case action of
            OpenTerminal i r c \<Rightarrow>
              let (res, svc) = handle_open now (spawned env) px i r c svc
              in (res, put_service (px_service_id px) svc st)
          | ResizeTerminal i r c \<Rightarrow>
              let (res, svc) = handle_resize now (resized env) i r c svc
              in (res, put_service (px_service_id px) svc st)
          | TerminalData i d \<Rightarrow>
              let (res, svc) = handle_data now i d svc
              in (res, put_service (px_service_id px) svc st)
          | CloseTerminal i \<Rightarrow>
              let (res, svc, tasks) = handle_close (kill env) i (svc, reaper st)
              in (res, (put_service (px_service_id px) svc st)\<lparr>reaper := tasks\<rparr>)))"

subsection \<open>Reading the output of all terminals\<close>

text \<open>The loop of the reader thread, for one result of \<open>read\<close>: an empty one is the end of the stream.\<close>

definition reader_read :: "bytes \<Rightarrow> terminal_session \<Rightarrow> terminal_session" where
  "reader_read buf s =
    (if reader_thread s \<noteq> Some False then s
     else if buf = [] \<or> exiting s then s\<lparr>reader_thread := Some True\<rparr>
     else (case output_rx s of
             None \<Rightarrow> s\<lparr>reader_thread := Some True\<rparr>
           | Some q \<Rightarrow> if length q < CHANNEL_BUFFER_SIZE then s\<lparr>output_rx := Some (q @ [buf])\<rparr> else s))"

text \<open>The loop of the writer thread, for one message; \<open>ok\<close> is the result of \<open>write_all\<close>.\<close>

definition writer_write :: "bool \<Rightarrow> terminal_session \<Rightarrow> terminal_session" where
  "writer_write ok s =
    (if writer_thread s \<noteq> Some False then s
     else (case input_tx s of
             Some (d # q) \<Rightarrow> s\<lparr>input_tx := Some q, writer_thread := Some (\<not> ok)\<rparr>
           | _ \<Rightarrow> s))"

definition data_response :: "(bytes \<Rightarrow> bytes) \<Rightarrow> int \<Rightarrow> bytes \<Rightarrow> TerminalResponse" where
  "data_response compress i d =
    (if length d > COMPRESS_THRESHOLD then
       let compressed = compress d in
       if length compressed < length d then Data i compressed True else Data i d False
     else Data i d False)"

fun append_chunks :: "bytes list \<Rightarrow> output_buffer \<Rightarrow> output_buffer option" where
  "append_chunks [] b = Some b"
| "append_chunks (d # ds) b = (case buf_append d b of None \<Rightarrow> None | Some b' \<Rightarrow> append_chunks ds b')"

text \<open>One session: its new state, the data to send, and whether its terminal has closed. \<^const>\<open>None\<close> when
  the scrollback never returns.\<close>

definition read_session ::
  "nat \<Rightarrow> (bytes \<Rightarrow> bytes) \<Rightarrow> bool \<Rightarrow> int \<Rightarrow> terminal_session
   \<Rightarrow> (terminal_session \<times> TerminalResponse list \<times> bool) option" where
  "read_session now compress locked i s =
    (if locked then Some (s, [], False)
     else
       let should_send_closed = (\<not> closed_message_sent s \<and> reader_thread s = Some True);
           s = (if should_send_closed then s\<lparr>closed_message_sent := True\<rparr> else s)
       in if \<not> is_opened s then Some (s, [], should_send_closed)
          else
            let received = (case output_rx s of None \<Rightarrow> [] | Some q \<Rightarrow> q);
                s = s\<lparr>output_rx := map_option (\<lambda>_. []) (output_rx s)\<rparr>
            in (case append_chunks received (output_buffer s) of
                  None \<Rightarrow> None
                | Some b \<Rightarrow>
                    Some (s\<lparr>output_buffer := b, last_activity := (if received \<noteq> [] then now else last_activity s)\<rparr>,
                          map (data_response compress i) received, should_send_closed)))"

fun read_sessions ::
  "nat \<Rightarrow> (bytes \<Rightarrow> bytes) \<Rightarrow> (int \<Rightarrow> bool) \<Rightarrow> (int \<times> terminal_session) list
   \<Rightarrow> ((int \<times> terminal_session) list \<times> TerminalResponse list \<times> int list) option" where
  "read_sessions now compress locked [] = Some ([], [], [])"
| "read_sessions now compress locked ((i, s) # ss) =
    (case read_session now compress (locked i) i s of
       None \<Rightarrow> None
     | Some (s', out, closed) \<Rightarrow>
         (case read_sessions now compress locked ss of
            None \<Rightarrow> None
          | Some (ss', outs, closeds) \<Rightarrow>
              Some ((i, s') # ss', out @ outs, (if closed then i # closeds else closeds))))"

definition exit_code_of :: "(process \<Rightarrow> wait_result) \<Rightarrow> process option \<Rightarrow> int" where
  "exit_code_of try_wait c =
    (case c of Some p \<Rightarrow> (case try_wait p of Exited code \<Rightarrow> code | _ \<Rightarrow> 0) | None \<Rightarrow> 0)"

definition reap_child :: "terminal_session \<Rightarrow> process list \<Rightarrow> process list" where
  "reap_child s tasks = (case child s of Some p \<Rightarrow> add_to_reaper p tasks | None \<Rightarrow> tasks)"

definition close_terminal ::
  "(process \<Rightarrow> wait_result) \<Rightarrow> bool \<Rightarrow> int \<Rightarrow> (int \<times> terminal_session) list \<times> process list
   \<Rightarrow> TerminalResponse \<times> (int \<times> terminal_session) list \<times> process list" where
  "close_terminal try_wait persistent i = (\<lambda>(ss, tasks).
    (case map_of ss i of
       None \<Rightarrow> (Closed i 0, ss, tasks)
     | Some s \<Rightarrow>
         (Closed i (exit_code_of try_wait (child s)),
          if \<not> persistent then AList.delete i ss else AList.update i (s\<lparr>child := None\<rparr>) ss,
          if \<not> persistent then snd (stop (s\<lparr>child := None\<rparr>, reap_child s tasks)) else reap_child s tasks)))"

fun close_terminals ::
  "(process \<Rightarrow> wait_result) \<Rightarrow> bool \<Rightarrow> int list \<Rightarrow> (int \<times> terminal_session) list \<times> process list
   \<Rightarrow> TerminalResponse list \<times> (int \<times> terminal_session) list \<times> process list" where
  "close_terminals try_wait persistent [] x = ([], x)"
| "close_terminals try_wait persistent (i # is) x =
    (let (r, x) = close_terminal try_wait persistent i x;
         (rs, x) = close_terminals try_wait persistent is x
     in (r # rs, x))"

definition read_outputs ::
  "nat \<Rightarrow> (bytes \<Rightarrow> bytes) \<Rightarrow> (int \<Rightarrow> bool) \<Rightarrow> (process \<Rightarrow> wait_result) \<Rightarrow> proxy \<Rightarrow> terminals
   \<Rightarrow> (TerminalResponse list \<times> terminals) option" where
  "read_outputs now compress locked try_wait px st =
    (case get_service (px_service_id px) st of
       None \<Rightarrow> Some ([], st)
     | Some svc \<Rightarrow>
         (case read_sessions now compress locked (sessions svc) of
            None \<Rightarrow> None
          | Some (ss, out, closed) \<Rightarrow>
              let (msgs, ss, tasks) = close_terminals try_wait (px_persistent px) closed (ss, reaper st)
              in Some (out @ msgs, (put_service (px_service_id px) (svc\<lparr>sessions := ss\<rparr>) st)\<lparr>reaper := tasks\<rparr>)))"

definition on_disconnect :: "proxy \<Rightarrow> terminals \<Rightarrow> terminals" where
  "on_disconnect px st = (if \<not> px_persistent px then remove_service (px_service_id px) st else st)"

section \<open>Sums over association lists\<close>

definition total :: "('v \<Rightarrow> 'm::cancel_comm_monoid_add) \<Rightarrow> ('k \<times> 'v) list \<Rightarrow> 'm" where
  "total f xs = sum_list (map (\<lambda>(k, v). f v) xs)"

definition at_key :: "('v \<Rightarrow> 'm::cancel_comm_monoid_add) \<Rightarrow> ('k \<times> 'v) list \<Rightarrow> 'k \<Rightarrow> 'm" where
  "at_key f xs k = (case map_of xs k of None \<Rightarrow> 0 | Some v \<Rightarrow> f v)"

lemma total_simps [simp]: "total f [] = 0" "total f ((k, v) # xs) = f v + total f xs"
  by (simp_all add: total_def)

lemma at_key_simps [simp]: "at_key f [] k = 0" "at_key f ((k', v) # xs) k = (if k = k' then f v else at_key f xs k)"
  by (simp_all add: at_key_def)

lemma total_update: "total f (AList.update k v xs) + at_key f xs k = total f xs + f v"
  by (induction xs) (auto simp: ac_simps)

lemma total_delete:
  "distinct (map fst xs) \<Longrightarrow> total f (AList.delete k xs) + at_key f xs k = total f xs"
proof (induction xs)
  case (Cons x xs)
  obtain k' v where x: "x = (k', v)" by force
  show ?case
  proof (cases "k = k'")
    case True
    with Cons.prems x have "k \<notin> fst ` set xs" by force
    moreover from this have "map_of xs k = None" by (simp add: map_of_eq_None_iff)
    ultimately have "AList.delete k xs = xs" "at_key f xs k = 0"
      by (simp_all add: delete_idem at_key_def)
    with True x show ?thesis by (simp add: ac_simps)
  next
    case False
    with Cons x show ?thesis by (simp add: ac_simps)
  qed
qed simp

lemma length_update_present: "map_of xs k \<noteq> None \<Longrightarrow> length (AList.update k v xs) = length xs"
  by (induction xs) auto

lemma length_update_absent: "map_of xs k = None \<Longrightarrow> length (AList.update k v xs) = Suc (length xs)"
  by (induction xs) (auto split: if_splits)

lemma length_delete_le: "length (AList.delete k xs) \<le> length xs"
  by (induction xs) auto

section \<open>Invariant and process accounting\<close>

definition service_ok :: "terminal_service \<Rightarrow> bool" where
  "service_ok svc \<longleftrightarrow> distinct (map fst (sessions svc))"

definition terminals_ok :: "terminals \<Rightarrow> bool" where
  "terminals_ok st \<longleftrightarrow>
    distinct (map fst (services st)) \<and> length (services st) \<le> MAX_SERVICES \<and>
    list_all (\<lambda>(k, svc). service_ok svc) (services st)"

definition no_terminals :: terminals where
  "no_terminals = \<lparr>services = [], reaper = []\<rparr>"

text \<open>Every process is a child of one session or waits in the reaper's list.\<close>

definition child_of :: "terminal_session \<Rightarrow> process multiset" where
  "child_of s = (case child s of None \<Rightarrow> {#} | Some p \<Rightarrow> {#p#})"

definition procs_in :: "terminal_service \<Rightarrow> process multiset" where
  "procs_in svc = total child_of (sessions svc)"

definition procs :: "terminals \<Rightarrow> process multiset" where
  "procs st = mset (reaper st) + total procs_in (services st)"

lemma child_of_simps [simp]:
  "child s = None \<Longrightarrow> child_of s = {#}" "child s = Some p \<Longrightarrow> child_of s = {#p#}"
  by (simp_all add: child_of_def)

lemma terminals_ok_get:
  "terminals_ok st \<Longrightarrow> get_service k st = Some svc \<Longrightarrow> service_ok svc"
  by (auto simp: terminals_ok_def get_service_def list_all_iff dest!: map_of_SomeD)

lemma terminals_ok_put [wf_intros]:
  "terminals_ok st \<Longrightarrow> service_ok svc \<Longrightarrow> get_service k st \<noteq> None \<or> length (services st) < MAX_SERVICES \<Longrightarrow>
   terminals_ok (put_service k svc st)"
  by (cases "get_service k st = None")
    (auto simp: terminals_ok_def put_service_def get_service_def list_all_iff distinct_update
      length_update_present length_update_absent dest: values_update)

lemma terminals_ok_reaper [simp]: "terminals_ok (st\<lparr>reaper := tasks\<rparr>) = terminals_ok st"
  by (simp add: terminals_ok_def)

lemma procs_put:
  "get_service k st = Some svc \<Longrightarrow> procs (put_service k svc' st) + procs_in svc = procs st + procs_in svc'"
  using total_update[of procs_in k svc' "services st"]
  by (simp add: procs_def put_service_def get_service_def at_key_def ac_simps)

lemma procs_put_new:
  "get_service k st = None \<Longrightarrow> procs (put_service k svc' st) = procs st + procs_in svc'"
  using total_update[of procs_in k svc' "services st"]
  by (simp add: procs_def put_service_def get_service_def at_key_def ac_simps)

lemma procs_put_same:
  "get_service k st = Some svc \<Longrightarrow> procs_in svc' = procs_in svc \<Longrightarrow> procs (put_service k svc' st) = procs st"
  using procs_put[of k st svc svc'] by simp

lemma stop_procs [simp]: "mset (snd (stop (s, tasks))) = mset tasks + child_of s"
  by (cases "child s") (simp_all add: stop_def)

lemma stop_all_procs [simp]: "mset (stop_all ss tasks) = mset tasks + total child_of ss"
proof -
  have "mset (foldl (\<lambda>tasks (i, s). snd (stop (s, tasks))) tasks ss) = mset tasks + total child_of ss"
    by (induction ss arbitrary: tasks) (auto simp: ac_simps)
  then show ?thesis by (simp add: stop_all_def)
qed

lemma reset_status_ok [simp]:
  "service_ok (reset_status p svc) = service_ok svc" "procs_in (reset_status p svc) = procs_in svc"
  "map fst (sessions (reset_status p svc)) = map fst (sessions svc)"
proof -
  show keys: "map fst (sessions (reset_status p svc)) = map fst (sessions svc)"
    by (simp add: reset_status_def case_prod_beta)
  then show "service_ok (reset_status p svc) = service_ok svc" by (simp add: service_ok_def)
  have "total child_of (map (\<lambda>(i, s). (i, s\<lparr>is_opened := False\<rparr>)) ss) = total child_of ss" for ss :: "(int \<times> terminal_session) list"
    by (induction ss) (auto simp: child_of_def)
  then show "procs_in (reset_status p svc) = procs_in svc" by (simp add: procs_in_def reset_status_def)
qed

lemma new_service_ok [simp]: "service_ok (new_service now k p q)" "procs_in (new_service now k p q) = {#}"
  by (simp_all add: new_service_def service_ok_def procs_in_def)

subsection \<open>Each operation\<close>

lemma get_or_create_ok:
  assumes "terminals_ok st" and "get_or_create_service now k p q st = (r, st')"
  shows "terminals_ok st' \<and> procs st' = procs st"
proof (cases "get_service k st")
  case None
  with assms show ?thesis
    by (auto simp: get_or_create_service_def Let_def not_le procs_put_new intro!: terminals_ok_put split: if_splits)
next
  case (Some svc)
  with assms show ?thesis
    using terminals_ok_get[OF assms(1) Some]
    by (auto simp: get_or_create_service_def Let_def intro!: terminals_ok_put procs_put_same)
qed

lemma remove_service_ok:
  assumes "terminals_ok st"
  shows "terminals_ok (remove_service k st) \<and> procs (remove_service k st) = procs st"
proof (cases "get_service k st")
  case (Some svc)
  have "terminals_ok (remove_service k st)"
    using assms Some length_delete_le[of k "services st"]
    by (auto simp: remove_service_def terminals_ok_def list_all_iff distinct_delete dest: values_delete)
  moreover have "procs (remove_service k st) = procs st"
    using assms Some total_delete[of "services st" procs_in k]
    by (simp add: remove_service_def terminals_ok_def procs_def get_service_def at_key_def procs_in_def ac_simps)
  ultimately show ?thesis by simp
qed (use assms in \<open>simp add: remove_service_def\<close>)

lemma cleanup_ok:
  assumes "terminals_ok st"
  shows "terminals_ok (cleanup_inactive_services now st) \<and> procs (cleanup_inactive_services now st) = procs st"
proof -
  have "terminals_ok (foldl (\<lambda>st k. remove_service k st) st ks) \<and>
      procs (foldl (\<lambda>st k. remove_service k st) st ks) = procs st" for ks
    using assms by (induction ks arbitrary: st) (simp_all add: remove_service_ok)
  then show ?thesis by (simp add: cleanup_inactive_services_def)
qed

lemma set_persistent_ok:
  assumes "terminals_ok st" and "set_persistent k p st = (r, st')"
  shows "terminals_ok st' \<and> procs st' = procs st"
proof (cases "get_service k st")
  case (Some svc)
  have "service_ok (svc\<lparr>is_persistent := p\<rparr>)" "procs_in (svc\<lparr>is_persistent := p\<rparr>) = procs_in svc"
    using terminals_ok_get[OF assms(1) Some] by (simp_all add: service_ok_def procs_in_def)
  with assms Some show ?thesis by (auto simp: set_persistent_def intro!: terminals_ok_put procs_put_same)
qed (use assms in \<open>simp add: set_persistent_def\<close>)

lemma reap_from_filter:
  "reap_from w tasks i = take i tasks @ filter (\<lambda>p. w p = Running) (drop i tasks)"
proof (induction w tasks i rule: reap_from.induct)
  case (1 w tasks i)
  show ?case
  proof (cases "i < length tasks")
    case True
    then have split: "drop i tasks = tasks ! i # drop (i + 1) tasks" "take (i + 1) tasks = take i tasks @ [tasks ! i]"
      by (simp_all add: Cons_nth_drop_Suc take_Suc_conv_app_nth)
    show ?thesis
    proof (cases "w (tasks ! i) = Running")
      case running: True
      then show ?thesis using 1 True split by (subst reap_from.simps) simp
    next
      case False
      then have "reap_from w tasks i = reap_from w (take i tasks @ drop (i + 1) tasks) i"
        using True by (subst reap_from.simps) (auto split: wait_result.split)
      also have "\<dots> = take i tasks @ filter (\<lambda>p. w p = Running) (drop (i + 1) tasks)"
        using 1 True False by (cases "w (tasks ! i)") auto
      finally show ?thesis using False split by simp
    qed
  qed (subst reap_from.simps, simp)
qed

lemma zombies_ok:
  "terminals_ok st \<Longrightarrow> terminals_ok (check_zombie_terminals w st) \<and> procs (check_zombie_terminals w st) \<subseteq># procs st"
  by (simp add: check_zombie_terminals_def procs_def reap_from_filter multiset_filter_subset)

lemma update_session_ok:
  assumes "service_ok svc" and "map_of (sessions svc) i = Some s" and "child s' = child s"
  shows "service_ok (svc\<lparr>sessions := AList.update i s' (sessions svc)\<rparr>)"
    and "procs_in (svc\<lparr>sessions := AList.update i s' (sessions svc)\<rparr>) = procs_in svc"
  using assms total_update[of child_of i s' "sessions svc"]
  by (simp_all add: service_ok_def distinct_update procs_in_def at_key_def child_of_def)

text \<open>The processes that an action brings into the model: the shell of a terminal that did not exist.\<close>

definition new_procs :: "spawn_result \<Rightarrow> int \<Rightarrow> terminal_service \<Rightarrow> process multiset" where
  "new_procs res i svc =
    (case map_of (sessions svc) i of
       Some _ \<Rightarrow> {#}
     | None \<Rightarrow> (case res of Started p _ \<Rightarrow> {#p#} | _ \<Rightarrow> {#}))"

text \<open>A shell that was started before the error is nobody's: it is neither a terminal's nor waited for.\<close>

lemma shell_of_failed_open_lost:
  "map_of (sessions svc) i = None \<Longrightarrow> handle_open now (Dropped p err) px i r c svc = (Inl err, svc)"
  by (simp add: handle_open_def)

lemma handle_open_ok:
  assumes "service_ok svc" and "handle_open now res px i r c svc = (out, svc')"
  shows "service_ok svc' \<and> procs_in svc' = procs_in svc + new_procs res i svc"
proof (cases "map_of (sessions svc) i")
  case (Some s)
  let ?svc = "svc\<lparr>needs_session_sync := False\<rparr>"
  have "service_ok ?svc" "map_of (sessions ?svc) i = Some s" "procs_in ?svc = procs_in svc"
    using assms(1) Some by (simp_all add: service_ok_def procs_in_def)
  with update_session_ok[of ?svc i s "s\<lparr>is_opened := True\<rparr>"] assms(2) Some show ?thesis
    by (auto simp: handle_open_def new_procs_def service_ok_def procs_in_def)
next
  case None
  show ?thesis
  proof (cases res)
    case (Started p n)
    let ?s = "(new_session now i (ucast r) (ucast c))\<lparr>pid := n, pty_pair := True, child := Some p,
      input_tx := Some [], output_rx := Some [], reader_thread := Some False,
      writer_thread := Some False, is_opened := True\<rparr>"
    have "svc' = svc\<lparr>sessions := AList.update i ?s (sessions svc), needs_session_sync := False\<rparr>"
      using assms(2) None Started by (simp add: handle_open_def Let_def)
    then show ?thesis
      using assms(1) None Started total_update[of child_of i ?s "sessions svc"]
      by (simp add: service_ok_def distinct_update procs_in_def new_procs_def at_key_def)
  qed (use assms None in \<open>simp_all add: handle_open_def new_procs_def\<close>)
qed

lemma handle_resize_ok:
  assumes "service_ok svc" and "handle_resize now res i r c svc = (out, svc')"
  shows "service_ok svc' \<and> procs_in svc' = procs_in svc"
proof (cases "map_of (sessions svc) i")
  case (Some s)
  with assms update_session_ok[OF assms(1) Some, of "s\<lparr>last_activity := now, rows := ucast r, cols := ucast c\<rparr>"]
  show ?thesis by (auto simp: handle_resize_def)
qed (use assms in \<open>simp add: handle_resize_def\<close>)

lemma handle_data_ok:
  assumes "service_ok svc" and "handle_data now i d svc = (out, svc')"
  shows "service_ok svc' \<and> procs_in svc' = procs_in svc"
proof (cases "map_of (sessions svc) i")
  case (Some s)
  with assms obtain q where "svc' = svc\<lparr>sessions := AList.update i (s\<lparr>last_activity := now, input_tx := q\<rparr>) (sessions svc)\<rparr>"
    by (auto simp: handle_data_def)
  with update_session_ok[OF assms(1) Some, of "s\<lparr>last_activity := now, input_tx := q\<rparr>"]
  show ?thesis by simp
qed (use assms in \<open>simp add: handle_data_def\<close>)

text \<open>A child that cannot be killed is dropped with its session and never reaped.\<close>

definition lost_procs :: "(process \<Rightarrow> string option) \<Rightarrow> int \<Rightarrow> terminal_service \<Rightarrow> process multiset" where
  "lost_procs k i svc =
    (case map_of (sessions svc) i of
       None \<Rightarrow> {#}
     | Some s \<Rightarrow> (case child s of None \<Rightarrow> {#} | Some p \<Rightarrow> if k p = None then {#} else {#p#}))"

lemma lost_procs_cases:
  assumes "lost_procs k i svc \<noteq> {#}"
  shows "\<exists>s p. map_of (sessions svc) i = Some s \<and> child s = Some p \<and> k p \<noteq> None \<and> lost_procs k i svc = {#p#}"
  using assms by (cases "map_of (sessions svc) i"; cases "child (the (map_of (sessions svc) i))")
    (auto simp: lost_procs_def split: if_splits)

lemma handle_close_ok:
  assumes "service_ok svc" and "handle_close k i (svc, tasks) = (out, svc', tasks')"
  shows "service_ok svc' \<and> procs_in svc' + mset tasks' + lost_procs k i svc = procs_in svc + mset tasks"
proof (cases "map_of (sessions svc) i")
  case (Some s)
  have del: "total child_of (AList.delete i (sessions svc)) + child_of s = total child_of (sessions svc)"
    using assms(1) Some total_delete[of "sessions svc" child_of i]
    by (simp add: service_ok_def at_key_def)
  have both: "svc' = svc\<lparr>sessions := AList.delete i (sessions svc)\<rparr> \<and>
      mset tasks' + lost_procs k i svc = mset tasks + child_of s"
  proof (cases "child s")
    case None
    with assms(2) Some have "svc' = svc\<lparr>sessions := AList.delete i (sessions svc)\<rparr>" "tasks' = snd (stop (s, tasks))"
      by (simp_all add: handle_close_def Let_def)
    then show ?thesis using None Some by (simp add: lost_procs_def)
  next
    case child: (Some p)
    let ?tasks = "if k p = None then add_to_reaper p tasks else tasks"
    have "svc' = svc\<lparr>sessions := AList.delete i (sessions svc)\<rparr>" "tasks' = snd (stop (s\<lparr>child := None\<rparr>, ?tasks))"
      using assms(2) Some child by (cases "k p"; simp add: handle_close_def Let_def)+
    then show ?thesis using child Some by (simp add: lost_procs_def add_to_reaper_def)
  qed
  then have svc': "svc' = svc\<lparr>sessions := AList.delete i (sessions svc)\<rparr>"
    and lost: "mset tasks' + lost_procs k i svc = mset tasks + child_of s" by simp_all
  then have "procs_in svc' + mset tasks' + lost_procs k i svc = total child_of (AList.delete i (sessions svc)) + (mset tasks + child_of s)"
    by (simp add: svc' procs_in_def add.assoc lost)
  also have "\<dots> = procs_in svc + mset tasks"
    unfolding procs_in_def del[symmetric] by (simp add: ac_simps)
  finally show ?thesis using assms(1) by (simp add: svc' service_ok_def distinct_delete)
qed (use assms in \<open>simp add: handle_close_def lost_procs_def\<close>)

lemma read_session_child: "read_session now cp l i s = Some (s', out, c) \<Longrightarrow> child s' = child s"
  by (auto simp: read_session_def Let_def split: if_splits option.splits)

text \<open>The two recursive results behind a result for a non-empty list.\<close>

lemma read_sessions_ConsE:
  assumes "read_sessions now cp locked ((i, s) # ss) = Some (ss', out, closed)"
  obtains s' o1 c1 ss1 o2 c2 where "read_session now cp (locked i) i s = Some (s', o1, c1)"
    and "read_sessions now cp locked ss = Some (ss1, o2, c2)"
    and "ss' = (i, s') # ss1" and "out = o1 @ o2" and "closed = (if c1 then i # c2 else c2)"
proof -
  obtain r1 where r1: "read_session now cp (locked i) i s = Some r1"
    using assms by (cases "read_session now cp (locked i) i s") simp_all
  obtain s' o1 c1 where p1: "r1 = (s', o1, c1)" by (metis prod_cases3)
  obtain r2 where r2: "read_sessions now cp locked ss = Some r2"
    using assms r1 p1 by (cases "read_sessions now cp locked ss") simp_all
  obtain ss1 o2 c2 where p2: "r2 = (ss1, o2, c2)" by (metis prod_cases3)
  show thesis
    using assms r1 p1 r2 p2 by (intro that[of s' o1 c1 ss1 o2 c2]) simp_all
qed

lemma read_sessions_ok:
  "read_sessions now cp locked ss = Some (ss', out, closed) \<Longrightarrow>
   map fst ss' = map fst ss \<and> total child_of ss' = total child_of ss"
proof (induction ss arbitrary: ss' out closed)
  case (Cons x ss)
  obtain i s where x: "x = (i, s)" by force
  from Cons.prems[unfolded x] show ?case
  proof (cases rule: read_sessions_ConsE)
    case (1 s' o1 c1 ss1 o2 c2)
    with Cons.IH[OF 1(2)] read_session_child[OF 1(1)] x show ?thesis by (simp add: child_of_def)
  qed
qed simp

lemma close_terminal_ok:
  assumes "distinct (map fst ss)" and "close_terminal w p i (ss, tasks) = (r, ss', tasks')"
  shows "distinct (map fst ss') \<and> total child_of ss' + mset tasks' = total child_of ss + mset tasks"
proof (cases "map_of ss i")
  case (Some s)
  have del: "total child_of (AList.delete i ss) + child_of s = total child_of ss"
    using assms(1) Some total_delete[of ss child_of i] by (simp add: at_key_def)
  have upd: "total child_of (AList.update i (s\<lparr>child := None\<rparr>) ss) + child_of s = total child_of ss"
    using Some total_update[of child_of i "s\<lparr>child := None\<rparr>" ss] by (simp add: at_key_def)
  have reap: "mset (reap_child s tasks) = mset tasks + child_of s"
    by (auto simp: reap_child_def add_to_reaper_def child_of_def split: option.split)
  show ?thesis
  proof (cases p)
    case True
    with assms Some upd reap show ?thesis
      by (auto simp: close_terminal_def distinct_update ac_simps)
  next
    case False
    with assms Some del reap show ?thesis
      by (auto simp: close_terminal_def distinct_delete ac_simps)
  qed
qed (use assms in \<open>simp add: close_terminal_def\<close>)

lemma close_terminals_ok:
  "distinct (map fst ss) \<Longrightarrow> close_terminals w p is (ss, tasks) = (rs, ss', tasks') \<Longrightarrow>
   distinct (map fst ss') \<and> total child_of ss' + mset tasks' = total child_of ss + mset tasks"
proof (induction "is" arbitrary: ss tasks rs)
  case (Cons i "is")
  obtain r ss1 tasks1 where step: "close_terminal w p i (ss, tasks) = (r, ss1, tasks1)" by (metis prod_cases3)
  with Cons.prems obtain rs1 where rest: "close_terminals w p is (ss1, tasks1) = (rs1, ss', tasks')"
    by (auto split: prod.splits)
  have "distinct (map fst ss1)" "total child_of ss1 + mset tasks1 = total child_of ss + mset tasks"
    using close_terminal_ok[OF Cons.prems(1) step] by simp_all
  with Cons.IH[OF _ rest] show ?case by simp
qed simp

lemma read_outputs_ok:
  assumes "terminals_ok st" and "read_outputs now cp locked w px st = Some (rs, st')"
  shows "terminals_ok st' \<and> procs st' = procs st"
proof (cases "get_service (px_service_id px) st")
  case (Some svc)
  with assms(2) obtain ss1 out closed where read: "read_sessions now cp locked (sessions svc) = Some (ss1, out, closed)"
    by (auto simp: read_outputs_def split: option.splits)
  obtain msgs ss2 tasks where close: "close_terminals w (px_persistent px) closed (ss1, reaper st) = (msgs, ss2, tasks)"
    by (metis prod_cases3)
  let ?svc = "svc\<lparr>sessions := ss2\<rparr>"
  have st': "st' = (put_service (px_service_id px) ?svc st)\<lparr>reaper := tasks\<rparr>"
    using assms(2) Some read close by (simp add: read_outputs_def Let_def)
  have "distinct (map fst ss1)" "total child_of ss1 = procs_in svc"
    using read_sessions_ok[OF read] terminals_ok_get[OF assms(1) Some] by (simp_all add: service_ok_def procs_in_def)
  with close_terminals_ok[OF _ close]
  have ok: "service_ok ?svc" and sum: "procs_in ?svc + mset tasks = procs_in svc + mset (reaper st)"
    by (simp_all add: service_ok_def procs_in_def)
  have "procs st' + mset (reaper st) + procs_in svc = procs (put_service (px_service_id px) ?svc st) + mset tasks + procs_in svc"
    by (simp add: st' procs_def put_service_def ac_simps)
  also have "\<dots> = procs st + (procs_in ?svc + mset tasks)"
    using procs_put[OF Some, of ?svc] by (simp add: ac_simps)
  also have "\<dots> = procs st + mset (reaper st) + procs_in svc" unfolding sum by (simp add: ac_simps)
  finally have "procs st' = procs st" by simp
  moreover have "terminals_ok st'"
    using terminals_ok_put[OF assms(1) ok, of "px_service_id px"] Some by (simp add: st')
  ultimately show ?thesis by simp
qed (use assms in \<open>simp add: read_outputs_def\<close>)

lemma handle_action_ok:
  assumes "terminals_ok st" and "handle_action now env px a st = (out, st')"
  shows "terminals_ok st' \<and>
    (\<exists>lost. procs st' + lost = procs st +
      (case get_service (px_service_id px) st of None \<Rightarrow> {#}
       | Some svc \<Rightarrow> (case a of OpenTerminal i _ _ \<Rightarrow> new_procs (spawned env) i svc | _ \<Rightarrow> {#})) \<and>
      (lost \<noteq> {#} \<longrightarrow> (\<exists>i svc. a = CloseTerminal i \<and> get_service (px_service_id px) st = Some svc \<and>
        lost = lost_procs (kill env) i svc)))"
proof (cases "get_service (px_service_id px) st")
  case (Some svc0)
  let ?k = "px_service_id px"
  define svc where "svc = svc0\<lparr>svc_last_activity := now\<rparr>"
  have same: "procs_in svc = procs_in svc0" "sessions svc = sessions svc0"
    by (simp_all add: svc_def procs_in_def)
  have ok: "service_ok svc"
    using terminals_ok_get[OF assms(1) Some] by (simp add: svc_def service_ok_def)
  have put: "terminals_ok (put_service ?k svc' st)" "procs (put_service ?k svc' st) + procs_in svc = procs st + procs_in svc'"
    if "service_ok svc'" for svc'
    using terminals_ok_put[OF assms(1) that, of ?k] procs_put[OF Some, of svc'] Some same by simp_all
  show ?thesis
  proof (cases a)
    case (OpenTerminal i r c)
    obtain o1 svc' where h: "handle_open now (spawned env) px i r c svc = (o1, svc')" by force
    have "st' = put_service ?k svc' st"
      using assms(2) Some OpenTerminal h by (simp add: handle_action_def svc_def)
    moreover have "new_procs (spawned env) i svc0 = new_procs (spawned env) i svc"
      by (simp add: new_procs_def same)
    ultimately show ?thesis
      using handle_open_ok[OF ok h] put[of svc'] OpenTerminal Some
      by (intro conjI exI[of _ "{#}"]) (simp_all add: ac_simps)
  next
    case (ResizeTerminal i r c)
    obtain o1 svc' where h: "handle_resize now (resized env) i r c svc = (o1, svc')" by force
    then have "st' = put_service ?k svc' st"
      using assms(2) Some ResizeTerminal by (simp add: handle_action_def svc_def)
    then show ?thesis
      using handle_resize_ok[OF ok h] put[of svc'] ResizeTerminal Some by (intro conjI exI[of _ "{#}"]) simp_all
  next
    case (TerminalData i d)
    obtain o1 svc' where h: "handle_data now i d svc = (o1, svc')" by force
    then have "st' = put_service ?k svc' st"
      using assms(2) Some TerminalData by (simp add: handle_action_def svc_def)
    then show ?thesis
      using handle_data_ok[OF ok h] put[of svc'] TerminalData Some by (intro conjI exI[of _ "{#}"]) simp_all
  next
    case (CloseTerminal i)
    obtain o1 svc' tasks where h: "handle_close (kill env) i (svc, reaper st) = (o1, svc', tasks)"
      by (metis prod_cases3)
    let ?put = "put_service ?k svc' st" and ?lost = "lost_procs (kill env) i svc"
    have st': "st' = ?put\<lparr>reaper := tasks\<rparr>"
      using assms(2) Some CloseTerminal h by (simp add: handle_action_def svc_def)
    have close: "service_ok svc'" "procs_in svc' + mset tasks + ?lost = procs_in svc + mset (reaper st)"
      using handle_close_ok[OF ok h] by simp_all
    have "procs st' + ?lost + (procs_in svc + mset (reaper st)) = procs ?put + procs_in svc + mset tasks + ?lost"
      by (simp add: st' procs_def put_service_def ac_simps)
    also have "\<dots> = procs st + (procs_in svc' + mset tasks + ?lost)"
      using put(2)[OF close(1)] by (simp add: ac_simps)
    also have "\<dots> = procs st + (procs_in svc + mset (reaper st))" unfolding close(2) ..
    finally have "procs st' + ?lost = procs st" by simp
    moreover have "?lost = lost_procs (kill env) i svc0" by (simp add: lost_procs_def same)
    ultimately show ?thesis
      using put(1)[OF close(1)] CloseTerminal Some
      by (intro conjI exI[of _ ?lost]) (simp_all add: st')
  qed
qed (use assms in \<open>simp add: handle_action_def\<close>)

section \<open>All steps\<close>

definition on_session :: "string \<Rightarrow> int \<Rightarrow> (terminal_session \<Rightarrow> terminal_session) \<Rightarrow> terminals \<Rightarrow> terminals" where
  "on_session k i f st =
    (case get_service k st of
       None \<Rightarrow> st
     | Some svc \<Rightarrow>
         (case map_of (sessions svc) i of
            None \<Rightarrow> st
          | Some s \<Rightarrow> put_service k (svc\<lparr>sessions := AList.update i (f s) (sessions svc)\<rparr>) st))"

lemma on_session_ok:
  assumes "terminals_ok st" and "\<And>s. child (f s) = child s"
  shows "terminals_ok (on_session k i f st) \<and> procs (on_session k i f st) = procs st"
proof (cases "get_service k st")
  case (Some svc)
  show ?thesis
  proof (cases "map_of (sessions svc) i")
    case s: (Some s)
    note upd = update_session_ok[OF terminals_ok_get[OF assms(1) Some] s assms(2)]
    then show ?thesis
      using assms(1) Some s by (auto simp: on_session_def intro!: terminals_ok_put procs_put_same)
  qed (use assms Some in \<open>simp add: on_session_def\<close>)
qed (use assms in \<open>simp add: on_session_def\<close>)

lemma reader_read_child [simp]: "child (reader_read buf s) = child s"
  by (simp add: reader_read_def split: option.split)

lemma writer_write_child [simp]: "child (writer_write ok s) = child s"
  by (simp add: writer_write_def split: option.split list.split)

text \<open>The operations of connections, of the cleanup thread and of the terminals' own threads, in any
  order. A spawned shell is a process not seen before.\<close>

inductive terminal_step :: "terminals \<Rightarrow> terminals \<Rightarrow> bool" where
  create: "get_or_create_service now k p q st = (r, st') \<Longrightarrow> terminal_step st st'"
| action: "(\<And>p n. spawned env = Started p n \<Longrightarrow> p \<notin># procs st) \<Longrightarrow>
    handle_action now env px a st = (out, st') \<Longrightarrow> terminal_step st st'"
| read: "read_outputs now cp locked w px st = Some (rs, st') \<Longrightarrow> terminal_step st st'"
| reader: "terminal_step st (on_session k i (reader_read buf) st)"
| writer: "terminal_step st (on_session k i (writer_write ok) st)"
| cleanup: "terminal_step st (cleanup_inactive_services now st)"
| zombies: "terminal_step st (check_zombie_terminals w st)"
| disconnect: "terminal_step st (on_disconnect px st)"
| persist: "set_persistent k p st = (r, st') \<Longrightarrow> terminal_step st st'"

inductive_cases terminal_stepE: "terminal_step st st'"

inductive reachable :: "terminals \<Rightarrow> bool" where
  start: "reachable no_terminals"
| step: "reachable st \<Longrightarrow> terminal_step st st' \<Longrightarrow> reachable st'"

definition no_duplicates :: "terminals \<Rightarrow> bool" where
  "no_duplicates st \<longleftrightarrow> (\<forall>p. count (procs st) p \<le> 1)"

lemma no_duplicates_subset: "no_duplicates st \<Longrightarrow> procs st' \<subseteq># procs st \<Longrightarrow> no_duplicates st'"
  unfolding no_duplicates_def by (meson mset_subset_eq_count order_trans)

lemma no_duplicates_action:
  assumes "no_duplicates st" and "terminals_ok st" and "handle_action now env px a st = (out, st')"
    and fresh: "\<And>p n. spawned env = Started p n \<Longrightarrow> p \<notin># procs st"
  shows "no_duplicates st'"
proof -
  define new where "new = (case get_service (px_service_id px) st of None \<Rightarrow> {#}
    | Some svc \<Rightarrow> (case a of OpenTerminal i _ _ \<Rightarrow> new_procs (spawned env) i svc | _ \<Rightarrow> {#}))"
  obtain lost where "procs st' + lost = procs st + new"
    using handle_action_ok[OF assms(2,3)] unfolding new_def by blast
  then have sub: "count (procs st') p \<le> count (procs st + new) p" for p
    by (metis mset_subset_eq_add_left mset_subset_eq_count)
  have "new = {#} \<or> (\<exists>p. new = {#p#} \<and> p \<notin># procs st)"
    using fresh by (auto simp: new_def new_procs_def split: option.splits TerminalAction.splits spawn_result.splits)
  then have "count (procs st + new) p \<le> 1" for p
    using assms(1) by (auto simp: no_duplicates_def not_in_iff split: if_splits)
  with sub show ?thesis unfolding no_duplicates_def by (meson order_trans)
qed

lemma terminal_step_ok:
  assumes "terminal_step st st'" and "terminals_ok st" and "no_duplicates st"
  shows "terminals_ok st' \<and> no_duplicates st'"
proof -
  have same: ?thesis if "terminals_ok st' \<and> procs st' = procs st"
    using that assms(3) unfolding no_duplicates_def by simp
  from assms(1) show ?thesis
  proof (cases rule: terminal_step.cases)
    case (action env now px a out)
    then show ?thesis
      using handle_action_ok[OF assms(2) action(2)] no_duplicates_action[OF assms(3,2) action(2)] by blast
  next
    case (zombies w)
    then show ?thesis using zombies_ok[OF assms(2), of w] no_duplicates_subset[OF assms(3)] by blast
  next
    case (disconnect px)
    then show ?thesis
      using remove_service_ok[OF assms(2)] assms(2) by (intro same) (simp add: on_disconnect_def)
  next
    case (reader k i buf)
    then show ?thesis by (intro same) (simp add: on_session_ok assms(2))
  next
    case (writer k i ok)
    then show ?thesis by (intro same) (simp add: on_session_ok assms(2))
  next
    case (cleanup now)
    then show ?thesis by (intro same) (simp add: cleanup_ok assms(2))
  qed (auto intro!: same dest: get_or_create_ok[OF assms(2)] read_outputs_ok[OF assms(2)] set_persistent_ok[OF assms(2)])
qed

section \<open>Lemmas on reading\<close>

definition marked :: "int \<Rightarrow> (int \<times> terminal_session) list \<Rightarrow> bool" where
  "marked i ss \<longleftrightarrow> (\<forall>s. (i, s) \<in> set ss \<longrightarrow> closed_message_sent s)"

lemma read_session_closed:
  assumes "read_session now cp l i s = Some (s', out, c)"
  shows "c \<longleftrightarrow> \<not> l \<and> \<not> closed_message_sent s \<and> reader_thread s = Some True"
    and "closed_message_sent s' = (closed_message_sent s \<or> c)"
  using assms by (auto simp: read_session_def Let_def split: if_splits option.splits)

lemma read_sessions_closed:
  "read_sessions now cp locked ss = Some (ss', out, closed) \<Longrightarrow> distinct (map fst ss) \<Longrightarrow>
   (i \<in> set closed \<longrightarrow> marked i ss' \<and> \<not> marked i ss) \<and> (marked i ss \<longrightarrow> marked i ss')"
proof (induction ss arbitrary: ss' out closed)
  case (Cons x ss)
  obtain j s where x: "x = (j, s)" by force
  from Cons.prems(1)[unfolded x] show ?case
  proof (cases rule: read_sessions_ConsE)
    case (1 s' o1 c1 ss1 o2 c2)
    have IH: "(i \<in> set c2 \<longrightarrow> marked i ss1 \<and> \<not> marked i ss) \<and> (marked i ss \<longrightarrow> marked i ss1)"
      using Cons.IH[OF 1(2)] Cons.prems(2) by simp
    have keys: "map fst ss1 = map fst ss" using read_sessions_ok[OF 1(2)] by simp
    note s' = read_session_closed[OF 1(1)]
    show ?thesis
    proof (cases "i = j")
      case True
      then have "j \<notin> fst ` set ss" "j \<notin> fst ` set ss1"
        using Cons.prems(2) x keys by (metis distinct.simps(2) fst_conv list.simps(9) set_map)+
      then have none: "marked i ss" "marked i ss1"
        using True by (force simp: marked_def)+
      then have "i \<notin> set c2" using IH by blast
      then show ?thesis
        using True none s' 1 x by (auto simp: marked_def)
    next
      case False
      then show ?thesis using IH 1 x by (auto simp: marked_def split: if_splits)
    qed
  qed
qed simp

lemma close_terminal_marked:
  assumes "marked i ss" and "close_terminal w p j (ss, tasks) = (r, ss', tasks')"
  shows "marked i ss'"
proof (cases "map_of ss j")
  case (Some s)
  then have "i = j \<Longrightarrow> closed_message_sent s" using assms(1) by (auto simp: marked_def dest: map_of_SomeD)
  moreover have "ss' = (if p then AList.update j (s\<lparr>child := None\<rparr>) ss else AList.delete j ss)"
    using assms(2) Some by (auto simp: close_terminal_def)
  ultimately show ?thesis
    using assms(1) by (cases p) (auto simp: marked_def dest: values_update values_delete)
qed (use assms in \<open>simp add: close_terminal_def\<close>)

lemma close_terminals_marked:
  "marked i ss \<Longrightarrow> close_terminals w p js (ss, tasks) = (rs, ss', tasks') \<Longrightarrow> marked i ss'"
proof (induction js arbitrary: ss tasks rs)
  case (Cons j js)
  obtain r ss1 tasks1 where step: "close_terminal w p j (ss, tasks) = (r, ss1, tasks1)" by (metis prod_cases3)
  with Cons.prems obtain rs1 where "close_terminals w p js (ss1, tasks1) = (rs1, ss', tasks')"
    by (auto split: prod.splits)
  with Cons.IH close_terminal_marked[OF Cons.prems(1) step] show ?case by blast
qed simp

lemma close_terminals_ids:
  "close_terminals w p js x = (rs, y) \<Longrightarrow> map (\<lambda>r. case r of Closed i _ \<Rightarrow> Some i | _ \<Rightarrow> None) rs = map Some js"
proof (induction js arbitrary: x rs)
  case (Cons j js)
  obtain ss tasks where x: "x = (ss, tasks)" by force
  obtain r z where step: "close_terminal w p j x = (r, z)" by (metis surj_pair)
  then have "\<exists>c. r = Closed j c" by (auto simp: x close_terminal_def split: option.splits)
  with Cons step show ?case by (fastforce split: prod.splits)
qed simp

lemma close_terminals_Closed: "close_terminals w p js x = (rs, y) \<Longrightarrow> Closed i c \<in> set rs \<Longrightarrow> i \<in> set js"
proof -
  assume "close_terminals w p js x = (rs, y)" "Closed i c \<in> set rs"
  then have "Some i \<in> set (map Some js)"
    unfolding close_terminals_ids[OF \<open>close_terminals w p js x = (rs, y)\<close>, symmetric] by force
  then show ?thesis by auto
qed

lemma data_response_not_Closed: "data_response cp i d \<noteq> Closed j c"
  by (simp add: data_response_def Let_def)

lemma read_sessions_no_Closed:
  "read_sessions now cp locked ss = Some (ss', out, closed) \<Longrightarrow> Closed i c \<notin> set out"
proof (induction ss arbitrary: ss' out closed)
  case (Cons x ss)
  obtain j s where x: "x = (j, s)" by force
  from Cons.prems[unfolded x] show ?case
  proof (cases rule: read_sessions_ConsE)
    case (1 s' o1 c1 ss1 o2 c2)
    have "Closed i c \<notin> set o1"
      using 1(1) data_response_not_Closed[of cp j _ i c]
      by (auto simp: read_session_def Let_def split: if_splits option.splits) metis+
    with 1 Cons.IH show ?thesis by simp
  qed
qed simp

text \<open>What \<open>read_outputs\<close> did, for a service that exists.\<close>

lemma read_outputsE:
  assumes "read_outputs now cp locked w px st = Some (rs, st')"
    and "get_service (px_service_id px) st = Some svc"
  obtains ss1 out closed msgs ss2 tasks where
    "read_sessions now cp locked (sessions svc) = Some (ss1, out, closed)"
    and "close_terminals w (px_persistent px) closed (ss1, reaper st) = (msgs, ss2, tasks)"
    and "rs = out @ msgs"
    and "get_service (px_service_id px) st' = Some (svc\<lparr>sessions := ss2\<rparr>)"
proof -
  obtain r where r: "read_sessions now cp locked (sessions svc) = Some r"
    using assms by (cases "read_sessions now cp locked (sessions svc)") (simp_all add: read_outputs_def)
  obtain ss1 out closed where p: "r = (ss1, out, closed)" by (metis prod_cases3)
  obtain msgs ss2 tasks where c: "close_terminals w (px_persistent px) closed (ss1, reaper st) = (msgs, ss2, tasks)"
    by (metis prod_cases3)
  show thesis
    using assms r p c
    by (intro that[of ss1 out closed msgs ss2 tasks])
      (auto simp: read_outputs_def Let_def get_service_def put_service_def update_conv')
qed

text \<open>The bytes of one terminal in a list of responses, decompressed.\<close>

definition payload :: "(bytes \<Rightarrow> bytes) \<Rightarrow> int \<Rightarrow> TerminalResponse \<Rightarrow> bytes" where
  "payload decompress i r = (case r of Data j d c \<Rightarrow> if j = i then (if c then decompress d else d) else [] | _ \<Rightarrow> [])"

definition payloads :: "(bytes \<Rightarrow> bytes) \<Rightarrow> int \<Rightarrow> TerminalResponse list \<Rightarrow> bytes" where
  "payloads decompress i rs = concat (map (payload decompress i) rs)"

lemma payloads_simps [simp]:
  "payloads dc i [] = []" "payloads dc i (rs @ rs') = payloads dc i rs @ payloads dc i rs'"
  by (simp_all add: payloads_def)

lemma payload_data_response:
  "(\<And>d. dc (cp d) = d) \<Longrightarrow> payload dc i (data_response cp j d) = (if i = j then d else [])"
  by (auto simp: payload_def data_response_def Let_def)

lemma payloads_data_responses:
  "(\<And>d. dc (cp d) = d) \<Longrightarrow> payloads dc i (map (data_response cp j) ds) = (if i = j then concat ds else [])"
  by (induction ds) (simp_all add: payloads_def payload_data_response)

lemma payloads_Closed: "\<forall>r\<in>set rs. \<exists>j c. r = Closed j c \<Longrightarrow> payloads dc i rs = []"
  by (auto simp: payloads_def payload_def)

definition queued :: "terminal_session \<Rightarrow> bytes" where
  "queued s = (case output_rx s of None \<Rightarrow> [] | Some q \<Rightarrow> concat q)"

lemma read_session_payload:
  assumes "\<And>d. dc (cp d) = d" and "read_session now cp l j s = Some (s', out, c)"
  shows "payloads dc i out = (if i = j \<and> \<not> l \<and> is_opened s then queued s else [])"
  using assms(2)
  by (auto simp: read_session_def Let_def payloads_data_responses[of dc cp, OF assms(1)] queued_def
      split: if_splits option.splits)

lemma read_sessions_payload:
  "(\<And>d. dc (cp d) = d) \<Longrightarrow> read_sessions now cp locked ss = Some (ss', out, closed) \<Longrightarrow> distinct (map fst ss) \<Longrightarrow>
   payloads dc i out = (case map_of ss i of None \<Rightarrow> [] | Some s \<Rightarrow> if locked i \<or> \<not> is_opened s then [] else queued s)"
proof (induction ss arbitrary: ss' out closed)
  case (Cons x ss)
  obtain j s where x: "x = (j, s)" by force
  from Cons.prems(2)[unfolded x] show ?case
  proof (cases rule: read_sessions_ConsE)
    case (1 s' o1 c1 ss1 o2 c2)
    have IH: "payloads dc i o2 = (case map_of ss i of None \<Rightarrow> [] | Some s \<Rightarrow> if locked i \<or> \<not> is_opened s then [] else queued s)"
      using Cons.IH[OF Cons.prems(1) 1(2)] Cons.prems(3) by simp
    have "i = j \<Longrightarrow> map_of ss i = None"
      using Cons.prems(3) x by (simp add: map_of_eq_None_iff)
    then show ?thesis
      using IH read_session_payload[where i = i, OF Cons.prems(1) 1(1)] 1 x by simp
  qed
qed simp

section \<open>Properties\<close>

text \<open>
  C8. Whatever connections, the cleanup thread and the terminals' threads do in whatever order: there
  are never more than 100 services, service and terminal identifiers stay unique, and no shell
  process is ever owned twice (by two terminals, or by a terminal and the reaper).
\<close>

theorem terminals_invariant:
  assumes "reachable st"
  shows "length (services st) \<le> 100 \<and> distinct (map fst (services st)) \<and>
    (\<forall>svc \<in> snd ` set (services st). distinct (map fst (sessions svc))) \<and> (\<forall>p. count (procs st) p \<le> 1)"
proof -
  have "terminals_ok st \<and> no_duplicates st"
    using assms
  proof (induction rule: reachable.induct)
    case start
    show ?case by (simp add: no_terminals_def terminals_ok_def no_duplicates_def procs_def)
  next
    case (step st st')
    then show ?case using terminal_step_ok by blast
  qed
  then show ?thesis
    by (auto simp: terminals_ok_def no_duplicates_def MAX_SERVICES_def list_all_iff service_ok_def)
qed

theorem terminals_invariant_witness:
  "length (services (snd (get_or_create_service 5 ''ts'' False False no_terminals))) \<le> 100 \<and>
   reachable (snd (get_or_create_service 5 ''ts'' False False no_terminals))"
proof -
  obtain r st where st: "get_or_create_service 5 ''ts'' False False no_terminals = (r, st)" by force
  then have "reachable st" by (rule reachable.step[OF reachable.start terminal_step.create])
  with terminals_invariant[OF this] st show ?thesis by simp
qed

text \<open>
  A connection that comes back to its service finds its terminals: opening an existing terminal
  after the service was fetched again reports the old process, names the other terminals to restore,
  opens only this terminal, and keeps every terminal's process, screen and channels.
\<close>

theorem reconnect_restores_terminals:
  assumes "get_service k st = Some svc" and "map_of (sessions svc) i = Some s"
    and "get_or_create_service now k p q st = (r1, st1)"
    and "handle_action now env (new_proxy k p' st1) (OpenTerminal i rs cs) st1 = (r2, st2)"
  shows "r2 = Inr (Some (Opened i ''Reconnected to existing terminal'' (pid s) k
      (filter (\<lambda>j. j \<noteq> i) (map fst (sessions svc))))) \<and>
    (\<exists>svc2. get_service k st2 = Some svc2 \<and>
      (\<forall>j. map_of (sessions svc2) j = map_option (\<lambda>t. t\<lparr>is_opened := (j = i)\<rparr>) (map_of (sessions svc) j)) \<and>
      \<not> needs_session_sync svc2 \<and> is_persistent svc2 = p)"
proof -
  have map_reset: "map_of (map (\<lambda>(i, s). (i, s\<lparr>is_opened := False\<rparr>)) ss) j = map_option (\<lambda>t. t\<lparr>is_opened := False\<rparr>) (map_of ss j)"
    for ss :: "(int \<times> terminal_session) list" and j
    by (induction ss) auto
  define svc1 where "svc1 = reset_status p svc"
  have st1: "st1 = put_service k svc1 st" "get_service k st1 = Some svc1"
    using assms(1,3) by (auto simp: get_or_create_service_def svc1_def put_service_def get_service_def Let_def update_conv')
  have ss1: "map_of (sessions svc1) j = map_option (\<lambda>t. t\<lparr>is_opened := False\<rparr>) (map_of (sessions svc) j)"
    "needs_session_sync svc1" "is_persistent svc1 = p" "map fst (sessions svc1) = map fst (sessions svc)" for j
    by (simp_all add: svc1_def map_reset reset_status_def case_prod_beta)
  have len: "length (sessions svc1) = length (sessions svc)" using ss1(4) by (metis length_map)
  have single: "filter (\<lambda>j. j \<noteq> i) (map fst (sessions svc)) = []" if "\<not> length (sessions svc) > 1"
    using that assms(2) by (cases "sessions svc") (auto split: if_splits)
  let ?s = "s\<lparr>is_opened := False\<rparr>"
  let ?svc2 = "svc1\<lparr>svc_last_activity := now, sessions := AList.update i (s\<lparr>is_opened := True\<rparr>) (sessions svc1), needs_session_sync := False\<rparr>"
  have "map_of (sessions svc1) i = Some ?s" using ss1(1) assms(2) by simp
  then have "r2 = Inr (Some (Opened i ''Reconnected to existing terminal'' (pid s) k
      (filter (\<lambda>j. j \<noteq> i) (map fst (sessions svc))))) \<and> st2 = put_service k ?svc2 st1"
    using assms(4) st1(2) ss1(2,4) len single
    by (auto simp: handle_action_def handle_open_def new_proxy_def Let_def)
  moreover have "map_of (sessions ?svc2) j = map_option (\<lambda>t. t\<lparr>is_opened := (j = i)\<rparr>) (map_of (sessions svc) j)" for j
    using ss1(1) assms(2) by (simp add: update_conv')
  moreover have "get_service k (put_service k ?svc2 st1) = Some ?svc2"
    by (simp add: get_service_def put_service_def update_conv')
  ultimately show ?thesis using ss1(3) by (intro conjI exI[of _ ?svc2]) auto
qed

definition shell :: terminal_session where
  "shell = (new_session 0 1 24 80)\<lparr>pid := 4242, pty_pair := True, child := Some 7, input_tx := Some [],
     output_rx := Some [[0x68, 0x69], [0x0A]], reader_thread := Some False, writer_thread := Some False, is_opened := True\<rparr>"

definition one_terminal :: terminals where
  "one_terminal = \<lparr>services = [(''ts'', (new_service 0 ''ts'' True False)\<lparr>sessions := [(1, shell), (2, shell\<lparr>child := Some 8\<rparr>)]\<rparr>)],
     reaper = []\<rparr>"

definition quiet_pty :: pty_answer where
  "quiet_pty = \<lparr>spawned = NotStarted ''Failed to open PTY'', resized = None, kill = (\<lambda>_. None)\<rparr>"

lemma one_terminal_service:
  "get_service ''ts'' one_terminal = Some ((new_service 0 ''ts'' True False)\<lparr>sessions := [(1, shell), (2, shell\<lparr>child := Some 8\<rparr>)]\<rparr>)"
  by (simp add: one_terminal_def get_service_def)

lemma one_terminal_ok: "terminals_ok one_terminal"
  by (simp add: one_terminal_def terminals_ok_def service_ok_def MAX_SERVICES_def)

theorem reconnect_restores_terminals_witness:
  "fst (handle_action 9 quiet_pty (new_proxy ''ts'' None (snd (get_or_create_service 9 ''ts'' True False one_terminal)))
      (OpenTerminal 1 24 80) (snd (get_or_create_service 9 ''ts'' True False one_terminal)))
    = Inr (Some (Opened 1 ''Reconnected to existing terminal'' 4242 ''ts'' [2]))"
proof -
  obtain r1 st1 where g: "get_or_create_service 9 ''ts'' True False one_terminal = (r1, st1)" by force
  obtain r2 st2 where h: "handle_action 9 quiet_pty (new_proxy ''ts'' None st1) (OpenTerminal 1 24 80) st1 = (r2, st2)" by force
  show ?thesis
    using reconnect_restores_terminals[OF one_terminal_service _ g h, of shell] g h
    by (simp add: shell_def)
qed

text \<open>
  Processes are accounted for at every action of a connection: none appears except the shell
  started for a terminal that did not exist, and none disappears except the child of a closed
  terminal that could not be killed, which is lost and never reaped.
\<close>

theorem action_accounts_processes:
  assumes "terminals_ok st" and "get_service (px_service_id px) st = Some svc"
    and "handle_action now env px a st = (out, st')"
  shows "\<exists>lost new. procs st' + lost = procs st + new \<and>
    (new \<noteq> {#} \<longrightarrow> (\<exists>i r c p n. a = OpenTerminal i r c \<and> map_of (sessions svc) i = None \<and>
       spawned env = Started p n \<and> new = {#p#})) \<and>
    (lost \<noteq> {#} \<longrightarrow> (\<exists>i s p. a = CloseTerminal i \<and> map_of (sessions svc) i = Some s \<and> child s = Some p \<and>
       kill env p \<noteq> None \<and> lost = {#p#}))"
proof -
  define new where "new = (case a of OpenTerminal i _ _ \<Rightarrow> new_procs (spawned env) i svc | _ \<Rightarrow> {#})"
  have new: "new \<noteq> {#} \<longrightarrow> (\<exists>i r c p n. a = OpenTerminal i r c \<and> map_of (sessions svc) i = None \<and>
       spawned env = Started p n \<and> new = {#p#})"
    by (auto simp: new_def new_procs_def split: TerminalAction.splits option.splits spawn_result.splits)
  obtain lost where lost: "procs st' + lost = procs st + new"
    "lost \<noteq> {#} \<longrightarrow> (\<exists>i. a = CloseTerminal i \<and> lost = lost_procs (kill env) i svc)"
    using handle_action_ok[OF assms(1,3)] assms(2) unfolding new_def by auto
  have "lost \<noteq> {#} \<longrightarrow> (\<exists>i s p. a = CloseTerminal i \<and> map_of (sessions svc) i = Some s \<and> child s = Some p \<and>
       kill env p \<noteq> None \<and> lost = {#p#})"
    using lost(2) lost_procs_cases[of "kill env" _ svc] by blast
  with new lost(1) show ?thesis by blast
qed

theorem action_accounts_processes_witness:
  "\<exists>lost new. procs (snd (handle_action 9 quiet_pty (new_proxy ''ts'' None one_terminal) (CloseTerminal 1) one_terminal)) + lost
    = procs one_terminal + new"
proof -
  have "get_service (px_service_id (new_proxy ''ts'' None one_terminal)) one_terminal
      = Some ((new_service 0 ''ts'' True False)\<lparr>sessions := [(1, shell), (2, shell\<lparr>child := Some 8\<rparr>)]\<rparr>)"
    by (simp add: new_proxy_def one_terminal_service)
  then show ?thesis
    using action_accounts_processes[OF one_terminal_ok, of "new_proxy ''ts'' None one_terminal" _ 9 quiet_pty "CloseTerminal 1"]
    by (metis prod.collapse)
qed

text \<open>
  A closed terminal is announced once: if one round of reading reports that a terminal closed,
  the next round does not report it again.
\<close>

theorem closed_reported_once:
  assumes "terminals_ok st" and "read_outputs now cp locked w px st = Some (rs, st')"
    and "read_outputs now' cp locked' w' px' st' = Some (rs', st'')"
    and "px_service_id px' = px_service_id px" and "Closed i c \<in> set rs"
  shows "Closed i c' \<notin> set rs'"
proof (cases "get_service (px_service_id px) st")
  case None
  then show ?thesis using assms(2,5) by (simp add: read_outputs_def)
next
  case (Some svc)
  from assms(2) Some obtain ss1 out closed msgs ss2 tasks where one:
    "read_sessions now cp locked (sessions svc) = Some (ss1, out, closed)"
    "close_terminals w (px_persistent px) closed (ss1, reaper st) = (msgs, ss2, tasks)"
    "rs = out @ msgs" "get_service (px_service_id px) st' = Some (svc\<lparr>sessions := ss2\<rparr>)"
    by (rule read_outputsE)
  have svc': "get_service (px_service_id px') st' = Some (svc\<lparr>sessions := ss2\<rparr>)" using one(4) assms(4) by simp
  from assms(3) svc' obtain ss3 out' closed' msgs' ss4 tasks' where two:
    "read_sessions now' cp locked' (sessions (svc\<lparr>sessions := ss2\<rparr>)) = Some (ss3, out', closed')"
    "close_terminals w' (px_persistent px') closed' (ss3, reaper st') = (msgs', ss4, tasks')"
    "rs' = out' @ msgs'"
    by (rule read_outputsE)
  have d: "distinct (map fst (sessions svc))" using terminals_ok_get[OF assms(1) Some] by (simp add: service_ok_def)
  have "Closed i c \<in> set msgs" using assms(5) one(3) read_sessions_no_Closed[OF one(1)] by auto
  then have "i \<in> set closed" by (rule close_terminals_Closed[OF one(2)])
  then have "marked i ss1" using read_sessions_closed[OF one(1) d] by blast
  then have "marked i ss2" by (rule close_terminals_marked[OF _ one(2)])
  moreover have "distinct (map fst ss2)"
    using close_terminals_ok[OF _ one(2)] read_sessions_ok[OF one(1)] d by simp
  ultimately have "i \<notin> set closed'" using read_sessions_closed[OF two(1)] by auto
  then have "Closed i c' \<notin> set msgs'" using close_terminals_Closed[OF two(2)] by blast
  then show ?thesis using two(3) read_sessions_no_Closed[OF two(1)] by simp
qed

text \<open>A service whose terminal has ended.\<close>

definition ended_terminal :: terminals where
  "ended_terminal = \<lparr>services = [(''ts'', (new_service 0 ''ts'' True False)\<lparr>sessions :=
     [(1, shell\<lparr>reader_thread := Some True, output_rx := Some []\<rparr>)]\<rparr>)], reaper = []\<rparr>"

definition ts_proxy :: proxy where
  "ts_proxy = \<lparr>px_service_id = ''ts'', px_persistent = True\<rparr>"

theorem closed_reported_once_witness:
  "\<exists>rs st' rs' st''. read_outputs 9 id (\<lambda>_. False) (\<lambda>_. Exited 3) ts_proxy ended_terminal = Some (rs, st') \<and>
     Closed 1 3 \<in> set rs \<and>
     read_outputs 10 id (\<lambda>_. False) (\<lambda>_. Exited 3) ts_proxy st' = Some (rs', st'') \<and> Closed 1 3 \<notin> set rs'"
proof -
  let ?s = "shell\<lparr>reader_thread := Some True, output_rx := Some []\<rparr>"
  let ?svc = "(new_service 0 ''ts'' True False)\<lparr>sessions := [(1, ?s)]\<rparr>"
  let ?s' = "shell\<lparr>reader_thread := Some True, closed_message_sent := True, output_rx := Some [],
    output_buffer := new_buffer, last_activity := 0\<rparr>"
  have ok: "terminals_ok ended_terminal"
    by (simp add: ended_terminal_def terminals_ok_def service_ok_def MAX_SERVICES_def)
  have svc: "get_service ''ts'' ended_terminal = Some ?svc"
    by (simp add: ended_terminal_def get_service_def)
  have sess: "read_session t id False 1 ?s = Some (?s', [], True)"
    "read_session t id False 1 (?s'\<lparr>child := None\<rparr>) = Some (?s'\<lparr>child := None\<rparr>, [], False)" for t
    by (simp_all add: read_session_def shell_def new_session_def Let_def)
  have close: "close_terminals (\<lambda>_. Exited 3) True [1] ([(1, ?s')], reaper ended_terminal)
      = ([Closed 1 3], [(1, ?s'\<lparr>child := None\<rparr>)], [7])"
    by (simp add: close_terminal_def exit_code_of_def reap_child_def add_to_reaper_def shell_def ended_terminal_def Let_def)
  let ?st' = "(put_service ''ts'' (?svc\<lparr>sessions := [(1, ?s'\<lparr>child := None\<rparr>)]\<rparr>) ended_terminal)\<lparr>reaper := [7]\<rparr>"
  have one: "read_outputs 9 id (\<lambda>_. False) (\<lambda>_. Exited 3) ts_proxy ended_terminal = Some ([Closed 1 3], ?st')"
    unfolding read_outputs_def ts_proxy_def proxy.simps svc by (simp add: sess close del: close_terminals.simps)
  have svc': "get_service ''ts'' ?st' = Some (?svc\<lparr>sessions := [(1, ?s'\<lparr>child := None\<rparr>)]\<rparr>)"
    by (simp add: get_service_def put_service_def update_conv')
  then obtain st'' where two: "read_outputs 10 id (\<lambda>_. False) (\<lambda>_. Exited 3) ts_proxy ?st' = Some ([], st'')"
    unfolding read_outputs_def ts_proxy_def proxy.simps svc' by (simp add: sess)
  have "Closed 1 3 \<notin> set ([] :: TerminalResponse list)"
    using closed_reported_once[OF ok one two, of 1 3 3] by simp
  with one two show ?thesis by auto
qed

text \<open>
  Terminal output reaches the client complete and in order: for an open, unlocked terminal, the
  data responses of one round decode to exactly the chunks its reader thread had queued, whether or
  not they were compressed, and no data comes from any other terminal's channel.
\<close>

theorem outputs_forwarded:
  assumes "\<And>d. decompress (compress d) = d" and "terminals_ok st"
    and "read_outputs now compress locked w px st = Some (rs, st')"
    and "get_service (px_service_id px) st = Some svc"
  shows "payloads decompress i rs = (case map_of (sessions svc) i of None \<Rightarrow> []
    | Some s \<Rightarrow> if locked i \<or> \<not> is_opened s then [] else queued s)"
proof -
  from assms(3,4) obtain ss1 out closed msgs ss2 tasks where one:
    "read_sessions now compress locked (sessions svc) = Some (ss1, out, closed)"
    "close_terminals w (px_persistent px) closed (ss1, reaper st) = (msgs, ss2, tasks)" "rs = out @ msgs"
    by (rule read_outputsE)
  have "\<exists>j c. r = Closed j c" if "r \<in> set msgs" for r
  proof -
    have "(case r of Closed i _ \<Rightarrow> Some i | _ \<Rightarrow> None) \<in> set (map Some closed)"
      unfolding close_terminals_ids[OF one(2), symmetric] using that by simp
    then show ?thesis by (cases r) auto
  qed
  then have "payloads decompress i msgs = []" by (intro payloads_Closed) blast
  then show ?thesis
    using read_sessions_payload[OF assms(1) one(1), of i] terminals_ok_get[OF assms(2,4)] one(3)
    by (simp add: service_ok_def)
qed

theorem outputs_forwarded_witness:
  "\<exists>rs st'. read_outputs 9 id (\<lambda>_. False) (\<lambda>_. Running) (new_proxy ''ts'' None one_terminal) one_terminal = Some (rs, st') \<and>
     payloads id 1 rs = [0x68, 0x69, 0x0A]"
proof -
  let ?px = "new_proxy ''ts'' None one_terminal"
  have svc: "get_service (px_service_id ?px) one_terminal
      = Some ((new_service 0 ''ts'' True False)\<lparr>sessions := [(1, shell), (2, shell\<lparr>child := Some 8\<rparr>)]\<rparr>)"
    by (simp add: new_proxy_def one_terminal_service)
  have buf: "\<exists>b. append_chunks [[0x68, 0x69], [0x0A]] new_buffer = Some b"
  proof -
    have "buf_append [0x68, 0x69] new_buffer = Some \<lparr>lines = [[0x68, 0x69]], total_size = 2, last_line_incomplete = True\<rparr>"
      by (simp add: buf_append_def append_rest_def new_buffer_def NL_def push_line_def trim_within
          MAX_OUTPUT_BUFFER_SIZE_def MAX_BUFFER_LINES_def)
    moreover have "buf_append [0x0A] \<lparr>lines = [[0x68, 0x69]], total_size = 2, last_line_incomplete = True\<rparr>
        = Some \<lparr>lines = [[0x68, 0x69, 0x0A]], total_size = 2, last_line_incomplete = False\<rparr>"
      by (simp add: buf_append_def append_rest_def NL_def push_line_def trim_within
          MAX_OUTPUT_BUFFER_SIZE_def MAX_BUFFER_LINES_def)
    ultimately show ?thesis by simp
  qed
  then obtain b where "append_chunks [[0x68, 0x69], [0x0A]] new_buffer = Some b" by blast
  then have "read_outputs 9 id (\<lambda>_. False) (\<lambda>_. Running) ?px one_terminal \<noteq> None"
    unfolding read_outputs_def svc
    by (simp add: read_session_def shell_def new_session_def Let_def)
  then obtain rs st' where r: "read_outputs 9 id (\<lambda>_. False) (\<lambda>_. Running) ?px one_terminal = Some (rs, st')" by auto
  moreover have "payloads id 1 rs = [0x68, 0x69, 0x0A]"
    using outputs_forwarded[of id id, OF _ one_terminal_ok r svc, where i = 1]
    by (simp add: shell_def queued_def)
  ultimately show ?thesis by blast
qed

text \<open>
  One pass of the zombie reaper keeps exactly the processes that are still running, in order,
  although it removes list elements while it walks over them by index.
\<close>

theorem zombie_pass_keeps_running:
  "check_zombie_terminals try_wait st = st\<lparr>reaper := filter (\<lambda>p. try_wait p = Running) (reaper st)\<rparr>"
  by (simp add: check_zombie_terminals_def reap_from_filter)

end
