(* ===== verification/Login_Session.thy ===== *)
theory Login_Session
  imports Password_Policy Net_Util Terminal_Service
begin

text \<open>
  Logging in to a controlled machine: the part of \<open>src/server/connection.rs\<close> that takes a connection
  from its first message to being authorized and to its end. A connection is a record of the fields
  of \<open>Connection\<close> that login uses; the statics of the file (sessions, login failures, registered
  connections, switch-sides tokens), the configuration and the terminal services are a second record.
  A session's clock is shared between the session table and its connections (\<open>Arc<Mutex<Instant>>\<close>),
  so the records hold the address of a cell. Every message sent to the peer or to the connection
  manager is appended to a log. What is outside the program (SHA-256, one-time codes, single sign-on,
  the token service, TCP connects, the desktop session) is the environment of a step.
\<close>

section \<open>State\<close>

datatype AuthConnType = Remote | FileTransfer | PortForward | ViewCamera | Terminal

datatype session_key = SessionKey string string u64

record session =
  last_recv_time :: nat
  random_password :: string
  tfa :: bool

type_synonym failure = "int \<times> int \<times> int"

record server =
  sess :: "session_key \<Rightarrow> session option"
  cells :: "nat list"
  login_failures :: "nat \<Rightarrow> string \<Rightarrow> failure option"
  authed_conns :: "(int \<times> AuthConnType \<times> session_key) list"
  alive_conns :: "int list"
  switch_sides :: "string \<Rightarrow> (nat \<times> bytes) option"
  conf :: config
  file_transfer_pw :: string
  terms :: terminals

datatype login_union =
  NoUnion
| LrFileTransfer string bool
| LrViewCamera
| LrPortForward string int
| LrTerminal string

record login_request =
  username :: string
  lr_password :: bytes
  my_id :: string
  my_name :: string
  my_platform :: string
  version :: string
  session_id :: u64
  lr_hwid :: bytes
  tokenex :: string
  lr_union :: login_union

datatype reply =
  LoginError string bool
| PeerInfo
| HashMsg string string
| TerminalMsg TerminalResponse
| CmLogin string string bool
| CmClose

record connection =
  conn_id :: int
  ip :: string
  hash_salt :: string
  hash_challenge :: string
  require_2fa :: "string option"
  authorized :: bool
  lr :: login_request
  file_transfer :: "(string \<times> bool) option"
  view_camera :: bool
  terminal :: bool
  terminal_service_id :: string
  port_forward_socket :: bool
  port_forward_address :: string
  from_switch :: bool
  keyboard :: bool
  services_subed :: bool
  authed_conn :: "AuthConnType option"
  session_clock :: "nat option"
  pending_invite :: "string option"
  closed :: bool
  log :: "reply list"

record login_env =
  instant :: nat
  dev :: device_env
  sha256 :: "bytes \<Rightarrow> bytes"
  check_current :: "string \<Rightarrow> string \<Rightarrow> bool option"
  sso_login :: "string \<Rightarrow> bool"
  team_file :: bool
  token_status :: "string option"
  tcp_connect :: "string \<Rightarrow> bool"
  desktop_err :: string
  logon_screen :: bool
  privacy_mode :: bool
  host_str :: "string \<Rightarrow> bool"
  new_service_id :: string
  display_err :: "string option"
  pty :: pty_answer

type_synonym state = "connection \<times> server"

section \<open>Messages out\<close>

definition REQUIRE_2FA :: string where "REQUIRE_2FA = ''2FA Required''"
definition LOGIN_MSG_2FA_WRONG :: string where "LOGIN_MSG_2FA_WRONG = ''Wrong 2FA Code''"
definition LOGIN_MSG_PASSWORD_WRONG :: string where "LOGIN_MSG_PASSWORD_WRONG = ''Wrong Password''"
definition LOGIN_MSG_NO_PASSWORD_ACCESS :: string where "LOGIN_MSG_NO_PASSWORD_ACCESS = ''No Password Access''"
definition LOGIN_MSG_OFFLINE :: string where "LOGIN_MSG_OFFLINE = ''Offline''"
definition LOGIN_MSG_DESKTOP_SESSION_NOT_READY :: string where
  "LOGIN_MSG_DESKTOP_SESSION_NOT_READY = ''Desktop session not ready''"

definition enable_trusted_devices :: "config \<Rightarrow> bool" where
  "enable_trusted_devices c = option2bool ''enable-trusted-devices'' (get_option c ''enable-trusted-devices'')"

definition permission :: "string \<Rightarrow> config \<Rightarrow> bool" where
  "permission enable_prefix_option c = option2bool enable_prefix_option (get_option c enable_prefix_option)"

definition send :: "reply \<Rightarrow> state \<Rightarrow> state" where
  "send r = (\<lambda>(c, g). (c\<lparr>log := log c @ [r]\<rparr>, g))"

definition send_login_error :: "string \<Rightarrow> state \<Rightarrow> state" where
  "send_login_error err = (\<lambda>(c, g).
    send (LoginError err (if err = REQUIRE_2FA then enable_trusted_devices (conf g) else False)) (c, g))"

definition try_start_cm :: "string \<Rightarrow> string \<Rightarrow> bool \<Rightarrow> state \<Rightarrow> state" where
  "try_start_cm peer_id name auth = send (CmLogin peer_id name auth)"

section \<open>Registered connections and sessions\<close>

definition key_of :: "connection \<Rightarrow> session_key" where
  "key_of c = SessionKey (my_id (lr c)) (my_name (lr c)) (session_id (lr c))"

definition authed_new :: "int \<Rightarrow> AuthConnType \<Rightarrow> session_key \<Rightarrow> server \<Rightarrow> server" where
  "authed_new i t k g = g\<lparr>authed_conns := authed_conns g @ [(i, t, k)]\<rparr>"

definition authed_drop :: "int \<Rightarrow> server \<Rightarrow> server" where
  "authed_drop i g = g\<lparr>authed_conns := filter (\<lambda>x. fst x \<noteq> i) (authed_conns g)\<rparr>"

definition alive_new :: "int \<Rightarrow> server \<Rightarrow> server" where
  "alive_new i g = g\<lparr>alive_conns := alive_conns g @ [i]\<rparr>"

definition alive_drop :: "int \<Rightarrow> server \<Rightarrow> server" where
  "alive_drop i g = g\<lparr>alive_conns := filter (\<lambda>x. x \<noteq> i) (alive_conns g)\<rparr>"

definition non_port_forward_conn_count :: "server \<Rightarrow> nat" where
  "non_port_forward_conn_count g = length (filter (\<lambda>(_, t, _). t \<noteq> PortForward) (authed_conns g))"

definition check_remove_session :: "int \<Rightarrow> session_key \<Rightarrow> server \<Rightarrow> server" where
  "check_remove_session i k g =
    (if sess g k \<noteq> None then
       let is_remote = list_ex (\<lambda>(j, t, _). j = i \<and> t = Remote) (authed_conns g);
           another_remote = list_ex (\<lambda>(j, t, k'). j \<noteq> i \<and> k' = k \<and> t = Remote) (authed_conns g)
       in if is_remote \<or> \<not> another_remote then g\<lparr>sess := (sess g)(k := None)\<rparr> else g
     else g)"

text \<open>A new session gets a new clock cell that shows the present.\<close>

definition insert_session :: "nat \<Rightarrow> session_key \<Rightarrow> string \<Rightarrow> bool \<Rightarrow> server \<Rightarrow> server" where
  "insert_session now k pw t g =
    g\<lparr>sess := (sess g)(k \<mapsto> \<lparr>last_recv_time = length (cells g), random_password = pw, tfa = t\<rparr>),
      cells := cells g @ [now]\<rparr>"

definition update_or_insert_session ::
  "nat \<Rightarrow> session_key \<Rightarrow> string option \<Rightarrow> bool option \<Rightarrow> server \<Rightarrow> server" where
  "update_or_insert_session now k pw t g =
    (case sess g k of
       Some s \<Rightarrow>
         g\<lparr>sess := (sess g)(k \<mapsto>
           s\<lparr>random_password := (case pw of Some p \<Rightarrow> p | None \<Rightarrow> random_password s),
             tfa := (case t of Some b \<Rightarrow> b | None \<Rightarrow> tfa s)\<rparr>)\<rparr>
     | None \<Rightarrow> insert_session now k (case pw of Some p \<Rightarrow> p | None \<Rightarrow> []) (case t of Some b \<Rightarrow> b | None \<Rightarrow> False) g)"

definition set_session_2fa :: "nat \<Rightarrow> session_key \<Rightarrow> server \<Rightarrow> server" where
  "set_session_2fa now k g =
    (case sess g k of
       Some s \<Rightarrow> g\<lparr>sess := (sess g)(k \<mapsto> s\<lparr>tfa := True\<rparr>)\<rparr>
     | None \<Rightarrow> insert_session now k [] True g)"

definition SESSION_TIMEOUT :: nat where "SESSION_TIMEOUT = 30 * 1000"

definition fresh_session :: "nat \<Rightarrow> server \<Rightarrow> session \<Rightarrow> bool" where
  "fresh_session now g s \<longleftrightarrow> now - cells g ! last_recv_time s < SESSION_TIMEOUT"

definition retain_sessions :: "nat \<Rightarrow> server \<Rightarrow> server" where
  "retain_sessions now g =
    g\<lparr>sess := (\<lambda>k. case sess g k of None \<Rightarrow> None | Some s \<Rightarrow> if fresh_session now g s then Some s else None)\<rparr>"

text \<open>A message from the peer moves the clock of the session.\<close>

definition touch_session :: "nat \<Rightarrow> state \<Rightarrow> state" where
  "touch_session now = (\<lambda>(c, g).
    (case session_clock c of None \<Rightarrow> (c, g) | Some a \<Rightarrow> (c, g\<lparr>cells := (cells g)[a := now]\<rparr>)))"

section \<open>Passwords\<close>

definition hash_matches :: "login_env \<Rightarrow> connection \<Rightarrow> string \<Rightarrow> bool" where
  "hash_matches E c pw \<longleftrightarrow>
    sha256 E (sha256 E (as_bytes pw @ as_bytes (hash_salt c)) @ as_bytes (hash_challenge c)) = lr_password (lr c)"

definition validate_one_password :: "login_env \<Rightarrow> string \<Rightarrow> state \<Rightarrow> bool \<times> state" where
  "validate_one_password E pw = (\<lambda>(c, g).
    (if length pw = 0 then (False, c, g)
     else if hash_matches E c pw then (True, c, g\<lparr>file_transfer_pw := my_id (lr c) @ '':'' @ pw\<rparr>)
     else (False, c, g)))"

definition validate_sso_password :: "login_env \<Rightarrow> string \<Rightarrow> bool" where
  "validate_sso_password E pw = (if length pw \<noteq> 32 then False else sso_login E pw)"

definition validate_password :: "login_env \<Rightarrow> state \<Rightarrow> bool \<times> state" where
  "validate_password E = (\<lambda>(c, g).
    (let sso_enabled = get_option (conf g) ''sso-login'';
         tok = tokenex (lr c)
     in if sso_enabled = ''true'' then
          (if tok \<noteq> [] \<and> length tok = 32 then
             (if validate_sso_password E tok then (True, c, g) else (False, c, g))
           else (False, c, g))
        else if tok \<noteq> [] \<and> team_file E \<and> sso_enabled \<noteq> ''true'' then
          (case token_status E of None \<Rightarrow> (False, c, g) | Some r \<Rightarrow> (r = ''OK'', c, g))
        else
          let pw = temporary_password (conf g);
              (ok, c, g) = (if temporary_enabled (conf g) then validate_one_password E pw (c, g) else (False, c, g))
          in if ok then (True, c, update_or_insert_session (instant E) (key_of c) (Some pw) (Some False) g)
             else if permanent_enabled (conf g) then validate_one_password E (permanent_password (conf g)) (c, g)
             else (False, c, g)))"

definition is_recent_session :: "login_env \<Rightarrow> bool \<Rightarrow> state \<Rightarrow> bool \<times> state" where
  "is_recent_session E t = (\<lambda>(c, g).
    (let g = retain_sessions (instant E) g in
     case sess g (key_of c) of
       None \<Rightarrow> (False, c, g)
     | Some s \<Rightarrow>
         (if lr_password (lr c) \<noteq> [] then
            (if t then (tfa s, c, g) else validate_one_password E (random_password s) (c, g))
          else (False, c, g))))"

section \<open>Login failures\<close>

definition update_failure :: "failure \<times> int \<Rightarrow> bool \<Rightarrow> nat \<Rightarrow> state \<Rightarrow> state" where
  "update_failure = (\<lambda>((f0, f1, f2), time) remove i (c, g).
    (if remove then
       (if f0 \<noteq> 0 then (c, g\<lparr>login_failures := (login_failures g)(i := (login_failures g i)(ip c := None))\<rparr>)
        else (c, g))
     else
       let failure = (if f0 = time then (f0, f1 + 1, f2 + 1) else (time, 1, f2 + 1))
       in (c, g\<lparr>login_failures := (login_failures g)(i := (login_failures g i)(ip c \<mapsto> failure))\<rparr>)))"

definition check_failure :: "login_env \<Rightarrow> nat \<Rightarrow> state \<Rightarrow> ((failure \<times> int) \<times> bool) \<times> state" where
  "check_failure E i = (\<lambda>(c, g).
    (let failure = (case login_failures g i (ip c) of None \<Rightarrow> (0, 0, 0) | Some f \<Rightarrow> f);
         time = get_time (dev E) div 60000;
         (f0, f1, f2) = failure
     in if f2 > 30 then (((failure, time), False), send_login_error ''Too many wrong attempts'' (c, g))
        else if time = f0 \<and> f1 > 6 then (((failure, time), False), send_login_error ''Please try 1 minute later'' (c, g))
        else (((failure, time), True), (c, g))))"

section \<open>Becoming authorized\<close>

definition conn_type_of :: "connection \<Rightarrow> AuthConnType" where
  "conn_type_of c =
    (if file_transfer c \<noteq> None then FileTransfer
     else if port_forward_socket c then PortForward
     else if view_camera c then ViewCamera
     else Remote)"

definition is_remote :: "connection \<Rightarrow> bool" where
  "is_remote c \<longleftrightarrow> file_transfer c = None \<and> \<not> port_forward_socket c \<and> \<not> view_camera c \<and> \<not> terminal c"

definition sub_monitor_services_at_login :: "connection \<Rightarrow> connection" where
  "sub_monitor_services_at_login c =
    (if is_remote c \<and> \<not> services_subed c then c\<lparr>services_subed := True\<rparr> else c)"

text \<open>The part of \<open>send_logon_response\<close> after the decision: registering, the response, and what follows
  for each kind of connection.\<close>

definition enter_session :: "login_env \<Rightarrow> state \<Rightarrow> state" where
  "enter_session E = (\<lambda>(c, g).
    (let t = conn_type_of c;
         g = authed_new (conn_id c) t (key_of c) g;
         c = c\<lparr>authorized := True, authed_conn := Some t,
               session_clock := map_option last_recv_time (sess g (key_of c))\<rparr>
     in if port_forward_socket c then send PeerInfo (c, g)
        else
          let sub_service = (file_transfer c = None \<and> \<not> terminal c \<and> \<not> view_camera c \<and> display_err E = None);
              err = (if file_transfer c \<noteq> None \<or> terminal c \<or> view_camera c then None else display_err E);
              (c, g) = send (case err of None \<Rightarrow> PeerInfo | Some e \<Rightarrow> LoginError e False) (c, g)
          in if file_transfer c \<noteq> None then (c, g)
             else if view_camera c then (c\<lparr>keyboard := False\<rparr>, g)
             else if sub_service \<and> pending_invite c = None then (sub_monitor_services_at_login c, g)
             else (c, g)))"

definition send_logon_response :: "login_env \<Rightarrow> state \<Rightarrow> state" where
  "send_logon_response E = (\<lambda>(c, g).
    (if authorized c then (c, g)
     else
       let (recent, c, g) = (if require_2fa c \<noteq> None then is_recent_session E True (c, g) else (True, c, g))
       in if \<not> recent \<and> \<not> from_switch c then send_login_error REQUIRE_2FA (c, g)
          else enter_session E (c, g)))"

section \<open>Handling messages\<close>

text \<open>\<open>handle_login_request_without_validation\<close>: the request is recorded, and a trusted device that
  is not outdated and names the same peer lifts the second factor.\<close>

definition handle_login_request_without_validation :: "login_env \<Rightarrow> login_request \<Rightarrow> state \<Rightarrow> state" where
  "handle_login_request_without_validation E r = (\<lambda>(c, g).
    (let c = c\<lparr>lr := r\<rparr> in
     if require_2fa c \<noteq> None \<and> lr_hwid r \<noteq> [] \<and> enable_trusted_devices (conf g) then
       let (devices, cf) = get_trusted_devices (dev E) (conf g);
           g = g\<lparr>conf := cf\<rparr>
       in (case find (\<lambda>d. hwid d = lr_hwid r) devices of
             None \<Rightarrow> (c, g)
           | Some d \<Rightarrow>
               if \<not> outdate (dev E) d \<and> td_id d = my_id r \<and> td_name d = my_name r \<and> td_platform d = my_platform r
               then (c\<lparr>require_2fa := None\<rparr>, g) else (c, g))
     else (c, g)))"

definition on_close :: "state \<Rightarrow> state" where
  "on_close = (\<lambda>(c, g).
    (if closed c then (c, g)
     else
       let c = c\<lparr>closed := True\<rparr>;
           (c, g) = send CmClose (c, g);
           c = c\<lparr>port_forward_socket := False\<rparr>
       in if terminal c \<and> terminal_service_id c \<noteq> [] then
            (c, g\<lparr>terms := on_disconnect (new_proxy (terminal_service_id c) None (terms g)) (terms g)\<rparr>)
          else (c, g)))"

text \<open>What the request asks for. The result says whether the connection goes on.\<close>

definition handle_union :: "login_env \<Rightarrow> login_union \<Rightarrow> state \<Rightarrow> bool \<times> state" where
  "handle_union E u = (\<lambda>(c, g).
    (case u of
       LrFileTransfer dir show_hidden \<Rightarrow>
         if \<not> permission ''enable-file-transfer'' (conf g) then
           (False, send_login_error ''No permission of file transfer'' (c, g))
         else (True, c\<lparr>file_transfer := Some (dir, show_hidden)\<rparr>, g)
     | LrViewCamera \<Rightarrow>
         if \<not> permission ''enable-camera'' (conf g) then
           (False, send_login_error ''No permission of viewing camera'' (c, g))
         else (True, c\<lparr>view_camera := True\<rparr>, g)
     | LrPortForward host p \<Rightarrow>
         if \<not> permission ''enable-tunnel'' (conf g) then
           (False, send_login_error ''TCP Tunneling is not enabled on the remote machine'' (c, g))
         else
           let is_rdp = (host = ''RDP'' \<and> p = 0);
               (host, p) = (if is_rdp then (''localhost'', 3389) else (host, p));
               host = (if host = [] then ''localhost'' else host);
               addr = host @ '':'' @ (if p < 0 then ''-'' @ show_nat (nat (- p)) else show_nat (nat p));
               c = c\<lparr>port_forward_address := addr\<rparr>
           in if tcp_connect E addr then (True, c\<lparr>port_forward_socket := True\<rparr>, g)
              else (False, send_login_error (''Could not connect to '' @ (if is_rdp then ''RDP'' else addr) @
                ''. Make sure the service is running on that port.'') (c, g))
     | LrTerminal sid \<Rightarrow>
         if \<not> permission ''enable-terminal'' (conf g) then
           (False, send_login_error ''Terminal is not enabled on the remote machine'' (c, g))
         else
           let c = c\<lparr>terminal := True\<rparr>;
               sid = (if sid = [] then new_service_id E else sid);
               (res, ts) = get_or_create_service (instant E) sid False False (terms g);
               g = g\<lparr>terms := ts\<rparr>
           in (case res of
                 Inl e \<Rightarrow> (False, send_login_error (''Failed to create terminal service: '' @ e) (c, g))
               | Inr _ \<Rightarrow> (True, c\<lparr>terminal_service_id := sid\<rparr>, g))
     | NoUnion \<Rightarrow>
         if privacy_mode E then (False, send_login_error ''Someone turned on privacy mode, exiting.'' (c, g))
         else (True, c, g)))"

text \<open>Does the policy call for a click of the local user?\<close>

definition click_only :: "login_env \<Rightarrow> config \<Rightarrow> bool" where
  "click_only E cf \<longleftrightarrow>
    approve_mode cf = Click \<and> \<not> (get_builtin_option cf ''allow-logon-screen-password'' = ''Y'' \<and> logon_screen E) \<or>
    approve_mode cf = Both \<and> \<not> has_valid_password cf"

text \<open>The password branch of a login request.\<close>

definition login_by_password :: "login_env \<Rightarrow> login_request \<Rightarrow> state \<Rightarrow> state" where
  "login_by_password E r s =
    (let ((failure, res), s) = check_failure E 0 s in
     if \<not> res then s
     else
       let (ok, s) = validate_password E s in
       if \<not> ok then
         let s = update_failure failure False 0 s in
         if desktop_err E = [] then
           try_start_cm (my_id r) (my_name r) False (send_login_error LOGIN_MSG_PASSWORD_WRONG s)
         else send_login_error ''Desktop session not ready, password wrong'' s
       else
         let s = update_failure failure True 0 s in
         if desktop_err E = [] then
           let (c, g) = send_logon_response E s in try_start_cm (my_id r) (my_name r) (authorized c) (c, g)
         else send_login_error (desktop_err E) s)"

definition on_login_request :: "login_env \<Rightarrow> login_request \<Rightarrow> state \<Rightarrow> bool \<times> state" where
  "on_login_request E r s =
    (let (c, g) = handle_login_request_without_validation E r s in
     if authorized c then (True, c, g)
     else
       let (go, c, g) = handle_union E (lr_union r) (c, g) in
       if \<not> go then (False, c, g)
       else if desktop_err E \<noteq> [] \<and> desktop_err E \<noteq> LOGIN_MSG_DESKTOP_SESSION_NOT_READY then
         (True, send_login_error (desktop_err E) (c, g))
       else if \<not> host_str E (username r) \<and> username r \<noteq> cfg_id (conf g) then
         (False, send_login_error LOGIN_MSG_OFFLINE (c, g))
       else if click_only E (conf g) then
         let s = try_start_cm (my_id r) (my_name r) False (c, g) in
         (True, if get_version_number (version r) \<ge> get_version_number ''1.2.0''
                then send_login_error LOGIN_MSG_NO_PASSWORD_ACCESS s else s)
       else
         let (recent, c, g) = is_recent_session E False (c, g) in
         if recent then
           (True,
            if desktop_err E = [] then
              let (c, g) = send_logon_response E (c, g) in try_start_cm (my_id r) (my_name r) (authorized c) (c, g)
            else send_login_error (desktop_err E) (c, g))
         else if lr_password r = [] then
           (True,
            if desktop_err E = [] then try_start_cm (my_id r) (my_name r) False (c, g)
            else send_login_error ''Desktop session not ready, password empty'' (c, g))
         else (True, login_by_password E r (c, g)))"

definition on_auth_2fa :: "login_env \<Rightarrow> string \<Rightarrow> bytes \<Rightarrow> state \<Rightarrow> bool \<times> state" where
  "on_auth_2fa E code hw s =
    (let ((failure, res), (c, g)) = check_failure E 1 s in
     if \<not> res then (True, c, g)
     else
       (case require_2fa c of
          None \<Rightarrow> (True, c, g)
        | Some totp \<Rightarrow>
            (case check_current E totp code of
               None \<Rightarrow> (True, c, g)
             | Some res \<Rightarrow>
                 if res then
                   let (c, g) = update_failure failure True 1 (c, g);
                       c = c\<lparr>require_2fa := None\<rparr>;
                       g = set_session_2fa (instant E) (key_of c) g;
                       (c, g) = send_logon_response E (c, g);
                       (c, g) = try_start_cm (my_id (lr c)) (my_name (lr c)) (authorized c) (c, g)
                   in (True, c,
                       if hw \<noteq> [] \<and> enable_trusted_devices (conf g) then
                         g\<lparr>conf := add_trusted_device (dev E)
                           \<lparr>hwid = hw, td_time = get_time (dev E), td_id = my_id (lr c), td_name = my_name (lr c),
                            td_platform = my_platform (lr c)\<rparr> (conf g)\<rparr>
                       else g)
                 else
                   let s = update_failure failure False 1 (c, g) in (True, send_login_error LOGIN_MSG_2FA_WRONG s))))"

definition on_invite_request :: "string \<Rightarrow> string \<Rightarrow> string \<Rightarrow> state \<Rightarrow> bool \<times> state" where
  "on_invite_request from_id from_name pw = (\<lambda>(c, g).
    (True, try_start_cm from_id from_name False (c\<lparr>pending_invite := Some pw\<rparr>, g)))"

text \<open>\<open>uuid\<close> is the token of the message when it has the right length.\<close>

definition on_switch_sides_response :: "login_env \<Rightarrow> login_request option \<Rightarrow> bytes option \<Rightarrow> state \<Rightarrow> bool \<times> state" where
  "on_switch_sides_response E mr u s =
    (case mr of
       None \<Rightarrow> (True, s)
     | Some r \<Rightarrow>
         let (c, g) = handle_login_request_without_validation E r s;
             kept = (\<lambda>i. case switch_sides g i of None \<Rightarrow> None
                      | Some (t, v) \<Rightarrow> if instant E - t < 10 * 1000 then Some (t, v) else None);
             old = kept (my_id r);
             g = g\<lparr>switch_sides := kept(my_id r := None)\<rparr>
         in (case (u, old) of
               (Some u_new, Some (_, u_old)) \<Rightarrow>
                 if u_new = u_old then
                   (True, try_start_cm (my_id r) (my_name r) True (send_logon_response E (c\<lparr>from_switch := True\<rparr>, g)))
                 else (True, c, g)
             | _ \<Rightarrow> (True, c, g)))"

definition insert_switch_sides_uuid :: "nat \<Rightarrow> string \<Rightarrow> bytes \<Rightarrow> server \<Rightarrow> server" where
  "insert_switch_sides_uuid now i u g = g\<lparr>switch_sides := (switch_sides g)(i \<mapsto> (now, u))\<rparr>"

definition on_terminal_action :: "login_env \<Rightarrow> TerminalAction \<Rightarrow> state \<Rightarrow> bool \<times> state" where
  "on_terminal_action E a = (\<lambda>(c, g).
    (if authorized c then
       if port_forward_socket c then (True, c, g)
       else if terminal c then
         let px = new_proxy (terminal_service_id c) None (terms g);
             (res, ts) = handle_action (instant E) (pty E) px a (terms g);
             g = g\<lparr>terms := ts\<rparr>
         in (True, case res of Inr (Some r) \<Rightarrow> send (TerminalMsg r) (c, g) | _ \<Rightarrow> (c, g))
       else (True, c, g)
     else (True, c, g)))"

definition on_close_reason :: "state \<Rightarrow> bool \<times> state" where
  "on_close_reason = (\<lambda>(c, g).
    (if authorized c \<and> \<not> port_forward_socket c then
       let (c, g) = on_close (c, g) in (False, c, check_remove_session (conn_id c) (key_of c) g)
     else (True, c, g)))"

datatype message =
  LoginRequestMsg login_request
| Auth2fa string bytes
| InviteRequest string string string
| SwitchSidesResponse "login_request option" "bytes option"
| TerminalActionMsg TerminalAction
| CloseReason

definition on_message :: "login_env \<Rightarrow> message \<Rightarrow> state \<Rightarrow> bool \<times> state" where
  "on_message E msg s =
    (case msg of
       LoginRequestMsg r \<Rightarrow> on_login_request E r s
     | Auth2fa code hw \<Rightarrow> on_auth_2fa E code hw s
     | InviteRequest i n pw \<Rightarrow> on_invite_request i n pw s
     | SwitchSidesResponse r u \<Rightarrow> on_switch_sides_response E r u s
     | TerminalActionMsg a \<Rightarrow> on_terminal_action E a s
     | CloseReason \<Rightarrow> on_close_reason s)"

text \<open>The connection manager lets the peer in.\<close>

definition cm_authorize :: "login_env \<Rightarrow> state \<Rightarrow> state" where
  "cm_authorize E = (\<lambda>(c, g). send_logon_response E (c\<lparr>require_2fa := None\<rparr>, g))"

text \<open>A new connection, and the end of \<open>start\<close>: \<open>forward_failed\<close> is the result of the port-forwarding
  loop of an authorized connection.\<close>

definition new_connection :: "int \<Rightarrow> string \<Rightarrow> (nat \<Rightarrow> nat) \<Rightarrow> (nat \<Rightarrow> nat) \<Rightarrow> string option \<Rightarrow> server \<Rightarrow> state" where
  "new_connection i addr rs rs' secret g =
    (let g = alive_new i g;
         (slt, cf) = get_salt rs (conf g);
         chal = get_auto_password rs' 6;
         c = \<lparr>conn_id = i, ip = addr, hash_salt = slt, hash_challenge = chal, require_2fa = secret, authorized = False,
              lr = \<lparr>username = [], lr_password = [], my_id = [], my_name = [], my_platform = [], version = [],
                    session_id = 0, lr_hwid = [], tokenex = [], lr_union = NoUnion\<rparr>,
              file_transfer = None, view_camera = False, terminal = False, terminal_service_id = [],
              port_forward_socket = False, port_forward_address = [], from_switch = False,
              keyboard = permission ''enable-keyboard'' cf, services_subed = False, authed_conn = None,
              session_clock = None, pending_invite = None, closed = False, log = []\<rparr>
     in send (HashMsg slt chal) (c, g\<lparr>conf := cf\<rparr>))"

text \<open>The port-forwarding socket is taken; when its loop fails, the connection closes and its session may go.\<close>

definition stop_forwarding :: "bool \<Rightarrow> state \<Rightarrow> state" where
  "stop_forwarding failed = (\<lambda>(c, g).
    (let forwarding = port_forward_socket c; c = c\<lparr>port_forward_socket := False\<rparr> in
     if forwarding \<and> failed then
       let (c, g) = on_close (c, g) in (c, check_remove_session (conn_id c) (key_of c) g)
     else (c, g)))"

definition end_connection :: "(nat \<Rightarrow> nat) \<Rightarrow> bool \<Rightarrow> state \<Rightarrow> state" where
  "end_connection rs forward_failed = (\<lambda>(c, g).
    (let g = (if authorized c \<and> get_option (conf g) ''unattended-access'' \<noteq> ''true''
              then g\<lparr>conf := update_temporary_password rs (conf g)\<rparr> else g);
         (c, g) = on_close (stop_forwarding forward_failed (c, g));
         g = (if authed_conn c \<noteq> None then authed_drop (conn_id c) g else g)
     in (c\<lparr>authed_conn := None\<rparr>, alive_drop (conn_id c) g)))"

section \<open>Lemmas\<close>

lemma send_simps [simp]:
  "authorized (fst (send r s)) = authorized (fst s)" "snd (send r s) = snd s"
  "log (fst (send r s)) = log (fst s) @ [r]"
  by (cases s; simp add: send_def)+

lemma send_login_error_simps [simp]:
  "authorized (fst (send_login_error e s)) = authorized (fst s)" "snd (send_login_error e s) = snd s"
  by (cases s; simp add: send_login_error_def)+

lemma try_start_cm_simps [simp]:
  "authorized (fst (try_start_cm a b x s)) = authorized (fst s)" "snd (try_start_cm a b x s) = snd s"
  by (simp_all add: try_start_cm_def)

text \<open>What an operation may change of the connection: only \<open>log\<close> and the named fields. The operations
  on passwords, sessions and failures leave the connection as it is.\<close>

lemma validate_one_password_conn:
  "validate_one_password E pw (c, g) = (ok, c', g') \<Longrightarrow>
   c' = c \<and> conf g' = conf g \<and> sess g' = sess g \<and> cells g' = cells g \<and> login_failures g' = login_failures g \<and>
   authed_conns g' = authed_conns g \<and> (ok \<longleftrightarrow> pw \<noteq> [] \<and> hash_matches E c pw)"
  by (auto simp: validate_one_password_def split: if_splits)

lemma is_recent_session_conn:
  assumes "is_recent_session E t (c, g) = (ok, c', g')"
  shows "c' = c \<and> conf g' = conf g \<and> login_failures g' = login_failures g \<and> authed_conns g' = authed_conns g \<and>
    (ok \<longrightarrow> lr_password (lr c) \<noteq> [] \<and> (\<exists>s. sess g (key_of c) = Some s \<and> fresh_session (instant E) g s \<and>
       (if t then tfa s else random_password s \<noteq> [] \<and> hash_matches E c (random_password s))))"
proof (cases "sess (retain_sessions (instant E) g) (key_of c)")
  case None
  with assms show ?thesis by (auto simp: is_recent_session_def retain_sessions_def)
next
  case (Some s)
  then have s: "sess g (key_of c) = Some s" "fresh_session (instant E) g s"
    by (auto simp: retain_sessions_def split: option.splits if_splits)
  show ?thesis
  proof (cases "lr_password (lr c) \<noteq> [] \<and> \<not> t")
    case True
    with assms Some have "validate_one_password E (random_password s) (c, retain_sessions (instant E) g) = (ok, c', g')"
      by (simp add: is_recent_session_def Let_def)
    from validate_one_password_conn[OF this] s True show ?thesis by (auto simp: retain_sessions_def)
  next
    case False
    with assms Some s show ?thesis
      by (auto simp: is_recent_session_def Let_def retain_sessions_def split: if_splits)
  qed
qed

text \<open>The credentials that make \<open>validate_password\<close> accept.\<close>

definition password_accepted :: "login_env \<Rightarrow> connection \<Rightarrow> config \<Rightarrow> bool" where
  "password_accepted E c cf \<longleftrightarrow>
    get_option cf ''sso-login'' = ''true'' \<and> length (tokenex (lr c)) = 32 \<and> sso_login E (tokenex (lr c)) \<or>
    get_option cf ''sso-login'' \<noteq> ''true'' \<and> tokenex (lr c) \<noteq> [] \<and> team_file E \<and> token_status E = Some ''OK'' \<or>
    temporary_enabled cf \<and> temporary_password cf \<noteq> [] \<and> hash_matches E c (temporary_password cf) \<or>
    permanent_enabled cf \<and> permanent_password cf \<noteq> [] \<and> hash_matches E c (permanent_password cf)"

lemma update_or_insert_frame:
  "conf (update_or_insert_session n k p t g) = conf g"
  "login_failures (update_or_insert_session n k p t g) = login_failures g"
  "authed_conns (update_or_insert_session n k p t g) = authed_conns g"
  by (simp_all add: update_or_insert_session_def insert_session_def split: option.split)

lemma validate_password_conn:
  assumes "validate_password E (c, g) = (ok, c', g')"
  shows "c' = c \<and> conf g' = conf g \<and> login_failures g' = login_failures g \<and> authed_conns g' = authed_conns g \<and>
    (ok \<longrightarrow> password_accepted E c (conf g))"
proof -
  let ?temp = "temporary_password (conf g)" and ?perm = "permanent_password (conf g)"
  obtain ok1 c1 g1 where one: "(if temporary_enabled (conf g) then validate_one_password E ?temp (c, g) else (False, c, g)) = (ok1, c1, g1)"
    by (metis prod_cases3)
  have c1: "c1 = c \<and> conf g1 = conf g \<and> login_failures g1 = login_failures g \<and> authed_conns g1 = authed_conns g \<and>
      (ok1 \<longrightarrow> temporary_enabled (conf g) \<and> ?temp \<noteq> [] \<and> hash_matches E c ?temp)"
    using one validate_one_password_conn[of E ?temp c g ok1 c1 g1] by (auto split: if_splits)
  consider (sso) "get_option (conf g) ''sso-login'' = ''true''"
    | (token) "get_option (conf g) ''sso-login'' \<noteq> ''true''" "tokenex (lr c) \<noteq> [] \<and> team_file E"
    | (plain) "get_option (conf g) ''sso-login'' \<noteq> ''true''" "\<not> (tokenex (lr c) \<noteq> [] \<and> team_file E)"
    by blast
  then show ?thesis
  proof cases
    case sso
    with assms show ?thesis
      by (auto simp: validate_password_def Let_def validate_sso_password_def password_accepted_def split: if_splits)
  next
    case token
    with assms show ?thesis
      by (auto simp: validate_password_def Let_def password_accepted_def split: option.splits)
  next
    case plain
    show ?thesis
    proof (cases ok1)
      case True
      with plain assms one c1 show ?thesis
        by (auto simp: validate_password_def Let_def update_or_insert_frame password_accepted_def)
    next
      case False
      show ?thesis
      proof (cases "permanent_enabled (conf g1)")
        case perm: True
        with False plain assms one c1 have "validate_one_password E ?perm (c, g1) = (ok, c', g')"
          by (auto simp: validate_password_def Let_def)
        from validate_one_password_conn[OF this] perm c1 show ?thesis by (auto simp: password_accepted_def)
      next
        case False': False
        with False plain assms one c1 show ?thesis by (auto simp: validate_password_def Let_def)
      qed
    qed
  qed
qed

subsection \<open>What login steps leave alone\<close>

definition same_conn :: "connection \<Rightarrow> connection \<Rightarrow> bool" where
  "same_conn c c' \<longleftrightarrow>
    conn_id c' = conn_id c \<and> ip c' = ip c \<and> hash_salt c' = hash_salt c \<and> hash_challenge c' = hash_challenge c \<and>
    from_switch c' = from_switch c \<and> authorized c' = authorized c"

definition same_server :: "server \<Rightarrow> server \<Rightarrow> bool" where
  "same_server g g' \<longleftrightarrow>
    sess g' = sess g \<and> cells g' = cells g \<and> login_failures g' = login_failures g \<and>
    authed_conns g' = authed_conns g \<and> switch_sides g' = switch_sides g"

text \<open>Reading the trusted devices changes only what is remembered of them.\<close>

definition same_policy :: "config \<Rightarrow> config \<Rightarrow> bool" where
  "same_policy c c' \<longleftrightarrow> (\<exists>td tc. c' = c\<lparr>trusted_devices := td, trusted_cache := tc\<rparr>)"

lemma same_policy_refl [simp]: "same_policy c c"
  unfolding same_policy_def by (rule exI[of _ "trusted_devices c"], rule exI[of _ "trusted_cache c"]) simp

lemma set_trusted_policy: "same_policy c (set_trusted_devices E ds c)"
  by (auto simp: set_trusted_devices_eq) (auto simp: same_policy_def)

lemma same_policy_cache:
  assumes "same_policy c c'"
  shows "same_policy c (c'\<lparr>trusted_cache := x\<rparr>)"
proof -
  from assms obtain td tc where "c' = c\<lparr>trusted_devices := td, trusted_cache := tc\<rparr>"
    by (auto simp: same_policy_def)
  then have "c'\<lparr>trusted_cache := x\<rparr> = c\<lparr>trusted_devices := td, trusted_cache := x\<rparr>" by simp
  then show ?thesis unfolding same_policy_def by blast
qed

lemma get_trusted_policy:
  assumes "get_trusted_devices E c = (ds, c')"
  shows "same_policy c c'"
proof -
  obtain d succ store where
    dec: "decrypt_str_or_original (dev_vault E) (trusted_devices c) PASSWORD_ENC_VERSION = (d, succ, store)"
    by (metis prod_cases3)
  show ?thesis
  proof (cases "\<not> snd (trusted_cache c) \<and> succ")
    case True
    then have "\<exists>c1 x. c' = c1\<lparr>trusted_cache := x\<rparr> \<and> (c1 = c \<or> (\<exists>ks. c1 = set_trusted_devices E ks c))"
      using assms dec by (auto simp: get_trusted_devices_def Let_def split: if_splits)
    then show ?thesis using set_trusted_policy[of c E] same_policy_cache same_policy_refl by metis
  next
    case False
    then show ?thesis using assms dec by (auto simp: get_trusted_devices_def split: if_splits)
  qed
qed

lemma same_policy_get_option: "same_policy c c' \<Longrightarrow> get_option c' k = get_option c k"
  by (auto simp: same_policy_def get_option_def)

lemma same_policy_accepted:
  assumes "same_policy cf cf'" and "same_conn c c'" and "lr c' = lr c"
  shows "password_accepted E c' cf' = password_accepted E c cf"
proof -
  have "verification_method cf' = verification_method cf"
    using assms(1) by (simp add: verification_method_def same_policy_get_option)
  moreover have "temporary_password cf' = temporary_password cf" "permanent_password cf' = permanent_password cf"
    using assms(1) by (auto simp: same_policy_def)
  moreover have "hash_matches E c' = hash_matches E c"
    using assms(2,3) by (auto simp: same_conn_def hash_matches_def fun_eq_iff)
  ultimately show ?thesis
    by (simp add: password_accepted_def assms(3) same_policy_get_option[OF assms(1)] temporary_enabled_def permanent_enabled_def)
qed

definition trusted_for :: "login_env \<Rightarrow> login_request \<Rightarrow> config \<Rightarrow> bool" where
  "trusted_for E r cf \<longleftrightarrow> lr_hwid r \<noteq> [] \<and> enable_trusted_devices cf \<and>
    (\<exists>d \<in> set (fst (get_trusted_devices (dev E) cf)). hwid d = lr_hwid r \<and> \<not> outdate (dev E) d \<and>
      td_id d = my_id r \<and> td_name d = my_name r \<and> td_platform d = my_platform r)"

lemma request_recorded:
  assumes "handle_login_request_without_validation E r (c, g) = (c', g')"
  shows "same_conn c c' \<and> lr c' = r \<and> same_server g g' \<and> same_policy (conf g) (conf g') \<and> terms g' = terms g \<and>
    terminal c' = terminal c \<and>
    (require_2fa c' = require_2fa c \<or> require_2fa c' = None \<and> trusted_for E r (conf g))"
proof (cases "require_2fa c \<noteq> None \<and> lr_hwid r \<noteq> [] \<and> enable_trusted_devices (conf g)")
  case True
  obtain ds cf where ds: "get_trusted_devices (dev E) (conf g) = (ds, cf)" by force
  note pol = get_trusted_policy[OF ds]
  show ?thesis
  proof (cases "find (\<lambda>d. hwid d = lr_hwid r) ds")
    case None
    with assms True ds pol show ?thesis
      by (auto simp: handle_login_request_without_validation_def Let_def same_conn_def same_server_def)
  next
    case (Some d)
    then have "d \<in> set ds" "hwid d = lr_hwid r" by (auto simp: find_Some_iff)
    with assms True ds pol Some show ?thesis
      by (auto simp: handle_login_request_without_validation_def Let_def same_conn_def same_server_def
          trusted_for_def split: if_splits)
  qed
next
  case False
  with assms show ?thesis
    by (auto simp: handle_login_request_without_validation_def Let_def same_conn_def same_server_def)
qed

lemma same_conn_log [simp]: "same_conn c (c'\<lparr>log := x\<rparr>) = same_conn c c'"
  by (simp add: same_conn_def)

lemma send_state: "send r (c, g) = (c\<lparr>log := log c @ [r]\<rparr>, g)"
  by (simp add: send_def)

lemma send_login_error_state: "\<exists>r. send_login_error e (c, g) = (c\<lparr>log := log c @ [r]\<rparr>, g)"
  unfolding send_login_error_def send_def prod.case by blast

lemma union_handled:
  assumes "handle_union E u (c, g) = (go, c', g')"
  shows "same_conn c c' \<and> lr c' = lr c \<and> require_2fa c' = require_2fa c \<and> same_server g g' \<and> conf g' = conf g"
proof -
  show ?thesis
    using assms
    by (cases u) (auto simp: handle_union_def send_login_error_def send_def Let_def same_conn_def same_server_def
        split: if_splits prod.splits sum.splits)
qed

end
