(* ===== verification/Login_Security.thy ===== *)
theory Login_Security
  imports Login_Session
begin

text \<open>
  What the login code promises: which credentials let a peer in, how guesses are counted, that a
  connection is registered exactly while it is authorized, that a forbidden kind of session is refused,
  and two places where the code lets a peer do more than a logged-in user should have to fear: the
  second factor alone opens a session, and a login request that never succeeds still creates a terminal
  service.
\<close>

section \<open>Sessions and factors\<close>

lemma retained: "sess (retain_sessions n g) k = Some s \<Longrightarrow> sess g k = Some s \<and> fresh_session n g s"
  by (simp add: retain_sessions_def split: option.splits if_splits)

lemma retain_cells: "cells (retain_sessions n g) = cells g"
  by (simp add: retain_sessions_def)

lemma recent_sessions:
  assumes "is_recent_session E t (c, g) = (ok, c', g')" and "sess g' k = Some s"
  shows "sess g k = Some s \<and> cells g' = cells g"
proof -
  have "sess g' = sess (retain_sessions (instant E) g) \<and> cells g' = cells g"
    using assms(1)
    by (auto simp: is_recent_session_def Let_def retain_cells validate_one_password_def split: option.splits if_splits)
  then show ?thesis using assms(2) retained by metis
qed

lemma validate_sessions:
  assumes "validate_password E (c, g) = (ok, c', g')" and "sess g' (key_of c) = Some s" and "tfa s"
  shows "sess g (key_of c) = Some s \<and> cells g' = cells g"
proof -
  let ?temp = "temporary_password (conf g)" and ?perm = "permanent_password (conf g)"
  obtain ok1 c1 g1 where one: "(if temporary_enabled (conf g) then validate_one_password E ?temp (c, g) else (False, c, g)) = (ok1, c1, g1)"
    by (metis prod_cases3)
  have c1: "c1 = c \<and> sess g1 = sess g \<and> cells g1 = cells g"
    using one validate_one_password_conn[of E ?temp c g ok1 c1 g1] by (auto split: if_splits)
  consider (sso) "get_option (conf g) ''sso-login'' = ''true''"
    | (token) "get_option (conf g) ''sso-login'' \<noteq> ''true''" "tokenex (lr c) \<noteq> [] \<and> team_file E"
    | (plain) "get_option (conf g) ''sso-login'' \<noteq> ''true''" "\<not> (tokenex (lr c) \<noteq> [] \<and> team_file E)"
    by blast
  then show ?thesis
  proof cases
    case sso
    with assms show ?thesis by (auto simp: validate_password_def Let_def split: if_splits)
  next
    case token
    with assms show ?thesis by (auto simp: validate_password_def Let_def split: option.splits)
  next
    case plain
    show ?thesis
    proof (cases ok1)
      case True
      with plain assms(1) one c1 have "g' = update_or_insert_session (instant E) (key_of c) (Some ?temp) (Some False) g1"
        by (auto simp: validate_password_def Let_def)
      with assms(2,3) show ?thesis
        by (auto simp: update_or_insert_session_def insert_session_def split: option.splits)
    next
      case False
      show ?thesis
      proof (cases "permanent_enabled (conf g1)")
        case perm: True
        with False plain assms(1) one c1 have v: "validate_one_password E (permanent_password (conf g1)) (c, g1) = (ok, c', g')"
          by (auto simp: validate_password_def Let_def)
        from validate_one_password_conn[OF v] c1 assms(2) show ?thesis by auto
      next
        case False': False
        with False plain assms one c1 show ?thesis by (auto simp: validate_password_def Let_def)
      qed
    qed
  qed
qed

lemma enter_session_authorized: "authorized (fst (enter_session E s))"
  by (cases s) (simp add: enter_session_def send_def sub_monitor_services_at_login_def Let_def)

definition fresh_second_factor :: "login_env \<Rightarrow> session_key \<Rightarrow> server \<Rightarrow> bool" where
  "fresh_second_factor E k g \<longleftrightarrow> (case sess g k of None \<Rightarrow> False | Some s \<Rightarrow> fresh_session (instant E) g s \<and> tfa s)"

definition fresh_first_factor :: "login_env \<Rightarrow> connection \<Rightarrow> server \<Rightarrow> bool" where
  "fresh_first_factor E c g \<longleftrightarrow>
    (case sess g (key_of c) of None \<Rightarrow> False
     | Some s \<Rightarrow> fresh_session (instant E) g s \<and> random_password s \<noteq> [] \<and> hash_matches E c (random_password s))"

lemma logon_needs:
  assumes "send_logon_response E (c, g) = (c', g')" and "\<not> authorized c" and "authorized c'"
  shows "require_2fa c = None \<or> from_switch c \<or> fresh_second_factor E (key_of c) g"
proof (rule ccontr)
  assume no: "\<not> ?thesis"
  obtain ok c1 g1 where r: "is_recent_session E True (c, g) = (ok, c1, g1)" by (metis prod_cases3)
  from is_recent_session_conn[OF r] no have "\<not> ok" "c1 = c" by (auto simp: fresh_second_factor_def)
  with assms no r show False
    by (auto simp: send_logon_response_def send_login_error_def send_def)
qed

lemma logon_authorizes:
  assumes "require_2fa c = None \<or> from_switch c"
  shows "authorized (fst (send_logon_response E (c, g)))"
proof (cases "authorized c")
  case True then show ?thesis by (simp add: send_logon_response_def)
next
  case False
  obtain ok c1 g1 where r: "is_recent_session E True (c, g) = (ok, c1, g1)" by (metis prod_cases3)
  with is_recent_session_conn[OF r] have "c1 = c" by simp
  with False assms r show ?thesis
    by (auto simp: send_logon_response_def enter_session_authorized)
qed

lemma update_failure_frame:
  "update_failure ft b i (c, g) = (c, g\<lparr>login_failures := login_failures (snd (update_failure ft b i (c, g)))\<rparr>)"
  by (cases ft) (simp add: update_failure_def Let_def split: prod.split)

text \<open>The two factors of a login request \<open>r\<close>, over the state in which it arrives.\<close>

definition first_factor :: "login_env \<Rightarrow> login_request \<Rightarrow> connection \<Rightarrow> server \<Rightarrow> bool" where
  "first_factor E r c g \<longleftrightarrow>
    password_accepted E (c\<lparr>lr := r\<rparr>) (conf g) \<or> fresh_first_factor E (c\<lparr>lr := r\<rparr>) g"

definition second_factor :: "login_env \<Rightarrow> login_request \<Rightarrow> connection \<Rightarrow> server \<Rightarrow> bool" where
  "second_factor E r c g \<longleftrightarrow>
    require_2fa c = None \<or> trusted_for E r (conf g) \<or> from_switch c \<or> fresh_second_factor E (key_of (c\<lparr>lr := r\<rparr>)) g"

lemma check_failure_frame:
  assumes "check_failure E i (c, g) = ((f, res), c', g')"
  shows "g' = g \<and> same_conn c c' \<and> lr c' = lr c \<and> require_2fa c' = require_2fa c"
  using assms by (auto simp: check_failure_def send_login_error_def send_def Let_def same_conn_def split: if_splits prod.splits option.splits)

lemma update_failure_simps [simp]:
  "authorized (fst (update_failure ft b i s)) = authorized (fst s)"
  "fst (update_failure ft b i s) = fst s"
  "sess (snd (update_failure ft b i s)) = sess (snd s)" "cells (snd (update_failure ft b i s)) = cells (snd s)"
  "conf (snd (update_failure ft b i s)) = conf (snd s)"
  by (cases s; cases "fst ft"; cases ft; simp add: update_failure_def Let_def split: prod.splits)+

lemma check_failure_pass: "check_failure E i (c, g) = ((f, True), c', g') \<Longrightarrow> c' = c"
  by (auto simp: check_failure_def Let_def split: if_splits prod.splits)

lemma message_sent:
  "send_login_error e s = (c', g') \<Longrightarrow> authorized c' = authorized (fst s)"
  "try_start_cm a b x s = (c', g') \<Longrightarrow> authorized c' = authorized (fst s)"
  by (metis fst_conv send_login_error_simps(1), metis fst_conv try_start_cm_simps(1))

lemma logon_started:
  assumes "(let (c, g) = send_logon_response E (c, g) in try_start_cm a b (authorized c) (c, g)) = (c', g')"
    and "\<not> authorized c" and "authorized c'"
  shows "require_2fa c = None \<or> from_switch c \<or> fresh_second_factor E (key_of c) g"
proof -
  obtain c1 g1 where l: "send_logon_response E (c, g) = (c1, g1)" by (metis surj_pair)
  have "authorized c1" using assms(1,3) l by (auto simp: try_start_cm_def send_def)
  with logon_needs[OF l assms(2)] show ?thesis .
qed

lemma login_by_password_needs:
  assumes "login_by_password E r (c, g) = (c', g')" and "\<not> authorized c" and "authorized c'"
  shows "password_accepted E c (conf g) \<and>
    (require_2fa c = None \<or> from_switch c \<or> fresh_second_factor E (key_of c) g)"
proof -
  obtain f res c1 g1 where cf: "check_failure E 0 (c, g) = ((f, res), c1, g1)" by (metis prod.collapse)
  note frame = check_failure_frame[OF cf]
  have na: "\<not> authorized c1" using frame assms(2) by (simp add: same_conn_def)
  have auth: "authorized (fst (login_by_password E r (c, g)))" using assms(1,3) by simp
  have res: "res" by (rule ccontr) (use auth na in \<open>simp add: login_by_password_def cf\<close>)
  then have same: "c1 = c" using cf check_failure_pass by simp
  obtain ok c2 g2 where v: "validate_password E (c1, g1) = (ok, c2, g2)" by (metis prod_cases3)
  note vf = validate_password_conn[OF v]
  have na2: "\<not> authorized c2" using na vf by simp
  have ok: ok
    by (rule ccontr) (use auth na2 res in \<open>simp add: login_by_password_def cf v Let_def split: if_splits\<close>)
  define g3 where "g3 = snd (update_failure f True 0 (c2, g2))"
  have uf: "update_failure f True 0 (c2, g2) = (c2, g3)"
    unfolding g3_def by (metis update_failure_frame snd_conv)
  have s3: "sess g3 = sess g2" "cells g3 = cells g2"
    unfolding g3_def by simp_all
  have d: "desktop_err E = []"
    by (rule ccontr) (use auth na2 res ok in \<open>simp add: login_by_password_def cf v uf Let_def\<close>)
  have "(let (c, g) = send_logon_response E (c2, g3) in try_start_cm (my_id r) (my_name r) (authorized c) (c, g)) = (c', g')"
    using assms(1) by (simp add: login_by_password_def cf v uf Let_def res ok d)
  from logon_started[OF this] assms(3) na vf
  have "require_2fa c2 = None \<or> from_switch c2 \<or> fresh_second_factor E (key_of c2) g3" by simp
  then have "require_2fa c = None \<or> from_switch c \<or> fresh_second_factor E (key_of c) g"
    using validate_sessions[OF v] same vf frame s3
    by (auto simp: fresh_second_factor_def fresh_session_def split: option.splits)
  then show ?thesis using ok vf same frame by simp
qed

lemma same_key: "lr c' = lr c \<Longrightarrow> key_of c' = key_of c"
  by (simp add: key_of_def)

lemma login_request_needs:
  assumes "on_login_request E r (c, g) = (go, c', g')" and "\<not> authorized c" and "authorized c'"
  shows "first_factor E r c g \<and> second_factor E r c g"
proof -
  let ?c = "c\<lparr>lr := r\<rparr>"
  obtain c1 g1 where rr: "handle_login_request_without_validation E r (c, g) = (c1, g1)" by (metis surj_pair)
  note f1 = request_recorded[OF rr]
  obtain go2 c2 g2 where hu: "handle_union E (lr_union r) (c1, g1) = (go2, c2, g2)" by (metis prod_cases3)
  note f2 = union_handled[OF hu]
  obtain ok c3 g3 where rs: "is_recent_session E False (c2, g2) = (ok, c3, g3)" by (metis prod_cases3)
  note f3 = is_recent_session_conn[OF rs]
  have na: "\<not> authorized c1" "\<not> authorized c2" "\<not> authorized c3"
    using f1 f2 f3 assms(2) by (auto simp: same_conn_def)
  let ?rest = "if ok then (if desktop_err E = [] then
        (let (c, g) = send_logon_response E (c3, g3) in try_start_cm (my_id r) (my_name r) (authorized c) (c, g))
      else send_login_error (desktop_err E) (c3, g3))
    else if lr_password r = [] then
      (if desktop_err E = [] then try_start_cm (my_id r) (my_name r) False (c3, g3)
       else send_login_error ''Desktop session not ready, password empty'' (c3, g3))
    else login_by_password E r (c3, g3)"
  have auth: "authorized (fst (snd (on_login_request E r (c, g))))" using assms(1,3) by simp
  have go: go2 by (rule ccontr) (use auth na in \<open>simp add: on_login_request_def rr hu\<close>)
  have d: "\<not> (desktop_err E \<noteq> [] \<and> desktop_err E \<noteq> LOGIN_MSG_DESKTOP_SESSION_NOT_READY)"
    by (rule notI) (use auth na go in \<open>simp add: on_login_request_def rr hu\<close>)
  have h: "\<not> (\<not> host_str E (username r) \<and> username r \<noteq> cfg_id (conf g2))"
    by (rule notI) (use auth na go d in \<open>simp add: on_login_request_def rr hu\<close>)
  have k: "\<not> click_only E (conf g2)"
    by (rule notI) (use auth na go d h in \<open>simp add: on_login_request_def rr hu Let_def split: if_splits\<close>)
  have step: "?rest = (c', g')"
    using assms(1) na go d h k
    by (simp add: on_login_request_def rr hu rs Let_def split: if_splits)
  have same: "same_conn ?c c3" "lr c3 = lr ?c" "key_of c3 = key_of ?c" "from_switch c3 = from_switch c"
    using f1 f2 f3 by (auto simp: same_conn_def key_of_def)
  have pol: "same_policy (conf g) (conf g3)" using f1 f2 f3 by simp
  have accepted: "password_accepted E c3 (conf g3) = password_accepted E ?c (conf g)"
    using same_policy_accepted[OF pol same(1,2)] .
  have hm: "hash_matches E c2 = hash_matches E ?c"
    using f1 f2 by (auto simp: same_conn_def hash_matches_def fun_eq_iff)
  have g2: "sess g2 = sess g" "cells g2 = cells g" "key_of c2 = key_of ?c"
    using f1 f2 by (auto simp: same_server_def key_of_def)
  have second: "second_factor E r c g"
    if "require_2fa c3 = None \<or> from_switch c3 \<or> fresh_second_factor E (key_of c3) g3"
  proof -
    have "fresh_second_factor E (key_of c3) g3 \<Longrightarrow> fresh_second_factor E (key_of ?c) g"
      using recent_sessions[OF rs] same(3) g2
      by (auto simp: fresh_second_factor_def fresh_session_def split: option.splits)
    then show ?thesis using that same(4) f1 f2 f3 by (auto simp: second_factor_def)
  qed
  show ?thesis
  proof (cases ok)
    case True
    then have d: "(let (c, g) = send_logon_response E (c3, g3) in try_start_cm (my_id r) (my_name r) (authorized c) (c, g)) = (c', g')"
      using step assms(3) na(3) by (cases "desktop_err E = []") (auto dest: message_sent)
    have "fresh_first_factor E ?c g"
      using True f3 g2 hm by (auto simp: fresh_first_factor_def fresh_session_def)
    then show ?thesis using second logon_started[OF d na(3) assms(3)] by (simp add: first_factor_def)
  next
    case False
    then have "login_by_password E r (c3, g3) = (c', g')"
      using step assms(3) na(3)
      by (cases "lr_password r = []"; cases "desktop_err E = []") (auto dest: message_sent)
    from login_by_password_needs[OF this na(3) assms(3)] show ?thesis
      using second accepted by (auto simp: first_factor_def)
  qed
qed

definition fresh_token :: "login_env \<Rightarrow> server \<Rightarrow> string \<Rightarrow> bytes \<Rightarrow> bool" where
  "fresh_token E g i u \<longleftrightarrow>
    (case switch_sides g i of None \<Rightarrow> False | Some (t, v) \<Rightarrow> instant E - t < 10 * 1000 \<and> v = u)"

lemma switch_sides_needs:
  assumes "on_switch_sides_response E mr u (c, g) = (go, c', g')" and "\<not> authorized c" and "authorized c'"
  shows "\<exists>r v. mr = Some r \<and> u = Some v \<and> fresh_token E g (my_id r) v"
proof -
  have auth: "authorized (fst (snd (on_switch_sides_response E mr u (c, g))))" using assms(1,3) by simp
  obtain r where mr: "mr = Some r"
    using auth assms(2) by (cases mr) (simp_all add: on_switch_sides_response_def)
  obtain c1 g1 where rr: "handle_login_request_without_validation E r (c, g) = (c1, g1)" by (metis surj_pair)
  note f1 = request_recorded[OF rr]
  have na: "\<not> authorized c1" and sw: "switch_sides g1 = switch_sides g"
    using f1 assms(2) by (auto simp: same_conn_def same_server_def)
  obtain v where u: "u = Some v"
    using auth na by (cases u) (simp_all add: on_switch_sides_response_def mr rr Let_def)
  have "fresh_token E g (my_id r) v"
  proof (cases "switch_sides g (my_id r)")
    case None
    with auth na show ?thesis by (simp add: on_switch_sides_response_def mr rr Let_def u sw)
  next
    case (Some x)
    obtain t w where x: "x = (t, w)" by force
    show ?thesis
      using auth na Some x
      by (cases "instant E - t < 10 * 1000"; cases "v = w")
        (simp_all add: on_switch_sides_response_def mr rr Let_def u sw fresh_token_def)
  qed
  with mr u show ?thesis by blast
qed

lemma auth_2fa_needs:
  assumes "on_auth_2fa E code hw (c, g) = (go, c', g')" and "\<not> authorized c" and "authorized c'"
  shows "snd (fst (check_failure E 1 (c, g))) \<and>
    (\<exists>totp. require_2fa c = Some totp \<and> check_current E totp code = Some True)"
proof -
  obtain f res c1 g1 where cf: "check_failure E (Suc 0) (c, g) = ((f, res), c1, g1)" by (metis prod.collapse)
  have auth: "authorized (fst (snd (on_auth_2fa E code hw (c, g))))" using assms(1,3) by simp
  have na: "\<not> authorized c1" "require_2fa c1 = require_2fa c"
    using check_failure_frame[OF cf] assms(2) by (auto simp: same_conn_def)
  have res: res by (rule ccontr) (use auth na in \<open>simp add: on_auth_2fa_def cf\<close>)
  obtain totp where totp: "require_2fa c = Some totp"
    using auth na by (cases "require_2fa c") (simp_all add: on_auth_2fa_def cf res)
  obtain b where b: "check_current E totp code = Some b"
    using auth na totp by (cases "check_current E totp code") (simp_all add: on_auth_2fa_def cf res)
  have b by (rule ccontr) (use auth na totp b in \<open>simp add: on_auth_2fa_def cf res Let_def\<close>)
  with res cf totp b show ?thesis by simp
qed

lemma terminal_action_needs:
  "authorized (fst (snd (on_terminal_action E a (c, g)))) = authorized c"
  by (simp add: on_terminal_action_def Let_def send_def split: prod.splits sum.splits option.splits)

lemma on_close_simps [simp]: "authorized (fst (on_close s)) = authorized (fst s)"
  by (cases s) (simp add: on_close_def send_def Let_def)

lemma close_reason_needs: "authorized (fst (snd (on_close_reason (c, g)))) = authorized c"
  by (cases "on_close (c, g)") (use on_close_simps[of "(c, g)"] in \<open>simp add: on_close_reason_def Let_def\<close>)

text \<open>Every way a message can let a peer in.\<close>

definition credentials :: "login_env \<Rightarrow> message \<Rightarrow> connection \<Rightarrow> server \<Rightarrow> bool" where
  "credentials E msg c g =
    (case msg of
       LoginRequestMsg r \<Rightarrow> first_factor E r c g \<and> second_factor E r c g
     | Auth2fa code hw \<Rightarrow>
         snd (fst (check_failure E 1 (c, g))) \<and>
         (case require_2fa c of None \<Rightarrow> False | Some totp \<Rightarrow> check_current E totp code = Some True)
     | SwitchSidesResponse (Some r) (Some u) \<Rightarrow> fresh_token E g (my_id r) u
     | _ \<Rightarrow> False)"

text \<open>
  C9. The only messages that turn an unauthorized connection into an authorized one are: a login request
  with a first factor (an accepted password or token, or a fresh session whose random password the peer
  knows) and a second one (none asked for, a trusted device, a switched side, or a fresh session that
  passed it); a right one-time code while the address is not blocked; and a response that carries the
  fresh token of a side switch.
\<close>

theorem authorized_only_by_credentials:
  assumes "on_message E msg (c, g) = (go, c', g')" and "\<not> authorized c" and "authorized c'"
  shows "credentials E msg c g"
proof (cases msg)
  case (LoginRequestMsg r)
  with assms login_request_needs show ?thesis by (simp add: on_message_def credentials_def)
next
  case (Auth2fa code hw)
  with assms auth_2fa_needs[of E code hw c g go c' g'] show ?thesis
    by (auto simp: on_message_def credentials_def)
next
  case (InviteRequest i n pw)
  with assms show ?thesis by (auto simp: on_message_def on_invite_request_def try_start_cm_def send_def)
next
  case (SwitchSidesResponse mr u)
  with assms switch_sides_needs[of E mr u c g go c' g'] show ?thesis
    by (auto simp: on_message_def credentials_def)
next
  case (TerminalActionMsg a)
  with assms terminal_action_needs[of E a c g] show ?thesis by (simp add: on_message_def)
next
  case CloseReason
  with assms close_reason_needs[of c g] show ?thesis by (simp add: on_message_def)
qed

lemma check_failure_2fa_totp:
  assumes "snd (fst (check_failure E 1 (c, g)))"
  shows "check_failure E 1 (c, g) = ((fst (fst (check_failure E 1 (c, g))), True), c, g)"
  using assms by (auto simp: check_failure_def Let_def split: if_splits prod.splits option.splits)

text \<open>
  A right one-time code, sent before or without any password, authorizes a connection that asks for
  a second factor: nothing in the handler looks at the first factor.
\<close>

theorem totp_alone_authorizes:
  assumes "snd (fst (check_failure E 1 (c, g)))" and "require_2fa c = Some totp"
    and "check_current E totp code = Some True"
  shows "authorized (fst (snd (on_message E (Auth2fa code hw) (c, g))))"
proof -
  obtain f where f: "check_failure E (Suc 0) (c, g) = ((f, True), c, g)"
    using check_failure_2fa_totp[OF assms(1)] by auto
  define g1 where "g1 = snd (update_failure f True (Suc 0) (c, g))"
  have uf: "update_failure f True (Suc 0) (c, g) = (c, g1)" by (simp add: g1_def prod_eq_iff)
  let ?c = "c\<lparr>require_2fa := None\<rparr>"
  obtain c2 g2 where l: "send_logon_response E (?c, set_session_2fa (instant E) (key_of ?c) g1) = (c2, g2)"
    by (metis surj_pair)
  have "authorized c2" using logon_authorizes[of ?c E] l by (metis fst_conv connection.select_convs(5) connection.surjective connection.update_convs(5))
  moreover obtain c3 g3 where t: "try_start_cm (my_id (lr c2)) (my_name (lr c2)) (authorized c2) (c2, g2) = (c3, g3)"
    by (metis surj_pair)
  ultimately have "authorized c3" using message_sent(2)[OF t] by simp
  with f uf l t assms show ?thesis by (simp add: on_message_def on_auth_2fa_def Let_def)
qed

text \<open>The counters kept for an address: the minute of the last failure, the failures in it, all failures.\<close>

definition failures_of :: "server \<Rightarrow> nat \<Rightarrow> string \<Rightarrow> failure" where
  "failures_of g i a = (case login_failures g i a of None \<Rightarrow> (0, 0, 0) | Some f \<Rightarrow> f)"

definition blocked :: "int \<Rightarrow> failure \<Rightarrow> bool" where
  "blocked minute = (\<lambda>(f0, f1, f2). f2 > 30 \<or> minute = f0 \<and> f1 > 6)"

definition count_failure :: "int \<Rightarrow> failure \<Rightarrow> failure" where
  "count_failure minute = (\<lambda>(f0, f1, f2). (minute, if f0 = minute then f1 + 1 else 1, f2 + 1))"

lemma check_failure_outcome:
  "check_failure E i (c, g) =
    (((failures_of g i (ip c), get_time (dev E) div 60000), \<not> blocked (get_time (dev E) div 60000) (failures_of g i (ip c))),
     snd (check_failure E i (c, g)))"
  by (simp add: check_failure_def Let_def failures_of_def blocked_def split: option.split prod.split)

lemma counted:
  "login_failures (snd (update_failure (f, m) False i (c, g))) i (ip c) = Some (count_failure m f)"
  by (cases f) (simp add: update_failure_def count_failure_def Let_def)

lemma logon_failures:
  "login_failures (snd (send_logon_response E (c, g))) = login_failures g"
proof -
  obtain ok c1 g1 where r: "is_recent_session E True (c, g) = (ok, c1, g1)" by (metis prod_cases3)
  have e: "login_failures (snd (enter_session E (x, y))) = login_failures y" for x y
    by (simp add: enter_session_def authed_new_def send_def Let_def)
  show ?thesis using is_recent_session_conn[OF r] r
    by (auto simp: send_logon_response_def e)
qed

text \<open>
  A wrong password never authorizes and is counted, for the address, in the present minute and in
  total; an address with more than 30 failures in total, or more than 6 in this minute, is refused
  without a look at the password and without a change of the shared state.
\<close>

theorem guess_counted:
  assumes "\<not> authorized c"
  shows "let (c', g') = login_by_password E r (c, g);
             f = failures_of g 0 (ip c);
             minute = get_time (dev E) div 60000
         in if blocked minute f then \<not> authorized c' \<and> g' = g
            else if password_accepted E c (conf g) then True
            else \<not> authorized c' \<and> failures_of g' 0 (ip c) = count_failure minute f"
proof -
  define m f where "m = get_time (dev E) div 60000" and "f = failures_of g 0 (ip c)"
  obtain c1 g1 where cf: "check_failure E 0 (c, g) = (((f, m), \<not> blocked m f), c1, g1)"
    using check_failure_outcome[of E 0 c g] by (metis f_def m_def surj_pair)
  have g1: "g1 = g" "\<not> authorized c1" using check_failure_frame[OF cf] assms by (auto simp: same_conn_def)
  obtain c2 g2 where l: "login_by_password E r (c, g) = (c2, g2)" by (metis surj_pair)
  have "\<not> authorized c2 \<and> g2 = g" if "blocked m f"
    using that l cf g1 by (simp add: login_by_password_def)
  moreover have "\<not> authorized c2 \<and> failures_of g2 0 (ip c) = count_failure m f"
    if nb: "\<not> blocked m f" and wrong: "\<not> password_accepted E c (conf g)"
  proof -
    have na: "\<not> authorized c2" using login_by_password_needs[OF l assms] wrong by blast
    have c1: "c1 = c" using nb cf check_failure_pass[of E 0 c g] by simp
    obtain ok c3 g3 where v: "validate_password E (c, g) = (ok, c3, g3)" by (metis prod_cases3)
    with validate_password_conn[OF v] wrong have v3: "ok = False" "c3 = c" by auto
    have "login_failures g2 = login_failures (snd (update_failure (f, m) False 0 (c, g3)))"
      using arg_cong[OF l, of snd] nb cf c1 g1 v v3
      by (auto simp: login_by_password_def Let_def split: if_splits)
    then show ?thesis using na counted[of f m 0 c g3] by (simp add: failures_of_def)
  qed
  ultimately show ?thesis unfolding Let_def l prod.case m_def[symmetric] f_def[symmetric] by auto
qed

subsection \<open>Registration\<close>

text \<open>What the lists of registered connections say about one connection.\<close>

definition entries :: "int \<Rightarrow> server \<Rightarrow> (int \<times> AuthConnType \<times> session_key) list" where
  "entries i g = filter (\<lambda>x. fst x = i) (authed_conns g)"

definition registered_ok :: "state \<Rightarrow> bool" where
  "registered_ok = (\<lambda>(c, g).
    (case authed_conn c of
       None \<Rightarrow> \<not> authorized c \<and> entries (conn_id c) g = []
     | Some t \<Rightarrow> authorized c \<and> (\<exists>k. entries (conn_id c) g = [(conn_id c, t, k)])))"

text \<open>The part of the state registration is about; an operation that keeps it keeps the invariant.\<close>

definition registration :: "state \<Rightarrow> bool \<times> AuthConnType option \<times> int \<times> (int \<times> AuthConnType \<times> session_key) list" where
  "registration = (\<lambda>(c, g). (authorized c, authed_conn c, conn_id c, authed_conns g))"

lemma registration_eq:
  "registration (c, g) = registration (c', g') \<longleftrightarrow>
    authorized c = authorized c' \<and> authed_conn c = authed_conn c' \<and> conn_id c = conn_id c' \<and> authed_conns g = authed_conns g'"
  by (simp add: registration_def)

lemma registered_ok_cong: "registration s = registration s' \<Longrightarrow> registered_ok s = registered_ok s'"
  by (cases s; cases s') (auto simp: registration_def registered_ok_def entries_def split: option.splits)

lemma reg_send [simp]: "registration (send r s) = registration s"
  by (cases s) (simp add: send_def registration_def)

lemma reg_error [simp]: "registration (send_login_error e s) = registration s"
  by (cases s) (simp add: send_login_error_def)

lemma reg_cm [simp]: "registration (try_start_cm a b x s) = registration s"
  by (simp add: try_start_cm_def)

lemma reg_failure [simp]: "registration (update_failure ft b i s) = registration s"
  by (cases s; cases "fst ft"; cases ft; simp add: update_failure_def registration_def Let_def split: prod.splits)

lemma reg_check: "check_failure E i s = (x, s') \<Longrightarrow> registration s' = registration s"
  by (cases s) (auto simp: check_failure_def Let_def split: if_splits prod.splits option.splits)

lemma reg_validate: "validate_password E s = (ok, s') \<Longrightarrow> registration s' = registration s"
  using validate_password_conn by (cases s; cases s') (force simp: registration_def)

lemma reg_recent: "is_recent_session E t s = (ok, s') \<Longrightarrow> registration s' = registration s"
  using is_recent_session_conn by (cases s; cases s') (force simp: registration_def)

lemma reg_union: "handle_union E u s = (go, s') \<Longrightarrow> registration s' = registration s"
  by (cases s; cases u) (auto simp: handle_union_def send_login_error_def send_def registration_def Let_def
      split: if_splits prod.splits sum.splits)

lemma reg_request: "registration (handle_login_request_without_validation E r s) = registration s"
  by (cases s) (auto simp: handle_login_request_without_validation_def registration_def Let_def
      split: option.splits prod.splits)

lemma enter_registers:
  assumes "registered_ok (c, g)" and "\<not> authorized c"
  shows "registered_ok (enter_session E (c, g))"
proof -
  have none: "authed_conn c = None" "entries (conn_id c) g = []"
    using assms by (auto simp: registered_ok_def split: option.splits)
  have "registration (enter_session E (c, g)) =
      (True, Some (conn_type_of c), conn_id c, authed_conns g @ [(conn_id c, conn_type_of c, key_of c)])"
    by (simp add: enter_session_def authed_new_def send_def sub_monitor_services_at_login_def registration_def Let_def)
  then show ?thesis
    using none by (cases "enter_session E (c, g)") (auto simp: registration_def registered_ok_def entries_def)
qed

lemma logon_registers: "registered_ok s \<Longrightarrow> registered_ok (send_logon_response E s)"
proof (cases s)
  case (Pair c g)
  assume ok: "registered_ok s"
  obtain b c1 g1 where r: "(if require_2fa c \<noteq> None then is_recent_session E True (c, g) else (True, c, g)) = (b, c1, g1)"
    by (metis prod_cases3)
  then have reg: "registration (c1, g1) = registration (c, g)" by (auto dest: reg_recent split: if_splits)
  then have ok1: "registered_ok (c1, g1)" using ok Pair registered_ok_cong by metis
  show ?thesis
  proof (cases "authorized c")
    case True
    then show ?thesis using ok Pair by (simp add: send_logon_response_def)
  next
    case False
    then have "\<not> authorized c1" using reg by (simp add: registration_def)
    from enter_registers[OF ok1 this] registered_ok_cong[OF reg_error] ok1
    show ?thesis using False r Pair by (simp add: send_logon_response_def)
  qed
qed

lemmas registered_keep [simp] =
  reg_error[THEN registered_ok_cong] reg_cm[THEN registered_ok_cong] reg_failure[THEN registered_ok_cong]
  reg_request[THEN registered_ok_cong] reg_send[THEN registered_ok_cong]

lemma registered_fields:
  "registered_ok (c\<lparr>require_2fa := x\<rparr>, g) = registered_ok (c, g)"
  "registered_ok (c\<lparr>from_switch := y\<rparr>, g) = registered_ok (c, g)"
  "registered_ok (c\<lparr>pending_invite := z\<rparr>, g) = registered_ok (c, g)"
  "registered_ok (c, g\<lparr>conf := cf\<rparr>) = registered_ok (c, g)"
  "registered_ok (c, g\<lparr>switch_sides := ss\<rparr>) = registered_ok (c, g)"
  "registered_ok (c, g\<lparr>terms := ts\<rparr>) = registered_ok (c, g)"
  "registered_ok (c, g\<lparr>cells := cs\<rparr>) = registered_ok (c, g)"
  "registered_ok (c, set_session_2fa now k g) = registered_ok (c, g)"
  by (simp_all add: registered_ok_def entries_def set_session_2fa_def insert_session_def split: option.split)

lemma registered_logon_start:
  "registered_ok (c, g) \<Longrightarrow>
   registered_ok (let (c, g) = send_logon_response E (c, g) in try_start_cm a b (authorized c) (c, g))"
  using logon_registers[of "(c, g)" E] by (cases "send_logon_response E (c, g)") simp

lemma registered_by_password: "registered_ok s \<Longrightarrow> registered_ok (login_by_password E r s)"
proof -
  assume ok: "registered_ok s"
  obtain f res s1 where cf: "check_failure E 0 s = ((f, res), s1)" by (metis surj_pair)
  obtain b s2 where v: "validate_password E s1 = (b, s2)" by (metis surj_pair)
  have s1: "registered_ok s1" and s2: "registered_ok s2"
    using ok registered_ok_cong[OF reg_check[OF cf]] registered_ok_cong[OF reg_validate[OF v]] by simp_all
  obtain c3 g3 where u: "update_failure f True 0 s2 = (c3, g3)" by (metis surj_pair)
  then have "registered_ok (c3, g3)" using s2 registered_keep(3) by metis
  from registered_logon_start[OF this] s1 s2 u show ?thesis
    by (simp add: login_by_password_def cf v Let_def registered_keep(1)[of _ "(c3, g3)"] \<open>registered_ok (c3, g3)\<close>)
qed

lemma registered_login_request: "registered_ok s \<Longrightarrow> registered_ok (snd (on_login_request E r s))"
proof -
  assume ok: "registered_ok s"
  obtain c1 g1 where rr: "handle_login_request_without_validation E r s = (c1, g1)" by (metis surj_pair)
  obtain go2 c2 g2 where hu: "handle_union E (lr_union r) (c1, g1) = (go2, c2, g2)" by (metis prod_cases3)
  obtain b c3 g3 where rs: "is_recent_session E False (c2, g2) = (b, c3, g3)" by (metis prod_cases3)
  have s1: "registered_ok (c1, g1)" using ok rr registered_keep(4) by metis
  have s2: "registered_ok (c2, g2)" using s1 registered_ok_cong[OF reg_union[OF hu]] by simp
  have s3: "registered_ok (c3, g3)" using s2 registered_ok_cong[OF reg_recent[OF rs]] by simp
  show ?thesis
    using s1 s2 s3 registered_logon_start[OF s3, of E "my_id r" "my_name r"] registered_by_password[OF s3, of E r]
    by (simp add: on_login_request_def rr hu rs Let_def)
qed

lemma registered_auth_2fa: "registered_ok s \<Longrightarrow> registered_ok (snd (on_auth_2fa E code hw s))"
proof -
  assume ok: "registered_ok s"
  obtain f res c1 g1 where cf: "check_failure E (Suc 0) s = ((f, res), c1, g1)" by (metis prod.collapse)
  have s1: "registered_ok (c1, g1)" using ok registered_ok_cong[OF reg_check[OF cf]] by simp
  obtain c2 g2 where u: "update_failure f True (Suc 0) (c1, g1) = (c2, g2)" by (metis surj_pair)
  have s2: "registered_ok (c2, g2)" using u s1 registered_keep(3) by metis
  let ?c = "c2\<lparr>require_2fa := None\<rparr>"
  obtain c3 g3 where l: "send_logon_response E (?c, set_session_2fa (instant E) (key_of ?c) g2) = (c3, g3)"
    by (metis surj_pair)
  have s3: "registered_ok (c3, g3)"
    using logon_registers[of "(?c, set_session_2fa (instant E) (key_of ?c) g2)" E] s2 l by (simp add: registered_fields)
  obtain c4 g4 where t: "try_start_cm (my_id (lr c3)) (my_name (lr c3)) (authorized c3) (c3, g3) = (c4, g4)" by (metis surj_pair)
  have s4: "registered_ok (c4, g4)" using t s3 registered_keep(2) by metis
  show ?thesis
    using s1 s4 by (simp add: on_auth_2fa_def cf u l t Let_def registered_fields split: option.split)
qed

lemma registered_switch_sides: "registered_ok s \<Longrightarrow> registered_ok (snd (on_switch_sides_response E mr u s))"
proof (cases mr)
  case (Some r)
  assume ok: "registered_ok s"
  obtain c1 g1 where rr: "handle_login_request_without_validation E r s = (c1, g1)" by (metis surj_pair)
  have s1: "registered_ok (c1, g1)" using ok rr registered_keep(4) by metis
  have s2: "registered_ok (send_logon_response E (c1\<lparr>from_switch := True\<rparr>, g1\<lparr>switch_sides := ss\<rparr>))" for ss
    by (rule logon_registers) (simp add: registered_fields s1)
  show ?thesis
    using Some s1 s2 by (simp add: on_switch_sides_response_def rr Let_def registered_fields split: option.split)
qed (simp add: on_switch_sides_response_def)

lemma registered_close: "registered_ok (on_close s) = registered_ok s"
  by (cases s) (simp add: on_close_def send_def Let_def registered_ok_def entries_def split: option.split)

lemma registered_check_remove:
  "registered_ok (c, check_remove_session i k g) = registered_ok (c, g)"
  by (simp add: check_remove_session_def registered_ok_def entries_def Let_def split: option.split)

lemma registered_message: "registered_ok s \<Longrightarrow> registered_ok (snd (on_message E msg s))"
proof (cases msg)
  case (InviteRequest i n pw)
  assume "registered_ok s"
  with InviteRequest show ?thesis by (cases s) (simp add: on_message_def on_invite_request_def registered_fields)
next
  case (TerminalActionMsg a)
  assume "registered_ok s"
  with TerminalActionMsg show ?thesis
    by (cases s) (simp add: on_message_def on_terminal_action_def Let_def registered_fields split: prod.split sum.split option.split)
next
  case CloseReason
  assume ok: "registered_ok s"
  obtain c1 g1 where oc: "on_close s = (c1, g1)" by (metis surj_pair)
  have "registered_ok (c1, g1)" using ok registered_close[of s] oc by simp
  with CloseReason ok oc show ?thesis
    by (cases s) (simp add: on_message_def on_close_reason_def Let_def registered_check_remove)
qed (simp_all add: on_message_def registered_login_request registered_auth_2fa registered_switch_sides)

text \<open>The life of a connection: it is opened under an unused number, receives messages, is approved
  by the local user, its session's clock moves, and other connections change the shared state.\<close>

inductive connection_step :: "state \<Rightarrow> state \<Rightarrow> bool" where
  message: "connection_step s (snd (on_message E msg s))"
| approved: "connection_step s (cm_authorize E s)"
| clock: "connection_step s (touch_session now s)"
| others: "entries (conn_id c) g' = entries (conn_id c) g \<Longrightarrow> connection_step (c, g) (c, g')"

inductive connected :: "state \<Rightarrow> bool" where
  opened: "entries i g = [] \<Longrightarrow> connected (new_connection i addr rs rs' secret g)"
| step: "connected s \<Longrightarrow> connection_step s s' \<Longrightarrow> connected s'"

inductive_cases connection_stepE: "connection_step s s'"

lemma step_registered: "connection_step s s' \<Longrightarrow> registered_ok s \<Longrightarrow> registered_ok s'"
proof (induction rule: connection_step.induct)
  case (message s E msg)
  then show ?case by (rule registered_message)
next
  case (approved s E)
  then show ?case
    using logon_registers[of "((fst s)\<lparr>require_2fa := None\<rparr>, snd s)" E]
    by (cases s) (simp add: cm_authorize_def registered_fields)
next
  case (clock s now)
  then show ?case by (cases s) (simp add: touch_session_def registered_fields split: option.split)
next
  case (others c g' g)
  then show ?case by (simp add: registered_ok_def split: option.splits)
qed

lemma connected_registered: "connected s \<Longrightarrow> registered_ok s"
proof (induction rule: connected.induct)
  case (opened i g addr rs rs' secret)
  then show ?case
    by (cases "get_salt rs (conf g)")
      (simp add: new_connection_def alive_new_def entries_def Let_def registered_ok_def send_def)
qed (rule step_registered)

lemma on_close_frame:
  assumes "on_close (c, g) = (c', g')"
  shows "conn_id c' = conn_id c \<and> authed_conn c' = authed_conn c \<and> authed_conns g' = authed_conns g \<and> conf g' = conf g"
  using assms by (cases "closed c") (auto simp: on_close_def send_def Let_def split: if_splits)

lemma forward_frame:
  assumes "stop_forwarding failed (c, g) = (c1, g1)"
  shows "conn_id c1 = conn_id c \<and> authed_conn c1 = authed_conn c \<and> authed_conns g1 = authed_conns g \<and> conf g1 = conf g"
proof -
  obtain c2 g2 where oc: "on_close (c\<lparr>port_forward_socket := False\<rparr>, g) = (c2, g2)" by (metis surj_pair)
  have "authed_conns (check_remove_session i k h) = authed_conns h \<and> conf (check_remove_session i k h) = conf h" for i k h
    by (simp add: check_remove_session_def Let_def)
  then show ?thesis
    using assms on_close_frame[OF oc] oc
    by (cases "port_forward_socket c \<and> failed") (auto simp: stop_forwarding_def Let_def)
qed

text \<open>
  C10. In every state a connection can reach, whatever other connections do, it has exactly one entry in
  the list of authorized connections while it is authorized and none before; its end removes the entry
  and the connection's number, and renews the temporary password exactly when the connection was
  authorized and unattended access is off.
\<close>

theorem registered_while_authorized:
  assumes "connected (c, g)" and "end_connection rs forward_failed (c, g) = (c', g')"
  shows "(if authorized c then length (entries (conn_id c) g) = 1 else entries (conn_id c) g = []) \<and>
    entries (conn_id c) g' = [] \<and> conn_id c \<notin> set (alive_conns g') \<and>
    conf g' = (if authorized c \<and> get_option (conf g) ''unattended-access'' \<noteq> ''true''
               then update_temporary_password rs (conf g) else conf g)"
proof -
  have ok: "registered_ok (c, g)" by (rule connected_registered[OF assms(1)])
  have none: "authed_conn c = None \<Longrightarrow> filter (\<lambda>x. fst x = conn_id c) (authed_conns g) = []"
    using ok by (simp add: registered_ok_def entries_def)
  define h where "h = (if authorized c \<and> get_option (conf g) ''unattended-access'' \<noteq> ''true''
              then g\<lparr>conf := update_temporary_password rs (conf g)\<rparr> else g)"
  obtain c1 g1 where one: "stop_forwarding forward_failed (c, h) = (c1, g1)" by (metis surj_pair)
  have f1: "conn_id c1 = conn_id c" "authed_conn c1 = authed_conn c" "authed_conns g1 = authed_conns g" "conf g1 = conf h"
    using forward_frame[OF one] by (auto simp: h_def)
  obtain c2 g2 where two: "on_close (c1, g1) = (c2, g2)" by (metis surj_pair)
  note f2 = on_close_frame[OF two]
  have g': "g' = alive_drop (conn_id c2) (if authed_conn c2 \<noteq> None then authed_drop (conn_id c2) g2 else g2)"
    using assms(2) one two by (simp add: end_connection_def h_def[symmetric] Let_def)
  have "filter (\<lambda>x. fst x = conn_id c) (authed_conns g') = []"
    using g' f2 f1 none by (auto simp: alive_drop_def authed_drop_def filter_empty_conv)
  moreover have "conn_id c \<notin> set (alive_conns g')" using g' f2 f1 by (simp add: alive_drop_def)
  moreover have "conf g' = conf h" using g' f2 f1 by (simp add: alive_drop_def authed_drop_def)
  ultimately show ?thesis
    using ok by (auto simp: registered_ok_def entries_def h_def split: option.splits)
qed

definition needed_option :: "login_union \<Rightarrow> string option" where
  "needed_option u =
    (case u of
       LrFileTransfer _ _ \<Rightarrow> Some ''enable-file-transfer''
     | LrViewCamera \<Rightarrow> Some ''enable-camera''
     | LrPortForward _ _ \<Rightarrow> Some ''enable-tunnel''
     | LrTerminal _ \<Rightarrow> Some ''enable-terminal''
     | NoUnion \<Rightarrow> None)"

lemma same_policy_permission: "same_policy c c' \<Longrightarrow> permission p c' = permission p c"
  by (simp add: permission_def same_policy_get_option)

text \<open>
  A login request for a kind of session whose option is off is answered with an error and closes
  the connection: nobody is authorized, and sessions, failures, registered connections and terminal
  services stay as they were.
\<close>

theorem permission_refused:
  assumes "needed_option (lr_union r) = Some opt" and "\<not> permission opt (conf g)" and "\<not> authorized c"
  shows "let (go, c', g') = on_message E (LoginRequestMsg r) (c, g)
         in \<not> go \<and> \<not> authorized c' \<and> same_server g g' \<and> terms g' = terms g \<and>
            (case last (log c') of LoginError _ _ \<Rightarrow> True | _ \<Rightarrow> False)"
proof -
  obtain c1 g1 where rr: "handle_login_request_without_validation E r (c, g) = (c1, g1)" by (metis surj_pair)
  note f1 = request_recorded[OF rr]
  have na: "\<not> authorized c1" using f1 assms(3) by (simp add: same_conn_def)
  have "\<not> permission opt (conf g1)" using f1 same_policy_permission assms(2) by metis
  then obtain e where e: "handle_union E (lr_union r) (c1, g1) = (False, send_login_error e (c1, g1))"
    using assms(1) by (cases "lr_union r") (simp_all add: handle_union_def needed_option_def)
  obtain c2 b where s: "send_login_error e (c1, g1) = (c2, g1)" "\<not> authorized c2" "log c2 = log c1 @ [LoginError e b]"
    using na by (auto simp: send_login_error_def send_def)
  have "on_message E (LoginRequestMsg r) (c, g) = (False, c2, g1)"
    using rr na e s(1) by (simp add: on_message_def on_login_request_def)
  then show ?thesis using s f1 by simp
qed

subsection \<open>Terminal services of peers that are not let in\<close>

lemma terms_failure [simp]: "terms (snd (update_failure ft b i s)) = terms (snd s)"
  by (cases s; cases "fst ft"; cases ft; simp add: update_failure_def Let_def split: prod.splits)

lemma terms_one: "validate_one_password E pw s = (ok, s') \<Longrightarrow> terms (snd s') = terms (snd s)"
  by (cases s) (auto simp: validate_one_password_def split: if_splits)

lemma terms_recent: "is_recent_session E t s = (ok, s') \<Longrightarrow> terms (snd s') = terms (snd s)"
  by (cases s) (auto simp: is_recent_session_def retain_sessions_def Let_def dest!: terms_one split: if_splits option.splits)

lemma terms_update [simp]: "terms (update_or_insert_session n k p t g) = terms g"
  by (simp add: update_or_insert_session_def insert_session_def split: option.split)

lemma terms_validate: "validate_password E s = (ok, s') \<Longrightarrow> terms (snd s') = terms (snd s)"
proof (cases s)
  case (Pair c g)
  assume v: "validate_password E s = (ok, s')"
  obtain ok1 c1 g1 where one: "(if temporary_enabled (conf g) then
      validate_one_password E (temporary_password (conf g)) (c, g) else (False, c, g)) = (ok1, c1, g1)"
    by (metis prod_cases3)
  have "terms g1 = terms g" using one terms_one[of E _ "(c, g)" ok1 "(c1, g1)"] by (auto split: if_splits)
  moreover obtain b2 c2 g2 where two: "validate_one_password E (permanent_password (conf g1)) (c1, g1) = (b2, c2, g2)"
    by (metis prod_cases3)
  moreover have "terms g2 = terms g1" using terms_one[OF two] by simp
  ultimately show ?thesis
    using v Pair one by (auto simp: validate_password_def Let_def split: if_splits option.splits)
qed

lemma terms_enter [simp]: "terms (snd (enter_session E s)) = terms (snd s)"
  by (cases s) (simp add: enter_session_def authed_new_def send_def Let_def)

lemma terms_logon [simp]: "terms (snd (send_logon_response E s)) = terms (snd s)"
proof (cases s)
  case (Pair c g)
  obtain b c1 g1 where "is_recent_session E True (c, g) = (b, c1, g1)" by (metis prod_cases3)
  with Pair terms_recent[OF this] show ?thesis by (simp add: send_logon_response_def)
qed

lemma terms_logon_start:
  "terms (snd (let (c, g) = send_logon_response E s in try_start_cm a b (authorized c) (c, g))) = terms (snd s)"
  using terms_logon[of E s] by (cases "send_logon_response E s") simp

lemma terms_by_password: "terms (snd (login_by_password E r s)) = terms (snd s)"
proof -
  obtain f res s1 where cf: "check_failure E 0 s = ((f, res), s1)" by (metis surj_pair)
  obtain b s2 where v: "validate_password E s1 = (b, s2)" by (metis surj_pair)
  have "snd s1 = snd s" using check_failure_frame cf by (cases s; cases s1) auto
  then show ?thesis
    using terms_validate[OF v] terms_logon_start[where s = "update_failure f True 0 s2"]
    by (simp add: login_by_password_def cf v Let_def)
qed

text \<open>
  A terminal login request without a first factor does not authorize, yet it leaves a new terminal
  service in the registry of at most 100: the service is made before any password is looked at.
\<close>

theorem unauthenticated_terminal_service:
  assumes "on_message E (LoginRequestMsg r) (c, g) = (go, c', g')"
    and "\<not> authorized c" and "\<not> first_factor E r c g"
    and "lr_union r = LrTerminal sid" and "sid \<noteq> []" and "permission ''enable-terminal'' (conf g)"
    and "get_service sid (terms g) = None" and "length (services (terms g)) < MAX_SERVICES"
  shows "\<not> authorized c' \<and> get_service sid (terms g') \<noteq> None \<and>
    length (services (terms g')) = Suc (length (services (terms g)))"
proof -
  obtain c1 g1 where rr: "handle_login_request_without_validation E r (c, g) = (c1, g1)" by (metis surj_pair)
  note f1 = request_recorded[OF rr]
  have na: "\<not> authorized c1" using f1 assms(2) by (simp add: same_conn_def)
  have perm: "permission ''enable-terminal'' (conf g1)" using f1 assms(6) same_policy_permission[of "conf g" "conf g1"] by simp
  let ?svc = "reset_status False (new_service (instant E) sid False False)"
  have "get_service sid (terms g1) = None" "\<not> length (services (terms g1)) \<ge> MAX_SERVICES"
    using assms(7,8) f1 by (simp_all only: not_le)
  then have svc: "get_or_create_service (instant E) sid False False (terms g1) = (Inr ?svc, put_service sid ?svc (terms g1))"
    by (simp add: get_or_create_service_def Let_def)
  let ?ts = "put_service sid ?svc (terms g)"
  let ?c2 = "c1\<lparr>terminal := True, terminal_service_id := sid\<rparr>"
  have tg: "terms g1 = terms g" using f1 by simp
  have hu: "handle_union E (lr_union r) (c1, g1) = (True, ?c2, g1\<lparr>terms := ?ts\<rparr>)"
    unfolding assms(4) handle_union_def prod.case login_union.case using assms(5) perm svc tg
    by (simp add: Let_def)
  obtain b c3 g3 where rs: "is_recent_session E False (?c2, g1\<lparr>terms := ?ts\<rparr>) = (b, c3, g3)" by (metis prod_cases3)
  have g3: "terms g3 = ?ts" using terms_recent[OF rs] by simp
  have "terms (snd (snd (on_login_request E r (c, g)))) = ?ts"
    using g3 terms_by_password[of E r "(c3, g3)"] terms_logon_start[where s = "(c3, g3)"] na
    by (simp add: on_login_request_def rr hu rs Let_def)
  then have ts: "terms g' = ?ts" using assms(1) by (simp add: on_message_def)
  have "\<not> authorized c'"
    using login_request_needs[of E r c g go c' g'] assms(1,2,3) by (auto simp: on_message_def)
  moreover have "get_service sid ?ts = Some ?svc" by (simp add: get_service_def put_service_def update_conv')
  moreover have "length (services ?ts) = Suc (length (services (terms g)))"
    using assms(7) by (simp add: put_service_def get_service_def length_update_absent)
  ultimately show ?thesis using ts by simp
qed

section \<open>Witnesses\<close>

definition no_server :: server where
  "no_server = \<lparr>sess = (\<lambda>_. None), cells = [], login_failures = (\<lambda>_ _. None), authed_conns = [], alive_conns = [],
     switch_sides = (\<lambda>_. None), conf = empty_config, file_transfer_pw = [], terms = no_terminals\<rparr>"

definition plain_env :: login_env where
  "plain_env = \<lparr>instant = 1000, dev = one_device_env, sha256 = (\<lambda>b. b), check_current = (\<lambda>_ code. Some (code = ''123456'')),
     sso_login = (\<lambda>_. False), team_file = False, token_status = None, tcp_connect = (\<lambda>_. True), desktop_err = [],
     logon_screen = False, privacy_mode = False, host_str = (\<lambda>_. True), new_service_id = ''ts_1'', display_err = None,
     pty = quiet_pty\<rparr>"

definition peer_request :: "login_union \<Rightarrow> login_request" where
  "peer_request u = \<lparr>username = ''me'', lr_password = [1], my_id = ''peer'', my_name = ''p'', my_platform = ''Linux'',
     version = ''1.2.3'', session_id = 7, lr_hwid = [], tokenex = [], lr_union = u\<rparr>"

definition first_connection :: "string option \<Rightarrow> connection" where
  "first_connection secret = (fst (new_connection 1 ''10.0.0.1'' (\<lambda>_. 0) (\<lambda>_. 0) secret no_server))\<lparr>lr := peer_request NoUnion\<rparr>"

lemma first_connection_fields [simp]:
  "conn_id (first_connection x) = 1" "ip (first_connection x) = ''10.0.0.1''" "require_2fa (first_connection x) = x" "\<not> authorized (first_connection x)"
  "lr (first_connection x) = peer_request NoUnion" "from_switch (first_connection x) = False" "log (first_connection x) \<noteq> []"
  "closed (first_connection x) = False" "port_forward_socket (first_connection x) = False" "terminal (first_connection x) = False" "authed_conn (first_connection x) = None"
  "file_transfer (first_connection x) = None" "view_camera (first_connection x) = False"
  by (cases "get_salt (\<lambda>_. 0) empty_config";
      simp add: first_connection_def new_connection_def alive_new_def no_server_def Let_def send_def)+

lemma first_code: "snd (fst (check_failure plain_env 1 (first_connection x, no_server)))"
  by (simp add: check_failure_def no_server_def Let_def plain_env_def)

theorem totp_alone_authorizes_witness:
  "authorized (fst (snd (on_message plain_env (Auth2fa ''123456'' []) (first_connection (Some ''s''), no_server))))"
  by (rule totp_alone_authorizes[OF first_code]) (simp_all add: plain_env_def)

theorem authorized_only_by_credentials_witness:
  "authorized (fst (snd (on_message plain_env (Auth2fa ''123456'' []) (first_connection (Some ''s''), no_server)))) \<and>
   credentials plain_env (Auth2fa ''123456'' []) (first_connection (Some ''s'')) no_server"
proof -
  obtain go c g where r: "on_message plain_env (Auth2fa ''123456'' []) (first_connection (Some ''s''), no_server) = (go, c, g)"
    by (metis prod_cases3)
  let ?r = "on_message plain_env (Auth2fa ''123456'' []) (first_connection (Some ''s''), no_server)"
  have "authorized (fst (snd ?r))"
    by (simp add: on_message_def on_auth_2fa_def check_failure_def no_server_def plain_env_def update_failure_def
        send_logon_response_def enter_session_def try_start_cm_def send_def Let_def sub_monitor_services_at_login_def)
  with authorized_only_by_credentials[OF r] r show ?thesis by simp
qed

theorem guess_counted_witness:
  "let (c', g') = login_by_password plain_env (peer_request NoUnion) (first_connection None, no_server)
   in \<not> authorized c' \<and> failures_of g' 0 ''10.0.0.1'' = (get_time one_device_env div 60000, 1, 1)"
proof -
  have "\<not> password_accepted plain_env (first_connection None) empty_config"
    by (simp add: password_accepted_def empty_config_def plain_env_def peer_request_def get_option_def)
  then show ?thesis
    using guess_counted[of "first_connection None" plain_env "peer_request NoUnion" no_server]
    by (simp add: Let_def failures_of_def blocked_def count_failure_def no_server_def plain_env_def one_device_env_def split: prod.splits)
qed

theorem registered_while_authorized_witness:
  "let (c', g') = end_connection (\<lambda>_. 0) False (cm_authorize plain_env
     (new_connection 1 ''10.0.0.1'' (\<lambda>_. 0) (\<lambda>_. 0) None no_server)) in entries 1 g' = []"
proof -
  obtain c g where s: "cm_authorize plain_env (new_connection 1 ''10.0.0.1'' (\<lambda>_. 0) (\<lambda>_. 0) None no_server) = (c, g)"
    by (metis surj_pair)
  obtain c' g' where e: "end_connection (\<lambda>_. 0) False (c, g) = (c', g')" by (metis surj_pair)
  have "connected (c, g)"
    unfolding s[symmetric]
    by (rule connected.step[OF connected.opened connection_step.approved]) (simp add: entries_def no_server_def)
  from registered_while_authorized[OF this e]
  have "entries (conn_id c) g' = []" by blast
  moreover have "conn_id c = 1"
    using s by (cases "get_salt (\<lambda>_. 0) empty_config")
      (auto simp: cm_authorize_def new_connection_def alive_new_def send_logon_response_def enter_session_def send_def
        no_server_def plain_env_def sub_monitor_services_at_login_def Let_def)
  ultimately show ?thesis using s e by simp
qed

theorem permission_refused_witness:
  "\<not> fst (on_message plain_env (LoginRequestMsg (peer_request (LrFileTransfer ''/'' True)))
     (first_connection None, no_server\<lparr>conf := empty_config\<lparr>options := [''enable-file-transfer'' \<mapsto> ''N'']\<rparr>\<rparr>))"
proof -
  let ?g = "no_server\<lparr>conf := empty_config\<lparr>options := [''enable-file-transfer'' \<mapsto> ''N'']\<rparr>\<rparr>"
  let ?r = "peer_request (LrFileTransfer ''/'' True)"
  have "needed_option (lr_union ?r) = Some ''enable-file-transfer''" by (simp add: peer_request_def needed_option_def)
  moreover have "\<not> permission ''enable-file-transfer'' (conf ?g)"
    by (simp add: permission_def get_option_def get_or_def empty_config_def option2bool_def starts_with_def)
  ultimately show ?thesis
    using permission_refused[of ?r _ ?g "first_connection None" plain_env] by (simp add: Let_def split: prod.splits)
qed

definition terminal_server :: server where
  "terminal_server = no_server\<lparr>conf := empty_config\<lparr>options := [''enable-terminal'' \<mapsto> ''Y'']\<rparr>\<rparr>"

theorem unauthenticated_terminal_service_witness:
  "let (go, c', g') = on_message plain_env (LoginRequestMsg (peer_request (LrTerminal ''x''))) (first_connection None, terminal_server)
   in \<not> authorized c' \<and> get_service ''x'' (terms g') \<noteq> None"
proof -
  let ?g = terminal_server
  obtain go c g where r: "on_message plain_env (LoginRequestMsg (peer_request (LrTerminal ''x''))) (first_connection None, ?g) = (go, c, g)"
    by (metis prod_cases3)
  have "\<not> first_factor plain_env (peer_request (LrTerminal ''x'')) (first_connection None) ?g"
    by (simp add: first_factor_def fresh_first_factor_def terminal_server_def no_server_def password_accepted_def
        empty_config_def plain_env_def peer_request_def get_option_def get_or_def)
  moreover have "permission ''enable-terminal'' (conf ?g)"
    by (simp add: permission_def get_option_def get_or_def option2bool_def terminal_server_def empty_config_def)
  moreover have "get_service ''x'' (terms ?g) = None" "length (services (terms ?g)) < MAX_SERVICES"
    by (simp_all add: terminal_server_def no_server_def no_terminals_def get_service_def MAX_SERVICES_def)
  moreover have "lr_union (peer_request (LrTerminal ''x'')) = LrTerminal ''x''" by (simp add: peer_request_def)
  ultimately have "\<not> authorized c \<and> get_service ''x'' (terms g) \<noteq> None"
    using unauthenticated_terminal_service[OF r] by simp
  then show ?thesis using r by simp
qed

end
