(* ===== verification/File_Store.thy ===== *)
theory File_Store
  imports Hop_Prelude
begin

text \<open>
  The part of the operating system that file transfer uses: a store of files as an explicit heap.
  A path leads to an inode, an open file is an inode with a position, so that a file that is renamed
  or truncated while it is open behaves as it does on a POSIX system. Creation and removal are refused
  at some paths (no permission, a name too long, a directory in the way); directories are the log of the
  \<open>create_dir_all\<close> calls.
\<close>

datatype file_op = Creating | Removing

record filesystem =
  links :: "string \<Rightarrow> nat option"
  inodes :: "(bytes \<times> nat) list"
  made_dirs :: "string list"
  refused :: "file_op \<Rightarrow> string \<Rightarrow> bool"
  clock_secs :: nat

section \<open>Paths\<close>

text \<open>\<open>PathBuf::join\<close>: an absolute name replaces the path.\<close>

definition path_join :: "string \<Rightarrow> string \<Rightarrow> string" where
  "path_join p name =
    (if starts_with name ''/'' then name
     else if p = [] \<or> last p = CHR ''/'' then p @ name
     else p @ ''/'' @ name)"

text \<open>\<open>Path::parent\<close> of a path without empty or dotted components: what stands before the last \<open>/\<close>.\<close>

definition path_parent :: "string \<Rightarrow> string option" where
  "path_parent p =
    (let q = rev (dropWhile (\<lambda>c. c = CHR ''/'') (rev p)) in
     if q = [] then None
     else
       let front = rev (dropWhile (\<lambda>c. c \<noteq> CHR ''/'') (rev q));
           dir = rev (dropWhile (\<lambda>c. c = CHR ''/'') (rev front))
       in Some (if dir = [] \<and> front \<noteq> [] then ''/'' else dir))"

section \<open>Operations\<close>

definition path_exists :: "filesystem \<Rightarrow> string \<Rightarrow> bool" where
  "path_exists w p \<longleftrightarrow> links w p \<noteq> None"

text \<open>What a path leads to: the content and the modification time.\<close>

definition entry_at :: "filesystem \<Rightarrow> string \<Rightarrow> (bytes \<times> nat) option" where
  "entry_at w p = map_option (\<lambda>i. inodes w ! i) (links w p)"

text \<open>\<open>std::fs::remove_file\<close>; a refused removal changes nothing.\<close>

definition rm :: "string \<Rightarrow> filesystem \<Rightarrow> filesystem" where
  "rm p w = (if refused w Removing p then w else w\<lparr>links := (links w)(p := None)\<rparr>)"

definition rename :: "string \<Rightarrow> string \<Rightarrow> filesystem \<Rightarrow> filesystem" where
  "rename p q w =
    (case links w p of
       None \<Rightarrow> w
     | Some i \<Rightarrow> if p = q then w else w\<lparr>links := (links w)(p := None, q := Some i)\<rparr>)"

definition set_mtime :: "string \<Rightarrow> nat \<Rightarrow> filesystem \<Rightarrow> filesystem" where
  "set_mtime p t w =
    (case links w p of
       None \<Rightarrow> w
     | Some i \<Rightarrow> w\<lparr>inodes := (inodes w)[i := (fst (inodes w ! i), t)]\<rparr>)"

definition mkdir_all :: "string \<Rightarrow> filesystem \<Rightarrow> filesystem" where
  "mkdir_all p w = w\<lparr>made_dirs := made_dirs w @ [p]\<rparr>"

text \<open>\<open>File::create\<close>: an existing file is truncated in place, a new one gets a new inode.\<close>

definition create :: "string \<Rightarrow> filesystem \<Rightarrow> (nat \<times> filesystem) option" where
  "create p w =
    (if refused w Creating p then None
     else
       case links w p of
         Some i \<Rightarrow> Some (i, w\<lparr>inodes := (inodes w)[i := ([], clock_secs w)]\<rparr>)
       | None \<Rightarrow> Some (length (inodes w),
           w\<lparr>links := (links w)(p \<mapsto> length (inodes w)), inodes := inodes w @ [([], clock_secs w)]\<rparr>))"

text \<open>Writing at a position of a buffer: a gap is filled with zeros.\<close>

definition overwrite :: "bytes \<Rightarrow> nat \<Rightarrow> bytes \<Rightarrow> bytes" where
  "overwrite buf pos data =
    take pos buf @ replicate (pos - length buf) 0 @ data @ drop (pos + length data) buf"

definition write_at :: "nat \<Rightarrow> nat \<Rightarrow> bytes \<Rightarrow> filesystem \<Rightarrow> filesystem" where
  "write_at i pos data w =
    w\<lparr>inodes := (inodes w)[i := (overwrite (fst (inodes w ! i)) pos data, clock_secs w)]\<rparr>"

text \<open>\<open>std::fs::write\<close>, its result ignored.\<close>

definition write_whole :: "string \<Rightarrow> bytes \<Rightarrow> filesystem \<Rightarrow> filesystem" where
  "write_whole p data w =
    (case create p w of None \<Rightarrow> w | Some (i, w) \<Rightarrow> write_at i 0 data w)"

section \<open>Well-formed stores\<close>

text \<open>Links lead to existing inodes and no two of them to the same.\<close>

definition store_ok :: "filesystem \<Rightarrow> bool" where
  "store_ok w \<longleftrightarrow>
    (\<forall>p i. links w p = Some i \<longrightarrow> i < length (inodes w)) \<and>
    (\<forall>p q i. links w p = Some i \<longrightarrow> links w q = Some i \<longrightarrow> p = q)"

named_theorems store_defs "definitions of the operations on the store"
declare rm_def [store_defs] rename_def [store_defs] set_mtime_def [store_defs] mkdir_all_def [store_defs]
  create_def [store_defs] write_at_def [store_defs] write_whole_def [store_defs] entry_at_def [store_defs]
  path_exists_def [store_defs]

lemma overwrite_end [simp]: "overwrite buf (length buf) data = buf @ data"
  by (simp add: overwrite_def)

lemma store_ok_rm [wf_intros]: "store_ok w \<Longrightarrow> store_ok (rm p w)"
  by (auto simp: store_ok_def rm_def)

lemma store_ok_rename [wf_intros]: "store_ok w \<Longrightarrow> store_ok (rename p q w)"
  unfolding rename_def store_ok_def by (auto split: option.splits)

lemma store_ok_mtime [wf_intros]: "store_ok w \<Longrightarrow> store_ok (set_mtime p t w)"
  by (auto simp: store_ok_def set_mtime_def split: option.split)

lemma store_ok_mkdir [wf_intros]: "store_ok w \<Longrightarrow> store_ok (mkdir_all p w)"
  by (auto simp: store_ok_def mkdir_all_def)

lemma fresh_inode: "store_ok w \<Longrightarrow> links w p \<noteq> Some (length (inodes w))"
  by (auto simp: store_ok_def)

lemma store_ok_create [wf_intros]: "store_ok w \<Longrightarrow> create p w = Some (i, w') \<Longrightarrow> store_ok w'"
  using fresh_inode[of w]
  by (auto simp: store_ok_def create_def less_Suc_eq split: if_splits option.splits)

lemma store_ok_write [wf_intros]: "store_ok w \<Longrightarrow> store_ok (write_at i pos data w)"
  by (auto simp: store_ok_def write_at_def)

lemma store_ok_whole [wf_intros]: "store_ok w \<Longrightarrow> store_ok (write_whole p data w)"
  by (auto simp: write_whole_def split: option.split intro: store_ok_write store_ok_create)

text \<open>What each operation does to what the paths lead to.\<close>

lemma exists_entry: "path_exists w p \<longleftrightarrow> entry_at w p \<noteq> None"
  by (simp add: store_defs)

lemma entry_rm: "entry_at (rm p w) q = (if q = p \<and> \<not> refused w Removing p then None else entry_at w q)"
  by (simp add: store_defs)

lemma entry_rename:
  "entry_at (rename p q w) r =
    (if entry_at w p \<noteq> None \<and> p \<noteq> q then if r = q then entry_at w p else if r = p then None else entry_at w r
     else entry_at w r)"
  by (simp add: store_defs split: option.split)

lemma entry_set_mtime:
  "store_ok w \<Longrightarrow> entry_at (set_mtime p t w) q =
    (if q = p then map_option (\<lambda>e. (fst e, t)) (entry_at w p) else entry_at w q)"
  by (cases "links w p"; cases "links w q") (auto simp: store_defs store_ok_def nth_list_update)

lemma entry_mkdir [simp]: "entry_at (mkdir_all p w) q = entry_at w q"
  by (simp add: store_defs)

lemma entry_create:
  assumes "store_ok w" and "create p w = Some (i, w')"
  shows "entry_at w' q = (if q = p then Some ([], clock_secs w) else entry_at w q)"
  using assms
  by (cases "links w q"; cases "links w p")
    (auto simp: store_defs store_ok_def nth_append nth_list_update split: if_splits)

lemma entry_write:
  assumes "store_ok w" and "links w p = Some i"
  shows "entry_at (write_at i pos data w) q =
    (if q = p then Some (overwrite (fst (inodes w ! i)) pos data, clock_secs w) else entry_at w q)"
  using assms by (cases "links w q") (auto simp: store_defs store_ok_def nth_list_update)

lemma link_create:
  assumes "create p w = Some (i, w')"
  shows "links w' p = Some i" and "q \<noteq> p \<Longrightarrow> links w' q = links w q" and "\<not> refused w Creating p"
  using assms by (auto simp: create_def split: if_splits option.splits)

lemma link_whole: "q \<noteq> p \<Longrightarrow> links (write_whole p data w) q = links w q"
  by (auto simp: write_whole_def write_at_def link_create(2) split: option.split)

lemma entry_whole:
  assumes "store_ok w"
  shows "entry_at (write_whole p data w) q =
    (if q = p \<and> \<not> refused w Creating p then Some (data, clock_secs w) else entry_at w q)"
proof (cases "create p w")
  case None
  then have "refused w Creating p" by (auto simp: create_def split: if_splits option.splits)
  with None show ?thesis by (simp add: write_whole_def)
next
  case (Some x)
  then obtain i w1 where c: "create p w = Some (i, w1)" by (cases x) auto
  have l: "links w1 p = Some i" "\<not> refused w Creating p" "fst (inodes w1 ! i) = []" "clock_secs w1 = clock_secs w"
    using c assms by (auto simp: create_def store_ok_def nth_append nth_list_update split: if_splits option.splits)
  show ?thesis
    using entry_write[OF store_ok_create[OF assms c] l(1)] entry_create[OF assms c] c l(2-4)
    by (simp add: write_whole_def overwrite_def)
qed

text \<open>No operation changes what is refused.\<close>

lemma refused_same [simp]:
  "refused (rm p w) = refused w" "refused (rename p q w) = refused w" "refused (set_mtime p t w) = refused w"
  "refused (mkdir_all p w) = refused w" "refused (write_at i n d w) = refused w"
  by (simp_all add: store_defs split: option.split)

lemma refused_create: "create p w = Some (i, w') \<Longrightarrow> refused w' = refused w"
  by (auto simp: create_def split: if_splits option.splits)

lemma refused_whole [simp]: "refused (write_whole p data w) = refused w"
  by (auto simp: write_whole_def dest: refused_create split: option.split)

end
