(* ===== verification/Transfer_Job.thy ===== *)
theory Transfer_Job
  imports File_Store
begin

text \<open>
  Transfer jobs of \<open>libs/hbb_common/src/fs.rs\<close>: a job reads a list of files as blocks, or writes the
  blocks it receives to \<open>.download\<close> files that get their names when they are complete. The store of
  files is explicit; \<open>io_env\<close> holds what is outside the program: zstd, the JSON text of a digest, and
  how the operating system answers opens, reads and writes.
\<close>

section \<open>Data\<close>

datatype job_type = Generic | Printer

definition job_type_of_i32 :: "int \<Rightarrow> job_type" where
  "job_type_of_i32 v = (if v = 0 then Generic else if v = 1 then Printer else Generic)"

definition job_type_to_i32 :: "job_type \<Rightarrow> int" where
  "job_type_to_i32 t = (case t of Generic \<Rightarrow> 0 | Printer \<Rightarrow> 1)"

datatype entry_type = Dir | DirLink | DirDrive | RegularFile | FileLink

record file_entry =
  entry_kind :: entry_type
  entry_name :: string
  is_hidden :: bool
  entry_size :: u64
  modified_time :: u64

text \<open>A memory source is the cursor's bytes; a stream is an open file (inode, position, mode) or a
  buffer with a position.\<close>

datatype open_mode = ForRead | ForWrite

datatype data_source = FilePath string | MemoryCursor bytes

datatype data_stream = FileStream nat nat open_mode | BufStream bytes nat

record file_digest =
  digest_size :: u64
  digest_modified :: u64

record transfer_job =
  job_id :: int
  job_kind :: job_type
  remote :: string
  data_source :: data_source
  show_hidden :: bool
  is_remote :: bool
  is_last_job :: bool
  is_resume :: bool
  file_num :: int
  files :: "file_entry list"
  job_conn_id :: int
  data_stream :: "data_stream option"
  total_size :: u64
  finished_size :: u64
  transferred :: u64
  enable_overwrite_detection :: bool
  file_confirmed :: bool
  file_skipped :: bool
  file_is_waiting :: bool
  default_overwrite_strategy :: "bool option"
  digest :: file_digest
  direct :: bool
  file_error :: "string option"

record file_block =
  block_id :: int
  block_num :: int
  block_data :: bytes
  block_compressed :: bool

record digest_msg =
  dm_id :: int
  dm_num :: int
  dm_last_modified :: u64
  dm_file_size :: u64
  dm_is_upload :: bool
  dm_is_identical :: bool
  dm_transferred_size :: u64
  dm_is_resume :: bool

datatype confirm_union = Skip bool | OffsetBlk u32 | NoConfirm

record confirm_request =
  cr_id :: int
  cr_num :: int
  cr_union :: confirm_union

datatype file_msg =
  BlockMsg file_block
| ErrorMsg int string int
| DoneMsg int int
| DigestMsg digest_msg
| ConfirmMsg confirm_request

datatype read_answer = ReadFails string | ReadUpto nat

record io_env =
  zstd :: "bytes \<Rightarrow> bytes option"
  unzstd :: "bytes \<Rightarrow> bytes option"
  digest_json :: "file_digest \<Rightarrow> bytes"
  parse_digest :: "bytes \<Rightarrow> file_digest option"
  can_open :: "string \<Rightarrow> bool"
  reads :: "nat \<Rightarrow> nat \<Rightarrow> nat \<Rightarrow> read_answer"
  write_limit :: "nat option"
  sync_ok :: bool

text \<open>No write and no \<open>sync_all\<close> fails.\<close>

definition writes_ok :: "io_env \<Rightarrow> bool" where
  "writes_ok E \<longleftrightarrow> write_limit E = None \<and> sync_ok E"

section \<open>Compression and file names\<close>

definition compress :: "io_env \<Rightarrow> bytes \<Rightarrow> bytes" where
  "compress E data = (case zstd E data of Some r \<Rightarrow> r | None \<Rightarrow> [])"

definition decompress :: "io_env \<Rightarrow> bytes \<Rightarrow> bytes" where
  "decompress E data = (case unzstd E data of Some r \<Rightarrow> r | None \<Rightarrow> [])"

definition get_ext :: "string \<Rightarrow> string" where
  "get_ext name = (if CHR ''.'' \<in> set name then rev (takeWhile (\<lambda>c. c \<noteq> CHR ''.'') (rev name)) else [])"

definition is_compressed_file :: "string \<Rightarrow> bool" where
  "is_compressed_file name \<longleftrightarrow>
    get_ext name \<in> set [''xz'', ''gz'', ''zip'', ''7z'', ''rar'', ''bz2'', ''tgz'', ''png'', ''jpg'']"

definition join :: "string \<Rightarrow> string \<Rightarrow> string" where
  "join p name = (if name = [] then p else path_join p name)"

definition download_of :: "string \<Rightarrow> string" where "download_of path = path @ ''.download''"
definition digest_of :: "string \<Rightarrow> string" where "digest_of path = path @ ''.digest''"

section \<open>Jobs\<close>

definition default_job :: transfer_job where
  "default_job =
    \<lparr>job_id = 0, job_kind = Generic, remote = [], data_source = FilePath [], show_hidden = False, is_remote = False,
     is_last_job = False, is_resume = False, file_num = 0, files = [], job_conn_id = 0, data_stream = None,
     total_size = 0, finished_size = 0, transferred = 0, enable_overwrite_detection = False,
     file_confirmed = False, file_skipped = False, file_is_waiting = False, default_overwrite_strategy = None,
     digest = \<lparr>digest_size = 0, digest_modified = 0\<rparr>, direct = False, file_error = None\<rparr>"

definition new_write ::
  "int \<Rightarrow> job_type \<Rightarrow> string \<Rightarrow> data_source \<Rightarrow> int \<Rightarrow> bool \<Rightarrow> bool \<Rightarrow> file_entry list \<Rightarrow> bool \<Rightarrow> transfer_job" where
  "new_write i t r src n hid rem fs detect =
    default_job\<lparr>job_id := i, job_kind := t, remote := r, data_source := src, file_num := n, show_hidden := hid,
      is_remote := rem, files := fs, total_size := sum_list (map entry_size fs), enable_overwrite_detection := detect\<rparr>"

text \<open>\<open>listing\<close> is the result of \<open>get_recursive_files\<close> on the path.\<close>

definition new_read ::
  "int \<Rightarrow> job_type \<Rightarrow> string \<Rightarrow> data_source \<Rightarrow> int \<Rightarrow> bool \<Rightarrow> bool \<Rightarrow> (string + file_entry list) \<Rightarrow> bool
    \<Rightarrow> string + transfer_job" where
  "new_read i t r src n hid rem listing detect =
    (let made = (\<lambda>fs total. default_job\<lparr>job_id := i, job_kind := t, remote := r, data_source := src, file_num := n,
                  show_hidden := hid, is_remote := rem, files := fs, total_size := total,
                  enable_overwrite_detection := detect\<rparr>)
     in (case src of
           FilePath p \<Rightarrow>
             (case listing of Inl e \<Rightarrow> Inl e | Inr fs \<Rightarrow> Inr (made fs (sum_list (map entry_size fs))))
         | MemoryCursor c \<Rightarrow> Inr (made [] (word_of_nat (length c)))))"

definition get_buf_data :: "transfer_job \<Rightarrow> bytes option" where
  "get_buf_data j = (case data_stream j of Some (BufStream b _) \<Rightarrow> Some b | _ \<Rightarrow> None)"

text \<open>\<open>files.get(n as usize)\<close>: a negative number is a huge index.\<close>

definition file_at :: "transfer_job \<Rightarrow> int \<Rightarrow> file_entry option" where
  "file_at j n = (if 0 \<le> n \<and> n < int (length (files j)) then Some (files j ! nat n) else None)"

definition set_files :: "file_entry list \<Rightarrow> transfer_job \<times> filesystem \<Rightarrow> transfer_job \<times> filesystem" where
  "set_files fs = (\<lambda>(j, w).
    (j\<lparr>files := fs\<rparr>,
     (case data_source j of
        FilePath p \<Rightarrow> fold (\<lambda>f w. if ends_with (entry_name f) ''/'' then mkdir_all (join p (entry_name f)) w else w) fs w
      | MemoryCursor _ \<Rightarrow> w)))"

definition set_digest :: "u64 \<Rightarrow> u64 \<Rightarrow> transfer_job \<Rightarrow> transfer_job" where
  "set_digest s m j = j\<lparr>digest := \<lparr>digest_size = s, digest_modified = m\<rparr>\<rparr>"

definition modify_time :: "transfer_job \<Rightarrow> filesystem \<Rightarrow> filesystem" where
  "modify_time j w =
    (if job_kind j = Printer then w
     else
       (case data_source j of
          FilePath p \<Rightarrow>
            (case file_at j (file_num j) of
               None \<Rightarrow> w
             | Some e \<Rightarrow>
                 let path = join p (entry_name e) in
                 set_mtime path (unat (modified_time e)) (rename (download_of path) path (rm (digest_of path) w)))
        | MemoryCursor _ \<Rightarrow> w))"

definition remove_download_file :: "transfer_job \<Rightarrow> filesystem \<Rightarrow> filesystem" where
  "remove_download_file j w =
    (if job_kind j = Printer then w
     else
       (case data_source j of
          FilePath p \<Rightarrow>
            (case file_at j (file_num j) of
               None \<Rightarrow> w
             | Some e \<Rightarrow> let path = join p (entry_name e) in rm (digest_of path) (rm (download_of path) w))
        | MemoryCursor _ \<Rightarrow> w))"

definition set_finished_size_on_resume :: "transfer_job \<Rightarrow> transfer_job" where
  "set_finished_size_on_resume j =
    (if is_resume j \<and> file_num j > 0 then
       j\<lparr>finished_size := sum_list (map entry_size (take (nat (file_num j)) (files j)))\<rparr>
     else j)"

section \<open>Writing blocks\<close>

text \<open>The beginning of a file: the file before it is finished and flushed to the disk, the new one is
  created beside its digest. The result is an error or nothing; after an error the stream of the file
  before is still there.\<close>

definition on_disk :: "data_stream option \<Rightarrow> bool" where
  "on_disk s = (case s of Some (FileStream _ _ _) \<Rightarrow> True | _ \<Rightarrow> False)"

definition open_file ::
  "io_env \<Rightarrow> string \<Rightarrow> string option \<Rightarrow> transfer_job \<times> filesystem \<Rightarrow> string option \<times> transfer_job \<times> filesystem" where
  "open_file E target digest_path = (\<lambda>(j, w).
    (case create target w of
       None \<Rightarrow> (Some ''cannot create'', j, w)
     | Some (i, w) \<Rightarrow>
         (None, j\<lparr>data_stream := Some (FileStream i 0 ForWrite)\<rparr>,
          (case digest_path of None \<Rightarrow> w | Some dp \<Rightarrow> write_whole dp (digest_json E (digest j)) w))))"

definition start_file ::
  "io_env \<Rightarrow> string \<Rightarrow> file_entry \<Rightarrow> int \<Rightarrow> transfer_job \<times> filesystem \<Rightarrow> string option \<times> transfer_job \<times> filesystem" where
  "start_file E p f n = (\<lambda>(j, w).
    (if n \<noteq> file_num j \<or> data_stream j = None then
       let w = modify_time j w
       in if \<not> sync_ok E \<and> on_disk (data_stream j) then (Some ''cannot sync'', j, w)
       else
         let j = j\<lparr>file_num := n\<rparr>;
             path = join p (entry_name f)
         in if job_kind j = Printer then open_file E p None (j, w)
            else
              let w = (case path_parent path of None \<Rightarrow> w | Some pp \<Rightarrow> mkdir_all pp w);
                  dp = digest_of path
              in if path_exists w dp \<and> refused w Removing dp then (Some ''cannot remove'', j, w)
                 else open_file E (download_of path) (Some dp) (j, rm dp w)
     else (None, j, w)))"

definition write_all ::
  "io_env \<Rightarrow> bytes \<Rightarrow> data_stream \<Rightarrow> filesystem \<Rightarrow> bool \<times> data_stream \<times> filesystem" where
  "write_all E data s w =
    (case s of
       FileStream i pos m \<Rightarrow>
         if m = ForRead then (False, s, w)
         else
           (case write_limit E of
              None \<Rightarrow> (True, FileStream i (pos + length data) m, write_at i pos data w)
            | Some k \<Rightarrow> (False, FileStream i (pos + length (take k data)) m, write_at i pos (take k data) w))
     | BufStream b pos \<Rightarrow> (True, BufStream (overwrite b pos data) (pos + length data), w))"

definition put_data ::
  "io_env \<Rightarrow> file_block \<Rightarrow> transfer_job \<times> filesystem \<Rightarrow> string option \<times> transfer_job \<times> filesystem" where
  "put_data E b = (\<lambda>(j, w).
    (let tmp = (if block_compressed b then decompress E (block_data b) else block_data b) in
     (case data_stream j of
        None \<Rightarrow> (Some ''data stream is None'', j, w)
      | Some s \<Rightarrow>
          let (ok, s, w) = write_all E tmp s w;
              j = j\<lparr>data_stream := Some s\<rparr>
          in if \<not> ok then (Some ''cannot write'', j, w)
             else (None,
               j\<lparr>finished_size := finished_size j + word_of_nat (length tmp),
                 transferred := transferred j + word_of_nat (length (block_data b))\<rparr>, w))))"

definition write_block ::
  "io_env \<Rightarrow> file_block \<Rightarrow> transfer_job \<times> filesystem \<Rightarrow> string option \<times> transfer_job \<times> filesystem" where
  "write_block E b = (\<lambda>(j, w).
    (if block_id b \<noteq> job_id j then (Some ''Wrong id'', j, w)
     else
       (case data_source j of
          FilePath p \<Rightarrow>
            (case file_at j (block_num b) of
               None \<Rightarrow> (Some ''Wrong file number'', j, w)
             | Some f \<Rightarrow>
                 if ends_with (entry_name f) ''/'' then
                   (None, j\<lparr>file_num := block_num b\<rparr>, mkdir_all (join p (entry_name f)) w)
                 else
                   (case start_file E p f (block_num b) (j, w) of
                      (Some e, j, w) \<Rightarrow> (Some e, j, w)
                    | (None, j, w) \<Rightarrow> put_data E b (j, w)))
        | MemoryCursor c \<Rightarrow>
            put_data E b (if data_stream j = None then j\<lparr>data_stream := Some (BufStream c 0)\<rparr> else j, w))))"

text \<open>The callers go on with the next block whatever a write returned.\<close>

fun write_blocks :: "io_env \<Rightarrow> file_block list \<Rightarrow> transfer_job \<times> filesystem \<Rightarrow> transfer_job \<times> filesystem" where
  "write_blocks E [] s = s"
| "write_blocks E (b # bs) s = write_blocks E bs (snd (write_block E b s))"

section \<open>Reading blocks\<close>

text \<open>The loop that fills the buffer: the system may return fewer bytes than asked for, but at least
  one while some are left.\<close>

function fill :: "(nat \<Rightarrow> read_answer) \<Rightarrow> nat \<Rightarrow> bytes \<Rightarrow> nat \<Rightarrow> string + bytes" where
  "fill rd k rest room =
    (case rd k of
       ReadFails e \<Rightarrow> Inl e
     | ReadUpto n \<Rightarrow>
         let m = min (max 1 n) (min room (length rest)) in
         if m = 0 \<or> m = room then Inr (take m rest)
         else (case fill rd (Suc k) (drop m rest) (room - m) of Inl e \<Rightarrow> Inl e | Inr r \<Rightarrow> Inr (take m rest @ r)))"
  by pat_completeness auto
termination by (relation "measure (\<lambda>(_, _, _, room). room)") (auto simp: min_def max_def split: if_splits)

declare fill.simps [simp del]

datatype read_result = ReadErr string | ReadNone | ReadBlock file_block

definition next_file :: "transfer_job \<Rightarrow> transfer_job" where
  "next_file j = j\<lparr>file_num := file_num j + 1, file_confirmed := False, file_is_waiting := False\<rparr>"

definition current_digest :: "transfer_job \<Rightarrow> filesystem \<Rightarrow> string + digest_msg" where
  "current_digest j w =
    (case data_stream j of
       None \<Rightarrow> Inl ''file is None''
     | Some (BufStream _ _) \<Rightarrow> Inl ''No need to send digest for buf stream''
     | Some (FileStream i _ _) \<Rightarrow>
         Inr \<lparr>dm_id = job_id j, dm_num = file_num j, dm_last_modified = word_of_nat (snd (inodes w ! i)),
              dm_file_size = word_of_nat (length (fst (inodes w ! i))), dm_is_upload = False, dm_is_identical = False,
              dm_transferred_size = 0, dm_is_resume = is_resume j\<rparr>)"

definition buf_size :: "transfer_job \<Rightarrow> nat" where
  "buf_size j = (if direct j then 512 * 1024 else 64 * 1024)"

text \<open>What the stream still holds, how it answers, and the stream after \<open>n\<close> bytes.\<close>

definition stream_rest :: "data_stream \<Rightarrow> filesystem \<Rightarrow> bytes" where
  "stream_rest s w = (case s of FileStream i pos _ \<Rightarrow> drop pos (fst (inodes w ! i)) | BufStream b pos \<Rightarrow> drop pos b)"

definition stream_reads :: "io_env \<Rightarrow> data_stream \<Rightarrow> nat \<Rightarrow> read_answer" where
  "stream_reads E s k =
    (case s of
       FileStream i pos m \<Rightarrow> if m = ForWrite then ReadFails ''Bad file descriptor'' else reads E i pos k
     | BufStream b pos \<Rightarrow> ReadUpto (length b))"

definition stream_skip :: "nat \<Rightarrow> data_stream \<Rightarrow> data_stream" where
  "stream_skip n s = (case s of FileStream i pos m \<Rightarrow> FileStream i (pos + n) m | BufStream b pos \<Rightarrow> BufStream b (pos + n))"

text \<open>The part of \<open>read\<close> after the confirmation: one buffer as a block.\<close>

definition read_data :: "io_env \<Rightarrow> filesystem \<Rightarrow> string \<Rightarrow> transfer_job \<Rightarrow> read_result \<times> transfer_job" where
  "read_data E w name j =
    (case data_stream j of
       None \<Rightarrow> (ReadErr ''data stream is None'', j)
     | Some s \<Rightarrow>
         (case fill (stream_reads E s) 0 (stream_rest s w) (buf_size j) of
            Inl e \<Rightarrow> (ReadErr e, (next_file j)\<lparr>data_stream := None, file_error := Some e\<rparr>)
          | Inr buf \<Rightarrow>
              let offset = length buf;
                  block = (\<lambda>d z. ReadBlock \<lparr>block_id = job_id j, block_num = file_num j, block_data = d, block_compressed = z\<rparr>)
              in if offset = 0 then
                   (case data_source j of
                      MemoryCursor _ \<Rightarrow> (ReadNone, j\<lparr>data_stream := None\<rparr>)
                    | FilePath _ \<Rightarrow> (block [] False, (next_file j)\<lparr>data_stream := None\<rparr>))
                 else
                   let j = j\<lparr>data_stream := Some (stream_skip offset s), finished_size := finished_size j + word_of_nat offset\<rparr>;
                       tmp = compress E buf;
                       small = (case data_source j of FilePath _ \<Rightarrow> True | MemoryCursor _ \<Rightarrow> False) \<and>
                               \<not> is_compressed_file name \<and> offset > 16384 \<and>
                               length tmp + length tmp div 5 < offset;
                       data = (if small then tmp else buf)
                   in (block data small, j\<lparr>transferred := transferred j + word_of_nat (length data)\<rparr>)))"

text \<open>A digest is sent once per file and the job waits for the answer.\<close>

definition confirm_or_read ::
  "io_env \<Rightarrow> filesystem \<Rightarrow> string \<Rightarrow> transfer_job \<Rightarrow> file_msg list \<times> read_result \<times> transfer_job" where
  "confirm_or_read E w name j =
    (if job_kind j = Generic \<and> enable_overwrite_detection j \<and> \<not> file_confirmed j then
       if file_is_waiting j then ([], ReadNone, j)
       else
         (case current_digest j w of
            Inl e \<Rightarrow> ([], ReadErr e, j)
          | Inr d \<Rightarrow> ([DigestMsg d], ReadNone, j\<lparr>file_is_waiting := True\<rparr>))
     else ([], read_data E w name j))"

definition read_block :: "io_env \<Rightarrow> filesystem \<Rightarrow> transfer_job \<Rightarrow> file_msg list \<times> read_result \<times> transfer_job" where
  "read_block E w j =
    (case data_source j of
       FilePath p \<Rightarrow>
         (case file_at j (file_num j) of
            None \<Rightarrow> ([], ReadNone, j\<lparr>data_stream := None\<rparr>)
          | Some f \<Rightarrow>
              if ends_with (entry_name f) ''/'' then
                ([], ReadBlock \<lparr>block_id = job_id j, block_num = file_num j, block_data = [], block_compressed = False\<rparr>,
                 next_file j)
              else if data_stream j = None then
                let path = join p (entry_name f) in
                (case links w path of
                   Some i \<Rightarrow>
                     if can_open E path then
                       confirm_or_read E w (entry_name f)
                         (j\<lparr>data_stream := Some (FileStream i 0 ForRead), file_confirmed := False, file_is_waiting := False\<rparr>)
                     else ([], ReadErr ''Permission denied'', (next_file j)\<lparr>file_error := Some ''Permission denied''\<rparr>)
                 | None \<Rightarrow> ([], ReadErr ''No such file'', (next_file j)\<lparr>file_error := Some ''No such file''\<rparr>))
              else confirm_or_read E w (entry_name f) j)
     | MemoryCursor c \<Rightarrow>
         confirm_or_read E w []
           (if data_stream j = None then j\<lparr>data_source := MemoryCursor [], data_stream := Some (BufStream c 0)\<rparr> else j))"

section \<open>Confirmation\<close>

definition set_file_confirmed :: "bool \<Rightarrow> transfer_job \<Rightarrow> transfer_job" where
  "set_file_confirmed b j = j\<lparr>file_confirmed := b, file_skipped := False\<rparr>"

definition job_skipped :: "transfer_job \<Rightarrow> bool" where
  "job_skipped j \<longleftrightarrow> file_skipped j \<and> length (files j) = 1"

definition job_completed :: "transfer_job \<Rightarrow> bool" where
  "job_completed j \<longleftrightarrow> \<not> enable_overwrite_detection j \<or> \<not> file_confirmed j \<and> \<not> file_is_waiting j"

definition job_error :: "transfer_job \<Rightarrow> string option" where
  "job_error j = (if job_skipped j then Some ''skipped'' else file_error j)"

definition set_file_skipped :: "transfer_job \<Rightarrow> transfer_job" where
  "set_file_skipped j =
    (let j = set_file_confirmed False (j\<lparr>data_stream := None\<rparr>) in
     j\<lparr>file_is_waiting := False, file_num := file_num j + 1, file_skipped := True\<rparr>)"

text \<open>\<^const>\<open>None\<close> is a panic: the index is out of bounds.\<close>

definition set_stream_offset ::
  "io_env \<Rightarrow> int \<Rightarrow> nat \<Rightarrow> transfer_job \<times> filesystem \<Rightarrow> (transfer_job \<times> filesystem) option" where
  "set_stream_offset E n offset = (\<lambda>(j, w).
    (case data_source j of
       MemoryCursor _ \<Rightarrow> Some (j, w)
     | FilePath p \<Rightarrow>
         (case file_at j n of
            None \<Rightarrow> None
          | Some e \<Rightarrow>
              let path = join p (entry_name e);
                  at = (\<lambda>i m. j\<lparr>data_stream := Some (FileStream i offset m),
                              transferred := transferred j + word_of_nat offset,
                              finished_size := finished_size j + word_of_nat offset\<rparr>)
              in if path_exists w (download_of path) \<and> path_exists w (digest_of path) then
                   (case links w (download_of path) of
                      Some i \<Rightarrow> if refused w Creating (download_of path) then Some (j, w) else Some (at i ForWrite, w)
                    | None \<Rightarrow> Some (j, w))
                 else
                   (case links w path of
                      Some i \<Rightarrow> if can_open E path then Some (at i ForRead, w) else Some (j, w)
                    | None \<Rightarrow> Some (j, w)))))"

definition confirm ::
  "io_env \<Rightarrow> confirm_request \<Rightarrow> transfer_job \<times> filesystem \<Rightarrow> (transfer_job \<times> filesystem) option" where
  "confirm E r = (\<lambda>(j, w).
    (if file_num j \<noteq> cr_num r then Some (j, w)
     else
       (case cr_union r of
          Skip s \<Rightarrow> Some (if s then set_file_skipped j else set_file_confirmed True j, w)
        | OffsetBlk offset \<Rightarrow>
            let j = set_file_confirmed True j in
            if offset > 0 then set_stream_offset E (cr_num r) (unat offset) (j, w) else Some (j, w)
        | NoConfirm \<Rightarrow> Some (j, w))))"

record job_meta =
  meta_id :: int
  meta_remote :: string
  meta_to :: string
  meta_show_hidden :: bool
  meta_file_num :: int
  meta_is_remote :: bool

definition gen_meta :: "transfer_job \<Rightarrow> job_meta" where
  "gen_meta j =
    \<lparr>meta_id = job_id j, meta_remote = remote j,
     meta_to = (case data_source j of FilePath p \<Rightarrow> p | MemoryCursor _ \<Rightarrow> []),
     meta_show_hidden = show_hidden j, meta_file_num = file_num j, meta_is_remote = is_remote j\<rparr>"

section \<open>Lists of jobs\<close>

fun remove_job :: "int \<Rightarrow> transfer_job list \<Rightarrow> transfer_job option \<times> transfer_job list" where
  "remove_job i [] = (None, [])"
| "remove_job i (j # js) =
    (if job_id j = i then (Some j, js) else let (r, js) = remove_job i js in (r, j # js))"

definition get_job :: "int \<Rightarrow> transfer_job list \<Rightarrow> transfer_job option" where
  "get_job i js = find (\<lambda>j. job_id j = i) js"

text \<open>An update through \<open>get_job\<close>'s reference changes the first job with the number.\<close>

fun put_job :: "int \<Rightarrow> transfer_job \<Rightarrow> transfer_job list \<Rightarrow> transfer_job list" where
  "put_job i j' [] = []"
| "put_job i j' (j # js) = (if job_id j = i then j' # js else j # put_job i j' js)"

text \<open>One tick of the sending side. The first job that is not a left-over of the last session sends
  blocks until the tick's limits; the last component says whether the job is finished.\<close>

function drive_job ::
  "io_env \<Rightarrow> filesystem \<Rightarrow> nat \<Rightarrow> nat \<Rightarrow> nat \<Rightarrow> nat \<Rightarrow> transfer_job \<Rightarrow> file_msg list \<times> transfer_job \<times> bool" where
  "drive_job E w max_blocks max_bytes blocks_sent bytes_sent j =
    (let (ms, r, j) = read_block E w j in
     (case r of
        ReadErr e \<Rightarrow> (ms @ [ErrorMsg (job_id j) e (file_num j)], j, False)
      | ReadBlock b \<Rightarrow>
          let bytes_sent = bytes_sent + length (block_data b);
              blocks_sent = Suc blocks_sent
          in if blocks_sent \<ge> max_blocks \<or> bytes_sent \<ge> max_bytes then (ms @ [BlockMsg b], j, False)
             else let (ms', j, fin) = drive_job E w max_blocks max_bytes blocks_sent bytes_sent j in
                  (ms @ BlockMsg b # ms', j, fin)
      | ReadNone \<Rightarrow>
          if job_completed j then
            (ms @ [case job_error j of Some e \<Rightarrow> ErrorMsg (job_id j) e (file_num j) | None \<Rightarrow> DoneMsg (job_id j) (file_num j)],
             j, True)
          else (ms, j, False)))"
  by pat_completeness auto
termination by (relation "measure (\<lambda>(_, _, max_blocks, _, sent, _, _). max_blocks - sent)") auto

declare drive_job.simps [simp del]

definition max_blocks_per_tick :: "bool \<Rightarrow> nat" where
  "max_blocks_per_tick d = (if d then 128 else 32)"

definition max_bytes_per_tick :: "bool \<Rightarrow> nat" where
  "max_bytes_per_tick d = (if d then 16 * 1024 * 1024 else 2 * 1024 * 1024)"

definition handle_read_jobs ::
  "io_env \<Rightarrow> filesystem \<Rightarrow> bool \<Rightarrow> transfer_job list \<Rightarrow> file_msg list \<times> transfer_job list" where
  "handle_read_jobs E w d js =
    (case dropWhile is_last_job js of
       [] \<Rightarrow> ([], js)
     | j # later \<Rightarrow>
         let (ms, j, fin) = drive_job E w (max_blocks_per_tick d) (max_bytes_per_tick d) 0 0 j;
             js = takeWhile is_last_job js @ j # later
         in (ms, if fin then snd (remove_job (job_id j) js) else js))"

end
