(* ===== verification/Transfer_Delivery.thy ===== *)
theory Transfer_Delivery
  imports Transfer_Job
begin

text \<open>
  What a file transfer delivers: the blocks a job reads carry the contents of its files in order, and
  the blocks a job writes end up under the names of its files.
\<close>

section \<open>The sending side\<close>

definition payload :: "io_env \<Rightarrow> file_block \<Rightarrow> bytes" where
  "payload E b = (if block_compressed b then decompress E (block_data b) else block_data b)"

definition payloads :: "io_env \<Rightarrow> file_block list \<Rightarrow> bytes" where
  "payloads E bs = concat (map (payload E) bs)"

text \<open>Reading until nothing is left: the blocks, or \<^const>\<open>None\<close> when a read fails or \<open>n\<close> reads are
  not enough.\<close>

fun drain :: "nat \<Rightarrow> io_env \<Rightarrow> filesystem \<Rightarrow> transfer_job \<Rightarrow> file_block list option" where
  "drain 0 E w j = None"
| "drain (Suc n) E w j =
    (case read_block E w j of
       (_, ReadErr _, _) \<Rightarrow> None
     | (_, ReadNone, _) \<Rightarrow> Some []
     | (_, ReadBlock b, j') \<Rightarrow> map_option ((#) b) (drain n E w j'))"

lemma fill_reads:
  assumes "\<And>k. \<exists>n. rd k = ReadUpto n" and "0 < room"
  shows "fill rd k rest room = Inr (take room rest)"
  using assms(2)
proof (induction room arbitrary: k rest rule: less_induct)
  case (less room)
  obtain n where n: "rd k = ReadUpto n" using assms(1) by blast
  define m where "m = min (max 1 n) (min room (length rest))"
  have step: "fill rd k rest room =
      (if m = 0 \<or> m = room then Inr (take m rest)
       else (case fill rd (Suc k) (drop m rest) (room - m) of Inl e \<Rightarrow> Inl e | Inr r \<Rightarrow> Inr (take m rest @ r)))"
    unfolding m_def by (subst fill.simps) (simp only: n Let_def read_answer.case)
  show ?case
  proof (cases "m = 0 \<or> m = room")
    case True
    then have "take m rest = take room rest" using less.prems by (auto simp: m_def min_def split: if_splits)
    with True step show ?thesis by simp
  next
    case False
    then have "0 < m" "m < room" "m \<le> length rest" by (auto simp: m_def)
    with less.IH[of "room - m" "Suc k" "drop m rest"] step False
    show ?thesis by (simp flip: take_add)
  qed
qed

text \<open>The sending job of a folder: regular files, each readable, nothing to confirm.\<close>

definition sending :: "io_env \<Rightarrow> filesystem \<Rightarrow> string \<Rightarrow> int \<Rightarrow> file_entry list \<Rightarrow> transfer_job \<Rightarrow> bool" where
  "sending E w p i fs j \<longleftrightarrow>
    data_source j = FilePath p \<and> job_id j = i \<and> files j = fs \<and> \<not> enable_overwrite_detection j"

definition readable :: "io_env \<Rightarrow> filesystem \<Rightarrow> string \<Rightarrow> file_entry list \<Rightarrow> bool" where
  "readable E w p fs \<longleftrightarrow>
    list_all (\<lambda>f. \<not> ends_with (entry_name f) ''/'' \<and> path_exists w (join p (entry_name f)) \<and> can_open E (join p (entry_name f))) fs"

definition honest_io :: "io_env \<Rightarrow> bool" where
  "honest_io E \<longleftrightarrow> (\<forall>i pos k. \<exists>n. reads E i pos k = ReadUpto n) \<and> (\<forall>d. \<exists>z. zstd E d = Some z \<and> unzstd E z = Some d)"

definition source_content :: "filesystem \<Rightarrow> string \<Rightarrow> file_entry \<Rightarrow> bytes" where
  "source_content w p f = fst (inodes w ! the (links w (join p (entry_name f))))"

lemma compress_inverse: "honest_io E \<Longrightarrow> decompress E (compress E d) = d"
  unfolding honest_io_def compress_def decompress_def by (metis option.case(2))

lemma sending_open:
  assumes s: "sending E w p i fs j" and r: "readable E w p fs" and h: "honest_io E"
    and num: "file_num j = int k" and k: "k < length fs"
    and open_at: "data_stream j = Some (FileStream ino pos ForRead)" and ino: "links w (join p (entry_name (fs ! k))) = Some ino"
    and pos: "pos \<le> length (fst (inodes w ! ino))"
    and rest: "\<And>j'. sending E w p i fs j' \<Longrightarrow> file_num j' = int (Suc k) \<Longrightarrow> data_stream j' = None \<Longrightarrow>
      \<exists>m bss. drain m E w j' = Some (concat bss) \<and> Q bss"
  shows "\<exists>m bs bss. drain m E w j = Some (bs @ concat bss) \<and> Q bss \<and> bs \<noteq> [] \<and>
    list_all (\<lambda>b. block_id b = i \<and> block_num b = int k) bs \<and> payloads E bs = drop pos (fst (inodes w ! ino))"
  using s num open_at pos
proof (induction "length (fst (inodes w ! ino)) - pos" arbitrary: j pos rule: less_induct)
  case less
  let ?c = "fst (inodes w ! ino)" and ?f = "fs ! k"
  have f: "file_at j (file_num j) = Some ?f" "\<not> ends_with (entry_name ?f) ''/''"
    using less.prems k r by (auto simp: file_at_def sending_def readable_def list_all_length)
  have rb: "read_block E w j = ([], read_data E w (entry_name ?f) j)"
    using f less.prems by (simp add: read_block_def confirm_or_read_def sending_def)
  have room: "0 < buf_size j" by (simp add: buf_size_def)
  have fl: "fill (stream_reads E (FileStream ino pos ForRead)) 0 (stream_rest (FileStream ino pos ForRead) w) (buf_size j)
      = Inr (take (buf_size j) (drop pos ?c))"
    using h room by (simp add: fill_reads stream_reads_def stream_rest_def honest_io_def)
  show ?case
  proof (cases "pos = length ?c")
    case True
    let ?b = "\<lparr>block_id = job_id j, block_num = file_num j, block_data = [], block_compressed = False\<rparr>"
    let ?j = "(next_file j)\<lparr>data_stream := None\<rparr>"
    have rd: "read_block E w j = ([], ReadBlock ?b, ?j)"
      using rb fl True less.prems by (simp add: read_data_def Let_def sending_def)
    have "sending E w p i fs ?j" "file_num ?j = int (Suc k)" "data_stream ?j = None"
      using less.prems by (simp_all add: sending_def next_file_def)
    from rest[OF this] obtain m bss where "drain m E w ?j = Some (concat bss)" "Q bss" by blast
    then have "drain (Suc m) E w j = Some ([?b] @ concat bss) \<and> Q bss" using rd by simp
    moreover have "payloads E [?b] = drop pos ?c" using True by (simp add: payloads_def payload_def)
    moreover have "block_id ?b = i \<and> block_num ?b = int k" using less.prems by (simp add: sending_def)
    ultimately show ?thesis by (intro exI[of _ "Suc m"] exI[of _ "[?b]"] exI[of _ bss]) simp
  next
    case False
    define buf where "buf = take (buf_size j) (drop pos ?c)"
    have buf: "0 < length buf" "pos + length buf \<le> length ?c"
      using False less.prems room by (auto simp: buf_def)
    have "drop (length buf) (drop pos ?c) = drop (buf_size j) (drop pos ?c)"
      using less.prems(4) by (auto simp: buf_def min_def)
    then have rest_eq: "drop (pos + length buf) ?c = drop (buf_size j) (drop pos ?c)" by (simp only: drop_drop add.commute)
    have split: "buf @ drop (pos + length buf) ?c = drop pos ?c"
      unfolding rest_eq unfolding buf_def by (rule append_take_drop_id)
    obtain b j' where rd: "read_block E w j = ([], ReadBlock b, j')" and b: "block_id b = i" "block_num b = int k"
        "payload E b = buf" and j': "sending E w p i fs j'" "file_num j' = int k"
        "data_stream j' = Some (FileStream ino (pos + length buf) ForRead)"
      using rb fl less.prems buf(1) compress_inverse[OF h, of buf]
      by (auto simp: read_data_def Let_def sending_def payload_def buf_def[symmetric] stream_skip_def split: if_splits)
    have "length ?c - (pos + length buf) < length ?c - pos" using buf(1,2) by linarith
    from less.hyps[OF this j' buf(2)] obtain m bs bss where
      ih: "drain m E w j' = Some (bs @ concat bss)" "Q bss" "list_all (\<lambda>b. block_id b = i \<and> block_num b = int k) bs"
        "payloads E bs = drop (pos + length buf) ?c" by blast
    have "drain (Suc m) E w j = Some ((b # bs) @ concat bss)" using rd ih(1) by simp
    moreover have "payloads E (b # bs) = drop pos ?c" using ih(4) b(3) split by (simp add: payloads_def)
    ultimately show ?thesis
      using ih b by (intro exI[of _ "Suc m"] exI[of _ "b # bs"] exI[of _ bss]) simp
  qed
qed

text \<open>What the blocks of the files from number \<open>k\<close> on look like.\<close>

definition carries :: "io_env \<Rightarrow> int \<Rightarrow> (file_entry \<Rightarrow> bytes) \<Rightarrow> nat \<Rightarrow> file_entry list \<Rightarrow> file_block list list \<Rightarrow> bool" where
  "carries E i content k fs bss \<longleftrightarrow>
    length bss = length fs \<and>
    (\<forall>n<length fs. bss ! n \<noteq> [] \<and> list_all (\<lambda>b. block_id b = i \<and> block_num b = int (k + n)) (bss ! n) \<and>
       payloads E (bss ! n) = content (fs ! n))"

lemma carries_Cons:
  assumes "carries E i c (Suc k) fs bss" and "bs \<noteq> []"
    and "list_all (\<lambda>b. block_id b = i \<and> block_num b = int k) bs" and "payloads E bs = c f"
  shows "carries E i c k (f # fs) (bs # bss)"
  using assms by (auto simp: carries_def nth_Cons algebra_simps split: nat.split)

lemma sending_drains:
  assumes r: "readable E w p fs" and h: "honest_io E"
  shows "sending E w p i fs j \<Longrightarrow> file_num j = int k \<Longrightarrow> k \<le> length fs \<Longrightarrow> data_stream j = None \<Longrightarrow>
    \<exists>m bss. drain m E w j = Some (concat bss) \<and> carries E i (source_content w p) k (drop k fs) bss"
proof (induction "length fs - k" arbitrary: j k)
  case 0
  then have "read_block E w j = ([], ReadNone, j\<lparr>data_stream := None\<rparr>)"
    by (simp add: read_block_def sending_def file_at_def)
  then have "drain (Suc 0) E w j = Some (concat [])" by simp
  moreover have "carries E i (source_content w p) k (drop k fs) []" using 0 by (simp add: carries_def)
  ultimately show ?case by blast
next
  case (Suc n)
  then have k: "k < length fs" "n = length fs - Suc k" by simp_all
  let ?f = "fs ! k"
  have f: "\<not> ends_with (entry_name ?f) ''/''" "path_exists w (join p (entry_name ?f))" "can_open E (join p (entry_name ?f))"
    using r k by (auto simp: readable_def list_all_length)
  then obtain ino where ino: "links w (join p (entry_name ?f)) = Some ino" by (auto simp: path_exists_def)
  let ?j = "j\<lparr>data_stream := Some (FileStream ino 0 ForRead), file_confirmed := False, file_is_waiting := False\<rparr>"
  have fa: "file_at j (file_num j) = Some ?f" "file_at ?j (file_num ?j) = Some ?f"
    using Suc.prems k by (auto simp: file_at_def sending_def)
  have same: "read_block E w j = read_block E w ?j"
    using Suc.prems(1,4) f fa ino by (simp add: read_block_def sending_def Let_def)
  have drain_same: "drain m E w j = drain m E w ?j" for m
    by (cases m) (simp_all add: same)
  have sj: "sending E w p i fs ?j" using Suc.prems(1) by (simp add: sending_def)
  have "\<exists>m bss. drain m E w j' = Some (concat bss) \<and> carries E i (source_content w p) (Suc k) (drop (Suc k) fs) bss"
    if "sending E w p i fs j'" "file_num j' = int (Suc k)" "data_stream j' = None" for j'
    using Suc.hyps(1)[OF k(2) that(1,2) _ that(3)] k(1) by simp
  note rest = this
  have "file_num ?j = int k" "data_stream ?j = Some (FileStream ino 0 ForRead)" using Suc.prems(2) by simp_all
  from sending_open[OF sj r h this(1) k(1) this(2) ino le0 rest] obtain m bs bss where
    d: "drain m E w ?j = Some (bs @ concat bss)" "carries E i (source_content w p) (Suc k) (drop (Suc k) fs) bss" "bs \<noteq> []"
    "list_all (\<lambda>b. block_id b = i \<and> block_num b = int k) bs" "payloads E bs = drop 0 (fst (inodes w ! ino))"
    by blast
  have "carries E i (source_content w p) k (drop k fs) (bs # bss)"
    unfolding Cons_nth_drop_Suc[OF k(1), symmetric]
    by (rule carries_Cons[OF d(2-4)]) (simp add: d(5) source_content_def ino)
  with d(1) drain_same show ?case by (intro exI[of _ m] exI[of _ "bs # bss"]) simp
qed

section \<open>The receiving side\<close>

definition target :: "string \<Rightarrow> file_entry \<Rightarrow> string" where
  "target q f = join q (entry_name f)"

text \<open>The paths a file's transfer uses.\<close>

definition touched :: "string \<Rightarrow> file_entry \<Rightarrow> string set" where
  "touched q f = {target q f, download_of (target q f), digest_of (target q f)}"

definition receiving :: "string \<Rightarrow> int \<Rightarrow> file_entry list \<Rightarrow> transfer_job \<Rightarrow> bool" where
  "receiving q i fs j \<longleftrightarrow> data_source j = FilePath q \<and> job_kind j = Generic \<and> job_id j = i \<and> files j = fs"

definition ready :: "filesystem \<Rightarrow> string \<Rightarrow> file_entry \<Rightarrow> bool" where
  "ready w q f \<longleftrightarrow> \<not> ends_with (entry_name f) ''/'' \<and> \<not> refused w Creating (download_of (target q f)) \<and>
    \<not> refused w Removing (digest_of (target q f))"

definition acceptable :: "filesystem \<Rightarrow> string \<Rightarrow> file_entry list \<Rightarrow> bool" where
  "acceptable w q fs \<longleftrightarrow>
    (\<forall>m<length fs. ready w q (fs ! m)) \<and>
    (\<forall>m<length fs. \<forall>n<length fs. m \<noteq> n \<longrightarrow> touched q (fs ! m) \<inter> touched q (fs ! n) = {})"

lemma names_differ [simp]:
  "download_of p \<noteq> p" "p \<noteq> download_of p" "digest_of p \<noteq> p" "p \<noteq> digest_of p"
  "download_of p \<noteq> digest_of p" "digest_of p \<noteq> download_of p"
  by (simp_all add: download_of_def digest_of_def)

lemma store_ok_modify [wf_intros]: "store_ok w \<Longrightarrow> store_ok (modify_time j w)"
  by (simp add: modify_time_def Let_def wf_intros split: data_source.split option.split)

lemma refused_modify [simp]: "refused (modify_time j w) = refused w"
  by (simp add: modify_time_def Let_def split: data_source.split option.split)

lemma entry_modify:
  assumes "store_ok w" and "receiving q i fs j" and "file_at j (file_num j) = Some f"
  shows "entry_at (modify_time j w) r =
    (if r = target q f then
       (case entry_at w (download_of (target q f)) of
          Some e \<Rightarrow> Some (fst e, unat (modified_time f))
        | None \<Rightarrow> map_option (\<lambda>e. (fst e, unat (modified_time f))) (entry_at w (target q f)))
     else if r = download_of (target q f) \<or> r = digest_of (target q f) \<and> \<not> refused w Removing r then None
     else entry_at w r)"
  using assms(2,3)
  by (auto simp: modify_time_def receiving_def target_def Let_def entry_set_mtime entry_rename entry_rm
      store_ok_rename store_ok_rm assms(1) split: option.split)

lemma modify_nothing:
  "file_at j (file_num j) = None \<Longrightarrow> modify_time j w = w"
  by (simp add: modify_time_def split: data_source.split)

text \<open>The file \<open>f\<close>, number \<open>n\<close>, is being written and \<open>c\<close> has arrived.\<close>

definition arriving :: "string \<Rightarrow> file_entry \<Rightarrow> int \<Rightarrow> bytes \<Rightarrow> transfer_job \<times> filesystem \<Rightarrow> bool" where
  "arriving q f n c = (\<lambda>(j, w).
    file_num j = n \<and>
    (\<exists>i. data_stream j = Some (FileStream i (length c) ForWrite) \<and> links w (download_of (target q f)) = Some i \<and>
       fst (inodes w ! i) = c))"

lemma put_arrives:
  assumes "store_ok w" and "arriving q f n c (j, w)" and "writes_ok E" and "receiving q i fs j"
  shows "case put_data E b (j, w) of (e, j', w') \<Rightarrow>
    e = None \<and> receiving q i fs j' \<and> store_ok w' \<and> refused w' = refused w \<and>
    arriving q f n (c @ payload E b) (j', w') \<and>
    (\<forall>r. r \<noteq> download_of (target q f) \<longrightarrow> entry_at w' r = entry_at w r)"
proof -
  obtain ino where ino: "data_stream j = Some (FileStream ino (length c) ForWrite)" "links w (download_of (target q f)) = Some ino"
      "fst (inodes w ! ino) = c" "file_num j = n"
    using assms(2) by (auto simp: arriving_def)
  define w' where "w' = write_at ino (length c) (payload E b) w"
  have w': "store_ok w'" "refused w' = refused w" "links w' = links w"
    unfolding w'_def by (rule store_ok_write[OF assms(1)], simp, simp add: write_at_def)
  have inner: "fst (inodes w' ! ino) = c @ payload E b"
    using assms(1) ino by (simp add: w'_def write_at_def store_ok_def)
  have others: "r \<noteq> download_of (target q f) \<Longrightarrow> entry_at w' r = entry_at w r" for r
    using entry_write[OF assms(1) ino(2)] by (simp add: w'_def)
  show ?thesis
    using ino assms(3,4) w' inner others
    by (simp add: put_data_def write_all_def Let_def payload_def[symmetric] w'_def[symmetric] arriving_def receiving_def writes_ok_def)
qed

lemma create_succeeds: "\<not> refused w Creating p \<Longrightarrow> \<exists>i w'. create p w = Some (i, w')"
  by (cases "links w p") (simp_all add: create_def)

lemma start_arrives:
  assumes "store_ok w" and "receiving q i fs j" and "ready w q (fs ! n)" and "n < length fs"
    and "int n \<noteq> file_num j \<or> data_stream j = None" and "writes_ok E"
  shows "case start_file E q (fs ! n) (int n) (j, w) of (e, j', w') \<Rightarrow>
    e = None \<and> receiving q i fs j' \<and> store_ok w' \<and> refused w' = refused w \<and> arriving q (fs ! n) (int n) [] (j', w') \<and>
    (\<forall>r. r \<noteq> download_of (target q (fs ! n)) \<longrightarrow> r \<noteq> digest_of (target q (fs ! n)) \<longrightarrow>
       entry_at w' r = entry_at (modify_time j w) r)"
proof -
  let ?P = "target q (fs ! n)"
  define w1 where "w1 = (case path_parent ?P of None \<Rightarrow> modify_time j w | Some pp \<Rightarrow> mkdir_all pp (modify_time j w))"
  define w2 where "w2 = rm (digest_of ?P) w1"
  have w1: "store_ok w1" "refused w1 = refused w" "entry_at w1 r = entry_at (modify_time j w) r" for r
    using assms(1) by (auto simp: w1_def wf_intros split: option.split)
  have w2: "store_ok w2" "refused w2 = refused w" using w1 by (auto simp: w2_def wf_intros)
  have may: "\<not> refused w1 Removing (digest_of ?P)" "sync_ok E"
    using assms(3,6) w1(2) by (simp_all add: ready_def writes_ok_def)
  have "\<not> refused w2 Creating (download_of ?P)" using assms(3,4) w2 by (auto simp: ready_def)
  then obtain ino w3 where c: "create (download_of ?P) w2 = Some (ino, w3)" using create_succeeds by metis
  note c_ok = store_ok_create[OF w2(1) c] and c_link = link_create(1)[OF c] and c_entry = entry_create[OF w2(1) c]
  define w4 where "w4 = write_whole (digest_of ?P) (digest_json E (digest j)) w3"
  have w4: "store_ok w4" "refused w4 = refused w" "links w4 (download_of ?P) = Some ino"
    using c_ok c_link refused_create[OF c] w2 by (auto simp: w4_def store_ok_whole link_whole)
  have "entry_at w4 (download_of ?P) = Some ([], clock_secs w2)"
    using entry_whole[OF c_ok] c_entry by (simp add: w4_def)
  then have empty: "fst (inodes w4 ! ino) = []" using w4(3) by (simp add: entry_at_def)
  have others: "r \<noteq> download_of ?P \<Longrightarrow> r \<noteq> digest_of ?P \<Longrightarrow> entry_at w4 r = entry_at (modify_time j w) r" for r
    using entry_whole[OF c_ok] c_entry w1(3) by (auto simp: w4_def w2_def entry_rm)
  have "start_file E q (fs ! n) (int n) (j, w) =
      (None, j\<lparr>file_num := int n, data_stream := Some (FileStream ino 0 ForWrite)\<rparr>, w4)"
    using assms(2,5) c may
    by (simp add: start_file_def open_file_def Let_def receiving_def target_def[symmetric] w1_def[symmetric] w2_def[symmetric] w4_def[symmetric])
  then show ?thesis using assms(2) w4 empty others by (simp add: receiving_def arriving_def)
qed

lemma write_block_known:
  assumes "receiving q i fs j" and "ready w q (fs ! n)" and "n < length fs" and "block_id b = i" and "block_num b = int n"
  shows "write_block E b (j, w) =
    (case start_file E q (fs ! n) (int n) (j, w) of
       (Some e, j, w) \<Rightarrow> (Some e, j, w) | (None, j, w) \<Rightarrow> put_data E b (j, w))"
  using assms by (simp add: write_block_def receiving_def ready_def file_at_def)

lemma ready_same: "refused w' = refused w \<Longrightarrow> ready w' q f = ready w q f"
  by (simp add: ready_def)

lemma more_arrives:
  assumes "writes_ok E" and "n < length fs"
  shows "list_all (\<lambda>b. block_id b = i \<and> block_num b = int n) bs \<Longrightarrow> store_ok w \<Longrightarrow> receiving q i fs j \<Longrightarrow>
    ready w q (fs ! n) \<Longrightarrow> arriving q (fs ! n) (int n) c (j, w) \<Longrightarrow>
    (case write_blocks E bs (j, w) of (j', w') \<Rightarrow>
      receiving q i fs j' \<and> store_ok w' \<and> refused w' = refused w \<and>
      arriving q (fs ! n) (int n) (c @ payloads E bs) (j', w') \<and>
      (\<forall>r. r \<noteq> download_of (target q (fs ! n)) \<longrightarrow> entry_at w' r = entry_at w r))"
proof (induction bs arbitrary: j w c)
  case Nil
  then show ?case by (simp add: payloads_def)
next
  case (Cons b bs)
  have "start_file E q (fs ! n) (int n) (j, w) = (None, j, w)"
    using Cons.prems(5) by (auto simp: start_file_def arriving_def)
  then have wb: "write_block E b (j, w) = put_data E b (j, w)"
    using write_block_known[OF Cons.prems(3,4) assms(2), of b E] Cons.prems(1) by simp
  obtain e j' w' where put: "put_data E b (j, w) = (e, j', w')" by (metis prod_cases3)
  note one = put_arrives[OF Cons.prems(2,5) assms(1) Cons.prems(3), of b, unfolded put prod.case]
  have "ready w' q (fs ! n)" using one Cons.prems(4) ready_same by blast
  with Cons.IH[of w' j' "c @ payload E b"] one Cons.prems(1)
  have "case write_blocks E bs (j', w') of (j'', w'') \<Rightarrow>
      receiving q i fs j'' \<and> store_ok w'' \<and> refused w'' = refused w' \<and>
      arriving q (fs ! n) (int n) ((c @ payload E b) @ payloads E bs) (j'', w'') \<and>
      (\<forall>r. r \<noteq> download_of (target q (fs ! n)) \<longrightarrow> entry_at w'' r = entry_at w' r)" by simp
  then show ?case using one wb put by (auto simp: payloads_def)
qed

lemma file_arrives:
  assumes "writes_ok E" and "n < length fs" and "bs \<noteq> []"
    and "list_all (\<lambda>b. block_id b = i \<and> block_num b = int n) bs"
    and "store_ok w" and "receiving q i fs j" and "ready w q (fs ! n)" and "int n \<noteq> file_num j \<or> data_stream j = None"
  shows "case write_blocks E bs (j, w) of (j', w') \<Rightarrow>
      receiving q i fs j' \<and> store_ok w' \<and> refused w' = refused w \<and>
      arriving q (fs ! n) (int n) (payloads E bs) (j', w') \<and>
      (\<forall>r. r \<noteq> download_of (target q (fs ! n)) \<longrightarrow> r \<noteq> digest_of (target q (fs ! n)) \<longrightarrow>
         entry_at w' r = entry_at (modify_time j w) r)"
proof -
  obtain b bs' where bs: "bs = b # bs'" using assms(3) by (cases bs) auto
  obtain e j1 w1 where st: "start_file E q (fs ! n) (int n) (j, w) = (e, j1, w1)" by (metis prod_cases3)
  have s: "e = None" "receiving q i fs j1" "store_ok w1" "refused w1 = refused w"
      "arriving q (fs ! n) (int n) [] (j1, w1)"
      "\<And>r. r \<noteq> download_of (target q (fs ! n)) \<Longrightarrow> r \<noteq> digest_of (target q (fs ! n)) \<Longrightarrow>
         entry_at w1 r = entry_at (modify_time j w) r"
    using start_arrives[OF assms(5,6,7,2,8,1), unfolded st prod.case] by blast+
  have wb: "write_block E b (j, w) = put_data E b (j1, w1)"
    using write_block_known[OF assms(6,7,2), of b E] assms(4) bs st s(1) by simp
  obtain e' j2 w2 where put: "put_data E b (j1, w1) = (e', j2, w2)" by (metis prod_cases3)
  note one = put_arrives[OF s(3,5) assms(1) s(2), of b, unfolded put prod.case append_Nil]
  have acc: "ready w2 q (fs ! n)" using one s(4) assms(7) ready_same by metis
  have "case write_blocks E bs' (j2, w2) of (j', w') \<Rightarrow>
      receiving q i fs j' \<and> store_ok w' \<and> refused w' = refused w2 \<and>
      arriving q (fs ! n) (int n) (payload E b @ payloads E bs') (j', w') \<and>
      (\<forall>r. r \<noteq> download_of (target q (fs ! n)) \<longrightarrow> entry_at w' r = entry_at w2 r)"
    by (rule more_arrives[OF assms(1,2)]) (use one acc assms(4) bs in simp_all)
  then show ?thesis using one s wb put bs by (auto simp: payloads_def)
qed


lemma carries_split:
  assumes "carries E i c k (f # fs) bss"
  shows "\<exists>bs bss'. bss = bs # bss' \<and> bs \<noteq> [] \<and> list_all (\<lambda>b. block_id b = i \<and> block_num b = int k) bs \<and>
    payloads E bs = c f \<and> carries E i c (Suc k) fs bss'"
proof -
  from assms obtain bs bss' where bss: "bss = bs # bss'" by (cases bss) (auto simp: carries_def)
  with assms show ?thesis by (simp add: carries_def All_less_Suc2 algebra_simps)
qed

lemma write_blocks_append: "write_blocks E (as @ bs) s = write_blocks E bs (write_blocks E as s)"
  by (induction "as" arbitrary: s) auto

text \<open>The first \<open>k\<close> files stand under their names, with their times.\<close>

definition landed :: "string \<Rightarrow> file_entry list \<Rightarrow> (file_entry \<Rightarrow> bytes) \<Rightarrow> nat \<Rightarrow> filesystem \<Rightarrow> bool" where
  "landed q fs content k w \<longleftrightarrow>
    (\<forall>m<k. entry_at w (target q (fs ! m)) = Some (content (fs ! m), unat (modified_time (fs ! m))))"

lemma acceptable_same: "refused w' = refused w \<Longrightarrow> acceptable w' q fs = acceptable w q fs"
  by (simp add: acceptable_def ready_def)

lemma acceptable_ready: "acceptable w q fs \<Longrightarrow> n < length fs \<Longrightarrow> ready w q (fs ! n)"
  by (simp add: acceptable_def)

lemma target_apart:
  assumes "acceptable w q fs" and "m < length fs" and "n < length fs" and "m \<noteq> n"
  shows "target q (fs ! m) \<notin> touched q (fs ! n)"
proof -
  have "touched q (fs ! m) \<inter> touched q (fs ! n) = {}" using assms unfolding acceptable_def by blast
  then show ?thesis by (auto simp: touched_def)
qed

text \<open>Finishing the file that arrives adds it to those that have landed.\<close>

lemma finish_lands:
  assumes "store_ok w" and "receiving q i fs j" and "acceptable w q fs" and "k < length fs"
    and "arriving q (fs ! k) (int k) (content (fs ! k)) (j, w)" and "landed q fs content k w"
  shows "landed q fs content (Suc k) (modify_time j w)"
proof -
  have at: "file_at j (file_num j) = Some (fs ! k)"
    using assms(2,4,5) by (auto simp: file_at_def receiving_def arriving_def)
  obtain ino where ino: "links w (download_of (target q (fs ! k))) = Some ino" "fst (inodes w ! ino) = content (fs ! k)"
    using assms(5) by (auto simp: arriving_def)
  show ?thesis
    unfolding landed_def
  proof (intro allI impI)
    fix m assume m: "m < Suc k"
    show "entry_at (modify_time j w) (target q (fs ! m)) = Some (content (fs ! m), unat (modified_time (fs ! m)))"
    proof (cases "m = k")
      case True
      then show ?thesis using entry_modify[OF assms(1,2) at] ino by (simp add: entry_at_def)
    next
      case False
      then have "target q (fs ! m) \<notin> touched q (fs ! k)" using target_apart[OF assms(3)] m assms(4) by simp
      then show ?thesis
        using entry_modify[OF assms(1,2) at] assms(6) m False by (simp add: landed_def touched_def)
    qed
  qed
qed

lemma receiving_lands:
  assumes lim: "writes_ok E"
  shows "carries E i content (Suc k) (drop (Suc k) fs) bss \<Longrightarrow> k < length fs \<Longrightarrow> store_ok w \<Longrightarrow> receiving q i fs j \<Longrightarrow>
    acceptable w q fs \<Longrightarrow> arriving q (fs ! k) (int k) (content (fs ! k)) (j, w) \<Longrightarrow> landed q fs content k w \<Longrightarrow>
    (case write_blocks E (concat bss) (j, w) of (j', w') \<Rightarrow> landed q fs content (length fs) (modify_time j' w'))"
proof (induction "length fs - Suc k" arbitrary: k bss j w)
  case 0
  then have "bss = []" "length fs = Suc k" by (simp_all add: carries_def)
  then show ?case using finish_lands[OF 0(4,5,6,3,7,8)] by simp
next
  case (Suc n)
  have k: "Suc k < length fs" "n = length fs - Suc (Suc k)" using Suc.hyps(2) by simp_all
  have eq: "drop (Suc k) fs = fs ! Suc k # drop (Suc (Suc k)) fs" using Cons_nth_drop_Suc[OF k(1)] by simp
  obtain bs bss' where bss: "bss = bs # bss'"
      and bs: "bs \<noteq> []" "list_all (\<lambda>b. block_id b = i \<and> block_num b = int (Suc k)) bs"
        "payloads E bs = content (fs ! Suc k)"
      and bss': "carries E i content (Suc (Suc k)) (drop (Suc (Suc k)) fs) bss'"
    using carries_split[OF Suc.prems(1)[unfolded eq]] by blast
  have num: "int (Suc k) \<noteq> file_num j" using Suc.prems(6) by (auto simp: arriving_def)
  obtain j1 w1 where one: "write_blocks E bs (j, w) = (j1, w1)" by (metis surj_pair)
  have fa: "receiving q i fs j1" "store_ok w1" "refused w1 = refused w"
      "arriving q (fs ! Suc k) (int (Suc k)) (content (fs ! Suc k)) (j1, w1)"
      "\<And>r. r \<notin> touched q (fs ! Suc k) \<Longrightarrow> entry_at w1 r = entry_at (modify_time j w) r"
    using file_arrives[OF lim k(1) bs(1,2) Suc.prems(3,4) acceptable_ready[OF Suc.prems(5) k(1)] disjI1[OF num], unfolded one prod.case] bs(3)
    by (auto simp: touched_def)
  have acc: "acceptable w1 q fs" using Suc.prems(5) fa(3) acceptable_same by metis
  have "landed q fs content (Suc k) (modify_time j w)"
    by (rule finish_lands[OF Suc.prems(3,4,5,2,6,7)])
  then have land: "landed q fs content (Suc k) w1"
    using target_apart[OF Suc.prems(5) _ k(1)] k(1) fa(5) by (auto simp: landed_def)
  from Suc.hyps(1)[OF k(2) bss' k(1) fa(2,1) acc fa(4) land]
  show ?case using one bss by (simp add: write_blocks_append)
qed

lemma all_land:
  assumes "writes_ok E" and "carries E i content 0 fs bss" and "fs \<noteq> []"
    and "store_ok w" and "receiving q i fs j" and "acceptable w q fs" and "data_stream j = None"
  shows "case write_blocks E (concat bss) (j, w) of (j', w') \<Rightarrow> landed q fs content (length fs) (modify_time j' w')"
proof -
  obtain f fs' where fs: "fs = f # fs'" using assms(3) by (cases fs) simp_all
  obtain bs bss' where bss: "bss = bs # bss'"
      and bs: "bs \<noteq> []" "list_all (\<lambda>b. block_id b = i \<and> block_num b = int 0) bs" "payloads E bs = content (fs ! 0)"
      and bss': "carries E i content (Suc 0) (drop (Suc 0) fs) bss'"
    using carries_split[OF assms(2)[unfolded fs]] by (auto simp: fs)
  have len: "0 < length fs" using assms(3) by simp
  obtain j1 w1 where one: "write_blocks E bs (j, w) = (j1, w1)" by (metis surj_pair)
  have fa: "receiving q i fs j1" "store_ok w1" "refused w1 = refused w"
      "arriving q (fs ! 0) (int 0) (content (fs ! 0)) (j1, w1)"
    using file_arrives[OF assms(1) len bs(1,2) assms(4,5) acceptable_ready[OF assms(6) len] disjI2[OF assms(7)], unfolded one prod.case] bs(3) by auto
  have acc: "acceptable w1 q fs" using assms(6) fa(3) acceptable_same by metis
  from receiving_lands[OF assms(1) bss' len fa(2,1) acc fa(4)]
  show ?thesis using one bss by (simp add: write_blocks_append landed_def)
qed

end
