(* ===== verification/Transfer_Receiver.thy ===== *)
theory Transfer_Receiver
  imports Transfer_Delivery
begin

text \<open>
  Who receives files and decides about them: the comparison of a file with the digest of the other side
  (\<open>libs/hbb_common/src/fs.rs\<close>), the connection manager's handler of file commands (\<open>ui_cm_interface.rs\<close>,
  \<open>handle_fs\<close>), and the client's reaction to a digest and to blocks (\<open>client/io_loop.rs\<close>). \<open>whole\<close> is
  what the system says of the modification time at a path: nothing (the call fails), or whether it is a whole
  number of seconds.
\<close>

section \<open>Comparing with the digest of the other side\<close>

datatype digest_check = IsSame | NeedConfirm digest_msg | NoSuchFile

definition confirm_digest :: "digest_msg \<Rightarrow> u64 \<Rightarrow> u64 \<Rightarrow> bool \<Rightarrow> u64 \<Rightarrow> digest_msg" where
  "confirm_digest d modified sz identical transferred_bytes =
    \<lparr>dm_id = dm_id d, dm_num = dm_num d, dm_last_modified = modified, dm_file_size = sz, dm_is_upload = False,
     dm_is_identical = identical, dm_transferred_size = transferred_bytes, dm_is_resume = False\<rparr>"

text \<open>The partial download, when it can be resumed: its digest is that of the other side, and it is not empty.\<close>

definition resumable :: "io_env \<Rightarrow> string \<Rightarrow> digest_msg \<Rightarrow> filesystem \<Rightarrow> nat option" where
  "resumable E path d w =
    (case (entry_at w (digest_of path), entry_at w (download_of path)) of
       (Some (text, _), Some (partial, _)) \<Rightarrow>
         (case parse_digest E text of
            Some l \<Rightarrow>
              if digest_modified l = dm_last_modified d \<and> digest_size l = dm_file_size d \<and> length partial > 0
              then Some (length partial) else None
          | None \<Rightarrow> None)
     | _ \<Rightarrow> None)"

definition is_write_need_confirmation ::
  "io_env \<Rightarrow> (string \<Rightarrow> bool option) \<Rightarrow> bool \<Rightarrow> string \<Rightarrow> digest_msg \<Rightarrow> filesystem \<Rightarrow> string + digest_check" where
  "is_write_need_confirmation E whole resume path d w =
    (case (if resume then resumable E path d w else None) of
       Some n \<Rightarrow> Inr (NeedConfirm (confirm_digest d (dm_last_modified d) (dm_file_size d) True (word_of_nat n)))
     | None \<Rightarrow>
         (case entry_at w path of
            Some (content, time) \<Rightarrow>
              (case whole path of
                 None \<Rightarrow> Inl ''cannot read the time''
               | Some exact \<Rightarrow>
                   Inr (NeedConfirm (confirm_digest d (word_of_nat time) (word_of_nat (length content))
                     (exact \<and> dm_last_modified d = word_of_nat time \<and> dm_file_size d = word_of_nat (length content)) 0)))
          | None \<Rightarrow> Inr NoSuchFile))"

section \<open>The connection manager\<close>

datatype fs_command =
    RemoveFile string int int
  | CreateDir string int
  | NewWrite string int int "(string \<times> u64) list" bool u64 int
  | CancelWrite int
  | WriteDone int int
  | WriteError int int string
  | WriteBlock file_block
  | CheckDigest int int u64 u64 bool bool
  | SendConfirm confirm_request
  | Rename int string string

text \<open>A line of the job log: the job, whether it is done, whether it was cancelled, and the error.\<close>

type_synonym log_line = "transfer_job \<times> bool \<times> bool \<times> string"

record cm_state =
  write_jobs :: "transfer_job list"
  store :: filesystem
  to_peer :: "file_msg list"
  job_log :: "log_line list"

definition send_raw :: "file_msg \<Rightarrow> cm_state \<Rightarrow> cm_state" where
  "send_raw m s = s\<lparr>to_peer := to_peer s @ [m]\<rparr>"

definition log_job :: "log_line \<Rightarrow> cm_state \<Rightarrow> cm_state" where
  "log_job l s = s\<lparr>job_log := job_log s @ [l]\<rparr>"

text \<open>\<open>handle_result\<close> of a blocking call: the store after it, or its error.\<close>

definition handle_result :: "string + filesystem \<Rightarrow> int \<Rightarrow> int \<Rightarrow> cm_state \<Rightarrow> cm_state" where
  "handle_result r i n s =
    (case r of
       Inl err \<Rightarrow> send_raw (ErrorMsg i err n) s
     | Inr w \<Rightarrow> send_raw (DoneMsg i n) (s\<lparr>store := w\<rparr>))"

definition remove_file :: "string \<Rightarrow> filesystem \<Rightarrow> string + filesystem" where
  "remove_file path w =
    (if \<not> path_exists w path then Inl ''No such file''
     else if refused w Removing path then Inl ''cannot remove'' else Inr (rm path w))"

definition create_dir :: "string \<Rightarrow> filesystem \<Rightarrow> string + filesystem" where
  "create_dir path w = (if refused w Creating path then Inl ''cannot create'' else Inr (mkdir_all path w))"

definition rename_file :: "string \<Rightarrow> string \<Rightarrow> filesystem \<Rightarrow> string + filesystem" where
  "rename_file path new_name w =
    (if path_exists w path then
       (case path_parent path of
          None \<Rightarrow> Inl ''Parent directoy not exists''
        | Some dir \<Rightarrow>
            let new_path = path_join dir new_name in
            if refused w Creating new_path then Inl ''cannot rename'' else Inr (rename path new_path w))
     else Inl ''not exists'')"

text \<open>The new job of a peer: its directories are made first, its entries have a name and a time only.\<close>

definition received_entry :: "string \<times> u64 \<Rightarrow> file_entry" where
  "received_entry f =
    \<lparr>entry_kind = Dir, entry_name = fst f, is_hidden = False, entry_size = 0, modified_time = snd f\<rparr>"

definition new_write_job :: "string \<Rightarrow> int \<Rightarrow> int \<Rightarrow> (string \<times> u64) list \<Rightarrow> bool \<Rightarrow> u64 \<Rightarrow> int \<Rightarrow> transfer_job" where
  "new_write_job path i n fs detect all conn =
    (new_write i Generic [] (FilePath path) n False False (map received_entry fs) detect)
      \<lparr>total_size := all, job_conn_id := conn\<rparr>"

definition make_dirs :: "string \<Rightarrow> (string \<times> u64) list \<Rightarrow> filesystem \<Rightarrow> filesystem" where
  "make_dirs path fs w =
    fold (\<lambda>(name, _) w. if ends_with name ''/'' then mkdir_all (path_join path name) w else w) fs w"

text \<open>The reaction to the digest of a file of a job.\<close>

definition check_digest ::
  "io_env \<Rightarrow> (string \<Rightarrow> bool option) \<Rightarrow> transfer_job \<Rightarrow> digest_msg \<Rightarrow> bool \<Rightarrow> bool \<Rightarrow> filesystem \<Rightarrow> (transfer_job \<times> file_msg) option" where
  "check_digest E whole j d upload resume w =
    (case file_at j (dm_num d) of
       None \<Rightarrow> None
     | Some f \<Rightarrow>
         (case data_source j of
            MemoryCursor _ \<Rightarrow> None
          | FilePath p \<Rightarrow>
              Some
                (case is_write_need_confirmation E whole resume (join p (entry_name f)) d w of
                   Inl err \<Rightarrow> (j, ErrorMsg (dm_id d) err (dm_num d))
                 | Inr r \<Rightarrow>
                     (set_digest (dm_file_size d) (dm_last_modified d) j,
                      (case r of
                         IsSame \<Rightarrow> ConfirmMsg \<lparr>cr_id = dm_id d, cr_num = dm_num d, cr_union = Skip True\<rparr>
                       | NeedConfirm d' \<Rightarrow> DigestMsg (d'\<lparr>dm_is_upload := upload\<rparr>)
                       | NoSuchFile \<Rightarrow> ConfirmMsg \<lparr>cr_id = dm_id d, cr_num = dm_num d, cr_union = OffsetBlk 0\<rparr>)))))"

definition plain_digest :: "int \<Rightarrow> int \<Rightarrow> u64 \<Rightarrow> u64 \<Rightarrow> digest_msg" where
  "plain_digest i n sz modified =
    \<lparr>dm_id = i, dm_num = n, dm_last_modified = modified, dm_file_size = sz, dm_is_upload = False,
     dm_is_identical = False, dm_transferred_size = 0, dm_is_resume = False\<rparr>"

text \<open>\<open>handle_fs\<close>; \<^const>\<open>None\<close> is the panic of \<open>confirm\<close>. \<open>logged\<close> says whether there is a job log.\<close>

fun handle_fs :: "io_env \<Rightarrow> (string \<Rightarrow> bool option) \<Rightarrow> bool \<Rightarrow> fs_command \<Rightarrow> cm_state \<Rightarrow> cm_state option" where
  "handle_fs E whole logged (RemoveFile path i n) s = Some (handle_result (remove_file path (store s)) i n s)"
| "handle_fs E whole logged (CreateDir path i) s = Some (handle_result (create_dir path (store s)) i 0 s)"
| "handle_fs E whole logged (NewWrite path i n fs detect all conn) s =
    Some (s\<lparr>write_jobs := write_jobs s @ [new_write_job path i n fs detect all conn],
            store := make_dirs path fs (store s)\<rparr>)"
| "handle_fs E whole logged (CancelWrite i) s =
    (case remove_job i (write_jobs s) of
       (None, _) \<Rightarrow> Some s
     | (Some j, js) \<Rightarrow>
         let s = s\<lparr>write_jobs := js, store := remove_download_file j (store s)\<rparr> in
         Some (if logged then log_job (j, False, True, []) s else s))"
| "handle_fs E whole logged (WriteDone i n) s =
    (case remove_job i (write_jobs s) of
       (None, _) \<Rightarrow> Some s
     | (Some j, js) \<Rightarrow>
         let s = send_raw (DoneMsg i n) (s\<lparr>write_jobs := js, store := modify_time j (store s)\<rparr>) in
         Some (if logged then log_job (j, True, False, []) s else s))"
| "handle_fs E whole logged (WriteError i n err) s =
    (case remove_job i (write_jobs s) of
       (None, _) \<Rightarrow> Some s
     | (Some j, js) \<Rightarrow>
         let s = s\<lparr>write_jobs := js\<rparr>;
             s = (if logged then log_job (j, False, False, err) s else s)
         in Some (send_raw (ErrorMsg (job_id j) err n) s))"
| "handle_fs E whole logged (WriteBlock b) s =
    (case get_job (block_id b) (write_jobs s) of
       None \<Rightarrow> Some s
     | Some j \<Rightarrow>
         let (e, j', w) = write_block E b (j, store s);
             s = s\<lparr>write_jobs := put_job (block_id b) j' (write_jobs s), store := w\<rparr>
         in Some (case e of Some err \<Rightarrow> send_raw (ErrorMsg (block_id b) err (block_num b)) s | None \<Rightarrow> s))"
| "handle_fs E whole logged (CheckDigest i n sz modified upload resume) s =
    (case get_job i (write_jobs s) of
       None \<Rightarrow> Some s
     | Some j \<Rightarrow>
         (case check_digest E whole j (plain_digest i n sz modified) upload resume (store s) of
            None \<Rightarrow> Some s
          | Some (j', m) \<Rightarrow> Some (send_raw m (s\<lparr>write_jobs := put_job i j' (write_jobs s)\<rparr>))))"
| "handle_fs E whole logged (SendConfirm r) s =
    (case get_job (cr_id r) (write_jobs s) of
       None \<Rightarrow> Some s
     | Some j \<Rightarrow>
         (case confirm E r (j, store s) of
            None \<Rightarrow> None
          | Some (j', w) \<Rightarrow> Some (s\<lparr>write_jobs := put_job (cr_id r) j' (write_jobs s), store := w\<rparr>)))"
| "handle_fs E whole logged (Rename i path new_name) s = Some (handle_result (rename_file path new_name (store s)) i 0 s)"

fun handle_all :: "io_env \<Rightarrow> (string \<Rightarrow> bool option) \<Rightarrow> bool \<Rightarrow> fs_command list \<Rightarrow> cm_state \<Rightarrow> cm_state option" where
  "handle_all E whole logged [] s = Some s"
| "handle_all E whole logged (c # cs) s =
    (case handle_fs E whole logged c s of None \<Rightarrow> None | Some s \<Rightarrow> handle_all E whole logged cs s)"

section \<open>The client\<close>

text \<open>What the client does about a digest: it answers the peer, or asks the user.\<close>

datatype client_out = ToPeer file_msg | OverrideFileConfirm int int string bool bool

record client_files =
  read_jobs :: "transfer_job list"
  receive_jobs :: "transfer_job list"
  client_store :: filesystem

definition answer :: "digest_msg \<Rightarrow> confirm_union \<Rightarrow> confirm_request" where
  "answer d u = \<lparr>cr_id = dm_id d, cr_num = dm_num d, cr_union = u\<rparr>"

text \<open>The strategy and the offset: a partial file of a resumed job is continued; \<open>offset_blk\<close> is a \<open>u32\<close>.\<close>

definition overwrite_choice :: "transfer_job \<Rightarrow> digest_msg \<Rightarrow> confirm_union option" where
  "overwrite_choice j d =
    (if dm_is_identical d \<and> is_resume j \<and> dm_transferred_size d > 0
     then Some (OffsetBlk (ucast (dm_transferred_size d)))
     else (case default_overwrite_strategy j of
             None \<Rightarrow> None
           | Some keep_new \<Rightarrow> Some (if keep_new then OffsetBlk 0 else Skip True)))"

definition client_upload_digest :: "io_env \<Rightarrow> digest_msg \<Rightarrow> client_files \<Rightarrow> (client_files \<times> client_out list) option" where
  "client_upload_digest E d s =
    (case get_job (dm_id d) (read_jobs s) of
       None \<Rightarrow> Some (s, [])
     | Some j \<Rightarrow>
         (case (file_at j (dm_num d), data_source j) of
            (Some f, FilePath p) \<Rightarrow>
              (case overwrite_choice j d of
                 Some u \<Rightarrow>
                   (case confirm E (answer d u) (j, client_store s) of
                      None \<Rightarrow> None
                    | Some (j', w) \<Rightarrow>
                        Some (s\<lparr>read_jobs := put_job (dm_id d) j' (read_jobs s), client_store := w\<rparr>,
                              [ToPeer (ConfirmMsg (answer d u))]))
               | None \<Rightarrow>
                   Some (s, [OverrideFileConfirm (dm_id d) (dm_num d) (join p (entry_name f)) True (dm_is_identical d)]))
          | _ \<Rightarrow> Some (s, [])))"

text \<open>\<open>peer_resumes\<close>: the version of the peer supports resuming.\<close>

definition client_download_digest ::
  "io_env \<Rightarrow> (string \<Rightarrow> bool option) \<Rightarrow> bool \<Rightarrow> digest_msg \<Rightarrow> client_files \<Rightarrow> (client_files \<times> client_out list) option" where
  "client_download_digest E whole peer_resumes d s =
    (case get_job (dm_id d) (receive_jobs s) of
       None \<Rightarrow> Some (s, [])
     | Some j \<Rightarrow>
         (case (file_at j (dm_num d), data_source j) of
            (Some f, FilePath p) \<Rightarrow>
              let path = join p (entry_name f);
                  j = set_digest (dm_file_size d) (dm_last_modified d) j;
                  reply = (\<lambda>u.
                    (case confirm E (answer d u) (j, client_store s) of
                       None \<Rightarrow> None
                     | Some (j', w) \<Rightarrow>
                         Some (s\<lparr>receive_jobs := put_job (dm_id d) j' (receive_jobs s), client_store := w\<rparr>,
                               [ToPeer (ConfirmMsg (answer d u))])))
              in (case is_write_need_confirmation E whole (peer_resumes \<and> is_resume j) path d (client_store s) of
                    Inl _ \<Rightarrow> Some (s\<lparr>receive_jobs := put_job (dm_id d) j (receive_jobs s)\<rparr>, [])
                  | Inr IsSame \<Rightarrow> reply (Skip True)
                  | Inr (NeedConfirm d') \<Rightarrow>
                      (case overwrite_choice j d' of
                         Some u \<Rightarrow> reply u
                       | None \<Rightarrow>
                           Some (s\<lparr>receive_jobs := put_job (dm_id d) j (receive_jobs s)\<rparr>,
                                 [OverrideFileConfirm (dm_id d) (dm_num d) path False (dm_is_identical d')]))
                  | Inr NoSuchFile \<Rightarrow> reply (OffsetBlk 0))
          | _ \<Rightarrow> Some (s, [])))"

definition client_digest ::
  "io_env \<Rightarrow> (string \<Rightarrow> bool option) \<Rightarrow> bool \<Rightarrow> digest_msg \<Rightarrow> client_files \<Rightarrow> (client_files \<times> client_out list) option" where
  "client_digest E whole peer_resumes d s =
    (if dm_is_upload d then client_upload_digest E d s else client_download_digest E whole peer_resumes d s)"

text \<open>A block: an error of the write is ignored.\<close>

definition client_block :: "io_env \<Rightarrow> file_block \<Rightarrow> client_files \<Rightarrow> client_files" where
  "client_block E b s =
    (case get_job (block_id b) (receive_jobs s) of
       None \<Rightarrow> s
     | Some j \<Rightarrow>
         let (_, j', w) = write_block E b (j, client_store s)
         in s\<lparr>receive_jobs := put_job (block_id b) j' (receive_jobs s), client_store := w\<rparr>)"

end
