(* ===== verification/Transfer_Properties.thy ===== *)
theory Transfer_Properties
  imports Transfer_Delivery
begin

text \<open>
  The properties of file transfer: a folder arrives as it was sent, an interrupted file is completed,
  ticks are bounded and nothing is sent before it is confirmed; and the places where the receiving side
  does not do what its sender means: an empty directory after a file, a file that cannot be created, a
  left-over download, and a confirmation beyond the last file.
\<close>

text \<open>
  End to end: for a folder of readable regular files, however short the system's reads are, a finite
  number of reads yields all blocks, and writing these blocks to a fresh job on another machine and
  finishing it puts every file there under its name with the content and the time of the source,
  provided the compressor can be undone, no file is refused and the paths of different files do not
  collide.
\<close>

theorem transfer_delivers:
  assumes "honest_io E" and "writes_ok E" and "readable E ws p fs" and "fs \<noteq> []"
    and "new_read i Generic r (FilePath p) 0 hid rem (Inr fs) False = Inr js"
    and "store_ok wr" and "acceptable wr q fs"
  shows "\<exists>n blocks. drain n E ws js = Some blocks \<and>
    (let (j, w) = write_blocks E blocks (new_write i Generic r' (FilePath q) 0 hid' rem' fs detect, wr)
     in list_all (\<lambda>f. entry_at (modify_time j w) (target q f) = Some (source_content ws p f, unat (modified_time f))) fs)"
proof -
  have js: "sending E ws p i fs js" "file_num js = int 0" "data_stream js = None"
    using assms(5) by (auto simp: new_read_def sending_def default_job_def)
  from sending_drains[OF assms(3,1) js(1,2) _ js(3)] obtain n bss where
    n: "drain n E ws js = Some (concat bss)" "carries E i (source_content ws p) 0 fs bss" by auto
  let ?jr = "new_write i Generic r' (FilePath q) 0 hid' rem' fs detect"
  have "receiving q i fs ?jr" "data_stream ?jr = None" by (simp_all add: new_write_def receiving_def default_job_def)
  from all_land[OF assms(2) n(2) assms(4,6) this(1) assms(7) this(2)] n(1)
  show ?thesis by (intro exI[of _ n] exI[of _ "concat bss"]) (auto simp: landed_def list_all_length)
qed

text \<open>
  A file followed in the list by an empty directory never gets its name: when the directory's marker
  arrives the file number moves on without finishing the file, and after the job is done its content is
  still in the \<open>.download\<close> file.
\<close>

theorem file_before_empty_directory:
  assumes "store_ok w" and "receiving q i [f, d] j" and "file_num j = 0" and "data_stream j = None" and "writes_ok E"
    and "ready w q f" and "ends_with (entry_name d) ''/''" and "touched q f \<inter> touched q d = {}"
    and "entry_at w (target q f) = None" and "entry_at w (download_of (target q f)) = None"
    and "bs \<noteq> []" and "list_all (\<lambda>b. block_id b = i \<and> block_num b = 0) bs"
    and "block_id marker = i \<and> block_num marker = 1"
  shows "let (j', w') = write_blocks E (bs @ [marker]) (j, w); final = modify_time j' w'
         in entry_at final (target q f) = None \<and>
            map_option fst (entry_at final (download_of (target q f))) = Some (payloads E bs)"
proof -
  have bs: "list_all (\<lambda>b. block_id b = i \<and> block_num b = int 0) bs" "ready w q ([f, d] ! 0)" "0 < length [f, d]"
    using assms(6,12) by simp_all
  obtain j1 w1 where one: "write_blocks E bs (j, w) = (j1, w1)" by (metis surj_pair)
  have fa: "receiving q i [f, d] j1" "store_ok w1" "arriving q f 0 (payloads E bs) (j1, w1)"
      "\<And>r. r \<noteq> download_of (target q f) \<Longrightarrow> r \<noteq> digest_of (target q f) \<Longrightarrow> entry_at w1 r = entry_at (modify_time j w) r"
    using file_arrives[OF assms(5) bs(3) assms(11) bs(1) assms(1,2) bs(2) disjI2[OF assms(4)], unfolded one prod.case] by simp_all
  have at0: "file_at j (file_num j) = Some f" using assms(2,3) by (simp add: file_at_def receiving_def)
  have none: "entry_at w1 (target q f) = None"
    using fa(4)[of "target q f"] entry_modify[OF assms(1,2) at0, of "target q f"] assms(9,10) by simp
  have some: "map_option fst (entry_at w1 (download_of (target q f))) = Some (payloads E bs)"
  proof -
    obtain ino where "links w1 (download_of (target q f)) = Some ino" "fst (inodes w1 ! ino) = payloads E bs"
      using fa(3) by (auto simp: arriving_def)
    then show ?thesis by (simp add: entry_at_def)
  qed
  let ?j = "j1\<lparr>file_num := 1\<rparr>" and ?w = "mkdir_all (join q (entry_name d)) w1"
  have two: "write_block E marker (j1, w1) = (None, ?j, ?w)"
    using fa(1) assms(7,13) by (simp add: write_block_def receiving_def file_at_def)
  have j: "receiving q i [f, d] ?j" "file_at ?j (file_num ?j) = Some d" "store_ok ?w"
    using fa(1,2) by (simp_all add: receiving_def file_at_def wf_intros)
  have "r \<in> touched q f \<Longrightarrow> entry_at (modify_time ?j ?w) r = entry_at w1 r" for r
    using entry_modify[OF j(3,1,2), of r] assms(8) by (auto simp: touched_def)
  then have "entry_at (modify_time ?j ?w) (target q f) = None"
    "map_option fst (entry_at (modify_time ?j ?w) (download_of (target q f))) = Some (payloads E bs)"
    using none some by (simp_all add: touched_def)
  then show ?thesis using one two by (simp add: write_blocks_append Let_def)
qed

text \<open>
  When the next file cannot be created, its first block is refused, but the blocks after it are
  appended to the file before it, which already has its final name, and are reported as written.
\<close>

theorem failed_create_misplaces_blocks:
  assumes "store_ok w" and "receiving q i fs j" and "writes_ok E"
    and "m < length fs" and "n < length fs" and "m \<noteq> n"
    and "\<not> ends_with (entry_name (fs ! n)) ''/''" and "touched q (fs ! m) \<inter> touched q (fs ! n) = {}"
    and "arriving q (fs ! m) (int m) c (j, w)"
    and "refused w Creating (download_of (target q (fs ! n)))" and "\<not> refused w Removing (digest_of (target q (fs ! n)))"
    and "block_id b1 = i \<and> block_num b1 = int n" and "block_id b2 = i \<and> block_num b2 = int n"
  shows "let (e1, s1) = write_block E b1 (j, w); (e2, j2, w2) = write_block E b2 s1
         in e1 \<noteq> None \<and> e2 = None \<and> map_option fst (entry_at w2 (target q (fs ! m))) = Some (c @ payload E b2) \<and>
            (finished_size j2 = finished_size j + word_of_nat (length (payload E b2)))"
proof -
  let ?P = "target q (fs ! n)" and ?Q = "target q (fs ! m)"
  obtain ino where ino: "data_stream j = Some (FileStream ino (length c) ForWrite)" "links w (download_of ?Q) = Some ino"
      "fst (inodes w ! ino) = c" "file_num j = int m"
    using assms(9) by (auto simp: arriving_def)
  have at: "file_at j (file_num j) = Some (fs ! m)" using assms(2,4) ino(4) by (auto simp: file_at_def receiving_def)
  have bound: "ino < length (inodes w)" using assms(1) ino(2) by (auto simp: store_ok_def)
  define w1 where "w1 = rm (digest_of ?P) (case path_parent ?P of None \<Rightarrow> modify_time j w | Some pp \<Rightarrow> mkdir_all pp (modify_time j w))"
  have apart: "?Q \<noteq> digest_of ?P" using assms(8) by (auto simp: touched_def)
  have "links (modify_time j w) ?Q = Some ino \<and> fst (inodes (modify_time j w) ! ino) = c"
    using assms(2) at ino(2,3) bound
    by (simp add: modify_time_def receiving_def target_def[symmetric] Let_def store_defs)
  then have l1: "links w1 ?Q = Some ino" "fst (inodes w1 ! ino) = c" "refused w1 = refused w"
    using apart by (auto simp: w1_def rm_def[of "digest_of ?P"] mkdir_all_def split: option.split)
  have ok1: "store_ok w1" using assms(1) by (auto simp: w1_def wf_intros split: option.split)
  let ?j1 = "j\<lparr>file_num := int n\<rparr>"
  have "create (download_of ?P) w1 = None" using assms(10) l1(3) by (simp add: create_def)
  then have "start_file E q (fs ! n) (int n) (j, w) = (Some ''cannot create'', ?j1, w1)"
    using assms(2,3,6,11) ino(4)
    by (simp add: start_file_def open_file_def Let_def receiving_def target_def[symmetric] w1_def[symmetric] writes_ok_def
        split: option.split)
  then have one: "write_block E b1 (j, w) = (Some ''cannot create'', ?j1, w1)"
    using assms(2,5,7,12) by (simp add: write_block_def receiving_def file_at_def)
  have "start_file E q (fs ! n) (int n) (?j1, w1) = (None, ?j1, w1)" using ino(1) by (simp add: start_file_def)
  then have "write_block E b2 (?j1, w1) = put_data E b2 (?j1, w1)"
    using assms(2,5,7,13) by (simp add: write_block_def receiving_def file_at_def)
  also have "\<dots> = (None, ?j1\<lparr>data_stream := Some (FileStream ino (length c + length (payload E b2)) ForWrite),
        finished_size := finished_size j + word_of_nat (length (payload E b2)),
        transferred := transferred j + word_of_nat (length (block_data b2))\<rparr>, write_at ino (length c) (payload E b2) w1)"
    using ino(1) assms(3) by (simp add: writes_ok_def put_data_def write_all_def Let_def payload_def[symmetric])
  finally have two: "write_block E b2 (?j1, w1) = \<dots>" .
  have "entry_at (write_at ino (length c) (payload E b2) w1) ?Q = Some (c @ payload E b2, clock_secs w1)"
    using entry_write[OF ok1 l1(1)] l1(2) overwrite_end[of c] by simp
  then show ?thesis using one two by simp
qed

text \<open>
  The same happens when the old digest of the next file cannot be removed: the block is an error, but
  the job has the number of that file and still the stream of the one before.
\<close>

lemma stuck_digest_keeps_stream:
  assumes "receiving q i fs j" and "sync_ok E" and "int n \<noteq> file_num j" and "data_stream j = Some s"
    and "path_exists (modify_time j w) (digest_of (target q f))" and "refused w Removing (digest_of (target q f))"
  shows "\<exists>w'. start_file E q f (int n) (j, w) = (Some ''cannot remove'', j\<lparr>file_num := int n\<rparr>, w') \<and>
    start_file E q f (int n) (j\<lparr>file_num := int n\<rparr>, w') = (None, j\<lparr>file_num := int n\<rparr>, w')"
  using assms
  by (auto simp: start_file_def Let_def receiving_def target_def path_exists_def mkdir_all_def split: option.split)

text \<open>
  The first block of a new job promotes a left-over \<open>.download\<close> file of its first file to the final
  name, with the time of the complete file, before anything has been received.
\<close>

theorem stale_download_promoted:
  assumes "store_ok w" and "receiving q i fs j" and "ready w q (fs ! n)" and "n < length fs" and "writes_ok E"
    and "file_num j = int n" and "data_stream j = None"
    and "entry_at w (download_of (target q (fs ! n))) = Some (stale, t)"
    and "block_id b = i \<and> block_num b = int n"
  shows "case write_block E b (j, w) of (e, j', w') \<Rightarrow>
    entry_at w' (target q (fs ! n)) = Some (stale, unat (modified_time (fs ! n)))"
proof -
  have bs: "[b] \<noteq> []" "list_all (\<lambda>b. block_id b = i \<and> block_num b = int n) [b]" using assms(9) by simp_all
  obtain j' w' where wb: "write_blocks E [b] (j, w) = (j', w')" by (metis surj_pair)
  have at: "file_at j (file_num j) = Some (fs ! n)" using assms(2,4,6) by (auto simp: file_at_def receiving_def)
  have "entry_at w' (target q (fs ! n)) = entry_at (modify_time j w) (target q (fs ! n))"
    using file_arrives[OF assms(5,4) bs assms(1,2,3) disjI2[OF assms(7)], unfolded wb prod.case] by simp
  also have "\<dots> = Some (stale, unat (modified_time (fs ! n)))"
    using entry_modify[OF assms(1,2) at] assms(8) by simp
  finally show ?thesis using wb by (cases "write_block E b (j, w)") simp
qed

text \<open>
  Exactly when a confirmation panics: it names the current file number of a file job, that number is
  not below the number of files, and its offset is positive. The peer chooses all of these.
\<close>

theorem confirm_panics:
  "confirm E r (j, w) = None \<longleftrightarrow>
    file_num j = cr_num r \<and> (\<exists>offset. cr_union r = OffsetBlk offset \<and> 0 < offset) \<and>
    (\<exists>p. data_source j = FilePath p) \<and> file_at j (cr_num r) = None"
  by (cases "cr_union r"; cases "data_source j"; cases "file_at j (cr_num r)")
    (auto simp: confirm_def set_stream_offset_def set_file_confirmed_def Let_def file_at_def split: option.split)

section \<open>Ticks\<close>

definition block_sizes :: "file_msg list \<Rightarrow> nat list" where
  "block_sizes ms = concat (map (\<lambda>m. case m of BlockMsg b \<Rightarrow> [length (block_data b)] | _ \<Rightarrow> []) ms)"

lemma block_sizes_simps [simp]:
  "block_sizes [] = []" "block_sizes (ms @ ms') = block_sizes ms @ block_sizes ms'"
  "block_sizes (BlockMsg b # ms) = length (block_data b) # block_sizes ms"
  "block_sizes (ErrorMsg i e n # ms) = block_sizes ms" "block_sizes (DoneMsg i n # ms) = block_sizes ms"
  "block_sizes (DigestMsg d # ms) = block_sizes ms"
  by (simp_all add: block_sizes_def)

lemma fill_length: "fill rd k rest room = Inr buf \<Longrightarrow> length buf \<le> room"
proof (induction rd k rest room arbitrary: buf rule: fill.induct)
  case (1 rd k rest room)
  show ?case
  proof (cases "rd k")
    case (ReadFails e)
    then show ?thesis using "1.prems" by (subst (asm) fill.simps) simp
  next
    case (ReadUpto n)
    define m where "m = min (max 1 n) (min room (length rest))"
    have step: "fill rd k rest room =
        (if m = 0 \<or> m = room then Inr (take m rest)
         else (case fill rd (Suc k) (drop m rest) (room - m) of Inl e \<Rightarrow> Inl e | Inr r \<Rightarrow> Inr (take m rest @ r)))"
      unfolding m_def by (subst fill.simps) (simp only: ReadUpto Let_def read_answer.case)
    show ?thesis
    proof (cases "m = 0 \<or> m = room")
      case True
      then show ?thesis using step "1.prems" by auto
    next
      case False
      then obtain r where r: "fill rd (Suc k) (drop m rest) (room - m) = Inr r" "buf = take m rest @ r"
        using step "1.prems" by (auto split: sum.splits)
      have "length r \<le> room - m" using "1.IH"[OF ReadUpto m_def] False r(1) by blast
      moreover have "m \<le> room" by (simp add: m_def)
      ultimately show ?thesis using r(2) by simp
    qed
  qed
qed

lemma read_data_outcome:
  assumes "read_data E w name j = (r, j')"
  shows "direct j' = direct j \<and> enable_overwrite_detection j' = enable_overwrite_detection j \<and> job_kind j' = job_kind j \<and>
    (case r of ReadBlock b \<Rightarrow>
        length (block_data b) \<le> buf_size j \<and> block_num b = file_num j \<and>
        (block_data b = [] \<and> \<not> block_compressed b \<or> file_num j' = file_num j)
     | _ \<Rightarrow> True)"
proof (cases "data_stream j")
  case None
  with assms show ?thesis by (auto simp: read_data_def)
next
  case (Some s)
  show ?thesis
  proof (cases "fill (stream_reads E s) 0 (stream_rest s w) (buf_size j)")
    case (Inl e)
    with Some assms show ?thesis by (auto simp: read_data_def next_file_def)
  next
    case (Inr buf)
    with fill_length[OF Inr] Some assms show ?thesis
      by (auto simp: read_data_def next_file_def Let_def split: data_source.splits if_splits)
  qed
qed


lemma read_block_outcome:
  assumes "read_block E w j = (ms, r, j')"
  shows "block_sizes ms = [] \<and>
    (case r of ReadBlock b \<Rightarrow> length (block_data b) \<le> 512 * 1024 \<and> block_num b = file_num j | _ \<Rightarrow> True)"
proof -
  have dig: "block_sizes (fst (confirm_or_read E w name k)) = [] \<and>
      (case fst (snd (confirm_or_read E w name k)) of
         ReadBlock b \<Rightarrow> length (block_data b) \<le> 512 * 1024 \<and> block_num b = file_num j | _ \<Rightarrow> True)"
    if "file_num k = file_num j" for name k
  proof -
    obtain r1 k1 where rd: "read_data E w name k = (r1, k1)" by (metis surj_pair)
    have "buf_size k \<le> 512 * 1024" by (simp add: buf_size_def)
    with read_data_outcome[OF rd] rd that show ?thesis
      by (auto simp: confirm_or_read_def split: read_result.splits sum.split)
  qed
  show ?thesis
  proof (cases "data_source j")
    case (FilePath p)
    show ?thesis
    proof (cases "file_at j (file_num j)")
      case None
      with FilePath assms show ?thesis by (auto simp: read_block_def)
    next
      case (Some f)
      with FilePath assms dig[of j "entry_name f"]
        dig[where name = "entry_name f" and k = "j\<lparr>data_stream := Some (FileStream (the (links w (join p (entry_name f)))) 0 ForRead),
          file_confirmed := False, file_is_waiting := False\<rparr>"]
      show ?thesis by (auto simp: read_block_def Let_def split: if_splits option.splits)
    qed
  next
    case (MemoryCursor c)
    with assms dig[of j "[]"] dig[where name = "[]" and k = "j\<lparr>data_source := MemoryCursor [], data_stream := Some (BufStream c 0)\<rparr>"]
    show ?thesis by (auto simp: read_block_def split: if_splits)
  qed
qed

lemma drive_bounds:
  "sent < mb \<Longrightarrow> bytes < my \<Longrightarrow> drive_job E w mb my sent bytes j = (ms, j', fin) \<Longrightarrow>
   length (block_sizes ms) \<le> mb - sent \<and> bytes + sum_list (block_sizes ms) < my + 512 * 1024"
proof (induction E w mb my sent bytes j arbitrary: ms j' fin rule: drive_job.induct)
  case (1 E w mb my sent bytes j)
  obtain ms1 r j1 where rb: "read_block E w j = (ms1, r, j1)" by (metis prod_cases3)
  note out = read_block_outcome[OF rb]
  note step = "1.prems"(3)[unfolded drive_job.simps[of E w mb my sent bytes j] rb Let_def prod.case]
  show ?case
  proof (cases r)
    case (ReadErr e)
    then show ?thesis using step out "1.prems"(1,2) by auto
  next
    case ReadNone
    then show ?thesis using step out "1.prems"(1,2) by (auto split: if_splits option.splits)
  next
    case (ReadBlock b)
    let ?n = "length (block_data b)"
    have n: "?n \<le> 512 * 1024" using out ReadBlock by simp
    show ?thesis
    proof (cases "Suc sent \<ge> mb \<or> bytes + ?n \<ge> my")
      case True
      then show ?thesis using step out ReadBlock "1.prems"(1,2) n by auto
    next
      case False
      obtain ms2 j2 f2 where d: "drive_job E w mb my (Suc sent) (bytes + ?n) j1 = (ms2, j2, f2)" by (metis prod_cases3)
      have "length (block_sizes ms2) \<le> mb - Suc sent \<and> bytes + ?n + sum_list (block_sizes ms2) < my + 512 * 1024"
        using "1.IH"[OF rb[symmetric] refl refl ReadBlock refl refl False _ _ d] False by simp
      moreover have "ms = ms1 @ BlockMsg b # ms2" using step ReadBlock False d by simp
      ultimately show ?thesis using out "1.prems"(1) by auto
    qed
  qed
qed

lemma remove_keeps_tail:
  "job_id j = i \<Longrightarrow> \<exists>before. snd (remove_job i (xs @ j # ys)) = before @ ys"
proof (induction xs)
  case Nil
  then show ?case by simp
next
  case (Cons x xs)
  then obtain before where "snd (remove_job i (xs @ j # ys)) = before @ ys" by blast
  then show ?case
    by (cases "job_id x = i"; cases "remove_job i (xs @ j # ys)")
      (auto intro: exI[of _ "xs @ [j]"] exI[of _ "x # before"])
qed

text \<open>What a tick sends belongs to its job, and the blocks of a file are consecutive pieces, from its
  front, of what is left of it.\<close>

fun msg_job :: "file_msg \<Rightarrow> int" where
  "msg_job (BlockMsg b) = block_id b"
| "msg_job (ErrorMsg i _ _) = i"
| "msg_job (DoneMsg i _) = i"
| "msg_job (DigestMsg d) = dm_id d"
| "msg_job (ConfirmMsg r) = cr_id r"

fun blocks_in :: "file_msg list \<Rightarrow> file_block list" where
  "blocks_in [] = []"
| "blocks_in (BlockMsg b # ms) = b # blocks_in ms"
| "blocks_in (_ # ms) = blocks_in ms"

definition is_piece :: "io_env \<Rightarrow> bytes \<Rightarrow> file_block \<Rightarrow> bool" where
  "is_piece E d b \<longleftrightarrow> block_data b = (if block_compressed b then compress E d else d)"

text \<open>The first entry from the current one on that is not the marker of a directory; an open stream
  belongs to it.\<close>

definition stream_file :: "transfer_job \<Rightarrow> int" where
  "stream_file j = file_num j +
    int (length (takeWhile (\<lambda>f. ends_with (entry_name f) ''/'') (drop (nat (file_num j)) (files j))))"

definition left_of :: "filesystem \<Rightarrow> transfer_job \<Rightarrow> int \<Rightarrow> bytes" where
  "left_of w j n =
    (case data_source j of
       MemoryCursor c \<Rightarrow>
         if n = file_num j then (case data_stream j of None \<Rightarrow> c | Some s \<Rightarrow> stream_rest s w) else []
     | FilePath p \<Rightarrow>
         if n < file_num j then []
         else
           (case file_at j n of
              None \<Rightarrow> []
            | Some f \<Rightarrow>
                if ends_with (entry_name f) ''/'' then []
                else
                  (case data_stream j of
                     Some s \<Rightarrow> if n = stream_file j then stream_rest s w
                       else (case entry_at w (join p (entry_name f)) of None \<Rightarrow> [] | Some e \<Rightarrow> fst e)
                   | None \<Rightarrow> (case entry_at w (join p (entry_name f)) of None \<Rightarrow> [] | Some e \<Rightarrow> fst e))))"

lemma fill_front: "fill rd k rest room = Inr buf \<Longrightarrow> buf = take (length buf) rest"
proof (induction rd k rest room arbitrary: buf rule: fill.induct)
  case (1 rd k rest room)
  show ?case
  proof (cases "rd k")
    case (ReadFails e)
    then show ?thesis using "1.prems" by (subst (asm) fill.simps) simp
  next
    case (ReadUpto n)
    define m where "m = min (max 1 n) (min room (length rest))"
    have step: "fill rd k rest room =
        (if m = 0 \<or> m = room then Inr (take m rest)
         else (case fill rd (Suc k) (drop m rest) (room - m) of Inl e \<Rightarrow> Inl e | Inr r \<Rightarrow> Inr (take m rest @ r)))"
      unfolding m_def by (subst fill.simps) (simp only: ReadUpto Let_def read_answer.case)
    have m: "m \<le> length rest" by (simp add: m_def)
    show ?thesis
    proof (cases "m = 0 \<or> m = room")
      case True
      then have "buf = take m rest" using step "1.prems" by auto
      then show ?thesis using m by simp
    next
      case False
      then obtain r where r: "fill rd (Suc k) (drop m rest) (room - m) = Inr r" "buf = take m rest @ r"
        using step "1.prems" by (auto split: sum.splits)
      have "r = take (length r) (drop m rest)" using "1.IH"[OF ReadUpto m_def] False r(1) by blast
      then have "take m rest @ r = take (m + length r) rest" by (metis take_add)
      then show ?thesis using r(2) by (metis length_append length_take min.absorb2 m)
    qed
  qed
qed

lemma stream_file_regular:
  assumes "file_at j (file_num j) = Some f" and "\<not> ends_with (entry_name f) ''/''"
  shows "stream_file j = file_num j"
proof -
  have "nat (file_num j) < length (files j)" "files j ! nat (file_num j) = f"
    using assms(1) by (auto simp: file_at_def split: if_splits)
  then have "drop (nat (file_num j)) (files j) = f # drop (Suc (nat (file_num j))) (files j)"
    by (metis Cons_nth_drop_Suc)
  then show ?thesis using assms(2) by (simp add: stream_file_def)
qed

lemma stream_file_marker:
  assumes "file_at j (file_num j) = Some f" and "ends_with (entry_name f) ''/''"
  shows "stream_file (next_file j) = stream_file j"
proof -
  have n: "nat (file_num j) < length (files j)" "files j ! nat (file_num j) = f" "0 \<le> file_num j"
    using assms(1) by (auto simp: file_at_def split: if_splits)
  then have "drop (nat (file_num j)) (files j) = f # drop (Suc (nat (file_num j))) (files j)"
    by (metis Cons_nth_drop_Suc)
  moreover have "nat (file_num j + 1) = Suc (nat (file_num j))" using n(3) by simp
  ultimately show ?thesis using assms(2) by (simp add: stream_file_def next_file_def)
qed

lemma file_at_same: "files j' = files j \<Longrightarrow> file_at j' n = file_at j n"
  by (simp add: file_at_def)

lemma left_of_closed:
  assumes "data_stream j' = None" and "data_source j' = data_source j" and "files j' = files j"
    and "file_num j' = file_num j + 1" and "data_source j = FilePath p"
    and "data_stream j = None \<or> stream_file j = file_num j"
  shows "\<exists>rest. left_of w j n = left_of w j' n @ rest"
  using assms by (cases "n < file_num j + 1") (auto simp: left_of_def file_at_def split: option.split)

definition at_data :: "transfer_job \<Rightarrow> bool" where
  "at_data j \<longleftrightarrow> data_stream j \<noteq> None \<and>
    (case data_source j of
       MemoryCursor _ \<Rightarrow> True
     | FilePath p \<Rightarrow> (case file_at j (file_num j) of None \<Rightarrow> False | Some f \<Rightarrow> \<not> ends_with (entry_name f) ''/''))"

text \<open>One block is the next piece of what is left of the current file.\<close>

definition next_piece :: "io_env \<Rightarrow> filesystem \<Rightarrow> transfer_job \<Rightarrow> file_block \<Rightarrow> transfer_job \<Rightarrow> bool" where
  "next_piece E w j b j' \<longleftrightarrow> block_id b = job_id j \<and> block_num b = file_num j \<and> file_num j \<le> file_num j' \<and>
    (\<exists>d. is_piece E d b \<and>
      (\<forall>n. \<exists>rest. left_of w j n = (if n = block_num b then d else []) @ left_of w j' n @ rest))"

lemma next_piece_same:
  "job_id k = job_id j \<Longrightarrow> file_num k = file_num j \<Longrightarrow> (\<And>n. left_of w k n = left_of w j n) \<Longrightarrow>
   next_piece E w k b j' = next_piece E w j b j'"
  by (simp add: next_piece_def)

lemma left_of_current:
  assumes "at_data j" and "data_stream j = Some s"
  shows "left_of w j (file_num j) = stream_rest s w"
  using assms by (auto simp: at_data_def left_of_def stream_file_regular split: data_source.splits option.splits)

lemma left_of_later:
  assumes "at_data j" and "at_data j'" and "data_source j' = data_source j" and "files j' = files j" and "file_num j' = file_num j"
    and "n \<noteq> file_num j"
  shows "left_of w j' n = left_of w j n"
proof -
  have "stream_file j' = file_num j" if "data_source j = FilePath p" for p
    using assms that by (auto simp: at_data_def stream_file_regular file_at_def split: option.splits)
  moreover have "stream_file j = file_num j" if "data_source j = FilePath p" for p
    using assms that by (auto simp: at_data_def stream_file_regular split: option.splits)
  ultimately show ?thesis
    using assms by (auto simp: left_of_def file_at_def at_data_def split: data_source.splits option.split)
qed

lemma read_data_piece:
  assumes "read_data E w name j = (ReadBlock b, j')" and "at_data j"
  shows "next_piece E w j b j'"
proof -
  obtain s where s: "data_stream j = Some s" using assms(2) by (auto simp: at_data_def)
  obtain buf where buf: "fill (stream_reads E s) 0 (stream_rest s w) (buf_size j) = Inr buf"
    using assms(1) s by (cases "fill (stream_reads E s) 0 (stream_rest s w) (buf_size j)") (auto simp: read_data_def)
  have front: "buf = take (length buf) (stream_rest s w)" by (rule fill_front[OF buf])
  show ?thesis
  proof (cases "buf = []")
    case True
    with assms(1) s buf obtain p where p: "data_source j = FilePath p"
        "b = \<lparr>block_id = job_id j, block_num = file_num j, block_data = [], block_compressed = False\<rparr>"
        "j' = (next_file j)\<lparr>data_stream := None\<rparr>"
      by (auto simp: read_data_def split: data_source.splits)
    have "stream_file j = file_num j" using assms(2) p(1) by (auto simp: at_data_def stream_file_regular split: option.splits)
    then have "\<exists>rest. left_of w j n = left_of w j' n @ rest" for n
      by (intro left_of_closed) (simp_all add: p next_file_def)
    then show ?thesis by (auto simp: next_piece_def is_piece_def p(2,3) next_file_def intro!: exI[of _ "[]"])
  next
    case False
    with assms(1) s buf have b: "is_piece E buf b" "block_id b = job_id j" "block_num b = file_num j"
        "file_num j' = file_num j" "files j' = files j" "data_source j' = data_source j"
        "data_stream j' = Some (stream_skip (length buf) s)"
      by (auto simp: read_data_def Let_def is_piece_def)
    have at: "at_data j'" using assms(2) b file_at_same[OF b(5)] by (cases "data_source j") (simp_all add: at_data_def)
    have "left_of w j' (file_num j) = drop (length buf) (stream_rest s w)"
      using left_of_current[OF at b(7)] b(4) by (simp add: stream_rest_def stream_skip_def add.commute split: data_stream.split)
    then have "left_of w j (file_num j) = buf @ left_of w j' (file_num j)"
      using left_of_current[OF assms(2) s] front by (metis append_take_drop_id)
    moreover have "left_of w j' n = left_of w j n" if "n \<noteq> file_num j" for n
      by (rule left_of_later[OF assms(2) at b(6,5,4) that])
    ultimately show ?thesis using b(1-4) by (auto simp: next_piece_def)
  qed
qed

lemma confirm_or_read_piece:
  assumes "confirm_or_read E w name j = (ms, r, j')"
  shows "job_id j' = job_id j \<and> list_all (\<lambda>m. msg_job m = job_id j) ms \<and> blocks_in ms = [] \<and>
    (at_data j \<longrightarrow> (\<forall>b. r = ReadBlock b \<longrightarrow> next_piece E w j b j'))"
proof (cases "job_kind j = Generic \<and> enable_overwrite_detection j \<and> \<not> file_confirmed j")
  case True
  with assms show ?thesis
    by (auto simp: confirm_or_read_def current_digest_def split: if_splits sum.splits option.splits data_stream.splits)
next
  case False
  with assms have rd: "read_data E w name j = (r, j')" "ms = []" by (auto simp: confirm_or_read_def)
  have "job_id j' = job_id j"
    using rd(1) by (auto simp: read_data_def next_file_def Let_def split: option.splits sum.splits data_source.splits if_splits)
  then show ?thesis using rd read_data_piece by auto
qed

lemma read_block_piece:
  assumes "read_block E w j = (ms, r, j')"
  shows "job_id j' = job_id j \<and> list_all (\<lambda>m. msg_job m = job_id j) ms \<and> blocks_in ms = [] \<and>
    (\<forall>b. r = ReadBlock b \<longrightarrow> next_piece E w j b j')"
proof (cases "data_source j")
  case (MemoryCursor c)
  let ?k = "if data_stream j = None then j\<lparr>data_source := MemoryCursor [], data_stream := Some (BufStream c 0)\<rparr> else j"
  have k: "at_data ?k" "job_id ?k = job_id j" "file_num ?k = file_num j" "left_of w ?k n = left_of w j n" for n
    using MemoryCursor by (auto simp: at_data_def left_of_def stream_rest_def split: option.split)
  have "confirm_or_read E w [] ?k = (ms, r, j')" using assms MemoryCursor by (simp add: read_block_def)
  from confirm_or_read_piece[OF this] k(1,2) show ?thesis using next_piece_same[of ?k j w E, OF k(2-4)] by metis
next
  case (FilePath p)
  show ?thesis
  proof (cases "file_at j (file_num j)")
    case None
    with FilePath assms show ?thesis by (auto simp: read_block_def)
  next
    case (Some f)
    note f = Some
    show ?thesis
    proof (cases "ends_with (entry_name f) ''/''")
      case True
      with f FilePath assms have r: "ms = []" "j' = next_file j"
          "r = ReadBlock \<lparr>block_id = job_id j, block_num = file_num j, block_data = [], block_compressed = False\<rparr>"
        by (auto simp: read_block_def)
      have "left_of w j n = left_of w j' n" for n
        using f True FilePath stream_file_marker[OF f True]
        by (cases "n = file_num j") (auto simp: left_of_def r(2) next_file_def file_at_def split: option.split)
      then show ?thesis using r by (auto simp: next_piece_def is_piece_def next_file_def intro!: exI[of _ "[]"])
    next
      case False
      show ?thesis
      proof (cases "data_stream j")
        case None
        show ?thesis
        proof (cases "\<exists>i. links w (join p (entry_name f)) = Some i \<and> can_open E (join p (entry_name f))")
          case True
          then obtain i where i: "links w (join p (entry_name f)) = Some i" "can_open E (join p (entry_name f))" by blast
          let ?k = "j\<lparr>data_stream := Some (FileStream i 0 ForRead), file_confirmed := False, file_is_waiting := False\<rparr>"
          have "confirm_or_read E w (entry_name f) ?k = (ms, r, j')"
            using assms FilePath f False None i by (simp add: read_block_def Let_def)
          note c = confirm_or_read_piece[OF this]
          have at: "at_data ?k" "file_at ?k (file_num ?k) = Some f"
            using FilePath f False file_at_same[of ?k j] by (simp_all add: at_data_def)
          have same: "left_of w ?k n = left_of w j n" for n
            using stream_file_regular[OF at(2) False] FilePath None f False i(1)
            by (auto simp: left_of_def stream_rest_def entry_at_def file_at_def split: option.split)
          from c at(1) show ?thesis using next_piece_same[of ?k j w E, OF _ _ same] by simp
        qed (use assms FilePath f False None in \<open>auto simp: read_block_def Let_def next_file_def split: option.splits if_splits\<close>)
      next
        case (Some s)
        then have "confirm_or_read E w (entry_name f) j = (ms, r, j')" "at_data j"
          using assms FilePath f False by (simp_all add: read_block_def at_data_def)
        then show ?thesis using confirm_or_read_piece by blast
      qed
    qed
  qed
qed

lemma blocks_in_append [simp]: "blocks_in (ms @ ms') = blocks_in ms @ blocks_in ms'"
  by (induction ms rule: blocks_in.induct) simp_all

lemma drive_pieces:
  "drive_job E w mb my sent bytes j = (ms, j', fin) \<Longrightarrow>
   job_id j' = job_id j \<and> list_all (\<lambda>m. msg_job m = job_id j) ms \<and>
   sorted (map block_num (blocks_in ms)) \<and> list_all (\<lambda>b. file_num j \<le> block_num b) (blocks_in ms) \<and>
   (\<forall>n. \<exists>ds rest. list_all2 (is_piece E) ds (filter (\<lambda>b. block_num b = n) (blocks_in ms)) \<and> left_of w j n = concat ds @ rest)"
proof (induction E w mb my sent bytes j arbitrary: ms j' fin rule: drive_job.induct)
  case (1 E w mb my sent bytes j)
  obtain ms1 r j1 where rb: "read_block E w j = (ms1, r, j1)" by (metis prod_cases3)
  note one = read_block_piece[OF rb]
  note step = "1.prems"[unfolded drive_job.simps[of E w mb my sent bytes j] rb Let_def prod.case]
  show ?case
  proof (cases r)
    case (ReadErr e)
    then show ?thesis using step one by (auto intro: exI[of _ "[]"])
  next
    case ReadNone
    then show ?thesis using step one by (auto split: if_splits option.splits intro: exI[of _ "[]"])
  next
    case (ReadBlock b)
    then have np: "next_piece E w j b j1" using one by blast
    then obtain d where d: "is_piece E d b" "block_num b = file_num j" "block_id b = job_id j" "file_num j \<le> file_num j1"
        "\<And>n. \<exists>rest. left_of w j n = (if n = block_num b then d else []) @ left_of w j1 n @ rest"
      unfolding next_piece_def by blast
    show ?thesis
    proof (cases "Suc sent \<ge> mb \<or> bytes + length (block_data b) \<ge> my")
      case True
      have "\<exists>ds rest. list_all2 (is_piece E) ds (filter (\<lambda>b. block_num b = n) [b]) \<and> left_of w j n = concat ds @ rest" for n
        using d(1) d(5)[of n] by (auto intro: exI[of _ "[d]"] exI[of _ "[]"])
      then show ?thesis using True step one ReadBlock d by auto
    next
      case False
      obtain ms2 j2 f2 where dr: "drive_job E w mb my (Suc sent) (bytes + length (block_data b)) j1 = (ms2, j2, f2)" by (metis prod_cases3)
      note IH = "1.IH"[OF rb[symmetric] refl refl ReadBlock refl refl False dr]
      have ms: "ms = ms1 @ BlockMsg b # ms2" "j' = j2" using step ReadBlock False dr by simp_all
      have bl: "blocks_in ms = b # blocks_in ms2" using one by (simp add: ms)
      have "\<exists>ds rest. list_all2 (is_piece E) ds (filter (\<lambda>b. block_num b = n) (b # blocks_in ms2)) \<and> left_of w j n = concat ds @ rest" for n
      proof -
        obtain ds rest where ds: "list_all2 (is_piece E) ds (filter (\<lambda>b. block_num b = n) (blocks_in ms2))" "left_of w j1 n = concat ds @ rest"
          using IH by blast
        obtain more where "left_of w j n = (if n = block_num b then d else []) @ left_of w j1 n @ more" using d(5) by blast
        then have "left_of w j n = concat (if n = block_num b then d # ds else ds) @ rest @ more" using ds(2) by simp
        moreover have "list_all2 (is_piece E) (if n = block_num b then d # ds else ds)
            (filter (\<lambda>b. block_num b = n) (b # blocks_in ms2))" using ds(1) d(1) by auto
        ultimately show ?thesis by blast
      qed
      moreover have "list_all (\<lambda>b'. block_num b \<le> block_num b') (blocks_in ms2)"
        using IH d(2,4) by (auto simp: list_all_iff)
      moreover have "list_all (\<lambda>m. msg_job m = job_id j) ms" using IH one d(3) by (auto simp: ms(1) list_all_iff)
      moreover have "sorted (map block_num (blocks_in ms))" using IH calculation(2) by (simp add: bl list_all_iff)
      moreover have "list_all (\<lambda>b. file_num j \<le> block_num b) (blocks_in ms)" using calculation(2) d(2) by (simp add: bl)
      ultimately show ?thesis using IH one unfolding bl ms(2) by metis
    qed
  qed
qed

text \<open>
  C11. One tick of the sending side stays within its limits: at most 32 (128 on direct connections) blocks
  and less than 2 MiB (16 MiB) plus one buffer of data. All it sends is of the first job that is not a
  left-over: every message has its id, the numbers of its blocks do not fall, and the blocks of each
  file are, in order and each compressed or not as it says, consecutive pieces from the front of
  what is left of that file. The jobs behind it are untouched.
\<close>

theorem tick_bounds:
  "let (ms, js') = handle_read_jobs E w d js in
     length (block_sizes ms) \<le> max_blocks_per_tick d \<and>
     sum_list (block_sizes ms) < max_bytes_per_tick d + 512 * 1024 \<and>
     (case dropWhile is_last_job js of
        [] \<Rightarrow> ms = [] \<and> js' = js
      | j # later \<Rightarrow> drop (length js' - length later) js' = later \<and>
          list_all (\<lambda>m. msg_job m = job_id j) ms \<and> sorted (map block_num (blocks_in ms)) \<and>
          (\<forall>n. \<exists>ds rest. list_all2 (is_piece E) ds (filter (\<lambda>b. block_num b = n) (blocks_in ms)) \<and>
             left_of w j n = concat ds @ rest))"
proof (cases "dropWhile is_last_job js")
  case Nil
  show ?thesis unfolding handle_read_jobs_def Nil list.case Let_def prod.case by (simp add: max_bytes_per_tick_def)
next
  case (Cons j later)
  obtain ms j' fin where d: "drive_job E w (max_blocks_per_tick d) (max_bytes_per_tick d) 0 0 j = (ms, j', fin)"
    by (metis prod_cases3)
  let ?js = "takeWhile is_last_job js @ j' # later"
  have b: "length (block_sizes ms) \<le> max_blocks_per_tick d \<and> sum_list (block_sizes ms) < max_bytes_per_tick d + 512 * 1024"
    using drive_bounds[OF _ _ d] by (simp add: max_blocks_per_tick_def max_bytes_per_tick_def split: if_splits)
  have h: "handle_read_jobs E w d js = (ms, if fin then snd (remove_job (job_id j') ?js) else ?js)"
    using Cons d by (simp add: handle_read_jobs_def)
  have "\<exists>before. (if fin then snd (remove_job (job_id j') ?js) else ?js) = before @ later"
  proof (cases fin)
    case True
    then show ?thesis using remove_keeps_tail[OF refl, of j' "takeWhile is_last_job js" later] by simp
  next
    case False
    then show ?thesis by (intro exI[of _ "takeWhile is_last_job js @ [j']"]) simp
  qed
  then obtain before where before: "(if fin then snd (remove_job (job_id j') ?js) else ?js) = before @ later" by blast
  show ?thesis unfolding h before Let_def prod.case Cons list.case using b drive_pieces[OF d] by simp
qed

subsection \<open>Confirmation\<close>

lemma read_data_confirmed:
  assumes "read_data E w name j = (ReadBlock b, j')"
  shows "block_num b = file_num j \<and> job_kind j' = job_kind j \<and> enable_overwrite_detection j' = enable_overwrite_detection j \<and>
    (\<not> file_confirmed j' \<or> file_confirmed j \<and> file_num j' = file_num j)"
  using assms
  by (auto simp: read_data_def next_file_def Let_def split: option.splits sum.splits data_source.splits if_splits)

lemma read_block_confirmed:
  assumes "read_block E w j = (ms, ReadBlock b, j')" and "job_kind j = Generic" and "enable_overwrite_detection j"
  shows "block_num b = file_num j \<and> (block_data b = [] \<or> file_confirmed j) \<and>
    job_kind j' = Generic \<and> enable_overwrite_detection j' \<and> (\<not> file_confirmed j' \<or> file_confirmed j \<and> file_num j' = file_num j)"
proof -
  have cr: "file_confirmed k \<and> read_data E w name k = (ReadBlock b, j')"
    if "confirm_or_read E w name k = (ms, ReadBlock b, j')" "job_kind k = Generic" "enable_overwrite_detection k" for name k
    using that by (auto simp: confirm_or_read_def split: if_splits sum.splits)
  show ?thesis
  proof (cases "data_source j")
    case (FilePath p)
    obtain f where f: "file_at j (file_num j) = Some f" using FilePath assms(1) by (auto simp: read_block_def split: option.splits)
    consider (marker) "ends_with (entry_name f) ''/''" | (opens) "\<not> ends_with (entry_name f) ''/''" "data_stream j = None"
      | (goes_on) "\<not> ends_with (entry_name f) ''/''" "data_stream j \<noteq> None" by blast
    then show ?thesis
    proof cases
      case marker
      with FilePath f assms show ?thesis by (auto simp: read_block_def next_file_def)
    next
      case opens
      with FilePath f assms(1) obtain i where
        "confirm_or_read E w (entry_name f) (j\<lparr>data_stream := Some (FileStream i 0 ForRead), file_confirmed := False, file_is_waiting := False\<rparr>)
          = (ms, ReadBlock b, j')"
        by (auto simp: read_block_def Let_def split: option.splits if_splits)
      from cr[OF this] assms(2,3) show ?thesis by simp
    next
      case goes_on
      with FilePath f assms(1) have "confirm_or_read E w (entry_name f) j = (ms, ReadBlock b, j')"
        by (auto simp: read_block_def)
      from cr[OF this assms(2,3)] read_data_confirmed assms(2,3) show ?thesis by fastforce
    qed
  next
    case (MemoryCursor c)
    obtain k where k: "confirm_or_read E w [] k = (ms, ReadBlock b, j')" "job_kind k = Generic" "enable_overwrite_detection k"
        "file_num k = file_num j" "file_confirmed k = file_confirmed j"
      using MemoryCursor assms by (cases "data_stream j") (auto simp: read_block_def)
    from cr[OF k(1-3)] read_data_confirmed[of E w "[]" k b j'] k show ?thesis by auto
  qed
qed

definition within_confirmed :: "transfer_job \<Rightarrow> file_msg \<Rightarrow> bool" where
  "within_confirmed j m \<longleftrightarrow>
    (case m of BlockMsg b \<Rightarrow> block_data b = [] \<or> file_confirmed j \<and> block_num b = file_num j | _ \<Rightarrow> True)"

lemma within_confirmed_simps [simp]:
  "within_confirmed j (ErrorMsg i e n)" "within_confirmed j (DoneMsg i n)"
  by (simp_all add: within_confirmed_def)

lemma read_messages: "read_block E w j = (ms, r, j') \<Longrightarrow> list_all (within_confirmed k) ms"
  by (auto simp: read_block_def confirm_or_read_def Let_def within_confirmed_def
      split: data_source.splits option.splits if_splits sum.splits)

lemma drive_confirmed:
  "drive_job E w mb my sent bytes j = (ms, j', fin) \<Longrightarrow> job_kind j = Generic \<Longrightarrow> enable_overwrite_detection j \<Longrightarrow>
   list_all (within_confirmed j) ms"
proof (induction E w mb my sent bytes j arbitrary: ms j' fin rule: drive_job.induct)
  case (1 E w mb my sent bytes j)
  obtain ms1 r j1 where rb: "read_block E w j = (ms1, r, j1)" by (metis prod_cases3)
  note step = "1.prems"(1)[unfolded drive_job.simps[of E w mb my sent bytes j] rb Let_def prod.case]
  have ms1: "list_all (within_confirmed j) ms1" by (rule read_messages[OF rb])
  show ?case
  proof (cases r)
    case (ReadErr e)
    then show ?thesis using step ms1 by auto
  next
    case ReadNone
    then show ?thesis using step ms1 by (auto split: if_splits option.splits)
  next
    case (ReadBlock b)
    note c = read_block_confirmed[OF rb[unfolded ReadBlock] "1.prems"(2,3)]
    have b: "within_confirmed j (BlockMsg b)" using c by (auto simp: within_confirmed_def)
    show ?thesis
    proof (cases "Suc sent \<ge> mb \<or> bytes + length (block_data b) \<ge> my")
      case True
      then have "ms = ms1 @ [BlockMsg b]" using step ReadBlock by auto
      then show ?thesis using ms1 b by simp
    next
      case False
      obtain ms2 j2 f2 where d: "drive_job E w mb my (Suc sent) (bytes + length (block_data b)) j1 = (ms2, j2, f2)"
        by (metis prod_cases3)
      have "list_all (within_confirmed j1) ms2"
        using "1.IH"[OF rb[symmetric] refl refl ReadBlock refl refl False d] c by blast
      then have "list_all (within_confirmed j) ms2"
        by (rule list.pred_mono_strong) (use c in \<open>auto simp: within_confirmed_def split: file_msg.splits\<close>)
      moreover have "ms = ms1 @ BlockMsg b # ms2" using step ReadBlock False d by simp
      ultimately show ?thesis using ms1 b by simp
    qed
  qed
qed

text \<open>
  C12. With overwrite detection no block carries data of a file that the peer has not confirmed: in a
  tick all data belongs to the file that was current and confirmed when the tick began.
\<close>

theorem data_only_when_confirmed:
  assumes "job_kind j = Generic" and "enable_overwrite_detection j"
  shows "list_all (within_confirmed j) (fst (drive_job E w mb my sent bytes j))"
  using drive_confirmed[of E w mb my sent bytes j] assms by (cases "drive_job E w mb my sent bytes j") auto

text \<open>
  Resuming: with a partial \<open>.download\<close> file and its digest present, confirming with the partial
  size and writing the remaining blocks completes the file under its name, with the sender's time.
\<close>

theorem resume_completes:
  assumes "store_ok w" and "receiving q i fs j" and "n < length fs" and "ready w q (fs ! n)" and "writes_ok E"
    and "file_num j = int n" and "entry_at w (download_of (target q (fs ! n))) = Some (partial, t)"
    and "path_exists w (digest_of (target q (fs ! n)))" and "0 < length partial" and "length partial < 2 ^ 32"
    and "cr_num r = int n" and "cr_union r = OffsetBlk (word_of_nat (length partial))"
    and "list_all (\<lambda>b. block_id b = i \<and> block_num b = int n) bs"
  shows "case confirm E r (j, w) of
      None \<Rightarrow> False
    | Some s \<Rightarrow>
        let (j', w') = write_blocks E bs s
        in entry_at (modify_time j' w') (target q (fs ! n)) =
             Some (partial @ payloads E bs, unat (modified_time (fs ! n)))"
proof -
  let ?f = "fs ! n" and ?off = "word_of_nat (length partial) :: u32"
  obtain ino where ino: "links w (download_of (target q ?f)) = Some ino" "fst (inodes w ! ino) = partial"
    using assms(7) by (auto simp: entry_at_def)
  have off: "unat ?off = length partial" using assms(10) by (simp add: unat_of_nat take_bit_nat_eq_self)
  then have pos: "0 < ?off" using assms(9) by (metis word_gt_0 unat_0 less_irrefl)
  define j1 where "j1 = (set_file_confirmed True j)\<lparr>data_stream := Some (FileStream ino (length partial) ForWrite),
      transferred := transferred j + word_of_nat (length partial), finished_size := finished_size j + word_of_nat (length partial)\<rparr>"
  have "confirm E r (j, w) = Some (j1, w)"
    using assms(2,3,4,6,8,11,12) ino(1) off pos
    by (simp add: confirm_def set_stream_offset_def receiving_def file_at_def set_file_confirmed_def path_exists_def
        target_def ready_def Let_def j1_def)
  moreover have "receiving q i fs j1" "arriving q ?f (int n) partial (j1, w)"
    using assms(2,6) ino by (simp_all add: j1_def receiving_def arriving_def set_file_confirmed_def)
  note more = more_arrives[OF assms(5,3,13,1) this(1) assms(4) this(2)]
  obtain j2 w2 where wb: "write_blocks E bs (j1, w) = (j2, w2)" by (metis surj_pair)
  have m: "receiving q i fs j2" "store_ok w2" "arriving q ?f (int n) (partial @ payloads E bs) (j2, w2)"
    using more[unfolded wb prod.case] by simp_all
  obtain ino2 where ino2: "links w2 (download_of (target q ?f)) = Some ino2" "fst (inodes w2 ! ino2) = partial @ payloads E bs"
      "file_num j2 = int n"
    using m(3) by (auto simp: arriving_def)
  have "file_at j2 (file_num j2) = Some ?f" using m(1) ino2(3) assms(3) by (simp add: file_at_def receiving_def)
  from entry_modify[OF m(2,1) this] ino2
  have "entry_at (modify_time j2 w2) (target q ?f) = Some (partial @ payloads E bs, unat (modified_time ?f))"
    by (simp add: entry_at_def)
  ultimately show ?thesis using wb by simp
qed

text \<open>The message about a file that cannot be opened carries the number of the next file.\<close>

lemma missing_file_misreported:
  assumes "data_source j = FilePath p" and "file_at j (file_num j) = Some f" and "\<not> ends_with (entry_name f) ''/''"
    and "data_stream j = None" and "links w (join p (entry_name f)) = None"
  shows "fst (drive_job E w mb my sent bytes j) = [ErrorMsg (job_id j) ''No such file'' (file_num j + 1)]"
  using assms by (subst drive_job.simps) (simp add: read_block_def next_file_def Let_def)

text \<open>A buffer the compressor fails on is sent as an empty compressed block.\<close>

lemma failed_compression_loses_block:
  assumes "data_source j = FilePath p" and "data_stream j = Some s" and "\<not> is_compressed_file name"
    and "fill (stream_reads E s) 0 (stream_rest s w) (buf_size j) = Inr buf" and "16384 < length buf"
    and "zstd E buf = None" and "unzstd E [] = None"
  shows "\<exists>b. fst (read_data E w name j) = ReadBlock b \<and> payload E b = []"
  using assms by (auto simp: read_data_def Let_def compress_def payload_def decompress_def)

section \<open>Witnesses\<close>

definition plain_io :: io_env where
  "plain_io = \<lparr>zstd = Some, unzstd = Some, digest_json = (\<lambda>_. [1]), parse_digest = (\<lambda>_. None), can_open = (\<lambda>_. True),
     reads = (\<lambda>_ _ _. ReadUpto 3), write_limit = None, sync_ok = True\<rparr>"

definition entry_named :: "string \<Rightarrow> u64 \<Rightarrow> file_entry" where
  "entry_named name t = \<lparr>entry_kind = RegularFile, entry_name = name, is_hidden = False, entry_size = 2, modified_time = t\<rparr>"

definition empty_store :: filesystem where
  "empty_store = \<lparr>links = (\<lambda>_. None), inodes = [], made_dirs = [], refused = (\<lambda>_ _. False), clock_secs = 9\<rparr>"

definition two_files :: filesystem where
  "two_files = empty_store\<lparr>links := [''/s/a'' \<mapsto> 0, ''/s/b'' \<mapsto> 1], inodes := [([1, 2], 5), ([3], 6)]\<rparr>"

lemma plain_io_ok: "honest_io plain_io" "writes_ok plain_io"
  by (simp_all add: honest_io_def plain_io_def writes_ok_def)

lemma empty_store_ok: "store_ok empty_store" "refused empty_store op p = False"
  by (simp_all add: store_ok_def empty_store_def)

lemma store_names:
  "target ''/d'' (entry_named ''a'' t) = ''/d/a''" "target ''/d'' (entry_named ''b'' t) = ''/d/b''"
  "target ''/d'' (entry_named ''e/'' t) = ''/d/e/''"
  "\<not> ends_with (entry_name (entry_named ''a'' t)) ''/''" "\<not> ends_with (entry_name (entry_named ''b'' t)) ''/''"
  "ends_with (entry_name (entry_named ''e/'' t)) ''/''" "modified_time (entry_named x t) = t"
  by (simp_all add: target_def join_def path_join_def starts_with_def ends_with_def entry_named_def)

lemma touched_names:
  "touched ''/d'' (entry_named ''a'' t) \<inter> touched ''/d'' (entry_named ''b'' u) = {}"
  "touched ''/d'' (entry_named ''b'' u) \<inter> touched ''/d'' (entry_named ''a'' t) = {}"
  "touched ''/d'' (entry_named ''a'' t) \<inter> touched ''/d'' (entry_named ''e/'' u) = {}"
  by (simp_all add: touched_def store_names download_of_def digest_of_def)

lemma source_names:
  "source_content two_files ''/s'' (entry_named ''a'' t) = [1, 2]" "source_content two_files ''/s'' (entry_named ''b'' t) = [3]"
  by (simp_all add: source_content_def entry_named_def two_files_def join_def path_join_def starts_with_def)

definition ab :: "file_entry list" where "ab = [entry_named ''a'' 5, entry_named ''b'' 6]"

definition ab_job :: transfer_job where "ab_job = new_write 7 Generic [] (FilePath ''/d'') 0 False False ab True"

lemma ab_job_ok: "receiving ''/d'' 7 ab ab_job" "file_num ab_job = 0" "data_stream ab_job = None"
  by (simp_all add: ab_job_def new_write_def receiving_def default_job_def)

lemma ready_empty: "ready empty_store ''/d'' (entry_named ''a'' t)" "ready empty_store ''/d'' (entry_named ''b'' t)"
  by (simp_all add: ready_def store_names empty_store_ok)

theorem transfer_delivers_witness:
  "\<exists>n blocks js. new_read 7 Generic [] (FilePath ''/s'') 0 False False (Inr ab) False = Inr js \<and>
     drain n plain_io two_files js = Some blocks \<and>
     (let (j, w) = write_blocks plain_io blocks (ab_job, empty_store)
      in entry_at (modify_time j w) ''/d/a'' = Some ([1, 2], 5) \<and> entry_at (modify_time j w) ''/d/b'' = Some ([3], 6))"
proof -
  obtain js where js: "new_read 7 Generic [] (FilePath ''/s'') 0 False False (Inr ab) False = Inr js"
    by (simp add: new_read_def)
  have r: "readable plain_io two_files ''/s'' ab"
    by (simp add: readable_def ab_def entry_named_def ends_with_def join_def path_join_def starts_with_def
        path_exists_def two_files_def plain_io_def)
  have a: "acceptable empty_store ''/d'' ab"
    using ready_empty touched_names by (auto simp: acceptable_def ab_def less_Suc_eq)
  from transfer_delivers[OF plain_io_ok r _ js empty_store_ok(1) a, where r' = "[]" and hid' = False and rem' = False and detect = True]
  obtain n blocks where "drain n plain_io two_files js = Some blocks"
    "let (j, w) = write_blocks plain_io blocks (ab_job, empty_store)
     in list_all (\<lambda>f. entry_at (modify_time j w) (target ''/d'' f) =
          Some (source_content two_files ''/s'' f, unat (modified_time f))) ab"
    by (auto simp: ab_job_def ab_def)
  with js show ?thesis
    by (intro exI[of _ n] exI[of _ blocks] exI[of _ js])
      (auto simp: ab_def store_names source_names)
qed

definition block_of :: "int \<Rightarrow> bytes \<Rightarrow> file_block" where
  "block_of n d = \<lparr>block_id = 7, block_num = n, block_data = d, block_compressed = False\<rparr>"

lemma payload_block_of [simp]:
  "payload E (block_of n d) = d" "payloads E [block_of n d] = d" "block_id (block_of n d) = 7" "block_num (block_of n d) = n"
  by (simp_all add: payload_def payloads_def block_of_def)

theorem file_before_empty_directory_witness:
  "let (j, w) = write_blocks plain_io [block_of 0 [1], block_of 1 []]
       (new_write 7 Generic [] (FilePath ''/d'') 0 False False [entry_named ''a'' 5, entry_named ''e/'' 6] False, empty_store)
   in entry_at (modify_time j w) ''/d/a'' = None \<and> map_option fst (entry_at (modify_time j w) ''/d/a.download'') = Some [1]"
proof -
  let ?j = "new_write 7 Generic [] (FilePath ''/d'') 0 False False [entry_named ''a'' 5, entry_named ''e/'' 6] False"
  have j: "receiving ''/d'' 7 [entry_named ''a'' 5, entry_named ''e/'' 6] ?j" "file_num ?j = 0" "data_stream ?j = None"
    by (simp_all add: new_write_def receiving_def default_job_def)
  have none: "entry_at empty_store p = None" for p by (simp add: empty_store_def entry_at_def)
  have d: "download_of ''/d/a'' = ''/d/a.download''" by (simp add: download_of_def)
  obtain j' w' where wb: "write_blocks plain_io ([block_of 0 [1]] @ [block_of 1 []]) (?j, empty_store) = (j', w')"
    by (metis surj_pair)
  show ?thesis
    using file_before_empty_directory[OF empty_store_ok(1) j plain_io_ok(2) ready_empty(1) store_names(6) touched_names(3) none none,
        of "[block_of 0 [1]]" "block_of 1 []", unfolded wb Let_def prod.case store_names(1) d payload_block_of] wb
    by simp
qed

definition half_store :: filesystem where
  "half_store = empty_store\<lparr>links := [''/d/a.download'' \<mapsto> 0, ''/d/a.digest'' \<mapsto> 1], inodes := [([1], 5), ([2], 6)],
     refused := (\<lambda>op p. op = Creating \<and> p = ''/d/b.download'')\<rparr>"

lemma half_store_ok: "store_ok half_store" "ready half_store ''/d'' (ab ! 0)"
  "entry_at half_store (download_of (target ''/d'' (ab ! 0))) = Some ([1], 5)"
  "path_exists half_store (digest_of (target ''/d'' (ab ! 0)))" "refused half_store Creating (download_of (target ''/d'' (ab ! 1)))"
  "\<not> refused half_store Removing (digest_of (target ''/d'' (ab ! 1)))"
  by (auto simp: store_ok_def half_store_def empty_store_def ready_def ab_def store_names entry_at_def download_of_def
      digest_of_def path_exists_def split: if_splits)

theorem failed_create_misplaces_blocks_witness:
  "let (e1, s1) = write_block plain_io (block_of 1 [8]) (ab_job\<lparr>data_stream := Some (FileStream 0 1 ForWrite)\<rparr>, half_store);
       (e2, j2, w2) = write_block plain_io (block_of 1 [9]) s1
   in e1 \<noteq> None \<and> e2 = None \<and> map_option fst (entry_at w2 ''/d/a'') = Some [1, 9]"
proof -
  let ?j = "ab_job\<lparr>data_stream := Some (FileStream 0 1 ForWrite)\<rparr>"
  have j: "receiving ''/d'' 7 ab ?j" using ab_job_ok by (simp add: receiving_def)
  have arr: "arriving ''/d'' (ab ! 0) (int 0) [1] (?j, half_store)"
    using ab_job_ok by (simp add: arriving_def half_store_def ab_def store_names download_of_def)
  have "touched ''/d'' (ab ! 0) \<inter> touched ''/d'' (ab ! 1) = {}" "\<not> ends_with (entry_name (ab ! 1)) ''/''"
    "0 < length ab" "1 < length ab" "target ''/d'' (ab ! 0) = ''/d/a''"
    using touched_names store_names by (simp_all add: ab_def)
  from failed_create_misplaces_blocks[OF half_store_ok(1) j plain_io_ok(2) this(3,4) _ this(2,1) arr half_store_ok(5,6),
      of "block_of 1 [8]" "block_of 1 [9]"] this(5)
  show ?thesis by (auto simp: Let_def split: prod.splits)
qed

theorem stale_download_promoted_witness:
  "case write_block plain_io (block_of 0 [4]) (ab_job, half_store) of (e, j, w) \<Rightarrow> entry_at w ''/d/a'' = Some ([1], 5)"
proof -
  have n: "0 < length ab" "file_num ab_job = int 0" "target ''/d'' (ab ! 0) = ''/d/a''" "modified_time (ab ! 0) = 5"
    using ab_job_ok by (simp_all add: ab_def store_names)
  show ?thesis
    using stale_download_promoted[OF half_store_ok(1) ab_job_ok(1) half_store_ok(2) n(1) plain_io_ok(2) n(2) ab_job_ok(3)
        half_store_ok(3), of "block_of 0 [4]"] n(3,4)
    by simp
qed

theorem resume_completes_witness:
  "case confirm plain_io \<lparr>cr_id = 7, cr_num = 0, cr_union = OffsetBlk 1\<rparr> (ab_job, half_store) of
     None \<Rightarrow> False
   | Some s \<Rightarrow> let (j, w) = write_blocks plain_io [block_of 0 [2]] s in entry_at (modify_time j w) ''/d/a'' = Some ([1, 2], 5)"
proof -
  have n: "0 < length ab" "file_num ab_job = int 0" "target ''/d'' (ab ! 0) = ''/d/a''" "modified_time (ab ! 0) = 5"
    using ab_job_ok by (simp_all add: ab_def store_names)
  let ?r = "\<lparr>cr_id = 7, cr_num = 0, cr_union = OffsetBlk 1\<rparr>"
  note completed = resume_completes[OF half_store_ok(1) ab_job_ok(1) n(1) half_store_ok(2) plain_io_ok(2) n(2) half_store_ok(3,4),
        of ?r "[block_of 0 [2]]", unfolded n(3,4) payload_block_of]
  have "unat (5 :: u64) = 5" "[1] @ [2] = ([1, 2] :: bytes)" by simp_all
  then show ?thesis using completed by (cases "confirm plain_io ?r (ab_job, half_store)") simp_all
qed

theorem data_only_when_confirmed_witness:
  "list_all (within_confirmed (ab_job\<lparr>file_confirmed := True\<rparr>))
     (fst (drive_job plain_io two_files 32 1000 0 0 (ab_job\<lparr>file_confirmed := True\<rparr>)))"
  by (rule data_only_when_confirmed) (simp_all add: ab_job_def new_write_def default_job_def)

end
