(* ===== verification/Transfer_Resume.thy ===== *)
theory Transfer_Resume
  imports Transfer_Receiver Transfer_Properties
begin

text \<open>
  What the receiver of \<open>Transfer_Receiver\<close> does over whole commands and whole files: a command touches
  the job it names only, an interrupted file is continued where it stopped, a later file of a resumed
  job is not, and what brings the connection manager down.
\<close>

section \<open>Commands touch the jobs they name\<close>

fun command_id :: "fs_command \<Rightarrow> int" where
  "command_id (RemoveFile _ i _) = i"
| "command_id (CreateDir _ i) = i"
| "command_id (NewWrite _ i _ _ _ _ _) = i"
| "command_id (CancelWrite i) = i"
| "command_id (WriteDone i _) = i"
| "command_id (WriteError i _ _) = i"
| "command_id (WriteBlock b) = block_id b"
| "command_id (CheckDigest i _ _ _ _ _) = i"
| "command_id (SendConfirm r) = cr_id r"
| "command_id (Rename i _ _) = i"

fun message_id :: "file_msg \<Rightarrow> int" where
  "message_id (BlockMsg b) = block_id b"
| "message_id (ErrorMsg i _ _) = i"
| "message_id (DoneMsg i _) = i"
| "message_id (DigestMsg d) = dm_id d"
| "message_id (ConfirmMsg r) = cr_id r"

definition jobs_of :: "int \<Rightarrow> transfer_job list \<Rightarrow> transfer_job list" where
  "jobs_of k js = filter (\<lambda>j. job_id j = k) js"

lemma jobs_of_remove: "remove_job i js = (r, js') \<Longrightarrow> k \<noteq> i \<Longrightarrow> jobs_of k js' = jobs_of k js"
proof (induction js arbitrary: r js')
  case (Cons j js)
  obtain r1 js1 where r1: "remove_job i js = (r1, js1)" by force
  show ?case using Cons.prems Cons.IH[OF r1] r1 by (auto simp: jobs_of_def split: if_splits)
qed (simp add: jobs_of_def)

lemma jobs_of_put: "job_id j' = i \<Longrightarrow> k \<noteq> i \<Longrightarrow> jobs_of k (put_job i j' js) = jobs_of k js"
  by (induction js) (auto simp: jobs_of_def)

lemma get_job_id: "get_job i js = Some j \<Longrightarrow> job_id j = i"
  by (auto simp: get_job_def find_Some_iff)

lemma removed_id: "remove_job i js = (Some j, js') \<Longrightarrow> job_id j = i"
proof (induction js arbitrary: js')
  case (Cons x js)
  obtain r1 js1 where r1: "remove_job i js = (r1, js1)" by force
  show ?case using Cons.prems Cons.IH r1 by (auto split: if_splits)
qed simp

lemma put_data_id: "put_data E b (j, w) = (e, j', w') \<Longrightarrow> job_id j' = job_id j"
  unfolding put_data_def Let_def by (auto split: option.splits prod.splits if_splits)

lemma start_file_id: "start_file E p f n (j, w) = (e, j', w') \<Longrightarrow> job_id j' = job_id j"
  unfolding start_file_def open_file_def Let_def by (auto split: option.splits prod.splits if_splits)

lemma write_block_id:
  assumes "write_block E b (j, w) = (e, j', w')"
  shows "job_id j' = job_id j"
proof (cases "\<exists>p f. data_source j = FilePath p \<and> block_id b = job_id j \<and> file_at j (block_num b) = Some f \<and> \<not> ends_with (entry_name f) ''/''")
  case True
  then obtain p f where p: "data_source j = FilePath p" "block_id b = job_id j" "file_at j (block_num b) = Some f" "\<not> ends_with (entry_name f) ''/''"
    by blast
  obtain e1 j1 w1 where s: "start_file E p f (block_num b) (j, w) = (e1, j1, w1)" by (metis prod_cases3)
  have j1: "job_id j1 = job_id j" by (rule start_file_id[OF s])
  have w: "write_block E b (j, w) = (case e1 of Some e \<Rightarrow> (Some e, j1, w1) | None \<Rightarrow> put_data E b (j1, w1))"
    unfolding write_block_def using p s by (simp split: option.split)
  show ?thesis
  proof (cases e1)
    case None
    then have "put_data E b (j1, w1) = (e, j', w')" using assms w by simp
    from put_data_id[OF this] j1 show ?thesis by simp
  qed (use assms w j1 in simp)
next
  case False
  show ?thesis
  proof (cases "block_id b = job_id j")
    case True
    note i = this
    show ?thesis
    proof (cases "data_source j")
      case (FilePath p)
      with False i have "file_at j (block_num b) = None \<or> (\<exists>f. file_at j (block_num b) = Some f \<and> ends_with (entry_name f) ''/'')"
        by (cases "file_at j (block_num b)") auto
      with FilePath i assms show ?thesis by (auto simp: write_block_def)
    next
      case (MemoryCursor c)
      with i assms have "put_data E b (if data_stream j = None then j\<lparr>data_stream := Some (BufStream c 0)\<rparr> else j, w) = (e, j', w')"
        by (simp add: write_block_def)
      from put_data_id[OF this] show ?thesis by simp
    qed
  qed (use assms in \<open>simp add: write_block_def\<close>)
qed

lemma set_stream_offset_id: "set_stream_offset E n k (j, w) = Some (j', w') \<Longrightarrow> job_id j' = job_id j"
  unfolding set_stream_offset_def Let_def by (auto split: data_source.splits option.splits if_splits)

lemma confirm_id: "confirm E r (j, w) = Some (j', w') \<Longrightarrow> job_id j' = job_id j"
  unfolding confirm_def Let_def
  by (auto simp: set_file_confirmed_def set_file_skipped_def dest!: set_stream_offset_id split: confirm_union.splits if_splits)

lemma check_digest_id:
  assumes "check_digest E whole j d upload resume w = Some (j', m)" "job_id j = dm_id d"
  shows "job_id j' = job_id j" "message_id m = dm_id d"
proof -
  have n: "is_write_need_confirmation E whole resume p d w = Inr (NeedConfirm d') \<Longrightarrow> dm_id d' = dm_id d" for p d'
    unfolding is_write_need_confirmation_def confirm_digest_def by (auto split: option.splits prod.splits if_splits)
  show "job_id j' = job_id j" "message_id m = dm_id d"
    using assms n unfolding check_digest_def
    by (auto simp: set_digest_def split: option.splits data_source.splits sum.splits digest_check.splits)
qed

lemma cm_frames [simp]:
  "write_jobs (send_raw m s) = write_jobs s" "to_peer (send_raw m s) = to_peer s @ [m]"
  "write_jobs (log_job l s) = write_jobs s" "to_peer (log_job l s) = to_peer s"
  "store (send_raw m s) = store s" "store (log_job l s) = store s"
  by (simp_all add: send_raw_def log_job_def)

lemma handle_result_frames: "write_jobs (handle_result r i n s) = write_jobs s \<and> (\<exists>m. to_peer (handle_result r i n s) = to_peer s @ [m] \<and> message_id m = i)"
  unfolding handle_result_def by (cases r) auto

text \<open>
  A command of the peer to the connection manager touches the job it names and no other: the jobs
  of every other id are what they were, and every message it makes the manager send names the id of
  the command. This holds for each of the ten commands of the model, on every branch, errors included.
\<close>

theorem commands_isolated:
  assumes "handle_fs E whole logged c s = Some s'"
  shows "(k \<noteq> command_id c \<longrightarrow> jobs_of k (write_jobs s') = jobs_of k (write_jobs s))
    \<and> (\<exists>ms. to_peer s' = to_peer s @ ms \<and> (\<forall>m \<in> set ms. message_id m = command_id c))"
proof (cases c)
  case (RemoveFile path i n)
  then show ?thesis using assms handle_result_frames[of "remove_file path (store s)" i n s] by auto
next
  case (CreateDir path i)
  then show ?thesis using assms handle_result_frames[of "create_dir path (store s)" i 0 s] by auto
next
  case (Rename i path n)
  then show ?thesis using assms handle_result_frames[of "rename_file path n (store s)" i 0 s] by auto
next
  case (NewWrite path i n fs detect all conn)
  then show ?thesis using assms by (auto simp: jobs_of_def new_write_job_def new_write_def)
next
  case (CancelWrite i)
  obtain r js where r: "remove_job i (write_jobs s) = (r, js)" by force
  show ?thesis using assms CancelWrite r jobs_of_remove[OF r, of k]
    by (cases r) (auto simp: Let_def split: if_splits)
next
  case (WriteDone i n)
  obtain r js where r: "remove_job i (write_jobs s) = (r, js)" by force
  show ?thesis using assms WriteDone r jobs_of_remove[OF r, of k]
    by (cases r) (auto simp: Let_def split: if_splits)
next
  case (WriteError i n err)
  obtain r js where r: "remove_job i (write_jobs s) = (r, js)" by force
  show ?thesis using assms WriteError r jobs_of_remove[OF r, of k] removed_id[of i "write_jobs s"]
    by (cases r) (auto simp: Let_def split: if_splits)
next
  case (WriteBlock b)
  show ?thesis
  proof (cases "get_job (block_id b) (write_jobs s)")
    case (Some j)
    obtain e j' w where w: "write_block E b (j, store s) = (e, j', w)" by (metis prod_cases3)
    have "job_id j' = block_id b" using write_block_id[OF w] get_job_id[OF Some] by simp
    from jobs_of_put[OF this, of k "write_jobs s"] show ?thesis using assms WriteBlock Some w
      by (cases e) (auto simp: Let_def)
  qed (use assms WriteBlock in simp)
next
  case (CheckDigest i n sz modified upload resume)
  show ?thesis
  proof (cases "get_job i (write_jobs s)")
    case (Some j)
    note g = this
    show ?thesis
    proof (cases "check_digest E whole j (plain_digest i n sz modified) upload resume (store s)")
      case (Some jm)
      obtain j' m where jm: "jm = (j', m)" by force
      have i: "job_id j = dm_id (plain_digest i n sz modified)" using get_job_id[OF g] by (simp add: plain_digest_def)
      from check_digest_id[OF Some[unfolded jm] i] i have "job_id j' = i" "message_id m = i" by (simp_all add: plain_digest_def)
      with jobs_of_put[OF this(1), of k "write_jobs s"] show ?thesis using assms CheckDigest g Some jm by auto
    qed (use assms CheckDigest g in simp)
  qed (use assms CheckDigest in simp)
next
  case (SendConfirm r)
  show ?thesis
  proof (cases "get_job (cr_id r) (write_jobs s)")
    case (Some j)
    then obtain j' w where c: "confirm E r (j, store s) = Some (j', w)" using assms SendConfirm
      by (cases "confirm E r (j, store s)") auto
    have "job_id j' = cr_id r" using confirm_id[OF c] get_job_id[OF Some] by simp
    from jobs_of_put[OF this, of k "write_jobs s"] show ?thesis using assms SendConfirm Some c by auto
  qed (use assms SendConfirm in simp)
qed

section \<open>Resuming\<close>

text \<open>What the beginning of a file leaves beside it: the digest of the job.\<close>

lemma start_writes_digest:
  assumes "store_ok w" and "receiving q i fs j" and "ready w q (fs ! n)" and "\<not> refused w Creating (digest_of (target q (fs ! n)))"
    and "int n \<noteq> file_num j \<or> data_stream j = None" and "writes_ok E"
  shows "case start_file E q (fs ! n) (int n) (j, w) of (e, j', w') \<Rightarrow>
    map_option fst (entry_at w' (digest_of (target q (fs ! n)))) = Some (digest_json E (digest j))"
proof -
  let ?P = "target q (fs ! n)"
  define w1 where "w1 = (case path_parent ?P of None \<Rightarrow> modify_time j w | Some pp \<Rightarrow> mkdir_all pp (modify_time j w))"
  define w2 where "w2 = rm (digest_of ?P) w1"
  have w1: "store_ok w1" "refused w1 = refused w"
    using assms(1) by (auto simp: w1_def wf_intros split: option.split)
  have w2: "store_ok w2" "refused w2 = refused w" using w1 by (auto simp: w2_def wf_intros)
  have may: "\<not> refused w1 Removing (digest_of ?P)" "sync_ok E"
    using assms(3,6) w1(2) by (simp_all add: ready_def writes_ok_def)
  have "\<not> refused w2 Creating (download_of ?P)" using assms(3) w2 by (auto simp: ready_def)
  then obtain ino w3 where c: "create (download_of ?P) w2 = Some (ino, w3)" using create_succeeds by metis
  have "start_file E q (fs ! n) (int n) (j, w) =
      (None, j\<lparr>file_num := int n, data_stream := Some (FileStream ino 0 ForWrite)\<rparr>, write_whole (digest_of ?P) (digest_json E (digest j)) w3)"
    using assms(2,5) c may
    by (simp add: start_file_def open_file_def Let_def receiving_def target_def[symmetric] w1_def[symmetric] w2_def[symmetric])
  moreover have "\<not> refused w3 Creating (digest_of ?P)" using assms(4) w2 refused_create[OF c] by simp
  ultimately show ?thesis using entry_whole[OF store_ok_create[OF w2(1) c], of "digest_of ?P"] by simp
qed

lemma blocks_keep_digest:
  assumes "writes_ok E" and "n < length fs" and "bs \<noteq> []"
    and "list_all (\<lambda>b. block_id b = i \<and> block_num b = int n) bs"
    and "store_ok w" and "receiving q i fs j" and "ready w q (fs ! n)" and "int n \<noteq> file_num j \<or> data_stream j = None"
    and "\<not> refused w Creating (digest_of (target q (fs ! n)))"
  shows "case write_blocks E bs (j, w) of (j', w') \<Rightarrow>
    map_option fst (entry_at w' (digest_of (target q (fs ! n)))) = Some (digest_json E (digest j))"
proof -
  let ?P = "target q (fs ! n)"
  obtain b bs' where bs: "bs = b # bs'" using assms(3) by (cases bs) simp_all
  obtain e j1 w1 where s: "start_file E q (fs ! n) (int n) (j, w) = (e, j1, w1)" by (metis prod_cases3)
  note a = start_arrives[OF assms(5,6,7,2,8,1), unfolded s prod.case]
  have d: "map_option fst (entry_at w1 (digest_of ?P)) = Some (digest_json E (digest j))"
    using start_writes_digest[OF assms(5,6,7,9,8,1), unfolded s prod.case] .
  have b: "block_id b = i" "block_num b = int n" using assms(4) by (simp_all add: bs)
  have wb: "write_block E b (j, w) = put_data E b (j1, w1)"
    using write_block_known[OF assms(6,7,2) b, of E] s a by simp
  obtain e2 j2 w2 where p: "put_data E b (j1, w1) = (e2, j2, w2)" by (metis prod_cases3)
  have k: "store_ok w1" "arriving q (fs ! n) (int n) [] (j1, w1)" "receiving q i fs j1" using a by simp_all
  note c = put_arrives[OF k(1,2) assms(1) k(3), of b, unfolded p prod.case]
  have "ready w2 q (fs ! n)" using c a assms(7) ready_same by metis
  then have m: "case write_blocks E bs' (j2, w2) of (j', w') \<Rightarrow>
      \<forall>r. r \<noteq> download_of ?P \<longrightarrow> entry_at w' r = entry_at w2 r"
    using more_arrives[OF assms(1,2), of i bs' w2 q j2 "[] @ payload E b"] c assms(4) by (auto simp: bs)
  have "entry_at w2 (digest_of ?P) = entry_at w1 (digest_of ?P)" using c by simp
  then show ?thesis using m d by (auto simp: bs wb p)
qed

text \<open>A partial download with the digest of its source is offered with its size.\<close>

lemma partial_offered:
  assumes "map_option fst (entry_at w (digest_of p)) = Some (digest_json E dg)" "parse_digest E (digest_json E dg) = Some dg"
    and "entry_at w (download_of p) = Some (partial, t)" "0 < length partial"
    and "dg = \<lparr>digest_size = dm_file_size d, digest_modified = dm_last_modified d\<rparr>"
  shows "is_write_need_confirmation E whole True p d w =
    Inr (NeedConfirm (confirm_digest d (dm_last_modified d) (dm_file_size d) True (word_of_nat (length partial))))"
proof -
  obtain t' where "entry_at w (digest_of p) = Some (digest_json E dg, t')" using assms(1) by auto
  then have "resumable E p d w = Some (length partial)" using assms(2-5) by (simp add: resumable_def)
  then show ?thesis by (simp add: is_write_need_confirmation_def)
qed


lemma choice_offset:
  assumes "0 < n" "n < 2 ^ 32" "is_resume jr"
  shows "overwrite_choice jr (confirm_digest d m sz True (word_of_nat n)) = Some (OffsetBlk (word_of_nat n))"
proof -
  have "(0 :: u64) < word_of_nat n" using assms by (simp add: word_less_nat_alt unat_of_nat take_bit_nat_eq_self)
  moreover have "ucast (word_of_nat n :: u64) = (word_of_nat n :: u32)"
    using assms(2) by (simp add: unsigned_of_nat take_bit_nat_eq_self)
  ultimately show ?thesis using assms(3) by (simp add: overwrite_choice_def confirm_digest_def)
qed

text \<open>The offset of a partial file of four gigabytes or more is reduced modulo \<open>2 ^ 32\<close>.\<close>

lemma large_offset_wraps:
  assumes "is_resume jr" "dm_is_identical d" "0 < dm_transferred_size d"
  shows "overwrite_choice jr d = Some (OffsetBlk (ucast (dm_transferred_size d)))"
    and "unat (ucast (dm_transferred_size d) :: u32) = unat (dm_transferred_size d) mod 2 ^ 32"
  using assms by (simp_all add: overwrite_choice_def unsigned_ucast_eq take_bit_eq_mod)

text \<open>
  Resuming any other file than the one the receiving job is at destroys it. Both sides agree to
  send the content from the offset of the partial file, but the receiver's own \<open>confirm\<close> compares the
  number of the file with that of the file it wrote last and returns without opening the download file
  at the offset. The first block then begins the file anew: the partial content is deleted, and the
  finished file holds only what comes after the offset.
\<close>

theorem later_resume_truncates:
  assumes "store_ok w" "receiving q i fs j" "n < length fs" "ready w q (fs ! n)" "writes_ok E"
    and "file_num j \<noteq> int n" "dm_num d = int n" "is_resume jr"
    and "entry_at w (download_of (target q (fs ! n))) = Some (partial, t)" "0 < length partial" "length partial < 2 ^ 32"
    and "dg = \<lparr>digest_size = dm_file_size d, digest_modified = dm_last_modified d\<rparr>" "parse_digest E (digest_json E dg) = Some dg"
    and "map_option fst (entry_at w (digest_of (target q (fs ! n)))) = Some (digest_json E dg)"
    and "bs \<noteq> []" "list_all (\<lambda>b. block_id b = i \<and> block_num b = int n) bs" "payloads E bs = drop (length partial) content"
  shows "\<exists>d' u. is_write_need_confirmation E whole True (target q (fs ! n)) d w = Inr (NeedConfirm d')
    \<and> overwrite_choice jr d' = Some (OffsetBlk u) \<and> unat u = length partial
    \<and> confirm E (answer d' (OffsetBlk u)) (j, w) = Some (j, w)
    \<and> (let (j', w') = write_blocks E bs (j, w)
       in entry_at (modify_time j' w') (target q (fs ! n)) = Some (drop (length partial) content, unat (modified_time (fs ! n))))"
proof -
  let ?P = "target q (fs ! n)" and ?u = "word_of_nat (length partial) :: u32"
  let ?d = "confirm_digest d (dm_last_modified d) (dm_file_size d) True (word_of_nat (length partial))"
  have off: "is_write_need_confirmation E whole True ?P d w = Inr (NeedConfirm ?d)"
    by (rule partial_offered[OF assms(14,13,9,10,12)])
  have c: "confirm E (answer ?d (OffsetBlk ?u)) (j, w) = Some (j, w)"
    using assms(6,7) by (simp add: confirm_def answer_def confirm_digest_def)
  obtain j' w' where wb: "write_blocks E bs (j, w) = (j', w')" by (metis surj_pair)
  have sw: "int n \<noteq> file_num j \<or> data_stream j = None" using assms(6) by auto
  note a = file_arrives[OF assms(5,3,15,16,1,2,4) sw, unfolded wb prod.case]
  obtain ino where ino: "links w' (download_of ?P) = Some ino" "fst (inodes w' ! ino) = payloads E bs" "file_num j' = int n"
    using a by (auto simp: arriving_def)
  have r: "receiving q i fs j'" "store_ok w'" using a by simp_all
  have "file_at j' (file_num j') = Some (fs ! n)" using r(1) ino(3) assms(3) by (simp add: file_at_def receiving_def)
  from entry_modify[OF r(2,1) this] ino assms(17)
  have e: "entry_at (modify_time j' w') ?P = Some (drop (length partial) content, unat (modified_time (fs ! n)))"
    by (simp add: entry_at_def)
  have "unat ?u = length partial" using assms(11) by (simp add: unat_of_nat take_bit_nat_eq_self)
  with off choice_offset[OF assms(10,11,8)] c e wb show ?thesis by (intro exI[of _ ?d] exI[of _ ?u]) simp
qed

text \<open>
  Two commands of the peer bring the connection manager down: a new write job without files,
  followed by a confirmation with a positive offset for the number the job starts at. The job is at
  that number and has no such file, so the index of \<open>set_stream_offset\<close> is out of range and the
  handler panics. No state of the manager prevents it, only a job of the same id made before.
\<close>

theorem peer_can_panic:
  assumes "get_job i (write_jobs s) = None" "0 < offset"
  shows "handle_all E whole logged
    [NewWrite path i n [] detect all conn, SendConfirm \<lparr>cr_id = i, cr_num = n, cr_union = OffsetBlk offset\<rparr>] s = None"
proof -
  let ?j = "new_write_job path i n [] detect all conn"
  have fnd: "find (\<lambda>j. job_id j = i) (js @ [x]) = (case find (\<lambda>j. job_id j = i) js of None \<Rightarrow> if job_id x = i then Some x else None | Some y \<Rightarrow> Some y)" for js x
    by (induction js) auto
  have id: "job_id ?j = i" by (simp add: new_write_job_def new_write_def)
  have g: "get_job i (write_jobs s @ [?j]) = Some ?j"
    using assms(1) id unfolding get_job_def fnd by simp
  have j: "file_num ?j = n" "data_source ?j = FilePath path" "files ?j = []"
    by (simp_all add: new_write_job_def new_write_def)
  have "confirm E \<lparr>cr_id = i, cr_num = n, cr_union = OffsetBlk offset\<rparr> (?j, w) = None" for w
    unfolding confirm_panics using j assms(2) by (simp add: file_at_def)
  then show ?thesis by (simp add: g)
qed

theorem peer_can_panic_witness:
  "handle_all plain_io (\<lambda>_. None) False
     [NewWrite ''/d'' 1 0 [] False 0 0, SendConfirm \<lparr>cr_id = 1, cr_num = 0, cr_union = OffsetBlk 1\<rparr>]
     \<lparr>write_jobs = [], store = empty_store, to_peer = [], job_log = []\<rparr> = None"
  by (rule peer_can_panic) (simp_all add: get_job_def)

theorem commands_isolated_witness:
  "jobs_of 8 (write_jobs (\<lparr>write_jobs = [ab_job], store = empty_store, to_peer = [DoneMsg 7 0], job_log = []\<rparr>)) = []"
proof -
  let ?s = "\<lparr>write_jobs = [ab_job], store = empty_store, to_peer = [], job_log = []\<rparr>"
  have h: "handle_fs plain_io (\<lambda>_. None) False (CreateDir ''/d'' 7) ?s
      = Some (?s\<lparr>to_peer := [DoneMsg 7 0], store := mkdir_all ''/d'' empty_store\<rparr>)"
    by (simp add: create_dir_def empty_store_def handle_result_def send_raw_def)
  from commands_isolated[OF h, of 8] show ?thesis by (simp add: jobs_of_def ab_job_def new_write_def)
qed

section \<open>Witnesses\<close>

text \<open>An environment whose digests survive, for one digest.\<close>

definition honest_digest :: file_digest where "honest_digest = \<lparr>digest_size = 2, digest_modified = 5\<rparr>"

definition digest_io :: io_env where
  "digest_io = plain_io\<lparr>parse_digest := (\<lambda>_. Some honest_digest)\<rparr>"

lemma digest_io_simps [simp]: "writes_ok digest_io" "parse_digest digest_io x = Some honest_digest" "digest_json digest_io y = [1]"
  by (simp_all add: digest_io_def plain_io_def writes_ok_def)

definition source_digest :: digest_msg where "source_digest = plain_digest 7 0 2 5"


definition later_store :: filesystem where
  "later_store = empty_store\<lparr>links := [''/d/b.download'' \<mapsto> 0, ''/d/b.digest'' \<mapsto> 1], inodes := [([1], 5), ([1], 6)]\<rparr>"

theorem later_resume_truncates_witness:
  "let (j', w') = write_blocks digest_io [block_of 1 [2]] (ab_job, later_store)
   in entry_at (modify_time j' w') ''/d/b'' = Some ([2], 6)"
proof -
  have n: "1 < length ab" "target ''/d'' (ab ! 1) = ''/d/b''" "modified_time (ab ! 1) = 6" "file_num ab_job \<noteq> int 1"
    using ab_job_ok by (simp_all add: ab_def store_names)
  have s: "store_ok later_store" "ready later_store ''/d'' (ab ! 1)"
    "entry_at later_store (download_of (target ''/d'' (ab ! 1))) = Some ([1], 5)"
    "map_option fst (entry_at later_store (digest_of (target ''/d'' (ab ! 1)))) = Some [1]"
    by (auto simp: store_ok_def later_store_def empty_store_def ready_def ab_def store_names entry_at_def download_of_def digest_of_def split: if_splits)
  have "\<exists>d' u. is_write_need_confirmation digest_io (\<lambda>_. None) True (target ''/d'' (ab ! 1)) (plain_digest 7 1 2 5) later_store = Inr (NeedConfirm d')
    \<and> overwrite_choice (ab_job\<lparr>is_resume := True\<rparr>) d' = Some (OffsetBlk u) \<and> unat u = length ([1] :: bytes)
    \<and> confirm digest_io (answer d' (OffsetBlk u)) (ab_job, later_store) = Some (ab_job, later_store)
    \<and> (let (j', w') = write_blocks digest_io [block_of 1 [2]] (ab_job, later_store)
       in entry_at (modify_time j' w') (target ''/d'' (ab ! 1)) = Some (drop (length ([1] :: bytes)) [1, 2], unat (modified_time (ab ! 1))))"
    by (rule later_resume_truncates[OF s(1) ab_job_ok(1) n(1) s(2) _ n(4) _ _ s(3), of _ _ _ honest_digest])
      (use s(4) in \<open>simp_all add: honest_digest_def plain_digest_def\<close>)
  then show ?thesis unfolding n(2,3) by auto
qed

end
