(* ===== verification/Directory_Tree.thy ===== *)
theory Directory_Tree
  imports Transfer_Receiver
begin

text \<open>
  Folders of \<open>libs/hbb_common/src/fs.rs\<close>: listing a folder, listing everything below it for a transfer,
  listing its empty directories, and removing what holds no file; with the commands of
  \<open>ui_cm_interface.rs\<close> that use them. A folder is a tree whose directories say what the process may do
  in them; the order of the children is the order the system lists them in.
\<close>

section \<open>Trees\<close>

text \<open>A name that is not UTF-8 is \<^const>\<open>None\<close>. Times are in seconds from the epoch, and may be before it. A link
  leads to a directory or not; the special nodes are pipes, sockets and devices.\<close>

record access =
  may_list :: bool
  may_search :: bool
  may_write :: bool

datatype node =
    FileNode bytes int
  | DirNode access int "(string option \<times> node) list"
  | LinkNode bool int
  | SpecialNode int

lemma node_induct [case_names File Directory Link Special]:
  "(\<And>c t. P (FileNode c t)) \<Longrightarrow> (\<And>a t cs. (\<And>nm nd. (nm, nd) \<in> set cs \<Longrightarrow> P nd) \<Longrightarrow> P (DirNode a t cs)) \<Longrightarrow>
   (\<And>d t. P (LinkNode d t)) \<Longrightarrow> (\<And>t. P (SpecialNode t)) \<Longrightarrow> P nd"
  by induction_schema (pat_completeness, lexicographic_order)

definition secs_since_epoch :: "int \<Rightarrow> u64" where
  "secs_since_epoch t = word_of_nat (nat t)"

definition dir_entry :: "bool \<Rightarrow> string option \<times> node \<Rightarrow> file_entry option" where
  "dir_entry include_hidden = (\<lambda>(nm, nd).
    (case nm of
       None \<Rightarrow> None
     | Some n \<Rightarrow>
         if n = [] then None
         else if starts_with n ''.'' \<and> \<not> include_hidden then None
         else
           Some (let (k, sz, t) =
             (case nd of
                DirNode _ t _ \<Rightarrow> (Dir, 0, t)
              | LinkNode d t \<Rightarrow> (if d then DirLink else FileLink, 0, t)
              | FileNode c t \<Rightarrow> (RegularFile, word_of_nat (length c), t)
              | SpecialNode t \<Rightarrow> (RegularFile, 0, t))
             in \<lparr>entry_kind = k, entry_name = n, is_hidden = starts_with n ''.'', entry_size = sz,
                 modified_time = secs_since_epoch t\<rparr>)))"

text \<open>\<open>read_dir\<close>: entries without a readable name or without metadata are left out.\<close>

definition read_dir :: "bool \<Rightarrow> node \<Rightarrow> string + file_entry list" where
  "read_dir include_hidden nd =
    (case nd of
       DirNode a t cs \<Rightarrow>
         if may_list a then Inr (if may_search a then List.map_filter (dir_entry include_hidden) cs else [])
         else Inl ''Permission denied''
     | _ \<Rightarrow> Inl ''Not a directory'')"

section \<open>Listing\<close>

definition marker :: "string \<Rightarrow> file_entry" where
  "marker name = \<lparr>entry_kind = Dir, entry_name = name @ ''/'', is_hidden = False, entry_size = 0, modified_time = 0\<rparr>"

fun read_dir_recursive :: "bool \<Rightarrow> string \<Rightarrow> node \<Rightarrow> string + file_entry list" where
  "read_dir_recursive h pre (DirNode a t cs) =
    (if \<not> may_list a then Inl ''Permission denied''
     else Inr (concat (map (\<lambda>(nm, nd).
       (case if may_search a then dir_entry h (nm, nd) else None of
          None \<Rightarrow> []
        | Some e \<Rightarrow>
            (case entry_kind e of
               RegularFile \<Rightarrow> [e\<lparr>entry_name := path_join pre (entry_name e)\<rparr>]
             | Dir \<Rightarrow>
                 (case read_dir_recursive h (path_join pre (entry_name e)) nd of
                    Inl _ \<Rightarrow> []
                  | Inr tmp \<Rightarrow> if tmp = [] then [marker (path_join pre (entry_name e))] else tmp)
             | _ \<Rightarrow> []))) cs)))"
| "read_dir_recursive h pre (FileNode c t) =
    Inr [\<lparr>entry_kind = RegularFile, entry_name = [], is_hidden = False, entry_size = word_of_nat (length c),
          modified_time = secs_since_epoch t\<rparr>]"
| "read_dir_recursive h pre (LinkNode d t) = Inl ''Not exists''"
| "read_dir_recursive h pre (SpecialNode t) = Inl ''Not exists''"

definition get_recursive_files :: "node \<Rightarrow> bool \<Rightarrow> string + file_entry list" where
  "get_recursive_files nd include_hidden = read_dir_recursive include_hidden [] nd"

fun read_empty_dirs_recursive :: "bool \<Rightarrow> string \<Rightarrow> node \<Rightarrow> string + string list" where
  "read_empty_dirs_recursive h path (DirNode a t cs) =
    (case read_dir h (DirNode a t cs) of
       Inl err \<Rightarrow> Inl err
     | Inr entries \<Rightarrow>
         if entries = [] then Inr [path]
         else Inr (concat (map (\<lambda>(nm, nd).
           (case if may_search a then dir_entry h (nm, nd) else None of
              None \<Rightarrow> []
            | Some e \<Rightarrow>
                (case entry_kind e of
                   Dir \<Rightarrow>
                     (case read_empty_dirs_recursive h (path_join path (entry_name e)) nd of
                        Inl _ \<Rightarrow> [] | Inr tmp \<Rightarrow> tmp)
                 | _ \<Rightarrow> []))) cs)))"
| "read_empty_dirs_recursive h path (FileNode c t) = Inr []"
| "read_empty_dirs_recursive h path (LinkNode d t) = Inl ''Not exists''"
| "read_empty_dirs_recursive h path (SpecialNode t) = Inl ''Not exists''"

section \<open>Removal\<close>

text \<open>\<open>std::fs::remove_dir\<close>: \<open>pw\<close> says whether the parent directory may be changed.\<close>

definition remove_dir_node :: "bool \<Rightarrow> node \<Rightarrow> node option" where
  "remove_dir_node pw nd = (case nd of DirNode a t [] \<Rightarrow> if pw then None else Some nd | _ \<Rightarrow> Some nd)"

text \<open>\<open>now\<close> is the time a changed directory gets. An error in a child is ignored, as is one of the last removal.\<close>

fun remove_all_empty_dir :: "int \<Rightarrow> bool \<Rightarrow> node \<Rightarrow> (string + unit) \<times> node option" where
  "remove_all_empty_dir now pw (DirNode a t cs) =
    (if \<not> may_list a then (Inl ''Permission denied'', Some (DirNode a t cs))
     else
       let cs' = concat (map (\<lambda>(nm, nd).
             (case if may_search a then dir_entry True (nm, nd) else None of
                None \<Rightarrow> [(nm, nd)]
              | Some e \<Rightarrow>
                  (case entry_kind e of
                     Dir \<Rightarrow>
                       (case snd (remove_all_empty_dir now (may_write a) nd) of None \<Rightarrow> [] | Some nd' \<Rightarrow> [(nm, nd')])
                   | DirLink \<Rightarrow> if may_write a then [] else [(nm, nd)]
                   | FileLink \<Rightarrow> if may_write a then [] else [(nm, nd)]
                   | _ \<Rightarrow> [(nm, nd)]))) cs)
       in (Inr (), remove_dir_node pw (DirNode a (if length cs' = length cs then t else now) cs')))"
| "remove_all_empty_dir now pw nd = (Inl ''Not a directory'', Some nd)"

definition remove_dir :: "int \<Rightarrow> bool \<Rightarrow> bool \<Rightarrow> node \<Rightarrow> (string + unit) \<times> node option" where
  "remove_dir now pw recursive nd =
    (if recursive then remove_all_empty_dir now pw nd
     else
       (case remove_dir_node pw nd of
          None \<Rightarrow> (Inr (), None)
        | Some _ \<Rightarrow> (Inl ''cannot remove'', Some nd)))"

section \<open>Names from Windows\<close>

definition transform_windows_path :: "file_entry list \<Rightarrow> file_entry list" where
  "transform_windows_path es = map (\<lambda>e. e\<lparr>entry_name := map (\<lambda>c. if c = CHR 0x5C then CHR ''/'' else c) (entry_name e)\<rparr>) es"

section \<open>The commands of the connection manager\<close>

text \<open>\<open>resolve\<close> finds the node of a path, links followed. A directory that cannot be read is not answered.\<close>

datatype dir_reply = DirReply string "file_entry list" | EmptyDirsReply string "string list"

definition cm_read_dir :: "string \<Rightarrow> (string \<Rightarrow> node option) \<Rightarrow> string \<Rightarrow> bool \<Rightarrow> dir_reply option" where
  "cm_read_dir home resolve dir include_hidden =
    (let path = (if dir = [] then home else dir) in
     case resolve path of
       None \<Rightarrow> None
     | Some nd \<Rightarrow>
         (case read_dir include_hidden nd of
            Inl _ \<Rightarrow> None
          | Inr es \<Rightarrow> Some (DirReply path es)))"

definition cm_read_empty_dirs :: "(string \<Rightarrow> node option) \<Rightarrow> string \<Rightarrow> bool \<Rightarrow> dir_reply option" where
  "cm_read_empty_dirs resolve dir include_hidden =
    (case resolve dir of
       None \<Rightarrow> None
     | Some nd \<Rightarrow>
         (case read_empty_dirs_recursive include_hidden dir nd of
            Inl _ \<Rightarrow> None
          | Inr ds \<Rightarrow> Some (EmptyDirsReply dir ds)))"

definition cm_remove_dir :: "int \<Rightarrow> bool \<Rightarrow> int \<Rightarrow> bool \<Rightarrow> node \<Rightarrow> file_msg \<times> node option" where
  "cm_remove_dir now pw i recursive nd =
    (let (r, nd') = remove_dir now pw recursive nd
     in (case r of Inl err \<Rightarrow> ErrorMsg i err 0 | Inr _ \<Rightarrow> DoneMsg i 0, nd'))"

end
