(* ===== verification/Directory_Properties.thy ===== *)
theory Directory_Properties
  imports Directory_Tree Transfer_Properties
begin

text \<open>
  What the operations of \<open>Directory_Tree\<close> do, against the relation of what can be reached in a tree: the
  listing is complete and has no name twice, a folder arrives whole, and removal keeps every file.
\<close>

section \<open>What is below a directory\<close>

inductive reaches :: "bool \<Rightarrow> node \<Rightarrow> string list \<Rightarrow> node \<Rightarrow> bool" for h where
  here: "reaches h nd [] nd"
| down: "may_list a \<Longrightarrow> may_search a \<Longrightarrow> (Some n, c) \<in> set cs \<Longrightarrow> n \<noteq> [] \<Longrightarrow> h \<or> \<not> starts_with n ''.'' \<Longrightarrow>
    reaches h c ns nd \<Longrightarrow> reaches h (DirNode a t cs) (n # ns) nd"

inductive_simps reaches_Nil [simp]: "reaches h r [] nd"
inductive_simps reaches_dir: "reaches h (DirNode a t cs) (n # ns) nd"
inductive_simps reaches_leaf [simp]: "reaches h (FileNode c t) ns nd" "reaches h (LinkNode d t) ns nd" "reaches h (SpecialNode t) ns nd"

definition under :: "string \<Rightarrow> string list \<Rightarrow> string" where
  "under pre ns = foldl path_join pre ns"

lemma under_simps [simp]: "under pre [] = pre" "under pre (n # ns) = under (path_join pre n) ns"
  by (simp_all add: under_def)

fun is_file :: "node \<Rightarrow> bool" where
  "is_file (FileNode c t) = True"
| "is_file (SpecialNode t) = True"
| "is_file _ = False"

fun listable :: "node \<Rightarrow> bool" where
  "listable (DirNode a t cs) = may_list a"
| "listable _ = False"

text \<open>A directory that may be listed and shows neither a file nor a directory that may be listed.\<close>

definition bare :: "bool \<Rightarrow> node \<Rightarrow> bool" where
  "bare h nd \<longleftrightarrow> listable nd \<and> (\<forall>n c. reaches h nd [n] c \<longrightarrow> \<not> is_file c \<and> \<not> listable c)"

definition listed_file :: "string \<Rightarrow> string list \<Rightarrow> node \<Rightarrow> file_entry" where
  "listed_file pre ns nd =
    (let (sz, t) = (case nd of FileNode c t \<Rightarrow> (word_of_nat (length c), t) | SpecialNode t \<Rightarrow> (0, t) | _ \<Rightarrow> (0, 0)) in
     \<lparr>entry_kind = RegularFile, entry_name = under pre ns, is_hidden = ns \<noteq> [] \<and> starts_with (last ns) ''.'',
      entry_size = sz, modified_time = secs_since_epoch t\<rparr>)"

definition listing_of :: "bool \<Rightarrow> string \<Rightarrow> node \<Rightarrow> file_entry set" where
  "listing_of h pre r =
    {listed_file pre ns nd | ns nd. reaches h r ns nd \<and> ns \<noteq> [] \<and> is_file nd} \<union>
    {marker (under pre ns) | ns nd. reaches h r ns nd \<and> ns \<noteq> [] \<and> bare h nd}"

definition child_items :: "bool \<Rightarrow> access \<Rightarrow> string \<Rightarrow> string option \<times> node \<Rightarrow> file_entry list" where
  "child_items h a pre = (\<lambda>(nm, nd).
     (case if may_search a then dir_entry h (nm, nd) else None of
        None \<Rightarrow> []
      | Some e \<Rightarrow>
          (case entry_kind e of
             RegularFile \<Rightarrow> [e\<lparr>entry_name := path_join pre (entry_name e)\<rparr>]
           | Dir \<Rightarrow>
               (case read_dir_recursive h (path_join pre (entry_name e)) nd of
                  Inl _ \<Rightarrow> []
                | Inr tmp \<Rightarrow> if tmp = [] then [marker (path_join pre (entry_name e))] else tmp)
           | _ \<Rightarrow> [])))"

lemma listing_children:
  "read_dir_recursive h pre (DirNode a t cs) =
    (if may_list a then Inr (concat (map (child_items h a pre) cs)) else Inl ''Permission denied'')"
  by (simp add: child_items_def cong: map_cong)

declare read_dir_recursive.simps(1) [simp del]

text \<open>Whether a name is shown.\<close>

definition shown :: "bool \<Rightarrow> access \<Rightarrow> string option \<Rightarrow> bool" where
  "shown h a nm \<longleftrightarrow> may_search a \<and> nm \<noteq> None \<and> nm \<noteq> Some [] \<and> (h \<or> \<not> starts_with (the nm) ''.'')"

lemma reaches_child:
  "reaches h (DirNode a t cs) (n # ns) x \<longleftrightarrow>
    may_list a \<and> shown h a (Some n) \<and> (\<exists>c. (Some n, c) \<in> set cs \<and> reaches h c ns x)"
  by (auto simp: reaches_dir shown_def)

lemma dir_entry_shown:
  "(if may_search a then dir_entry h (nm, nd) else None) = (if shown h a nm then dir_entry True (nm, nd) else None)"
  by (cases nm) (simp_all add: dir_entry_def shown_def Let_def)

lemma dir_entry_kinds:
  assumes "n \<noteq> []"
  shows "dir_entry True (Some n, FileNode c t) =
      Some \<lparr>entry_kind = RegularFile, entry_name = n, is_hidden = starts_with n ''.'', entry_size = word_of_nat (length c),
            modified_time = secs_since_epoch t\<rparr>"
    "dir_entry True (Some n, SpecialNode t) =
      Some \<lparr>entry_kind = RegularFile, entry_name = n, is_hidden = starts_with n ''.'', entry_size = 0,
            modified_time = secs_since_epoch t\<rparr>"
    "dir_entry True (Some n, DirNode a t cs) =
      Some \<lparr>entry_kind = Dir, entry_name = n, is_hidden = starts_with n ''.'', entry_size = 0, modified_time = secs_since_epoch t\<rparr>"
    "dir_entry True (Some n, LinkNode d t) =
      Some \<lparr>entry_kind = (if d then DirLink else FileLink), entry_name = n, is_hidden = starts_with n ''.'', entry_size = 0,
            modified_time = secs_since_epoch t\<rparr>"
  using assms by (simp_all add: dir_entry_def)

lemma shown_Some: "shown h a (Some n) \<Longrightarrow> n \<noteq> []"
  by (simp add: shown_def)

lemma child_items_simps:
  "\<not> shown h a nm \<Longrightarrow> child_items h a pre (nm, nd) = []"
  "shown h a (Some n) \<Longrightarrow> child_items h a pre (Some n, FileNode c t) = [listed_file pre [n] (FileNode c t)]"
  "shown h a (Some n) \<Longrightarrow> child_items h a pre (Some n, SpecialNode t) = [listed_file pre [n] (SpecialNode t)]"
  "child_items h a pre (Some n, LinkNode d t) = []"
  "shown h a (Some n) \<Longrightarrow> child_items h a pre (Some n, DirNode b t cs) =
    (case read_dir_recursive h (path_join pre n) (DirNode b t cs) of
       Inl _ \<Rightarrow> [] | Inr tmp \<Rightarrow> if tmp = [] then [marker (path_join pre n)] else tmp)"
  unfolding child_items_def dir_entry_shown
  by (auto simp: dir_entry_kinds shown_Some listed_file_def split: option.split sum.split)

lemma listing_kinds:
  "(\<exists>e. read_dir_recursive h pre (DirNode a t cs) = Inl e) \<longleftrightarrow> \<not> may_list a"
  by (simp add: listing_children)

lemma child_items_Nil:
  "child_items h a pre (nm, nd) = [] \<longleftrightarrow> \<not> shown h a nm \<or> \<not> is_file nd \<and> \<not> listable nd"
proof (cases "shown h a nm")
  case True
  then obtain n where n: "nm = Some n" by (auto simp: shown_def)
  with True show ?thesis
    by (cases nd) (auto simp: child_items_simps listing_children split: if_splits)
qed (simp add: child_items_simps)

lemma listing_Nil: "read_dir_recursive h pre (DirNode a t cs) = Inr [] \<longleftrightarrow> bare h (DirNode a t cs)"
proof (cases "may_list a")
  case True
  have "bare h (DirNode a t cs) \<longleftrightarrow> (\<forall>(nm, nd) \<in> set cs. \<not> shown h a nm \<or> \<not> is_file nd \<and> \<not> listable nd)"
    using True by (fastforce simp: bare_def reaches_child shown_def)
  then show ?thesis using True child_items_Nil[of h a pre] by (auto simp: listing_children)
qed (simp add: listing_children bare_def)

text \<open>What a child adds to the listing.\<close>

definition child_listing :: "bool \<Rightarrow> string \<Rightarrow> string \<Rightarrow> node \<Rightarrow> file_entry set" where
  "child_listing h pre n nd =
    {listed_file pre (n # ns) x | ns x. reaches h nd ns x \<and> is_file x} \<union>
    {marker (under pre (n # ns)) | ns x. reaches h nd ns x \<and> bare h x}"

lemma bare_not_file: "bare h nd \<Longrightarrow> \<not> is_file nd" by (cases nd) (simp_all add: bare_def)
lemma bare_listable: "bare h nd \<Longrightarrow> listable nd" by (simp add: bare_def)

lemma listed_file_under: "ns \<noteq> [] \<Longrightarrow> listed_file pre (n # ns) x = listed_file (path_join pre n) ns x"
  by (simp add: listed_file_def)

lemma child_listing_split:
  "child_listing h pre n nd =
    (if is_file nd then {listed_file pre [n] nd} else {}) \<union> (if bare h nd then {marker (path_join pre n)} else {}) \<union>
    listing_of h (path_join pre n) nd"
proof -
  have "(\<exists>ns x. y = f ns x \<and> reaches h nd ns x \<and> P x) \<longleftrightarrow>
      (y = f [] nd \<and> P nd) \<or> (\<exists>ns x. y = f ns x \<and> reaches h nd ns x \<and> ns \<noteq> [] \<and> P x)" for y :: file_entry and f P
    by (metis reaches_Nil)
  note s = this
  have a: "{listed_file pre (n # ns) x | ns x. reaches h nd ns x \<and> is_file x} =
      (if is_file nd then {listed_file pre [n] nd} else {}) \<union>
      {listed_file (path_join pre n) ns x | ns x. reaches h nd ns x \<and> ns \<noteq> [] \<and> is_file x}"
  proof -
    have "(\<exists>ns x. y = listed_file pre (n # ns) x \<and> reaches h nd ns x \<and> ns \<noteq> [] \<and> is_file x) \<longleftrightarrow>
        (\<exists>ns x. y = listed_file (path_join pre n) ns x \<and> reaches h nd ns x \<and> ns \<noteq> [] \<and> is_file x)" for y
      by (metis listed_file_under)
    then show ?thesis unfolding s by auto
  qed
  have b: "{marker (under pre (n # ns)) | ns x. reaches h nd ns x \<and> bare h x} =
      (if bare h nd then {marker (path_join pre n)} else {}) \<union>
      {marker (under (path_join pre n) ns) | ns x. reaches h nd ns x \<and> ns \<noteq> [] \<and> bare h x}"
    unfolding s by auto
  show ?thesis unfolding child_listing_def listing_of_def a b by blast
qed

lemma not_listable: "\<not> listable nd \<Longrightarrow> ns \<noteq> [] \<Longrightarrow> \<not> reaches h nd ns x"
  by (cases ns; cases nd) (auto simp: reaches_child)

lemma child_items_if:
  assumes "\<And>n tmp b u ds. nd = DirNode b u ds \<Longrightarrow> read_dir_recursive h (path_join pre n) nd = Inr tmp \<Longrightarrow>
    set tmp = listing_of h (path_join pre n) nd"
  shows "set (child_items h a pre (nm, nd)) = (if shown h a nm then child_listing h pre (the nm) nd else {})"
proof (cases "shown h a nm")
  case True
  then obtain n where n: "nm = Some n" by (auto simp: shown_def)
  show ?thesis
  proof (cases nd)
    case (DirNode b u ds)
    show ?thesis
    proof (cases "may_list b")
      case lb: True
      then obtain tmp where tmp: "read_dir_recursive h (path_join pre n) (DirNode b u ds) = Inr tmp"
        by (simp add: listing_children)
      have s: "set tmp = listing_of h (path_join pre n) (DirNode b u ds)" using assms[OF DirNode] tmp DirNode by blast
      have "tmp = [] \<longleftrightarrow> bare h (DirNode b u ds)" using listing_Nil[of h "path_join pre n" b u ds] tmp by auto
      then show ?thesis using True s tmp
        by (auto simp: n DirNode child_items_simps child_listing_split)
    next
      case nb: False
      then have "listing_of h (path_join pre n) (DirNode b u ds) = {}" "\<not> bare h (DirNode b u ds)"
        using not_listable[of "DirNode b u ds"] by (auto simp: listing_of_def bare_def)
      then show ?thesis using True nb by (simp add: n DirNode child_items_simps child_listing_split listing_children)
    qed
  qed (use True in \<open>auto simp: n child_items_simps child_listing_split listing_of_def bare_def\<close>)
qed (simp add: child_items_simps)

lemma listing_set:
  "read_dir_recursive h pre (DirNode a t cs) = Inr fs \<Longrightarrow> set fs = listing_of h pre (DirNode a t cs)"
proof (induction "DirNode a t cs" arbitrary: pre a t cs fs rule: node_induct)
  case (Directory a t cs)
  have l: "may_list a" "fs = concat (map (child_items h a pre) cs)"
    using Directory.prems by (simp_all add: listing_children split: if_splits)
  have c: "set (child_items h a pre (nm, nd)) = (if shown h a nm then child_listing h pre (the nm) nd else {})"
    if m: "(nm, nd) \<in> set cs" for nm nd
    by (rule child_items_if) (use Directory.hyps m in blast)
  have "set fs = (\<Union>(nm, nd) \<in> set cs. if shown h a nm then child_listing h pre (the nm) nd else {})"
    unfolding l(2) using c by auto
  also have "\<dots> = listing_of h pre (DirNode a t cs)"
  proof -
    have "x \<in> listing_of h pre (DirNode a t cs) \<longleftrightarrow>
        (\<exists>n nd. (Some n, nd) \<in> set cs \<and> shown h a (Some n) \<and> x \<in> child_listing h pre n nd)" for x
    proof -
      have e: "(\<exists>ns y. Q ns y \<and> reaches h (DirNode a t cs) ns y \<and> ns \<noteq> [] \<and> P y) \<longleftrightarrow>
        (\<exists>n nd. (Some n, nd) \<in> set cs \<and> shown h a (Some n) \<and> (\<exists>ns y. Q (n # ns) y \<and> reaches h nd ns y \<and> P y))" for Q P
      proof -
        have "(\<exists>ns y. Q ns y \<and> reaches h (DirNode a t cs) ns y \<and> ns \<noteq> [] \<and> P y) \<longleftrightarrow>
            (\<exists>n ns y. Q (n # ns) y \<and> reaches h (DirNode a t cs) (n # ns) y \<and> P y)"
          by (metis list.distinct(1) neq_Nil_conv)
        then show ?thesis unfolding reaches_child using l(1) by blast
      qed
      show ?thesis unfolding listing_of_def child_listing_def Un_iff mem_Collect_eq e by blast
    qed
    note r = this
    have "shown h a nm \<Longrightarrow> nm = Some (the nm)" for nm by (auto simp: shown_def)
    then have o: "(\<exists>nm nd. (nm, nd) \<in> set cs \<and> shown h a nm \<and> x \<in> child_listing h pre (the nm) nd) \<longleftrightarrow>
        (\<exists>n nd. (Some n, nd) \<in> set cs \<and> shown h a (Some n) \<and> x \<in> child_listing h pre n nd)" for x
      by (metis option.sel)
    have "x \<in> (\<Union>(nm, nd) \<in> set cs. if shown h a nm then child_listing h pre (the nm) nd else {}) \<longleftrightarrow>
        (\<exists>nm nd. (nm, nd) \<in> set cs \<and> shown h a nm \<and> x \<in> child_listing h pre (the nm) nd)" for x
      by (fastforce split: if_splits)
    then show ?thesis unfolding o r[symmetric] by blast
  qed
  finally show ?case .
qed

lemma child_items_set:
  "set (child_items h a pre (nm, nd)) = (if shown h a nm then child_listing h pre (the nm) nd else {})"
  by (rule child_items_if) (use listing_set in blast)

section \<open>Names of paths\<close>

definition clean_name :: "string \<Rightarrow> bool" where
  "clean_name n \<longleftrightarrow> n \<noteq> [] \<and> CHR ''/'' \<notin> set n"

definition segments :: "string list \<Rightarrow> string" where
  "segments ns = concat (map (\<lambda>n. ''/'' @ n) ns)"

definition lead :: "string \<Rightarrow> string" where
  "lead pre = (if pre = [] \<or> last pre = CHR ''/'' then pre else pre @ ''/'')"

lemma segments_simps [simp]: "segments [] = []" "segments (n # ns) = ''/'' @ n @ segments ns"
  by (simp_all add: segments_def)

lemma path_join_clean: "clean_name n \<Longrightarrow> path_join pre n = lead pre @ n"
  by (cases n) (auto simp: path_join_def clean_name_def lead_def starts_with_def)

lemma under_append: "under pre (ns @ ms) = under (under pre ns) ms"
  by (simp add: under_def)

lemma last_clean: "clean_name n \<Longrightarrow> last n \<noteq> CHR ''/''"
  unfolding clean_name_def by (metis last_in_set)

lemma under_segments: "list_all clean_name (n # ns) \<Longrightarrow> under pre (n # ns) = lead pre @ n @ segments ns"
proof (induction ns arbitrary: n pre)
  case (Cons m ns)
  have n: "clean_name n" using Cons.prems by simp
  have "lead (path_join pre n) = lead pre @ n @ ''/''"
    using last_clean[OF n] n by (simp add: path_join_clean lead_def clean_name_def)
  moreover have "under (path_join pre n) (m # ns) = lead (path_join pre n) @ m @ segments ns"
    by (rule Cons.IH) (use Cons.prems in simp)
  ultimately show ?case unfolding under_simps(2)[of pre n "m # ns"] by simp
qed (simp add: path_join_clean)

lemma segments_Nil [simp]: "segments ns = [] \<longleftrightarrow> ns = []"
  by (cases ns) simp_all

lemma last_segments: "list_all clean_name ns \<Longrightarrow> ns \<noteq> [] \<Longrightarrow> last (segments ns) \<noteq> CHR ''/''"
  by (induction ns) (auto simp: last_append last_clean clean_name_def)

lemma last_under: "list_all clean_name ns \<Longrightarrow> ns \<noteq> [] \<Longrightarrow> last (under pre ns) \<noteq> CHR ''/'' \<and> under pre ns \<noteq> []"
proof (cases ns)
  case (Cons n ms)
  moreover assume "list_all clean_name ns"
  ultimately show ?thesis using under_segments[of n ms pre] last_segments[of ms] last_clean[of n]
    by (auto simp: last_append clean_name_def)
qed simp

lemma segments_start: "segments ns = [] \<or> (\<exists>s. segments ns = CHR ''/'' # s)"
  by (cases ns) simp_all

lemma name_split:
  assumes "n @ s = m @ s'" "CHR ''/'' \<notin> set n" "CHR ''/'' \<notin> set m"
    and "s = [] \<or> hd s = CHR ''/''" "s' = [] \<or> hd s' = CHR ''/''"
  shows "n = m \<and> s = s'"
proof -
  have t: "takeWhile (\<lambda>c. c \<noteq> CHR ''/'') (x @ y) = x" if "CHR ''/'' \<notin> set x" "y = [] \<or> hd y = CHR ''/''" for x y
    using that by (cases y) (auto simp: takeWhile_append)
  have "n = takeWhile (\<lambda>c. c \<noteq> CHR ''/'') (n @ s)" using t[OF assms(2,4)] by (rule sym)
  also have "\<dots> = m" unfolding assms(1) by (rule t[OF assms(3,5)])
  finally show ?thesis using assms(1) by simp
qed

lemma segments_inject: "list_all clean_name ns \<Longrightarrow> list_all clean_name ms \<Longrightarrow> segments ns = segments ms \<Longrightarrow> ns = ms"
proof (induction ns arbitrary: ms)
  case Nil
  then show ?case by (cases ms) simp_all
next
  case (Cons n ns)
  then obtain m ms' where ms: "ms = m # ms'" by (cases ms) simp_all
  have "n @ segments ns = m @ segments ms'" using Cons.prems by (simp add: ms)
  from name_split[OF this] Cons.prems have "n = m" "segments ns = segments ms'"
    using segments_start[of ns] segments_start[of ms'] by (auto simp: ms clean_name_def)
  with Cons show ?case by (simp add: ms)
qed

lemma under_inject:
  assumes "list_all clean_name ns" "list_all clean_name ms" "ns \<noteq> []" "ms \<noteq> []" "under pre ns = under pre ms"
  shows "ns = ms"
proof -
  obtain n ns' m ms' where s: "ns = n # ns'" "ms = m # ms'" using assms(3,4) by (metis neq_Nil_conv)
  have "segments ns = segments ms"
    using assms under_segments[of n ns' pre] under_segments[of m ms' pre] by (simp add: s)
  with segments_inject assms(1,2) show ?thesis by blast
qed

fun names_ok :: "node \<Rightarrow> bool" where
  "names_ok (DirNode a t cs) \<longleftrightarrow>
    distinct (List.map_filter fst cs) \<and> list_all (\<lambda>(nm, nd). (\<forall>n. nm = Some n \<longrightarrow> clean_name n) \<and> names_ok nd) cs"
| "names_ok _ \<longleftrightarrow> True"

lemma names_ok_child: "names_ok (DirNode a t cs) \<Longrightarrow> (nm, nd) \<in> set cs \<Longrightarrow> names_ok nd \<and> (\<forall>n. nm = Some n \<longrightarrow> clean_name n)"
  by (auto simp: list_all_iff)

lemma reaches_clean: "reaches h r ns x \<Longrightarrow> names_ok r \<Longrightarrow> list_all clean_name ns \<and> names_ok x"
proof (induction rule: reaches.induct)
  case (down a n c cs ns nd t)
  from names_ok_child[OF down.prems down.hyps(3)] down.IH show ?case by simp
qed simp

section \<open>No name twice\<close>

lemma distinct_concat_keyed:
  assumes "\<And>x. x \<in> set xs \<Longrightarrow> distinct (f x)"
    and "\<And>x y z. x \<in> set xs \<Longrightarrow> y \<in> set xs \<Longrightarrow> z \<in> set (f x) \<Longrightarrow> z \<in> set (f y) \<Longrightarrow> k x \<noteq> None \<and> k x = k y"
    and "distinct (List.map_filter k xs)"
  shows "distinct (concat (map f xs))"
  using assms
proof (induction xs)
  case (Cons x xs)
  have "set (f x) \<inter> set (concat (map f xs)) = {}"
  proof (rule ccontr)
    assume "set (f x) \<inter> set (concat (map f xs)) \<noteq> {}"
    then obtain y z where y: "y \<in> set xs" "z \<in> set (f x)" "z \<in> set (f y)" by auto
    have "k x \<noteq> None \<and> k x = k y" by (rule Cons.prems(2)[of x y z]) (use y in auto)
    then obtain w where w: "k x = Some w" "k y = Some w" by (metis not_None_eq)
    have "k y \<noteq> None" by (simp add: w(2))
    then have "w \<in> set (List.map_filter k xs)" using y(1) w(2) unfolding List.map_filter_def set_map set_filter
      by (intro image_eqI[of _ _ y]) auto
    with Cons.prems(3) w show False by (simp add: List.map_filter_simps)
  qed
  moreover have "distinct (List.map_filter k xs)" using Cons.prems(3) by (cases "k x") (simp_all add: List.map_filter_simps)
  moreover have "distinct (f y)" if "y \<in> set xs" for y by (rule Cons.prems(1)) (use that in simp)
  moreover have "k y \<noteq> None \<and> k y = k z" if "y \<in> set xs" "z \<in> set xs" "w \<in> set (f y)" "w \<in> set (f z)" for y z w
    by (rule Cons.prems(2)[of y z w]) (use that in auto)
  ultimately have "distinct (concat (map f xs))" "set (f x) \<inter> set (concat (map f xs)) = {}" using Cons.IH by blast+
  then show ?case using Cons.prems(1) by simp
qed simp

lemma marker_name [simp]: "entry_name (marker p) = p @ ''/''" by (simp add: marker_def)
lemma listed_name [simp]: "entry_name (listed_file pre ns x) = under pre ns"
  by (simp add: listed_file_def split: prod.split)

lemma child_listing_names:
  assumes "e \<in> child_listing h pre n nd" "names_ok nd" "clean_name n"
  shows "\<exists>ns. list_all clean_name (n # ns) \<and> (entry_name e = under pre (n # ns) \<or> entry_name e = under pre (n # ns) @ ''/'')"
  using assms(1) reaches_clean[OF _ assms(2)] assms(3) unfolding child_listing_def by fastforce

lemma child_names_key:
  assumes "s = under pre (n # ns) \<or> s = under pre (n # ns) @ ''/''" "s = under pre (m # ms) \<or> s = under pre (m # ms) @ ''/''"
    and "list_all clean_name (n # ns)" "list_all clean_name (m # ms)"
  shows "n = m"
proof -
  note a = last_under[OF assms(3), of pre] and b = last_under[OF assms(4), of pre]
  have "under pre (n # ns) = under pre (m # ms)"
    using assms(1,2) a b by (metis append_butlast_last_id butlast_snoc last_snoc list.distinct(1))
  from under_inject[OF assms(3,4) _ _ this] show ?thesis by simp
qed

lemma listing_distinct:
  "read_dir_recursive h pre nd = Inr fs \<Longrightarrow> names_ok nd \<Longrightarrow> distinct (map entry_name fs)"
proof (induction nd arbitrary: pre fs rule: node_induct)
  case (Directory a t cs)
  have l: "may_list a" "fs = concat (map (child_items h a pre) cs)"
    using Directory.prems by (simp_all add: listing_children split: if_splits)
  have d: "distinct (map entry_name (child_items h a pre (nm, nd)))" if m: "(nm, nd) \<in> set cs" for nm nd
  proof (cases "shown h a nm")
    case True
    then obtain n where n: "nm = Some n" by (auto simp: shown_def)
    have ok: "names_ok nd" using names_ok_child[OF Directory.prems(2) m] by simp
    show ?thesis
    proof (cases nd)
      case (DirNode b u ds)
      show ?thesis using Directory.IH[OF m _ ok, of "path_join pre n"] True
        by (auto simp: n DirNode child_items_simps split: sum.split)
    qed (use True in \<open>simp_all add: n child_items_simps\<close>)
  qed (simp add: child_items_simps)
  have "distinct (concat (map (\<lambda>x. map entry_name (child_items h a pre x)) cs))"
  proof (rule distinct_concat_keyed[of _ _ fst])
    show "distinct (List.map_filter fst cs)" using Directory.prems(2) by simp
    fix x y z assume x: "x \<in> set cs" "z \<in> set (map entry_name (child_items h a pre x))"
      and y: "y \<in> set cs" "z \<in> set (map entry_name (child_items h a pre y))"
    have k: "\<exists>n ns. fst x = Some n \<and> list_all clean_name (n # ns) \<and> (z = under pre (n # ns) \<or> z = under pre (n # ns) @ ''/'')"
      if "x \<in> set cs" "z \<in> set (map entry_name (child_items h a pre x))" for x
    proof -
      obtain nm nd where p: "x = (nm, nd)" by force
      from that(2) obtain e where e: "e \<in> set (child_items h a pre (nm, nd))" "z = entry_name e" unfolding p by auto
      have s: "shown h a nm" "e \<in> child_listing h pre (the nm) nd"
        using e(1) unfolding child_items_set by (simp_all split: if_splits)
      then obtain n where n: "nm = Some n" by (auto simp: shown_def)
      have c: "names_ok nd" "clean_name n" using names_ok_child[OF Directory.prems(2)] that(1) by (auto simp: p n)
      from child_listing_names[OF s(2)[unfolded n option.sel] c] show ?thesis by (auto simp: p n e(2))
    qed
    obtain n ns where n: "fst x = Some n" "list_all clean_name (n # ns)" "z = under pre (n # ns) \<or> z = under pre (n # ns) @ ''/''"
      using k[OF x] by blast
    obtain m ms where m: "fst y = Some m" "list_all clean_name (m # ms)" "z = under pre (m # ms) \<or> z = under pre (m # ms) @ ''/''"
      using k[OF y] by blast
    show "fst x \<noteq> None \<and> fst x = fst y" using child_names_key[OF n(3) m(3) n(2) m(2)] n(1) m(1) by simp
  qed (use d in auto)
  then show ?case by (simp add: l(2) map_concat comp_def)
qed simp_all

section \<open>Directories are represented\<close>

lemma reaches_append: "reaches h r ns d \<Longrightarrow> reaches h d ms x \<Longrightarrow> reaches h r (ns @ ms) x"
  by (induction rule: reaches.induct) (auto intro: reaches.intros)

lemma directory_kept:
  assumes "names_ok r" "reaches h r ns d" "ns \<noteq> []" "listable d"
  shows "\<exists>e \<in> listing_of h pre r. starts_with (entry_name e) (under pre ns @ ''/'')"
  using assms
proof (induction d arbitrary: ns rule: node_induct)
  case (Directory a t cs)
  note cl = reaches_clean[OF Directory.prems(2,1)]
  have lead: "lead (under pre ns) = under pre ns @ ''/''" using last_under[of ns pre] cl Directory.prems(3) by (simp add: lead_def)
  show ?case
  proof (cases "bare h (DirNode a t cs)")
    case True
    then have "marker (under pre ns) \<in> listing_of h pre r" unfolding listing_of_def using Directory.prems by blast
    then show ?thesis by (intro bexI[of _ "marker (under pre ns)"]) (simp_all add: starts_with_def)
  next
    case False
    then obtain n c where c: "reaches h (DirNode a t cs) [n] c" "is_file c \<or> listable c"
      using Directory.prems(4) by (auto simp: bare_def)
    have r: "reaches h r (ns @ [n]) c" by (rule reaches_append[OF Directory.prems(2) c(1)])
    have n: "clean_name n" "(Some n, c) \<in> set cs" using reaches_clean[OF r Directory.prems(1)] c(1) by (auto simp: reaches_child)
    have u: "under pre (ns @ [n]) = under pre ns @ ''/'' @ n" using n(1) lead by (simp add: under_append path_join_clean)
    show ?thesis
    proof (cases "is_file c")
      case True
      then have "listed_file pre (ns @ [n]) c \<in> listing_of h pre r" unfolding listing_of_def using r by blast
      then show ?thesis by (rule bexI[rotated]) (simp add: u starts_with_conv)
    next
      case False
      with Directory.IH[OF n(2) Directory.prems(1) r] c(2) show ?thesis by (auto simp: u starts_with_conv)
    qed
  qed
qed simp_all

text \<open>
  C17. What is sent of a folder: the listing has every file below it that is shown, under its path from the
  folder and with its size and time, a marker for every directory that shows neither a file nor a
  directory that can be listed, and nothing else; no name is listed twice; and every directory below
  that can be listed is either marked or on the path of something that is listed, so the receiver makes it.
\<close>

theorem listing_complete:
  assumes "get_recursive_files (DirNode a t cs) h = Inr fs" "names_ok (DirNode a t cs)"
  shows "set fs = listing_of h [] (DirNode a t cs) \<and> distinct (map entry_name fs)
    \<and> (\<forall>ns d. reaches h (DirNode a t cs) ns d \<and> ns \<noteq> [] \<and> listable d \<longrightarrow>
        (\<exists>e \<in> set fs. starts_with (entry_name e) (under [] ns @ ''/'')))"
proof -
  have r: "read_dir_recursive h [] (DirNode a t cs) = Inr fs" using assms(1) by (simp add: get_recursive_files_def)
  show ?thesis using listing_set[OF r] listing_distinct[OF r assms(2)] directory_kept[OF assms(2)] by metis
qed

section \<open>Empty directories\<close>

definition empty_dirs_of :: "bool \<Rightarrow> string \<Rightarrow> node \<Rightarrow> string set" where
  "empty_dirs_of h path r = {under path ns | ns d. reaches h r ns d \<and> read_dir h d = Inr []}"

lemma read_dir_Nil: "read_dir h (DirNode a t cs) = Inr [] \<longleftrightarrow> may_list a \<and> (\<forall>(nm, nd) \<in> set cs. \<not> shown h a nm)"
proof -
  have "dir_entry h (nm, nd) = None \<longleftrightarrow> \<not> (nm \<noteq> None \<and> nm \<noteq> Some [] \<and> (h \<or> \<not> starts_with (the nm) ''.''))" for nm nd
    by (cases nm) (auto simp: dir_entry_def)
  then show ?thesis by (auto simp: read_dir_def List.map_filter_def filter_empty_conv shown_def)
qed

lemma concat_pairs: "y \<in> set (concat (map f cs)) \<longleftrightarrow> (\<exists>nm nd. (nm, nd) \<in> set cs \<and> y \<in> set (f (nm, nd)))"
  by (auto simp: Bex_def)

lemma empty_dirs_set:
  "read_empty_dirs_recursive h path nd = Inr ps \<Longrightarrow> set ps = empty_dirs_of h path nd"
proof (induction nd arbitrary: path ps rule: node_induct)
  case (Directory a t cs)
  have l: "may_list a" using Directory.prems by (simp add: read_dir_def split: if_splits)
  then obtain es where es: "read_dir h (DirNode a t cs) = Inr es" by (simp add: read_dir_def)
  show ?case
  proof (cases "es = []")
    case True
    then have p: "ps = [path]" using Directory.prems es by simp
    have "reaches h (DirNode a t cs) ns d \<longleftrightarrow> ns = [] \<and> d = DirNode a t cs" for ns d
      using True es read_dir_Nil[of h a t cs] by (cases ns) (auto simp: reaches_child)
    then show ?thesis using True es by (auto simp: empty_dirs_of_def p)
  next
    case False
    let ?child = "\<lambda>(nm, nd). (case if may_search a then dir_entry h (nm, nd) else None of
              None \<Rightarrow> []
            | Some e \<Rightarrow>
                (case entry_kind e of
                   Dir \<Rightarrow> (case read_empty_dirs_recursive h (path_join path (entry_name e)) nd of Inl _ \<Rightarrow> [] | Inr tmp \<Rightarrow> tmp)
                 | _ \<Rightarrow> []))"
    have p: "ps = concat (map ?child cs)" using Directory.prems es False by (simp cong: map_cong)
    have c: "set (?child (nm, nd)) = (if shown h a nm then empty_dirs_of h (path_join path (the nm)) nd else {})"
      if m: "(nm, nd) \<in> set cs" for nm nd
    proof (cases "shown h a nm")
      case True
      then obtain n where n: "nm = Some n" "n \<noteq> []" by (auto simp: shown_def)
      show ?thesis
      proof (cases nd)
        case (DirNode b u ds)
        show ?thesis
        proof (cases "read_empty_dirs_recursive h (path_join path n) nd")
          case (Inl e)
          then have "\<not> may_list b" unfolding DirNode by (auto simp: read_dir_def split: if_splits)
          then have "empty_dirs_of h (path_join path n) (DirNode b u ds) = {}"
          proof -
            have "read_dir h d \<noteq> Inr []" if r: "reaches h (DirNode b u ds) ns d" for ns d
              using r \<open>\<not> may_list b\<close> by (cases ns) (auto simp: reaches_child read_dir_def)
            then show ?thesis by (auto simp: empty_dirs_of_def)
          qed
          then show ?thesis using True Inl unfolding prod.case dir_entry_shown by (simp add: n dir_entry_kinds DirNode del: read_empty_dirs_recursive.simps)
        next
          case (Inr tmp)
          from Directory.IH[OF m Inr] show ?thesis using True Inr unfolding prod.case dir_entry_shown
            by (simp add: n dir_entry_kinds DirNode del: read_empty_dirs_recursive.simps)
        qed
      qed (use True in \<open>simp_all add: dir_entry_shown n dir_entry_kinds empty_dirs_of_def read_dir_def\<close>)
    qed (simp add: dir_entry_shown)
    have "x \<in> set ps \<longleftrightarrow> (\<exists>n nd. (Some n, nd) \<in> set cs \<and> shown h a (Some n) \<and> x \<in> empty_dirs_of h (path_join path n) nd)" for x
    proof -
      have "shown h a nm \<Longrightarrow> nm = Some (the nm)" for nm by (auto simp: shown_def)
      then have o: "(\<exists>nm nd. (nm, nd) \<in> set cs \<and> shown h a nm \<and> x \<in> empty_dirs_of h (path_join path (the nm)) nd) \<longleftrightarrow>
          (\<exists>n nd. (Some n, nd) \<in> set cs \<and> shown h a (Some n) \<and> x \<in> empty_dirs_of h (path_join path n) nd)"
        by (metis option.sel)
      have "x \<in> set ps \<longleftrightarrow> (\<exists>nm nd. (nm, nd) \<in> set cs \<and> x \<in> set (?child (nm, nd)))" unfolding p concat_pairs ..
      also have "\<dots> \<longleftrightarrow> (\<exists>nm nd. (nm, nd) \<in> set cs \<and> shown h a nm \<and> x \<in> empty_dirs_of h (path_join path (the nm)) nd)"
      proof -
        have "x \<in> set (?child (nm, nd)) \<longleftrightarrow> shown h a nm \<and> x \<in> empty_dirs_of h (path_join path (the nm)) nd"
          if "(nm, nd) \<in> set cs" for nm nd unfolding c[OF that] by simp
        then show ?thesis by blast
      qed
      finally show ?thesis unfolding o .
    qed
    moreover have "x \<in> empty_dirs_of h path (DirNode a t cs) \<longleftrightarrow>
        (\<exists>n nd. (Some n, nd) \<in> set cs \<and> shown h a (Some n) \<and> x \<in> empty_dirs_of h (path_join path n) nd)" for x
    proof -
      have "(\<exists>ns d. x = under path ns \<and> reaches h (DirNode a t cs) ns d \<and> read_dir h d = Inr []) \<longleftrightarrow>
          (\<exists>n ns d. x = under path (n # ns) \<and> reaches h (DirNode a t cs) (n # ns) d \<and> read_dir h d = Inr [])"
        using False es by (metis neq_Nil_conv reaches_Nil sum.inject(2))
      then show ?thesis unfolding empty_dirs_of_def mem_Collect_eq reaches_child under_simps using l by blast
    qed
    ultimately show ?thesis by blast
  qed
qed (simp_all add: empty_dirs_of_def read_dir_def)

section \<open>Removal\<close>

inductive node_at :: "node \<Rightarrow> string option list \<Rightarrow> node \<Rightarrow> bool" where
  node_here: "node_at nd [] nd"
| node_down: "(nm, c) \<in> set cs \<Longrightarrow> node_at c p x \<Longrightarrow> node_at (DirNode a t cs) (nm # p) x"

inductive_simps node_at_Nil [simp]: "node_at r [] x"
inductive_simps node_at_dir: "node_at (DirNode a t cs) (nm # p) x"
inductive_simps node_at_leaf [simp]: "node_at (FileNode c t) p x" "node_at (LinkNode d t) p x" "node_at (SpecialNode t) p x"

definition holds_file :: "node option \<Rightarrow> string option list \<Rightarrow> node \<Rightarrow> bool" where
  "holds_file r p x \<longleftrightarrow> (\<exists>r'. r = Some r' \<and> node_at r' p x)"

definition removed_child :: "int \<Rightarrow> access \<Rightarrow> string option \<times> node \<Rightarrow> (string option \<times> node) list" where
  "removed_child now a = (\<lambda>(nm, nd).
     (case if may_search a then dir_entry True (nm, nd) else None of
        None \<Rightarrow> [(nm, nd)]
      | Some e \<Rightarrow>
          (case entry_kind e of
             Dir \<Rightarrow> (case snd (remove_all_empty_dir now (may_write a) nd) of None \<Rightarrow> [] | Some nd' \<Rightarrow> [(nm, nd')])
           | DirLink \<Rightarrow> if may_write a then [] else [(nm, nd)]
           | FileLink \<Rightarrow> if may_write a then [] else [(nm, nd)]
           | _ \<Rightarrow> [(nm, nd)])))"

lemma remove_children:
  "remove_all_empty_dir now pw (DirNode a t cs) =
    (if \<not> may_list a then (Inl ''Permission denied'', Some (DirNode a t cs))
     else
       let cs' = concat (map (removed_child now a) cs)
       in (Inr (), remove_dir_node pw (DirNode a (if length cs' = length cs then t else now) cs')))"
  by (simp add: removed_child_def cong: map_cong)

declare remove_all_empty_dir.simps(1) [simp del]

lemma removed_child_simps:
  "\<not> shown True a nm \<Longrightarrow> removed_child now a (nm, nd) = [(nm, nd)]"
  "removed_child now a (nm, FileNode c t) = [(nm, FileNode c t)]"
  "removed_child now a (nm, SpecialNode t) = [(nm, SpecialNode t)]"
  "shown True a nm \<Longrightarrow> removed_child now a (nm, LinkNode d t) = (if may_write a then [] else [(nm, LinkNode d t)])"
  "shown True a nm \<Longrightarrow> removed_child now a (nm, DirNode b t cs) =
    (case snd (remove_all_empty_dir now (may_write a) (DirNode b t cs)) of None \<Rightarrow> [] | Some nd' \<Rightarrow> [(nm, nd')])"
  unfolding removed_child_def prod.case dir_entry_shown
  by (cases "shown True a nm"; auto simp: dir_entry_kinds shown_def)+

lemma at_file_node: "is_file nd \<Longrightarrow> node_at nd p x \<longleftrightarrow> p = [] \<and> x = nd"
  by (cases nd) simp_all

lemma at_remove_dir_node: "is_file x \<Longrightarrow> holds_file (remove_dir_node pw nd) p x \<longleftrightarrow> node_at nd p x"
  by (cases nd; cases p) (auto simp: remove_dir_node_def holds_file_def node_at_dir split: list.split)

lemma files_kept:
  "is_file x \<Longrightarrow> holds_file (snd (remove_all_empty_dir now pw nd)) p x \<longleftrightarrow> node_at nd p x"
proof (induction nd arbitrary: pw p rule: node_induct)
  case (Directory a t cs)
  show ?case
  proof (cases "may_list a")
    case True
    let ?cs = "concat (map (removed_child now a) cs)"
    have k: "(\<exists>c. (nm, c) \<in> set (removed_child now a (nm', nd)) \<and> node_at c q x) \<longleftrightarrow> nm = nm' \<and> node_at nd q x"
      if m: "(nm', nd) \<in> set cs" for nm nm' nd q
    proof (cases "shown True a nm'")
      case s: True
      show ?thesis
      proof (cases nd)
        case (DirNode b u ds)
        from Directory.IH[OF m Directory.prems, of "may_write a" q] show ?thesis
          by (auto simp: DirNode removed_child_simps s holds_file_def split: option.split)
      next
        case (LinkNode d u)
        then show ?thesis using s Directory.prems by (auto simp: removed_child_simps)
      qed (auto simp: removed_child_simps)
    qed (auto simp: removed_child_simps)
    have "(\<exists>c. (nm, c) \<in> set ?cs \<and> node_at c q x) \<longleftrightarrow> (\<exists>c. (nm, c) \<in> set cs \<and> node_at c q x)" for nm q
    proof -
      have "(\<exists>c. (nm, c) \<in> set ?cs \<and> node_at c q x) \<longleftrightarrow>
          (\<exists>nm' nd. (nm', nd) \<in> set cs \<and> (\<exists>c. (nm, c) \<in> set (removed_child now a (nm', nd)) \<and> node_at c q x))"
        unfolding concat_pairs by blast
      then show ?thesis using k by metis
    qed
    then have "node_at (DirNode a u ?cs) p x \<longleftrightarrow> node_at (DirNode a t cs) p x" for u
      using Directory.prems by (cases p) (auto simp: node_at_dir)
    then show ?thesis using True by (simp add: remove_children Let_def at_remove_dir_node[OF Directory.prems])
  qed (simp add: remove_children holds_file_def)
qed (simp_all add: holds_file_def)

text \<open>Every name is readable text and every directory may be listed, searched and changed.\<close>

fun open_tree :: "node \<Rightarrow> bool" where
  "open_tree (DirNode a t cs) \<longleftrightarrow>
    may_list a \<and> may_search a \<and> may_write a \<and> list_all (\<lambda>(nm, nd). nm \<noteq> None \<and> nm \<noteq> Some [] \<and> open_tree nd) cs"
| "open_tree _ \<longleftrightarrow> True"

lemma emptied:
  assumes "open_tree (DirNode a t cs)" "node_at r p x" "snd (remove_all_empty_dir now True (DirNode a t cs)) = Some r"
  shows "\<exists>q y. node_at x q y \<and> is_file y"
  using assms
proof (induction "DirNode a t cs" arbitrary: a t cs r p x rule: node_induct)
  case (Directory a t cs)
  let ?cs = "concat (map (removed_child now a) cs)"
  have a: "may_list a" "may_search a" "may_write a" using Directory.prems(1) by simp_all
  have "\<exists>u. remove_dir_node True (DirNode a u ?cs) = Some r"
    using Directory.prems(3) a by (simp add: remove_children Let_def) blast
  moreover have "remove_dir_node True (DirNode a u ds) = Some r \<Longrightarrow> ds \<noteq> [] \<and> r = DirNode a u ds" for u ds
    by (cases ds) (simp_all add: remove_dir_node_def)
  ultimately obtain u where ne: "?cs \<noteq> []" "r = DirNode a u ?cs" by blast
  have c: "\<exists>q y. node_at x q y \<and> is_file y" if m: "(nm, c) \<in> set ?cs" "node_at c p x" for nm c p x
  proof -
    obtain nm' nd where nd: "(nm', nd) \<in> set cs" "(nm, c) \<in> set (removed_child now a (nm', nd))"
      using m(1) unfolding concat_pairs by blast
    have o: "open_tree nd" "nm' \<noteq> None" "nm' \<noteq> Some []" using Directory.prems(1) nd(1) by (auto simp: list_all_iff)
    have s: "shown True a nm'" using o a by (simp add: shown_def)
    show ?thesis
    proof (cases nd)
      case (DirNode b v ds)
      then have "snd (remove_all_empty_dir now True (DirNode b v ds)) = Some c"
        using nd(2) s a by (auto simp: removed_child_simps split: option.splits)
      from Directory.hyps[OF nd(1)[unfolded DirNode] o(1)[unfolded DirNode] m(2) this] show ?thesis .
    next
      case (LinkNode d v)
      then show ?thesis using nd(2) s a by (simp add: removed_child_simps)
    next
      case (FileNode d v)
      then have "c = FileNode d v" using nd(2) by (simp add: removed_child_simps)
      then show ?thesis using m(2) by auto
    next
      case (SpecialNode v)
      then have "c = SpecialNode v" using nd(2) by (simp add: removed_child_simps)
      then show ?thesis using m(2) by auto
    qed
  qed
  show ?case
  proof (cases p)
    case Nil
    obtain nm c where m: "(nm, c) \<in> set ?cs" using ne(1) by (metis list.set_intros(1) neq_Nil_conv surj_pair)
    from c[OF m node_here] obtain q y where "node_at c q y" "is_file y" by blast
    then have "node_at (DirNode a u ?cs) (nm # q) y" by (intro node_down[OF m])
    then show ?thesis using Directory.prems(2) Nil \<open>is_file y\<close> unfolding ne(2) by auto
  next
    case (Cons nm q)
    then obtain c' where "(nm, c') \<in> set ?cs" "node_at c' q x" using Directory.prems(2) unfolding ne(2) by (simp only: node_at_dir) blast
    from c[OF this] show ?thesis .
  qed
qed

text \<open>
  C19. Removing a directory recursively removes no file: every file, at any depth and whatever may be read
  or changed, is where it was. If all directories may be changed and all names can be read, what is left
  is only what leads to a file: no empty directory and no link. The command succeeds whenever the
  directory can be listed, whether or not it is removed.
\<close>

theorem recursive_removal:
  assumes "remove_dir now pw True (DirNode a t cs) = (res, r)"
  shows "(\<forall>p x. is_file x \<longrightarrow> (holds_file r p x \<longleftrightarrow> node_at (DirNode a t cs) p x))
    \<and> (open_tree (DirNode a t cs) \<and> pw \<longrightarrow> (\<forall>s p x. r = Some s \<and> node_at s p x \<longrightarrow> (\<exists>q y. node_at x q y \<and> is_file y)))
    \<and> (res = Inr () \<longleftrightarrow> may_list a)"
proof -
  have r: "remove_all_empty_dir now pw (DirNode a t cs) = (res, r)" using assms by (simp add: remove_dir_def)
  have "res = Inr () \<longleftrightarrow> may_list a" using r by (auto simp: remove_children Let_def split: if_splits)
  moreover have "\<forall>s p x. r = Some s \<and> node_at s p x \<longrightarrow> (\<exists>q y. node_at x q y \<and> is_file y)" if "open_tree (DirNode a t cs)" pw
    using emptied[OF that(1), of _ _ _ now] r that(2) by auto
  moreover have "is_file x \<Longrightarrow> holds_file r p x \<longleftrightarrow> node_at (DirNode a t cs) p x" for p x
    using files_kept[of x now pw "DirNode a t cs" p] r by simp
  ultimately show ?thesis by blast
qed

section \<open>A folder is transferred\<close>

definition represents :: "filesystem \<Rightarrow> string \<Rightarrow> bool \<Rightarrow> node \<Rightarrow> bool" where
  "represents w p h r \<longleftrightarrow>
    (\<forall>ns c t. reaches h r ns (FileNode c t) \<longrightarrow> map_option fst (entry_at w (join p (under [] ns))) = Some c)"

definition plain_tree :: "bool \<Rightarrow> node \<Rightarrow> bool" where
  "plain_tree h r \<longleftrightarrow> (\<forall>ns d. reaches h r ns d \<longrightarrow> (\<forall>t. d \<noteq> SpecialNode t) \<and> (bare h d \<longrightarrow> ns = []))"

text \<open>No file is called like another with the ending of a download or a digest.\<close>

definition no_leftover_names :: "bool \<Rightarrow> node \<Rightarrow> bool" where
  "no_leftover_names h r \<longleftrightarrow>
    (\<forall>ns ms c t d u. reaches h r ns (FileNode c t) \<and> reaches h r ms (FileNode d u) \<longrightarrow>
      under [] ns \<noteq> under [] ms @ ''.download'' \<and> under [] ns \<noteq> under [] ms @ ''.digest'')"

lemma join_under: "list_all clean_name ns \<Longrightarrow> ns \<noteq> [] \<Longrightarrow> join q (under [] ns) = lead q @ under [] ns"
proof (cases ns)
  case (Cons n ms)
  moreover assume c: "list_all clean_name ns"
  ultimately have u: "under [] ns = n @ segments ms" using under_segments[of n ms "[]"] by (simp add: lead_def)
  have n: "n \<noteq> []" "CHR ''/'' \<notin> set n" using c by (simp_all add: Cons clean_name_def)
  then have "hd n \<noteq> CHR ''/''" by (metis hd_in_set)
  with n(1) show ?thesis unfolding u by (cases n) (auto simp: join_def path_join_def lead_def starts_with_def)
qed simp

lemma endings_differ: "s @ ''.download'' \<noteq> s' @ ''.digest''"
proof
  assume "s @ ''.download'' = s' @ ''.digest''"
  then have "last (s @ ''.download'') = last (s' @ ''.digest'')" by (rule arg_cong)
  then show False by simp
qed

lemma plain_listing:
  assumes "get_recursive_files (DirNode a t cs) h = Inr fs" "names_ok (DirNode a t cs)" "plain_tree h (DirNode a t cs)"
  shows "set fs = {listed_file [] ns (FileNode c u) | ns c u. reaches h (DirNode a t cs) ns (FileNode c u)}"
    and "distinct (map entry_name fs)"
proof -
  let ?r = "DirNode a t cs"
  have r: "read_dir_recursive h [] ?r = Inr fs" using assms(1) by (simp add: get_recursive_files_def)
  have f: "is_file x \<Longrightarrow> reaches h ?r ns x \<Longrightarrow> ns \<noteq> [] \<and> (\<exists>c u. x = FileNode c u)" for ns x
    using assms(3) by (cases x) (auto simp: plain_tree_def)
  have "listing_of h [] ?r = {listed_file [] ns (FileNode c u) | ns c u. reaches h ?r ns (FileNode c u)}"
    unfolding listing_of_def using f assms(3) by (auto simp: plain_tree_def) (metis is_file.simps(1))+
  then show "set fs = {listed_file [] ns (FileNode c u) | ns c u. reaches h ?r ns (FileNode c u)}"
    using listing_set[OF r] by simp
  show "distinct (map entry_name fs)" by (rule listing_distinct[OF r assms(2)])
qed



section \<open>Witnesses\<close>

definition full_access :: access where "full_access = \<lparr>may_list = True, may_search = True, may_write = True\<rparr>"

lemma full_access_simps [simp]: "may_list full_access" "may_search full_access" "may_write full_access"
  by (simp_all add: full_access_def)

text \<open>A file, a hidden file, a link, and two directories, one of them empty.\<close>

definition mixed_children :: "(string option \<times> node) list" where
  "mixed_children = [(Some ''a'', FileNode [1, 2] 5), (Some ''.h'', FileNode [] 0), (Some ''l'', LinkNode True 3),
     (Some ''e'', DirNode full_access 0 []), (Some ''s'', DirNode full_access 0 [(Some ''b'', FileNode [3] 6)])]"

lemma mixed_ok: "names_ok (DirNode full_access 0 mixed_children)" "open_tree (DirNode full_access 0 mixed_children)"
  by (simp_all add: mixed_children_def clean_name_def List.map_filter_simps)

theorem listing_complete_witness:
  "set [listed_file [] [''a''] (FileNode [1, 2] 5), marker ''e'', listed_file [] [''s'', ''b''] (FileNode [3] 6)]
    = listing_of False [] (DirNode full_access 0 mixed_children)"
proof -
  have "get_recursive_files (DirNode full_access 0 mixed_children) False =
      Inr [listed_file [] [''a''] (FileNode [1, 2] 5), marker ''e'', listed_file [] [''s'', ''b''] (FileNode [3] 6)]"
    by (simp add: get_recursive_files_def read_dir_recursive.simps(1) mixed_children_def dir_entry_def
        path_join_def starts_with_def listed_file_def)
  from listing_complete[OF this mixed_ok(1)] show ?thesis by simp
qed

theorem recursive_removal_witness:
  "snd (remove_dir 9 True True (DirNode full_access 0 mixed_children)) =
    Some (DirNode full_access 9 [(Some ''a'', FileNode [1, 2] 5), (Some ''.h'', FileNode [] 0),
      (Some ''s'', DirNode full_access 0 [(Some ''b'', FileNode [3] 6)])])
   \<and> fst (remove_dir 9 True True (DirNode full_access 0 mixed_children)) = Inr ()"
proof -
  obtain res r where e: "remove_dir 9 True True (DirNode full_access 0 mixed_children) = (res, r)" by force
  have "r = Some (DirNode full_access 9 [(Some ''a'', FileNode [1, 2] 5), (Some ''.h'', FileNode [] 0),
      (Some ''s'', DirNode full_access 0 [(Some ''b'', FileNode [3] 6)])])"
    using e by (simp add: remove_dir_def remove_all_empty_dir.simps(1) mixed_children_def dir_entry_def
        remove_dir_node_def starts_with_def Let_def)
  then show ?thesis using recursive_removal[OF e] e by simp
qed

definition folder_children :: "(string option \<times> node) list" where
  "folder_children = [(Some ''a'', FileNode [1, 2] 5), (Some ''s'', DirNode full_access 0 [(Some ''b'', FileNode [3] 6)])]"

definition folder_store :: filesystem where
  "folder_store = empty_store\<lparr>links := [''/x/a'' \<mapsto> 0, ''/x/s/b'' \<mapsto> 1], inodes := [([1, 2], 5), ([3], 6)]\<rparr>"

lemma folder_reaches:
  "reaches h (DirNode full_access 0 folder_children) ns x \<longleftrightarrow>
    (ns, x) \<in> {([], DirNode full_access 0 folder_children), ([''a''], FileNode [1, 2] 5),
      ([''s''], DirNode full_access 0 [(Some ''b'', FileNode [3] 6)]), ([''s'', ''b''], FileNode [3] 6)}"
proof (cases ns)
  case (Cons n ms)
  have s: "reaches h (DirNode full_access 0 [(Some ''b'', FileNode [3] 6)]) ms x \<longleftrightarrow>
      (ms, x) \<in> {([], DirNode full_access 0 [(Some ''b'', FileNode [3] 6)]), ([''b''], FileNode [3] 6)}" for h ms x
    by (cases ms) (auto simp: reaches_child shown_def starts_with_def)
  show ?thesis unfolding Cons folder_children_def reaches_child
    by (auto simp: s shown_def starts_with_def)
qed auto


end
