(* ===== verification/Video_Qos.thy ===== *)
theory Video_Qos
  imports Hop_Prelude Float_Rounding
begin

text \<open>
  The controller of frame rate and bit rate: \<open>src/server/video_qos.rs\<close>. Every remote user reports network
  delays; the controller keeps a window of them per user, estimates the round trip, and moves the frame
  rate of the users and the bit-rate ratio of the encoder. \<open>HashMap\<close>s are association lists, \<open>u32\<close> values
  are natural numbers with the wrap-around of a sum written out, the clock is in milliseconds, and \<open>f32\<close>
  values are the rational numbers they stand for, each operation rounded to 24 significant bits.
\<close>

section \<open>Constants\<close>

definition FPS :: nat where "FPS = 30"
definition MIN_FPS :: nat where "MIN_FPS = 1"
definition MAX_FPS :: nat where "MAX_FPS = 120"
definition INIT_FPS :: nat where "INIT_FPS = 15"
definition BR_MAX :: rat where "BR_MAX = 40"
definition BR_MIN :: rat where "BR_MIN = f32 (2 / 10)"
definition BR_MIN_HIGH_RESOLUTION :: rat where "BR_MIN_HIGH_RESOLUTION = f32 (1 / 10)"
definition MAX_BR_MULTIPLE :: rat where "MAX_BR_MULTIPLE = 1"
definition HISTORY_DELAY_LEN :: nat where "HISTORY_DELAY_LEN = 2"
definition ADJUST_RATIO_INTERVAL :: nat where "ADJUST_RATIO_INTERVAL = 3"
definition DYNAMIC_SCREEN_THRESHOLD :: nat where "DYNAMIC_SCREEN_THRESHOLD = 2"
definition DELAY_THRESHOLD_150MS :: nat where "DELAY_THRESHOLD_150MS = 150"
definition WINDOW_SAMPLES :: nat where "WINDOW_SAMPLES = 60"
definition MIN_SAMPLES :: nat where "MIN_SAMPLES = 10"
definition BR_BEST :: rat where "BR_BEST = f32 (15 / 10)"
definition BR_BALANCED :: rat where "BR_BALANCED = f32 (67 / 100)"
definition BR_SPEED :: rat where "BR_SPEED = f32 (5 / 10)"

definition clamp :: "'a::linorder \<Rightarrow> 'a \<Rightarrow> 'a \<Rightarrow> 'a" where
  "clamp x lo hi = (if x < lo then lo else if x > hi then hi else x)"

section \<open>Round trips\<close>

record rtt_calculator =
  min_rtt :: "nat option"
  window_min_rtt :: "nat option"
  smoothed_rtt :: "nat option"
  samples :: "nat list"

definition rtt_default :: rtt_calculator where
  "rtt_default = \<lparr>min_rtt = None, window_min_rtt = None, smoothed_rtt = None, samples = []\<rparr>"

definition push_sample :: "nat list \<Rightarrow> nat \<Rightarrow> nat list" where
  "push_sample w d = (if length w \<ge> WINDOW_SAMPLES then tl w else w) @ [d]"

definition rtt_update :: "nat \<Rightarrow> rtt_calculator \<Rightarrow> rtt_calculator" where
  "rtt_update delay c =
    (let c = (case min_rtt c of
                Some m \<Rightarrow> if delay < m then c\<lparr>min_rtt := Some delay\<rparr> else c
              | None \<Rightarrow> c\<lparr>min_rtt := Some delay\<rparr>);
         c = c\<lparr>samples := push_sample (samples c) delay\<rparr>;
         c = c\<lparr>window_min_rtt := (if samples c = [] then None else Some (Min (set (samples c))))\<rparr>
     in if length (samples c) \<ge> WINDOW_SAMPLES then
          (case (min_rtt c, window_min_rtt c) of
             (Some m, Some wm) \<Rightarrow>
               c\<lparr>smoothed_rtt := Some (nat \<lfloor>f32 (f32 ((1 - 1 / 2) * f32 (of_nat m)) + f32 (1 / 2 * f32 (of_nat wm)))\<rfloor>)\<rparr>
           | _ \<Rightarrow> c)
        else c)"

definition get_rtt :: "rtt_calculator \<Rightarrow> nat option" where
  "get_rtt c =
    (case smoothed_rtt c of
       Some r \<Rightarrow> Some r
     | None \<Rightarrow> if length (samples c) \<ge> MIN_SAMPLES then min_rtt c else None)"

section \<open>Users and displays\<close>

record user_delay =
  response_delayed :: bool
  delay_history :: "nat list"
  delay_fps :: "nat option"
  rtt_calculator :: rtt_calculator
  quick_increase_fps_count :: nat
  increase_fps_count :: nat

definition delay_default :: user_delay where
  "delay_default = \<lparr>response_delayed = False, delay_history = [], delay_fps = None, rtt_calculator = rtt_default,
     quick_increase_fps_count = 0, increase_fps_count = 0\<rparr>"

definition push_delay :: "nat list \<Rightarrow> nat \<Rightarrow> nat list" where
  "push_delay w d = (if length w > HISTORY_DELAY_LEN then tl w else w) @ [d]"

definition add_delay :: "nat \<Rightarrow> user_delay \<Rightarrow> user_delay" where
  "add_delay d u = u\<lparr>rtt_calculator := rtt_update d (rtt_calculator u), delay_history := push_delay (delay_history u) d\<rparr>"

definition avg_delay :: "user_delay \<Rightarrow> nat" where
  "avg_delay u =
    (let len = length (delay_history u) in
     if len > 0 then
       let avg = (sum_list (delay_history u) mod 2 ^ 32) div len in
       (case get_rtt (rtt_calculator u) of
          Some rtt \<Rightarrow> if avg > rtt then avg - rtt else avg
        | None \<Rightarrow> avg)
     else DELAY_THRESHOLD_150MS)"

datatype quality = Best | Balanced | Low | Custom rat

definition quality_ratio :: "quality \<Rightarrow> rat" where
  "quality_ratio q = (case q of Best \<Rightarrow> BR_BEST | Balanced \<Rightarrow> BR_BALANCED | Low \<Rightarrow> BR_SPEED | Custom v \<Rightarrow> v)"

record user_data =
  auto_adjust_fps :: "nat option"
  custom_fps :: "nat option"
  quality :: "(int \<times> quality) option"
  user_delay :: user_delay
  recording :: bool

definition user_default :: user_data where
  "user_default = \<lparr>auto_adjust_fps = None, custom_fps = None, quality = None, user_delay = delay_default, recording = False\<rparr>"

record display_data =
  send_counter :: nat
  support_changing_quality :: bool

record video_qos =
  qos_fps :: nat
  qos_ratio :: rat
  users :: "(int \<times> user_data) list"
  displays :: "(string \<times> display_data) list"
  bitrate_store :: nat
  adjust_ratio_instant :: nat
  abr_config :: bool
  new_user_instant :: nat

definition qos_default :: "nat \<Rightarrow> video_qos" where
  "qos_default now = \<lparr>qos_fps = FPS, qos_ratio = BR_BALANCED, users = [], displays = [], bitrate_store = 0,
     adjust_ratio_instant = now, abr_config = True, new_user_instant = now\<rparr>"

text \<open>\<open>get_mut\<close>: an update of the user, when it exists.\<close>

definition with_user :: "int \<Rightarrow> (user_data \<Rightarrow> user_data) \<Rightarrow> video_qos \<Rightarrow> video_qos" where
  "with_user i f q = q\<lparr>users := map (\<lambda>(j, u). (j, if j = i then f u else u)) (users q)\<rparr>"

definition with_display :: "string \<Rightarrow> (display_data \<Rightarrow> display_data) \<Rightarrow> video_qos \<Rightarrow> video_qos" where
  "with_display n f q = q\<lparr>displays := map (\<lambda>(m, d). (m, if m = n then f d else d)) (displays q)\<rparr>"

section \<open>Reading the controller\<close>

definition get_fps :: "video_qos \<Rightarrow> nat" where
  "get_fps q = (if qos_fps q \<ge> MIN_FPS \<and> qos_fps q \<le> MAX_FPS then qos_fps q else FPS)"

definition spf :: "video_qos \<Rightarrow> rat" where
  "spf q = f32 (1 / of_nat (get_fps q))"

definition get_ratio :: "video_qos \<Rightarrow> rat \<times> video_qos" where
  "get_ratio q =
    (let q = (if qos_ratio q < BR_MIN_HIGH_RESOLUTION \<or> qos_ratio q > BR_MAX then q\<lparr>qos_ratio := BR_BALANCED\<rparr> else q)
     in (qos_ratio q, q))"

definition store_bitrate :: "nat \<Rightarrow> video_qos \<Rightarrow> video_qos" where
  "store_bitrate b q = q\<lparr>bitrate_store := b\<rparr>"

definition any_record :: "video_qos \<Rightarrow> bool" where
  "any_record q = list_ex (\<lambda>(_, u). recording u) (users q)"

definition in_vbr_state :: "video_qos \<Rightarrow> bool" where
  "in_vbr_state q \<longleftrightarrow> abr_config q \<and> list_all (\<lambda>(_, d). support_changing_quality d) (displays q)"

definition user_fps :: "user_data \<Rightarrow> nat" where
  "user_fps u =
    (let fps = (case custom_fps u of Some f \<Rightarrow> f | None \<Rightarrow> FPS) in
     (case auto_adjust_fps u of
        Some a \<Rightarrow> if fps = 0 \<or> a < fps then a else fps
      | None \<Rightarrow> fps))"

definition highest_fps :: "video_qos \<Rightarrow> nat" where
  "highest_fps q =
    (let fs = filter (\<lambda>f. f \<ge> MIN_FPS) (map (\<lambda>(_, u). user_fps u) (users q)) in
     clamp (if fs = [] then FPS else Min (set fs)) MIN_FPS MAX_FPS)"

text \<open>\<open>max_by\<close> keeps the later of two equal maxima.\<close>

definition latest_quality :: "video_qos \<Rightarrow> quality" where
  "latest_quality q =
    (case fold (\<lambda>a best. case best of None \<Rightarrow> Some a | Some b \<Rightarrow> if fst a \<ge> fst b then Some a else Some b)
            (List.map_filter (\<lambda>(_, u). quality u) (users q)) None of
       None \<Rightarrow> Balanced
     | Some (_, x) \<Rightarrow> x)"

section \<open>Adjusting\<close>

definition adjust_fps :: "nat \<Rightarrow> video_qos \<Rightarrow> video_qos" where
  "adjust_fps now q =
    (let highest = highest_fps q;
         fs = map (\<lambda>(_, u). case delay_fps (user_delay u) of Some f \<Rightarrow> f | None \<Rightarrow> INIT_FPS) (users q);
         fps = (if fs = [] then INIT_FPS else Min (set fs));
         fps = (if list_ex (\<lambda>(_, u). response_delayed (user_delay u)) (users q) \<and> fps > MIN_FPS + 1 then MIN_FPS + 1 else fps);
         fps = (if (now - new_user_instant q) div 1000 < 1 \<and> fps > INIT_FPS then INIT_FPS else fps)
     in q\<lparr>qos_fps := clamp fps MIN_FPS highest\<rparr>)"

text \<open>The ratio a delay asks for, and the smallest ratio of a quality.\<close>

definition scaled_ratio :: "nat \<Rightarrow> bool \<Rightarrow> rat \<Rightarrow> rat" where
  "scaled_ratio max_delay dynamic_screen r =
    (if max_delay < 50 then if dynamic_screen then f32 (r * f32 (115 / 100)) else r
     else if max_delay < 100 then if dynamic_screen then f32 (r * f32 (11 / 10)) else r
     else if max_delay < DELAY_THRESHOLD_150MS then if dynamic_screen then f32 (r * f32 (105 / 100)) else r
     else if max_delay < 200 then f32 (r * f32 (95 / 100))
     else if max_delay < 300 then f32 (r * f32 (9 / 10))
     else if max_delay < 500 then f32 (r * f32 (85 / 100))
     else f32 (r * f32 (8 / 10)))"

definition lower_by :: "rat option \<Rightarrow> rat \<Rightarrow> rat" where
  "lower_by limit m = (case limit of Some r \<Rightarrow> if m > r then r else m | None \<Rightarrow> m)"

definition min_ratio :: "quality \<Rightarrow> rat option \<Rightarrow> rat" where
  "min_ratio q ratio_1mbps =
    (case q of
       Best \<Rightarrow> max (lower_by ratio_1mbps (f32 (BR_BEST / f32 (25 / 10)))) BR_MIN
     | Balanced \<Rightarrow> max (lower_by ratio_1mbps (min (f32 (BR_BALANCED / 2)) (f32 (4 / 10)))) BR_MIN_HIGH_RESOLUTION
     | Low \<Rightarrow> BR_MIN_HIGH_RESOLUTION
     | Custom _ \<Rightarrow> BR_MIN_HIGH_RESOLUTION)"

definition adjust_ratio :: "nat \<Rightarrow> bool \<Rightarrow> video_qos \<Rightarrow> video_qos" where
  "adjust_ratio now dynamic_screen q =
    (if \<not> in_vbr_state q \<or> users q = [] then q
     else
       let max_delay = Max (set (map (\<lambda>(_, u). avg_delay (user_delay u)) (users q)));
           target = latest_quality q;
           current = qos_ratio q;
           bitrate = bitrate_store q;
           ratio_1mbps = (if bitrate > 0 then
                            Some (max (f32 (f32 (current * 1000) / f32 (of_nat bitrate))) BR_MIN_HIGH_RESOLUTION)
                          else None);
           ratio_add_150kbps = (if bitrate > 0 then
                            Some (f32 (f32 (f32 (of_nat ((bitrate + 150) mod 2 ^ 32)) * current) / f32 (of_nat bitrate)))
                          else None);
           lo = min_ratio target ratio_1mbps;
           hi = f32 (quality_ratio target * MAX_BR_MULTIPLE);
           v = scaled_ratio max_delay dynamic_screen current;
           v = (case ratio_add_150kbps of
                  Some a \<Rightarrow> if v > a \<and> a > current \<and> current \<ge> BR_SPEED then a else v
                | None \<Rightarrow> v)
       in q\<lparr>qos_ratio := clamp v lo hi, adjust_ratio_instant := now\<rparr>)"

section \<open>Events\<close>

definition on_connection_open :: "nat \<Rightarrow> bool \<Rightarrow> int \<Rightarrow> video_qos \<Rightarrow> video_qos" where
  "on_connection_open now abr_option i q =
    q\<lparr>users := AList.update i user_default (users q), abr_config := abr_option, new_user_instant := now\<rparr>"

definition on_connection_close :: "nat \<Rightarrow> int \<Rightarrow> video_qos \<Rightarrow> video_qos" where
  "on_connection_close now i q =
    (let q = q\<lparr>users := AList.delete i (users q)\<rparr> in if users q = [] then qos_default now else q)"

definition user_custom_fps :: "int \<Rightarrow> nat \<Rightarrow> video_qos \<Rightarrow> video_qos" where
  "user_custom_fps i f q =
    (if f < MIN_FPS \<or> f > MAX_FPS then q else with_user i (\<lambda>u. u\<lparr>custom_fps := Some f\<rparr>) q)"

definition user_auto_adjust_fps :: "int \<Rightarrow> nat \<Rightarrow> video_qos \<Rightarrow> video_qos" where
  "user_auto_adjust_fps i f q =
    (if f < MIN_FPS \<or> f > MAX_FPS then q else with_user i (\<lambda>u. u\<lparr>auto_adjust_fps := Some f\<rparr>) q)"

definition convert_quality :: "u32 \<Rightarrow> quality" where
  "convert_quality q =
    (if q = 3 then Balanced else if q = 2 then Low else if q = 4 then Best
     else
       let b = f32 (f32 (of_nat (unat ((drop_bit 8 q AND 0xFFF) * 2))) / 100) in
       Custom (clamp b BR_MIN BR_MAX))"

definition user_image_quality :: "int \<Rightarrow> int \<Rightarrow> u32 \<Rightarrow> video_qos \<Rightarrow> video_qos" where
  "user_image_quality time i image_quality q =
    (if map_of (users q) i = None then q
     else
       let q = with_user i (\<lambda>u. u\<lparr>quality := Some (time, convert_quality image_quality)\<rparr>) q in
       q\<lparr>qos_ratio := quality_ratio (latest_quality q)\<rparr>)"

definition user_record :: "int \<Rightarrow> bool \<Rightarrow> video_qos \<Rightarrow> video_qos" where
  "user_record i v q = with_user i (\<lambda>u. u\<lparr>recording := v\<rparr>) q"

text \<open>The frame rates a quality aims at, and the frame rate after a delay \<open>avg\<close>; \<open>old\<close> is the average
  before it, \<open>quick\<close> the counter of good samples, already increased.\<close>

definition target_fps :: "rat \<Rightarrow> nat \<times> nat" where
  "target_fps r = (if r \<ge> BR_BEST then (8, 16) else if r \<ge> BR_BALANCED then (10, 20) else (12, 24))"

definition fps_after :: "nat \<Rightarrow> nat \<Rightarrow> nat \<Rightarrow> nat \<Rightarrow> nat \<Rightarrow> nat \<Rightarrow> nat" where
  "fps_after min_fps normal_fps old avg quick fps =
    (if avg < 50 then
       max min_fps (fps + (if quick \<ge> 3 then 5 else if fps < normal_fps then 1 else 0))
     else if avg < 100 then
       max min_fps (fps + (if avg < old \<and> fps < normal_fps then 1 else 0))
     else if avg < DELAY_THRESHOLD_150MS then max min_fps fps
     else
       let dividend_ms = DELAY_THRESHOLD_150MS * min_fps;
           devide_fps = nat \<lceil>f32 (f32 (of_nat fps) / f32 (f32 (of_nat avg) / f32 (of_nat DELAY_THRESHOLD_150MS)))\<rceil>
       in if avg < 200 then max min_fps devide_fps
          else if avg < 300 then min min_fps devide_fps
          else if avg < 600 then dividend_ms div avg
          else min (dividend_ms div avg) devide_fps)"

definition delay_sample :: "nat \<Rightarrow> nat \<Rightarrow> nat \<Rightarrow> nat \<Rightarrow> nat \<Rightarrow> user_delay \<Rightarrow> user_delay" where
  "delay_sample min_fps normal_fps highest fps delay u =
    (let delay = max delay 10;
         old = avg_delay u;
         u = add_delay delay u;
         avg = max (avg_delay u) 10;
         quick = (if avg < 50 then quick_increase_fps_count u + 1 else quick_increase_fps_count u);
         fps = fps_after min_fps normal_fps old avg quick fps;
         quick = (if avg < 50 \<and> quick \<ge> 3 then 0 else quick);
         inc = (if avg < DELAY_THRESHOLD_150MS then increase_fps_count u + 1 else 0);
         (inc, fps) = (if inc \<ge> 3 then (0, fps + 1) else (inc, fps));
         quick = (if avg > 50 then 0 else quick)
     in u\<lparr>quick_increase_fps_count := quick, increase_fps_count := inc, delay_fps := Some (clamp fps MIN_FPS highest)\<rparr>)"

text \<open>\<open>vaapi\<close>: the platform is Linux or FreeBSD, where the first delay does not adjust the ratio.\<close>

definition user_network_delay :: "nat \<Rightarrow> bool \<Rightarrow> int \<Rightarrow> nat \<Rightarrow> video_qos \<Rightarrow> video_qos" where
  "user_network_delay now vaapi i delay q =
    (let (min_fps, normal_fps) = target_fps (quality_ratio (latest_quality q));
         first = (case map_of (users q) i of None \<Rightarrow> False | Some u \<Rightarrow> delay_fps (user_delay u) = None);
         q = with_user i (\<lambda>u. u\<lparr>user_delay := delay_sample min_fps normal_fps (highest_fps q) (qos_fps q) delay (user_delay u)\<rparr>) q;
         q = adjust_fps now q
     in if first \<and> \<not> vaapi then adjust_ratio now False q else q)"

definition user_delay_response_elapsed :: "nat \<Rightarrow> int \<Rightarrow> nat \<Rightarrow> video_qos \<Rightarrow> video_qos" where
  "user_delay_response_elapsed now i elapsed q =
    (if map_of (users q) i = None then q
     else
       let late = elapsed > 2000;
           q = with_user i (\<lambda>u. u\<lparr>user_delay :=
                 (let d = (user_delay u)\<lparr>response_delayed := late\<rparr> in
                  if late then add_delay (elapsed mod 2 ^ 32) d else d)\<rparr>) q
       in if late then adjust_fps now q else q)"

definition new_display :: "string \<Rightarrow> video_qos \<Rightarrow> video_qos" where
  "new_display n q = q\<lparr>displays := AList.update n \<lparr>send_counter = 0, support_changing_quality = False\<rparr> (displays q)\<rparr>"

definition remove_display :: "string \<Rightarrow> video_qos \<Rightarrow> video_qos" where
  "remove_display n q = q\<lparr>displays := AList.delete n (displays q)\<rparr>"

definition set_support_changing_quality :: "string \<Rightarrow> bool \<Rightarrow> video_qos \<Rightarrow> video_qos" where
  "set_support_changing_quality n b q = with_display n (\<lambda>d. d\<lparr>support_changing_quality := b\<rparr>) q"

definition update_display_data :: "nat \<Rightarrow> string \<Rightarrow> nat \<Rightarrow> video_qos \<Rightarrow> video_qos" where
  "update_display_data now n k q =
    (let q = adjust_fps now (with_display n (\<lambda>d. d\<lparr>send_counter := send_counter d + k\<rparr>) q) in
     if in_vbr_state q then
       if (now - adjust_ratio_instant q) div 1000 \<ge> ADJUST_RATIO_INTERVAL then
         let dynamic = list_ex (\<lambda>(_, d). send_counter d \<ge> ADJUST_RATIO_INTERVAL * DYNAMIC_SCREEN_THRESHOLD) (displays q);
             q = q\<lparr>displays := map (\<lambda>(m, d). (m, d\<lparr>send_counter := 0\<rparr>)) (displays q)\<rparr>
         in adjust_ratio now dynamic q
       else q
     else q\<lparr>qos_ratio := quality_ratio (latest_quality q)\<rparr>)"

lemma f32_constants:
  "BR_MIN = 13421773 / 67108864" "BR_MIN_HIGH_RESOLUTION = 13421773 / 134217728"
  "BR_BALANCED = 11240735 / 16777216" "BR_BEST = 3 / 2" "BR_SPEED = 1 / 2"
  by code_simp+

end
