(* ===== verification/Qos_Control.thy ===== *)
theory Qos_Control
  imports Video_Qos
begin

text \<open>
  What the controller of \<open>Video_Qos\<close> guarantees: the windows of samples hold the newest samples and the
  round-trip estimate is a function of them, every reachable state keeps frame rate, ratio and windows in
  their ranges and never calls \<open>clamp\<close> with crossed bounds, and a session with good delays reaches the
  highest frame rate.
\<close>

section \<open>Sliding windows\<close>

text \<open>A window of at most \<open>cap\<close> values that drops the oldest one when a new one does not fit.\<close>

locale sliding_window =
  fixes push :: "'a list \<Rightarrow> 'a \<Rightarrow> 'a list" and cap :: nat
  assumes cap_pos: "0 < cap"
    and push_law: "length w \<le> cap \<Longrightarrow> push w x = drop (Suc (length w) - cap) (w @ [x])"
begin

lemma length_push: "length w \<le> cap \<Longrightarrow> length (push w x) = min cap (Suc (length w))"
  using cap_pos by (simp add: push_law)

lemma foldl_push: "foldl push [] xs = drop (length xs - cap) xs"
proof (induction xs rule: rev_induct)
  case (snoc x xs)
  have "length (foldl push [] xs) \<le> cap" unfolding snoc by simp
  then have "foldl push [] (xs @ [x]) = drop (Suc (length (foldl push [] xs)) - cap) (foldl push [] xs @ [x])"
    by (simp add: push_law)
  also have "\<dots> = drop (length (xs @ [x]) - cap) (xs @ [x])"
    unfolding snoc using cap_pos by (cases "length xs < cap") (auto simp: Suc_diff_le)
  finally show ?case .
qed simp

lemma set_push: "length w \<le> cap \<Longrightarrow> set (push w x) \<subseteq> insert x (set w)"
  by (auto simp: push_law dest: in_set_dropD)

lemma push_not_empty: "length w \<le> cap \<Longrightarrow> push w x \<noteq> []"
  using cap_pos by (simp add: push_law)

end

interpretation rtt_window: sliding_window push_sample WINDOW_SAMPLES
proof
  show "0 < WINDOW_SAMPLES" by (simp add: WINDOW_SAMPLES_def)
  show "length w \<le> WINDOW_SAMPLES \<Longrightarrow> push_sample w x = drop (Suc (length w) - WINDOW_SAMPLES) (w @ [x])" for w x
    by (cases w) (auto simp: push_sample_def WINDOW_SAMPLES_def not_le)
qed

text \<open>The window of delays holds one delay more than \<^const>\<open>HISTORY_DELAY_LEN\<close>.\<close>

interpretation delay_window: sliding_window push_delay "Suc HISTORY_DELAY_LEN"
proof
  show "0 < Suc HISTORY_DELAY_LEN" by simp
  show "length w \<le> Suc HISTORY_DELAY_LEN \<Longrightarrow> push_delay w x = drop (Suc (length w) - Suc HISTORY_DELAY_LEN) (w @ [x])" for w x
    by (cases w; cases "length w = 3") (auto simp: push_delay_def HISTORY_DELAY_LEN_def not_less)
qed

lemma Min_insert_snoc: "xs \<noteq> [] \<Longrightarrow> Min (set (xs @ [x])) = min (Min (set xs)) (x::nat)"
  by (simp add: min.commute)

lemma samples_update: "samples (rtt_update d c) = push_sample (samples c) d"
  unfolding rtt_update_def Let_def by (simp split: option.split)

lemma min_rtt_update: "min_rtt (rtt_update d c) = Some (case min_rtt c of None \<Rightarrow> d | Some m \<Rightarrow> min m d)"
  unfolding rtt_update_def Let_def by (auto split: option.split)

lemma smoothed_update:
  "smoothed_rtt (rtt_update d c) =
    (if length (samples (rtt_update d c)) \<ge> WINDOW_SAMPLES
     then Some (nat \<lfloor>f32 (f32 ((1 - 1 / 2) * f32 (of_nat (the (min_rtt (rtt_update d c))))) +
                         f32 (1 / 2 * f32 (of_nat (Min (set (samples (rtt_update d c)))))))\<rfloor>)
     else smoothed_rtt c)"
  unfolding samples_update min_rtt_update
  unfolding rtt_update_def Let_def
  by (auto split: option.split simp: push_sample_def)

lemma samples_fold: "samples (fold rtt_update ds c) = foldl push_sample (samples c) ds"
  by (induction ds arbitrary: c) (simp_all add: samples_update)

lemma samples_run: "samples (fold rtt_update ds rtt_default) = drop (length ds - WINDOW_SAMPLES) ds"
  unfolding samples_fold by (simp add: rtt_default_def rtt_window.foldl_push)

lemma min_rtt_run: "min_rtt (fold rtt_update ds rtt_default) = (if ds = [] then None else Some (Min (set ds)))"
proof (induction ds rule: rev_induct)
  case (snoc d ds)
  show ?case
  proof (cases "ds = []")
    case False
    then show ?thesis using snoc by (simp add: min_rtt_update min.commute)
  qed (simp add: min_rtt_update rtt_default_def)
qed (simp add: rtt_default_def)

text \<open>The mean of two round trips below about two hours is computed exactly.\<close>

lemma mean_exact:
  assumes "a < 2 ^ 23" "b < 2 ^ 23"
  shows "nat \<lfloor>f32 (f32 ((1 - 1 / 2) * f32 (of_nat a)) + f32 (1 / 2 * f32 (of_nat b)))\<rfloor> = (a + b) div 2"
proof -
  have w: "f32 (of_nat n) = of_nat n" if "n < 2 ^ 24" for n
    using f32_exact[of n 0] that by simp
  have h: "f32 (of_nat n / 2) = of_nat n / 2" if "n < 2 ^ 24" for n
    using f32_exact[of n "- 1"] that by (simp add: power_int_minus field_simps)
  have ab: "a < 2 ^ 24" "b < 2 ^ 24" "a + b < 2 ^ 24" using assms by simp_all
  have "f32 (f32 ((1 - 1 / 2) * f32 (of_nat a)) + f32 (1 / 2 * f32 (of_nat b))) = f32 (of_nat a / 2 + of_nat b / 2)"
    unfolding w[OF ab(1)] w[OF ab(2)] by (simp add: h[OF ab(1)] h[OF ab(2)])
  also have "(of_nat a / 2 + of_nat b / 2 :: rat) = of_nat (a + b) / 2" by simp
  also have "f32 \<dots> = of_nat (a + b) / 2" by (rule h[OF ab(3)])
  finally have e: "f32 (f32 ((1 - 1 / 2) * f32 (of_nat a)) + f32 (1 / 2 * f32 (of_nat b))) = of_nat (a + b) / of_nat 2" by simp
  show ?thesis unfolding e floor_divide_of_nat_eq by simp
qed

lemma smoothed_run:
  "smoothed_rtt (fold rtt_update ds rtt_default) =
    (if length ds < WINDOW_SAMPLES then None
     else Some (nat \<lfloor>f32 (f32 ((1 - 1 / 2) * f32 (of_nat (Min (set ds)))) +
                          f32 (1 / 2 * f32 (of_nat (Min (set (drop (length ds - WINDOW_SAMPLES) ds))))))\<rfloor>))"
proof (induction ds rule: rev_induct)
  case (snoc d ds)
  have s: "samples (fold rtt_update (ds @ [d]) rtt_default) = drop (length (ds @ [d]) - WINDOW_SAMPLES) (ds @ [d])"
    by (rule samples_run)
  have m: "min_rtt (fold rtt_update (ds @ [d]) rtt_default) = Some (Min (set (ds @ [d])))"
    unfolding min_rtt_run by simp
  have f: "fold rtt_update (ds @ [d]) rtt_default = rtt_update d (fold rtt_update ds rtt_default)" by simp
  have l: "length (drop (length (ds @ [d]) - WINDOW_SAMPLES) (ds @ [d])) \<ge> WINDOW_SAMPLES \<longleftrightarrow> \<not> length (ds @ [d]) < WINDOW_SAMPLES"
    by (simp add: WINDOW_SAMPLES_def) arith
  show ?case
  proof (cases "length (ds @ [d]) < WINDOW_SAMPLES")
    case True
    then have "smoothed_rtt (fold rtt_update (ds @ [d]) rtt_default) = smoothed_rtt (fold rtt_update ds rtt_default)"
      unfolding f smoothed_update unfolding f[symmetric] s l by simp
    with True snoc show ?thesis by simp
  next
    case False
    then show ?thesis
      unfolding f smoothed_update unfolding f[symmetric] s l m option.sel by (simp only: if_False not_False_eq_True if_True)
  qed
qed (simp add: rtt_default_def WINDOW_SAMPLES_def)

text \<open>
  After any delays below two hours, the round-trip estimate is missing for fewer than ten of them, the
  least of all below sixty, and then the mean of the least of all and the least of the last sixty.
\<close>

theorem rtt_estimate:
  assumes "\<forall>d \<in> set ds. d < 2 ^ 23"
  shows "get_rtt (fold rtt_update ds rtt_default) =
    (if length ds < 10 then None
     else if length ds < 60 then Some (Min (set ds))
     else Some ((Min (set ds) + Min (set (drop (length ds - 60) ds))) div 2))"
proof (cases "length ds < 60")
  case True
  then have "smoothed_rtt (fold rtt_update ds rtt_default) = None"
    unfolding smoothed_run by (simp add: WINDOW_SAMPLES_def)
  moreover have "length (samples (fold rtt_update ds rtt_default)) = length ds"
    unfolding samples_run using True by (simp add: WINDOW_SAMPLES_def)
  ultimately show ?thesis using True
    unfolding get_rtt_def min_rtt_run by (auto simp: MIN_SAMPLES_def)
next
  case False
  let ?w = "drop (length ds - 60) ds"
  have ne: "ds \<noteq> []" "?w \<noteq> []" using False by auto
  have "Min (set ds) \<in> set ds" using ne by (intro Min_in) simp_all
  moreover have "Min (set ?w) \<in> set ?w" using ne by (intro Min_in) simp_all
  then have "Min (set ?w) \<in> set ds" by (rule in_set_dropD)
  ultimately have b: "Min (set ds) < 2 ^ 23" "Min (set ?w) < 2 ^ 23" using assms by auto
  have "smoothed_rtt (fold rtt_update ds rtt_default) = Some ((Min (set ds) + Min (set ?w)) div 2)"
    unfolding smoothed_run using False mean_exact[OF b] by (simp add: WINDOW_SAMPLES_def)
  with False show ?thesis unfolding get_rtt_def by simp
qed

theorem rtt_estimate_witness:
  "get_rtt (fold rtt_update (8 # replicate 70 20) rtt_default) = Some 14"
  using rtt_estimate[of "8 # replicate 70 20"] by simp

section \<open>Well-formed states\<close>

definition fps_ok :: "nat option \<Rightarrow> bool" where
  "fps_ok f \<longleftrightarrow> (case f of None \<Rightarrow> True | Some x \<Rightarrow> MIN_FPS \<le> x \<and> x \<le> MAX_FPS)"

definition quality_ok :: "quality \<Rightarrow> bool" where
  "quality_ok q \<longleftrightarrow> (case q of Custom r \<Rightarrow> BR_MIN \<le> r \<and> r \<le> BR_MAX | _ \<Rightarrow> True)"

definition user_ok :: "user_data \<Rightarrow> bool" where
  "user_ok u \<longleftrightarrow> fps_ok (custom_fps u) \<and> fps_ok (auto_adjust_fps u) \<and> fps_ok (delay_fps (user_delay u))
     \<and> (case quality u of None \<Rightarrow> True | Some (_, x) \<Rightarrow> quality_ok x)
     \<and> length (delay_history (user_delay u)) \<le> Suc HISTORY_DELAY_LEN
     \<and> length (samples (rtt_calculator (user_delay u))) \<le> WINDOW_SAMPLES
     \<and> quick_increase_fps_count (user_delay u) < 3 \<and> increase_fps_count (user_delay u) < 3"

definition qos_ok :: "video_qos \<Rightarrow> bool" where
  "qos_ok q \<longleftrightarrow> MIN_FPS \<le> qos_fps q \<and> qos_fps q \<le> MAX_FPS
     \<and> BR_MIN_HIGH_RESOLUTION \<le> qos_ratio q \<and> qos_ratio q \<le> BR_MAX
     \<and> distinct (map fst (users q)) \<and> distinct (map fst (displays q))
     \<and> (\<forall>(_, u) \<in> set (users q). user_ok u)"

inductive qos_step :: "video_qos \<Rightarrow> video_qos \<Rightarrow> bool" where
  opened: "qos_step q (on_connection_open now abr i q)"
| closed: "qos_step q (on_connection_close now i q)"
| custom: "qos_step q (user_custom_fps i f q)"
| auto_adjust: "qos_step q (user_auto_adjust_fps i f q)"
| image_quality: "qos_step q (user_image_quality time i iq q)"
| recorded: "qos_step q (user_record i v q)"
| network_delay: "qos_step q (user_network_delay now vaapi i delay q)"
| response_elapsed: "qos_step q (user_delay_response_elapsed now i elapsed q)"
| display_added: "qos_step q (new_display n q)"
| display_removed: "qos_step q (remove_display n q)"
| changing_quality: "qos_step q (set_support_changing_quality n b q)"
| display_sent: "qos_step q (update_display_data now n k q)"
| stored: "qos_step q (store_bitrate b q)"
| read_ratio: "qos_step q (snd (get_ratio q))"

inductive qos_reachable :: "video_qos \<Rightarrow> bool" where
  initial: "qos_reachable (qos_default now)"
| step: "qos_reachable q \<Longrightarrow> qos_step q q' \<Longrightarrow> qos_reachable q'"

lemma fps_ok_simps [simp]: "fps_ok None" "fps_ok (Some x) \<longleftrightarrow> MIN_FPS \<le> x \<and> x \<le> MAX_FPS"
  by (simp_all add: fps_ok_def)

lemma clamp_bounds: "lo \<le> hi \<Longrightarrow> lo \<le> clamp x lo hi" "lo \<le> hi \<Longrightarrow> clamp x lo hi \<le> hi"
  by (auto simp: clamp_def)

lemma highest_fps_bounds: "MIN_FPS \<le> highest_fps q" "highest_fps q \<le> MAX_FPS"
  unfolding highest_fps_def Let_def by (intro clamp_bounds, simp add: MIN_FPS_def MAX_FPS_def)+

lemma quality_ratio_bounds:
  assumes "quality_ok x"
  shows "BR_MIN \<le> quality_ratio x" "quality_ratio x \<le> BR_MAX"
  using assms by (auto simp: quality_ok_def quality_ratio_def f32_constants BR_MAX_def split: quality.split)

lemma convert_quality_ok: "quality_ok (convert_quality w)"
proof -
  have "BR_MIN \<le> BR_MAX" by (simp add: f32_constants BR_MAX_def)
  from clamp_bounds[OF this] show ?thesis
    unfolding convert_quality_def Let_def quality_ok_def by simp
qed

lemma fold_latest:
  assumes "\<forall>a \<in> set xs. P (snd a)" "\<forall>b. best = Some b \<longrightarrow> P (snd b)"
    and "fold (\<lambda>a best. case best of None \<Rightarrow> Some a | Some b \<Rightarrow> if fst a \<ge> fst b then Some a else Some b) xs best = Some c"
  shows "P (snd c)"
  using assms
proof (induction xs arbitrary: best)
  case (Cons a xs)
  show ?case
    by (rule Cons.IH[OF _ _ Cons.prems(3)[unfolded fold_simps]]) (use Cons.prems in \<open>auto split: option.splits if_splits\<close>)
next
  case Nil
  then show ?case by (cases c) auto
qed

lemma map_filter_set: "set (List.map_filter f xs) = {y. \<exists>x \<in> set xs. f x = Some y}"
  by (induction xs) (auto split: option.split)

lemma latest_quality_ok: "\<forall>(_, u) \<in> set (users q). user_ok u \<Longrightarrow> quality_ok (latest_quality q)"
proof -
  assume u: "\<forall>(_, u) \<in> set (users q). user_ok u"
  have q: "\<forall>a \<in> set (List.map_filter (\<lambda>(_, u). quality u) (users q)). quality_ok (snd a)"
    using u by (auto simp: map_filter_set user_ok_def split: option.splits)
  show ?thesis
    unfolding latest_quality_def
    using fold_latest[OF q, of None] by (auto simp: quality_ok_def split: option.split quality.splits)
qed

text \<open>The arguments of the two \<open>clamp\<close> calls are ordered, so none of them panics.\<close>

lemma ratio_constants:
  "f32 (5 / 2) = 5 / 2" "f32 (3 / 5) = 5033165 / 8388608" "f32 (3 / 2) = 3 / 2"
  "f32 (11240735 / 33554432) = 11240735 / 33554432" "f32 (11240735 / 16777216) = 11240735 / 16777216"
  "f32 (2 / 5) = 13421773 / 33554432" "f32 (1 / 2) = 1 / 2"
  "f32 (13421773 / 134217728) = 13421773 / 134217728" "f32 40 = 40"
proof -
  show "f32 (3 / 5) = 5033165 / 8388608" "f32 (2 / 5) = 13421773 / 33554432" by code_simp+
qed (use f32_dyadic[of 5 1] f32_dyadic[of 3 1] f32_dyadic[of 11240735 25] f32_dyadic[of 11240735 24] f32_dyadic[of 1 1]
     f32_dyadic[of 13421773 27] f32_dyadic[of 40 0] in simp_all)

lemma ratio_bounds_ordered:
  assumes "quality_ok x"
  shows "BR_MIN_HIGH_RESOLUTION \<le> min_ratio x r" "min_ratio x r \<le> f32 (quality_ratio x * MAX_BR_MULTIPLE)"
    "f32 (quality_ratio x * MAX_BR_MULTIPLE) \<le> BR_MAX"
proof -
  show "BR_MIN_HIGH_RESOLUTION \<le> min_ratio x r"
    unfolding min_ratio_def by (auto simp: f32_constants le_max_iff_disj split: quality.split)
  have m: "lower_by r y \<le> y" for y by (auto simp: lower_by_def split: option.split)
  show "f32 (quality_ratio x * MAX_BR_MULTIPLE) \<le> BR_MAX"
    using quality_ratio_bounds[OF assms] f32_mono[of "quality_ratio x" 40] ratio_constants
    by (simp add: MAX_BR_MULTIPLE_def BR_MAX_def f32_constants)
  show "min_ratio x r \<le> f32 (quality_ratio x * MAX_BR_MULTIPLE)"
  proof (cases x)
    case Best
    have "lower_by r (5033165 / 8388608) \<le> 3 / 2" using m[of "5033165 / 8388608"] by simp
    with Best show ?thesis by (simp add: min_ratio_def quality_ratio_def ratio_constants f32_constants MAX_BR_MULTIPLE_def)
  next
    case Balanced
    have "lower_by r (11240735 / 33554432) \<le> 11240735 / 16777216" using m[of "11240735 / 33554432"] by simp
    with Balanced show ?thesis by (simp add: min_ratio_def quality_ratio_def ratio_constants f32_constants MAX_BR_MULTIPLE_def)
  next
    case Low
    then show ?thesis by (simp add: min_ratio_def quality_ratio_def ratio_constants f32_constants MAX_BR_MULTIPLE_def)
  next
    case (Custom v)
    have "BR_MIN_HIGH_RESOLUTION = f32 BR_MIN_HIGH_RESOLUTION" by (simp add: f32_constants ratio_constants)
    also have "\<dots> \<le> f32 v"
      using quality_ratio_bounds(1)[OF assms] Custom
      by (intro f32_mono) (simp_all add: quality_ratio_def f32_constants)
    finally show ?thesis using Custom by (simp add: min_ratio_def quality_ratio_def MAX_BR_MULTIPLE_def)
  qed
qed

lemma keys_if: "map fst (map (\<lambda>(j, u). (j, if j = i then f u else u)) xs) = map fst xs"
  by (rule keys_map)

lemma with_user_ok:
  assumes "qos_ok q" "\<And>u. user_ok u \<Longrightarrow> user_ok (f u)"
  shows "qos_ok (with_user i f q)"
proof -
  have d: "distinct (map fst (users (with_user i f q)))"
    using assms(1) unfolding qos_ok_def with_user_def by (simp del: map_map add: keys_if)
  have "\<forall>(_, u) \<in> set (users (with_user i f q)). user_ok u"
    using assms unfolding qos_ok_def with_user_def by auto
  with d assms(1) show ?thesis unfolding qos_ok_def by (simp add: with_user_def)
qed

lemma with_display_ok: "qos_ok q \<Longrightarrow> qos_ok (with_display n f q)"
  unfolding qos_ok_def with_display_def by (simp del: map_map add: keys_if)

lemma adjust_fps_ok: "qos_ok q \<Longrightarrow> qos_ok (adjust_fps now q)"
proof -
  have "MIN_FPS \<le> clamp x MIN_FPS (highest_fps q)" "clamp x MIN_FPS (highest_fps q) \<le> MAX_FPS" for x
    using clamp_bounds[OF highest_fps_bounds(1)[of q]] highest_fps_bounds(2)[of q] by (blast intro: order_trans)+
  then show "qos_ok q \<Longrightarrow> qos_ok (adjust_fps now q)"
    unfolding adjust_fps_def Let_def qos_ok_def by simp
qed

lemma adjust_ratio_ok: "qos_ok q \<Longrightarrow> qos_ok (adjust_ratio now dyn q)"
proof -
  assume ok: "qos_ok q"
  then have x: "quality_ok (latest_quality q)" by (simp add: latest_quality_ok qos_ok_def)
  have c: "BR_MIN_HIGH_RESOLUTION \<le> clamp v (min_ratio (latest_quality q) r) (f32 (quality_ratio (latest_quality q) * MAX_BR_MULTIPLE))"
    "clamp v (min_ratio (latest_quality q) r) (f32 (quality_ratio (latest_quality q) * MAX_BR_MULTIPLE)) \<le> BR_MAX" for v r
    using clamp_bounds[OF ratio_bounds_ordered(2)[OF x]] ratio_bounds_ordered(1,3)[OF x] by (blast intro: order_trans)+
  show ?thesis
  proof (cases "\<not> in_vbr_state q \<or> users q = []")
    case False
    have "qos_ok (q\<lparr>qos_ratio := clamp v (min_ratio (latest_quality q) r) (f32 (quality_ratio (latest_quality q) * MAX_BR_MULTIPLE)),
        adjust_ratio_instant := now\<rparr>)" for v r
      using ok c[of v r] by (simp add: qos_ok_def)
    with False show ?thesis unfolding adjust_ratio_def Let_def by (simp only: if_False)
  qed (simp add: adjust_ratio_def ok)
qed

lemma latest_ratio_ok: "qos_ok q \<Longrightarrow> qos_ok (q\<lparr>qos_ratio := quality_ratio (latest_quality q)\<rparr>)"
proof -
  assume ok: "qos_ok q"
  then have "quality_ok (latest_quality q)" by (simp add: latest_quality_ok qos_ok_def)
  from quality_ratio_bounds[OF this] ok show ?thesis by (simp add: qos_ok_def f32_constants)
qed

lemma user_default_ok: "user_ok user_default"
  by (simp add: user_ok_def user_default_def delay_default_def rtt_default_def)

lemma add_delay_frame [simp]:
  "delay_history (add_delay d u) = push_delay (delay_history u) d"
  "samples (rtt_calculator (add_delay d u)) = push_sample (samples (rtt_calculator u)) d"
  "delay_fps (add_delay d u) = delay_fps u" "response_delayed (add_delay d u) = response_delayed u"
  "quick_increase_fps_count (add_delay d u) = quick_increase_fps_count u"
  "increase_fps_count (add_delay d u) = increase_fps_count u"
  by (simp_all add: add_delay_def samples_update)

lemma push_bounds [simp]:
  "length w \<le> Suc HISTORY_DELAY_LEN \<Longrightarrow> length (push_delay w d) \<le> Suc HISTORY_DELAY_LEN"
  "length w \<le> WINDOW_SAMPLES \<Longrightarrow> length (push_sample w d) \<le> WINDOW_SAMPLES"
  by (simp_all add: delay_window.length_push rtt_window.length_push)

lemma delay_sample_frame:
  "delay_history (delay_sample mf nf hi fps d u) = push_delay (delay_history u) (max d 10)"
  "samples (rtt_calculator (delay_sample mf nf hi fps d u)) = push_sample (samples (rtt_calculator u)) (max d 10)"
  "response_delayed (delay_sample mf nf hi fps d u) = response_delayed u"
  unfolding delay_sample_def Let_def by (simp_all split: prod.split)

lemma delay_sample_counts:
  "increase_fps_count (delay_sample mf nf hi fps d u) < 3"
  "quick_increase_fps_count u < 3 \<Longrightarrow> quick_increase_fps_count (delay_sample mf nf hi fps d u) < 3"
  unfolding delay_sample_def Let_def by (auto split: prod.split)

lemma delay_sample_fps:
  "1 \<le> hi \<Longrightarrow> \<exists>x. delay_fps (delay_sample mf nf hi fps d u) = Some x \<and> MIN_FPS \<le> x \<and> x \<le> hi"
  unfolding delay_sample_def Let_def
  by (auto simp: MIN_FPS_def clamp_def split: prod.split)

lemma delay_sample_ok:
  assumes "user_ok u" "1 \<le> hi" "hi \<le> MAX_FPS"
  shows "user_ok (u\<lparr>user_delay := delay_sample mf nf hi fps d (user_delay u)\<rparr>)"
proof -
  obtain x where "delay_fps (delay_sample mf nf hi fps d (user_delay u)) = Some x" "MIN_FPS \<le> x" "x \<le> hi"
    using delay_sample_fps[OF assms(2)] by blast
  moreover have "length (delay_history (user_delay u)) \<le> Suc HISTORY_DELAY_LEN"
    "length (samples (rtt_calculator (user_delay u))) \<le> WINDOW_SAMPLES" "quick_increase_fps_count (user_delay u) < 3"
    using assms(1) by (simp_all add: user_ok_def)
  ultimately show ?thesis
    using assms(1,3) delay_sample_counts(1)[of mf nf hi fps d "user_delay u"] delay_sample_counts(2)[of "user_delay u" mf nf hi fps d]
    unfolding user_ok_def by (simp add: delay_sample_frame)
qed

lemma highest_one: "1 \<le> highest_fps q" "highest_fps q \<le> MAX_FPS"
  using highest_fps_bounds[of q] by (simp_all add: MIN_FPS_def)

lemma qos_default_ok: "qos_ok (qos_default now)"
  by (simp add: qos_ok_def qos_default_def MIN_FPS_def MAX_FPS_def FPS_def f32_constants BR_MAX_def)

lemma qos_step_ok:
  assumes "qos_step q q'" "qos_ok q"
  shows "qos_ok q'"
  using assms(1)
proof cases
  case (opened now abr i)
  have "user_ok u" if "(j, u) \<in> set (AList.update i user_default (users q))" for j u
    using values_update[OF that] assms(2) user_default_ok by (auto simp: qos_ok_def)
  with opened assms(2) show ?thesis
    by (auto simp: on_connection_open_def qos_ok_def intro: distinct_update)
next
  case (closed now i)
  have "user_ok u" if "(j, u) \<in> set (AList.delete i (users q))" for j u
    using values_delete[OF that] assms(2) by (auto simp: qos_ok_def)
  then have "qos_ok (q\<lparr>users := AList.delete i (users q)\<rparr>)"
    using assms(2) by (auto simp: qos_ok_def intro: distinct_delete)
  with closed show ?thesis
    unfolding on_connection_close_def Let_def by (simp add: qos_default_ok)
next
  case (custom i f)
  then show ?thesis
    unfolding user_custom_fps_def using assms(2) with_user_ok[of q "\<lambda>u. u\<lparr>custom_fps := Some f\<rparr>" i]
    by (simp add: user_ok_def)
next
  case (auto_adjust i f)
  then show ?thesis
    unfolding user_auto_adjust_fps_def using assms(2) with_user_ok[of q "\<lambda>u. u\<lparr>auto_adjust_fps := Some f\<rparr>" i]
    by (simp add: user_ok_def)
next
  case (image_quality time i iq)
  have "qos_ok (with_user i (\<lambda>u. u\<lparr>quality := Some (time, convert_quality iq)\<rparr>) q)"
    using assms(2) by (rule with_user_ok) (simp add: user_ok_def convert_quality_ok)
  from latest_ratio_ok[OF this] show ?thesis
    unfolding image_quality user_image_quality_def Let_def using assms(2) by simp
next
  case (recorded i v)
  show ?thesis
    unfolding recorded user_record_def by (rule with_user_ok[OF assms(2)]) (simp add: user_ok_def)
next
  case (network_delay now vaapi i delay)
  have "qos_ok (with_user i (\<lambda>u. u\<lparr>user_delay := delay_sample mf nf (highest_fps q) (qos_fps q) delay (user_delay u)\<rparr>) q)" for mf nf
    using assms(2) by (rule with_user_ok) (rule delay_sample_ok[OF _ highest_one])
  then show ?thesis
    unfolding network_delay user_network_delay_def Let_def
    by (simp add: adjust_fps_ok adjust_ratio_ok split: prod.split)
next
  case (response_elapsed now i elapsed)
  show ?thesis
    unfolding response_elapsed user_delay_response_elapsed_def Let_def using assms(2)
    by (auto simp: user_ok_def intro!: adjust_fps_ok with_user_ok)
next
  case (display_added n)
  then show ?thesis using assms(2) by (auto simp: new_display_def qos_ok_def intro: distinct_update)
next
  case (display_removed n)
  then show ?thesis using assms(2) by (auto simp: remove_display_def qos_ok_def intro: distinct_delete)
next
  case (changing_quality n b)
  then show ?thesis using assms(2) by (simp add: set_support_changing_quality_def with_display_ok)
next
  case (display_sent now n k)
  define q1 where "q1 = adjust_fps now (with_display n (\<lambda>d. d\<lparr>send_counter := send_counter d + k\<rparr>) q)"
  have q1: "qos_ok q1" unfolding q1_def by (intro adjust_fps_ok with_display_ok assms(2))
  have "qos_ok (q1\<lparr>displays := map (\<lambda>(m, d). (m, d\<lparr>send_counter := 0\<rparr>)) (displays q1)\<rparr>)"
    using q1 unfolding qos_ok_def by (simp del: map_map add: keys_map[of "\<lambda>_ d. d\<lparr>send_counter := 0\<rparr>"])
  from adjust_ratio_ok[OF this] q1 latest_ratio_ok[OF q1] show ?thesis
    unfolding display_sent update_display_data_def Let_def q1_def[symmetric] by simp
next
  case (stored b)
  then show ?thesis using assms(2) by (simp add: store_bitrate_def qos_ok_def)
next
  case read_ratio
  then show ?thesis using assms(2) unfolding get_ratio_def Let_def
    by (simp add: qos_ok_def f32_constants BR_MAX_def)
qed

lemma reachable_ok: "qos_reachable q \<Longrightarrow> qos_ok q"
  by (induction rule: qos_reachable.induct) (blast intro: qos_default_ok qos_step_ok)+

text \<open>
  C13. In every reachable state of the controller the frame rate is between 1 and 120 and the ratio in its
  limits, so that the fallbacks of \<open>fps()\<close> and \<open>ratio()\<close> are never taken; the settings and counters of every
  user are in range, the windows hold at most 3 delays and 60 round trips, and the limits passed to \<open>clamp\<close>
  are ordered, so it does not panic.
\<close>

theorem qos_well_typed:
  assumes "qos_reachable q"
  shows "(qos_ok q)
    \<and> (get_fps q = qos_fps q)
    \<and> (get_ratio q = (qos_ratio q, q))
    \<and> (MIN_FPS \<le> highest_fps q)
    \<and> (min_ratio (latest_quality q) r \<le> f32 (quality_ratio (latest_quality q) * MAX_BR_MULTIPLE))"
proof (intro conjI)
  show ok: "qos_ok q" by (rule reachable_ok[OF assms])
  then show "get_fps q = qos_fps q" "get_ratio q = (qos_ratio q, q)" by (simp_all add: qos_ok_def get_fps_def get_ratio_def)
  show "MIN_FPS \<le> highest_fps q" by (rule highest_fps_bounds)
  show "min_ratio (latest_quality q) r \<le> f32 (quality_ratio (latest_quality q) * MAX_BR_MULTIPLE)"
    by (rule ratio_bounds_ordered(2)) (use ok in \<open>simp add: latest_quality_ok qos_ok_def\<close>)
qed

theorem qos_well_typed_witness: "get_fps (on_connection_open 5 True 7 (qos_default 0)) = 30"
  using qos_well_typed[OF qos_reachable.step[OF qos_reachable.initial qos_step.opened], of 5 True 7 0, THEN conjunct2, THEN conjunct1]
  by (simp add: on_connection_open_def qos_default_def FPS_def)

section \<open>Progress\<close>

lemma sum_list_less: "xs \<noteq> [] \<Longrightarrow> \<forall>x \<in> set xs. x < b \<Longrightarrow> sum_list xs < length xs * (b::nat)"
proof (induction xs)
  case (Cons x xs)
  then show ?case by (cases "xs = []") (auto simp: add_less_le_mono)
qed simp

lemma avg_delay_less:
  assumes "delay_history u \<noteq> []" "\<forall>d \<in> set (delay_history u). d < b"
  shows "avg_delay u < b"
proof -
  let ?h = "delay_history u"
  have "sum_list ?h mod 2 ^ 32 \<le> sum_list ?h" by simp
  also have "\<dots> < b * length ?h" using sum_list_less[OF assms] by (simp add: mult.commute)
  finally have l: "(sum_list ?h mod 2 ^ 32) div length ?h < b" using less_mult_imp_div_less by blast
  then have "(sum_list ?h mod 2 ^ 32) div length ?h - r < b" for r by linarith
  with l assms(1) show ?thesis unfolding avg_delay_def Let_def by (simp split: option.split)
qed

lemma fps_after_good: "avg < 50 \<Longrightarrow> fps \<le> fps_after mf nf old avg quick fps"
  unfolding fps_after_def by (simp add: le_max_iff_disj)

lemma clamp_progress:
  assumes "1 \<le> hi"
  shows "clamp f 1 hi = hi \<or> f \<le> clamp f 1 hi" "hi \<le> f \<Longrightarrow> clamp f 1 hi = hi"
  using assms by (auto simp: clamp_def)

lemma delay_sample_good:
  fixes mf nf fps :: nat
  assumes "avg_delay (add_delay (max d 10) u) < 50" "1 \<le> hi"
  defines "u' \<equiv> delay_sample mf nf hi fps d u"
  shows "\<exists>x. delay_fps u' = Some x \<and> 1 \<le> x \<and> x \<le> hi \<and> (hi \<le> fps \<longrightarrow> x = hi)
    \<and> (x = hi \<or> increase_fps_count u' = 0 \<and> fps < x \<or> increase_fps_count u' = Suc (increase_fps_count u) \<and> fps \<le> x)"
proof -
  define old where "old = avg_delay u"
  define avg where "avg = max (avg_delay (add_delay (max d 10) u)) 10"
  define quick where "quick = quick_increase_fps_count u + 1"
  define f where "f = fps_after mf nf old avg quick fps"
  have a: "avg < 50" using assms(1) by (simp add: avg_def)
  have f: "fps \<le> f" unfolding f_def by (rule fps_after_good[OF a])
  have e: "delay_fps u' = Some (clamp (if 3 \<le> increase_fps_count u + 1 then f + 1 else f) 1 hi)
    \<and> increase_fps_count u' = (if 3 \<le> increase_fps_count u + 1 then 0 else increase_fps_count u + 1)"
    using a unfolding u'_def delay_sample_def Let_def f_def quick_def old_def avg_def
    by (simp add: DELAY_THRESHOLD_150MS_def MIN_FPS_def split: prod.split)
  define g where "g = (if 3 \<le> increase_fps_count u + 1 then f + 1 else f)"
  have g: "fps \<le> g" "3 \<le> increase_fps_count u + 1 \<Longrightarrow> fps < g" using f by (auto simp: g_def)
  have c: "1 \<le> clamp g 1 hi" "clamp g 1 hi \<le> hi" using clamp_bounds[OF assms(2)] by blast+
  have "hi \<le> fps \<longrightarrow> clamp g 1 hi = hi" using clamp_progress(2)[OF assms(2), of g] g(1) by linarith
  moreover have "clamp g 1 hi = hi \<or> g \<le> clamp g 1 hi" by (rule clamp_progress(1)[OF assms(2)])
  ultimately have "(hi \<le> fps \<longrightarrow> clamp g 1 hi = hi) \<and> (clamp g 1 hi = hi \<or> increase_fps_count u' = 0 \<and> fps < clamp g 1 hi
      \<or> increase_fps_count u' = Suc (increase_fps_count u) \<and> fps \<le> clamp g 1 hi)"
    using g conjunct2[OF e] by auto
  with c conjunct1[OF e] show ?thesis unfolding g_def[symmetric] by blast
qed

lemma adjust_ratio_frame [simp]:
  "users (adjust_ratio now dyn q) = users q" "qos_fps (adjust_ratio now dyn q) = qos_fps q"
  "new_user_instant (adjust_ratio now dyn q) = new_user_instant q"
  unfolding adjust_ratio_def Let_def by simp_all

lemma adjust_fps_frame [simp]:
  "users (adjust_fps now q) = users q" "new_user_instant (adjust_fps now q) = new_user_instant q"
  unfolding adjust_fps_def Let_def by simp_all

lemma highest_fps_cong: "users q = users p \<Longrightarrow> highest_fps q = highest_fps p"
  by (simp add: highest_fps_def)

lemma highest_fps_single: "users q = [(i, u)] \<Longrightarrow> highest_fps q = clamp (if user_fps u \<ge> MIN_FPS then user_fps u else FPS) MIN_FPS MAX_FPS"
  by (simp add: highest_fps_def)

text \<open>One report of the only user of a session that is older than a second.\<close>

lemma single_user_sample:
  assumes q: "users q = [(i, u)]" "\<not> response_delayed (user_delay u)"
    and late: "new_user_instant q + 1000 \<le> now"
  shows "\<exists>mf nf u'. users (user_network_delay now vaapi i d q) = [(i, u')]
    \<and> user_delay u' = delay_sample mf nf (highest_fps q) (qos_fps q) d (user_delay u)
    \<and> highest_fps (user_network_delay now vaapi i d q) = highest_fps q
    \<and> new_user_instant (user_network_delay now vaapi i d q) = new_user_instant q
    \<and> delay_fps (user_delay u') = Some (qos_fps (user_network_delay now vaapi i d q))"
proof -
  obtain mf nf where t: "target_fps (quality_ratio (latest_quality q)) = (mf, nf)" by force
  define s where "s = delay_sample mf nf (highest_fps q) (qos_fps q) d (user_delay u)"
  define u' where "u' = u\<lparr>user_delay := s\<rparr>"
  define q1 where "q1 = with_user i (\<lambda>u. u\<lparr>user_delay := delay_sample mf nf (highest_fps q) (qos_fps q) d (user_delay u)\<rparr>) q"
  have n: "users (user_network_delay now vaapi i d q) = users q1
    \<and> new_user_instant (user_network_delay now vaapi i d q) = new_user_instant q1
    \<and> qos_fps (user_network_delay now vaapi i d q) = qos_fps (adjust_fps now q1)"
    unfolding user_network_delay_def t Let_def prod.case q1_def by simp
  have u1: "users q1 = [(i, u')]" by (simp add: q1_def with_user_def q(1) u'_def s_def)
  have i1: "new_user_instant q1 = new_user_instant q" by (simp add: q1_def with_user_def)
  have "user_fps u' = user_fps u" by (simp add: u'_def user_fps_def)
  then have h: "highest_fps q1 = highest_fps q"
    by (simp add: highest_fps_single[OF u1] highest_fps_single[OF q(1)])
  obtain x where x: "delay_fps s = Some x" "MIN_FPS \<le> x" "x \<le> highest_fps q"
    unfolding s_def using delay_sample_fps[OF highest_one(1)] by blast
  have "\<not> response_delayed s" unfolding s_def delay_sample_frame by (rule q(2))
  moreover have "\<not> (now - new_user_instant q1) div 1000 < 1" using late by (simp add: i1)
  ultimately have "qos_fps (adjust_fps now q1) = clamp x MIN_FPS (highest_fps q)"
    unfolding adjust_fps_def Let_def h u1 by (simp add: u'_def x(1))
  also have "\<dots> = x" using x by (simp add: clamp_def)
  finally have f: "qos_fps (user_network_delay now vaapi i d q) = x" using n by simp
  have hn: "highest_fps (user_network_delay now vaapi i d q) = highest_fps q"
    using n h highest_fps_cong[of "user_network_delay now vaapi i d q" q1] by simp
  show ?thesis
    by (rule exI[of _ mf], rule exI[of _ nf], rule exI[of _ u']) (use n u1 i1 hn f x in \<open>simp add: u'_def s_def\<close>)
qed

definition report_delays :: "bool \<Rightarrow> int \<Rightarrow> (nat \<times> nat) list \<Rightarrow> video_qos \<Rightarrow> video_qos" where
  "report_delays vaapi i reports q = fold (\<lambda>(now, d) q. user_network_delay now vaapi i d q) reports q"

text \<open>What holds of a session of one user after \<open>k\<close> good reports: the newest delays are good, and the
  frame rate is the highest one or has made \<open>k\<close> steps of a third of a frame.\<close>

definition climbing :: "int \<Rightarrow> nat \<Rightarrow> nat \<Rightarrow> nat \<Rightarrow> video_qos \<Rightarrow> bool" where
  "climbing i start hi k q \<longleftrightarrow> (\<exists>u. users q = [(i, u)] \<and> \<not> response_delayed (user_delay u)
     \<and> new_user_instant q = start \<and> highest_fps q = hi
     \<and> length (delay_history (user_delay u)) \<le> Suc HISTORY_DELAY_LEN
     \<and> (\<forall>d \<in> set (take k (rev (delay_history (user_delay u)))). d < 50)
     \<and> (0 < k \<longrightarrow> 1 \<le> qos_fps q \<and> qos_fps q \<le> hi \<and> increase_fps_count (user_delay u) < 3
          \<and> (qos_fps q = hi \<or> k < 3 * qos_fps q + increase_fps_count (user_delay u))))"

lemma rev_push_delay: "length w \<le> Suc HISTORY_DELAY_LEN \<Longrightarrow> rev (push_delay w x) = take (Suc HISTORY_DELAY_LEN) (x # rev w)"
  by (cases "length w \<le> 2") (auto simp: delay_window.push_law rev_drop HISTORY_DELAY_LEN_def)

lemma climbing_step:
  assumes c: "climbing i start hi k q" and d: "d < 50" and late: "start + 1000 \<le> now"
  shows "climbing i start hi (Suc k) (user_network_delay now vaapi i d q)"
proof -
  obtain u where u: "users q = [(i, u)]" "\<not> response_delayed (user_delay u)" "new_user_instant q = start" "highest_fps q = hi"
      "length (delay_history (user_delay u)) \<le> Suc HISTORY_DELAY_LEN"
      "\<forall>d \<in> set (take k (rev (delay_history (user_delay u)))). d < 50"
      "0 < k \<longrightarrow> 1 \<le> qos_fps q \<and> qos_fps q \<le> hi \<and> increase_fps_count (user_delay u) < 3
          \<and> (qos_fps q = hi \<or> k < 3 * qos_fps q + increase_fps_count (user_delay u))"
    using c unfolding climbing_def by blast
  let ?q = "user_network_delay now vaapi i d q" and ?h = "delay_history (user_delay u)"
  obtain mf nf u' where n: "users ?q = [(i, u')]"
      "user_delay u' = delay_sample mf nf hi (qos_fps q) d (user_delay u)"
      "highest_fps ?q = hi" "new_user_instant ?q = start" "delay_fps (user_delay u') = Some (qos_fps ?q)"
    using single_user_sample[OF u(1,2), of now vaapi d] late u(3,4) by auto
  have hi: "1 \<le> hi" using highest_one(1)[of q] u(4) by simp
  have h': "delay_history (user_delay u') = push_delay ?h (max d 10)" by (simp add: n(2) delay_sample_frame)
  have r: "rev (delay_history (user_delay u')) = take (Suc HISTORY_DELAY_LEN) (max d 10 # rev ?h)"
    unfolding h' by (rule rev_push_delay[OF u(5)])
  have good: "\<forall>x \<in> set (take (Suc k) (rev (delay_history (user_delay u')))). x < 50"
    unfolding r using u(6) d set_take_subset_set_take[of "min k HISTORY_DELAY_LEN" k "rev ?h"] by (auto simp: min.commute)
  have b: "1 \<le> qos_fps ?q" "qos_fps ?q \<le> hi" "increase_fps_count (user_delay u') < 3"
    using delay_sample_fps[OF hi, of mf nf "qos_fps q" d "user_delay u"] n(5) delay_sample_counts(1)
    unfolding n(2) by (auto simp: MIN_FPS_def)
  have p: "qos_fps ?q = hi \<or> Suc k < 3 * qos_fps ?q + increase_fps_count (user_delay u')"
  proof (cases "k < 2")
    case True
    then show ?thesis using b(1) by simp
  next
    case False
    have "\<forall>x \<in> set (delay_history (add_delay (max d 10) (user_delay u))). x < 50"
    proof -
      have "Suc HISTORY_DELAY_LEN \<le> Suc k" using False by (simp add: HISTORY_DELAY_LEN_def)
      then have "set (take (Suc k) (rev (push_delay ?h (max d 10)))) = set (push_delay ?h (max d 10))"
        using push_bounds(1)[OF u(5), of "max d 10"] by simp
      then show ?thesis using good unfolding h' by simp
    qed
    moreover have "delay_history (add_delay (max d 10) (user_delay u)) \<noteq> []"
      using delay_window.push_not_empty[OF u(5)] by simp
    ultimately have "avg_delay (add_delay (max d 10) (user_delay u)) < 50" by (intro avg_delay_less) simp_all
    from delay_sample_good[OF this hi, of mf nf "qos_fps q"] obtain x where
      "delay_fps (user_delay u') = Some x" "hi \<le> qos_fps q \<longrightarrow> x = hi"
      "x = hi \<or> increase_fps_count (user_delay u') = 0 \<and> qos_fps q < x
        \<or> increase_fps_count (user_delay u') = Suc (increase_fps_count (user_delay u)) \<and> qos_fps q \<le> x"
      unfolding n(2) by blast
    with n(5) u(7) False show ?thesis by auto
  qed
  have "\<not> response_delayed (user_delay u')" using u(2) by (simp add: n(2) delay_sample_frame)
  moreover have "length (delay_history (user_delay u')) \<le> Suc HISTORY_DELAY_LEN" using push_bounds(1)[OF u(5)] by (simp add: h')
  ultimately show ?thesis unfolding climbing_def using n(1,3,4) good b p by blast
qed

lemma climbing_run:
  "climbing i start hi k q \<Longrightarrow> \<forall>(now, d) \<in> set reports. d < 50 \<and> start + 1000 \<le> now
    \<Longrightarrow> climbing i start hi (k + length reports) (report_delays vaapi i reports q)"
proof (induction reports arbitrary: k q)
  case (Cons a reports)
  obtain now d where a: "a = (now, d)" by force
  with Cons.prems have "climbing i start hi (Suc k) (user_network_delay now vaapi i d q)" by (intro climbing_step) auto
  from Cons.IH[OF this] Cons.prems(2) show ?case by (simp add: report_delays_def a)
qed (simp add: report_delays_def)

text \<open>
  C14. A session with one user, older than a second and not waiting for an answer, reaches the highest frame
  rate after three good reports (below 50 ms) per frame of that rate, from any well-formed state of the user.
\<close>

theorem fps_reaches_highest:
  assumes "users q = [(i, u)]" "\<not> response_delayed (user_delay u)" "user_ok u"
    and "\<forall>(now, d) \<in> set reports. d < 50 \<and> new_user_instant q + 1000 \<le> now"
    and "3 * highest_fps q \<le> Suc (length reports)"
  shows "qos_fps (report_delays vaapi i reports q) = highest_fps q"
proof -
  have "climbing i (new_user_instant q) (highest_fps q) 0 q"
    using assms(1-3) unfolding climbing_def user_ok_def by simp
  from climbing_run[OF this assms(4)]
  have c: "climbing i (new_user_instant q) (highest_fps q) (length reports) (report_delays vaapi i reports q)" by simp
  have "0 < length reports" using assms(5) highest_one(1)[of q] by linarith
  with c assms(5) show ?thesis unfolding climbing_def by force
qed

theorem fps_reaches_highest_witness:
  "qos_fps (report_delays True 7 (replicate 89 (5000, 20)) (on_connection_open 1000 True 7 (qos_default 0))) = 30"
proof -
  define q where "q = on_connection_open 1000 True 7 (qos_default 0)"
  have q: "users q = [(7, user_default)]" "new_user_instant q = 1000"
    by (simp_all add: q_def on_connection_open_def qos_default_def)
  have h: "highest_fps q = 30"
    by (simp add: highest_fps_single[OF q(1)] user_fps_def user_default_def clamp_def FPS_def MIN_FPS_def MAX_FPS_def)
  have "qos_fps (report_delays True 7 (replicate 89 (5000, 20)) q) = highest_fps q"
    by (rule fps_reaches_highest[OF q(1) _ user_default_ok])
      (simp_all add: user_default_def delay_default_def q(2) h)
  then show ?thesis unfolding h unfolding q_def .
qed

end
