(* ===== verification/Service_Hub.thy ===== *)
theory Service_Hub
  imports Hop_Prelude
begin

text \<open>
  Services and their subscribers: \<open>src/server/service.rs\<close>, the senders of \<open>server/connection.rs\<close> and
  \<open>server/input_service.rs\<close>, and the registry of \<open>src/server.rs\<close>.

  A message is modelled by what these files look at; its other content is a type parameter. Sending puts
  a message on one of the two channels of a connection, so every sending operation also returns the list
  of what it sent. The trait \<open>Subscriber\<close> is a record of functions, the trait object \<open>Box<dyn Service>\<close> a
  datatype of the two instances the program has. The lock of a service makes each
  method one step, except \<open>is_subed\<close>, which takes it twice.
\<close>

section \<open>Messages and subscribers\<close>

datatype 'a message =
    VideoFrame 'a
  | SwitchDisplay 'a
  | CursorData u64 'a
  | CursorId u64
  | StopService
  | OtherMessage 'a

datatype channel = Tx | TxVideo

record conn_inner =
  conn_id :: int
  tx :: bool
  tx_video :: bool

type_synonym 'a sent = "(int \<times> channel \<times> 'a message) list"

definition tx_by_video :: "'a message \<Rightarrow> bool" where
  "tx_by_video m = (case m of VideoFrame _ \<Rightarrow> True | SwitchDisplay _ \<Rightarrow> True | _ \<Rightarrow> False)"

definition conn_send :: "'a message \<Rightarrow> conn_inner \<Rightarrow> 'a sent" where
  "conn_send m c =
    (if tx_by_video m then (if tx_video c then [(conn_id c, TxVideo, m)] else [])
     else (if tx c then [(conn_id c, Tx, m)] else []))"

text \<open>The trait \<open>Subscriber + From<ConnInner>\<close>.\<close>

record ('t, 'a) subscriber =
  sub_from :: "conn_inner \<Rightarrow> 't"
  sub_id :: "'t \<Rightarrow> int"
  sub_send :: "'a message \<Rightarrow> 't \<Rightarrow> 't \<times> 'a sent"

definition conn_subscriber :: "(conn_inner, 'a) subscriber" where
  "conn_subscriber = \<lparr>sub_from = (\<lambda>c. c), sub_id = conn_id, sub_send = (\<lambda>m c. (c, conn_send m c))\<rparr>"

record 'a cursor_sub =
  cursor_inner :: conn_inner
  cached :: "(u64, 'a message) map"

definition cursor_send :: "'a message \<Rightarrow> 'a cursor_sub \<Rightarrow> 'a cursor_sub \<times> 'a sent" where
  "cursor_send m s =
    (case m of
       CursorData i _ \<Rightarrow>
         (case cached s i of
            Some m' \<Rightarrow> (s, conn_send m' (cursor_inner s))
          | None \<Rightarrow> (s\<lparr>cached := (cached s)(i \<mapsto> CursorId i)\<rparr>, conn_send m (cursor_inner s)))
     | _ \<Rightarrow> (s, conn_send m (cursor_inner s)))"

definition cursor_subscriber :: "('a cursor_sub, 'a) subscriber" where
  "cursor_subscriber = \<lparr>sub_from = (\<lambda>c. \<lparr>cursor_inner = c, cached = Map.empty\<rparr>),
     sub_id = (\<lambda>s. conn_id (cursor_inner s)), sub_send = cursor_send\<rparr>"

section \<open>A service\<close>

record 't service_inner =
  srv_name :: string
  handle :: bool
  subscribes :: "(int \<times> 't) list"
  new_subscribes :: "(int \<times> 't) list"
  active :: bool
  need_snapshot :: bool
  options :: "(string, string) map"

definition HIBERNATE_TIMEOUT :: nat where "HIBERNATE_TIMEOUT = 30"
definition MAX_ERROR_TIMEOUT :: nat where "MAX_ERROR_TIMEOUT = 1000"
definition SERVICE_OPTION_VALUE_TRUE :: string where "SERVICE_OPTION_VALUE_TRUE = ''1''"
definition SERVICE_OPTION_VALUE_FALSE :: string where "SERVICE_OPTION_VALUE_FALSE = ''0''"

definition service_new :: "string \<Rightarrow> bool \<Rightarrow> 't service_inner" where
  "service_new n snap = \<lparr>srv_name = n, handle = False, subscribes = [], new_subscribes = [], active = True,
     need_snapshot = snap, options = Map.empty\<rparr>"

text \<open>Sending a message to the chosen members of a list of subscribers.\<close>

definition send_where :: "('t, 'a) subscriber \<Rightarrow> (int \<Rightarrow> bool) \<Rightarrow> 'a message \<Rightarrow> (int \<times> 't) list \<Rightarrow> (int \<times> 't) list \<times> 'a sent" where
  "send_where ops P m xs =
    (map (\<lambda>(i, t). (i, if P i then fst (sub_send ops m t) else t)) xs,
     concat (map (\<lambda>(i, t). if P i then snd (sub_send ops m t) else []) xs))"

definition send_new_subscribes :: "('t, 'a) subscriber \<Rightarrow> 'a message \<Rightarrow> 't service_inner \<Rightarrow> 't service_inner \<times> 'a sent" where
  "send_new_subscribes ops m s =
    (let (xs, out) = send_where ops (\<lambda>_. True) m (new_subscribes s) in (s\<lparr>new_subscribes := xs\<rparr>, out))"

definition swap_new_subscribes :: "('t, 'a) subscriber \<Rightarrow> 't service_inner \<Rightarrow> 't service_inner" where
  "swap_new_subscribes ops s =
    s\<lparr>subscribes := fold (\<lambda>(_, t) xs. AList.update (sub_id ops t) t xs) (new_subscribes s) (subscribes s),
      new_subscribes := []\<rparr>"

definition has_subscribes :: "'t service_inner \<Rightarrow> bool" where
  "has_subscribes s \<longleftrightarrow> length (subscribes s) > 0 \<or> length (new_subscribes s) > 0"

text \<open>\<open>is_subed\<close> takes the lock twice, once per table, and other threads may run in between:
  \<open>is_subed_reads\<close> is its answer when the first read sees the one and the second the other state, \<open>is_subed\<close> its
  answer when the service does not change in between.\<close>

definition is_subed_reads :: "'t service_inner \<Rightarrow> 't service_inner \<Rightarrow> int \<Rightarrow> bool" where
  "is_subed_reads s s' i \<longleftrightarrow> map_of (subscribes s) i \<noteq> None \<or> map_of (new_subscribes s') i \<noteq> None"

definition is_subed :: "'t service_inner \<Rightarrow> int \<Rightarrow> bool" where
  "is_subed s i \<longleftrightarrow> is_subed_reads s s i"

definition on_subscribe :: "('t, 'a) subscriber \<Rightarrow> conn_inner \<Rightarrow> 't service_inner \<Rightarrow> 't service_inner" where
  "on_subscribe ops c s =
    (if map_of (subscribes s) (conn_id c) \<noteq> None then s
     else if need_snapshot s then s\<lparr>new_subscribes := AList.update (conn_id c) (sub_from ops c) (new_subscribes s)\<rparr>
     else s\<lparr>subscribes := AList.update (conn_id c) (sub_from ops c) (subscribes s)\<rparr>)"

definition on_unsubscribe :: "int \<Rightarrow> 't service_inner \<Rightarrow> 't service_inner" where
  "on_unsubscribe i s =
    (if map_of (subscribes s) i = None then s\<lparr>new_subscribes := AList.delete i (new_subscribes s)\<rparr>
     else s\<lparr>subscribes := AList.delete i (subscribes s)\<rparr>)"

definition join_service :: "'t service_inner \<Rightarrow> 't service_inner" where
  "join_service s = s\<lparr>active := False, handle := False\<rparr>"

definition srv_get_option :: "string \<Rightarrow> 't service_inner \<Rightarrow> string option" where
  "srv_get_option k s = options s k"

definition srv_set_option :: "string \<Rightarrow> string \<Rightarrow> 't service_inner \<Rightarrow> string option \<times> 't service_inner" where
  "srv_set_option k v s = (options s k, s\<lparr>options := (options s)(k \<mapsto> v)\<rparr>)"

definition service_ok :: "'t service_inner \<Rightarrow> bool" where
  "service_ok s \<longleftrightarrow> active s \<and> has_subscribes s"

definition is_option_true :: "string \<Rightarrow> 't service_inner \<Rightarrow> bool" where
  "is_option_true k s = (case srv_get_option k s of None \<Rightarrow> False | Some v \<Rightarrow> v = SERVICE_OPTION_VALUE_TRUE)"

definition set_option_bool :: "string \<Rightarrow> bool \<Rightarrow> 't service_inner \<Rightarrow> 't service_inner" where
  "set_option_bool k v s = snd (srv_set_option k (if v then SERVICE_OPTION_VALUE_TRUE else SERVICE_OPTION_VALUE_FALSE) s)"

text \<open>The senders; the identifiers a frame was sent to are returned for the frame controller.\<close>

definition to_subscribes :: "('t, 'a) subscriber \<Rightarrow> (int \<Rightarrow> bool) \<Rightarrow> 'a message \<Rightarrow> 't service_inner \<Rightarrow> 't service_inner \<times> 'a sent" where
  "to_subscribes ops P m s = (let (xs, out) = send_where ops P m (subscribes s) in (s\<lparr>subscribes := xs\<rparr>, out))"

definition send_shared :: "('t, 'a) subscriber \<Rightarrow> 'a message \<Rightarrow> 't service_inner \<Rightarrow> 't service_inner \<times> 'a sent" where
  "send_shared ops m s = to_subscribes ops (\<lambda>_. True) m s"

definition send_to :: "('t, 'a) subscriber \<Rightarrow> 'a message \<Rightarrow> int \<Rightarrow> 't service_inner \<Rightarrow> 't service_inner \<times> 'a sent" where
  "send_to ops m i s = to_subscribes ops (\<lambda>j. j = i) m s"

definition send_to_others :: "('t, 'a) subscriber \<Rightarrow> 'a message \<Rightarrow> int \<Rightarrow> 't service_inner \<Rightarrow> 't service_inner \<times> 'a sent" where
  "send_to_others ops m i s = to_subscribes ops (\<lambda>j. j \<noteq> i) m s"

text \<open>\<open>send_without\<close> compares the subscriber's own identifier, not the key of the table.\<close>

definition send_without :: "('t, 'a) subscriber \<Rightarrow> 'a message \<Rightarrow> int \<Rightarrow> 't service_inner \<Rightarrow> 't service_inner \<times> 'a sent" where
  "send_without ops m i s =
    (let xs = subscribes s in
     (s\<lparr>subscribes := map (\<lambda>(j, t). (j, if i \<noteq> sub_id ops t then fst (sub_send ops m t) else t)) xs\<rparr>,
      concat (map (\<lambda>(j, t). if i \<noteq> sub_id ops t then snd (sub_send ops m t) else []) xs)))"

definition send_video_frame :: "('t, 'a) subscriber \<Rightarrow> 'a message \<Rightarrow> 't service_inner \<Rightarrow> int set \<times> 't service_inner \<times> 'a sent" where
  "send_video_frame ops m s =
    (let (s', out) = send_shared ops m s in (set (map (\<lambda>(_, t). sub_id ops t) (subscribes s')), s', out))"

section \<open>The threads of a service\<close>

text \<open>\<open>snapshot\<close> with a callback that sends \<open>msgs\<close>; the swap happens when the callback returns, with or
  without an error.\<close>

fun snapshot_sends :: "('t, 'a) subscriber \<Rightarrow> 'a message list \<Rightarrow> 't service_inner \<Rightarrow> 't service_inner \<times> 'a sent" where
  "snapshot_sends ops [] s = (s, [])"
| "snapshot_sends ops (m # ms) s =
    (let (s, out) = send_new_subscribes ops m s; (s, outs) = snapshot_sends ops ms s in (s, out @ outs))"

definition snapshot :: "('t, 'a) subscriber \<Rightarrow> 'a message list \<Rightarrow> 't service_inner \<Rightarrow> 't service_inner \<times> 'a sent" where
  "snapshot ops msgs s =
    (if length (new_subscribes s) > 0 then
       let (s, out) = snapshot_sends ops msgs s
       in (swap_new_subscribes ops s, out)
     else (s, []))"

text \<open>The pause of \<open>run\<close> after a failed callback that took \<open>elapsed\<close> milliseconds.\<close>

definition error_pause :: "nat \<Rightarrow> nat \<Rightarrow> nat" where
  "error_pause elapsed t =
    (let t = (if elapsed > MAX_ERROR_TIMEOUT then HIBERNATE_TIMEOUT else t * 2)
     in if t > MAX_ERROR_TIMEOUT then MAX_ERROR_TIMEOUT else t)"

text \<open>The pauses of \<open>run\<close> over the results of its callback, \<^const>\<open>None\<close> a success, \<^const>\<open>Some\<close> the time
  a failed call took.\<close>

fun run_pauses :: "nat \<Rightarrow> nat option list \<Rightarrow> nat list" where
  "run_pauses t [] = []"
| "run_pauses t (None # rs) = HIBERNATE_TIMEOUT # run_pauses t rs"
| "run_pauses t (Some elapsed # rs) =
    (let t = error_pause elapsed t in (t + HIBERNATE_TIMEOUT) # run_pauses t rs)"

text \<open>The rounds of \<open>repeat\<close>: what it calls and how long it sleeps. A round is given by whether there are
  subscribers, whether the callback succeeds, and how long the calls take.\<close>

datatype action = Init_State | Callback | Reset_State

fun repeat_rounds :: "nat \<Rightarrow> bool \<Rightarrow> (bool \<times> bool \<times> nat) list \<Rightarrow> (action list \<times> nat) list" where
  "repeat_rounds interval may_reset [] = []"
| "repeat_rounds interval may_reset ((subscribed, ok, work) # rs) =
    (let calls = (if subscribed then (if \<not> may_reset then [Init_State] else []) @ [Callback]
                  else if may_reset then [Reset_State] else []);
         error = (if subscribed \<and> \<not> ok then MAX_ERROR_TIMEOUT else 0);
         elapsed = work + error;
         rest = (if elapsed < interval then interval - elapsed else 0)
     in (calls, error + rest) # repeat_rounds interval subscribed rs)"

text \<open>
  Interleavings: connections subscribe and unsubscribe at any time, any thread sends, and the thread of the
  service opens a snapshot when there are new subscribers, sends to them, and closes it. \<open>phase\<close> says that a
  snapshot is open; \<open>log\<close> is what has been sent, newest last.
\<close>

record ('t, 'a) hub =
  service :: "'t service_inner"
  phase :: bool
  log :: "'a sent"

datatype 'a hub_event =
    Subscribe conn_inner
  | Unsubscribe int
  | SnapshotBegin
  | SnapshotSend "'a message"
  | SnapshotDrop
  | Send "'a message"
  | SendTo "'a message" int
  | SendToOthers "'a message" int
  | SendWithout "'a message" int

definition after :: "('t, 'a) hub \<Rightarrow> 't service_inner \<times> 'a sent \<Rightarrow> ('t, 'a) hub" where
  "after h r = h\<lparr>service := fst r, log := log h @ snd r\<rparr>"

inductive hub_step :: "('t, 'a) subscriber \<Rightarrow> ('t, 'a) hub \<Rightarrow> 'a hub_event \<Rightarrow> ('t, 'a) hub \<Rightarrow> bool"
  for ops :: "('t, 'a) subscriber" where
  subscribed: "hub_step ops h (Subscribe c) (h\<lparr>service := on_subscribe ops c (service h)\<rparr>)"
| unsubscribed: "hub_step ops h (Unsubscribe i) (h\<lparr>service := on_unsubscribe i (service h)\<rparr>)"
| begun: "\<not> phase h \<Longrightarrow> hub_step ops h SnapshotBegin (h\<lparr>phase := length (new_subscribes (service h)) > 0\<rparr>)"
| snapshot_sent: "phase h \<Longrightarrow> hub_step ops h (SnapshotSend m) (after h (send_new_subscribes ops m (service h)))"
| dropped: "phase h \<Longrightarrow> hub_step ops h SnapshotDrop (h\<lparr>service := swap_new_subscribes ops (service h), phase := False\<rparr>)"
| sent: "hub_step ops h (Send m) (after h (send_shared ops m (service h)))"
| sent_to: "hub_step ops h (SendTo m i) (after h (send_to ops m i (service h)))"
| sent_to_others: "hub_step ops h (SendToOthers m i) (after h (send_to_others ops m i (service h)))"
| sent_without: "hub_step ops h (SendWithout m i) (after h (send_without ops m i (service h)))"

inductive_cases hub_stepE: "hub_step ops h e h'"

inductive_simps hub_step_simps:
  "hub_step ops h (Subscribe c) h'" "hub_step ops h (Unsubscribe i) h'"
  "hub_step ops h SnapshotBegin h'" "hub_step ops h (SnapshotSend m) h'" "hub_step ops h SnapshotDrop h'"

inductive hub_run :: "('t, 'a) subscriber \<Rightarrow> ('t, 'a) hub \<Rightarrow> 'a hub_event list \<Rightarrow> ('t, 'a) hub \<Rightarrow> bool"
  for ops :: "('t, 'a) subscriber" where
  none: "hub_run ops h [] h"
| more: "hub_step ops h e h' \<Longrightarrow> hub_run ops h' es h'' \<Longrightarrow> hub_run ops h (e # es) h''"

inductive_simps hub_run_Nil [simp]: "hub_run ops h [] h'"
inductive_simps hub_run_Cons: "hub_run ops h (e # es) h'"

definition hub_new :: "string \<Rightarrow> bool \<Rightarrow> ('t, 'a) hub" where
  "hub_new n snap = \<lparr>service = service_new n snap, phase = False, log = []\<rparr>"

section \<open>The registry\<close>

datatype VideoSource = Monitor | Camera

definition service_name_prefix :: "VideoSource \<Rightarrow> string" where
  "service_name_prefix v = (case v of Monitor \<Rightarrow> ''monitor'' | Camera \<Rightarrow> ''camera'')"

definition get_service_name :: "VideoSource \<Rightarrow> nat \<Rightarrow> string" where
  "get_service_name v idx = service_name_prefix v @ show_nat idx"

datatype 'a boxed =
    Generic "conn_inner service_inner"
  | MouseCursor "'a cursor_sub service_inner"

definition boxed_name :: "'a boxed \<Rightarrow> string" where
  "boxed_name b = (case b of Generic s \<Rightarrow> srv_name s | MouseCursor s \<Rightarrow> srv_name s)"

definition boxed_on_subscribe :: "conn_inner \<Rightarrow> 'a boxed \<Rightarrow> 'a boxed" where
  "boxed_on_subscribe c b =
    (case b of Generic s \<Rightarrow> Generic (on_subscribe (conn_subscriber :: (conn_inner, 'a) subscriber) c s)
     | MouseCursor s \<Rightarrow> MouseCursor (on_subscribe cursor_subscriber c s))"

definition boxed_on_unsubscribe :: "int \<Rightarrow> 'a boxed \<Rightarrow> 'a boxed" where
  "boxed_on_unsubscribe i b =
    (case b of Generic s \<Rightarrow> Generic (on_unsubscribe i s) | MouseCursor s \<Rightarrow> MouseCursor (on_unsubscribe i s))"

definition boxed_is_subed :: "'a boxed \<Rightarrow> int \<Rightarrow> bool" where
  "boxed_is_subed b i = (case b of Generic s \<Rightarrow> is_subed s i | MouseCursor s \<Rightarrow> is_subed s i)"

definition boxed_set_option :: "string \<Rightarrow> string \<Rightarrow> 'a boxed \<Rightarrow> 'a boxed" where
  "boxed_set_option k v b =
    (case b of Generic s \<Rightarrow> Generic (snd (srv_set_option k v s)) | MouseCursor s \<Rightarrow> MouseCursor (snd (srv_set_option k v s)))"

definition boxed_join :: "'a boxed \<Rightarrow> 'a boxed" where
  "boxed_join b = (case b of Generic s \<Rightarrow> Generic (join_service s) | MouseCursor s \<Rightarrow> MouseCursor (join_service s))"

text \<open>\<open>primary\<close> is \<open>PRIMARY_DISPLAY_IDX\<close>, fixed when the program starts; \<open>conn_count\<close> is the global
  \<open>CONN_COUNT\<close>.\<close>

record 'a server =
  connections :: "(int \<times> conn_inner) list"
  services :: "(string \<times> 'a boxed) list"
  id_count :: int
  conn_count :: nat

definition is_video_service_name :: "string \<Rightarrow> bool" where
  "is_video_service_name n \<longleftrightarrow> starts_with n (service_name_prefix Monitor) \<or> starts_with n (service_name_prefix Camera)"

definition contains :: "string \<Rightarrow> 'a server \<Rightarrow> bool" where
  "contains n v \<longleftrightarrow> map_of (services v) n \<noteq> None"

definition add_service :: "'a boxed \<Rightarrow> 'a server \<Rightarrow> 'a server" where
  "add_service b v = v\<lparr>services := AList.update (boxed_name b) b (services v)\<rparr>"

text \<open>\<open>video_service::new\<close>: a service that needs snapshots, its thread started.\<close>

definition video_service_new :: "VideoSource \<Rightarrow> nat \<Rightarrow> 'a boxed" where
  "video_service_new source idx = Generic ((service_new (get_service_name source idx) True)\<lparr>handle := True\<rparr>)"

definition try_add_primary_camera_service :: "bool \<Rightarrow> 'a server \<Rightarrow> 'a server" where
  "try_add_primary_camera_service camera_exists v =
    (if \<not> camera_exists then v
     else let n = get_service_name Camera 0 in
          if \<not> contains n v then add_service (video_service_new Camera 0) v else v)"

definition try_add_primay_video_service :: "nat \<Rightarrow> 'a server \<Rightarrow> 'a server" where
  "try_add_primay_video_service primary v =
    (let n = get_service_name Monitor primary in
     if \<not> contains n v then add_service (video_service_new Monitor primary) v else v)"

definition map_services :: "(string \<Rightarrow> 'a boxed \<Rightarrow> 'a boxed) \<Rightarrow> 'a server \<Rightarrow> 'a server" where
  "map_services f v = v\<lparr>services := map (\<lambda>(n, b). (n, f n b)) (services v)\<rparr>"

definition add_camera_connection :: "bool \<Rightarrow> conn_inner \<Rightarrow> 'a server \<Rightarrow> 'a server" where
  "add_camera_connection camera_exists c v =
    (let v = (if camera_exists then
                map_services (\<lambda>n b. if n = get_service_name Camera 0 then boxed_on_subscribe c b else b) v
              else v)
     in v\<lparr>connections := AList.update (conn_id c) c (connections v)\<rparr>)"

definition add_connection :: "nat \<Rightarrow> conn_inner \<Rightarrow> string list \<Rightarrow> 'a server \<Rightarrow> 'a server" where
  "add_connection primary c noperms v =
    (let v = map_services (\<lambda>_ b.
           let n = boxed_name b in
           if is_video_service_name n \<and> n \<noteq> get_service_name Monitor primary then b
           else if n \<notin> set noperms then boxed_on_subscribe c b else b) v;
         v = v\<lparr>connections := AList.update (conn_id c) c (connections v)\<rparr>
     in v\<lparr>conn_count := length (connections v)\<rparr>)"

definition remove_connection :: "int \<Rightarrow> 'a server \<Rightarrow> 'a server" where
  "remove_connection i v =
    (let v = map_services (\<lambda>_ b. boxed_on_unsubscribe i b) v;
         v = v\<lparr>connections := AList.delete i (connections v)\<rparr>
     in v\<lparr>conn_count := length (connections v)\<rparr>)"

definition close_connections :: "'a server \<Rightarrow> 'a sent" where
  "close_connections v = concat (map (\<lambda>(_, c). conn_send StopService c) (connections v))"

text \<open>\<open>Server::subscribe\<close>. The service goes on while it is asked: \<open>meanwhile\<close> is what happens to it between the
  two reads of \<open>is_subed\<close>; \<open>subscribe\<close> is the case that nothing does.\<close>

definition boxed_reads :: "'a boxed \<Rightarrow> 'a boxed \<Rightarrow> int \<Rightarrow> bool" where
  "boxed_reads b b' i =
    (case b of
       Generic s \<Rightarrow> (case b' of Generic s' \<Rightarrow> is_subed_reads s s' i | MouseCursor _ \<Rightarrow> False)
     | MouseCursor s \<Rightarrow> (case b' of MouseCursor s' \<Rightarrow> is_subed_reads s s' i | Generic _ \<Rightarrow> False))"

definition subscribe_during :: "('a boxed \<Rightarrow> 'a boxed) \<Rightarrow> string \<Rightarrow> conn_inner \<Rightarrow> bool \<Rightarrow> 'a server \<Rightarrow> 'a server" where
  "subscribe_during meanwhile name c sub v =
    map_services (\<lambda>n b.
      if n = name then
        (let b' = meanwhile b in
         if boxed_reads b b' (conn_id c) = sub then b'
         else if sub then boxed_on_subscribe c b' else boxed_on_unsubscribe (conn_id c) b')
      else b) v"

definition subscribe :: "string \<Rightarrow> conn_inner \<Rightarrow> bool \<Rightarrow> 'a server \<Rightarrow> 'a server" where
  "subscribe name c sub v =
    map_services (\<lambda>n b.
      if n = name then
        (if boxed_is_subed b (conn_id c) = sub then b
         else if sub then boxed_on_subscribe c b else boxed_on_unsubscribe (conn_id c) b)
      else b) v"

definition get_new_id :: "'a server \<Rightarrow> int \<times> 'a server" where
  "get_new_id v = (let i = sint (word_of_int (id_count v + 1) :: u32) in (i, v\<lparr>id_count := i\<rparr>))"

definition set_video_service_opt :: "(VideoSource \<times> nat) option \<Rightarrow> string \<Rightarrow> string \<Rightarrow> 'a server \<Rightarrow> 'a server" where
  "set_video_service_opt display k x v =
    map_services (\<lambda>n b.
      case display of
        Some (source, d) \<Rightarrow>
          if n \<noteq> get_service_name source d then b
          else if is_video_service_name n then boxed_set_option k x b else b
      | None \<Rightarrow> if is_video_service_name n then boxed_set_option k x b else b) v"

definition get_subbed_displays_count :: "int \<Rightarrow> 'a server \<Rightarrow> nat" where
  "get_subbed_displays_count i v =
    length (filter (\<lambda>n. is_video_service_name n \<and>
       (case map_of (services v) n of Some b \<Rightarrow> boxed_is_subed b i | None \<Rightarrow> False)) (map fst (services v)))"

definition capture_displays :: "conn_inner \<Rightarrow> VideoSource \<Rightarrow> nat list \<Rightarrow> bool \<Rightarrow> bool \<Rightarrow> 'a server \<Rightarrow> 'a server" where
  "capture_displays c source ds include exclude v =
    (let names = map (get_service_name source) ds in
     fold (\<lambda>n v.
       if is_video_service_name n then
         (if n \<in> set names then if include then subscribe n c True v else v
          else if exclude then subscribe n c False v else v)
       else v) (map fst (services v)) v)"

definition drop_server :: "'a server \<Rightarrow> 'a server" where
  "drop_server v = map_services (\<lambda>_ b. boxed_join b) v"

end
