(* ===== verification/Service_Contracts.thy ===== *)
theory Service_Contracts
  imports Service_Hub
begin

text \<open>
  What the services and the registry of \<open>Service_Hub\<close> promise. The laws of the trait \<open>Subscriber\<close> and of the
  trait object \<open>Service\<close> are locales, interpreted on the two kinds of subscriber and on the boxed services;
  the interleavings of a service are proved once inside the first, the registry inside the second.
\<close>

section \<open>The contract of a subscriber\<close>

locale subscriber_laws =
  fixes ops :: "('t, 'a) subscriber"
  assumes id_from: "sub_id ops (sub_from ops c) = conn_id c"
    and id_send: "sub_id ops (fst (sub_send ops m t)) = sub_id ops t"
    and send_addr: "a \<in> set (snd (sub_send ops m t)) \<Longrightarrow> fst a = sub_id ops t"

interpretation conn: subscriber_laws "conn_subscriber :: (conn_inner, 'a) subscriber"
  by unfold_locales (auto simp: conn_subscriber_def conn_send_def split: if_splits)

lemma cursor_inner_send [simp]: "cursor_inner (fst (cursor_send m s)) = cursor_inner s"
  by (simp add: cursor_send_def split: message.split option.split)

interpretation cursor: subscriber_laws "cursor_subscriber :: ('a cursor_sub, 'a) subscriber"
  by unfold_locales
    (auto simp: cursor_subscriber_def cursor_send_def conn_send_def split: if_splits message.splits option.splits)

section \<open>Well-formed services\<close>

text \<open>The two tables have distinct keys, the keys are the identifiers of the subscribers, nobody is in both,
  and only a service with snapshots has new subscribers.\<close>

definition keyed :: "('t, 'a) subscriber \<Rightarrow> (int \<times> 't) list \<Rightarrow> bool" where
  "keyed ops xs \<longleftrightarrow> distinct (map fst xs) \<and> (\<forall>(i, t) \<in> set xs. sub_id ops t = i)"

definition service_wf :: "('t, 'a) subscriber \<Rightarrow> 't service_inner \<Rightarrow> bool" where
  "service_wf ops s \<longleftrightarrow> keyed ops (subscribes s) \<and> keyed ops (new_subscribes s)
     \<and> (\<forall>i. map_of (subscribes s) i = None \<or> map_of (new_subscribes s) i = None)
     \<and> (need_snapshot s \<or> new_subscribes s = [])"

lemma keyed_update: "keyed ops xs \<Longrightarrow> sub_id ops t = i \<Longrightarrow> keyed ops (AList.update i t xs)"
  by (auto simp: keyed_def distinct_update dest: values_update)

lemma keyed_delete: "keyed ops xs \<Longrightarrow> keyed ops (AList.delete i xs)"
  by (auto simp: keyed_def distinct_delete dest: values_delete)

lemma keyed_map:
  assumes "keyed ops xs" "\<And>j t. sub_id ops (f j t) = sub_id ops t"
  shows "keyed ops (map (\<lambda>(j, t). (j, f j t)) xs)"
proof -
  have "map fst (map (\<lambda>(j, t). (j, f j t)) xs) = map fst xs" by (rule keys_map)
  then have "distinct (map fst (map (\<lambda>(j, t). (j, f j t)) xs))" using assms(1) by (simp only: keyed_def)
  moreover have "\<forall>(i, t) \<in> set (map (\<lambda>(j, t). (j, f j t)) xs). sub_id ops t = i"
    using assms by (auto simp: keyed_def)
  ultimately show ?thesis by (simp only: keyed_def)
qed

lemma map_of_map_values: "map_of (map (\<lambda>(j, t). (j, f j t)) xs) i = map_option (f i) (map_of xs i)"
  by (induction xs) auto

lemma map_of_mapped_None [simp]: "map_of (map (\<lambda>(j, t). (j, f j t)) xs) i = None \<longleftrightarrow> map_of xs i = None"
  by (simp add: map_of_map_values)

lemma update_lookup [simp]: "map_of (AList.update k v xs) i = (if i = k then Some v else map_of xs i)"
  by (simp add: update_conv')

lemma delete_lookup [simp]: "map_of (AList.delete k xs) i = (if i = k then None else map_of xs i)"
  by (simp add: delete_conv')

lemma fold_update_lookup:
  assumes "keyed ops ns"
  shows "map_of (fold (\<lambda>(_, t) xs. AList.update (sub_id ops t) t xs) ns xs) i =
    (case map_of ns i of Some t \<Rightarrow> Some t | None \<Rightarrow> map_of xs i)"
  using assms
proof (induction ns arbitrary: xs)
  case (Cons a ns)
  obtain j t where a: "a = (j, t)" by force
  have k: "keyed ops ns" "sub_id ops t = j" "map_of ns j = None"
    using Cons.prems by (auto simp: keyed_def a map_of_eq_None_iff)
  show ?case using Cons.IH[OF k(1)] k(2,3) by (simp add: a split: option.split)
qed simp

lemma fold_update_keyed:
  "keyed ops ns \<Longrightarrow> keyed ops xs \<Longrightarrow> keyed ops (fold (\<lambda>(_, t) xs. AList.update (sub_id ops t) t xs) ns xs)"
proof (induction ns arbitrary: xs)
  case (Cons a ns)
  then have "keyed ops ns" by (auto simp: keyed_def)
  then show ?case using Cons by (cases a) (simp add: keyed_update)
qed simp

lemma service_wfD:
  "service_wf ops s \<Longrightarrow> map_of (subscribes s) i = Some t \<Longrightarrow> map_of (new_subscribes s) i = None"
  by (metis option.distinct(1) service_wf_def)

text \<open>What a service promises about its subscribers.\<close>

lemma is_subed_on_subscribe: "is_subed (on_subscribe ops c s) i \<longleftrightarrow> i = conn_id c \<or> is_subed s i"
  by (auto simp: is_subed_def is_subed_reads_def on_subscribe_def)

lemma is_subed_on_unsubscribe: "service_wf ops s \<Longrightarrow> is_subed (on_unsubscribe i s) j \<longleftrightarrow> j \<noteq> i \<and> is_subed s j"
  by (auto simp: is_subed_def is_subed_reads_def on_unsubscribe_def dest: service_wfD)

lemma is_subed_swap: "service_wf ops s \<Longrightarrow> is_subed (swap_new_subscribes ops s) i \<longleftrightarrow> is_subed s i"
  by (auto simp: is_subed_def is_subed_reads_def swap_new_subscribes_def service_wf_def fold_update_lookup split: option.split)

lemma send_where_lookup [simp]: "map_of (fst (send_where ops P m xs)) i = None \<longleftrightarrow> map_of xs i = None"
  unfolding send_where_def fst_conv by (rule map_of_mapped_None)

lemma is_subed_sends [simp]:
  "is_subed (fst (to_subscribes ops P m s)) i \<longleftrightarrow> is_subed s i"
  "is_subed (fst (send_new_subscribes ops m s)) i \<longleftrightarrow> is_subed s i"
  "is_subed (fst (send_without ops m k s)) i \<longleftrightarrow> is_subed s i"
  unfolding is_subed_def is_subed_reads_def to_subscribes_def send_new_subscribes_def send_without_def send_where_def Let_def by simp_all

text \<open>The abstract service: the set of its subscribers.\<close>

fun members_step :: "'a hub_event \<Rightarrow> int set \<Rightarrow> int set" where
  "members_step (Subscribe c) A = insert (conn_id c) A"
| "members_step (Unsubscribe i) A = A - {i}"
| "members_step _ A = A"

definition members :: "('t, 'a) hub \<Rightarrow> int set" where
  "members h = {i. is_subed (service h) i}"

text \<open>What does not touch the subscription of \<open>i\<close> and closes no snapshot.\<close>

fun leaves :: "int \<Rightarrow> 'a hub_event \<Rightarrow> bool" where
  "leaves i (Subscribe c) \<longleftrightarrow> conn_id c \<noteq> i"
| "leaves i (Unsubscribe j) \<longleftrightarrow> j \<noteq> i"
| "leaves i SnapshotDrop \<longleftrightarrow> False"
| "leaves i _ \<longleftrightarrow> True"

text \<open>A service that is in the state \<open>s\<close> after \<open>es\<close> and in \<open>s'\<close> after \<open>es'\<close> more keeps the set of its subscribers,
  and \<open>is_subed\<close> with its reads in these two states tells the truth about that set: who it affirms is a
  member at one of the reads, and if its subject is left alone in between the answer is membership.\<close>

definition implements_set ::
  "('t, 'a) subscriber \<Rightarrow> 'a hub_event list \<Rightarrow> 't service_inner \<Rightarrow> 'a hub_event list \<Rightarrow> 't service_inner \<Rightarrow> bool" where
  "implements_set ops es s es' s' \<longleftrightarrow>
    service_wf ops s \<and>
    {i. map_of (subscribes s) i \<noteq> None \<or> map_of (new_subscribes s) i \<noteq> None} = fold members_step es {} \<and>
    (\<forall>i. is_subed_reads s s' i \<longrightarrow> i \<in> fold members_step es {} \<or> i \<in> fold members_step (es @ es') {}) \<and>
    (\<forall>i. list_all (leaves i) es' \<longrightarrow> is_subed_reads s s' i = (i \<in> fold members_step es {}))"

text \<open>What one subscriber has received, oldest first.\<close>

definition payload :: "'a sent \<Rightarrow> 'a message list" where
  "payload l = map (\<lambda>(_, _, m). m) l"

definition inbox :: "int \<Rightarrow> 'a sent \<Rightarrow> 'a message list" where
  "inbox i l = payload (filter (\<lambda>(j, _, _). j = i) l)"

lemma inbox_simps [simp]: "inbox i [] = []" "inbox i (xs @ ys) = inbox i xs @ inbox i ys"
  by (simp_all add: inbox_def payload_def)

definition waiting :: "('t, 'a) hub \<Rightarrow> int \<Rightarrow> bool" where
  "waiting h i \<longleftrightarrow> map_of (new_subscribes (service h)) i \<noteq> None"

lemma service_after [simp]: "service (after h r) = fst r" "phase (after h r) = phase h" "log (after h r) = log h @ snd r"
  by (simp_all add: after_def)

lemma inbox_one: "\<forall>a \<in> set l. fst a = k \<Longrightarrow> inbox j l = (if k = j then payload l else [])"
  by (induction l) (auto simp: inbox_def payload_def)

context subscriber_laws
begin

lemma wf_new: "service_wf ops (service_new n snap)"
  by (simp add: service_wf_def keyed_def service_new_def)

lemma wf_on_subscribe: "service_wf ops s \<Longrightarrow> service_wf ops (on_subscribe ops c s)"
  by (auto simp: service_wf_def on_subscribe_def keyed_update id_from)

lemma wf_on_unsubscribe: "service_wf ops s \<Longrightarrow> service_wf ops (on_unsubscribe i s)"
  by (auto simp: service_wf_def on_unsubscribe_def keyed_delete)

lemma wf_swap: "service_wf ops s \<Longrightarrow> service_wf ops (swap_new_subscribes ops s)"
  by (auto simp: service_wf_def swap_new_subscribes_def fold_update_keyed) (simp add: keyed_def)

lemma wf_to_subscribes: "service_wf ops s \<Longrightarrow> service_wf ops (fst (to_subscribes ops P m s))"
  by (auto simp: service_wf_def to_subscribes_def send_where_def keyed_map id_send)

lemma wf_send_new: "service_wf ops s \<Longrightarrow> service_wf ops (fst (send_new_subscribes ops m s))"
  by (auto simp: service_wf_def send_new_subscribes_def send_where_def keyed_map id_send)

lemma wf_send_without: "service_wf ops s \<Longrightarrow> service_wf ops (fst (send_without ops m i s))"
  by (auto simp: service_wf_def send_without_def Let_def keyed_map id_send)

lemmas wf_sends = wf_on_subscribe wf_on_unsubscribe wf_swap wf_to_subscribes wf_send_new wf_send_without

lemma hub_step_wf: "hub_step ops h e h' \<Longrightarrow> service_wf ops (service h) \<Longrightarrow> service_wf ops (service h')"
  by (erule hub_stepE) (simp_all add: wf_sends send_shared_def send_to_def send_to_others_def)

lemma hub_run_wf: "hub_run ops h es h' \<Longrightarrow> service_wf ops (service h) \<Longrightarrow> service_wf ops (service h')"
  by (induction rule: hub_run.induct) (auto intro: hub_step_wf)

lemma hub_step_members: "hub_step ops h e h' \<Longrightarrow> service_wf ops (service h) \<Longrightarrow> members h' = members_step e (members h)"
  by (erule hub_stepE)
    (auto simp: members_def is_subed_on_subscribe is_subed_on_unsubscribe is_subed_swap send_shared_def send_to_def send_to_others_def)

lemma hub_step_tables:
  "hub_step ops h e h' \<Longrightarrow> leaves i e \<Longrightarrow>
   (map_of (subscribes (service h')) i = None) = (map_of (subscribes (service h)) i = None) \<and>
   (map_of (new_subscribes (service h')) i = None) = (map_of (new_subscribes (service h)) i = None)"
  unfolding hub_step.simps
  by (elim disjE exE conjE)
    (simp_all add: on_subscribe_def on_unsubscribe_def send_shared_def send_to_def send_to_others_def send_without_def
      to_subscribes_def send_new_subscribes_def send_where_def Let_def)

lemma hub_run_tables:
  "hub_run ops h es h' \<Longrightarrow> list_all (leaves i) es \<Longrightarrow>
   (map_of (subscribes (service h')) i = None) = (map_of (subscribes (service h)) i = None) \<and>
   (map_of (new_subscribes (service h')) i = None) = (map_of (new_subscribes (service h)) i = None)"
  by (induction rule: hub_run.induct) (auto dest: hub_step_tables)

lemma hub_run_members:
  "hub_run ops h es h' \<Longrightarrow> service_wf ops (service h) \<Longrightarrow> members h' = fold members_step es (members h)"
  by (induction rule: hub_run.induct) (simp_all add: hub_step_members hub_step_wf)

text \<open>What \<open>is_subed\<close> answers with its two reads at two points of a run.\<close>

lemma run_implements:
  assumes r: "hub_run ops h es h1" "hub_run ops h1 es' h2" and wf: "service_wf ops (service h)" and none: "members h = {}"
  shows "implements_set ops es (service h1) es' (service h2)"
proof -
  have wf1: "service_wf ops (service h1)" by (rule hub_run_wf[OF r(1) wf])
  have m1: "members h1 = fold members_step es {}" using hub_run_members[OF r(1) wf] by (simp add: none)
  have m2: "members h2 = fold members_step (es @ es') {}" using hub_run_members[OF r(2) wf1] by (simp add: m1)
  have at: "is_subed_reads (service h1) (service h2) i \<Longrightarrow> i \<in> members h1 \<or> i \<in> members h2" for i
    by (auto simp: is_subed_reads_def members_def is_subed_def)
  have same: "is_subed_reads (service h1) (service h2) i = (i \<in> members h1)" if "list_all (leaves i) es'" for i
    using hub_run_tables[OF r(2) that] by (simp add: is_subed_reads_def members_def is_subed_def)
  have tables: "{i. map_of (subscribes (service h1)) i \<noteq> None \<or> map_of (new_subscribes (service h1)) i \<noteq> None} = members h1"
    by (simp add: members_def is_subed_def is_subed_reads_def)
  show ?thesis
    unfolding implements_set_def using wf1 at same tables m1 m2 by metis
qed

text \<open>Who receives what a service sends.\<close>

lemma inbox_addressed: "inbox j (snd (sub_send ops m t)) = (if sub_id ops t = j then payload (snd (sub_send ops m t)) else [])"
  by (rule inbox_one) (simp add: send_addr)

lemma inbox_concat:
  assumes "keyed ops xs"
  shows "inbox j (concat (map (\<lambda>(i, t). if P i then snd (sub_send ops m t) else []) xs)) =
    (case map_of xs j of Some t \<Rightarrow> if P j then payload (snd (sub_send ops m t)) else [] | None \<Rightarrow> [])"
  using assms
proof (induction xs)
  case (Cons a xs)
  obtain i t where a: "a = (i, t)" by force
  have k: "keyed ops xs" "sub_id ops t = i" "map_of xs i = None"
    using Cons.prems by (auto simp: keyed_def a map_of_eq_None_iff)
  show ?case using Cons.IH[OF k(1)] k(2,3) by (auto simp: a inbox_addressed)
qed simp

lemma inbox_send_where:
  "keyed ops xs \<Longrightarrow> inbox j (snd (send_where ops P m xs)) =
    (case map_of xs j of Some t \<Rightarrow> if P j then payload (snd (sub_send ops m t)) else [] | None \<Rightarrow> [])"
  unfolding send_where_def snd_conv by (rule inbox_concat)

text \<open>Somebody who is not yet admitted hears nothing but snapshots.\<close>

lemma inbox_to_subscribes:
  "service_wf ops s \<Longrightarrow> inbox j (snd (to_subscribes ops P m s)) =
    (case map_of (subscribes s) j of Some t \<Rightarrow> if P j then payload (snd (sub_send ops m t)) else [] | None \<Rightarrow> [])"
  unfolding to_subscribes_def Let_def by (simp add: case_prod_unfold inbox_send_where service_wf_def)

lemma inbox_send_new:
  "service_wf ops s \<Longrightarrow> inbox j (snd (send_new_subscribes ops m s)) =
    (case map_of (new_subscribes s) j of Some t \<Rightarrow> payload (snd (sub_send ops m t)) | None \<Rightarrow> [])"
  unfolding send_new_subscribes_def Let_def
  by (simp add: case_prod_unfold inbox_send_where service_wf_def if_True split: option.split)

lemma inbox_send_without:
  assumes "service_wf ops s"
  shows "inbox j (snd (send_without ops m i s)) =
    (case map_of (subscribes s) j of Some t \<Rightarrow> if j \<noteq> i then payload (snd (sub_send ops m t)) else [] | None \<Rightarrow> [])"
proof -
  have k: "keyed ops (subscribes s)" using assms by (simp add: service_wf_def)
  have "map (\<lambda>(j, t). if i \<noteq> sub_id ops t then snd (sub_send ops m t) else []) (subscribes s) =
      map (\<lambda>(j, t). if j \<noteq> i then snd (sub_send ops m t) else []) (subscribes s)"
    using k by (auto simp: keyed_def)
  with inbox_concat[OF k, of j "\<lambda>j. j \<noteq> i" m] show ?thesis
    unfolding send_without_def Let_def snd_conv by (simp only:)
qed

lemma need_snapshot_step: "hub_step ops h e h' \<Longrightarrow> need_snapshot (service h') = need_snapshot (service h)"
  by (erule hub_stepE)
    (simp_all add: on_subscribe_def on_unsubscribe_def swap_new_subscribes_def send_new_subscribes_def
      send_shared_def send_to_def send_to_others_def send_without_def to_subscribes_def Let_def case_prod_unfold)

lemma not_admitted_step:
  assumes "hub_step ops h e h'" "service_wf ops (service h)" "need_snapshot (service h)"
    "map_of (subscribes (service h)) i = None" "\<And>m. e \<noteq> SnapshotSend m" "e \<noteq> SnapshotDrop"
  shows "map_of (subscribes (service h')) i = None \<and> inbox i (log h') = inbox i (log h)"
  using assms(1)
proof cases
  case (subscribed c)
  then show ?thesis using assms by (simp add: on_subscribe_def)
next
  case (unsubscribed i)
  then show ?thesis using assms by (simp add: on_unsubscribe_def)
next
  case (sent m)
  then show ?thesis using assms
    by (simp add: send_shared_def inbox_to_subscribes) (simp add: to_subscribes_def Let_def case_prod_unfold)
next
  case (sent_to m i)
  then show ?thesis using assms
    by (simp add: send_to_def inbox_to_subscribes) (simp add: to_subscribes_def Let_def case_prod_unfold)
next
  case (sent_to_others m i)
  then show ?thesis using assms
    by (simp add: send_to_others_def inbox_to_subscribes) (simp add: to_subscribes_def Let_def case_prod_unfold)
next
  case (sent_without m k)
  then show ?thesis using assms by (simp add: inbox_send_without) (simp add: send_without_def Let_def)
qed (use assms in simp_all)

lemma not_admitted_run:
  "hub_run ops h es h' \<Longrightarrow> service_wf ops (service h) \<Longrightarrow> need_snapshot (service h) \<Longrightarrow>
    map_of (subscribes (service h)) i = None \<Longrightarrow> \<forall>e \<in> set es. e \<noteq> SnapshotDrop \<and> (\<forall>m. e \<noteq> SnapshotSend m) \<Longrightarrow>
    inbox i (log h') = inbox i (log h)"
proof (induction rule: hub_run.induct)
  case (more h e h' es h'')
  have e: "e \<noteq> SnapshotDrop" "\<And>m. e \<noteq> SnapshotSend m" using more.prems(4) by auto
  have "map_of (subscribes (service h')) i = None \<and> inbox i (log h') = inbox i (log h)"
    by (rule not_admitted_step[OF more.hyps(1) more.prems(1,2,3) e(2,1)])
  moreover have "service_wf ops (service h')" "need_snapshot (service h')"
    using hub_step_wf[OF more.hyps(1) more.prems(1)] need_snapshot_step[OF more.hyps(1)] more.prems(2) by simp_all
  ultimately show ?case using more.IH more.prems(4) by simp
qed simp

text \<open>A snapshot that nobody interrupts is the function \<^const>\<open>snapshot\<close>.\<close>

lemma snapshot_events:
  "phase h \<Longrightarrow> hub_run ops h (map SnapshotSend ms @ [SnapshotDrop]) h' \<longleftrightarrow>
    h' = h\<lparr>service := swap_new_subscribes ops (fst (snapshot_sends ops ms (service h))), phase := False,
           log := log h @ snd (snapshot_sends ops ms (service h))\<rparr>"
proof (induction ms arbitrary: h)
  case (Cons m ms)
  have "hub_run ops h (map SnapshotSend (m # ms) @ [SnapshotDrop]) h' \<longleftrightarrow>
      hub_run ops (after h (send_new_subscribes ops m (service h))) (map SnapshotSend ms @ [SnapshotDrop]) h'"
    using Cons.prems by (simp add: hub_run_Cons hub_step_simps)
  also have "\<dots> \<longleftrightarrow> h' = h\<lparr>service := swap_new_subscribes ops (fst (snapshot_sends ops (m # ms) (service h))), phase := False,
           log := log h @ snd (snapshot_sends ops (m # ms) (service h))\<rparr>"
    using Cons.IH[of "after h (send_new_subscribes ops m (service h))"] Cons.prems
    by (simp add: case_prod_unfold Let_def) (simp add: after_def)
  finally show ?case .
qed (simp add: hub_run_Cons hub_step_simps)

lemma snapshot_run:
  assumes "\<not> phase h" "new_subscribes (service h) \<noteq> []"
  shows "hub_run ops h (SnapshotBegin # map SnapshotSend ms @ [SnapshotDrop]) h' \<longleftrightarrow>
    h' = h\<lparr>service := fst (snapshot ops ms (service h)), phase := False, log := log h @ snd (snapshot ops ms (service h))\<rparr>"
proof -
  have "hub_run ops h (SnapshotBegin # map SnapshotSend ms @ [SnapshotDrop]) h' \<longleftrightarrow>
      hub_run ops (h\<lparr>phase := True\<rparr>) (map SnapshotSend ms @ [SnapshotDrop]) h'"
    using assms by (simp add: hub_run_Cons hub_step_simps)
  also have "\<dots> \<longleftrightarrow> h' = (h\<lparr>phase := True\<rparr>)\<lparr>service := swap_new_subscribes ops (fst (snapshot_sends ops ms (service h))), phase := False,
           log := log h @ snd (snapshot_sends ops ms (service h))\<rparr>"
    using snapshot_events[of "h\<lparr>phase := True\<rparr>" ms h'] by simp
  finally show ?thesis using assms(2) by (simp add: snapshot_def Let_def case_prod_unfold)
qed

lemma snapshot_sends_frame:
  "service_wf ops s \<Longrightarrow> service_wf ops (fst (snapshot_sends ops ms s)) \<and> subscribes (fst (snapshot_sends ops ms s)) = subscribes s
    \<and> map fst (new_subscribes (fst (snapshot_sends ops ms s))) = map fst (new_subscribes s)"
proof (induction ms arbitrary: s)
  case (Cons m ms)
  let ?s = "fst (send_new_subscribes ops m s)"
  have "subscribes ?s = subscribes s \<and> map fst (new_subscribes ?s) = map fst (new_subscribes s)"
    unfolding send_new_subscribes_def send_where_def Let_def by (simp del: map_map add: keys_map)
  with Cons.IH[OF wf_send_new[OF Cons.prems]] show ?case by (simp add: case_prod_unfold Let_def)
qed simp

end

definition takes :: "conn_inner \<Rightarrow> 'a message \<Rightarrow> bool" where
  "takes c m \<longleftrightarrow> (if tx_by_video m then tx_video c else tx c)"

lemma conn_ops [simp]:
  "fst (sub_send conn_subscriber m c) = c" "sub_id conn_subscriber c = conn_id c" "sub_from conn_subscriber c = c"
  "payload (snd (sub_send conn_subscriber m c)) = (if takes c m then [m] else [])"
  by (simp_all add: conn_subscriber_def conn_send_def takes_def payload_def)

lemma conn_sends_same [simp]:
  "fst (send_where conn_subscriber P m xs) = xs" "fst (send_new_subscribes conn_subscriber m s) = s"
  "fst (to_subscribes conn_subscriber P m s) = s"
proof -
  show e: "fst (send_where conn_subscriber P m xs) = xs" for P xs
    unfolding send_where_def by (simp add: map_idI case_prod_unfold)
  show "fst (send_new_subscribes conn_subscriber m s) = s" "fst (to_subscribes conn_subscriber P m s) = s"
    unfolding send_new_subscribes_def to_subscribes_def Let_def by (simp_all add: case_prod_unfold e)
qed

lemma conn_snapshot_sends:
  fixes ms :: "'a message list"
  assumes "service_wf (conn_subscriber :: (conn_inner, 'a) subscriber) s"
  shows "inbox j (snd (snapshot_sends conn_subscriber ms s)) =
    (case map_of (new_subscribes s) j of Some c \<Rightarrow> filter (takes c) ms | None \<Rightarrow> [])"
    and "fst (snapshot_sends conn_subscriber ms s) = s"
proof (induction ms)
  case (Cons m ms)
  case 1
  show ?case using Cons
    by (simp add: case_prod_unfold Let_def conn.inbox_send_new[OF assms] split: option.split)
next
  case (Cons m ms)
  case 2
  show ?case using Cons by (simp add: case_prod_unfold Let_def)
qed (simp_all split: option.split)

section \<open>Services\<close>

lemma hub_new_wf:
  "service_wf (conn_subscriber :: (conn_inner, 'a) subscriber) (service (hub_new n snap :: (conn_inner, 'a) hub))"
  "service_wf (cursor_subscriber :: ('a cursor_sub, 'a) subscriber) (service (hub_new n snap :: ('a cursor_sub, 'a) hub))"
  by (simp_all add: hub_new_def conn.wf_new cursor.wf_new)

lemma members_new: "members (hub_new n snap) = {}"
  by (auto simp: members_def hub_new_def service_new_def is_subed_def is_subed_reads_def)


lemmas run_simps = hub_run_Cons hub_step_simps


text \<open>
  Somebody who has subscribed to a service with snapshots receives nothing, whatever is sent and whoever
  else comes and goes, until a snapshot is sent or closed.
\<close>

theorem not_admitted_hears_nothing:
  fixes h h' :: "(conn_inner, 'a) hub"
  assumes "hub_run conn_subscriber (hub_new n True) es h" "hub_run conn_subscriber h es' h'"
    and "map_of (subscribes (service h)) i = None"
    and "\<forall>e \<in> set es'. e \<noteq> SnapshotDrop \<and> (\<forall>m. e \<noteq> SnapshotSend m)"
  shows "inbox i (log h') = inbox i (log h)"
proof -
  have "need_snapshot (service h)"
    using assms(1)
  proof -
    have "need_snapshot (service h) = need_snapshot (service g)" if "hub_run conn_subscriber g es h" for g :: "(conn_inner, 'a) hub" and es
      using that by (induction rule: hub_run.induct) (simp_all add: conn.need_snapshot_step)
    from this[OF assms(1)] show ?thesis by (simp add: hub_new_def service_new_def)
  qed
  from conn.not_admitted_run[OF assms(2) conn.hub_run_wf[OF assms(1) hub_new_wf(1)] this assms(3,4)] show ?thesis .
qed

text \<open>
  A snapshot that is not interrupted is what \<open>snapshot\<close> computes: every waiting subscriber receives exactly
  its messages, in order, on the channels it has, nobody else receives anything, and all of them are admitted.
\<close>

theorem snapshot_admits_with_snapshot:
  fixes h h' :: "(conn_inner, 'a) hub"
  assumes "hub_run conn_subscriber (hub_new n True) es h" "\<not> phase h" "new_subscribes (service h) \<noteq> []"
    and "hub_run conn_subscriber h (SnapshotBegin # map SnapshotSend ms @ [SnapshotDrop]) h'"
  shows "(service h' = fst (snapshot conn_subscriber ms (service h)))
    \<and> (log h' = log h @ snd (snapshot conn_subscriber ms (service h)))
    \<and> (inbox i (log h') = inbox i (log h) @
       (case map_of (new_subscribes (service h)) i of Some c \<Rightarrow> filter (takes c) ms | None \<Rightarrow> []))
    \<and> (new_subscribes (service h') = [])
    \<and> (map_of (subscribes (service h')) i =
       (case map_of (new_subscribes (service h)) i of Some c \<Rightarrow> Some c | None \<Rightarrow> map_of (subscribes (service h)) i))"
proof (intro conjI)
  have wf: "service_wf (conn_subscriber :: (conn_inner, 'a) subscriber) (service h)"
    by (rule conn.hub_run_wf[OF assms(1) hub_new_wf(1)])
  then have k: "keyed (conn_subscriber :: (conn_inner, 'a) subscriber) (new_subscribes (service h))" by (simp add: service_wf_def)
  have h': "h' = h\<lparr>service := fst (snapshot conn_subscriber ms (service h)), phase := False, log := log h @ snd (snapshot conn_subscriber ms (service h))\<rparr>"
    using conn.snapshot_run[OF assms(2,3), of ms h'] assms(4) by blast
  then show s: "service h' = fst (snapshot conn_subscriber ms (service h))" "log h' = log h @ snd (snapshot conn_subscriber ms (service h))"
    by simp_all
  have sn: "snapshot conn_subscriber ms (service h) =
      (swap_new_subscribes (conn_subscriber :: (conn_inner, 'a) subscriber) (service h), snd (snapshot_sends conn_subscriber ms (service h)))"
    using assms(3) conn_snapshot_sends(2)[OF wf] by (simp add: snapshot_def Let_def case_prod_unfold)
  show "inbox i (log h') = inbox i (log h) @
       (case map_of (new_subscribes (service h)) i of Some c \<Rightarrow> filter (takes c) ms | None \<Rightarrow> [])"
    unfolding s(2) sn by (simp add: conn_snapshot_sends(1)[OF wf])
  show "new_subscribes (service h') = []" unfolding s(1) sn by (simp add: swap_new_subscribes_def)
  show "map_of (subscribes (service h')) i =
       (case map_of (new_subscribes (service h)) i of Some c \<Rightarrow> Some c | None \<Rightarrow> map_of (subscribes (service h)) i)"
    unfolding s(1) sn by (simp add: swap_new_subscribes_def fold_update_lookup[OF k, unfolded conn_ops])
qed

text \<open>
  A connection that subscribes after the snapshot has been sent and before it is closed is admitted without
  having received anything, and no snapshot is pending for it.
\<close>

theorem late_subscriber_misses_snapshot:
  fixes h :: "(conn_inner, 'a) hub"
  assumes "conn_id a \<noteq> conn_id b"
    and "hub_run conn_subscriber (hub_new n True) [Subscribe a, SnapshotBegin, SnapshotSend m, Subscribe b, SnapshotDrop] h"
  shows "(inbox (conn_id a) (log h) = (if takes a m then [m] else []))
    \<and> (inbox (conn_id b) (log h) = [])
    \<and> (map_of (subscribes (service h)) (conn_id b) = Some b)
    \<and> (new_subscribes (service h) = [])"
proof (intro conjI)
  let ?ops = "conn_subscriber :: (conn_inner, 'a) subscriber"
  define s1 where "s1 = on_subscribe ?ops a (service_new n True)"
  define s2 where "s2 = on_subscribe ?ops b s1"
  have s1: "new_subscribes s1 = [(conn_id a, a)]" "subscribes s1 = []" "need_snapshot s1"
    by (simp_all add: s1_def on_subscribe_def service_new_def)
  have s2: "new_subscribes s2 = [(conn_id a, a), (conn_id b, b)]" "subscribes s2 = []"
    using assms(1) by (simp_all add: s2_def on_subscribe_def s1)
  have wf: "service_wf ?ops s1" unfolding s1_def by (intro conn.wf_sends conn.wf_new)
  have h: "h = \<lparr>service = swap_new_subscribes ?ops s2, phase = False, log = snd (send_new_subscribes ?ops m s1)\<rparr>"
    using assms(2) s1(1) by (simp add: run_simps hub_new_def s1_def[symmetric] after_def s2_def[symmetric])
  show "inbox (conn_id a) (log h) = (if takes a m then [m] else [])" "inbox (conn_id b) (log h) = []"
    using assms(1) by (simp_all add: h conn.inbox_send_new[OF wf] s1)
  show "map_of (subscribes (service h)) (conn_id b) = Some b" "new_subscribes (service h) = []"
    by (simp_all add: h swap_new_subscribes_def s2)
qed

text \<open>A swap between the two reads of \<open>is_subed\<close> hides a subscriber that is in a table all the time.\<close>

lemma is_subed_misses_swap:
  assumes "service_wf ops s" "map_of (new_subscribes s) i \<noteq> None"
  shows "is_subed s i" "is_subed (swap_new_subscribes ops s) i" "\<not> is_subed_reads s (swap_new_subscribes ops s) i"
proof -
  show "is_subed s i" using assms(2) by (simp add: is_subed_def is_subed_reads_def)
  then show "is_subed (swap_new_subscribes ops s) i" using is_subed_swap[OF assms(1)] by blast
  have "map_of (subscribes s) i = None" using assms by (metis service_wf_def)
  then show "\<not> is_subed_reads s (swap_new_subscribes ops s) i" by (simp add: is_subed_reads_def swap_new_subscribes_def)
qed

text \<open>Then \<open>Server::subscribe\<close> believes that there is nothing to unsubscribe: the connection stays
  subscribed. When the service does not change in between, \<open>subscribe\<close> is what is done.\<close>

lemma subscribe_undisturbed: "subscribe_during (\<lambda>b. b) n c sub (v :: 'a server) = subscribe n c sub v"
proof -
  have "boxed_reads b b i = boxed_is_subed b i" for b :: "'a boxed" and i
    by (cases b) (simp_all add: boxed_reads_def boxed_is_subed_def is_subed_def)
  then show ?thesis by (simp add: subscribe_during_def subscribe_def Let_def cong: if_cong)
qed

lemma unsubscription_lost:
  fixes s :: "conn_inner service_inner" and v :: "'a server"
  assumes "service_wf (conn_subscriber :: (conn_inner, 'a) subscriber) s" and "map_of (new_subscribes s) (conn_id c) \<noteq> None"
    and "map_of (services v) n = Some (Generic s)"
  defines "swap \<equiv> (\<lambda>b. case b of Generic s \<Rightarrow> Generic (swap_new_subscribes (conn_subscriber :: (conn_inner, 'a) subscriber) s)
                         | MouseCursor s \<Rightarrow> MouseCursor s)"
  shows "\<exists>b. map_of (services (subscribe_during swap n c False v)) n = Some b \<and> boxed_is_subed b (conn_id c)"
    and "\<exists>b. map_of (services (subscribe n c False v)) n = Some b \<and> \<not> boxed_is_subed b (conn_id c)"
proof -
  note m = is_subed_misses_swap[OF assms(1,2)]
  have look: "map_of (services (map_services f v)) n = Some (f n (Generic s))" for f :: "string \<Rightarrow> 'a boxed \<Rightarrow> 'a boxed"
    using assms(3) by (simp add: map_services_def map_of_map_values)
  show "\<exists>b. map_of (services (subscribe_during swap n c False v)) n = Some b \<and> boxed_is_subed b (conn_id c)"
    using m(2,3) by (simp add: subscribe_during_def look boxed_reads_def swap_def boxed_is_subed_def Let_def)
  show "\<exists>b. map_of (services (subscribe n c False v)) n = Some b \<and> \<not> boxed_is_subed b (conn_id c)"
    using m(1) is_subed_on_unsubscribe[OF assms(1), of "conn_id c" "conn_id c"]
    by (simp add: subscribe_def look boxed_is_subed_def boxed_on_unsubscribe_def)
qed

section \<open>Rounds and pauses\<close>

text \<open>\<open>init\<close> and \<open>reset\<close> alternate, and a round lasts at least the interval.\<close>

fun alternating :: "bool \<Rightarrow> action list \<Rightarrow> bool" where
  "alternating b [] = True"
| "alternating b (Init_State # as) = (\<not> b \<and> alternating True as)"
| "alternating b (Callback # as) = (b \<and> alternating b as)"
| "alternating b (Reset_State # as) = (b \<and> alternating False as)"

lemma repeat_alternates: "alternating b (concat (map fst (repeat_rounds interval b rs)))"
  by (induction interval b rs rule: repeat_rounds.induct) (auto simp: Let_def)

lemma repeat_interval: "list_all2 (\<lambda>(_, _, work) (_, pause). interval \<le> work + pause) rs (repeat_rounds interval b rs)"
  by (induction interval b rs rule: repeat_rounds.induct) (auto simp: Let_def)

lemma error_pause_bounds: "HIBERNATE_TIMEOUT \<le> t \<Longrightarrow> HIBERNATE_TIMEOUT \<le> error_pause e t \<and> error_pause e t \<le> MAX_ERROR_TIMEOUT"
  by (simp add: error_pause_def Let_def HIBERNATE_TIMEOUT_def MAX_ERROR_TIMEOUT_def)

lemma run_pauses_bounds: "HIBERNATE_TIMEOUT \<le> t \<Longrightarrow> p \<in> set (run_pauses t rs) \<Longrightarrow> 30 \<le> p \<and> p \<le> 1030"
proof (induction t rs rule: run_pauses.induct)
  case (3 t elapsed rs)
  have b: "HIBERNATE_TIMEOUT \<le> error_pause elapsed t \<and> error_pause elapsed t \<le> MAX_ERROR_TIMEOUT"
    using 3(2) by (rule error_pause_bounds)
  show ?case
  proof (cases "p = error_pause elapsed t + HIBERNATE_TIMEOUT")
    case True
    with b show ?thesis by (simp add: HIBERNATE_TIMEOUT_def MAX_ERROR_TIMEOUT_def)
  next
    case False
    with 3(3) have "p \<in> set (run_pauses (error_pause elapsed t) rs)" by (simp add: Let_def)
    then show ?thesis using 3(1)[OF refl] b by simp
  qed
qed (auto simp: HIBERNATE_TIMEOUT_def)

lemma quick_failures:
  assumes "\<forall>e \<in> set es. e \<le> MAX_ERROR_TIMEOUT"
  shows "run_pauses t (map Some es) = map (\<lambda>k. min (t * 2 ^ Suc k) MAX_ERROR_TIMEOUT + HIBERNATE_TIMEOUT) [0..<length es]"
  using assms
proof (induction es arbitrary: t)
  case (Cons e es)
  have p: "error_pause e t = min (t * 2) MAX_ERROR_TIMEOUT" using Cons.prems by (simp add: error_pause_def Let_def)
  have m: "min (min (t * 2) M * 2 ^ Suc k) M = min (t * 2 ^ Suc (Suc k)) M" for k and M :: nat
  proof (cases "t * 2 \<le> M")
    case False
    have a: "M \<le> M * 2 ^ Suc k" by simp
    have "t * 2 * 1 \<le> t * 2 * 2 ^ Suc k" by (rule mult_le_mono2) simp
    also have "t * 2 * 2 ^ Suc k = t * 2 ^ Suc (Suc k)" by (simp only: mult.assoc power_Suc)
    finally have b: "M \<le> t * 2 ^ Suc (Suc k)" using False by linarith
    have "min (t * 2) M = M" using False by simp
    then have "min (min (t * 2) M * 2 ^ Suc k) M = M" using a by (simp only: min_absorb2)
    also have "M = min (t * 2 ^ Suc (Suc k)) M" using b by (simp only: min_absorb2)
    finally show ?thesis .
  qed (simp add: min_def mult.assoc)
  have "run_pauses t (map Some (e # es)) = (min (t * 2) MAX_ERROR_TIMEOUT + HIBERNATE_TIMEOUT)
      # map (\<lambda>k. min (min (t * 2) MAX_ERROR_TIMEOUT * 2 ^ Suc k) MAX_ERROR_TIMEOUT + HIBERNATE_TIMEOUT) [0..<length es]"
    using Cons.IH[of "min (t * 2) MAX_ERROR_TIMEOUT"] Cons.prems by (simp add: p Let_def)
  also have "\<dots> = map (\<lambda>k. min (t * 2 ^ Suc k) MAX_ERROR_TIMEOUT + HIBERNATE_TIMEOUT) [0..<Suc (length es)]"
    unfolding m by (simp only: upt_conv_Cons[OF zero_less_Suc] map_Suc_upt[symmetric] list.map map_map o_def)
      simp
  finally show ?case by simp
qed simp

text \<open>
  The pauses of a service thread are between 30 and 1030 milliseconds, and successive quick failures double
  the error part of them from 60 up to 1000.
\<close>

theorem error_pauses:
  "p \<in> set (run_pauses HIBERNATE_TIMEOUT rs) \<Longrightarrow> 30 \<le> p \<and> p \<le> 1030"
  "\<forall>e \<in> set es. e \<le> 1000 \<Longrightarrow> run_pauses HIBERNATE_TIMEOUT (map Some es) = map (\<lambda>k. min (30 * 2 ^ Suc k) 1000 + 30) [0..<length es]"
  using run_pauses_bounds[of HIBERNATE_TIMEOUT p rs] quick_failures[of es HIBERNATE_TIMEOUT]
  by (simp_all add: HIBERNATE_TIMEOUT_def MAX_ERROR_TIMEOUT_def)

section \<open>Cursors\<close>

text \<open>One subscriber over a list of messages, and a peer that keeps the cursors it has seen.\<close>

fun cursor_run :: "'a message list \<Rightarrow> 'a cursor_sub \<Rightarrow> 'a message list" where
  "cursor_run [] s = []"
| "cursor_run (m # ms) s = (let (s', out) = cursor_send m s in payload out @ cursor_run ms s')"

fun resolve :: "(u64, 'a) map \<Rightarrow> 'a message list \<Rightarrow> 'a message list" where
  "resolve seen [] = []"
| "resolve seen (CursorData i d # ms) = CursorData i d # resolve (seen(i \<mapsto> d)) ms"
| "resolve seen (CursorId i # ms) = (case seen i of Some d \<Rightarrow> CursorData i d | None \<Rightarrow> CursorId i) # resolve seen ms"
| "resolve seen (m # ms) = m # resolve seen ms"

fun cursor_ids :: "'a message list \<Rightarrow> u64 list" where
  "cursor_ids [] = []"
| "cursor_ids (CursorData i d # ms) = i # cursor_ids ms"
| "cursor_ids (m # ms) = cursor_ids ms"

definition source_ok :: "(u64 \<Rightarrow> 'a) \<Rightarrow> 'a message \<Rightarrow> bool" where
  "source_ok shape m \<longleftrightarrow> (case m of CursorData i d \<Rightarrow> d = shape i | CursorId _ \<Rightarrow> False | VideoFrame _ \<Rightarrow> False | SwitchDisplay _ \<Rightarrow> False | _ \<Rightarrow> True)"

lemma cursor_run_seen:
  assumes "tx (cursor_inner s)" "\<forall>m \<in> set ms. source_ok shape m"
    and "\<forall>i m. cached s i = Some m \<longrightarrow> m = CursorId i"
    and "seen = (\<lambda>i. if cached s i = None then None else Some (shape i))"
  shows "resolve seen (cursor_run ms s) = ms \<and> distinct (cursor_ids (cursor_run ms s))
    \<and> (\<forall>i \<in> set (cursor_ids (cursor_run ms s)). cached s i = None)"
  using assms
proof (induction ms arbitrary: s seen)
  case (Cons m ms)
  note prems = Cons.prems
  show ?case
  proof (cases "\<exists>i d. m = CursorData i d")
    case True
    then obtain i d where m: "m = CursorData i d" by blast
    have d: "d = shape i" using prems(2) by (simp add: m source_ok_def)
    show ?thesis
    proof (cases "cached s i")
      case None
      let ?s = "s\<lparr>cached := (cached s)(i \<mapsto> CursorId i)\<rparr>"
      have e: "cursor_run (m # ms) s = m # cursor_run ms ?s"
        using None prems(1) by (simp add: m cursor_send_def conn_send_def tx_by_video_def payload_def)
      have "seen(i \<mapsto> d) = (\<lambda>j. if cached ?s j = None then None else Some (shape j))"
        by (auto simp: prems(4) d)
      then have seen: "seen(i \<mapsto> d) = (\<lambda>j. if cached ?s j = None then None else Some (shape j))" .
      have c: "\<forall>j m. cached ?s j = Some m \<longrightarrow> m = CursorId j" using prems(3) by simp
      have t: "tx (cursor_inner ?s)" "\<forall>m \<in> set ms. source_ok shape m" using prems(1,2) by simp_all
      from Cons.IH[OF t c seen] have
        "resolve (seen(i \<mapsto> d)) (cursor_run ms ?s) = ms \<and> distinct (cursor_ids (cursor_run ms ?s))
          \<and> (\<forall>j \<in> set (cursor_ids (cursor_run ms ?s)). cached ?s j = None)" .
      then show ?thesis using None unfolding e by (auto simp: m split: if_splits)
    next
      case (Some m')
      then have m': "m' = CursorId i" using prems(3) by blast
      have e: "cursor_run (m # ms) s = CursorId i # cursor_run ms s"
        using Some prems(1) by (simp add: m m' cursor_send_def conn_send_def tx_by_video_def payload_def)
      have "seen i = Some d" using Some by (simp add: prems(4) d)
      moreover have t: "\<forall>m \<in> set ms. source_ok shape m" using prems(2) by simp
      from Cons.IH[OF prems(1) t prems(3,4)] have
        "resolve seen (cursor_run ms s) = ms \<and> distinct (cursor_ids (cursor_run ms s))
          \<and> (\<forall>j \<in> set (cursor_ids (cursor_run ms s)). cached s j = None)" .
      ultimately show ?thesis unfolding e by (simp add: m)
    qed
  next
    case False
    then have n: "m = StopService \<or> (\<exists>x. m = OtherMessage x)"
      using prems(2) by (cases m) (auto simp: source_ok_def)
    then have e: "cursor_run (m # ms) s = m # cursor_run ms s"
      using prems(1) by (auto simp: cursor_send_def conn_send_def tx_by_video_def payload_def)
    have t: "\<forall>m \<in> set ms. source_ok shape m" using prems(2) by simp
    from Cons.IH[OF prems(1) t prems(3,4)] have
      "resolve seen (cursor_run ms s) = ms \<and> distinct (cursor_ids (cursor_run ms s))
        \<and> (\<forall>j \<in> set (cursor_ids (cursor_run ms s)). cached s j = None)" .
    then show ?thesis using n unfolding e by auto
  qed
qed simp

text \<open>
  A peer that keeps the cursors it has seen reconstructs every cursor message from what the subscriber sends,
  although the picture of each cursor is sent at most once.
\<close>

theorem cursor_roundtrip:
  assumes "tx c" "\<forall>m \<in> set ms. source_ok shape m"
  shows "(resolve Map.empty (cursor_run ms (sub_from cursor_subscriber c)) = ms)
    \<and> (distinct (cursor_ids (cursor_run ms (sub_from cursor_subscriber c))))"
  using cursor_run_seen[of "sub_from cursor_subscriber c" ms shape Map.empty] assms
  by (simp_all add: cursor_subscriber_def)


section \<open>The registry\<close>

locale service_object =
  fixes name :: "'b \<Rightarrow> string" and sub :: "conn_inner \<Rightarrow> 'b \<Rightarrow> 'b" and unsub :: "int \<Rightarrow> 'b \<Rightarrow> 'b"
    and subed :: "'b \<Rightarrow> int \<Rightarrow> bool" and wf :: "'b \<Rightarrow> bool"
  assumes name_sub: "name (sub c b) = name b" and name_unsub: "name (unsub i b) = name b"
    and subed_sub: "subed (sub c b) i \<longleftrightarrow> i = conn_id c \<or> subed b i"
    and subed_unsub: "wf b \<Longrightarrow> subed (unsub i b) j \<longleftrightarrow> j \<noteq> i \<and> subed b j"
    and wf_sub: "wf b \<Longrightarrow> wf (sub c b)" and wf_unsub: "wf b \<Longrightarrow> wf (unsub i b)"
begin

definition reg :: "(string \<times> 'b) list \<Rightarrow> bool" where
  "reg xs \<longleftrightarrow> distinct (map fst xs) \<and> (\<forall>(n, b) \<in> set xs. name b = n \<and> wf b)"

definition rel :: "(string \<times> 'b) list \<Rightarrow> (string \<times> int) set" where
  "rel xs = {(n, i). \<exists>b. map_of xs n = Some b \<and> subed b i}"

lemma regD: "reg xs \<Longrightarrow> map_of xs n = Some b \<Longrightarrow> name b = n \<and> wf b"
  by (auto simp: reg_def dest: map_of_SomeD)

lemma reg_map:
  assumes "reg xs" "\<And>n b. name (f n b) = name b" "\<And>n b. wf b \<Longrightarrow> wf (f n b)"
  shows "reg (map (\<lambda>(n, b). (n, f n b)) xs)"
proof -
  have "map fst (map (\<lambda>(n, b). (n, f n b)) xs) = map fst xs" by (rule keys_map)
  then have "distinct (map fst (map (\<lambda>(n, b). (n, f n b)) xs))" using assms(1) by (simp only: reg_def)
  moreover have "\<forall>(n, b) \<in> set (map (\<lambda>(n, b). (n, f n b)) xs). name b = n \<and> wf b"
    using assms by (auto simp: reg_def)
  ultimately show ?thesis by (simp only: reg_def)
qed

lemma rel_map: "rel (map (\<lambda>(n, b). (n, f n b)) xs) = {(n, i). \<exists>b. map_of xs n = Some b \<and> subed (f n b) i}"
  by (auto simp: rel_def map_of_map_values)

lemma rel_subscribe_where:
  "rel (map (\<lambda>(n, b). (n, if P n b then sub c b else b)) xs) =
    rel xs \<union> {(n, conn_id c) | n b. map_of xs n = Some b \<and> P n b}"
  unfolding rel_map by (auto simp: rel_def subed_sub)

lemma rel_unsubscribe_where:
  assumes "reg xs"
  shows "rel (map (\<lambda>(n, b). (n, if P n b then unsub i b else b)) xs) =
    rel xs - {(n, i) | n b. map_of xs n = Some b \<and> P n b}"
  unfolding rel_map using regD[OF assms] by (auto simp: rel_def subed_unsub)

end

definition boxed_wf :: "'a boxed \<Rightarrow> bool" where
  "boxed_wf b = (case b of
     Generic s \<Rightarrow> service_wf (conn_subscriber :: (conn_inner, 'a) subscriber) s
   | MouseCursor s \<Rightarrow> service_wf (cursor_subscriber :: ('a cursor_sub, 'a) subscriber) s)"

lemma srv_name_subscribes [simp]:
  "srv_name (on_subscribe ops c s) = srv_name s" "srv_name (on_unsubscribe i s) = srv_name s"
  by (simp_all add: on_subscribe_def on_unsubscribe_def)

interpretation box: service_object boxed_name boxed_on_subscribe boxed_on_unsubscribe boxed_is_subed boxed_wf
proof
  fix c i j and b :: "'a boxed"
  show "boxed_name (boxed_on_subscribe c b) = boxed_name b" "boxed_name (boxed_on_unsubscribe i b) = boxed_name b"
    "boxed_is_subed (boxed_on_subscribe c b) i \<longleftrightarrow> i = conn_id c \<or> boxed_is_subed b i"
    by (cases b; simp add: boxed_name_def boxed_on_subscribe_def boxed_on_unsubscribe_def boxed_is_subed_def is_subed_on_subscribe)+
  show "boxed_wf b \<Longrightarrow> boxed_is_subed (boxed_on_unsubscribe i b) j \<longleftrightarrow> j \<noteq> i \<and> boxed_is_subed b j"
    by (cases b) (simp_all add: boxed_wf_def boxed_on_unsubscribe_def boxed_is_subed_def is_subed_on_unsubscribe)
  show "boxed_wf b \<Longrightarrow> boxed_wf (boxed_on_subscribe c b)" "boxed_wf b \<Longrightarrow> boxed_wf (boxed_on_unsubscribe i b)"
    by (cases b; simp add: boxed_wf_def boxed_on_subscribe_def boxed_on_unsubscribe_def conn.wf_on_subscribe
      conn.wf_on_unsubscribe cursor.wf_on_subscribe cursor.wf_on_unsubscribe)+
qed

text \<open>A well-formed registry, and the abstract registry: who is subscribed to what.\<close>

definition server_wf :: "'a server \<Rightarrow> bool" where
  "server_wf v \<longleftrightarrow> box.reg (services v) \<and> distinct (map fst (connections v))"

definition subscriptions :: "'a server \<Rightarrow> (string \<times> int) set" where
  "subscriptions v = {(n, i). \<exists>b. map_of (services v) n = Some b \<and> boxed_is_subed b i}"

lemma subscriptions_rel: "subscriptions v = box.rel (services v)"
  by (simp add: subscriptions_def box.rel_def)

lemma map_services_parts [simp]:
  "services (map_services f v) = map (\<lambda>(n, b). (n, f n b)) (services v)"
  "connections (map_services f v) = connections v"
  by (simp_all add: map_services_def)

lemma map_services_wf:
  assumes "server_wf v" "\<And>n b. boxed_name (f n b) = boxed_name b" "\<And>n b. boxed_wf b \<Longrightarrow> boxed_wf (f n b)"
  shows "server_wf (map_services f v)"
  using assms by (simp add: server_wf_def box.reg_map)

lemma subscribe_wf: "server_wf v \<Longrightarrow> server_wf (subscribe n c b v)"
  unfolding subscribe_def
  by (rule map_services_wf) (simp_all add: box.name_sub box.name_unsub box.wf_sub box.wf_unsub)

lemma services_keys [simp]: "map fst (services (subscribe n c b v)) = map fst (services v)"
  unfolding subscribe_def map_services_parts by (rule keys_map)

lemma subscribe_true:
  "subscriptions (subscribe n c True v) = subscriptions v \<union> {(n, conn_id c) | x. map_of (services v) n = Some x}"
proof -
  have e: "subscribe n c True v = map_services (\<lambda>m x. if m = n \<and> \<not> boxed_is_subed x (conn_id c) then boxed_on_subscribe c x else x) v"
    unfolding subscribe_def by (rule arg_cong[of _ _ "\<lambda>f. map_services f v"]) (auto simp: fun_eq_iff)
  show ?thesis unfolding subscriptions_rel e map_services_parts box.rel_subscribe_where by (auto simp: box.rel_def)
qed

lemma subscribe_false:
  assumes "server_wf v"
  shows "subscriptions (subscribe n c False v) = subscriptions v - {(n, conn_id c)}"
proof -
  have r: "box.reg (services v)" using assms by (simp add: server_wf_def)
  have e: "subscribe n c False v = map_services (\<lambda>m x. if m = n \<and> boxed_is_subed x (conn_id c) then boxed_on_unsubscribe (conn_id c) x else x) v"
    unfolding subscribe_def by (rule arg_cong[of _ _ "\<lambda>f. map_services f v"]) (auto simp: fun_eq_iff)
  show ?thesis unfolding subscriptions_rel e map_services_parts box.rel_unsubscribe_where[OF r] by (auto simp: box.rel_def)
qed

lemma subscribed_cases:
  assumes "server_wf v"
  shows "subscriptions (subscribe n c b v) =
    (if b then subscriptions v \<union> {(n, conn_id c) | x. map_of (services v) n = Some x}
     else subscriptions v - {(n, conn_id c)})"
  by (cases b) (simp_all add: subscribe_true subscribe_false[OF assms])

text \<open>Selecting displays one service at a time.\<close>

definition select_one :: "conn_inner \<Rightarrow> string list \<Rightarrow> bool \<Rightarrow> bool \<Rightarrow> string \<Rightarrow> 'a server \<Rightarrow> 'a server" where
  "select_one c names include exclude n v =
    (if is_video_service_name n then
       (if n \<in> set names then if include then subscribe n c True v else v
        else if exclude then subscribe n c False v else v)
     else v)"

lemma select_one_step:
  assumes "server_wf v" "map_of (services v) n \<noteq> None"
  shows "server_wf (select_one c names inc exc n v) \<and> map fst (services (select_one c names inc exc n v)) = map fst (services v)
    \<and> subscriptions (select_one c names inc exc n v) =
      (subscriptions v \<union> (if inc \<and> is_video_service_name n \<and> n \<in> set names then {(n, conn_id c)} else {}))
        - (if exc \<and> is_video_service_name n \<and> n \<notin> set names then {(n, conn_id c)} else {})"
  using assms by (auto simp: select_one_def subscribe_wf subscribed_cases)

lemma keys_lookup: "map fst xs = map fst ys \<Longrightarrow> map_of xs n \<noteq> None \<longleftrightarrow> map_of ys n \<noteq> None"
  by (metis list.set_map map_of_eq_None_iff)

lemma select_all:
  assumes "server_wf v" "\<forall>n \<in> set ns. map_of (services v) n \<noteq> None"
  shows "server_wf (fold (select_one c names inc exc) ns v) \<and>
    subscriptions (fold (select_one c names inc exc) ns v) =
      (subscriptions v \<union> {(n, conn_id c) | n. n \<in> set ns \<and> inc \<and> is_video_service_name n \<and> n \<in> set names})
        - {(n, conn_id c) | n. n \<in> set ns \<and> exc \<and> is_video_service_name n \<and> n \<notin> set names}"
  using assms
proof (induction ns arbitrary: v)
  case (Cons n ns)
  let ?v = "select_one c names inc exc n v"
  have s: "server_wf ?v" "map fst (services ?v) = map fst (services v)"
    "subscriptions ?v = (subscriptions v \<union> (if inc \<and> is_video_service_name n \<and> n \<in> set names then {(n, conn_id c)} else {}))
        - (if exc \<and> is_video_service_name n \<and> n \<notin> set names then {(n, conn_id c)} else {})"
    using select_one_step[OF Cons.prems(1), of n c names inc exc] Cons.prems(2) by auto
  have "\<forall>m \<in> set ns. map_of (services ?v) m \<noteq> None"
    using Cons.prems(2) keys_lookup[OF s(2)] by simp
  from Cons.IH[OF s(1) this] show ?case unfolding s(3) by auto
qed simp

lemma capture_displays_select:
  "capture_displays c source ds inc exc v =
    fold (select_one c (map (get_service_name source) ds) inc exc) (map fst (services v)) v"
  unfolding capture_displays_def Let_def select_one_def ..

lemma add_connection_subs:
  assumes "server_wf v"
  shows "subscriptions (add_connection primary c noperms v) = subscriptions v \<union>
      {(n, conn_id c) | n b. map_of (services v) n = Some b \<and> n \<notin> set noperms
         \<and> (is_video_service_name n \<longrightarrow> n = get_service_name Monitor primary)}"
proof -
  have r: "box.reg (services v)" using assms by (simp add: server_wf_def)
  have nm: "map_of (services v) n = Some b \<Longrightarrow> boxed_name b = n" for n b using box.regD[OF r] by blast
  have e: "(if is_video_service_name (boxed_name b) \<and> boxed_name b \<noteq> get_service_name Monitor primary then b
        else if boxed_name b \<notin> set noperms then boxed_on_subscribe c b else b) =
      (if boxed_name b \<notin> set noperms \<and> (is_video_service_name (boxed_name b) \<longrightarrow> boxed_name b = get_service_name Monitor primary)
       then boxed_on_subscribe c b else b)" for b :: "'a boxed" by simp
  have "subscriptions (add_connection primary c noperms v) = subscriptions v \<union>
      {(n, conn_id c) | n b. map_of (services v) n = Some b \<and> boxed_name b \<notin> set noperms
         \<and> (is_video_service_name (boxed_name b) \<longrightarrow> boxed_name b = get_service_name Monitor primary)}"
    unfolding subscriptions_rel add_connection_def Let_def e by (simp add: box.rel_subscribe_where)
  then show ?thesis using nm by fastforce
qed

lemma remove_connection_subs:
  assumes "server_wf v"
  shows "subscriptions (remove_connection i v) = {(n, j) \<in> subscriptions v. j \<noteq> i}"
proof -
  have r: "box.reg (services v)" using assms by (simp add: server_wf_def)
  have "subscriptions (remove_connection i v) = subscriptions v - {(n, i) | n b. map_of (services v) n = Some b}"
    unfolding subscriptions_rel remove_connection_def Let_def
    using box.rel_unsubscribe_where[OF r, of "\<lambda>_ _. True" i] by simp
  then show ?thesis by (auto simp: subscriptions_def)
qed

lemma add_camera_connection_subs:
  "subscriptions (add_camera_connection exists c v) = subscriptions v \<union>
    {(n, conn_id c) | n b. exists \<and> n = get_service_name Camera 0 \<and> map_of (services v) n = Some b}"
  unfolding subscriptions_rel add_camera_connection_def Let_def
  by (auto simp: box.rel_subscribe_where)

lemma capture_displays_subs:
  assumes "server_wf v"
  shows "subscriptions (capture_displays c source ds inc exc v) =
      (subscriptions v \<union> {(n, conn_id c) | n b. inc \<and> map_of (services v) n = Some b \<and> is_video_service_name n
          \<and> n \<in> set (map (get_service_name source) ds)})
        - {(n, conn_id c) | n b. exc \<and> map_of (services v) n = Some b \<and> is_video_service_name n
          \<and> n \<notin> set (map (get_service_name source) ds)}"
proof -
  have k: "\<forall>n \<in> set (map fst (services v)). map_of (services v) n \<noteq> None"
    by (simp add: map_of_eq_None_iff)
  have m: "n \<in> set (map fst (services v)) \<longleftrightarrow> (\<exists>b. map_of (services v) n = Some b)" for n
    using map_of_eq_None_iff[of "services v" n] by auto
  show ?thesis unfolding capture_displays_select conjunct2[OF select_all[OF assms k]] m by auto
qed

lemmas registry_subs = add_connection_subs remove_connection_subs add_camera_connection_subs capture_displays_subs

text \<open>
  Every operation of the registry is the operation on the relation of subscriptions it stands for: a new
  connection joins the permitted services and only the primary display, a removed one leaves all of them, and a
  choice of displays adds and removes exactly the video services it names.
\<close>

theorem registry_refines:
  assumes "server_wf v"
  shows "(subscriptions (add_connection primary c noperms v) = subscriptions v \<union>
      {(n, conn_id c) | n b. map_of (services v) n = Some b \<and> n \<notin> set noperms
         \<and> (is_video_service_name n \<longrightarrow> n = get_service_name Monitor primary)})
    \<and> (subscriptions (remove_connection i v) = {(n, j) \<in> subscriptions v. j \<noteq> i})
    \<and> (subscriptions (add_camera_connection exists c v) = subscriptions v \<union>
      {(n, conn_id c) | n b. exists \<and> n = get_service_name Camera 0 \<and> map_of (services v) n = Some b})
    \<and> (subscriptions (subscribe n c on v) =
      (if on then subscriptions v \<union> {(n, conn_id c) | b. map_of (services v) n = Some b} else subscriptions v - {(n, conn_id c)}))
    \<and> (subscriptions (capture_displays c source ds inc exc v) =
      (subscriptions v \<union> {(n, conn_id c) | n b. inc \<and> map_of (services v) n = Some b \<and> is_video_service_name n
          \<and> n \<in> set (map (get_service_name source) ds)})
        - {(n, conn_id c) | n b. exc \<and> map_of (services v) n = Some b \<and> is_video_service_name n
          \<and> n \<notin> set (map (get_service_name source) ds)})"
  by (intro conjI add_connection_subs remove_connection_subs add_camera_connection_subs subscribed_cases capture_displays_subs assms)

lemma services_simps [simp]:
  "services (v\<lparr>connections := x\<rparr>) = services v" "services (v\<lparr>conn_count := k\<rparr>) = services v" by simp_all

lemma server_wf_steps:
  assumes "server_wf v"
  shows "server_wf (add_connection primary c noperms v)" "server_wf (remove_connection i v)"
    "server_wf (add_camera_connection exists c v)" "server_wf (subscribe n c on v)"
    "server_wf (capture_displays c source ds inc exc v)"
proof -
  have u: "server_wf w \<Longrightarrow> distinct (map fst xs) \<Longrightarrow> server_wf (w\<lparr>connections := xs\<rparr>)" for w xs
    by (simp add: server_wf_def)
  have d: "distinct (map fst (AList.update (conn_id c) c (connections v)))" "distinct (map fst (AList.delete i (connections v)))"
    using assms by (simp_all add: server_wf_def distinct_update distinct_delete)
  have k: "server_wf w \<Longrightarrow> server_wf (w\<lparr>conn_count := x\<rparr>)" for w x by (simp add: server_wf_def)
  show "server_wf (add_connection primary c noperms v)" "server_wf (remove_connection i v)" "server_wf (add_camera_connection exists c v)"
    unfolding add_connection_def remove_connection_def add_camera_connection_def Let_def
    by (auto intro!: u d k map_services_wf assms simp: box.name_sub box.name_unsub box.wf_sub box.wf_unsub)
  show "server_wf (subscribe n c on v)" by (rule subscribe_wf[OF assms])
  show "server_wf (capture_displays c source ds inc exc v)"
    unfolding capture_displays_select
    by (rule conjunct1[OF select_all[OF assms]]) (simp add: map_of_eq_None_iff)
qed

definition one_service :: "nat server" where
  "one_service = \<lparr>connections = [], services = [(''display'', Generic (service_new ''display'' True))], id_count = 1, conn_count = 0\<rparr>"

lemma one_service_wf: "server_wf one_service"
  by (simp add: server_wf_def one_service_def box.reg_def boxed_name_def service_new_def boxed_wf_def service_wf_def keyed_def)

theorem registry_refines_witness:
  "subscriptions (remove_connection 4 (add_connection 0 \<lparr>conn_id = 4, tx = True, tx_video = True\<rparr> [] one_service)) = {}"
proof -
  let ?c = "\<lparr>conn_id = 4, tx = True, tx_video = True\<rparr>"
  have s: "subscriptions one_service = {}"
    by (auto simp: subscriptions_def one_service_def boxed_is_subed_def is_subed_def is_subed_reads_def service_new_def split: if_splits)
  have "subscriptions (remove_connection 4 (add_connection 0 ?c [] one_service))
      = {(n, j) \<in> subscriptions (add_connection 0 ?c [] one_service). j \<noteq> 4}"
    by (rule registry_refines[OF server_wf_steps(1)[OF one_service_wf], THEN conjunct2, THEN conjunct1])
  then show ?thesis unfolding registry_refines[OF one_service_wf, THEN conjunct1] s by auto
qed

theorem error_pauses_witness: "run_pauses HIBERNATE_TIMEOUT [Some 5, Some 7] = [90, 150]"
  using error_pauses(2)[of "[5, 7]"] by (simp add: upt_rec)

theorem cursor_roundtrip_witness:
  "resolve Map.empty (cursor_run [CursorData 3 (1::nat), CursorData 4 2, CursorData 3 1]
      (sub_from cursor_subscriber \<lparr>conn_id = 1, tx = True, tx_video = False\<rparr>)) = [CursorData 3 1, CursorData 4 2, CursorData 3 1]"
  by (rule cursor_roundtrip[of _ _ "\<lambda>i. if i = 3 then 1 else 2", THEN conjunct1]) (simp_all add: source_ok_def)

text \<open>A connection, and a service with one waiting subscriber.\<close>

definition peer :: "int \<Rightarrow> conn_inner" where
  "peer i = \<lparr>conn_id = i, tx = True, tx_video = True\<rparr>"

lemma peer_simps [simp]: "conn_id (peer i) = i" "tx (peer i)" "tx_video (peer i)" "takes (peer i) m"
  by (simp_all add: peer_def takes_def)

definition one_waiting :: "(conn_inner, nat) hub" where
  "one_waiting = \<lparr>service = (service_new ''display'' True)\<lparr>new_subscribes := [(4, peer 4)]\<rparr>, phase = False, log = []\<rparr>"

lemma one_waiting_run: "hub_run conn_subscriber (hub_new ''display'' True) [Subscribe (peer 4)] one_waiting"
  by (simp add: run_simps one_waiting_def hub_new_def on_subscribe_def service_new_def)

theorem not_admitted_hears_nothing_witness:
  "inbox 4 (log (after one_waiting (send_shared conn_subscriber (OtherMessage 9) (service one_waiting)))) = []"
proof -
  have r: "hub_run conn_subscriber one_waiting [Send (OtherMessage 9)]
      (after one_waiting (send_shared conn_subscriber (OtherMessage 9) (service one_waiting)))"
    by (rule hub_run.more[OF hub_step.sent hub_run.none])
  show ?thesis
    using not_admitted_hears_nothing[OF one_waiting_run r, of 4] by (simp add: one_waiting_def service_new_def)
qed

theorem snapshot_admits_with_snapshot_witness:
  "inbox 4 (log one_waiting @ snd (snapshot conn_subscriber [OtherMessage 9] (service one_waiting))) = [OtherMessage 9]"
proof -
  have w: "\<not> phase one_waiting" "new_subscribes (service one_waiting) \<noteq> []" by (simp_all add: one_waiting_def)
  from conn.snapshot_run[OF this, of "[OtherMessage 9]"] obtain h where
    r: "hub_run conn_subscriber one_waiting (SnapshotBegin # map SnapshotSend [OtherMessage 9] @ [SnapshotDrop]) h" by blast
  note s = snapshot_admits_with_snapshot[OF one_waiting_run w r]
  show ?thesis using s[of 4, THEN conjunct2, THEN conjunct2, THEN conjunct1] unfolding s[of 4, THEN conjunct2, THEN conjunct1] by (simp add: one_waiting_def)
qed

theorem late_subscriber_misses_snapshot_witness:
  "\<exists>h :: (conn_inner, nat) hub. hub_run conn_subscriber (hub_new ''display'' True)
     [Subscribe (peer 4), SnapshotBegin, SnapshotSend (OtherMessage 9), Subscribe (peer 5), SnapshotDrop] h
     \<and> inbox 4 (log h) = [OtherMessage 9] \<and> inbox 5 (log h) = []"
proof -
  have "new_subscribes (on_subscribe (conn_subscriber :: (conn_inner, nat) subscriber) (peer 4) (service_new ''display'' True)) \<noteq> []"
    by (simp add: on_subscribe_def service_new_def)
  then obtain h :: "(conn_inner, nat) hub" where r: "hub_run conn_subscriber (hub_new ''display'' True)
     [Subscribe (peer 4), SnapshotBegin, SnapshotSend (OtherMessage 9), Subscribe (peer 5), SnapshotDrop] h"
    by (simp add: run_simps hub_new_def)
  have "conn_id (peer 4) \<noteq> conn_id (peer 5)" by simp
  from late_subscriber_misses_snapshot[OF this r] r show ?thesis by auto
qed

end
