(* ===== verification/Codec_Choice.thy ===== *)
theory Codec_Choice
  imports Hop_Prelude Float_Rounding "HOL-Library.AList" "HOL-Library.Multiset"
begin

text \<open>
  The choice of the video codec: \<open>Encoder::update\<close> of \<open>libs/scrap/src/common/codec.rs\<close>, which keeps what
  every peer can decode and picks one format for all of them, and the base bit rate of a resolution. Which hardware
  encoders exist, the memory of the machine and the order in which the hash map of peers is walked are the environment;
  in the default build there are no hardware encoders.
\<close>

section \<open>Peers\<close>

datatype CodecFormat = VP8 | VP9 | H264 | H265 | UnknownFormat

datatype PreferCodec = Auto | PreferVP9 | PreferH264 | PreferH265 | PreferVP8

datatype Chroma = I420 | I444

text \<open>A preference with a number that is not in the enumeration is \<open>None\<close>.\<close>

record supported_decoding =
  ability_vp9 :: int
  ability_h264 :: int
  ability_h265 :: int
  preferred :: "PreferCodec option"
  ability_vp8 :: int
  ability_av1 :: int
  i444_vp9 :: bool
  prefer_chroma :: "Chroma option"

definition default_decoding :: supported_decoding where
  "default_decoding = \<lparr>ability_vp9 = 0, ability_h264 = 0, ability_h265 = 0, preferred = Some Auto, ability_vp8 = 0, ability_av1 = 0,
    i444_vp9 = False, prefer_chroma = Some I420\<rparr>"

record supported_encoding =
  enc_vp8 :: bool
  enc_h264 :: bool
  enc_h265 :: bool

type_synonym decodings = "(int \<times> supported_decoding) list"

datatype EncodingUpdate = Update int supported_decoding | Remove int | NewOnlyVP9 int | Check

record codec_env =
  h264_vram :: bool
  h265_vram :: bool
  h264_hw :: bool
  h265_hw :: bool
  total_memory :: nat
  walk :: "decodings \<Rightarrow> decodings"

record encoder =
  peer_decodings :: decodings
  encode_codec_format :: CodecFormat
  usable_encoding :: "supported_encoding option"

section \<open>The vote\<close>

fun bump :: "'p \<Rightarrow> ('p \<times> nat) list \<Rightarrow> ('p \<times> nat) list" where
  "bump p [] = [(p, 1)]"
| "bump p ((q, n) # cs) = (if q = p then (q, n + 1) # cs else (q, n) # bump p cs)"

definition most_frequent :: "PreferCodec option list \<Rightarrow> PreferCodec" where
  "most_frequent ps =
    (let counts = fold bump ps [];
         max_count = foldr max (map snd counts) 0
     in case find (\<lambda>(_, n). n = max_count) counts of
          Some (Some p, _) \<Rightarrow> p
        | _ \<Rightarrow> Auto)"

definition all_peers :: "(supported_decoding \<Rightarrow> int) \<Rightarrow> decodings \<Rightarrow> bool" where
  "all_peers ability ds \<longleftrightarrow> ds \<noteq> [] \<and> list_all (\<lambda>(_, d). ability d > 0) ds"

definition h264_useable :: "codec_env \<Rightarrow> decodings \<Rightarrow> bool" where
  "h264_useable E ds \<longleftrightarrow> all_peers ability_h264 ds \<and> (h264_vram E \<or> h264_hw E)"

definition h265_useable :: "codec_env \<Rightarrow> decodings \<Rightarrow> bool" where
  "h265_useable E ds \<longleftrightarrow> all_peers ability_h265 ds \<and> (h265_vram E \<or> h265_hw E)"

definition useable :: "codec_env \<Rightarrow> decodings \<Rightarrow> PreferCodec option \<Rightarrow> bool" where
  "useable E ds p = (case p of
     Some PreferVP9 \<Rightarrow> True
   | Some PreferVP8 \<Rightarrow> all_peers ability_vp8 ds
   | Some PreferH264 \<Rightarrow> h264_useable E ds
   | Some PreferH265 \<Rightarrow> h265_useable E ds
   | _ \<Rightarrow> False)"

definition preferences :: "codec_env \<Rightarrow> decodings \<Rightarrow> PreferCodec option list" where
  "preferences E ds = map (\<lambda>(_, d). preferred d) (filter (\<lambda>(_, d). useable E ds (preferred d)) (walk E ds))"

definition auto_codec :: "codec_env \<Rightarrow> decodings \<Rightarrow> CodecFormat" where
  "auto_codec E ds =
    (if h265_useable E ds then H265
     else if h264_useable E ds then H264
     else if all_peers ability_vp8 ds \<and> total_memory E \<le> 4 * 1024 * 1024 * 1024 then VP8
     else VP9)"

text \<open>An encoder is searched for only when all peers decode its format.\<close>

definition choose_format :: "codec_env \<Rightarrow> decodings \<Rightarrow> PreferCodec \<Rightarrow> CodecFormat" where
  "choose_format E ds p = (case p of
     PreferVP8 \<Rightarrow> VP8
   | PreferVP9 \<Rightarrow> VP9
   | PreferH264 \<Rightarrow> (if h264_useable E ds then H264 else auto_codec E ds)
   | PreferH265 \<Rightarrow> (if h265_useable E ds then H265 else auto_codec E ds)
   | Auto \<Rightarrow> auto_codec E ds)"

fun update_decodings :: "EncodingUpdate \<Rightarrow> decodings \<Rightarrow> decodings" where
  "update_decodings (Update i d) ds = AList.update i d ds"
| "update_decodings (Remove i) ds = AList.delete i ds"
| "update_decodings (NewOnlyVP9 i) ds = AList.update i (default_decoding\<lparr>ability_vp9 := 1\<rparr>) ds"
| "update_decodings Check ds = ds"

definition update_encoder :: "codec_env \<Rightarrow> EncodingUpdate \<Rightarrow> encoder \<Rightarrow> encoder" where
  "update_encoder E u s =
    (let ds = update_decodings u (peer_decodings s)
     in s\<lparr>peer_decodings := ds,
          usable_encoding := Some \<lparr>enc_vp8 = all_peers ability_vp8 ds, enc_h264 = h264_useable E ds, enc_h265 = h265_useable E ds\<rparr>,
          encode_codec_format := choose_format E ds (most_frequent (preferences E ds))\<rparr>)"

definition update_codec_on_login :: "codec_env \<Rightarrow> int \<Rightarrow> supported_decoding option option \<Rightarrow> encoder \<Rightarrow> encoder" where
  "update_codec_on_login E i login_option s =
    (case login_option of
       Some (Some d) \<Rightarrow> update_encoder E (Update i d) s
     | _ \<Rightarrow> update_encoder E (NewOnlyVP9 i) s)"

text \<open>The formats of the configurations without hardware encoders.\<close>

definition set_fallback :: "CodecFormat \<Rightarrow> encoder \<Rightarrow> encoder" where
  "set_fallback vpx s = (if encode_codec_format s \<noteq> vpx then s\<lparr>encode_codec_format := vpx\<rparr> else s)"

definition use_i444 :: "CodecFormat \<Rightarrow> encoder \<Rightarrow> bool" where
  "use_i444 vpx s =
    (let ds = peer_decodings s;
         prefer_i444 = list_all (\<lambda>(_, d). prefer_chroma d = Some I444) ds;
         i444_useable = (case vpx of VP9 \<Rightarrow> list_all (\<lambda>(_, d). i444_vp9 d) ds | _ \<Rightarrow> False)
     in prefer_i444 \<and> i444_useable \<and> ds \<noteq> [])"

section \<open>What a client can decode\<close>

definition codec_preference :: "string \<Rightarrow> (string \<Rightarrow> string option) \<Rightarrow> PreferCodec \<times> Chroma" where
  "codec_preference i options =
    (if i = [] then (Auto, I420)
     else
       let codec = (case options ''codec-preference'' of Some c \<Rightarrow> c | None \<Rightarrow> []) in
       (if codec = ''vp8'' then PreferVP8
        else if codec = ''vp9'' then PreferVP9
        else if codec = ''h264'' then PreferH264
        else if codec = ''h265'' then PreferH265
        else Auto,
        if options ''i444'' = Some ''Y'' then I444 else I420))"

fun mark_unsupported :: "CodecFormat \<Rightarrow> supported_decoding \<Rightarrow> supported_decoding" where
  "mark_unsupported VP8 d = d\<lparr>ability_vp8 := 0\<rparr>"
| "mark_unsupported VP9 d = d\<lparr>ability_vp9 := 0\<rparr>"
| "mark_unsupported H264 d = d\<lparr>ability_h264 := 0\<rparr>"
| "mark_unsupported H265 d = d\<lparr>ability_h265 := 0\<rparr>"
| "mark_unsupported UnknownFormat d = d"

text \<open>\<open>hw264\<close> and \<open>hw265\<close>: a hardware decoder was found.\<close>

definition supported_decodings ::
  "bool \<Rightarrow> bool \<Rightarrow> string \<Rightarrow> (string \<Rightarrow> string option) \<Rightarrow> CodecFormat list \<Rightarrow> supported_decoding" where
  "supported_decodings hw264 hw265 i options unsupported =
    (let (p, c) = codec_preference i options
     in fold mark_unsupported unsupported
          \<lparr>ability_vp9 = 1, ability_h264 = (if hw264 then 1 else 0), ability_h265 = (if hw265 then 1 else 0), preferred = Some p,
           ability_vp8 = 1, ability_av1 = 0, i444_vp9 = True, prefer_chroma = Some c\<rparr>)"

section \<open>Bit rate\<close>

definition resolution_presets :: "(nat \<times> nat \<times> nat) list" where
  "resolution_presets =
    [(640, 480, 400), (800, 600, 500), (1024, 768, 800), (1280, 720, 1000), (1366, 768, 1100), (1440, 900, 1300),
     (1600, 900, 1500), (1920, 1080, 2073), (2048, 1080, 2200), (2560, 1440, 3000), (3440, 1440, 4000), (3840, 2160, 5000),
     (7680, 4320, 12000)]"

definition pixel_distance :: "nat \<Rightarrow> nat \<Rightarrow> nat" where
  "pixel_distance pixels p = (if p \<ge> pixels then p - pixels else pixels - p)"

text \<open>\<open>min_by_key\<close>: the first entry with the least key.\<close>

fun nearest :: "nat \<Rightarrow> nat \<times> nat \<Rightarrow> (nat \<times> nat) list \<Rightarrow> nat \<times> nat" where
  "nearest pixels best [] = best"
| "nearest pixels best (x # xs) =
    nearest pixels (if pixel_distance pixels (fst x) < pixel_distance pixels (fst best) then x else best) xs"

text \<open>\<open>f32::round\<close> rounds half away from zero; the argument is not negative.\<close>

definition round_half_up :: "rat \<Rightarrow> int" where
  "round_half_up x = \<lfloor>x + 1 / 2\<rfloor>"

definition base_bitrate :: "u32 \<Rightarrow> u32 \<Rightarrow> int" where
  "base_bitrate width height =
    (let pixels = unat (width * height);
         presets = map (\<lambda>(w, h, b). (w * h, b)) resolution_presets;
         (preset_pixels, preset_bitrate) = nearest pixels (hd presets) (tl presets)
     in round_half_up (f32 (f32 (of_nat preset_bitrate) * f32 (f32 (of_nat pixels) / f32 (of_nat preset_pixels)))))"

section \<open>Counting\<close>

lemma bump_keys: "fst ` set (bump p cs) = insert p (fst ` set cs)"
  by (induction p cs rule: bump.induct) auto

lemma bump_distinct: "distinct (map fst cs) \<Longrightarrow> distinct (map fst (bump p cs))"
proof (induction p cs rule: bump.induct)
  case (2 p q n cs)
  then show ?case using bump_keys[of p cs] by auto
qed simp

lemma bump_lookup: "distinct (map fst cs) \<Longrightarrow> map_of (bump p cs) q =
    (if q = p then Some (case map_of cs p of Some n \<Rightarrow> n + 1 | None \<Rightarrow> 1) else map_of cs q)"
  by (induction p cs rule: bump.induct) auto

lemma counts_lookup:
  "distinct (map fst cs) \<Longrightarrow> distinct (map fst (fold bump ps cs)) \<and>
    map_of (fold bump ps cs) q =
      (if q \<in> set ps then Some ((case map_of cs q of Some n \<Rightarrow> n | None \<Rightarrow> 0) + count_list ps q) else map_of cs q)"
proof (induction ps arbitrary: cs)
  case (Cons p ps)
  show ?case using Cons.IH[OF bump_distinct[OF Cons.prems], of p] Cons.prems
    by (auto simp: bump_lookup split: option.splits)
qed simp

lemma counts_member: "(q, n) \<in> set (fold bump ps []) \<longleftrightarrow> q \<in> set ps \<and> n = count_list ps q"
proof -
  have "distinct (map fst (fold bump ps []))" "map_of (fold bump ps []) q = (if q \<in> set ps then Some (count_list ps q) else None)"
    using counts_lookup[of "[]" ps q] by simp_all
  then show ?thesis using map_of_eq_Some_iff[of "fold bump ps []" q n] by (simp split: if_splits) blast
qed

lemma foldr_max: "xs \<noteq> [] \<Longrightarrow> foldr max xs 0 \<in> set xs" "x \<in> set xs \<Longrightarrow> x \<le> foldr max xs (0::nat)"
proof -
  show "x \<in> set xs \<Longrightarrow> x \<le> foldr max xs 0" by (induction xs) (auto simp: le_max_iff_disj)
  show "xs \<noteq> [] \<Longrightarrow> foldr max xs 0 \<in> set xs"
  proof (induction xs)
    case (Cons y ys)
    then show ?case by (cases ys) (auto simp: max_def)
  qed simp
qed

lemma most_frequent_wins:
  assumes "ps \<noteq> []"
  obtains p where "p \<in> set ps" "most_frequent ps = (case p of Some q \<Rightarrow> q | None \<Rightarrow> Auto)" "\<And>q. count_list ps q \<le> count_list ps p"
proof -
  let ?c = "fold bump ps []" and ?m = "foldr max (map snd (fold bump ps [])) 0"
  have "(hd ps, count_list ps (hd ps)) \<in> set ?c" using assms by (simp add: counts_member)
  then have "?c \<noteq> []" by auto
  then have "?m \<in> set (map snd ?c)" by (intro foldr_max(1)) simp
  then obtain x where "x \<in> set ?c" "?m = snd x" by auto
  then have "\<exists>x \<in> set ?c. snd x = ?m" by force
  then have "find (\<lambda>(_, n). n = ?m) ?c \<noteq> None" by (auto simp: find_None_iff)
  then obtain p n where f: "find (\<lambda>(_, n). n = ?m) ?c = Some (p, n)" by auto
  then have "(p, n) \<in> set ?c" "n = ?m" by (auto simp: find_Some_iff in_set_conv_nth)
  then have p: "p \<in> set ps" "?m = count_list ps p" by (simp_all add: counts_member)
  have "count_list ps q \<le> count_list ps p" for q
  proof (cases "q \<in> set ps")
    case True
    then have "(q, count_list ps q) \<in> set ?c" by (simp add: counts_member)
    then have "count_list ps q \<in> set (map snd ?c)" by force
    then show ?thesis using foldr_max(2) p(2) by metis
  qed simp
  moreover have "most_frequent ps = (case p of Some q \<Rightarrow> q | None \<Rightarrow> Auto)"
    unfolding most_frequent_def Let_def f by (cases p) simp_all
  ultimately show ?thesis using that p(1) by blast
qed

lemma most_frequent_none [simp]: "most_frequent [] = Auto"
  by (simp add: most_frequent_def)

section \<open>The choice\<close>

lemma count_mapped: "count_list (map f (filter Q xs)) p = length (filter (\<lambda>x. f x = p \<and> Q x) xs)"
  by (induction xs) auto

lemma mset_length_filter: "mset xs = mset ys \<Longrightarrow> length (filter P xs) = length (filter P ys)"
  by (metis mset_filter size_mset)

definition votes :: "codec_env \<Rightarrow> decodings \<Rightarrow> PreferCodec option \<Rightarrow> nat" where
  "votes E ds p = (if useable E ds p then length (filter (\<lambda>(_, d). preferred d = p) ds) else 0)"

lemma count_preferences:
  assumes "mset (walk E ds) = mset ds"
  shows "count_list (preferences E ds) p = votes E ds p"
proof -
  have "count_list (preferences E ds) p = length (filter (\<lambda>x. (case x of (_, d) \<Rightarrow> preferred d) = p \<and> (case x of (_, d) \<Rightarrow> useable E ds (preferred d))) (walk E ds))"
    unfolding preferences_def by (rule count_mapped)
  also have "\<dots> = length (filter (\<lambda>x. (case x of (_, d) \<Rightarrow> preferred d) = p \<and> (case x of (_, d) \<Rightarrow> useable E ds (preferred d))) ds)"
    by (rule mset_length_filter[OF assms])
  also have "\<dots> = votes E ds p"
    by (cases "useable E ds p") (auto simp: votes_def filter_empty_conv intro!: arg_cong[of _ _ length] filter_cong)
  finally show ?thesis .
qed

lemma voted:
  assumes "mset (walk E ds) = mset ds"
  shows "(most_frequent (preferences E ds) = Auto \<and> (\<forall>p. votes E ds p = 0))
    \<or> (\<exists>p. most_frequent (preferences E ds) = p \<and> useable E ds (Some p) \<and> votes E ds (Some p) > 0 \<and> (\<forall>q. votes E ds q \<le> votes E ds (Some p)))"
proof (cases "preferences E ds = []")
  case True
  then show ?thesis using count_preferences[OF assms] by (metis count_list.simps(1) most_frequent_none)
next
  case False
  from most_frequent_wins[OF this] obtain x where x: "x \<in> set (preferences E ds)"
    "most_frequent (preferences E ds) = (case x of Some q \<Rightarrow> q | None \<Rightarrow> Auto)" "\<And>q. count_list (preferences E ds) q \<le> count_list (preferences E ds) x"
    by blast
  have u: "useable E ds x" using x(1) by (auto simp: preferences_def)
  then obtain p where p: "x = Some p" by (cases x) (simp_all add: useable_def)
  have "count_list (preferences E ds) x \<noteq> 0" using x(1) by (simp add: count_list_0_iff)
  then have "votes E ds (Some p) > 0" using p count_preferences[OF assms] by simp
  then show ?thesis using x u p count_preferences[OF assms] by auto
qed

text \<open>The format of a preference.\<close>

fun format_of :: "PreferCodec \<Rightarrow> CodecFormat" where
  "format_of PreferVP8 = VP8"
| "format_of PreferVP9 = VP9"
| "format_of PreferH264 = H264"
| "format_of PreferH265 = H265"
| "format_of Auto = UnknownFormat"

lemma choose_usable: "useable E ds (Some p) \<Longrightarrow> choose_format E ds p = format_of p"
  by (cases p) (simp_all add: useable_def choose_format_def)

text \<open>What it means for a format to work: an encoder for it exists, and every peer has said that it
  decodes it.\<close>

fun ability_for :: "CodecFormat \<Rightarrow> supported_decoding \<Rightarrow> int" where
  "ability_for VP8 d = ability_vp8 d"
| "ability_for VP9 d = ability_vp9 d"
| "ability_for H264 d = ability_h264 d"
| "ability_for H265 d = ability_h265 d"
| "ability_for UnknownFormat d = 0"

fun encoder_exists :: "codec_env \<Rightarrow> CodecFormat \<Rightarrow> bool" where
  "encoder_exists E VP8 = True"
| "encoder_exists E VP9 = True"
| "encoder_exists E H264 = (h264_vram E \<or> h264_hw E)"
| "encoder_exists E H265 = (h265_vram E \<or> h265_hw E)"
| "encoder_exists E UnknownFormat = False"

definition decodable :: "codec_env \<Rightarrow> decodings \<Rightarrow> CodecFormat \<Rightarrow> bool" where
  "decodable E ds f \<longleftrightarrow> encoder_exists E f \<and> list_all (\<lambda>(_, d). 0 < ability_for f d) ds"

lemma auto_decodable: "auto_codec E ds = VP9 \<or> ds \<noteq> [] \<and> decodable E ds (auto_codec E ds)"
  by (simp add: auto_codec_def decodable_def h264_useable_def h265_useable_def all_peers_def)

lemma useable_decodable: "useable E ds (Some p) \<Longrightarrow> format_of p = VP9 \<or> ds \<noteq> [] \<and> decodable E ds (format_of p)"
  by (cases p) (simp_all add: useable_def decodable_def h264_useable_def h265_useable_def all_peers_def)

lemma vp9_decodable: "list_all (\<lambda>(_, d). 0 < ability_vp9 d) ds \<Longrightarrow> decodable E ds VP9"
  by (simp add: decodable_def)


definition software_only :: codec_env where
  "software_only = \<lparr>h264_vram = False, h265_vram = False, h264_hw = False, h265_hw = False, total_memory = 2 ^ 34, walk = rev\<rparr>"


text \<open>A peer that has reported that it cannot decode VP9 is sent VP9 all the same.\<close>

lemma vp9_not_checked:
  "encode_codec_format (update_encoder software_only (Update 3 (mark_unsupported VP9 (supported_decodings False False [] options [])))
     \<lparr>peer_decodings = [], encode_codec_format = VP9, usable_encoding = None\<rparr>) = VP9"
  by (simp add: update_encoder_def supported_decodings_def codec_preference_def choose_format_def preferences_def useable_def
      software_only_def auto_codec_def h264_useable_def h265_useable_def all_peers_def)

text \<open>The product of the sides is taken in 32 bits.\<close>

lemma base_bitrate_overflow: "base_bitrate 65536 65536 = 0"
proof -
  have z: "f32 0 = 0" by (simp add: f32_zero)
  have h: "\<lfloor>1 / 2 :: rat\<rfloor> = 0" by (simp add: floor_eq_iff)
  then show ?thesis by (simp add: base_bitrate_def Let_def z h round_half_up_def split: prod.split)
qed

end
