(* ===== verification/Session_Control.thy ===== *)
theory Session_Control
  imports Service_Hub Transfer_Receiver Net_Util Codec_Choice
begin

text \<open>
  A connection after login: the part of \<open>src/server/connection.rs\<close> that handles the messages of an
  authorized peer and the switches of the connection manager, as built for FreeBSD and Linux without the
  file clipboard. A step takes the fields of \<open>Connection\<close>, the registry of services
  (\<open>Service_Hub\<close>) and the store of files, and appends what the connection does to a log of effects: messages
  to the peer and to the manager, input, and calls of the platform. What the platform answers
  is the environment of the step. Handling of terminals and of closed sessions is in \<open>Login_Session\<close>.
\<close>

section \<open>Messages of the peer\<close>

record mouse_event =
  mouse_mask :: nat
  mouse_x :: int
  mouse_y :: int

datatype keyboard_mode = Legacy | MapMode | TranslateMode | AutoMode

datatype key_union = ControlKey nat | Chr nat | Unicode nat | Seq string | OtherKey

record key_event =
  key_mode :: "keyboard_mode option"
  key_down :: bool
  key_press :: bool
  key_union :: key_union
  key_modifiers :: "nat list"

datatype file_action =
    AReadEmptyDirs string bool
  | AReadDir string bool
  | AAllFiles int string bool
  | ASend int string int bool job_type
  | AReceive int string int "(string \<times> u64) list" u64
  | ARemoveDir int string bool
  | ARemoveFile int string int
  | ACreate int string
  | ACancel int
  | ASendConfirm confirm_request
  | ARename int string string

datatype file_response =
    RBlock file_block
  | RDone int int
  | RDigest digest_msg
  | RError int int string
  | ROther

datatype bool_option = NotSet | No | Yes

record option_message =
  o_image_quality :: "int option"
  o_custom_image_quality :: int
  o_custom_fps :: int
  o_supported_decoding :: "supported_decoding option"
  o_lock_after_session_end :: bool_option
  o_show_remote_cursor :: bool_option
  o_follow_remote_cursor :: bool_option
  o_follow_remote_window :: bool_option
  o_disable_audio :: bool_option
  o_disable_clipboard :: bool_option
  o_disable_keyboard :: bool_option
  o_privacy_mode :: bool_option
  o_block_input :: bool_option
  o_show_my_cursor :: bool_option
  o_enable_file_transfer :: bool_option

datatype misc =
    SwitchDisplay nat int int
  | CaptureDisplays "nat list" "nat list" "nat list"
  | TogglePrivacyMode bool string
  | ChatMessage string
  | OptionMsg option_message
  | RefreshVideo bool
  | RefreshVideoDisplay nat
  | VideoReceived
  | CloseReason string
  | RestartRemoteDevice
  | AudioFormat nat nat
  | SwitchSidesRequest "string option"
  | ChangeResolution int int
  | ChangeDisplayResolution nat int int
  | AutoAdjustFps nat
  | ClientRecordStatus bool
  | MessageQuery nat

datatype peer_msg =
    MouseMsg mouse_event
  | PointerMsg string
  | KeyMsg key_event
  | ClipboardMsg string
  | MultiClipboards "string list"
  | FileAction file_action
  | FileResponse file_response
  | MiscMsg misc
  | AudioFrame string
  | VoiceCallRequest bool int
  | VoiceCallResponse
  | ScreenshotRequest nat string

section \<open>What the program does\<close>

datatype permission_kind = PKeyboard | PClipboard | PAudio | PFile | PRestart | PRecording | PBlockInput | PCamera

datatype privacy_state =
  PrvOnSucceeded | PrvOnFailed | PrvOnFailedPlugin | PrvOffSucceeded | PrvOffFailed | PrvNotSupported

datatype fs_request =
    Fs fs_command
  | FsReadEmptyDirs string bool
  | FsReadDir string bool
  | FsRemoveDir string int bool

datatype log_action = LogRemove string bool int | LogCreateDir string int | LogRename string string | LogTransfer int

datatype effect =
    SendPermission permission_kind bool
  | SendFile file_msg
  | SendDir int string "file_entry list"
  | SendPrivacy privacy_state string string
  | SendBlockInputError bool
  | SendChat string
  | SendNotSupported
  | SendDisplayChanged nat
  | SendVoiceResponse int bool
  | SendVoiceRequest bool
  | CmFs fs_request
  | CmLog log_action
  | CmChat string
  | CmVoiceIncoming
  | CmStartVoice
  | CmCloseVoice
  | CmClosed bool
  | InputMouse mouse_event bool bool
  | InputPointer string
  | InputKey key_event bool
  | InputBlock bool
  | HostClipboard "string list"
  | VideoRefresh
  | VideoFetched
  | TakeScreenshot nat string
  | QosQuality int
  | QosFps int
  | EncoderUpdate EncodingUpdate
  | QosAutoFps nat
  | QosRecord bool
  | SetResolution "nat option" int int
  | PlayFormat nat nat
  | PlayFrame string
  | ResetVoiceDevice
  | SetVoiceDevice
  | Whiteboard bool
  | LockScreen
  | TurnOnPrivacy string
  | TurnOffPrivacy
  | Reboot
  | SpawnClient string

section \<open>State\<close>

record remove_log =
  log_instant :: nat
  removed_files :: "(string \<times> int) list"
  removed_dirs :: "(string \<times> int) list"

record authed_session =
  inner :: conn_inner
  authorized :: bool
  forwarding :: bool
  file_session :: bool
  view_camera :: bool
  terminal_session :: bool
  authed_camera :: bool
  peer_version :: string
  keyboard :: bool
  clipboard :: bool
  audio :: bool
  file_perm :: bool
  restart :: bool
  recording :: bool
  block_input :: bool
  disable_keyboard :: bool
  disable_clipboard :: bool
  disable_audio :: bool
  lock_after_session_end :: bool
  show_remote_cursor :: bool
  follow_remote_cursor :: bool
  follow_remote_window :: bool
  multi_ui_session :: bool
  show_my_cursor :: bool
  display_idx :: nat
  services_subed :: bool
  delayed_read_dir :: "(string \<times> bool) option"
  pressed_modifiers :: "nat list"
  chat_unanswered :: bool
  file_transferred :: bool
  voice_request :: "int option"
  voice_calling :: bool
  audio_sender :: bool
  read_files :: "transfer_job list"
  printer_data :: "(string \<times> bytes) list"
  file_remove_log :: remove_log
  auto_disconnect :: "(nat \<times> nat) option"
  closed :: bool

record session_env =
  now :: nat
  clock_ms :: int
  primary :: nat
  one_way_file :: bool
  one_way_clipboard :: bool
  keycode_modifier :: "nat \<Rightarrow> nat option"
  listing :: "string \<Rightarrow> bool \<Rightarrow> string + file_entry list"
  privacy_supported :: bool
  privacy_on :: bool
  privacy_impl :: "string option"
  privacy_current :: "string \<Rightarrow> bool"
  turn_on_result :: "(string + bool) option"
  privacy_check :: string
  turn_off_result :: "(string + unit) option"
  whiteboard_supported :: bool
  camera_exists :: bool
  display_known :: "VideoSource \<Rightarrow> nat \<Rightarrow> bool"
  io :: io_env

type_synonym 'a session_state = "authed_session \<times> 'a server \<times> filesystem \<times> effect list"

definition emit :: "effect \<Rightarrow> 'a session_state \<Rightarrow> 'a session_state" where
  "emit e = (\<lambda>(c, v, w, l). (c, v, w, l @ [e]))"

definition on_conn :: "(authed_session \<Rightarrow> authed_session) \<Rightarrow> 'a session_state \<Rightarrow> 'a session_state" where
  "on_conn f = (\<lambda>(c, v, w, l). (f c, v, w, l))"

definition on_server :: "(authed_session \<Rightarrow> 'a server \<Rightarrow> 'a server) \<Rightarrow> 'a session_state \<Rightarrow> 'a session_state" where
  "on_server f = (\<lambda>(c, v, w, l). (c, f c v, w, l))"

abbreviation effects :: "'a session_state \<Rightarrow> effect list" where "effects s \<equiv> snd (snd (snd s))"
abbreviation conn_of :: "'a session_state \<Rightarrow> authed_session" where "conn_of s \<equiv> fst s"

section \<open>Permissions\<close>

definition NAME_CURSOR :: string where "NAME_CURSOR = ''mouse_cursor''"
definition NAME_POS :: string where "NAME_POS = ''mouse_pos''"
definition NAME_WINDOW_FOCUS :: string where "NAME_WINDOW_FOCUS = ''window_focus''"
definition CLIPBOARD_NAME :: string where "CLIPBOARD_NAME = ''clipboard''"
definition AUDIO_NAME :: string where "AUDIO_NAME = ''audio''"

definition is_remote_session :: "authed_session \<Rightarrow> bool" where
  "is_remote_session c \<longleftrightarrow> \<not> file_session c \<and> \<not> forwarding c \<and> \<not> view_camera c \<and> \<not> terminal_session c"

definition peer_keyboard_enabled :: "authed_session \<Rightarrow> bool" where
  "peer_keyboard_enabled c \<longleftrightarrow> keyboard c \<and> \<not> disable_keyboard c"

definition clipboard_enabled :: "authed_session \<Rightarrow> bool" where
  "clipboard_enabled c \<longleftrightarrow> clipboard c \<and> \<not> disable_clipboard c"

definition can_sub_clipboard_service :: "session_env \<Rightarrow> authed_session \<Rightarrow> bool" where
  "can_sub_clipboard_service E c \<longleftrightarrow> clipboard_enabled c \<and> peer_keyboard_enabled c \<and> \<not> one_way_clipboard E"

definition audio_enabled :: "authed_session \<Rightarrow> bool" where
  "audio_enabled c \<longleftrightarrow> audio c \<and> \<not> disable_audio c"

definition is_authed_view_camera :: "authed_session \<Rightarrow> bool" where
  "is_authed_view_camera c \<longleftrightarrow> authed_camera c"

definition video_source :: "authed_session \<Rightarrow> VideoSource" where
  "video_source c = (if view_camera c then Camera else Monitor)"

definition sub :: "string \<Rightarrow> (authed_session \<Rightarrow> bool) \<Rightarrow> 'a session_state \<Rightarrow> 'a session_state" where
  "sub n P = on_server (\<lambda>c. subscribe n (inner c) (P c))"

definition try_sub_monitor_services :: "session_env \<Rightarrow> (nat \<times> nat) option \<Rightarrow> 'a session_state \<Rightarrow> 'a session_state" where
  "try_sub_monitor_services E timer s =
    (if is_remote_session (conn_of s) \<and> \<not> services_subed (conn_of s) then
       let s = on_conn (\<lambda>c. c\<lparr>services_subed := True, auto_disconnect := timer\<rparr>) s;
           c = conn_of s;
           noperms =
             (if \<not> peer_keyboard_enabled c \<and> \<not> show_remote_cursor c then [NAME_CURSOR] else []) @
             (if \<not> show_remote_cursor c then [NAME_POS] else []) @
             (if \<not> follow_remote_window c then [NAME_WINDOW_FOCUS] else []) @
             (if \<not> can_sub_clipboard_service E c then [CLIPBOARD_NAME] else []) @
             (if \<not> audio_enabled c then [AUDIO_NAME] else [])
       in on_server (\<lambda>c v. add_connection (primary E) (inner c) noperms (try_add_primay_video_service (primary E) v)) s
     else s)"

definition update_auto_disconnect_timer :: "session_env \<Rightarrow> 'a session_state \<Rightarrow> 'a session_state" where
  "update_auto_disconnect_timer E =
    on_conn (\<lambda>c. c\<lparr>auto_disconnect := map_option (\<lambda>(_, minute). (now E, minute)) (auto_disconnect c)\<rparr>)"

section \<open>Input\<close>

definition handle_mouse_msg :: "session_env \<Rightarrow> mouse_event \<Rightarrow> 'a session_state \<Rightarrow> 'a session_state" where
  "handle_mouse_msg E me s =
    (let c = conn_of s in
     if is_authed_view_camera c then s
     else
       update_auto_disconnect_timer E
         (if peer_keyboard_enabled c then emit (InputMouse me True (show_my_cursor c)) s
          else if show_my_cursor c then emit (InputMouse me False True) s
          else s))"

definition handle_pointer_msg :: "session_env \<Rightarrow> string \<Rightarrow> 'a session_state \<Rightarrow> 'a session_state" where
  "handle_pointer_msg E p s =
    (let c = conn_of s in
     if is_authed_view_camera c then s
     else update_auto_disconnect_timer E (if peer_keyboard_enabled c then emit (InputPointer p) s else s))"

text \<open>\<open>is_modifier\<close> of \<open>common.rs\<close>: Alt, Shift, Control, Meta, RAlt, RShift, RControl, RWin.\<close>

definition is_modifier :: "key_event \<Rightarrow> bool" where
  "is_modifier k = (case key_union k of ControlKey v \<Rightarrow> v \<in> set [1, 29, 4, 23, 75, 73, 74, 64] | _ \<Rightarrow> False)"


text \<open>The rdev key of a message, if it is a modifier.\<close>

definition modifier_key :: "session_env \<Rightarrow> key_event \<Rightarrow> nat option" where
  "modifier_key E k =
    (case key_mode k of
       Some MapMode \<Rightarrow> keycode_modifier E (case key_union k of Chr v \<Rightarrow> v | _ \<Rightarrow> 0)
     | Some TranslateMode \<Rightarrow> (case key_union k of Chr v \<Rightarrow> keycode_modifier E (v mod 65536) | _ \<Rightarrow> None)
     | _ \<Rightarrow> None)"

text \<open>Handled on Linux and FreeBSD: all keys that go down are pressed, except modifiers.\<close>

definition handle_key_msg :: "session_env \<Rightarrow> key_event \<Rightarrow> 'a session_state \<Rightarrow> 'a session_state" where
  "handle_key_msg E k s =
    (let c = conn_of s in
     if is_authed_view_camera c then s
     else
       update_auto_disconnect_timer E
         (if peer_keyboard_enabled c then
            let key = modifier_key E k;
                is_press = (key_press k \<or> key_down k) \<and> \<not> (is_modifier k \<or> key \<noteq> None);
                s = (case key of
                       None \<Rightarrow> s
                     | Some m \<Rightarrow>
                         on_conn (\<lambda>c. c\<lparr>pressed_modifiers :=
                           (if is_press then List.insert m (pressed_modifiers c) else removeAll m (pressed_modifiers c))\<rparr>) s)
            in emit (InputKey k (is_press \<and> (case key_union k of Unicode _ \<Rightarrow> False | Seq _ \<Rightarrow> False | _ \<Rightarrow> True))) s
          else s))"

section \<open>Clipboard\<close>

definition handle_clipboard_msg :: "string list \<Rightarrow> 'a session_state \<Rightarrow> 'a session_state" where
  "handle_clipboard_msg cbs s = (if clipboard (conn_of s) then emit (HostClipboard cbs) s else s)"

section \<open>Files\<close>

definition on_remove_file :: "nat \<Rightarrow> string \<times> int \<Rightarrow> remove_log \<Rightarrow> remove_log" where
  "on_remove_file t f g = g\<lparr>log_instant := t, removed_files := removed_files g @ [f]\<rparr>"

definition direct_child :: "string \<Rightarrow> string \<Rightarrow> bool" where
  "direct_child parent child \<longleftrightarrow> path_parent child = Some parent"

definition on_remove_dir :: "nat \<Rightarrow> string \<times> int \<Rightarrow> remove_log \<Rightarrow> remove_log" where
  "on_remove_dir t d g =
    (let fs = filter (\<lambda>f. \<not> direct_child (fst f) (fst d)) (removed_files g);
         ds = filter (\<lambda>x. \<not> direct_child (fst d) (fst x)) (removed_dirs g)
     in g\<lparr>log_instant := t, removed_files := fs,
          removed_dirs := (if list_ex (\<lambda>x. direct_child (fst x) (fst d)) ds then ds else ds @ [d])\<rparr>)"

definition remove_log_timer :: "nat \<Rightarrow> remove_log \<Rightarrow> remove_log \<times> effect list" where
  "remove_log_timer t g =
    (if t - log_instant g < 1000 then (g, [])
     else (g\<lparr>removed_files := [], removed_dirs := []\<rparr>,
           map (\<lambda>(p, i). CmLog (LogRemove p False i)) (removed_files g) @
           map (\<lambda>(p, i). CmLog (LogRemove p True i)) (removed_dirs g)))"

definition can_enable_overwrite_detection :: "int \<Rightarrow> bool" where
  "can_enable_overwrite_detection v \<longleftrightarrow> get_version_number ''1.40.4'' \<le> v"

definition refused_job :: "file_action \<Rightarrow> int option" where
  "refused_job a =
    (case a of
       ASend i _ _ _ _ \<Rightarrow> Some i
     | ARemoveFile i _ _ \<Rightarrow> Some i
     | ARename i _ _ \<Rightarrow> Some i
     | ACreate i _ \<Rightarrow> Some i
     | ARemoveDir i _ _ \<Rightarrow> Some i
     | _ \<Rightarrow> None)"

definition send_files :: "session_env \<Rightarrow> int \<Rightarrow> string \<Rightarrow> int \<Rightarrow> bool \<Rightarrow> job_type \<Rightarrow> 'a session_state \<Rightarrow> 'a session_state" where
  "send_files E i path n hid t s =
    (let start = (\<lambda>src s.
           (case new_read i t [] src n hid False (listing E path hid)
                   (can_enable_overwrite_detection (get_version_number (peer_version (conn_of s)))) of
              Inl err \<Rightarrow> emit (SendFile (ErrorMsg i err 0)) s
            | Inr j \<Rightarrow>
                on_conn (\<lambda>c. c\<lparr>read_files := read_files c @ [j\<lparr>is_remote := True, job_conn_id := conn_id (inner c)\<rparr>]\<rparr>)
                  (emit (SendDir i path (files j)) s)));
         sent = on_conn (\<lambda>c. c\<lparr>file_transferred := True\<rparr>)
     in (case t of
           job_type.Generic \<Rightarrow> sent (start (FilePath path) s)
         | Printer \<Rightarrow>
             (case find (\<lambda>(p, _). p = path) (printer_data (conn_of s)) of
                None \<Rightarrow> s
              | Some (_, data) \<Rightarrow>
                  sent (start (MemoryCursor data)
                    (on_conn (\<lambda>c. c\<lparr>printer_data := remove1 (path, data) (printer_data c)\<rparr>) s)))))"

definition handle_file_action :: "session_env \<Rightarrow> file_action \<Rightarrow> 'a session_state \<Rightarrow> 'a session_state option" where
  "handle_file_action E a s =
    (let c = conn_of s; fs = (\<lambda>r. emit (CmFs r)) in
     if \<not> file_session c then Some s
     else if delayed_read_dir c \<noteq> None then
       Some (case a of AReadDir p h \<Rightarrow> on_conn (\<lambda>c. c\<lparr>delayed_read_dir := Some (p, h)\<rparr>) s | _ \<Rightarrow> s)
     else if one_way_file E \<and> refused_job a \<noteq> None then
       Some (emit (SendFile (ErrorMsg (the (refused_job a)) ''one-way-file-transfer-tip'' 0)) s)
     else
       (case a of
          AReadEmptyDirs p h \<Rightarrow> Some (fs (FsReadEmptyDirs p h) s)
        | AReadDir p h \<Rightarrow> Some (fs (FsReadDir p h) s)
        | AAllFiles i p h \<Rightarrow>
            Some (case listing E p h of
                    Inl err \<Rightarrow> emit (SendFile (ErrorMsg i err (-1))) s
                  | Inr es \<Rightarrow> emit (SendDir i p es) s)
        | ASend i p n h t \<Rightarrow> Some (send_files E i p n h t s)
        | AReceive i p n es sz \<Rightarrow>
            Some (on_conn (\<lambda>c. c\<lparr>file_transferred := True\<rparr>)
              (fs (Fs (NewWrite p i n es (can_enable_overwrite_detection (get_version_number (peer_version c))) sz
                 (conn_id (inner c)))) s))
        | ARemoveDir i p r \<Rightarrow>
            Some (on_conn (\<lambda>c. c\<lparr>file_remove_log := on_remove_dir (now E) (p, i) (file_remove_log c)\<rparr>) (fs (FsRemoveDir p i r) s))
        | ARemoveFile i p n \<Rightarrow>
            Some (on_conn (\<lambda>c. c\<lparr>file_remove_log := on_remove_file (now E) (p, i) (file_remove_log c)\<rparr>)
              (fs (Fs (RemoveFile p i n)) s))
        | ACreate i p \<Rightarrow> Some (emit (CmLog (LogCreateDir p i)) (fs (Fs (CreateDir p i)) s))
        | ACancel i \<Rightarrow>
            let s = fs (Fs (CancelWrite i)) s;
                s = (if get_job i (read_files (conn_of s)) \<noteq> None then emit (CmLog (LogTransfer i)) s else s)
            in Some (on_conn (\<lambda>c. c\<lparr>read_files := snd (remove_job i (read_files c))\<rparr>) s)
        | ASendConfirm r \<Rightarrow>
            (case get_job (cr_id r) (read_files c) of
               None \<Rightarrow> Some (fs (Fs (SendConfirm r)) s)
             | Some j \<Rightarrow>
                 (case s of (c, v, w, l) \<Rightarrow>
                    (case confirm (io E) r (j, w) of
                       None \<Rightarrow> None
                     | Some (j', w') \<Rightarrow> Some (c\<lparr>read_files := put_job (cr_id r) j' (read_files c)\<rparr>, v, w', l))))
        | ARename i p n \<Rightarrow> Some (emit (CmLog (LogRename p n)) (fs (Fs (Rename i p n)) s))))"

definition handle_file_response :: "file_response \<Rightarrow> 'a session_state \<Rightarrow> 'a session_state" where
  "handle_file_response r s =
    (case r of
       RBlock b \<Rightarrow> emit (CmFs (Fs (WriteBlock b))) s
     | RDone i n \<Rightarrow> emit (CmFs (Fs (WriteDone i n))) s
     | RDigest d \<Rightarrow>
         emit (CmFs (Fs (CheckDigest (dm_id d) (dm_num d) (dm_file_size d) (dm_last_modified d) True (dm_is_resume d)))) s
     | RError i n err \<Rightarrow> emit (CmFs (Fs (WriteError i n err))) s
     | ROther \<Rightarrow> s)"

section \<open>Displays\<close>

definition refresh_video_display :: "nat option \<Rightarrow> 'a session_state \<Rightarrow> 'a session_state" where
  "refresh_video_display d s =
    on_server (\<lambda>c. set_video_service_opt (map_option (\<lambda>d. (video_source c, d)) d) ''refresh'' SERVICE_OPTION_VALUE_TRUE)
      (emit VideoRefresh s)"

definition change_resolution :: "nat option \<Rightarrow> int \<Rightarrow> int \<Rightarrow> 'a session_state \<Rightarrow> 'a session_state" where
  "change_resolution d width height s = (if keyboard (conn_of s) then emit (SetResolution d width height) s else s)"

definition is_support_multi_ui_session :: "string \<Rightarrow> bool" where
  "is_support_multi_ui_session ver \<longleftrightarrow> get_version_number ''1.41.5'' \<le> get_version_number ver"

definition ensure_service :: "VideoSource \<Rightarrow> nat \<Rightarrow> 'a server \<Rightarrow> 'a server" where
  "ensure_service source d v = (if contains (get_service_name source d) v then v else add_service (video_service_new source d) v)"

definition switch_display_to :: "session_env \<Rightarrow> nat \<Rightarrow> 'a session_state \<Rightarrow> 'a session_state" where
  "switch_display_to E d s =
    (let source = video_source (conn_of s); old = display_idx (conn_of s);
         s = (if d \<noteq> primary E then on_server (\<lambda>_. ensure_service source d) s else s);
         s = (if \<not> is_support_multi_ui_session (peer_version (conn_of s)) then sub (get_service_name source old) (\<lambda>_. False) s else s)
     in on_conn (\<lambda>c. c\<lparr>display_idx := d\<rparr>) (sub (get_service_name source d) (\<lambda>_. True) s))"

definition handle_switch_display :: "session_env \<Rightarrow> nat \<Rightarrow> int \<Rightarrow> int \<Rightarrow> 'a session_state \<Rightarrow> 'a session_state" where
  "handle_switch_display E d width height s =
    (if display_idx (conn_of s) \<noteq> d then
       let s = switch_display_to E d s;
           s = (if width \<noteq> 0 \<and> height \<noteq> 0 then change_resolution None width height s else s)
       in (if display_known E (video_source (conn_of s)) (display_idx (conn_of s))
           then emit (SendDisplayChanged (display_idx (conn_of s))) s else s)
     else s)"

definition capture_session_displays :: "nat list \<Rightarrow> nat list \<Rightarrow> nat list \<Rightarrow> 'a session_state \<Rightarrow> 'a session_state" where
  "capture_session_displays add rem set_to s =
    (let source = video_source (conn_of s);
         s = on_server (\<lambda>_. fold (ensure_service source) set_to \<circ> fold (ensure_service source) add) s;
         s = on_server (\<lambda>c.
               if add \<noteq> [] then capture_displays (inner c) source add True False
               else if rem \<noteq> [] then capture_displays (inner c) source rem False True
               else capture_displays (inner c) source set_to True True) s;
         s = (case s of (c, v, w, l) \<Rightarrow> (c\<lparr>multi_ui_session := get_subbed_displays_count (conn_id (inner c)) v > 1\<rparr>, v, w, l))
     in (if follow_remote_window (conn_of s) then sub NAME_WINDOW_FOCUS (\<lambda>c. \<not> multi_ui_session c) s else s))"

section \<open>Privacy mode\<close>

definition privacy_unsupported :: string where
  "privacy_unsupported = ''Unsupported. 1 Multi-screen is not supported. 2 Please confirm the license is activated.''"

definition turn_off_privacy :: "session_env \<Rightarrow> string \<Rightarrow> 'a session_state \<Rightarrow> 'a session_state" where
  "turn_off_privacy E key s =
    (if \<not> privacy_supported E then emit (SendPrivacy PrvNotSupported privacy_unsupported key) s
     else
       emit (case turn_off_result E of
               Some (Inr _) \<Rightarrow> SendPrivacy PrvOffSucceeded [] []
             | Some (Inl err) \<Rightarrow> SendPrivacy PrvOffFailed err []
             | None \<Rightarrow> SendPrivacy PrvOffFailed ''Not supported'' []) (emit TurnOffPrivacy s))"

definition turn_on_privacy :: "session_env \<Rightarrow> string \<Rightarrow> 'a session_state \<Rightarrow> 'a session_state" where
  "turn_on_privacy E key s =
    (if \<not> privacy_supported E then emit (SendPrivacy PrvNotSupported privacy_unsupported key) s
     else
       let s = (case privacy_impl E of
                  Some k \<Rightarrow>
                    if privacy_on E \<and> \<not> privacy_current E k then emit (SendPrivacy PrvOffSucceeded [] k) s else s
                | None \<Rightarrow> s);
           s = emit (TurnOnPrivacy key) s
       in (case turn_on_result E of
             Some (Inr True) \<Rightarrow>
               if privacy_check E = [] then emit (SendPrivacy PrvOnSucceeded [] key) s
               else emit (SendPrivacy PrvOnFailed (privacy_check E) key) (emit TurnOffPrivacy s)
           | Some (Inr False) \<Rightarrow> emit (SendPrivacy PrvOnFailedPlugin [] key) s
           | Some (Inl err) \<Rightarrow> emit (SendPrivacy PrvOnFailed err key) (if privacy_on E then emit TurnOffPrivacy s else s)
           | None \<Rightarrow> emit (SendPrivacy PrvOffFailed ''Not supported'' key) s))"


section \<open>Options\<close>

definition sub_audio :: "'a session_state \<Rightarrow> 'a session_state" where
  "sub_audio s =
    (let c = conn_of s in
     if is_authed_view_camera c then
       (if voice_calling c \<or> \<not> audio_enabled c then sub AUDIO_NAME audio_enabled s else s)
     else sub AUDIO_NAME audio_enabled s)"

definition when_set :: "bool_option \<Rightarrow> (bool \<Rightarrow> 'a session_state \<Rightarrow> 'a session_state) \<Rightarrow> 'a session_state \<Rightarrow> 'a session_state" where
  "when_set q f s = (case q of NotSet \<Rightarrow> s | Yes \<Rightarrow> f True s | No \<Rightarrow> f False s)"

definition image_quality_of :: "option_message \<Rightarrow> int option" where
  "image_quality_of o' =
    (case o_image_quality o' of
       None \<Rightarrow> None
     | Some q \<Rightarrow>
         let iq = (if q = 0 then (if o_custom_image_quality o' > 0 then o_custom_image_quality o' else -1) else q)
         in if iq > 0 then Some iq else None)"

text \<open>One definition per option, in the order of the code. \<open>enable_file_transfer\<close> is read on Windows and with the file
  clipboard only.\<close>

definition opt_quality :: "option_message \<Rightarrow> 'a session_state \<Rightarrow> 'a session_state" where
  "opt_quality o' s = (case image_quality_of o' of Some q \<Rightarrow> emit (QosQuality q) s | None \<Rightarrow> s)"

definition opt_fps :: "option_message \<Rightarrow> 'a session_state \<Rightarrow> 'a session_state" where
  "opt_fps o' s = (if o_custom_fps o' > 0 then emit (QosFps (o_custom_fps o')) s else s)"

definition opt_decoding :: "option_message \<Rightarrow> 'a session_state \<Rightarrow> 'a session_state" where
  "opt_decoding o' s =
    (case o_supported_decoding o' of
       Some q \<Rightarrow> emit (EncoderUpdate (Update (conn_id (inner (conn_of s))) q)) s
     | None \<Rightarrow> s)"

definition opt_lock :: "option_message \<Rightarrow> 'a session_state \<Rightarrow> 'a session_state" where
  "opt_lock o' = when_set (o_lock_after_session_end o') (\<lambda>b. on_conn (\<lambda>c. c\<lparr>lock_after_session_end := b\<rparr>))"

definition opt_remote_cursor :: "option_message \<Rightarrow> 'a session_state \<Rightarrow> 'a session_state" where
  "opt_remote_cursor o' = when_set (o_show_remote_cursor o') (\<lambda>b s.
     sub NAME_POS show_remote_cursor
       (sub NAME_CURSOR (\<lambda>c. peer_keyboard_enabled c \<or> show_remote_cursor c) (on_conn (\<lambda>c. c\<lparr>show_remote_cursor := b\<rparr>) s)))"

definition opt_follow_cursor :: "option_message \<Rightarrow> 'a session_state \<Rightarrow> 'a session_state" where
  "opt_follow_cursor o' = when_set (o_follow_remote_cursor o') (\<lambda>b. on_conn (\<lambda>c. c\<lparr>follow_remote_cursor := b\<rparr>))"

definition opt_follow_window :: "option_message \<Rightarrow> 'a session_state \<Rightarrow> 'a session_state" where
  "opt_follow_window o' = when_set (o_follow_remote_window o') (\<lambda>b s.
     sub NAME_WINDOW_FOCUS follow_remote_window (on_conn (\<lambda>c. c\<lparr>follow_remote_window := b\<rparr>) s))"

definition opt_audio :: "option_message \<Rightarrow> 'a session_state \<Rightarrow> 'a session_state" where
  "opt_audio o' = when_set (o_disable_audio o') (\<lambda>b s. sub_audio (on_conn (\<lambda>c. c\<lparr>disable_audio := b\<rparr>) s))"

definition opt_clipboard :: "session_env \<Rightarrow> option_message \<Rightarrow> 'a session_state \<Rightarrow> 'a session_state" where
  "opt_clipboard E o' = when_set (o_disable_clipboard o') (\<lambda>b s.
     sub CLIPBOARD_NAME (can_sub_clipboard_service E) (on_conn (\<lambda>c. c\<lparr>disable_clipboard := b\<rparr>) s))"

definition opt_keyboard :: "session_env \<Rightarrow> option_message \<Rightarrow> 'a session_state \<Rightarrow> 'a session_state" where
  "opt_keyboard E o' = when_set (o_disable_keyboard o') (\<lambda>b s.
     sub NAME_CURSOR (\<lambda>c. peer_keyboard_enabled c \<or> show_remote_cursor c)
       (sub CLIPBOARD_NAME (can_sub_clipboard_service E) (on_conn (\<lambda>c. c\<lparr>disable_keyboard := b\<rparr>) s)))"

definition opt_privacy :: "session_env \<Rightarrow> option_message \<Rightarrow> 'a session_state \<Rightarrow> 'a session_state" where
  "opt_privacy E o' s =
    (if get_version_number (peer_version (conn_of s)) < get_version_number ''1.40.8'' \<and> keyboard (conn_of s)
     then when_set (o_privacy_mode o') (\<lambda>b. if b then turn_on_privacy E [] else turn_off_privacy E []) s
     else s)"

definition opt_block_input :: "option_message \<Rightarrow> 'a session_state \<Rightarrow> 'a session_state" where
  "opt_block_input o' = when_set (o_block_input o') (\<lambda>b s.
     if keyboard (conn_of s) \<and> block_input (conn_of s) then emit (InputBlock b) s else emit (SendBlockInputError b) s)"

definition opt_my_cursor :: "session_env \<Rightarrow> option_message \<Rightarrow> 'a session_state \<Rightarrow> 'a session_state" where
  "opt_my_cursor E o' = when_set (o_show_my_cursor o') (\<lambda>b s.
     (if whiteboard_supported E then emit (Whiteboard b) else if b then emit SendNotSupported else id)
       (on_conn (\<lambda>c. c\<lparr>show_my_cursor := b\<rparr>) s))"

definition update_options :: "session_env \<Rightarrow> option_message \<Rightarrow> 'a session_state \<Rightarrow> 'a session_state" where
  "update_options E o' s =
    fold id [opt_quality o', opt_fps o', opt_decoding o', opt_lock o', opt_remote_cursor o', opt_follow_cursor o', opt_follow_window o',
      opt_audio o', opt_clipboard E o', opt_keyboard E o', opt_privacy E o', opt_block_input o', opt_my_cursor E o'] s"

section \<open>Start of a session\<close>

definition try_sub_camera_displays :: "session_env \<Rightarrow> 'a session_state \<Rightarrow> 'a session_state" where
  "try_sub_camera_displays E =
    on_server (\<lambda>c v. add_camera_connection (camera_exists E) (inner c) (try_add_primary_camera_service (camera_exists E) v))"

text \<open>
  The end of \<open>send_logon_response\<close>: the options of the login request, then what the kind of session needs.
  \<open>wait\<close> is set while the user of a Windows machine chooses a session, \<open>invited\<close> for a connection that
  answers an invitation.
\<close>

definition start_session ::
  "session_env \<Rightarrow> (nat \<times> nat) option \<Rightarrow> option_message option \<Rightarrow> string \<times> bool \<Rightarrow> bool \<Rightarrow> bool \<Rightarrow> bool \<Rightarrow>
   'a session_state \<Rightarrow> 'a session_state" where
  "start_session E timer login_options dir wait sub_service invited s =
    (let s = on_conn (\<lambda>c. c\<lparr>authorized := True\<rparr>) s;
         s = (case login_options of Some o' \<Rightarrow> update_options E o' s | None \<Rightarrow> s);
         c = conn_of s
     in if file_session c then
          (if \<not> wait then emit (CmFs (FsReadDir (fst dir) (snd dir))) s
           else on_conn (\<lambda>c. c\<lparr>delayed_read_dir := Some dir\<rparr>) s)
        else if view_camera c then
          emit (SendPermission PKeyboard False) (on_conn (\<lambda>c. c\<lparr>keyboard := False\<rparr>)
            (if \<not> wait then try_sub_camera_displays E s else s))
        else if sub_service \<and> \<not> invited \<and> \<not> wait then try_sub_monitor_services E timer s
        else s)"

section \<open>Calls and closing\<close>

definition close_voice_call :: "'a session_state \<Rightarrow> 'a session_state" where
  "close_voice_call s =
    (let s = emit CmCloseVoice (emit ResetVoiceDevice s);
         s = on_conn (\<lambda>c. c\<lparr>voice_calling := False\<rparr>) s
     in if is_authed_view_camera (conn_of s) then sub AUDIO_NAME (\<lambda>_. False) s else s)"

definition handle_voice_call :: "bool \<Rightarrow> 'a session_state \<Rightarrow> 'a session_state" where
  "handle_voice_call accepted s =
    (case voice_request (conn_of s) of
       None \<Rightarrow> s
     | Some ts \<Rightarrow>
         let s = on_conn (\<lambda>c. c\<lparr>voice_request := None\<rparr>) s;
             s = (if accepted then emit CmStartVoice (emit SetVoiceDevice s) else emit CmCloseVoice s);
             s = on_conn (\<lambda>c. c\<lparr>voice_calling := accepted\<rparr>) (emit (SendVoiceResponse ts accepted) s)
         in if is_authed_view_camera (conn_of s) then sub AUDIO_NAME (\<lambda>c. audio_enabled c \<and> accepted) s else s)"

definition close_session :: "bool \<Rightarrow> 'a session_state \<Rightarrow> 'a session_state" where
  "close_session lock s =
    (if closed (conn_of s) then s
     else
       let s = emit ResetVoiceDevice (on_conn (\<lambda>c. c\<lparr>closed := True\<rparr>) s);
           c = conn_of s;
           s = (if lock \<and> lock_after_session_end c \<and> keyboard c then emit LockScreen s else s)
       in on_conn (\<lambda>c. c\<lparr>forwarding := False\<rparr>) (emit (CmClosed (chat_unanswered c)) s))"

section \<open>Messages\<close>

definition handle_misc :: "session_env \<Rightarrow> misc \<Rightarrow> 'a session_state \<Rightarrow> bool \<times> 'a session_state" where
  "handle_misc E m s =
    (case m of
       SwitchDisplay d width height \<Rightarrow> (True, handle_switch_display E d width height s)
     | CaptureDisplays add rem set_to \<Rightarrow> (True, capture_session_displays add rem set_to s)
     | TogglePrivacyMode b key \<Rightarrow> (True, if b then turn_on_privacy E key s else turn_off_privacy E key s)
     | ChatMessage text \<Rightarrow>
         (True, update_auto_disconnect_timer E (on_conn (\<lambda>c. c\<lparr>chat_unanswered := True\<rparr>) (emit (CmChat text) s)))
     | OptionMsg o' \<Rightarrow> (True, update_options E o' s)
     | RefreshVideo r \<Rightarrow> (True, update_auto_disconnect_timer E (if r then refresh_video_display None s else s))
     | RefreshVideoDisplay d \<Rightarrow> (True, update_auto_disconnect_timer E (refresh_video_display (Some d) s))
     | VideoReceived \<Rightarrow> (True, emit VideoFetched s)
     | CloseReason _ \<Rightarrow> (False, close_session True s)
     | RestartRemoteDevice \<Rightarrow> (True, if restart (conn_of s) then emit Reboot s else s)
     | AudioFormat rate chans \<Rightarrow>
         (True, if disable_audio (conn_of s) then s
                else emit (PlayFormat rate chans) (on_conn (\<lambda>c. c\<lparr>audio_sender := True\<rparr>) s))
     | SwitchSidesRequest uuid \<Rightarrow>
         (case uuid of None \<Rightarrow> (True, s) | Some u \<Rightarrow> (False, emit (SpawnClient u) (close_session False s)))
     | ChangeResolution width height \<Rightarrow> (True, change_resolution None width height s)
     | ChangeDisplayResolution d width height \<Rightarrow> (True, change_resolution (Some d) width height s)
     | AutoAdjustFps fps \<Rightarrow> (True, emit (QosAutoFps fps) s)
     | ClientRecordStatus b \<Rightarrow> (True, emit (QosRecord b) s)
     | MessageQuery d \<Rightarrow>
         (True, if display_known E (video_source (conn_of s)) d then emit (SendDisplayChanged d) s else s))"

definition handle_peer_msg :: "session_env \<Rightarrow> peer_msg \<Rightarrow> 'a session_state \<Rightarrow> (bool \<times> 'a session_state) option" where
  "handle_peer_msg E m s =
    (if \<not> authorized (conn_of s) \<or> forwarding (conn_of s) then Some (True, s)
     else
       (case m of
          MouseMsg me \<Rightarrow> Some (True, handle_mouse_msg E me s)
        | PointerMsg p \<Rightarrow> Some (True, handle_pointer_msg E p s)
        | KeyMsg k \<Rightarrow> Some (True, handle_key_msg E k s)
        | ClipboardMsg cb \<Rightarrow> Some (True, handle_clipboard_msg [cb] s)
        | MultiClipboards cbs \<Rightarrow> Some (True, handle_clipboard_msg cbs s)
        | FileAction a \<Rightarrow> map_option (\<lambda>s. (True, s)) (handle_file_action E a s)
        | FileResponse r \<Rightarrow> Some (True, handle_file_response r s)
        | MiscMsg i \<Rightarrow> Some (handle_misc E i s)
        | AudioFrame f \<Rightarrow>
            Some (True, if \<not> disable_audio (conn_of s) \<and> audio_sender (conn_of s) then emit (PlayFrame f) s else s)
        | VoiceCallRequest connect ts \<Rightarrow>
            Some (True,
              if connect then
                emit CmVoiceIncoming (on_conn (\<lambda>c. c\<lparr>voice_request := Some (if ts \<noteq> 0 then ts else clock_ms E)\<rparr>) s)
              else close_voice_call s)
        | VoiceCallResponse \<Rightarrow> Some (True, s)
        | ScreenshotRequest d sid \<Rightarrow>
            Some (True, if tx (inner (conn_of s)) then refresh_video_display (Some d) (emit (TakeScreenshot d sid) s) else s)))"

section \<open>The connection manager\<close>

datatype cm_msg =
    SwitchPermission string bool
  | CmChatMessage string
  | CmVoiceCallResponse bool
  | CmCloseVoiceCall

definition switch_permission :: "session_env \<Rightarrow> string \<Rightarrow> bool \<Rightarrow> 'a session_state \<Rightarrow> 'a session_state" where
  "switch_permission E name b s =
    (if name = ''keyboard'' then
       let s = emit (SendPermission PKeyboard b) (on_conn (\<lambda>c. c\<lparr>keyboard := b\<rparr>) s);
           s = sub CLIPBOARD_NAME (can_sub_clipboard_service E) s
       in sub NAME_CURSOR (\<lambda>c. b \<or> show_remote_cursor c) s
     else if name = ''clipboard'' then
       sub CLIPBOARD_NAME (can_sub_clipboard_service E)
         (emit (SendPermission PClipboard b) (on_conn (\<lambda>c. c\<lparr>clipboard := b\<rparr>) s))
     else if name = ''audio'' then
       let s = emit (SendPermission PAudio b) (on_conn (\<lambda>c. c\<lparr>audio := b\<rparr>) s)
       in if authorized (conn_of s) then sub_audio s else s
     else if name = ''file'' then emit (SendPermission PFile b) (on_conn (\<lambda>c. c\<lparr>file_perm := b\<rparr>) s)
     else if name = ''restart'' then emit (SendPermission PRestart b) (on_conn (\<lambda>c. c\<lparr>restart := b\<rparr>) s)
     else if name = ''recording'' then emit (SendPermission PRecording b) (on_conn (\<lambda>c. c\<lparr>recording := b\<rparr>) s)
     else if name = ''block_input'' then emit (SendPermission PBlockInput b) (on_conn (\<lambda>c. c\<lparr>block_input := b\<rparr>) s)
     else if name = ''camera'' then
       let s = emit (SendPermission PCamera b) s
       in if view_camera (conn_of s) then sub (get_service_name Camera 0) (\<lambda>_. b) s else s
     else s)"

definition handle_cm_msg :: "session_env \<Rightarrow> cm_msg \<Rightarrow> 'a session_state \<Rightarrow> 'a session_state" where
  "handle_cm_msg E m s =
    (case m of
       SwitchPermission name b \<Rightarrow> switch_permission E name b s
     | CmChatMessage text \<Rightarrow> on_conn (\<lambda>c. c\<lparr>chat_unanswered := False\<rparr>) (emit (SendChat text) s)
     | CmVoiceCallResponse b \<Rightarrow> handle_voice_call b s
     | CmCloseVoiceCall \<Rightarrow> emit (SendVoiceRequest False) (close_voice_call s))"

end
