(* ===== verification/Session_Discipline.thy ===== *)
theory Session_Discipline
  imports Session_Control Service_Contracts Transfer_Resume
begin

text \<open>
  What a message of the peer can make a session do. A \<open>discipline\<close> says which changes of the connection and the
  files, and which effects, are allowed; the locale proves once that it is kept by every way in which the handlers
  of \<open>Session_Control\<close> are put together. The interpretation \<open>peer\<close> is the discipline of the peer's
  messages: rights are not touched, every effect has its permission, files are reached only from a file session.
\<close>

section \<open>Effects under a discipline\<close>

definition core :: "'a session_state \<Rightarrow> authed_session \<times> filesystem" where
  "core s = (fst s, fst (snd (snd s)))"

abbreviation hub_of :: "'a session_state \<Rightarrow> 'a server" where "hub_of s \<equiv> fst (snd s)"

lemma emit_parts [simp]:
  "conn_of (emit e s) = conn_of s" "hub_of (emit e s) = hub_of s" "core (emit e s) = core s" "effects (emit e s) = effects s @ [e]"
  by (simp_all add: emit_def core_def split: prod.split)

lemma on_conn_parts [simp]:
  "conn_of (on_conn f s) = f (conn_of s)" "hub_of (on_conn f s) = hub_of s" "core (on_conn f s) = (f (conn_of s), snd (core s))"
  "effects (on_conn f s) = effects s"
  by (simp_all add: on_conn_def core_def split: prod.split)

lemma on_server_parts [simp]:
  "conn_of (on_server f s) = conn_of s" "hub_of (on_server f s) = f (conn_of s) (hub_of s)" "core (on_server f s) = core s"
  "effects (on_server f s) = effects s"
  by (simp_all add: on_server_def core_def split: prod.split)

lemma fst_core [simp]: "fst (core s) = conn_of s" by (simp add: core_def)

locale discipline =
  fixes keep :: "authed_session \<times> filesystem \<Rightarrow> authed_session \<times> filesystem \<Rightarrow> bool" and allowed :: "authed_session \<Rightarrow> effect \<Rightarrow> bool"
  assumes keep_refl: "keep x x"
    and keep_trans: "keep x y \<Longrightarrow> keep y z \<Longrightarrow> keep x z"
    and allowed_before: "keep x y \<Longrightarrow> allowed (fst y) e \<Longrightarrow> allowed (fst x) e"
begin

definition ext :: "'a session_state \<Rightarrow> 'a session_state \<Rightarrow> bool" where
  "ext s s' \<longleftrightarrow> keep (core s) (core s') \<and> (\<exists>new. effects s' = effects s @ new \<and> (\<forall>e \<in> set new. allowed (conn_of s) e))"

lemma ext_refl: "ext s s"
  by (simp add: ext_def keep_refl)

lemma ext_trans:
  assumes "ext s t" "ext t u" shows "ext s u"
proof -
  obtain es where 1: "keep (core s) (core t)" "effects t = effects s @ es" "\<forall>e \<in> set es. allowed (conn_of s) e"
    using assms(1) by (auto simp: ext_def)
  obtain fs where 2: "keep (core t) (core u)" "effects u = effects t @ fs" "\<forall>e \<in> set fs. allowed (conn_of t) e"
    using assms(2) by (auto simp: ext_def)
  have "\<forall>e \<in> set fs. allowed (conn_of s) e" using 2(3) allowed_before[OF 1(1)] by simp
  then show ?thesis unfolding ext_def using keep_trans[OF 1(1) 2(1)] 1 2 by auto
qed

lemma ext_step:
  assumes "ext s t" "keep (core t) (core u)" "effects u = effects t \<or> (\<exists>e. effects u = effects t @ [e] \<and> allowed (conn_of t) e)"
  shows "ext s u"
proof (rule ext_trans[OF assms(1)])
  show "ext t u" using assms(2,3) by (auto simp: ext_def)
qed

lemma ext_emit: "allowed (conn_of t) e \<Longrightarrow> ext s t \<Longrightarrow> ext s (emit e t)"
  by (rule ext_step[of s t]) (simp_all add: keep_refl)

lemma ext_on_conn: "keep (core t) (f (conn_of t), snd (core t)) \<Longrightarrow> ext s t \<Longrightarrow> ext s (on_conn f t)"
  by (rule ext_step[of s t]) simp_all

lemma ext_on_server: "ext s t \<Longrightarrow> ext s (on_server f t)"
  by (rule ext_step[of s t]) (simp_all add: keep_refl)

lemma ext_sub: "ext s t \<Longrightarrow> ext s (sub n P t)"
  unfolding sub_def by (rule ext_on_server)

lemma ext_if: "(b \<Longrightarrow> ext s t) \<Longrightarrow> (\<not> b \<Longrightarrow> ext s u) \<Longrightarrow> ext s (if b then t else u)"
  by simp

lemma ext_option: "(x = None \<Longrightarrow> ext s t) \<Longrightarrow> (\<And>y. x = Some y \<Longrightarrow> ext s (f y)) \<Longrightarrow> ext s (case x of None \<Rightarrow> t | Some y \<Rightarrow> f y)"
  by (cases x) simp_all

lemma ext_sum: "(\<And>y. x = Inl y \<Longrightarrow> ext s (f y)) \<Longrightarrow> (\<And>y. x = Inr y \<Longrightarrow> ext s (g y)) \<Longrightarrow> ext s (case x of Inl y \<Rightarrow> f y | Inr y \<Rightarrow> g y)"
  by (cases x) simp_all

lemma ext_when_set: "ext s t \<Longrightarrow> (\<And>b. ext s (f b t)) \<Longrightarrow> ext s (when_set q f t)"
  by (cases q) (simp_all add: when_set_def)

lemmas ext_rules = ext_refl ext_if ext_option ext_sum ext_emit ext_on_conn ext_on_server ext_sub ext_when_set

end

section \<open>What a message of the peer may do\<close>

fun fills_file :: "fs_request \<Rightarrow> bool" where
  "fills_file (Fs (WriteBlock _)) = True"
| "fills_file (Fs (WriteDone _ _)) = True"
| "fills_file (Fs (WriteError _ _ _)) = True"
| "fills_file (Fs (CheckDigest _ _ _ _ _ _)) = True"
| "fills_file _ = False"

fun changes_tree :: "fs_request \<Rightarrow> bool" where
  "changes_tree (Fs (RemoveFile _ _ _)) = True"
| "changes_tree (Fs (CreateDir _ _)) = True"
| "changes_tree (Fs (Rename _ _ _)) = True"
| "changes_tree (FsRemoveDir _ _ _) = True"
| "changes_tree _ = False"

definition needed :: "effect \<Rightarrow> string set" where
  "needed e = (case e of
     InputMouse _ simulate _ \<Rightarrow> (if simulate then {''keyboard''} else {})
   | InputPointer _ \<Rightarrow> {''keyboard''}
   | InputKey _ _ \<Rightarrow> {''keyboard''}
   | SetResolution _ _ _ \<Rightarrow> {''keyboard''}
   | LockScreen \<Rightarrow> {''keyboard''}
   | InputBlock _ \<Rightarrow> {''keyboard'', ''block_input''}
   | HostClipboard _ \<Rightarrow> {''clipboard''}
   | Reboot \<Rightarrow> {''restart''}
   | _ \<Rightarrow> {})"

definition granted :: "authed_session \<Rightarrow> string set" where
  "granted c = {p. p = ''keyboard'' \<and> keyboard c \<or> p = ''clipboard'' \<and> clipboard c \<or> p = ''restart'' \<and> restart c
    \<or> p = ''block_input'' \<and> block_input c}"

definition legit :: "bool \<Rightarrow> authed_session \<Rightarrow> effect \<Rightarrow> bool" where
  "legit oneway c e \<longleftrightarrow> needed e \<subseteq> granted c \<and>
    (case e of
       CmFs r \<Rightarrow> fills_file r \<or> file_session c \<and> \<not> (oneway \<and> changes_tree r)
     | SendFile m \<Rightarrow> file_session c \<and> (oneway \<longrightarrow> (\<exists>i err n. m = ErrorMsg i err n))
     | SendDir _ _ _ \<Rightarrow> file_session c
     | _ \<Rightarrow> True)"

definition rights :: "authed_session \<Rightarrow> bool list \<times> conn_inner" where
  "rights c = ([keyboard c, clipboard c, restart c, block_input c, audio c, authorized c, file_session c, view_camera c,
    terminal_session c, authed_camera c], inner c)"

definition same_rights :: "authed_session \<Rightarrow> authed_session \<Rightarrow> bool" where
  "same_rights c c' \<longleftrightarrow> rights c' = rights c"

lemma same_rightsD:
  assumes "same_rights c c'"
  shows "keyboard c' = keyboard c" "clipboard c' = clipboard c" "restart c' = restart c" "block_input c' = block_input c"
    "audio c' = audio c" "inner c' = inner c" "authorized c' = authorized c" "file_session c' = file_session c"
    "view_camera c' = view_camera c" "terminal_session c' = terminal_session c" "authed_camera c' = authed_camera c"
  using assms by (simp_all add: same_rights_def rights_def)

fun bounded_change :: "bool \<Rightarrow> authed_session \<times> filesystem \<Rightarrow> authed_session \<times> filesystem \<Rightarrow> bool" where
  "bounded_change oneway (c, w) (c', w') \<longleftrightarrow> same_rights c c'
    \<and> (\<not> file_session c \<longrightarrow> read_files c' = read_files c \<and> w' = w)
    \<and> (oneway \<longrightarrow> job_id ` set (read_files c') \<subseteq> job_id ` set (read_files c))
    \<and> (pressed_modifiers c = [] \<longrightarrow> pressed_modifiers c' = [])"

lemma granted_same: "same_rights c c' \<Longrightarrow> granted c' = granted c"
  by (simp add: granted_def same_rightsD)

lemma legit_same: "same_rights c c' \<Longrightarrow> legit oneway c' e = legit oneway c e"
  unfolding legit_def by (simp only: granted_same same_rightsD)

lemma bounded_trans:
  assumes "bounded_change oneway x y" "bounded_change oneway y z"
  shows "bounded_change oneway x z"
proof (cases x, cases y, cases z)
  fix c w c' w' c'' w'' assume e: "x = (c, w)" "y = (c', w')" "z = (c'', w'')"
  have r: "same_rights c c'" "same_rights c' c''" using assms e by simp_all
  then have "same_rights c c''" by (simp add: same_rights_def)
  moreover have "\<not> file_session c \<Longrightarrow> read_files c'' = read_files c \<and> w'' = w"
    using assms e same_rightsD(8)[OF r(1)] by simp
  moreover have "oneway \<Longrightarrow> job_id ` set (read_files c'') \<subseteq> job_id ` set (read_files c)"
    using assms e by (simp only: bounded_change.simps) blast
  moreover have "pressed_modifiers c = [] \<Longrightarrow> pressed_modifiers c'' = []"
    using assms e by simp
  ultimately show ?thesis using e by simp
qed

interpretation peer: discipline "bounded_change oneway" "legit oneway" for oneway
proof
  show "bounded_change oneway x x" for x by (cases x) (simp add: same_rights_def)
  show "bounded_change oneway x z" if "bounded_change oneway x y" "bounded_change oneway y z" for x y z
    using that by (rule bounded_trans)
  show "legit oneway (fst x) e" if "bounded_change oneway x y" "legit oneway (fst y) e" for x y e
  proof (cases x, cases y)
    fix c w c' w' assume e: "x = (c, w)" "y = (c', w')"
    then have "same_rights c c'" using that by simp
    then show ?thesis using that(2) e by (simp add: legit_same)
  qed
qed

lemma granted_simps:
  "''keyboard'' \<in> granted c \<longleftrightarrow> keyboard c" "''clipboard'' \<in> granted c \<longleftrightarrow> clipboard c"
  "''restart'' \<in> granted c \<longleftrightarrow> restart c" "''block_input'' \<in> granted c \<longleftrightarrow> block_input c"
  by (auto simp: granted_def)

lemmas legit_simps = legit_def needed_def granted_simps

lemma bounded_conn:
  assumes "same_rights c (f c)" "read_files (f c) = read_files c" "pressed_modifiers (f c) = pressed_modifiers c"
  shows "bounded_change oneway (c, w) (f c, w)"
  using assms by simp

lemma core_eq: "core s = (conn_of s, snd (core s))" by (simp add: core_def)

lemma peer_on_conn:
  assumes "peer.ext w s t" "same_rights (conn_of t) (f (conn_of t))" "read_files (f (conn_of t)) = read_files (conn_of t)"
    "pressed_modifiers (f (conn_of t)) = pressed_modifiers (conn_of t)"
  shows "peer.ext w s (on_conn f t)"
  by (rule peer.ext_on_conn[OF _ assms(1)], subst core_eq, rule bounded_conn) (use assms in simp_all)

lemmas steps = peer.ext_refl peer.ext_if peer.ext_option peer.ext_sum peer.ext_emit peer_on_conn peer.ext_on_server peer.ext_sub peer.ext_when_set

lemma update_auto_disconnect_timer_ext: "peer.ext w s t \<Longrightarrow> peer.ext w s (update_auto_disconnect_timer E t)"
  unfolding update_auto_disconnect_timer_def by (rule peer_on_conn) (simp_all add: same_rights_def rights_def)

lemma handle_mouse_msg_ext: "peer.ext w s (handle_mouse_msg E me s)"
  unfolding handle_mouse_msg_def Let_def
  by (intro steps update_auto_disconnect_timer_ext) (simp_all add: legit_simps peer_keyboard_enabled_def)

lemma handle_pointer_msg_ext: "peer.ext w s (handle_pointer_msg E p s)"
  unfolding handle_pointer_msg_def Let_def
  by (intro steps update_auto_disconnect_timer_ext) (simp_all add: legit_simps peer_keyboard_enabled_def)

lemma handle_clipboard_msg_ext: "peer.ext w s (handle_clipboard_msg cbs s)"
  unfolding handle_clipboard_msg_def by (intro steps) (simp_all add: legit_simps)

lemma handle_file_response_ext: "peer.ext w s (handle_file_response r s)"
  by (cases r) (simp_all add: handle_file_response_def peer.ext_refl peer.ext_emit legit_simps)

lemma same_rights_refl [simp]: "same_rights c c" by (simp add: same_rights_def)

lemma handle_key_msg_ext: "peer.ext w s (handle_key_msg E k s)"
proof -
  have m: "peer.ext w s (on_conn (\<lambda>c. c\<lparr>pressed_modifiers := removeAll m (pressed_modifiers c)\<rparr>) s)" for m
    by (rule peer.ext_on_conn[OF _ peer.ext_refl], subst core_eq) (simp add: same_rights_def rights_def)
  have i: "((key_press k \<or> key_down k) \<and> \<not> (is_modifier k \<or> modifier_key E k \<noteq> None)) = False" if "modifier_key E k = Some m" for m
    using that by simp
  show ?thesis
  proof (cases "is_authed_view_camera (conn_of s) \<or> \<not> peer_keyboard_enabled (conn_of s)")
    case True
    then show ?thesis unfolding handle_key_msg_def Let_def
      by (intro steps update_auto_disconnect_timer_ext) (simp_all add: legit_simps)
  next
    case False
    then have k: "keyboard (conn_of s)" by (simp add: peer_keyboard_enabled_def)
    show ?thesis
    proof (cases "modifier_key E k")
      case None
      then show ?thesis unfolding handle_key_msg_def Let_def using False k
        by (simp add: peer.ext_emit peer.ext_refl update_auto_disconnect_timer_ext legit_simps)
    next
      case (Some a)
      show ?thesis unfolding handle_key_msg_def Let_def i[OF Some] using False k Some m[of a]
        by (simp add: peer.ext_emit update_auto_disconnect_timer_ext legit_simps)
    qed
  qed
qed

section \<open>Files\<close>

lemma new_read_id: "new_read i t r src n hid rem es od = Inr j \<Longrightarrow> job_id j = i"
  unfolding new_read_def by (auto simp: Let_def default_job_def split: sum.splits data_source.splits)

lemma removed_jobs: "set (snd (remove_job i js)) \<subseteq> set js"
  by (induction js) (auto split: prod.splits)

lemma remove_job_ids: "job_id ` set (snd (remove_job i js)) \<subseteq> job_id ` set js"
  by (rule image_mono[OF removed_jobs])

lemma put_job_ids: "job_id j' = i \<Longrightarrow> job_id ` set (put_job i j' js) \<subseteq> job_id ` set js"
  by (induction js) auto

lemma peer_read_files:
  assumes "peer.ext w s t" "file_session (conn_of t)" "w \<longrightarrow> job_id ` set (f (conn_of t)) \<subseteq> job_id ` set (read_files (conn_of t))"
  shows "peer.ext w s (on_conn (\<lambda>c. c\<lparr>read_files := f c\<rparr>) t)"
  by (rule peer.ext_on_conn[OF _ assms(1)], subst core_eq) (use assms in \<open>simp add: same_rights_def rights_def\<close>)

lemma send_files_ext:
  assumes "file_session (conn_of s)" "\<not> w"
  shows "peer.ext w s (send_files E i p n h t s)"
proof -
  have sent: "peer.ext w s (on_conn (\<lambda>c. c\<lparr>file_transferred := True\<rparr>) u)" if "peer.ext w s u" for u :: "'a session_state"
    by (rule peer_on_conn[OF that]) (simp_all add: same_rights_def rights_def)
  have start: "peer.ext w s (case new_read i t [] src n h False (listing E p h) d of
        Inl err \<Rightarrow> emit (SendFile (ErrorMsg i err 0)) u
      | Inr j \<Rightarrow> on_conn (\<lambda>c. c\<lparr>read_files := read_files c @ [j\<lparr>is_remote := True, job_conn_id := conn_id (inner c)\<rparr>]\<rparr>)
                  (emit (SendDir i p (files j)) u))" if "peer.ext w s u" "file_session (conn_of u)" for src d and u :: "'a session_state"
    using that assms by (intro steps peer_read_files) (simp_all add: legit_simps)
  have data: "peer.ext w s (on_conn (\<lambda>c. c\<lparr>printer_data := f c\<rparr>) s)" for f
    by (rule peer_on_conn[OF peer.ext_refl]) (simp_all add: same_rights_def rights_def)
  show ?thesis
  proof (cases t)
    case Generic
    show ?thesis unfolding send_files_def Let_def Generic using start[OF peer.ext_refl assms(1)] Generic by (simp add: sent)
  next
    case Printer
    show ?thesis
    proof (cases "find (\<lambda>(q, _). q = p) (printer_data (conn_of s))")
      case None
      then show ?thesis by (simp add: send_files_def Printer peer.ext_refl)
    next
      case (Some a)
      then show ?thesis unfolding send_files_def Let_def Printer using assms(1) Printer
        by (cases a) (auto intro!: sent start[unfolded Printer] data)
    qed
  qed
qed

lemma confirm_ext:
  assumes f: "file_session c" and g: "get_job (cr_id r) (read_files c) = Some j" and k: "confirm E r (j, w) = Some (j', w')"
  shows "peer.ext oneway (c, v, w, l) (c\<lparr>read_files := put_job (cr_id r) j' (read_files c)\<rparr>, v, w', l)"
proof -
  have "job_id j' = cr_id r" using confirm_id[OF k] get_job_id[OF g] by simp
  then show ?thesis using f put_job_ids[of j' "cr_id r"]
    by (simp add: peer.ext_def core_def same_rights_def rights_def)
qed

lemma log_conn_ext:
  assumes "peer.ext w s t" shows "peer.ext w s (on_conn (\<lambda>c. c\<lparr>file_remove_log := f c\<rparr>) t)"
    and "peer.ext w s (on_conn (\<lambda>c. c\<lparr>file_transferred := b\<rparr>) t)"
    and "peer.ext w s (on_conn (\<lambda>c. c\<lparr>delayed_read_dir := d\<rparr>) t)"
  by (rule peer_on_conn[OF assms]; simp add: same_rights_def rights_def)+

lemma handle_file_action_ext:
  assumes "handle_file_action E a s = Some s'"
  shows "peer.ext (one_way_file E) s s'"
proof -
  let ?c = "conn_of s"
  consider (no) "\<not> file_session ?c" | (delayed) "file_session ?c" "delayed_read_dir ?c \<noteq> None"
    | (refused) i where "file_session ?c" "delayed_read_dir ?c = None" "one_way_file E" "refused_job a = Some i"
    | (go) "file_session ?c" "delayed_read_dir ?c = None" "\<not> (one_way_file E \<and> refused_job a \<noteq> None)"
    by blast
  then show ?thesis
  proof cases
    case no
    then show ?thesis using assms by (simp add: handle_file_action_def peer.ext_refl)
  next
    case delayed
    then show ?thesis using assms
      by (auto simp: handle_file_action_def split: file_action.splits intro!: log_conn_ext peer.ext_refl)
  next
    case refused
    then have "s' = emit (SendFile (ErrorMsg i ''one-way-file-transfer-tip'' 0)) s"
      using assms by (simp add: handle_file_action_def)
    then show ?thesis using refused by (simp add: peer.ext_emit peer.ext_refl legit_simps)
  next
    case go
    show ?thesis
    proof (cases a)
      case (ASend i p n h t)
      then have "s' = send_files E i p n h t s" "\<not> one_way_file E"
        using assms go by (auto simp: handle_file_action_def Let_def refused_job_def)
      then show ?thesis using send_files_ext[OF go(1)] by simp
    next
      case (AAllFiles i p h)
      then show ?thesis using assms go
        by (auto simp: handle_file_action_def Let_def legit_simps intro!: steps)
    next
      case (ACancel i)
      let ?t = "if get_job i (read_files ?c) \<noteq> None then emit (CmLog (LogTransfer i)) (emit (CmFs (Fs (CancelWrite i))) s) else emit (CmFs (Fs (CancelWrite i))) s"
      have "s' = on_conn (\<lambda>c. c\<lparr>read_files := snd (remove_job i (read_files c))\<rparr>) ?t"
        using assms go ACancel by (simp add: handle_file_action_def Let_def refused_job_def)
      moreover have "peer.ext (one_way_file E) s ?t" using go by (intro steps) (simp_all add: legit_simps)
      ultimately show ?thesis using go by (simp add: peer_read_files remove_job_ids)
    next
      case (ASendConfirm r)
      then show ?thesis using assms go
        by (cases s) (auto simp: handle_file_action_def Let_def refused_job_def legit_simps peer.ext_emit peer.ext_refl
            split: option.splits intro: confirm_ext)
    qed (use assms go in \<open>auto simp: handle_file_action_def Let_def refused_job_def legit_simps intro!: steps log_conn_ext\<close>)
  qed
qed

section \<open>Displays, privacy mode, options, calls\<close>

lemma other_effect:
  "legit w c VideoRefresh" "legit w c TurnOffPrivacy" "legit w c (TurnOnPrivacy k)" "legit w c (SendPrivacy p m k)"
  "legit w c (SendDisplayChanged d)" "legit w c (QosQuality q)" "legit w c (QosFps q)" "legit w c (QosAutoFps n)" "legit w c (EncoderUpdate u)" "legit w c (QosRecord b)"
  "legit w c (SendBlockInputError b)" "legit w c (Whiteboard b)" "legit w c SendNotSupported" "legit w c CmCloseVoice"
  "legit w c ResetVoiceDevice" "legit w c (CmClosed b)" "legit w c (CmChat t)" "legit w c VideoFetched" "legit w c (PlayFormat n n2)"
  "legit w c (PlayFrame t)" "legit w c (SpawnClient t)" "legit w c CmVoiceIncoming" "legit w c (TakeScreenshot n t)"
  by (simp_all add: legit_simps)

lemma refresh_video_display_ext: "peer.ext w s t \<Longrightarrow> peer.ext w s (refresh_video_display d t)"
  unfolding refresh_video_display_def by (intro steps other_effect)

lemma change_resolution_ext: "peer.ext w s t \<Longrightarrow> peer.ext w s (change_resolution d width height t)"
  unfolding change_resolution_def by (intro steps) (simp_all add: legit_simps)

lemma switch_display_to_ext: "peer.ext w s (switch_display_to E d s)"
  unfolding switch_display_to_def Let_def by (intro steps) (simp_all add: same_rights_def rights_def)

lemma handle_switch_display_ext: "peer.ext w s (handle_switch_display E d width height s)"
  unfolding handle_switch_display_def Let_def
  by (intro peer.ext_refl peer.ext_if peer.ext_emit other_effect change_resolution_ext switch_display_to_ext)

lemma multi_ui_ext: "peer.ext w s t \<Longrightarrow> peer.ext w s (case t of (c, v, u, l) \<Rightarrow> (c\<lparr>multi_ui_session := f c v\<rparr>, v, u, l))"
proof (cases t)
  case (fields c v u l)
  assume "peer.ext w s t"
  then have "peer.ext w s (on_conn (\<lambda>c. c\<lparr>multi_ui_session := f c v\<rparr>) t)"
    by (rule peer_on_conn) (simp_all add: same_rights_def rights_def)
  then show ?thesis by (simp add: fields on_conn_def)
qed

lemma capture_session_displays_ext: "peer.ext w s (capture_session_displays add rem set_to s)"
  unfolding capture_session_displays_def Let_def
  by (intro peer.ext_refl peer.ext_if peer.ext_sub multi_ui_ext peer.ext_on_server)

lemma turn_off_privacy_ext: "peer.ext w s t \<Longrightarrow> peer.ext w s (turn_off_privacy E k t)"
  unfolding turn_off_privacy_def by (intro steps) (auto simp: other_effect split: option.split sum.split)

lemma turn_on_privacy_ext:
  assumes "peer.ext w s t" shows "peer.ext w s (turn_on_privacy E k t)"
proof -
  have b: "peer.ext w s (if x then emit TurnOffPrivacy u else u)" if "peer.ext w s u" for x and u :: "'a session_state"
    using that by (intro steps other_effect)
  show ?thesis unfolding turn_on_privacy_def Let_def
    by (auto simp: other_effect assms b intro!: steps other_effect b split: option.split sum.split bool.split)
qed

lemma when_set_ext:
  assumes "peer.ext w s t" "\<And>b. peer.ext w s (f b t)" shows "peer.ext w s (when_set q f t)"
  using assms by (rule peer.ext_when_set)

lemma sub_audio_ext: "peer.ext w s t \<Longrightarrow> peer.ext w s (sub_audio t)"
  unfolding sub_audio_def Let_def by (intro steps)

lemma fields_ext:
  assumes "peer.ext w s t"
  shows "peer.ext w s (on_conn (\<lambda>c. c\<lparr>lock_after_session_end := b\<rparr>) t)" "peer.ext w s (on_conn (\<lambda>c. c\<lparr>show_remote_cursor := b\<rparr>) t)"
    "peer.ext w s (on_conn (\<lambda>c. c\<lparr>follow_remote_cursor := b\<rparr>) t)" "peer.ext w s (on_conn (\<lambda>c. c\<lparr>follow_remote_window := b\<rparr>) t)"
    "peer.ext w s (on_conn (\<lambda>c. c\<lparr>disable_audio := b\<rparr>) t)" "peer.ext w s (on_conn (\<lambda>c. c\<lparr>disable_clipboard := b\<rparr>) t)"
    "peer.ext w s (on_conn (\<lambda>c. c\<lparr>disable_keyboard := b\<rparr>) t)" "peer.ext w s (on_conn (\<lambda>c. c\<lparr>show_my_cursor := b\<rparr>) t)"
    "peer.ext w s (on_conn (\<lambda>c. c\<lparr>voice_calling := b\<rparr>) t)" "peer.ext w s (on_conn (\<lambda>c. c\<lparr>closed := b\<rparr>) t)"
    "peer.ext w s (on_conn (\<lambda>c. c\<lparr>forwarding := b\<rparr>) t)" "peer.ext w s (on_conn (\<lambda>c. c\<lparr>chat_unanswered := b\<rparr>) t)"
    "peer.ext w s (on_conn (\<lambda>c. c\<lparr>audio_sender := b\<rparr>) t)" "peer.ext w s (on_conn (\<lambda>c. c\<lparr>voice_request := r\<rparr>) t)"
  by (rule peer_on_conn[OF assms]; simp add: same_rights_def rights_def)+

lemmas quiet = peer.ext_refl peer.ext_if peer.ext_option peer.ext_emit peer.ext_sub peer.ext_when_set fields_ext other_effect
  update_auto_disconnect_timer_ext refresh_video_display_ext change_resolution_ext turn_off_privacy_ext turn_on_privacy_ext sub_audio_ext

lemma opts_ext:
  assumes "peer.ext w s t"
  shows "peer.ext w s (opt_quality q t)" "peer.ext w s (opt_fps q t)" "peer.ext w s (opt_decoding q t)" "peer.ext w s (opt_lock q t)" "peer.ext w s (opt_remote_cursor q t)"
    "peer.ext w s (opt_follow_cursor q t)" "peer.ext w s (opt_follow_window q t)" "peer.ext w s (opt_audio q t)"
    "peer.ext w s (opt_clipboard E q t)" "peer.ext w s (opt_keyboard E q t)" "peer.ext w s (opt_privacy E q t)"
    "peer.ext w s (opt_my_cursor E q t)"
  unfolding opt_quality_def opt_fps_def opt_decoding_def opt_lock_def opt_remote_cursor_def opt_follow_cursor_def opt_follow_window_def
    opt_audio_def opt_clipboard_def opt_keyboard_def opt_privacy_def opt_my_cursor_def
  by (auto intro!: quiet assms split: option.split)

lemma opt_block_input_ext: "peer.ext w s t \<Longrightarrow> peer.ext w s (opt_block_input q t)"
  unfolding opt_block_input_def by (intro quiet) (simp_all add: legit_simps)

lemma update_options_ext: "peer.ext w s (update_options E q s)"
  unfolding update_options_def by (simp add: opts_ext opt_block_input_ext peer.ext_refl)

lemma close_voice_call_ext: "peer.ext w s (close_voice_call s)"
  unfolding close_voice_call_def Let_def by (intro quiet)

lemma close_session_ext: "peer.ext w s (close_session lock s)"
proof -
  have "legit w (conn_of s) LockScreen" if "keyboard (conn_of s)" using that by (simp add: legit_simps)
  moreover have "keyboard (conn_of (emit ResetVoiceDevice (on_conn (closed_update (\<lambda>_. True)) s))) = keyboard (conn_of s)" by simp
  ultimately show ?thesis unfolding close_session_def Let_def
    by (intro quiet) (simp_all add: legit_simps)
qed

lemma handle_misc_ext: "peer.ext w s (snd (handle_misc E m s))"
proof (cases m)
  case RestartRemoteDevice
  then show ?thesis by (simp add: handle_misc_def peer.ext_refl peer.ext_emit legit_simps)
next
  case (OptionMsg q)
  then show ?thesis by (simp add: handle_misc_def update_options_ext)
qed (auto simp: handle_misc_def split: option.split intro!: quiet handle_switch_display_ext capture_session_displays_ext close_session_ext)

section \<open>A message of the peer\<close>

lemma handle_peer_msg_ext:
  assumes "handle_peer_msg E m s = Some (go, s')"
  shows "peer.ext (one_way_file E) s s'"
proof (cases "\<not> authorized (conn_of s) \<or> forwarding (conn_of s)")
  case True
  then show ?thesis using assms by (auto simp: handle_peer_msg_def peer.ext_refl)
next
  case False
  show ?thesis
  proof (cases m)
    case (FileAction a)
    then show ?thesis using assms False by (auto simp: handle_peer_msg_def intro: handle_file_action_ext)
  next
    case (MiscMsg i)
    then have "s' = snd (handle_misc E i s)" using assms False by (simp add: handle_peer_msg_def)
    then show ?thesis by (simp add: handle_misc_ext)
  qed (use assms False in \<open>auto simp: handle_peer_msg_def intro!: quiet handle_mouse_msg_ext handle_pointer_msg_ext handle_key_msg_ext
    handle_clipboard_msg_ext handle_file_response_ext close_voice_call_ext\<close>)
qed

end
