(* ===== verification/Session_Properties.thy ===== *)
theory Session_Properties
  imports Session_Discipline
begin

text \<open>
  Properties of whole sessions: any sequence of messages of the peer and of the manager. The interpretation
  \<open>life\<close> is the discipline of a run in which one permission is not granted again.
\<close>

section \<open>The life of a session\<close>

text \<open>Start, messages of the peer and of the manager, and ticks of the log timer, in any order; a message that closes the session is the last.\<close>

datatype session_event =
    Starts session_env "(nat \<times> nat) option" "option_message option" "string \<times> bool" bool bool bool
  | FromPeer session_env peer_msg
  | FromManager session_env cm_msg
  | LogTimer nat

fun session_step :: "session_event \<Rightarrow> 'a session_state \<Rightarrow> (bool \<times> 'a session_state) option" where
  "session_step (Starts E timer opts dir wait sub_service invited) s = Some (True, start_session E timer opts dir wait sub_service invited s)"
| "session_step (FromPeer E m) s = handle_peer_msg E m s"
| "session_step (FromManager E m) s = Some (True, handle_cm_msg E m s)"
| "session_step (LogTimer t) s =
    (let (g, es) = remove_log_timer t (file_remove_log (conn_of s))
     in Some (True, fold emit es (on_conn (\<lambda>c. c\<lparr>file_remove_log := g\<rparr>) s)))"

fun session_run :: "session_event list \<Rightarrow> 'a session_state \<Rightarrow> 'a session_state option" where
  "session_run [] s = Some s"
| "session_run (e # es) s =
    (case session_step e s of
       None \<Rightarrow> None
     | Some (go, s') \<Rightarrow> if go then session_run es s' else Some s')"

definition file_rights :: "bool \<Rightarrow> authed_session \<Rightarrow> effect \<Rightarrow> bool" where
  "file_rights oneway c e \<longleftrightarrow>
    (case e of
       CmFs r \<Rightarrow> fills_file r \<or> file_session c \<and> \<not> (oneway \<and> changes_tree r)
     | SendFile m \<Rightarrow> file_session c \<and> (oneway \<longrightarrow> (\<exists>i err n. m = ErrorMsg i err n))
     | SendDir _ _ _ \<Rightarrow> file_session c
     | _ \<Rightarrow> True)"

definition life_right :: "string \<Rightarrow> bool \<Rightarrow> authed_session \<Rightarrow> effect \<Rightarrow> bool" where
  "life_right p oneway c e \<longleftrightarrow> (p \<in> needed e \<longrightarrow> p \<in> granted c) \<and> file_rights oneway c e"

fun life_change :: "string \<Rightarrow> bool \<Rightarrow> authed_session \<times> filesystem \<Rightarrow> authed_session \<times> filesystem \<Rightarrow> bool" where
  "life_change p oneway (c, w) (c', w') \<longleftrightarrow> (p \<in> granted c' \<longrightarrow> p \<in> granted c) \<and> file_session c' = file_session c
    \<and> (\<not> file_session c \<longrightarrow> read_files c' = read_files c \<and> w' = w)
    \<and> (oneway \<longrightarrow> job_id ` set (read_files c') \<subseteq> job_id ` set (read_files c))
    \<and> (pressed_modifiers c = [] \<longrightarrow> pressed_modifiers c' = [])"

lemma life_trans:
  assumes "life_change p oneway x y" "life_change p oneway y z"
  shows "life_change p oneway x z"
proof (cases x, cases y, cases z)
  fix c w c' w' c'' w'' assume e: "x = (c, w)" "y = (c', w')" "z = (c'', w'')"
  have 1: "p \<in> granted c' \<Longrightarrow> p \<in> granted c" "file_session c' = file_session c" "\<not> file_session c \<Longrightarrow> read_files c' = read_files c \<and> w' = w"
    "oneway \<Longrightarrow> job_id ` set (read_files c') \<subseteq> job_id ` set (read_files c)" "pressed_modifiers c = [] \<Longrightarrow> pressed_modifiers c' = []"
    using assms(1) e by simp_all
  have 2: "p \<in> granted c'' \<Longrightarrow> p \<in> granted c'" "file_session c'' = file_session c'" "\<not> file_session c' \<Longrightarrow> read_files c'' = read_files c' \<and> w'' = w'"
    "oneway \<Longrightarrow> job_id ` set (read_files c'') \<subseteq> job_id ` set (read_files c')" "pressed_modifiers c' = [] \<Longrightarrow> pressed_modifiers c'' = []"
    using assms(2) e by simp_all
  show ?thesis unfolding e life_change.simps using 1 2 by (intro conjI impI; (simp | blast))
qed

interpretation life: discipline "life_change p oneway" "life_right p oneway" for p oneway
proof
  show "life_change p oneway x x" for x by (cases x) simp
  show "life_change p oneway x z" if "life_change p oneway x y" "life_change p oneway y z" for x y z
    using that by (rule life_trans)
  show "life_right p oneway (fst x) e" if "life_change p oneway x y" "life_right p oneway (fst y) e" for x y e
  proof (cases x, cases y)
    fix c w c' w' assume e: "x = (c, w)" "y = (c', w')"
    then have "p \<in> granted c' \<Longrightarrow> p \<in> granted c" "file_session c' = file_session c" using that(1) by simp_all
    then show ?thesis using that(2) unfolding e life_right_def file_rights_def by (simp only: fst_conv) blast
  qed
qed

lemma life_of_peer:
  assumes "peer.ext w s s'" "oneway \<longrightarrow> w" shows "life.ext p oneway s s'"
proof -
  obtain new where n: "effects s' = effects s @ new" "\<forall>e \<in> set new. legit w (conn_of s) e" and b: "bounded_change w (core s) (core s')"
    using assms(1) by (auto simp: peer.ext_def)
  have r: "same_rights (conn_of s) (conn_of s')" using b by (simp add: core_def)
  have "life_change p oneway (core s) (core s')"
    using b assms(2) granted_same[OF r] same_rightsD(8)[OF r] by (simp add: core_def)
  moreover have "life_right p oneway (conn_of s) e" if "e \<in> set new" for e
  proof -
    have l: "needed e \<subseteq> granted (conn_of s)" "file_rights w (conn_of s) e" using n(2) that by (simp_all add: legit_def file_rights_def)
    then have "file_rights oneway (conn_of s) e" using assms(2) by (cases e) (auto simp: file_rights_def)
    then show ?thesis using l by (auto simp: life_right_def)
  qed
  ultimately show ?thesis using n(1) by (auto simp: life.ext_def)
qed

lemma life_on_conn:
  assumes "life.ext p w s t" "p \<in> granted (f (conn_of t)) \<Longrightarrow> p \<in> granted (conn_of t)" "file_session (f (conn_of t)) = file_session (conn_of t)"
    "read_files (f (conn_of t)) = read_files (conn_of t)" "pressed_modifiers (f (conn_of t)) = pressed_modifiers (conn_of t)"
  shows "life.ext p w s (on_conn f t)"
  by (rule life.ext_on_conn[OF _ assms(1)], subst core_eq) (use assms in simp)

lemma life_emit_plain:
  assumes "life.ext p w s t" "needed e = {}" "file_rights w (conn_of t) e"
  shows "life.ext p w s (emit e t)"
  using assms by (auto intro!: life.ext_emit simp: life_right_def)

lemma plain_effects [simp]:
  "file_rights w c (SendPermission k b)" "file_rights w c (SendChat t)" "file_rights w c (SendVoiceResponse i b)"
  "file_rights w c (SendVoiceRequest b)" "file_rights w c CmCloseVoice" "file_rights w c CmStartVoice" "file_rights w c SetVoiceDevice"
  "file_rights w c (CmLog g)"
  "needed (SendPermission k b) = {}" "needed (SendChat t) = {}" "needed (SendVoiceResponse i b) = {}" "needed (SendVoiceRequest b) = {}"
  "needed CmCloseVoice = {}" "needed CmStartVoice = {}" "needed SetVoiceDevice = {}" "needed (CmLog g) = {}" "needed (CmFs r) = {}"
  by (simp_all add: file_rights_def needed_def)

lemmas life_rules = life.ext_refl life.ext_if life.ext_option life_emit_plain life.ext_sub life.ext_on_server life_on_conn

lemma life_sub_audio: "life.ext p w s t \<Longrightarrow> life.ext p w s (sub_audio t)"
  unfolding sub_audio_def Let_def by (intro life_rules)

lemma switch_permission_life:
  assumes "name = p \<longrightarrow> \<not> b"
  shows "life.ext p w s (switch_permission E name b s)"
  unfolding switch_permission_def Let_def
  by (intro life_rules life_sub_audio) (use assms in \<open>auto simp: granted_def\<close>)

lemma handle_voice_call_life: "life.ext p w s (handle_voice_call b s)"
  unfolding handle_voice_call_def Let_def
  by (intro life_rules) (simp_all add: granted_def)

lemma handle_cm_msg_life:
  assumes "m \<noteq> SwitchPermission p True"
  shows "life.ext p w s (handle_cm_msg E m s)"
proof (cases m)
  case (SwitchPermission name b)
  then show ?thesis using assms by (simp add: handle_cm_msg_def switch_permission_life)
next
  case (CmChatMessage t)
  show ?thesis unfolding CmChatMessage handle_cm_msg_def by (simp, intro life_rules) (simp_all add: granted_def)
next
  case (CmVoiceCallResponse b)
  then show ?thesis by (simp add: handle_cm_msg_def handle_voice_call_life)
next
  case CmCloseVoiceCall
  have "life.ext p w s (close_voice_call s)" by (rule life_of_peer[OF close_voice_call_ext]) (rule impI)
  then show ?thesis unfolding CmCloseVoiceCall handle_cm_msg_def by (simp, intro life_rules) simp_all
qed

lemma start_session_life: "life.ext p w s (start_session E timer opts dir wait sub_service invited s)"
proof -
  let ?s = "on_conn (\<lambda>c. c\<lparr>authorized := True\<rparr>) s"
  let ?t = "case opts of Some q \<Rightarrow> update_options E q ?s | None \<Rightarrow> ?s"
  have "life.ext p w s ?s" by (intro life_rules) (simp_all add: granted_def)
  moreover have "life.ext p w ?s (update_options E q ?s)" for q by (rule life_of_peer[OF update_options_ext]) (rule impI)
  ultimately have t: "life.ext p w s ?t" by (cases opts) (auto intro: life.ext_trans)
  have m: "life.ext p w s (try_sub_monitor_services E timer ?t)"
    unfolding try_sub_monitor_services_def Let_def by (intro life_rules t) (simp_all add: granted_def)
  have c: "life.ext p w s (try_sub_camera_displays E ?t)" unfolding try_sub_camera_displays_def by (intro life_rules t)
  show ?thesis unfolding start_session_def Let_def
    by (intro life_rules t m c) (simp_all add: granted_def file_rights_def)
qed

lemma remove_log_timer_logs: "remove_log_timer t g = (g', es) \<Longrightarrow> e \<in> set es \<Longrightarrow> \<exists>a. e = CmLog a"
  unfolding remove_log_timer_def by (auto split: if_splits)

lemma emit_all_life: "life.ext p w s t \<Longrightarrow> (\<And>e. e \<in> set es \<Longrightarrow> \<exists>a. e = CmLog a) \<Longrightarrow> life.ext p w s (fold emit es t)"
proof (induction es arbitrary: t)
  case (Cons e es)
  obtain a where "e = CmLog a" using Cons.prems(2)[of e] by auto
  then have "life.ext p w s (emit e t)" using Cons.prems(1) by (simp add: life_emit_plain)
  then show ?case using Cons.IH Cons.prems(2) by simp
qed simp

lemma session_step_life:
  assumes "session_step e s = Some (go, s')" "\<And>E. e \<noteq> FromManager E (SwitchPermission p True)" "\<And>E m. e = FromPeer E m \<Longrightarrow> oneway \<Longrightarrow> one_way_file E"
  shows "life.ext p oneway s s'"
proof (cases e)
  case (Starts E timer opts dir wait sub_service invited)
  then have "s' = start_session E timer opts dir wait sub_service invited s" using assms(1) by simp
  then show ?thesis by (simp only: start_session_life)
next
  case (FromPeer E m)
  then have "peer.ext (one_way_file E) s s'" using assms(1) by (auto intro: handle_peer_msg_ext)
  then show ?thesis by (rule life_of_peer) (use assms(3) FromPeer in simp)
next
  case (FromManager E m)
  then have "s' = handle_cm_msg E m s" "m \<noteq> SwitchPermission p True" using assms by auto
  then show ?thesis using handle_cm_msg_life by blast
next
  case (LogTimer t)
  obtain g es where r: "remove_log_timer t (file_remove_log (conn_of s)) = (g, es)" by force
  then have "s' = fold emit es (on_conn (\<lambda>c. c\<lparr>file_remove_log := g\<rparr>) s)" using assms(1) LogTimer by simp
  moreover have "life.ext p oneway s (on_conn (\<lambda>c. c\<lparr>file_remove_log := g\<rparr>) s)"
    by (intro life_rules) (simp_all add: granted_def)
  ultimately show ?thesis using emit_all_life remove_log_timer_logs[OF r] by metis
qed

lemma session_run_life:
  assumes "session_run es s = Some s'" "\<forall>E. FromManager E (SwitchPermission p True) \<notin> set es"
    "\<forall>E m. FromPeer E m \<in> set es \<longrightarrow> oneway \<longrightarrow> one_way_file E"
  shows "life.ext p oneway s s'"
  using assms
proof (induction es arbitrary: s)
  case (Cons e es)
  obtain r where r: "session_step e s = Some r" using Cons.prems(1) by (cases "session_step e s") simp_all
  obtain go t where t: "session_step e s = Some (go, t)" by (rule that[of "fst r" "snd r"]) (simp add: r)
  have "e \<noteq> FromManager E (SwitchPermission p True)" for E
  proof
    assume "e = FromManager E (SwitchPermission p True)"
    then have "FromManager E (SwitchPermission p True) \<in> set (e # es)" by simp
    with Cons.prems(2) show False by blast
  qed
  moreover have "one_way_file E" if "e = FromPeer E m" oneway for E m
  proof -
    have "FromPeer E m \<in> set (e # es)" using that(1) by simp
    with Cons.prems(3) that(2) show ?thesis by blast
  qed
  ultimately have st: "life.ext p oneway s t" by (rule session_step_life[OF t])
  show ?case
  proof (cases go)
    case True
    then have "session_run es t = Some s'" using Cons.prems(1) t by simp
    moreover have "\<forall>E. FromManager E (SwitchPermission p True) \<notin> set es" using Cons.prems(2) by simp
    moreover have "\<forall>E m. FromPeer E m \<in> set es \<longrightarrow> oneway \<longrightarrow> one_way_file E"
      by (meson Cons.prems(3) list.set_intros(2))
    ultimately have "life.ext p oneway t s'" by (rule Cons.IH)
    then show ?thesis using st life.ext_trans by blast
  next
    case False
    then have "s' = t" using Cons.prems(1) t by simp
    then show ?thesis using st by simp
  qed
qed (simp add: life.ext_refl)

definition fs_commands :: "effect list \<Rightarrow> fs_command list" where
  "fs_commands es = List.map_filter (\<lambda>e. case e of CmFs (Fs f) \<Rightarrow> Some f | _ \<Rightarrow> None) es"

lemma fs_commands_member: "f \<in> set (fs_commands es) \<longleftrightarrow> CmFs (Fs f) \<in> set es"
proof (induction es)
  case (Cons e es)
  have "fs_commands (e # es) = (case e of CmFs (Fs g) \<Rightarrow> [g] | _ \<Rightarrow> []) @ fs_commands es"
    by (simp add: fs_commands_def map_filter_simps split: effect.split fs_request.split)
  then show ?case using Cons.IH by (simp split: effect.split fs_request.split)
qed (simp add: fs_commands_def map_filter_simps)

lemma filling_keeps_tree: "fills_file r \<Longrightarrow> \<not> changes_tree r"
  by (induction r rule: fills_file.induct) simp_all

lemma filling_needs_job:
  assumes "fills_file (Fs f)" "write_jobs m = []"
  shows "handle_fs ie whole logged f m = Some m"
  using assms by (cases f) (simp_all add: get_job_def)

lemma filling_all:
  assumes "\<forall>f \<in> set fs. fills_file (Fs f)" "write_jobs m = []"
  shows "handle_all ie whole logged fs m = Some m"
  using assms by (induction fs) (simp_all add: filling_needs_job)

lemma unused_name: "\<exists>p. \<forall>E. FromManager E (SwitchPermission p True) \<notin> set es"
proof -
  let ?P = "{p. \<exists>E. FromManager E (SwitchPermission p True) \<in> set es}"
  have "?P \<subseteq> (\<lambda>e. case e of FromManager _ (SwitchPermission p _) \<Rightarrow> p | _ \<Rightarrow> []) ` set es"
    by (force simp: image_iff)
  then have "finite ?P" using finite_surj by blast
  moreover have "infinite (UNIV :: string set)" by (rule infinite_UNIV_listI)
  ultimately have "\<exists>p. p \<notin> ?P" by (metis UNIV_eq_I)
  then show ?thesis by blast
qed

lemma session_run_files:
  assumes "session_run es s = Some s'" "\<forall>E m. FromPeer E m \<in> set es \<longrightarrow> oneway \<longrightarrow> one_way_file E"
  shows "\<exists>p. life.ext p oneway s s'"
  using unused_name[of es] session_run_life[OF assms(1) _ assms(2)] by blast


text \<open>
  C21. A session that is not a file session cannot touch files: its jobs and the store stay as they are, nothing about
  files is sent to the peer, and the commands it can still pass on to the connection manager, which has no job of the
  session, leave the manager as it is.
\<close>

theorem other_sessions_leave_files_alone:
  assumes "session_run es s = Some s'" "\<not> file_session (conn_of s)"
  shows "read_files (conn_of s') = read_files (conn_of s) \<and> snd (core s') = snd (core s) \<and> (\<exists>new. effects s' = effects s @ new
    \<and> (\<forall>e \<in> set new. \<forall>m i p h fs. e \<noteq> SendFile m \<and> e \<noteq> SendDir i p fs \<and> e \<noteq> CmFs (FsReadDir p h) \<and> e \<noteq> CmFs (FsRemoveDir p i h)
        \<and> e \<noteq> CmFs (FsReadEmptyDirs p h))
    \<and> (\<forall>ie whole logged m. write_jobs m = [] \<longrightarrow> handle_all ie whole logged (fs_commands new) m = Some m))"
proof -
  obtain p where "life.ext p False s s'" using session_run_files[OF assms(1), of False] by blast
  then obtain new where n: "life_change p False (core s) (core s')" "effects s' = effects s @ new" "\<forall>e \<in> set new. file_rights False (conn_of s) e"
    by (auto simp: life.ext_def life_right_def)
  have "read_files (conn_of s') = read_files (conn_of s) \<and> snd (core s') = snd (core s)"
    using n(1) assms(2) by (simp add: core_def)
  moreover have "e \<noteq> SendFile m \<and> e \<noteq> SendDir i p fs \<and> e \<noteq> CmFs (FsReadDir p h) \<and> e \<noteq> CmFs (FsRemoveDir p i h) \<and> e \<noteq> CmFs (FsReadEmptyDirs p h)"
    if "e \<in> set new" for e m i p h fs
    using n(3) that assms(2) by (auto simp: file_rights_def)
  moreover have "handle_all ie whole logged (fs_commands new) m = Some m" if "write_jobs m = []" for ie whole logged m
  proof (rule filling_all[OF _ that], rule ballI)
    fix f assume "f \<in> set (fs_commands new)"
    then have "CmFs (Fs f) \<in> set new" by (simp add: fs_commands_member)
    then show "fills_file (Fs f)" using n(3) assms(2) by (auto simp: file_rights_def)
  qed
  ultimately show ?thesis using n(2) by blast
qed


text \<open>The set of pressed modifiers that is released at the end of a session stays empty.\<close>

lemma modifiers_never_recorded:
  assumes "session_run es s = Some s'" "pressed_modifiers (conn_of s) = []"
  shows "pressed_modifiers (conn_of s') = []"
proof -
  obtain p where "life.ext p False s s'" using session_run_files[OF assms(1), of False] by blast
  then show ?thesis using assms(2) by (simp add: life.ext_def core_def)
qed

section \<open>Concrete sessions\<close>

text \<open>Only a confirmation of a file can make a handler panic.\<close>

lemma peer_msg_panics: "handle_peer_msg E m s = None \<Longrightarrow> \<exists>a. m = FileAction a"
  by (cases m) (simp_all add: handle_peer_msg_def split: if_splits)

lemma session_step_panics: "session_step e s = None \<Longrightarrow> \<exists>E a. e = FromPeer E (FileAction a)"
  using peer_msg_panics by (cases e) (simp_all split: prod.splits)

lemma session_run_returns:
  assumes "\<forall>E a. FromPeer E (FileAction a) \<notin> set es"
  shows "\<exists>s'. session_run es s = Some s'"
  using assms
proof (induction es arbitrary: s)
  case (Cons e es)
  obtain x where x: "session_step e s = Some x"
    using session_step_panics[of e s] Cons.prems by (cases "session_step e s") auto
  obtain go t where t: "session_step e s = Some (go, t)" by (rule that[of "fst x" "snd x"]) (simp add: x)
  obtain u where u: "session_run es t = Some u" using Cons.IH[of t] Cons.prems by auto
  show ?case by (rule exI[of _ "if go then u else t"]) (simp add: t u)
qed (rule exI, rule session_run.simps(1))

definition plain_env :: session_env where
  "plain_env = \<lparr>now = 100, clock_ms = 7, primary = 0, one_way_file = True, one_way_clipboard = False, keycode_modifier = (\<lambda>_. None),
    listing = (\<lambda>_ _. Inr []), privacy_supported = False, privacy_on = False, privacy_impl = None, privacy_current = (\<lambda>_. False),
    turn_on_result = None, privacy_check = [], turn_off_result = None, whiteboard_supported = True, camera_exists = False,
    display_known = (\<lambda>_ _. True), io = plain_io\<rparr>"

definition plain_session :: authed_session where
  "plain_session = \<lparr>inner = \<lparr>conn_id = 4, tx = True, tx_video = True\<rparr>, authorized = True, forwarding = False, file_session = False,
    view_camera = False, terminal_session = True, authed_camera = False, peer_version = ''1.42.0'', keyboard = True, clipboard = True,
    audio = True, file_perm = True, restart = False, recording = True, block_input = True, disable_keyboard = False,
    disable_clipboard = False, disable_audio = False, lock_after_session_end = False, show_remote_cursor = False,
    follow_remote_cursor = False, follow_remote_window = False, multi_ui_session = False, show_my_cursor = False, display_idx = 0,
    services_subed = False, delayed_read_dir = None, pressed_modifiers = [], chat_unanswered = False, file_transferred = False,
    voice_request = None, voice_calling = False, audio_sender = False, read_files = [], printer_data = [],
    file_remove_log = \<lparr>log_instant = 0, removed_files = [], removed_dirs = []\<rparr>, auto_disconnect = None, closed = False\<rparr>"

definition no_services :: "nat server" where
  "no_services = \<lparr>connections = [], services = [(CLIPBOARD_NAME, boxed.Generic (service_new CLIPBOARD_NAME False))], id_count = 4, conn_count = 1\<rparr>"

definition plain_state :: "nat session_state" where
  "plain_state = (plain_session, no_services, empty_store, [])"

lemma plain_parts [simp]:
  "conn_of plain_state = plain_session" "hub_of plain_state = no_services" "core plain_state = (plain_session, empty_store)" "effects plain_state = []"
  by (simp_all add: plain_state_def core_def)

lemma plain_fields [simp]:
  "authorized plain_session" "\<not> forwarding plain_session" "\<not> view_camera plain_session" "\<not> file_session plain_session"
  "\<not> authed_camera plain_session" "keyboard plain_session" "clipboard plain_session" "\<not> restart plain_session" "read_files plain_session = []"
  "\<not> disable_keyboard plain_session" "inner plain_session = \<lparr>conn_id = 4, tx = True, tx_video = True\<rparr>" "pressed_modifiers plain_session = []"
  "\<not> show_my_cursor plain_session" "\<not> disable_clipboard plain_session" "\<not> terminal_session (plain_session\<lparr>terminal_session := False\<rparr>)"
  by (simp_all add: plain_session_def)

lemma no_services_wf: "server_wf no_services" "subscriptions no_services = {}"
  by (auto simp: server_wf_def no_services_def box.reg_def boxed_name_def service_new_def boxed_wf_def service_wf_def keyed_def
      subscriptions_def boxed_is_subed_def is_subed_def is_subed_reads_def split: if_splits)


theorem other_sessions_leave_files_alone_witness:
  "\<exists>s'. session_run [FromPeer plain_env (FileAction (ARemoveFile 1 ''/etc'' 0)), FromPeer plain_env (FileResponse (RDone 1 0))] plain_state = Some s'
     \<and> handle_all plain_io (\<lambda>_. None) True (fs_commands (effects s')) \<lparr>write_jobs = [], store = empty_store, to_peer = [], job_log = []\<rparr>
       = Some \<lparr>write_jobs = [], store = empty_store, to_peer = [], job_log = []\<rparr>"
proof -
  let ?es = "[FromPeer plain_env (FileAction (ARemoveFile 1 ''/etc'' 0)), FromPeer plain_env (FileResponse (RDone 1 0))]"
  have a: "handle_peer_msg plain_env (FileAction (ARemoveFile 1 ''/etc'' 0)) plain_state = Some (True, plain_state)"
    by (simp add: handle_peer_msg_def handle_file_action_def)
  obtain s' where "session_run [FromPeer plain_env (FileResponse (RDone 1 0))] plain_state = Some s'"
    using session_run_returns[of "[FromPeer plain_env (FileResponse (RDone 1 0))]" plain_state] by auto
  then have r: "session_run ?es plain_state = Some s'" using a by simp
  show ?thesis using other_sessions_leave_files_alone[OF r] r by auto
qed


end
