(* ===== verification/Session_Subscriptions.thy ===== *)
theory Session_Subscriptions
  imports Session_Properties
begin

text \<open>
  Sessions and the registry of services: which services a session is subscribed to while messages of the peer and
  switches of the manager come in any order, and what the handlers do not check.
\<close>

section \<open>Subscriptions\<close>

text \<open>What a connection may be subscribed to; only the services that depend on a permission are named.\<close>

definition may_hear :: "bool \<Rightarrow> authed_session \<Rightarrow> string \<Rightarrow> bool" where
  "may_hear oneway c n =
    (if n = CLIPBOARD_NAME then clipboard_enabled c \<and> peer_keyboard_enabled c \<and> \<not> oneway
     else if n = AUDIO_NAME then authorized c \<and> audio_enabled c
     else if n = NAME_CURSOR then keyboard c \<or> show_remote_cursor c
     else if n = NAME_POS then show_remote_cursor c
     else True)"

text \<open>Every subscription but those to the names in \<open>stale\<close> is permitted; the subscriptions of the others are \<open>rest\<close>.\<close>

definition subs_ok :: "bool \<Rightarrow> int \<Rightarrow> (string \<times> int) set \<Rightarrow> bool \<Rightarrow> string set \<Rightarrow> 'a session_state \<Rightarrow> bool" where
  "subs_ok oneway i rest auth stale s \<longleftrightarrow> server_wf (hub_of s) \<and> conn_id (inner (conn_of s)) = i \<and> \<not> view_camera (conn_of s)
    \<and> (auth \<longrightarrow> authorized (conn_of s)) \<and> (authed_camera (conn_of s) \<longrightarrow> authorized (conn_of s))
    \<and> {(n, j) \<in> subscriptions (hub_of s). j \<noteq> i} = rest
    \<and> (\<forall>n. n \<notin> stale \<longrightarrow> (n, i) \<in> subscriptions (hub_of s) \<longrightarrow> may_hear oneway (conn_of s) n)"

lemma service_names_differ:
  "CLIPBOARD_NAME \<noteq> AUDIO_NAME" "CLIPBOARD_NAME \<noteq> NAME_CURSOR" "CLIPBOARD_NAME \<noteq> NAME_POS" "AUDIO_NAME \<noteq> NAME_CURSOR"
  "AUDIO_NAME \<noteq> NAME_POS" "NAME_CURSOR \<noteq> NAME_POS" "NAME_WINDOW_FOCUS \<noteq> CLIPBOARD_NAME" "NAME_WINDOW_FOCUS \<noteq> AUDIO_NAME"
  "NAME_WINDOW_FOCUS \<noteq> NAME_CURSOR" "NAME_WINDOW_FOCUS \<noteq> NAME_POS"
  by (simp_all add: CLIPBOARD_NAME_def AUDIO_NAME_def NAME_CURSOR_def NAME_POS_def NAME_WINDOW_FOCUS_def)

lemma not_video:
  "\<not> is_video_service_name CLIPBOARD_NAME" "\<not> is_video_service_name AUDIO_NAME" "\<not> is_video_service_name NAME_CURSOR"
  "\<not> is_video_service_name NAME_POS"
  by code_simp+

lemma video_name_free: "is_video_service_name n \<Longrightarrow> may_hear w c n"
  unfolding may_hear_def using not_video by (metis (full_types))

lemma service_name_video: "is_video_service_name (get_service_name source d)"
  by (cases source) (simp_all add: is_video_service_name_def get_service_name_def starts_with_def)

lemma focus_free: "may_hear w c NAME_WINDOW_FOCUS"
  using service_names_differ by (simp add: may_hear_def)

lemma subs_emit [simp]: "subs_ok w i r a X (emit e s) = subs_ok w i r a X s"
  by (simp add: subs_ok_def)

definition hearing :: "authed_session \<Rightarrow> bool list \<times> conn_inner" where
  "hearing c = ([authorized c, view_camera c, authed_camera c, clipboard c, disable_clipboard c, keyboard c, disable_keyboard c, audio c,
     disable_audio c, show_remote_cursor c], inner c)"

lemma hearing_same:
  assumes "hearing c' = hearing c"
  shows "may_hear w c' n = may_hear w c n" "inner c' = inner c" "view_camera c' = view_camera c" "authorized c' = authorized c"
    "authed_camera c' = authed_camera c"
  using assms
  by (simp_all add: hearing_def may_hear_def clipboard_enabled_def peer_keyboard_enabled_def audio_enabled_def)

lemma subs_on_conn: "hearing (f (conn_of s)) = hearing (conn_of s) \<Longrightarrow> subs_ok w i r a X (on_conn f s) = subs_ok w i r a X s"
  using hearing_same[of "f (conn_of s)" "conn_of s"] by (simp add: subs_ok_def)

text \<open>A change of the connection makes the names it is about stale.\<close>

lemma subs_change:
  assumes "subs_ok w i r a X s" "inner (f (conn_of s)) = inner (conn_of s)" "view_camera (f (conn_of s)) = view_camera (conn_of s)"
    "authorized (f (conn_of s)) = authorized (conn_of s)" "authed_camera (f (conn_of s)) = authed_camera (conn_of s)"
    "\<And>n. n \<notin> Y \<Longrightarrow> n \<notin> X \<Longrightarrow> may_hear w (conn_of s) n \<Longrightarrow> may_hear w (f (conn_of s)) n"
  shows "subs_ok w i r a (X \<union> Y) (on_conn f s)"
  using assms unfolding subs_ok_def by simp

text \<open>Subscribing or not by the permission makes a name fresh again.\<close>

lemma subs_sub:
  assumes "subs_ok w i r a X s" "P (conn_of s) \<Longrightarrow> may_hear w (conn_of s) n" "Y = X - {n}"
  shows "subs_ok w i r a Y (sub n P s)"
proof -
  have o: "server_wf (hub_of s)" "conn_id (inner (conn_of s)) = i" using assms(1) by (simp_all add: subs_ok_def)
  have "subscriptions (subscribe n (inner (conn_of s)) (P (conn_of s)) (hub_of s)) =
      (if P (conn_of s) then subscriptions (hub_of s) \<union> {(n, i) | x. map_of (services (hub_of s)) n = Some x}
       else subscriptions (hub_of s) - {(n, i)})"
    using subscribed_cases[OF o(1)] o(2) by simp
  then show ?thesis using assms unfolding subs_ok_def sub_def by (auto simp: subscribe_wf)
qed

lemma subs_weaken: "subs_ok w i r a X s \<Longrightarrow> X \<subseteq> Y \<Longrightarrow> (b \<Longrightarrow> a) \<Longrightarrow> subs_ok w i r b Y s"
  unfolding subs_ok_def by blast

lemma subs_if: "(b \<Longrightarrow> subs_ok w i r a X s) \<Longrightarrow> (\<not> b \<Longrightarrow> subs_ok w i r a X t) \<Longrightarrow> subs_ok w i r a X (if b then s else t)"
  by simp

lemma subs_when_set: "subs_ok w i r a X s \<Longrightarrow> (\<And>b. subs_ok w i r a X (f b s)) \<Longrightarrow> subs_ok w i r a X (when_set q f s)"
  by (cases q) (simp_all add: when_set_def)

text \<open>A change of the registry that subscribes this connection only to permitted services.\<close>

lemma subs_on_server:
  assumes "subs_ok w i r a X s" "server_wf (f (conn_of s) (hub_of s))"
    "\<And>n j. j \<noteq> i \<Longrightarrow> (n, j) \<in> subscriptions (f (conn_of s) (hub_of s)) \<longleftrightarrow> (n, j) \<in> subscriptions (hub_of s)"
    "\<And>n. (n, i) \<in> subscriptions (f (conn_of s) (hub_of s)) \<Longrightarrow> (n, i) \<in> subscriptions (hub_of s) \<or> may_hear w (conn_of s) n"
  shows "subs_ok w i r a X (on_server f s)"
  using assms unfolding subs_ok_def by auto

section \<open>Registry facts\<close>

lemma update_new: "map_of xs k = None \<Longrightarrow> AList.update k v xs = xs @ [(k, v)]"
  by (induction xs) (auto split: if_splits)

lemma add_fresh_service:
  assumes "server_wf v" "\<not> contains (get_service_name source d) v"
  shows "server_wf (add_service (video_service_new source d) v)"
    and "subscriptions (add_service (video_service_new source d) v) = subscriptions v"
proof -
  let ?n = "get_service_name source d" and ?b = "video_service_new source d :: 'a boxed"
  have m: "map_of (services v) ?n = None" using assms(2) by (simp add: contains_def)
  have nm: "boxed_name ?b = ?n" by (simp add: boxed_name_def video_service_new_def service_new_def)
  have wf: "boxed_wf ?b" by (simp add: boxed_wf_def video_service_new_def service_new_def service_wf_def keyed_def)
  have no: "\<not> boxed_is_subed ?b i" for i
    by (simp add: boxed_is_subed_def is_subed_def is_subed_reads_def video_service_new_def service_new_def)
  have s: "services (add_service ?b v) = services v @ [(?n, ?b)]"
    unfolding add_service_def nm by (simp add: update_new[OF m])
  show "server_wf (add_service ?b v)"
    using assms(1) wf nm m unfolding server_wf_def box.reg_def s
    by (auto simp: add_service_def map_of_eq_None_iff)
  show "subscriptions (add_service ?b v) = subscriptions v"
    unfolding subscriptions_def s using m no by (auto simp: map_add_def split: option.splits if_splits)
qed

lemma ensure_service_subs:
  assumes "server_wf v"
  shows "server_wf (ensure_service source d v) \<and> subscriptions (ensure_service source d v) = subscriptions v"
  using add_fresh_service[OF assms] assms unfolding ensure_service_def by simp

lemma ensure_services_subs:
  assumes "server_wf v"
  shows "server_wf (fold (ensure_service source) ds v) \<and> subscriptions (fold (ensure_service source) ds v) = subscriptions v"
  using assms
proof (induction ds arbitrary: v)
  case (Cons d ds)
  then show ?case using ensure_service_subs[OF Cons.prems, of source d] by simp
qed simp

lemma set_option_object:
  "boxed_name (boxed_set_option k x b) = boxed_name b" "boxed_is_subed (boxed_set_option k x b) i = boxed_is_subed b i"
  "boxed_wf b \<Longrightarrow> boxed_wf (boxed_set_option k x b)"
  by (cases b; simp add: boxed_set_option_def boxed_name_def boxed_is_subed_def boxed_wf_def srv_set_option_def is_subed_def
      is_subed_reads_def service_wf_def)+

lemma set_video_service_opt_subs:
  assumes "server_wf v"
  shows "server_wf (set_video_service_opt display k x v) \<and> subscriptions (set_video_service_opt display k x v) = subscriptions v"
proof
  show "server_wf (set_video_service_opt display k x v)"
    unfolding set_video_service_opt_def
    by (rule map_services_wf[OF assms]) (auto simp: set_option_object split: option.split prod.split)
  let ?f = "\<lambda>n b. case display of Some (source, d) \<Rightarrow>
          if n \<noteq> get_service_name source d then b else if is_video_service_name n then boxed_set_option k x b else b
      | None \<Rightarrow> if is_video_service_name n then boxed_set_option k x b else b"
  have e: "boxed_is_subed (?f n b) i = boxed_is_subed b i" for n i and b :: "'a boxed"
    by (cases display) (simp_all add: set_option_object split: prod.split)
  show "subscriptions (set_video_service_opt display k x v) = subscriptions v"
    unfolding set_video_service_opt_def subscriptions_rel map_services_parts box.rel_map e by (simp add: box.rel_def)
qed

lemma primary_service_subs:
  assumes "server_wf v"
  shows "server_wf (try_add_primay_video_service p v) \<and> subscriptions (try_add_primay_video_service p v) = subscriptions v"
  using ensure_service_subs[OF assms, of Monitor p]
  by (cases "contains (get_service_name Monitor p) v") (simp_all add: try_add_primay_video_service_def ensure_service_def)

section \<open>Handlers\<close>

lemma subs_timer [simp]: "subs_ok w i r a X (update_auto_disconnect_timer E s) = subs_ok w i r a X s"
  unfolding update_auto_disconnect_timer_def by (rule subs_on_conn) (simp add: hearing_def)

lemma subs_registry:
  assumes "subs_ok w i r a X s"
    "server_wf (hub_of s) \<Longrightarrow> server_wf (f (conn_of s) (hub_of s)) \<and> subscriptions (f (conn_of s) (hub_of s)) = subscriptions (hub_of s)"
  shows "subs_ok w i r a X (on_server f s)"
proof -
  have "server_wf (hub_of s)" using assms(1) by (simp add: subs_ok_def)
  then show ?thesis using assms(2) by (intro subs_on_server[OF assms(1)]) simp_all
qed

lemma refresh_subs: "subs_ok w i r a X s \<Longrightarrow> subs_ok w i r a X (refresh_video_display d s)"
  unfolding refresh_video_display_def by (rule subs_registry) (simp_all add: set_video_service_opt_subs)

lemma change_resolution_subs [simp]: "subs_ok w i r a X (change_resolution d x y s) = subs_ok w i r a X s"
  by (simp add: change_resolution_def)

lemma subs_sub_free: "subs_ok w i r a X s \<Longrightarrow> may_hear w (conn_of s) n \<Longrightarrow> subs_ok w i r a X (sub n P s)"
proof -
  assume "subs_ok w i r a X s" "may_hear w (conn_of s) n"
  then have "subs_ok w i r a (X - {n}) (sub n P s)" by (intro subs_sub) simp_all
  then show ?thesis by (rule subs_weaken) auto
qed

lemma switch_display_to_subs: "subs_ok w i r a X s \<Longrightarrow> subs_ok w i r a X (switch_display_to E d s)"
  unfolding switch_display_to_def Let_def
  by (simp add: subs_on_conn hearing_def subs_sub_free subs_registry ensure_service_subs video_name_free service_name_video)

lemma handle_switch_display_subs: "subs_ok w i r a X s \<Longrightarrow> subs_ok w i r a X (handle_switch_display E d x y s)"
  unfolding handle_switch_display_def Let_def by (simp add: switch_display_to_subs)

lemma capture_registry:
  assumes "subs_ok w i r a X s"
  shows "subs_ok w i r a X (on_server (\<lambda>c. capture_displays (inner c) source ds inc exc) s)"
proof -
  have o: "server_wf (hub_of s)" "conn_id (inner (conn_of s)) = i" using assms by (simp_all add: subs_ok_def)
  show ?thesis
    by (rule subs_on_server[OF assms])
      (auto simp: capture_displays_subs[OF o(1)] o server_wf_steps video_name_free)
qed

lemma multi_ui_subs: "subs_ok w i r a X s \<Longrightarrow> subs_ok w i r a X (case s of (c, v, u, l) \<Rightarrow> (c\<lparr>multi_ui_session := f c v\<rparr>, v, u, l))"
proof (cases s)
  case (fields c v u l)
  assume "subs_ok w i r a X s"
  then have "subs_ok w i r a X (on_conn (\<lambda>c. c\<lparr>multi_ui_session := f c v\<rparr>) s)" by (simp add: subs_on_conn hearing_def)
  then show ?thesis by (simp add: fields on_conn_def)
qed

lemma capture_session_displays_subs:
  assumes "subs_ok w i r a X s" shows "subs_ok w i r a X (capture_session_displays add rem set_to s)"
proof -
  let ?src = "video_source (conn_of s)"
  let ?s = "on_server (\<lambda>_. fold (ensure_service ?src) set_to \<circ> fold (ensure_service ?src) add) s"
  have "subs_ok w i r a X ?s" by (rule subs_registry[OF assms]) (simp add: ensure_services_subs)
  then have "subs_ok w i r a X (on_server (\<lambda>c.
               if add \<noteq> [] then capture_displays (inner c) ?src add True False
               else if rem \<noteq> [] then capture_displays (inner c) ?src rem False True
               else capture_displays (inner c) ?src set_to True True) ?s)" (is "subs_ok w i r a X ?t")
    by (cases "add \<noteq> []"; cases "rem \<noteq> []") (simp_all add: capture_registry)
  then have u: "subs_ok w i r a X (case ?t of (c, v, u, l) \<Rightarrow>
      (c\<lparr>multi_ui_session := get_subbed_displays_count (conn_id (inner c)) v > 1\<rparr>, v, u, l))" (is "subs_ok w i r a X ?u")
    by (rule multi_ui_subs)
  have "capture_session_displays add rem set_to s = (if follow_remote_window (conn_of ?u) then sub NAME_WINDOW_FOCUS (\<lambda>c. \<not> multi_ui_session c) ?u else ?u)"
    unfolding capture_session_displays_def Let_def by (rule refl)
  moreover have "subs_ok w i r a X (sub NAME_WINDOW_FOCUS (\<lambda>c. \<not> multi_ui_session c) ?u)"
    by (rule subs_sub_free[OF u focus_free])
  ultimately show ?thesis using u by presburger
qed

lemma privacy_subs [simp]:
  "subs_ok w i r a X (turn_off_privacy E k s) = subs_ok w i r a X s" "subs_ok w i r a X (turn_on_privacy E k s) = subs_ok w i r a X s"
  by (simp_all add: turn_off_privacy_def turn_on_privacy_def Let_def split: option.split sum.split bool.split)

lemma sub_audio_subs:
  assumes "subs_ok w i r True X s" shows "subs_ok w i r True (X - {AUDIO_NAME}) (sub_audio s)"
proof -
  have a: "audio_enabled (conn_of s) \<Longrightarrow> may_hear w (conn_of s) AUDIO_NAME"
    using assms service_names_differ by (simp add: may_hear_def subs_ok_def)
  show ?thesis
  proof (cases "is_authed_view_camera (conn_of s) \<and> \<not> (voice_calling (conn_of s) \<or> \<not> audio_enabled (conn_of s))")
    case True
    then have "sub_audio s = s" "may_hear w (conn_of s) AUDIO_NAME" using a by (simp_all add: sub_audio_def Let_def)
    then show ?thesis using assms by (auto simp: subs_ok_def)
  next
    case False
    then have "sub_audio s = sub AUDIO_NAME audio_enabled s" by (auto simp: sub_audio_def Let_def)
    then show ?thesis using subs_sub[OF assms, of audio_enabled AUDIO_NAME] a by simp
  qed
qed

text \<open>One option after the other, in a session that is authorized.\<close>

lemma subs_frame: "subs_ok w i r a X s \<Longrightarrow> hearing (f (conn_of s)) = hearing (conn_of s) \<Longrightarrow> subs_ok w i r a X (on_conn f s)"
  by (simp add: subs_on_conn)

lemma opt_frames [simp]:
  "subs_ok w i r a X (opt_quality q s) = subs_ok w i r a X s" "subs_ok w i r a X (opt_fps q s) = subs_ok w i r a X s"
  "subs_ok w i r a X (opt_decoding q s) = subs_ok w i r a X s" "subs_ok w i r a X (opt_lock q s) = subs_ok w i r a X s"
  "subs_ok w i r a X (opt_follow_cursor q s) = subs_ok w i r a X s" "subs_ok w i r a X (opt_privacy E q s) = subs_ok w i r a X s"
  "subs_ok w i r a X (opt_block_input q s) = subs_ok w i r a X s" "subs_ok w i r a X (opt_my_cursor E q s) = subs_ok w i r a X s"
  by (simp_all add: opt_quality_def opt_fps_def opt_decoding_def opt_lock_def opt_follow_cursor_def opt_privacy_def opt_block_input_def
      opt_my_cursor_def when_set_def subs_on_conn hearing_def split: option.split bool_option.split)

lemma opt_remote_cursor_subs:
  assumes "subs_ok w i r a {} s" shows "subs_ok w i r a {} (opt_remote_cursor q s)"
proof -
  have "subs_ok w i r a {} (sub NAME_POS show_remote_cursor
     (sub NAME_CURSOR (\<lambda>c. peer_keyboard_enabled c \<or> show_remote_cursor c) (on_conn (\<lambda>c. c\<lparr>show_remote_cursor := b\<rparr>) s)))" for b
  proof (rule subs_sub[where X = "{NAME_POS}"], rule subs_sub[where X = "{NAME_CURSOR, NAME_POS}"])
    have "subs_ok w i r a ({} \<union> {NAME_CURSOR, NAME_POS}) (on_conn (\<lambda>c. c\<lparr>show_remote_cursor := b\<rparr>) s)"
      by (rule subs_change[OF assms])
        (auto simp: may_hear_def clipboard_enabled_def peer_keyboard_enabled_def audio_enabled_def split: if_splits)
    then show "subs_ok w i r a {NAME_CURSOR, NAME_POS} (on_conn (\<lambda>c. c\<lparr>show_remote_cursor := b\<rparr>) s)" by simp
  qed (use service_names_differ in \<open>auto simp: may_hear_def peer_keyboard_enabled_def sub_def\<close>)
  then show ?thesis unfolding opt_remote_cursor_def by (intro subs_when_set assms)
qed

lemma opt_follow_window_subs:
  assumes "subs_ok w i r a {} s" shows "subs_ok w i r a {} (opt_follow_window q s)"
  unfolding opt_follow_window_def
  by (intro subs_when_set assms subs_sub_free focus_free subs_frame) (simp add: hearing_def)

lemma opt_audio_subs:
  assumes "subs_ok w i r True {} s" shows "subs_ok w i r True {} (opt_audio q s)"
proof -
  have "subs_ok w i r True ({} \<union> {AUDIO_NAME}) (on_conn (\<lambda>c. c\<lparr>disable_audio := b\<rparr>) s)" for b
    by (rule subs_change[OF assms])
      (auto simp: may_hear_def clipboard_enabled_def peer_keyboard_enabled_def audio_enabled_def split: if_splits)
  then have "subs_ok w i r True (({} \<union> {AUDIO_NAME}) - {AUDIO_NAME}) (sub_audio (on_conn (\<lambda>c. c\<lparr>disable_audio := b\<rparr>) s))" for b
    by (rule sub_audio_subs)
  then have "subs_ok w i r True {} (sub_audio (on_conn (\<lambda>c. c\<lparr>disable_audio := b\<rparr>) s))" for b by simp
  then show ?thesis unfolding opt_audio_def by (intro subs_when_set assms)
qed

lemma audio_fresh: "authorized c \<Longrightarrow> audio_enabled c \<Longrightarrow> may_hear w c AUDIO_NAME"
  using service_names_differ by (simp add: may_hear_def)

lemma clipboard_fresh: "can_sub_clipboard_service E c \<Longrightarrow> one_way_clipboard E = w \<Longrightarrow> may_hear w c CLIPBOARD_NAME"
  by (simp add: may_hear_def can_sub_clipboard_service_def)

lemma opt_clipboard_subs:
  assumes "subs_ok w i r a {} s" "one_way_clipboard E = w" shows "subs_ok w i r a {} (opt_clipboard E q s)"
proof -
  have "subs_ok w i r a {} (sub CLIPBOARD_NAME (can_sub_clipboard_service E) (on_conn (\<lambda>c. c\<lparr>disable_clipboard := b\<rparr>) s))" for b
  proof (rule subs_sub[where X = "{CLIPBOARD_NAME}"])
    have "subs_ok w i r a ({} \<union> {CLIPBOARD_NAME}) (on_conn (\<lambda>c. c\<lparr>disable_clipboard := b\<rparr>) s)"
      by (rule subs_change[OF assms(1)]) (auto simp: may_hear_def audio_enabled_def split: if_splits)
    then show "subs_ok w i r a {CLIPBOARD_NAME} (on_conn (\<lambda>c. c\<lparr>disable_clipboard := b\<rparr>) s)" by simp
  qed (use clipboard_fresh assms(2) in auto)
  then show ?thesis unfolding opt_clipboard_def by (intro subs_when_set assms)
qed

lemma keyboard_subs:
  assumes "subs_ok w i r a {CLIPBOARD_NAME, NAME_CURSOR} s" "one_way_clipboard E = w" "P (conn_of s) \<Longrightarrow> keyboard (conn_of s) \<or> show_remote_cursor (conn_of s)"
  shows "subs_ok w i r a {} (sub NAME_CURSOR P (sub CLIPBOARD_NAME (can_sub_clipboard_service E) s))"
proof (rule subs_sub[where X = "{NAME_CURSOR}"], rule subs_sub[OF assms(1)])
  show "P (conn_of (sub CLIPBOARD_NAME (can_sub_clipboard_service E) s)) \<Longrightarrow> may_hear w (conn_of (sub CLIPBOARD_NAME (can_sub_clipboard_service E) s)) NAME_CURSOR"
    using assms(3) service_names_differ by (auto simp: may_hear_def sub_def)
qed (use clipboard_fresh assms(2) service_names_differ in auto)

lemma opt_keyboard_subs:
  assumes "subs_ok w i r a {} s" "one_way_clipboard E = w" shows "subs_ok w i r a {} (opt_keyboard E q s)"
proof -
  have "subs_ok w i r a ({} \<union> {CLIPBOARD_NAME, NAME_CURSOR}) (on_conn (\<lambda>c. c\<lparr>disable_keyboard := b\<rparr>) s)" for b
    by (rule subs_change[OF assms(1)]) (auto simp: may_hear_def audio_enabled_def split: if_splits)
  then have "subs_ok w i r a {} (sub NAME_CURSOR (\<lambda>c. peer_keyboard_enabled c \<or> show_remote_cursor c)
      (sub CLIPBOARD_NAME (can_sub_clipboard_service E) (on_conn (\<lambda>c. c\<lparr>disable_keyboard := b\<rparr>) s)))" for b
    by (intro keyboard_subs assms(2)) (auto simp: peer_keyboard_enabled_def)
  then show ?thesis unfolding opt_keyboard_def by (intro subs_when_set assms)
qed

lemma update_options_subs:
  assumes "subs_ok w i r True {} s" "one_way_clipboard E = w"
  shows "subs_ok w i r True {} (update_options E q s)"
  unfolding update_options_def using assms
  by (simp add: opt_remote_cursor_subs opt_follow_window_subs opt_audio_subs opt_clipboard_subs opt_keyboard_subs)

section \<open>Messages\<close>

lemma subs_sub_off: "subs_ok w i r a X s \<Longrightarrow> subs_ok w i r a X (sub n (\<lambda>_. False) s)"
proof -
  assume "subs_ok w i r a X s"
  then have "subs_ok w i r a (X - {n}) (sub n (\<lambda>_. False) s)" by (intro subs_sub) simp_all
  then show ?thesis by (rule subs_weaken) auto
qed

lemma close_voice_call_subs: "subs_ok w i r a X s \<Longrightarrow> subs_ok w i r a X (close_voice_call s)"
  unfolding close_voice_call_def Let_def by (simp add: subs_on_conn hearing_def subs_sub_off)

lemma close_session_subs: "subs_ok w i r a X s \<Longrightarrow> subs_ok w i r a X (close_session lock s)"
  unfolding close_session_def Let_def by (simp add: subs_on_conn hearing_def)

lemma handle_voice_call_subs:
  assumes "subs_ok w i r a {} s" shows "subs_ok w i r a {} (handle_voice_call b s)"
proof (cases "voice_request (conn_of s)")
  case (Some ts)
  let ?t = "on_conn (\<lambda>c. c\<lparr>voice_calling := b\<rparr>) (emit (SendVoiceResponse ts b)
     (if b then emit CmStartVoice (emit SetVoiceDevice (on_conn (\<lambda>c. c\<lparr>voice_request := None\<rparr>) s))
      else emit CmCloseVoice (on_conn (\<lambda>c. c\<lparr>voice_request := None\<rparr>) s)))"
  have t: "subs_ok w i r a {} ?t" using assms by (simp add: subs_on_conn hearing_def)
  have h: "handle_voice_call b s = (if is_authed_view_camera (conn_of ?t) then sub AUDIO_NAME (\<lambda>c. audio_enabled c \<and> b) ?t else ?t)"
    unfolding handle_voice_call_def Some Let_def by simp
  have "subs_ok w i r a {} (sub AUDIO_NAME (\<lambda>c. audio_enabled c \<and> b) ?t)" if "is_authed_view_camera (conn_of ?t)"
  proof (rule subs_sub[OF t])
    assume e: "audio_enabled (conn_of ?t) \<and> b"
    have "authorized (conn_of ?t)" using t that unfolding subs_ok_def is_authed_view_camera_def by blast
    then show "may_hear w (conn_of ?t) AUDIO_NAME" using e by (intro audio_fresh) blast+
  qed simp
  then show ?thesis unfolding h using t by presburger
qed (simp add: handle_voice_call_def assms)

lemma handle_misc_subs:
  assumes "subs_ok w i r True {} s" "one_way_clipboard E = w"
  shows "subs_ok w i r True {} (snd (handle_misc E m s))"
proof (cases m)
  case (OptionMsg q)
  then show ?thesis using assms by (simp add: handle_misc_def update_options_subs)
qed (use assms in \<open>auto simp: handle_misc_def handle_switch_display_subs capture_session_displays_subs subs_on_conn hearing_def refresh_subs
    close_session_subs split: option.split\<close>)

definition unheard :: "'a session_state \<Rightarrow> 'a session_state \<Rightarrow> bool" where
  "unheard s s' \<longleftrightarrow> hub_of s' = hub_of s \<and> hearing (conn_of s') = hearing (conn_of s)"

lemma unheard_rules:
  "unheard s s" "unheard s t \<Longrightarrow> unheard s (emit e t)"
  "unheard s t \<Longrightarrow> hearing (f (conn_of t)) = hearing (conn_of t) \<Longrightarrow> unheard s (on_conn f t)"
  "(b \<Longrightarrow> unheard s t) \<Longrightarrow> (\<not> b \<Longrightarrow> unheard s u) \<Longrightarrow> unheard s (if b then t else u)"
  "(\<And>y. x = Inl y \<Longrightarrow> unheard s (g y)) \<Longrightarrow> (\<And>y. x = Inr y \<Longrightarrow> unheard s (h y)) \<Longrightarrow> unheard s (case x of Inl y \<Rightarrow> g y | Inr y \<Rightarrow> h y)"
  "(z = None \<Longrightarrow> unheard s t) \<Longrightarrow> (\<And>y. z = Some y \<Longrightarrow> unheard s (k y)) \<Longrightarrow> unheard s (case z of None \<Rightarrow> t | Some y \<Rightarrow> k y)"
  "(\<And>a b. unheard s (m a b)) \<Longrightarrow> unheard s (case p of (a, b) \<Rightarrow> m a b)"
  by (simp_all add: unheard_def split: sum.split option.split prod.split)

lemma unheard_subs: "unheard s s' \<Longrightarrow> subs_ok w i r a X s' = subs_ok w i r a X s"
  using hearing_same[of "conn_of s'" "conn_of s"] by (simp add: unheard_def subs_ok_def)

lemma send_files_unheard: "unheard s (send_files E i p n h t s)"
  unfolding send_files_def Let_def
  by (cases t; simp only: job_type.case; intro unheard_rules) (simp_all add: hearing_def)

lemma handle_file_action_unheard:
  assumes "handle_file_action E a s = Some s'"
  shows "unheard s s'"
proof (cases "\<not> file_session (conn_of s) \<or> delayed_read_dir (conn_of s) \<noteq> None \<or> (one_way_file E \<and> refused_job a \<noteq> None)")
  case True
  then show ?thesis using assms
    by (auto simp: handle_file_action_def Let_def hearing_def split: if_splits file_action.splits intro!: unheard_rules)
next
  case False
  show ?thesis
  proof (cases a)
    case (ASend i p n h t)
    then have "s' = send_files E i p n h t s" using assms False by (auto simp: handle_file_action_def Let_def)
    then show ?thesis by (simp only: send_files_unheard)
  next
    case (ASendConfirm r)
    then show ?thesis using assms False
      by (cases s) (auto simp: handle_file_action_def Let_def hearing_def unheard_def emit_def split: option.splits)
  qed (use assms False in \<open>auto simp: handle_file_action_def Let_def hearing_def intro!: unheard_rules\<close>)
qed

lemma handle_peer_msg_subs:
  assumes "handle_peer_msg E m s = Some (go, s')" "subs_ok w i r a {} s" "one_way_clipboard E = w"
  shows "subs_ok w i r a {} s'"
proof (cases "\<not> authorized (conn_of s) \<or> forwarding (conn_of s)")
  case True
  then have "s' = s" using assms(1) by (auto simp: handle_peer_msg_def)
  then show ?thesis using assms(2) by simp
next
  case False
  have t: "subs_ok w i r True {} s" using assms(2) False by (simp add: subs_ok_def)
  have "subs_ok w i r True {} s'"
  proof (cases m)
    case (FileAction x)
    then have "unheard s s'" using assms(1) False by (auto simp: handle_peer_msg_def intro: handle_file_action_unheard)
    then show ?thesis using t unheard_subs by blast
  next
    case (MiscMsg x)
    then have "s' = snd (handle_misc E x s)" using assms(1) False by (simp add: handle_peer_msg_def)
    then show ?thesis by (simp only: handle_misc_subs[OF t assms(3)])
  next
    case (KeyMsg k)
    then have "s' = handle_key_msg E k s" using assms(1) False by (simp add: handle_peer_msg_def)
    moreover have "subs_ok w i r True {} (handle_key_msg E k s)"
      unfolding handle_key_msg_def Let_def using t by (simp add: subs_on_conn hearing_def split: option.split)
    ultimately show ?thesis by simp
  next
    case (FileResponse x)
    then show ?thesis using assms(1) False t
      by (cases x) (auto simp: handle_peer_msg_def handle_file_response_def)
  qed (use assms(1) False t in \<open>auto simp: handle_peer_msg_def handle_mouse_msg_def handle_pointer_msg_def handle_clipboard_msg_def
    Let_def subs_on_conn hearing_def refresh_subs close_voice_call_subs split: if_splits\<close>)
  then show ?thesis by (rule subs_weaken) auto
qed

section \<open>Start and manager\<close>

lemma authorize_subs: "subs_ok w i r a X s \<Longrightarrow> subs_ok w i r True X (on_conn (\<lambda>c. c\<lparr>authorized := True\<rparr>) s)"
proof -
  assume s: "subs_ok w i r a X s"
  have "may_hear w c n \<Longrightarrow> may_hear w (c\<lparr>authorized := True\<rparr>) n" for c n
    by (auto simp: may_hear_def clipboard_enabled_def peer_keyboard_enabled_def audio_enabled_def split: if_splits)
  then show ?thesis using s unfolding subs_ok_def by simp
qed

definition noperms :: "session_env \<Rightarrow> authed_session \<Rightarrow> string list" where
  "noperms E c =
    (if \<not> peer_keyboard_enabled c \<and> \<not> show_remote_cursor c then [NAME_CURSOR] else []) @
    (if \<not> show_remote_cursor c then [NAME_POS] else []) @
    (if \<not> follow_remote_window c then [NAME_WINDOW_FOCUS] else []) @
    (if \<not> can_sub_clipboard_service E c then [CLIPBOARD_NAME] else []) @
    (if \<not> audio_enabled c then [AUDIO_NAME] else [])"

lemma noperms_hear: "authorized c \<Longrightarrow> one_way_clipboard E = w \<Longrightarrow> n \<notin> set (noperms E c) \<Longrightarrow> may_hear w c n"
  by (auto simp: noperms_def may_hear_def can_sub_clipboard_service_def peer_keyboard_enabled_def split: if_splits)

lemma try_sub_monitor_services_subs:
  assumes "subs_ok w i r True X s" "one_way_clipboard E = w"
  shows "subs_ok w i r True X (try_sub_monitor_services E timer s)"
proof (cases "is_remote_session (conn_of s) \<and> \<not> services_subed (conn_of s)")
  case True
  let ?t = "on_conn (\<lambda>c. c\<lparr>services_subed := True, auto_disconnect := timer\<rparr>) s"
  let ?f = "\<lambda>c v. add_connection (primary E) (inner c) (noperms E (conn_of ?t)) (try_add_primay_video_service (primary E) v)"
  have t: "subs_ok w i r True X ?t" using assms(1) by (simp add: subs_on_conn hearing_def)
  have o: "server_wf (hub_of ?t)" "conn_id (inner (conn_of ?t)) = i" "authorized (conn_of ?t)" using t unfolding subs_ok_def by blast+
  have p: "server_wf (try_add_primay_video_service (primary E) (hub_of ?t))"
    "subscriptions (try_add_primay_video_service (primary E) (hub_of ?t)) = subscriptions (hub_of ?t)"
    using primary_service_subs[OF o(1)] by blast+
  have "subs_ok w i r True X (on_server ?f ?t)"
  proof (rule subs_on_server[OF t])
    show "server_wf (?f (conn_of ?t) (hub_of ?t))" by (rule server_wf_steps(1)[OF p(1)])
    show "(n, j) \<in> subscriptions (?f (conn_of ?t) (hub_of ?t)) \<longleftrightarrow> (n, j) \<in> subscriptions (hub_of ?t)" if "j \<noteq> i" for n j
      unfolding add_connection_subs[OF p(1)] p(2) using that o(2) by simp
    show "(n, i) \<in> subscriptions (hub_of ?t) \<or> may_hear w (conn_of ?t) n" if "(n, i) \<in> subscriptions (?f (conn_of ?t) (hub_of ?t))" for n
      using that noperms_hear[OF o(3) assms(2)] unfolding add_connection_subs[OF p(1)] p(2) by blast
  qed
  moreover have "try_sub_monitor_services E timer s = on_server ?f ?t"
    unfolding try_sub_monitor_services_def Let_def noperms_def using True by simp
  ultimately show ?thesis by (simp only:)
next
  case False
  then show ?thesis unfolding try_sub_monitor_services_def using assms(1) by (simp only: if_False)
qed

lemma start_session_subs:
  assumes "subs_ok w i r a {} s" "one_way_clipboard E = w"
  shows "subs_ok w i r True {} (start_session E timer opts dir wait sub_service invited s)"
proof -
  let ?t = "case opts of Some q \<Rightarrow> update_options E q (on_conn (\<lambda>c. c\<lparr>authorized := True\<rparr>) s) | None \<Rightarrow> on_conn (\<lambda>c. c\<lparr>authorized := True\<rparr>) s"
  have t: "subs_ok w i r True {} ?t"
    using authorize_subs[OF assms(1)] update_options_subs[OF authorize_subs[OF assms(1)] assms(2)] by (cases opts) simp_all
  then have v: "\<not> view_camera (conn_of ?t)" unfolding subs_ok_def by blast
  have m: "subs_ok w i r True {} (try_sub_monitor_services E timer ?t)" by (rule try_sub_monitor_services_subs[OF t assms(2)])
  have d: "subs_ok w i r True {} (on_conn (\<lambda>c. c\<lparr>delayed_read_dir := Some dir\<rparr>) ?t)" using t by (rule subs_frame) (simp add: hearing_def)
  have f: "subs_ok w i r True {} (emit (CmFs (FsReadDir (fst dir) (snd dir))) ?t)" using t by simp
  show ?thesis unfolding start_session_def Let_def using t m d f v by presburger
qed

lemma switch_permission_subs:
  assumes "subs_ok w i r a {} s" "one_way_clipboard E = w"
  shows "subs_ok w i r a {} (switch_permission E name b s)"
proof -
  have v: "\<not> view_camera (conn_of s)" using assms(1) unfolding subs_ok_def by blast
  have kb: "subs_ok w i r a ({} \<union> {CLIPBOARD_NAME, NAME_CURSOR}) (on_conn (\<lambda>c. c\<lparr>keyboard := b\<rparr>) s)"
    by (rule subs_change[OF assms(1)]) (auto simp: may_hear_def audio_enabled_def split: if_splits)
  have k: "subs_ok w i r a {} (sub NAME_CURSOR (\<lambda>c. b \<or> show_remote_cursor c) (sub CLIPBOARD_NAME (can_sub_clipboard_service E)
      (emit (SendPermission PKeyboard b) (on_conn (\<lambda>c. c\<lparr>keyboard := b\<rparr>) s))))"
    by (rule keyboard_subs) (use kb assms(2) in auto)
  have cb: "subs_ok w i r a ({} \<union> {CLIPBOARD_NAME}) (on_conn (\<lambda>c. c\<lparr>clipboard := b\<rparr>) s)"
    by (rule subs_change[OF assms(1)]) (auto simp: may_hear_def audio_enabled_def split: if_splits)
  have c: "subs_ok w i r a {} (sub CLIPBOARD_NAME (can_sub_clipboard_service E) (emit (SendPermission PClipboard b) (on_conn (\<lambda>c. c\<lparr>clipboard := b\<rparr>) s)))"
    by (rule subs_sub[where X = "{CLIPBOARD_NAME}"]) (use cb clipboard_fresh assms(2) in auto)
  let ?a = "emit (SendPermission PAudio b) (on_conn (\<lambda>c. c\<lparr>audio := b\<rparr>) s)"
  have a: "subs_ok w i r a {} (if authorized (conn_of ?a) then sub_audio ?a else ?a)"
  proof (cases "authorized (conn_of s)")
    case True
    then have t: "subs_ok w i r True {} s" using assms(1) unfolding subs_ok_def by blast
    have "subs_ok w i r True ({} \<union> {AUDIO_NAME}) (on_conn (\<lambda>c. c\<lparr>audio := b\<rparr>) s)"
      by (rule subs_change[OF t]) (auto simp: may_hear_def clipboard_enabled_def peer_keyboard_enabled_def split: if_splits)
    then have "subs_ok w i r True ({} \<union> {AUDIO_NAME}) ?a" by simp
    then have "subs_ok w i r True (({} \<union> {AUDIO_NAME}) - {AUDIO_NAME}) (sub_audio ?a)" by (rule sub_audio_subs)
    then have "subs_ok w i r a {} (sub_audio ?a)" by (rule subs_weaken) auto
    moreover have "authorized (conn_of ?a)" using True by simp
    ultimately show ?thesis by (simp only: if_True)
  next
    case False
    have "subs_ok w i r a ({} \<union> {}) (on_conn (\<lambda>c. c\<lparr>audio := b\<rparr>) s)"
      by (rule subs_change[OF assms(1)])
        (use False in \<open>auto simp: may_hear_def clipboard_enabled_def peer_keyboard_enabled_def split: if_splits\<close>)
    then have "subs_ok w i r a {} ?a" by simp
    moreover have "\<not> authorized (conn_of ?a)" using False by simp
    ultimately show ?thesis by (simp only: if_False)
  qed
  show ?thesis
    unfolding switch_permission_def Let_def using k c a assms(1) v
    by (simp add: subs_on_conn hearing_def del: on_conn_parts)
qed

lemma handle_cm_msg_subs:
  assumes "subs_ok w i r a {} s" "one_way_clipboard E = w"
  shows "subs_ok w i r a {} (handle_cm_msg E m s)"
proof (cases m)
  case (SwitchPermission name b)
  then show ?thesis using switch_permission_subs[OF assms] by (simp add: handle_cm_msg_def)
qed (use assms in \<open>simp_all add: handle_cm_msg_def subs_on_conn hearing_def handle_voice_call_subs close_voice_call_subs\<close>)

lemma emit_all_subs: "subs_ok w i r a X (fold emit es s) = subs_ok w i r a X s"
  by (induction es arbitrary: s) simp_all

fun clip_env :: "bool \<Rightarrow> session_event \<Rightarrow> bool" where
  "clip_env w (Starts E _ _ _ _ _ _) = (one_way_clipboard E = w)"
| "clip_env w (FromPeer E _) = (one_way_clipboard E = w)"
| "clip_env w (FromManager E _) = (one_way_clipboard E = w)"
| "clip_env w (LogTimer _) = True"

lemma session_step_subs:
  assumes "session_step e s = Some (go, s')" "subs_ok w i r False {} s" "clip_env w e"
  shows "subs_ok w i r False {} s'"
proof (cases e)
  case (Starts E timer opts dir wait sub_service invited)
  then have "s' = start_session E timer opts dir wait sub_service invited s" "one_way_clipboard E = w" using assms(1,3) by simp_all
  then show ?thesis using subs_weaken[OF start_session_subs[OF assms(2)], of E "{}" False] by simp
next
  case (FromPeer E m)
  then show ?thesis using handle_peer_msg_subs assms by simp
next
  case (FromManager E m)
  then have "s' = handle_cm_msg E m s" "one_way_clipboard E = w" using assms(1,3) by simp_all
  then show ?thesis using handle_cm_msg_subs[OF assms(2)] by simp
next
  case (LogTimer t)
  obtain g es where r: "remove_log_timer t (file_remove_log (conn_of s)) = (g, es)" by force
  then have "s' = fold emit es (on_conn (\<lambda>c. c\<lparr>file_remove_log := g\<rparr>) s)" using assms(1) LogTimer by simp
  then show ?thesis using assms(2) by (simp add: emit_all_subs subs_on_conn hearing_def)
qed


section \<open>What is not checked\<close>

lemma ensured: "\<exists>b. map_of (services (ensure_service source d v)) (get_service_name source d) = Some b"
  by (auto simp: ensure_service_def contains_def add_service_def boxed_name_def video_service_new_def service_new_def update_conv')

text \<open>
  The kind of a session does not limit it: any authorized session but a camera session, also one that was admitted
  for files or a terminal, is subscribed to a screen when it asks for it, and its mouse events are injected.
\<close>

theorem any_session_sees_the_screen:
  assumes "authorized (conn_of s)" "\<not> forwarding (conn_of s)" "\<not> view_camera (conn_of s)" "server_wf (hub_of s)"
  shows "\<exists>s'. handle_peer_msg E (MiscMsg (CaptureDisplays [d] [] [])) s = Some (True, s')
    \<and> (get_service_name Monitor d, conn_id (inner (conn_of s))) \<in> subscriptions (hub_of s')
    \<and> (keyboard (conn_of s) \<and> \<not> disable_keyboard (conn_of s) \<and> \<not> authed_camera (conn_of s) \<longrightarrow>
       (\<exists>s''. handle_peer_msg E (MouseMsg me) s = Some (True, s'') \<and> InputMouse me True (show_my_cursor (conn_of s)) \<in> set (effects s'')))"
proof -
  let ?i = "inner (conn_of s)" and ?n = "get_service_name Monitor d"
  let ?s = "on_server (\<lambda>_. ensure_service Monitor d) s"
  let ?t = "on_server (\<lambda>c. capture_displays (inner c) Monitor [d] True False) ?s"
  have w: "server_wf (hub_of ?s)" using ensure_service_subs[OF assms(4)] by simp
  obtain b where b: "map_of (services (hub_of ?s)) ?n = Some b"
    using ensured[of Monitor d "hub_of s"] by fastforce
  have t: "(?n, conn_id ?i) \<in> subscriptions (hub_of ?t)"
    using capture_displays_subs[OF w] b service_name_video by auto
  define u where "u = (case ?t of (c, v, w, l) \<Rightarrow> (c\<lparr>multi_ui_session := get_subbed_displays_count (conn_id (inner c)) v > 1\<rparr>, v, w, l))"
  have u: "hub_of u = hub_of ?t" "inner (conn_of u) = ?i" by (simp_all split: prod.split add: u_def on_server_def)
  have wt: "server_wf (hub_of u)" unfolding u(1) using server_wf_steps(5)[OF w] by simp
  let ?r = "if follow_remote_window (conn_of u) then sub NAME_WINDOW_FOCUS (\<lambda>c. \<not> multi_ui_session c) u else u"
  have ne: "?n \<noteq> NAME_WINDOW_FOCUS" by (simp add: get_service_name_def service_name_prefix_def NAME_WINDOW_FOCUS_def)
  have t': "(?n, conn_id ?i) \<in> subscriptions (hub_of u)" unfolding u(1) by (rule t)
  moreover have "(?n, conn_id ?i) \<in> subscriptions (hub_of (sub NAME_WINDOW_FOCUS P u))" for P
    using t' ne unfolding sub_def by (simp add: subscribed_cases[OF wt])
  ultimately have r: "(?n, conn_id ?i) \<in> subscriptions (hub_of ?r)" by presburger
  have "capture_session_displays [d] [] [] s = ?r"
    using assms(3) unfolding capture_session_displays_def Let_def video_source_def u_def by (simp add: comp_def)
  then have "handle_peer_msg E (MiscMsg (CaptureDisplays [d] [] [])) s = Some (True, ?r)"
    using assms by (simp add: handle_peer_msg_def handle_misc_def)
  moreover have "\<exists>s''. handle_peer_msg E (MouseMsg me) s = Some (True, s'') \<and> InputMouse me True (show_my_cursor (conn_of s)) \<in> set (effects s'')"
    if "keyboard (conn_of s)" "\<not> disable_keyboard (conn_of s)" "\<not> authed_camera (conn_of s)"
    using that assms by (simp add: handle_peer_msg_def handle_mouse_msg_def Let_def is_authed_view_camera_def peer_keyboard_enabled_def
        update_auto_disconnect_timer_def)
  ultimately show ?thesis using r by blast
qed

text \<open>The line of a removed file stays in the log when its directory is removed.\<close>

lemma removed_file_stays_logged:
  assumes "(p, i) \<in> set (removed_files g)" "path_parent d \<noteq> Some p"
  shows "(p, i) \<in> set (removed_files (on_remove_dir t (d, j) g))"
  using assms by (simp add: on_remove_dir_def Let_def direct_child_def)

text \<open>The file permission that the manager can switch off is not looked at in a file session.\<close>

lemma file_permission_not_checked:
  assumes "authorized (conn_of s)" "\<not> forwarding (conn_of s)" "file_session (conn_of s)" "delayed_read_dir (conn_of s) = None" "\<not> one_way_file E"
  shows "\<exists>s'. handle_peer_msg E (FileAction (ARemoveFile i p n)) (switch_permission E ''file'' False s) = Some (True, s')
    \<and> CmFs (Fs (RemoveFile p i n)) \<in> set (effects s')"
  using assms by (simp add: handle_peer_msg_def handle_file_action_def switch_permission_def Let_def)

text \<open>Privacy mode can be toggled by a session without any permission.\<close>

lemma privacy_not_checked:
  assumes "authorized (conn_of s)" "\<not> forwarding (conn_of s)" "privacy_supported E"
  shows "\<exists>s'. handle_peer_msg E (MiscMsg (TogglePrivacyMode False k)) s = Some (True, s') \<and> TurnOffPrivacy \<in> set (effects s')"
  using assms by (simp add: handle_peer_msg_def handle_misc_def turn_off_privacy_def)


definition no_options :: option_message where
  "no_options = \<lparr>o_image_quality = None, o_custom_image_quality = 0, o_custom_fps = 0, o_supported_decoding = None,
    o_lock_after_session_end = NotSet, o_show_remote_cursor = NotSet, o_follow_remote_cursor = NotSet, o_follow_remote_window = NotSet,
    o_disable_audio = NotSet, o_disable_clipboard = NotSet, o_disable_keyboard = NotSet, o_privacy_mode = NotSet,
    o_block_input = NotSet, o_show_my_cursor = NotSet, o_enable_file_transfer = NotSet\<rparr>"

lemma clipboard_option:
  "update_options E (no_options\<lparr>o_disable_clipboard := No\<rparr>) s =
    sub CLIPBOARD_NAME (can_sub_clipboard_service E) (on_conn (\<lambda>c. c\<lparr>disable_clipboard := False\<rparr>) s)"
  by (simp add: update_options_def no_options_def opt_quality_def image_quality_of_def opt_fps_def opt_decoding_def opt_lock_def
      opt_remote_cursor_def opt_follow_cursor_def opt_follow_window_def opt_audio_def opt_clipboard_def opt_keyboard_def opt_privacy_def
      opt_block_input_def opt_my_cursor_def when_set_def Let_def)

text \<open>
  A camera session loses its keyboard only after the options of the login request were applied, so an option that
  touches the clipboard subscribes it to the clipboard for good, although it may not have it.
\<close>

lemma camera_session_hears_clipboard:
  assumes "view_camera (conn_of s)" "\<not> file_session (conn_of s)" "keyboard (conn_of s)" "\<not> disable_keyboard (conn_of s)"
    "clipboard (conn_of s)" "\<not> one_way_clipboard E" "\<not> camera_exists E" "server_wf (hub_of s)" "map_of (services (hub_of s)) CLIPBOARD_NAME = Some b"
  shows "let s' = start_session E timer (Some (no_options\<lparr>o_disable_clipboard := No\<rparr>)) dir False sub_service invited s
    in \<not> can_sub_clipboard_service E (conn_of s') \<and> (CLIPBOARD_NAME, conn_id (inner (conn_of s'))) \<in> subscriptions (hub_of s')"
proof -
  let ?s = "on_conn (\<lambda>c. c\<lparr>authorized := True\<rparr>) s"
  let ?t = "sub CLIPBOARD_NAME (can_sub_clipboard_service E) (on_conn (\<lambda>c. c\<lparr>disable_clipboard := False\<rparr>) ?s)"
  have c: "conn_of ?t = (conn_of s)\<lparr>authorized := True, disable_clipboard := False\<rparr>" by (simp add: sub_def)
  have "can_sub_clipboard_service E ((conn_of s)\<lparr>authorized := True, disable_clipboard := False\<rparr>)"
    using assms by (simp add: can_sub_clipboard_service_def clipboard_enabled_def peer_keyboard_enabled_def)
  then have h: "(CLIPBOARD_NAME, conn_id (inner (conn_of s))) \<in> subscriptions (hub_of ?t)"
    using assms(8,9) unfolding sub_def by (simp add: subscribed_cases)
  let ?u = "emit (SendPermission PKeyboard False) (on_conn (\<lambda>c. c\<lparr>keyboard := False\<rparr>) (try_sub_camera_displays E ?t))"
  have e: "start_session E timer (Some (no_options\<lparr>o_disable_clipboard := No\<rparr>)) dir False sub_service invited s = ?u"
    using assms(1,2) unfolding start_session_def Let_def option.case clipboard_option by (simp add: c)
  have "conn_of ?u = (conn_of s)\<lparr>authorized := True, disable_clipboard := False, keyboard := False\<rparr>"
    by (simp add: try_sub_camera_displays_def c)
  moreover have "subscriptions (hub_of ?u) = subscriptions (hub_of ?t)"
    using assms(7) by (simp add: try_sub_camera_displays_def add_camera_connection_subs try_add_primary_camera_service_def)
  ultimately show ?thesis unfolding e Let_def using h
    by (simp add: can_sub_clipboard_service_def peer_keyboard_enabled_def)
qed


theorem any_session_sees_the_screen_witness:
  "terminal_session plain_session \<and> (\<exists>s'. handle_peer_msg plain_env (MiscMsg (CaptureDisplays [1] [] [])) plain_state = Some (True, s')
     \<and> (get_service_name Monitor 1, 4) \<in> subscriptions (hub_of s'))"
  using any_session_sees_the_screen[of plain_state plain_env 1 "\<lparr>mouse_mask = 0, mouse_x = 0, mouse_y = 0\<rparr>"] by (auto simp: no_services_wf plain_session_def)

end
