(* ===== verification/Client_Login.thy ===== *)
theory Client_Login
  imports Peer_Config Login_Session Session_Control
begin

text \<open>
  The controlling side of a login: \<open>LoginConfigHandler\<close> of \<open>src/client.rs\<close>, the messages it builds, and the
  functions that answer a challenge, an error or the user's password. A step takes the handler, the
  files of \<open>Peer_Config\<close> and the messages sent so far. The session options and the login request are those
  the controlled side reads (\<open>Session_Control\<close>, \<open>Login_Session\<close>). SHA-256, the JSON library and what the
  machine is asked (arguments, user name, random numbers) are the environment of a step.
\<close>

section \<open>State\<close>

datatype conn_type = DEFAULT_CONN | FILE_TRANSFER | PORT_FORWARD | RDP | VIEW_CAMERA | TERMINAL

datatype password_source = PersonalAb bytes | SharedAb string | Undefined

record conn_token =
  token_password :: bytes
  token_source :: password_source
  token_session_id :: u64

record features =
  has_privacy_mode :: bool
  has_terminal :: bool
  has_remote_printing :: bool

record peer_info =
  pi_username :: string
  pi_hostname :: string
  pi_platform :: string
  pi_version :: string
  pi_features :: "features option"
  pi_encoding :: "supported_encoding option"

record handler =
  lc_id :: string
  lc_conn_type :: conn_type
  is_terminal_admin :: bool
  lc_hash :: "string \<times> string"
  lc_password :: bytes
  lc_tokenex :: string
  remember :: bool
  lc_config :: peer_config
  lc_port_forward :: "string \<times> int"
  lc_version :: int
  lc_features :: "features option"
  lc_session_id :: u64
  lc_supported_encoding :: "supported_encoding option"
  restarting_remote_device :: bool
  force_relay :: bool
  direct :: "bool option"
  received :: bool
  switch_uuid :: "string option"
  get_switch_uuid :: "string option"
  adapter_luid :: "int option"
  lc_mark_unsupported :: "CodecFormat list"
  selected_windows_session_id :: "nat option"
  lc_custom_fps :: "int option"
  password_source :: password_source
  shared_password :: "string option"
  record_state :: bool
  record_permission :: bool

record ab_peer =
  ab_id :: string
  ab_hash :: string

record ab_entry =
  ab_name :: string
  ab_peers :: "ab_peer list"

record address_book =
  ab_access_token :: string
  ab_entries :: "ab_entry list"

record client_env =
  args :: "string list"
  penv :: peer_env
  own :: config
  own_local :: local_config
  own_ab :: address_book
  own_uuid :: bytes
  sha :: "bytes \<Rightarrow> bytes"
  last_token :: "string option"
  os_user :: string
  platform_name :: string
  user_info_name :: "string \<Rightarrow> string option"
  json_map :: "string \<Rightarrow> settings option"
  show_json_map :: "settings \<Rightarrow> string"
  random_u64 :: u64
  parse_token :: "string \<Rightarrow> conn_token option"
  show_token :: "conn_token \<Rightarrow> string option"
  parse_uuid :: "string \<Rightarrow> bytes option"
  terminal_admin_var :: "string option"
  hw264 :: bool
  hw265 :: bool
  errno :: int

text \<open>A login request as it is sent: the fields the server's model keeps, the session options, the account of
  the operating system and the avatar.\<close>

record client_login =
  cl_request :: login_request
  cl_option :: "option_message option"
  cl_os_login :: "string \<times> string"
  cl_avatar :: string

datatype client_out =
    SendLogin client_login
  | SendSwitchSides bytes client_login
  | MsgBox string string string string

type_synonym client = "handler \<times> peer_store \<times> client_out list"

definition msgbox :: "string \<Rightarrow> string \<Rightarrow> string \<Rightarrow> string \<Rightarrow> client \<Rightarrow> client" where
  "msgbox t tt text link = (\<lambda>(h, st, out). (h, st, out @ [MsgBox t tt text link]))"

definition on_handler :: "(handler \<Rightarrow> handler) \<Rightarrow> client \<Rightarrow> client" where
  "on_handler f = (\<lambda>(h, st, out). (f h, st, out))"

section \<open>Where a password comes from\<close>

fun is_personal_ab :: "password_source \<Rightarrow> bytes \<Rightarrow> bool" where
  "is_personal_ab (PersonalAb p) password = (password \<noteq> [] \<and> p = password)"
| "is_personal_ab _ password = False"

definition password_hash :: "client_env \<Rightarrow> string \<Rightarrow> string \<times> string \<Rightarrow> bytes" where
  "password_hash E password hash = sha E (as_bytes password @ as_bytes (fst hash))"

fun is_shared_ab :: "client_env \<Rightarrow> password_source \<Rightarrow> bytes \<Rightarrow> string \<times> string \<Rightarrow> bool" where
  "is_shared_ab E (SharedAb p) password hash = (password \<noteq> [] \<and> password = password_hash E p hash)"
| "is_shared_ab E _ password hash = False"

section \<open>The configuration of the peer\<close>

definition load_config :: "client_env \<Rightarrow> client \<Rightarrow> peer_config \<times> client" where
  "load_config E = (\<lambda>(h, st, out). (let (c, st) = peer_load (penv E) (lc_id h) st in (c, h, st, out)))"

definition save_config :: "client_env \<Rightarrow> peer_config \<Rightarrow> client \<Rightarrow> client" where
  "save_config E c = (\<lambda>(h, st, out). (h\<lparr>lc_config := c\<rparr>, peer_store_config (penv E) (lc_id h) c st, out))"

text \<open>The pattern of the setters: load, change, save.\<close>

definition change_config :: "client_env \<Rightarrow> (peer_config \<Rightarrow> peer_config) \<Rightarrow> client \<Rightarrow> client" where
  "change_config E f s = (let (c, s) = load_config E s in save_config E (f c) s)"

definition lc_get_option :: "handler \<Rightarrow> string \<Rightarrow> string" where
  "lc_get_option h k = unwrap_or_default (pc_options (lc_config h) k)"

definition lc_set_option :: "client_env \<Rightarrow> string \<Rightarrow> string \<Rightarrow> client \<Rightarrow> client" where
  "lc_set_option E k v = change_config E (\<lambda>c. c\<lparr>pc_options := (pc_options c)(k \<mapsto> v)\<rparr>)"

definition save_view_style :: "client_env \<Rightarrow> string \<Rightarrow> client \<Rightarrow> client" where
  "save_view_style E v = change_config E (\<lambda>c. c\<lparr>pc_view_style := v\<rparr>)"

definition save_keyboard_mode :: "client_env \<Rightarrow> string \<Rightarrow> client \<Rightarrow> client" where
  "save_keyboard_mode E v = change_config E (\<lambda>c. c\<lparr>pc_keyboard_mode := v\<rparr>)"

definition save_reverse_mouse_wheel :: "client_env \<Rightarrow> string \<Rightarrow> client \<Rightarrow> client" where
  "save_reverse_mouse_wheel E v = change_config E (\<lambda>c. c\<lparr>pc_reverse_mouse_wheel := v\<rparr>)"

definition save_displays_as_individual_windows :: "client_env \<Rightarrow> string \<Rightarrow> client \<Rightarrow> client" where
  "save_displays_as_individual_windows E v = change_config E (\<lambda>c. c\<lparr>pc_displays_as_individual_windows := v\<rparr>)"

definition save_use_all_my_displays :: "client_env \<Rightarrow> string \<Rightarrow> client \<Rightarrow> client" where
  "save_use_all_my_displays E v = change_config E (\<lambda>c. c\<lparr>pc_use_all_my_displays := v\<rparr>)"

definition save_scroll_style :: "client_env \<Rightarrow> string \<Rightarrow> client \<Rightarrow> client" where
  "save_scroll_style E v = change_config E (\<lambda>c. c\<lparr>pc_scroll_style := v\<rparr>)"

definition save_edge_scroll_edge_thickness :: "client_env \<Rightarrow> int \<Rightarrow> client \<Rightarrow> client" where
  "save_edge_scroll_edge_thickness E v = change_config E (\<lambda>c. c\<lparr>pc_edge_scroll_edge_thickness := v\<rparr>)"

definition save_ui_flutter :: "client_env \<Rightarrow> string \<Rightarrow> string \<Rightarrow> client \<Rightarrow> client" where
  "save_ui_flutter E k v =
    change_config E (\<lambda>c. c\<lparr>pc_ui_flutter := (pc_ui_flutter c)(k := if v = [] then None else Some v)\<rparr>)"

definition get_ui_flutter :: "handler \<Rightarrow> string \<Rightarrow> string" where
  "get_ui_flutter h k = unwrap_or_default (pc_ui_flutter (lc_config h) k)"

definition set_direct_failure :: "client_env \<Rightarrow> int \<Rightarrow> client \<Rightarrow> client" where
  "set_direct_failure E v = change_config E (\<lambda>c. c\<lparr>pc_direct_failures := v\<rparr>)"

definition save_trackpad_speed :: "client_env \<Rightarrow> int \<Rightarrow> client \<Rightarrow> client" where
  "save_trackpad_speed E v = change_config E (\<lambda>c. c\<lparr>pc_trackpad_speed := v\<rparr>)"

definition get_custom_resolution :: "handler \<Rightarrow> int \<Rightarrow> (int \<times> int) option" where
  "get_custom_resolution h display = pc_custom_resolutions (lc_config h) (show_int display)"

definition set_custom_resolution :: "client_env \<Rightarrow> int \<Rightarrow> (int \<times> int) option \<Rightarrow> client \<Rightarrow> client" where
  "set_custom_resolution E display wh =
    change_config E (\<lambda>c. c\<lparr>pc_custom_resolutions := (pc_custom_resolutions c)(show_int display := wh)\<rparr>)"

definition should_auto_login :: "handler \<Rightarrow> string" where
  "should_auto_login h =
    (let l = pc_lock_after_session_end (lc_config h);
         a = lc_get_option h ''auto-login'' \<noteq> [];
         p = lc_get_option h ''os-password''
     in if p \<noteq> [] \<and> l \<and> a then p else [])"

definition get_remote_dir :: "client_env \<Rightarrow> handler \<Rightarrow> string" where
  "get_remote_dir E h =
    (case json_map E (lc_get_option h ''remote_dir'') of
       None \<Rightarrow> []
     | Some m \<Rightarrow> unwrap_or_default (m (info_username (pc_info (lc_config h)))))"

definition get_all_remote_dir :: "client_env \<Rightarrow> string \<Rightarrow> handler \<Rightarrow> string" where
  "get_all_remote_dir E path h =
    (let m = (case json_map E (lc_get_option h ''remote_dir'') of None \<Rightarrow> Map.empty | Some m \<Rightarrow> m)
     in show_json_map E (m(info_username (pc_info (lc_config h)) := if path = [] then None else Some path)))"

definition get_username :: "handler \<Rightarrow> peer_info \<Rightarrow> string" where
  "get_username h pinfo = (if pi_username pinfo = [] then info_username (pc_info (lc_config h)) else pi_username pinfo)"

definition get_key_terminal_service_id :: "handler \<Rightarrow> string" where
  "get_key_terminal_service_id h = (if is_terminal_admin h then ''terminal-admin-service-id'' else ''terminal-service-id'')"

definition is_privacy_mode_supported :: "handler \<Rightarrow> bool" where
  "is_privacy_mode_supported h = (case lc_features h of Some f \<Rightarrow> has_privacy_mode f | None \<Rightarrow> False)"

definition is_remote_printing_supported :: "handler \<Rightarrow> bool" where
  "is_remote_printing_supported h = (case lc_features h of Some f \<Rightarrow> has_remote_printing f | None \<Rightarrow> False)"

section \<open>Start\<close>

definition initialize ::
  "client_env \<Rightarrow> string \<Rightarrow> conn_type \<Rightarrow> string option \<Rightarrow> bool \<Rightarrow> int option \<Rightarrow> string option \<Rightarrow> string option \<Rightarrow>
   string \<Rightarrow> client \<Rightarrow> client" where
  "initialize E i ct sw_uuid relay luid shared token tok s =
    (let s = on_handler (\<lambda>h. h\<lparr>lc_id := i, lc_conn_type := ct, lc_tokenex := tok\<rparr>) s;
         (config, s) = load_config E s;
         s = on_handler (\<lambda>h. h\<lparr>remember := pc_password config \<noteq> [], lc_config := config\<rparr>) s;
         s = (if length (args E) > 2 \<and> args E ! 1 = ''--connect'' \<and> starts_with (args E ! 2) ''hoptodesk://file-transfer/''
              then on_handler (\<lambda>h. h\<lparr>lc_conn_type := FILE_TRANSFER\<rparr>) s else s);
         conn_token = (case token of None \<Rightarrow> None | Some x \<Rightarrow> parse_token E x);
         sid = (case conn_token of None \<Rightarrow> 0 | Some k \<Rightarrow> token_session_id k);
         s = (case conn_token of
                None \<Rightarrow> s
              | Some k \<Rightarrow> on_handler (\<lambda>h. h\<lparr>lc_password := token_password k, password_source := token_source k\<rparr>) s);
         sid = (if sid = 0 then (if random_u64 E = 0 then 1 else random_u64 E) else sid)
     in on_handler (\<lambda>h. h\<lparr>lc_session_id := sid, lc_supported_encoding := None, restarting_remote_device := False,
          force_relay := option2bool ''force-always-relay'' (lc_get_option h ''force-always-relay'') \<or> relay,
          direct := None, received := False, switch_uuid := sw_uuid, adapter_luid := luid,
          selected_windows_session_id := None, shared_password := shared, record_state := False, record_permission := True,
          is_terminal_admin := (ct = TERMINAL \<and> terminal_admin_var E = Some ''Y'')\<rparr>) s)"

section \<open>Options of the session\<close>

text \<open>\<open>OptionMessage::default()\<close>.\<close>

definition option_default :: option_message where
  "option_default = \<lparr>o_image_quality = Some 0, o_custom_image_quality = 0, o_custom_fps = 0, o_supported_decoding = None,
    o_lock_after_session_end = NotSet, o_show_remote_cursor = NotSet, o_follow_remote_cursor = NotSet,
    o_follow_remote_window = NotSet, o_disable_audio = NotSet, o_disable_clipboard = NotSet, o_disable_keyboard = NotSet,
    o_privacy_mode = NotSet, o_block_input = NotSet, o_show_my_cursor = NotSet, o_enable_file_transfer = NotSet\<rparr>"

definition yes_no :: "bool \<Rightarrow> bool_option" where
  "yes_no b = (if b then Yes else No)"

text \<open>\<open>i32 << 8\<close>.\<close>

definition shl8 :: "int \<Rightarrow> int" where
  "shl8 x = sint (word_of_int (x * 256) :: u32)"

definition get_toggle_option :: "handler \<Rightarrow> string \<Rightarrow> bool" where
  "get_toggle_option h name =
    (let c = lc_config h in
     if name = ''show-remote-cursor'' then pc_show_remote_cursor c
     else if name = ''lock-after-session-end'' then pc_lock_after_session_end c
     else if name = ''privacy-mode'' then pc_privacy_mode c
     else if name = ''enable-file-copy-paste'' then pc_enable_file_copy_paste c
     else if name = ''disable-audio'' then pc_disable_audio c
     else if name = ''disable-clipboard'' then pc_disable_clipboard c
     else if name = ''show-quality-monitor'' then pc_show_quality_monitor c
     else if name = ''allow_swap_key'' then pc_allow_swap_key c
     else if name = ''view-only'' then pc_view_only c
     else if name = ''show-my-cursor'' then pc_show_my_cursor c
     else if name = ''follow-remote-cursor'' then pc_follow_remote_cursor c
     else if name = ''follow-remote-window'' then pc_follow_remote_window c
     else lc_get_option h name \<noteq> [])"

text \<open>What a switch does to the loaded configuration, and the option that is sent. \<open>h\<close> is the handler, whose own
  configuration the end of the view-only mode reads.\<close>

definition toggle_view_only :: "handler \<Rightarrow> peer_config \<Rightarrow> peer_config \<times> option_message" where
  "toggle_view_only h c =
    (let c = c\<lparr>pc_view_only := \<not> pc_view_only c\<rparr> in
     if pc_view_only c then
       (c, option_default\<lparr>o_disable_keyboard := yes_no True, o_disable_clipboard := yes_no True, o_show_remote_cursor := yes_no True,
          o_enable_file_transfer := yes_no False, o_lock_after_session_end := yes_no False\<rparr>)
     else
       let m = option_default\<lparr>o_disable_keyboard := yes_no False,
             o_disable_clipboard := yes_no (get_toggle_option h ''disable-clipboard''),
             o_show_remote_cursor := yes_no (get_toggle_option h ''show-remote-cursor''),
             o_enable_file_transfer := yes_no (pc_enable_file_copy_paste (lc_config h)),
             o_lock_after_session_end := yes_no (pc_lock_after_session_end (lc_config h))\<rparr>
       in if pc_show_my_cursor c then (c\<lparr>pc_show_my_cursor := False\<rparr>, m\<lparr>o_show_my_cursor := No\<rparr>) else (c, m))"

definition toggled :: "handler \<Rightarrow> string \<Rightarrow> peer_config \<Rightarrow> (peer_config \<times> option_message) option" where
  "toggled h name c =
    (let m = option_default in
     if name = ''show-remote-cursor'' then
       let b = \<not> pc_show_remote_cursor c in Some (c\<lparr>pc_show_remote_cursor := b\<rparr>, m\<lparr>o_show_remote_cursor := yes_no b\<rparr>)
     else if name = ''follow-remote-cursor'' then
       let b = \<not> pc_follow_remote_cursor c in Some (c\<lparr>pc_follow_remote_cursor := b\<rparr>, m\<lparr>o_follow_remote_cursor := yes_no b\<rparr>)
     else if name = ''follow-remote-window'' then
       let b = \<not> pc_follow_remote_window c in Some (c\<lparr>pc_follow_remote_window := b\<rparr>, m\<lparr>o_follow_remote_window := yes_no b\<rparr>)
     else if name = ''disable-audio'' then
       let b = \<not> pc_disable_audio c in Some (c\<lparr>pc_disable_audio := b\<rparr>, m\<lparr>o_disable_audio := yes_no b\<rparr>)
     else if name = ''disable-clipboard'' then
       let b = \<not> pc_disable_clipboard c in Some (c\<lparr>pc_disable_clipboard := b\<rparr>, m\<lparr>o_disable_clipboard := yes_no b\<rparr>)
     else if name = ''lock-after-session-end'' then
       let b = \<not> pc_lock_after_session_end c in Some (c\<lparr>pc_lock_after_session_end := b\<rparr>, m\<lparr>o_lock_after_session_end := yes_no b\<rparr>)
     else if name = ''privacy-mode'' then Some (c, m\<lparr>o_privacy_mode := yes_no (\<not> pc_privacy_mode c)\<rparr>)
     else if name = ''enable-file-copy-paste'' then
       let b = \<not> pc_enable_file_copy_paste c in Some (c\<lparr>pc_enable_file_copy_paste := b\<rparr>, m\<lparr>o_enable_file_transfer := yes_no b\<rparr>)
     else if name = ''block-input'' then Some (c, m\<lparr>o_block_input := Yes\<rparr>)
     else if name = ''unblock-input'' then Some (c, m\<lparr>o_block_input := No\<rparr>)
     else if name = ''show-quality-monitor'' then Some (c\<lparr>pc_show_quality_monitor := \<not> pc_show_quality_monitor c\<rparr>, m)
     else if name = ''allow_swap_key'' then Some (c\<lparr>pc_allow_swap_key := \<not> pc_allow_swap_key c\<rparr>, m)
     else if name = ''view-only'' then Some (toggle_view_only h c)
     else if name = ''show-my-cursor'' then
       let b = \<not> pc_show_my_cursor c in Some (c\<lparr>pc_show_my_cursor := b\<rparr>, m\<lparr>o_show_my_cursor := yes_no b\<rparr>)
     else None)"

definition toggle_option :: "client_env \<Rightarrow> string \<Rightarrow> client \<Rightarrow> option_message option \<times> client" where
  "toggle_option E name s =
    (let (config, s) = load_config E s; h = fst s in
     case toggled h name config of
       Some (config, m) \<Rightarrow>
         (Some m, if name = ''block-input'' \<or> name = ''unblock-input'' then s else save_config E config s)
     | None \<Rightarrow>
         let is_set = (case pc_options (lc_config h) name of Some v \<Rightarrow> v \<noteq> [] | None \<Rightarrow> False);
             c = (lc_config h)\<lparr>pc_options := (pc_options (lc_config h))(name := if is_set then None else Some ''Y'')\<rparr>
         in (None, save_config E c s))"

definition get_image_quality_enum :: "string \<Rightarrow> bool \<Rightarrow> int option" where
  "get_image_quality_enum q ignore_default =
    (if q = ''low'' then Some 2
     else if q = ''best'' then Some 4
     else if q = ''balanced'' then (if ignore_default then None else Some 3)
     else None)"

definition get_supported_decoding :: "client_env \<Rightarrow> client \<Rightarrow> supported_decoding \<times> client" where
  "get_supported_decoding E s =
    (let h = fst s in
     if lc_id h = [] then (supported_decodings (hw264 E) (hw265 E) [] Map.empty (lc_mark_unsupported h), s)
     else
       let (c, s) = load_config E s
       in (supported_decodings (hw264 E) (hw265 E) (lc_id h) (pc_options c) (lc_mark_unsupported h), s))"

definition quality_options :: "client_env \<Rightarrow> bool \<Rightarrow> client \<Rightarrow> option_message \<times> client" where
  "quality_options E ignore_default s =
    (let q = pc_image_quality (lc_config (fst s)) in
     case get_image_quality_enum q ignore_default of
       Some n \<Rightarrow> (option_default\<lparr>o_image_quality := Some n\<rparr>, s)
     | None \<Rightarrow>
         if q = ''custom'' then
           let (config, s) = load_config E s;
               quality = (case pc_custom_image_quality config of [] \<Rightarrow> 50 | x # _ \<Rightarrow> x)
           in (option_default\<lparr>o_custom_image_quality := shl8 quality\<rparr>, s)
         else (option_default, s))"

definition switch_options :: "handler \<Rightarrow> option_message \<Rightarrow> option_message" where
  "switch_options h m =
    (let view_only = get_toggle_option h ''view-only'';
         m = (if view_only then m\<lparr>o_disable_keyboard := Yes\<rparr> else m);
         m = (if view_only \<or> get_toggle_option h ''show-remote-cursor'' then m\<lparr>o_show_remote_cursor := Yes\<rparr> else m);
         m = (if view_only \<and> get_toggle_option h ''show-my-cursor'' then m\<lparr>o_show_my_cursor := Yes\<rparr> else m);
         m = (if get_toggle_option h ''follow-remote-cursor'' then m\<lparr>o_follow_remote_cursor := Yes\<rparr> else m);
         m = (if get_toggle_option h ''follow-remote-window'' then m\<lparr>o_follow_remote_window := Yes\<rparr> else m);
         m = (if \<not> view_only \<and> get_toggle_option h ''lock-after-session-end'' then m\<lparr>o_lock_after_session_end := Yes\<rparr> else m);
         m = (if get_toggle_option h ''disable-audio'' then m\<lparr>o_disable_audio := Yes\<rparr> else m);
         m = (if \<not> view_only \<and> get_toggle_option h ''enable-file-copy-paste'' then m\<lparr>o_enable_file_transfer := Yes\<rparr> else m)
     in if view_only \<or> get_toggle_option h ''disable-clipboard'' then m\<lparr>o_disable_clipboard := Yes\<rparr> else m)"

definition get_option_message :: "client_env \<Rightarrow> bool \<Rightarrow> client \<Rightarrow> option_message option \<times> client" where
  "get_option_message E ignore_default s =
    (if lc_conn_type (fst s) \<in> set [PORT_FORWARD, RDP, FILE_TRANSFER] then (None, s)
     else
       let (m, s) = quality_options E ignore_default s;
           m = switch_options (fst s) m;
           (d, s) = get_supported_decoding E s
       in (Some (m\<lparr>o_supported_decoding := Some d\<rparr>), s))"

definition save_custom_image_quality :: "client_env \<Rightarrow> int \<Rightarrow> client \<Rightarrow> option_message \<times> client" where
  "save_custom_image_quality E q s =
    (option_default\<lparr>o_custom_image_quality := shl8 q\<rparr>,
     change_config E (\<lambda>c. c\<lparr>pc_image_quality := ''custom'', pc_custom_image_quality := [q]\<rparr>) s)"

definition save_image_quality :: "client_env \<Rightarrow> string \<Rightarrow> client \<Rightarrow> option_message option \<times> client" where
  "save_image_quality E v s =
    (map_option (\<lambda>q. option_default\<lparr>o_image_quality := Some q\<rparr>) (get_image_quality_enum v False),
     change_config E (\<lambda>c. c\<lparr>pc_image_quality := v\<rparr>) s)"

definition set_custom_fps :: "client_env \<Rightarrow> int \<Rightarrow> bool \<Rightarrow> client \<Rightarrow> option_message \<times> client" where
  "set_custom_fps E fps save s =
    (let s = (if save then lc_set_option E ''custom-fps'' (show_int fps) s else s)
     in (option_default\<lparr>o_custom_fps := fps\<rparr>, on_handler (\<lambda>h. h\<lparr>lc_custom_fps := Some fps\<rparr>) s))"

definition update_supported_decodings :: "client_env \<Rightarrow> client \<Rightarrow> option_message \<times> client" where
  "update_supported_decodings E s =
    (let (d, s) = get_supported_decoding E s in (option_default\<lparr>o_supported_decoding := Some d\<rparr>, s))"

text \<open>\<open>refresh\<close>, \<open>refresh_display\<close> and \<open>restart_remote_device\<close>.\<close>

definition refresh :: misc where "refresh = RefreshVideo True"
definition refresh_display :: "nat \<Rightarrow> misc" where "refresh_display d = RefreshVideoDisplay d"
definition restart_remote_device :: misc where "restart_remote_device = RestartRemoteDevice"

section \<open>Keyboard modes\<close>

fun keyboard_mode_to_string :: "keyboard_mode \<Rightarrow> string" where
  "keyboard_mode_to_string Legacy = ''legacy''"
| "keyboard_mode_to_string MapMode = ''map''"
| "keyboard_mode_to_string TranslateMode = ''translate''"
| "keyboard_mode_to_string AutoMode = ''auto''"

definition keyboard_mode_from_str :: "string \<Rightarrow> keyboard_mode option" where
  "keyboard_mode_from_str s =
    (if s = ''legacy'' then Some Legacy
     else if s = ''map'' then Some MapMode
     else if s = ''translate'' then Some TranslateMode
     else if s = ''auto'' then Some AutoMode
     else None)"

definition KEYBOARD_MODES :: "keyboard_mode list" where
  "KEYBOARD_MODES = [Legacy, MapMode, TranslateMode, AutoMode]"

definition to_lowercase :: "string \<Rightarrow> string" where
  "to_lowercase s = map (\<lambda>c. if 65 \<le> (of_char c :: nat) \<and> (of_char c :: nat) \<le> 90 then char_of (of_char c + 32 :: nat) else c) s"

fun is_keyboard_mode_supported :: "keyboard_mode \<Rightarrow> int \<Rightarrow> string \<Rightarrow> bool" where
  "is_keyboard_mode_supported Legacy v platform = True"
| "is_keyboard_mode_supported MapMode v platform =
    (if to_lowercase platform = ''android'' then False else v \<ge> get_version_number ''1.2.0'')"
| "is_keyboard_mode_supported TranslateMode v platform = (v \<ge> get_version_number ''1.2.0'')"
| "is_keyboard_mode_supported AutoMode v platform = (v \<ge> get_version_number ''1.2.0'')"

definition get_supported_keyboard_modes :: "int \<Rightarrow> string \<Rightarrow> keyboard_mode list" where
  "get_supported_keyboard_modes v platform = filter (\<lambda>m. is_keyboard_mode_supported m v platform) KEYBOARD_MODES"

section \<open>The peer's answer\<close>

definition kept_password :: "client_env \<Rightarrow> handler \<Rightarrow> bytes \<Rightarrow> bytes" where
  "kept_password E h password0 =
    (if remember h then
       (if lc_password h \<noteq> [] \<and> lc_password h \<noteq> password0 \<and> \<not> is_shared_ab E (password_source h) (lc_password h) (lc_hash h)
        then lc_password h else password0)
     else if is_personal_ab (password_source h) (lc_password h) then lc_password h
     else [])"

definition kept_keyboard_mode :: "peer_info \<Rightarrow> string \<Rightarrow> string" where
  "kept_keyboard_mode pinfo mode =
    (let v = get_version_number (pi_version pinfo) in
     if mode = [] then
       (if is_keyboard_mode_supported MapMode v (pi_platform pinfo) then ''map'' else ''legacy'')
     else if (case keyboard_mode_from_str mode of Some m \<Rightarrow> m | None \<Rightarrow> Legacy) \<notin> set (get_supported_keyboard_modes v (pi_platform pinfo))
     then ''legacy''
     else mode)"

definition handle_peer_info :: "client_env \<Rightarrow> peer_info \<Rightarrow> client \<Rightarrow> client" where
  "handle_peer_info E pinfo s =
    (let s = (if pi_version pinfo \<noteq> [] then on_handler (\<lambda>h. h\<lparr>lc_version := get_version_number (pi_version pinfo)\<rparr>) s else s);
         s = on_handler (\<lambda>h. h\<lparr>lc_features := pi_features pinfo\<rparr>) s;
         (config, s) = load_config E s;
         config = config\<lparr>pc_info := \<lparr>info_username = pi_username pinfo, info_hostname = pi_hostname pinfo, info_platform = pi_platform pinfo\<rparr>,
           pc_password := kept_password E (fst s) (pc_password config),
           pc_keyboard_mode := kept_keyboard_mode pinfo (pc_keyboard_mode config)\<rparr>
     in on_handler (\<lambda>h. h\<lparr>lc_supported_encoding := pi_encoding pinfo\<rparr>) (save_config E config s))"

section \<open>The login request\<close>

definition display_name :: "client_env \<Rightarrow> string" where
  "display_name E =
    (let n = get_builtin_option (own E) ''display-name'';
         n = (if n = [] then (case user_info_name E (local_get_option (own_local E) ''user_info'') of Some x \<Rightarrow> x | None \<Rightarrow> []) else n)
     in if n = [] then os_user E else n)"

text \<open>The token: that of the last single sign-on, unless the program was started with a link that has one.\<close>

definition login_token :: "client_env \<Rightarrow> string" where
  "login_token E =
    (let tok = unwrap_or_default (last_token E) in
     if length (args E) > 2 \<and> args E ! 1 = ''--connect'' then
       let parts = split_on (CHR ''/'') (args E ! 2) in
       if length parts \<ge> 5 \<and> length (parts ! 4) = 32 then parts ! 4 else tok
     else tok)"

definition login_union_of :: "client_env \<Rightarrow> handler \<Rightarrow> login_union" where
  "login_union_of E h =
    (case lc_conn_type h of
       FILE_TRANSFER \<Rightarrow> LrFileTransfer (get_remote_dir E h) (lc_get_option h ''remote_show_hidden'' \<noteq> [])
     | VIEW_CAMERA \<Rightarrow> LrViewCamera
     | PORT_FORWARD \<Rightarrow> LrPortForward (fst (lc_port_forward h)) (snd (lc_port_forward h))
     | RDP \<Rightarrow> LrPortForward (fst (lc_port_forward h)) (snd (lc_port_forward h))
     | TERMINAL \<Rightarrow> LrTerminal (lc_get_option h ''terminal-service-id'')
     | DEFAULT_CONN \<Rightarrow> NoUnion)"

definition create_login_msg :: "client_env \<Rightarrow> string \<Rightarrow> string \<Rightarrow> bytes \<Rightarrow> client \<Rightarrow> client_login \<times> client" where
  "create_login_msg E os_username os_password password s =
    (let h = fst s; (m, s) = get_option_message E True s
     in (\<lparr>cl_request = \<lparr>username = lc_id h, lr_password = password, my_id = cfg_id (own E), my_name = display_name E,
            my_platform = platform_name E, version = ''1.40.7'', session_id = lc_session_id h,
            lr_hwid = (if lc_get_option h ''trust-this-device'' = ''Y'' then sha E (own_uuid E) else []),
            tokenex = login_token E, lr_union = login_union_of E h\<rparr>,
          cl_option = m, cl_os_login = (os_username, os_password), cl_avatar = get_option (own E) ''avatar''\<rparr>, s))"

definition send_login :: "client_env \<Rightarrow> string \<Rightarrow> string \<Rightarrow> bytes \<Rightarrow> client \<Rightarrow> client" where
  "send_login E os_username os_password password s =
    (let (l, h, st, out) = create_login_msg E os_username os_password password s in (h, st, out @ [SendLogin l]))"

definition send_switch_login_request :: "client_env \<Rightarrow> bytes \<Rightarrow> client \<Rightarrow> client" where
  "send_switch_login_request E sw_uuid s =
    (let (l, h, st, out) = create_login_msg E [] [] [] s in (h, st, out @ [SendSwitchSides sw_uuid l]))"

definition get_conn_token :: "client_env \<Rightarrow> handler \<Rightarrow> string option" where
  "get_conn_token E h =
    (if lc_password h = [] then None
     else show_token E \<lparr>token_password = lc_password h, token_source = password_source h, token_session_id = lc_session_id h\<rparr>)"

section \<open>Answering a challenge\<close>

definition personal :: "ab_entry \<Rightarrow> bool" where
  "personal a \<longleftrightarrow> ab_name a = ''My address book'' \<or> ab_name a = ''Legacy address book''"

definition try_get_password_from_personal_ab :: "client_env \<Rightarrow> string \<Rightarrow> bytes option" where
  "try_get_password_from_personal_ab E i =
    (let token = local_get_option (own_local E) ''access_token'' in
     if token \<noteq> [] \<and> token = ab_access_token (own_ab E) then
       (case find personal (ab_entries (own_ab E)) of
          None \<Rightarrow> None
        | Some a \<Rightarrow>
            (case find (\<lambda>p. ab_id p = i) (ab_peers a) of
               None \<Rightarrow> None
             | Some p \<Rightarrow>
                 (case b64_decode (vlt (penv E)) (as_bytes (ab_hash p)) of
                    Some h \<Rightarrow> if h \<noteq> [] then Some h else None
                  | None \<Rightarrow> None)))
     else None)"

text \<open>The order in which passwords are tried: the one of the last attempt, a preset one, a shared one (which
  replaces both), the stored one, the address book's, the built-in default. The source is kept when the last one
  is used again.\<close>

definition choose_password :: "client_env \<Rightarrow> string \<Rightarrow> string \<times> string \<Rightarrow> handler \<Rightarrow> bytes \<times> password_source" where
  "choose_password E preset hash h =
    (let password = lc_password h; source = password_source h;
         (password, source) =
           (if password = [] \<and> preset \<noteq> [] then (password_hash E preset hash, Undefined) else (password, source));
         (password, source) =
           (case shared_password h of
              Some p \<Rightarrow> if p \<noteq> [] then (password_hash E p hash, SharedAb p) else (password, source)
            | None \<Rightarrow> (password, source));
         (password, source) =
           (if password = [] then
              (pc_password (lc_config h), if pc_password (lc_config h) \<noteq> [] then Undefined else source)
            else (password, source));
         (password, source) =
           (if password = [] then
              (case try_get_password_from_personal_ab E (lc_id h) of Some p \<Rightarrow> (p, PersonalAb p) | None \<Rightarrow> (password, source))
            else (password, source))
     in if password = [] then
          let p = get_builtin_option (own E) ''default-connect-password''
          in if p \<noteq> [] then (password_hash E p hash, SharedAb p) else (password, source)
        else (password, source))"

definition challenge_answer :: "client_env \<Rightarrow> bytes \<Rightarrow> string \<times> string \<Rightarrow> bytes" where
  "challenge_answer E password hash = sha E (password @ as_bytes (snd hash))"

definition handle_hash :: "client_env \<Rightarrow> string \<Rightarrow> string \<times> string \<Rightarrow> client \<Rightarrow> client" where
  "handle_hash E preset hash s =
    (let sw_uuid = switch_uuid (fst s);
         s = on_handler (\<lambda>h. h\<lparr>lc_hash := hash, switch_uuid := None\<rparr>) s
     in case (case sw_uuid of Some u \<Rightarrow> parse_uuid E u | None \<Rightarrow> None) of
          Some u \<Rightarrow> on_handler (\<lambda>h. h\<lparr>password_source := Undefined\<rparr>) (send_switch_login_request E u s)
        | None \<Rightarrow>
            let (password, source) = choose_password E preset hash (fst s);
                s = on_handler (\<lambda>h. h\<lparr>shared_password := None, password_source := source, lc_password := password\<rparr>) s;
                h = fst s
            in if lc_conn_type h = TERMINAL \<and> is_terminal_admin h then
                 msgbox (if password = [] then ''terminal-admin-login-password'' else ''terminal-admin-login'') [] [] [] s
               else
                 let (ans, s) =
                       (if password = [] then ([], msgbox ''input-password'' ''Password Required'' [] [] s)
                        else (challenge_answer E password hash, s));
                     (os_username, os_password) =
                       (if lc_conn_type h = TERMINAL then ([], [])
                        else (lc_get_option h ''os-username'', lc_get_option h ''os-password''))
                 in send_login E os_username os_password ans s)"

text \<open>The password of the dialog. An empty one stands for the last or the stored one.\<close>

definition handle_login_from_ui :: "client_env \<Rightarrow> string \<Rightarrow> string \<Rightarrow> string \<Rightarrow> bool \<Rightarrow> client \<Rightarrow> client" where
  "handle_login_from_ui E os_username os_password password rem s =
    (let h = fst s;
         s = (if password = [] then
                let stored = pc_password (lc_config h) in
                if lc_password h = [] \<and> stored \<noteq> [] then on_handler (\<lambda>h. h\<lparr>password_source := Undefined, lc_password := stored\<rparr>) s
                else s
              else on_handler (\<lambda>h. h\<lparr>password_source := Undefined, lc_password := password_hash E password (lc_hash h),
                     remember := rem\<rparr>) s)
     in send_login E os_username os_password (challenge_answer E (lc_password (fst s)) (lc_hash h)) s)"

section \<open>Errors\<close>

definition LOGIN_MSG_PASSWORD_EMPTY :: string where "LOGIN_MSG_PASSWORD_EMPTY = ''Empty Password''"

text \<open>The dialog of an error, and whether the user may try again. The links of the help
  pages are empty.\<close>

definition LOGIN_ERROR_MAP :: "(string \<times> string \<times> string \<times> string \<times> bool) list" where
  "LOGIN_ERROR_MAP =
    [(LOGIN_MSG_DESKTOP_SESSION_NOT_READY, ''session-login'', [], [], True),
     (''Desktop xsession failed'', ''session-re-login'', [], [], True),
     (''Desktop session another user login'', ''info-nocancel'', ''another_user_login_title_tip'', ''another_user_login_text_tip'', False),
     (''Desktop xorg not found'', ''info-nocancel'', ''xorg_not_found_title_tip'', ''xorg_not_found_text_tip'', True),
     (''Desktop none'', ''info-nocancel'', ''no_desktop_title_tip'', ''no_desktop_text_tip'', True),
     (''Desktop session not ready, password empty'', ''session-login-password'', [], [], True),
     (''Desktop session not ready, password wrong'', ''session-login-re-password'', [], [], True),
     (LOGIN_MSG_NO_PASSWORD_ACCESS, ''wait-remote-accept-nook'', ''Prompt'',
      ''Please wait for the remote side to accept your session request...'', True)]"

definition handle_login_error :: "client_env \<Rightarrow> string \<Rightarrow> client \<Rightarrow> bool \<times> client" where
  "handle_login_error E err s =
    (if err = LOGIN_MSG_PASSWORD_EMPTY then
       (True, msgbox ''input-password'' ''Password Required'' [] [] (on_handler (\<lambda>h. h\<lparr>lc_password := []\<rparr>) s))
     else if err = LOGIN_MSG_PASSWORD_WRONG then
       (True, msgbox ''re-input-password'' err ''Do you want to enter again?'' [] (on_handler (\<lambda>h. h\<lparr>lc_password := []\<rparr>) s))
     else if err = LOGIN_MSG_2FA_WRONG \<or> err = REQUIRE_2FA then
       (True, msgbox ''input-2fa'' err [] []
          (if lc_get_option (fst s) ''trust-this-device'' = ''Y'' then lc_set_option E ''trust-this-device'' [] s else s))
     else
       (case map_of LOGIN_ERROR_MAP err of
          Some (t, tt, text, again) \<Rightarrow> (again, msgbox t tt text [] s)
        | None \<Rightarrow> (False, msgbox ''error'' ''Login Error'' err [] s)))"

definition contains_text :: "string \<Rightarrow> string \<Rightarrow> bool" where
  "contains_text s p = list_ex (\<lambda>k. starts_with (drop k s) p) [0..<Suc (length s)]"

text \<open>As built without the flutter interface, not for Windows.\<close>

definition on_establish_connection_error :: "client_env \<Rightarrow> string \<Rightarrow> client \<Rightarrow> client" where
  "on_establish_connection_error E err s =
    (let h = fst s in
     if get_switch_uuid h \<noteq> None then s
     else
       let relay_condition = (direct h = Some True \<and> \<not> received h);
           s = (if relay_condition \<and>
                  ((errno E = 104 \<or> contains_text err ''104'') \<or> (\<not> contains_text err ''Failed'' \<and> contains_text err ''deadline''))
                then on_handler (\<lambda>h. h\<lparr>force_relay := True\<rparr>) s else s)
       in msgbox ''error'' ''Connection Error'' err [] s)"

section \<open>Samples\<close>

definition pad32 :: "bytes \<Rightarrow> bytes" where
  "pad32 x = take 32 (x @ replicate 32 0)"

definition plain_client :: client_env where
  "plain_client = \<lparr>args = [], penv = plain_peer_env, own = empty_config\<lparr>cfg_id := ''me''\<rparr>,
     own_local = \<lparr>local_options = Map.empty, ui_flutter = Map.empty, overwrite_local_settings = Map.empty, default_local_settings = Map.empty\<rparr>,
     own_ab = \<lparr>ab_access_token = [], ab_entries = []\<rparr>, own_uuid = [], sha = pad32, last_token = None, os_user = ''user'',
     platform_name = ''FreeBSD'', user_info_name = (\<lambda>_. None), json_map = (\<lambda>_. None), show_json_map = (\<lambda>_. []), random_u64 = 5,
     parse_token = (\<lambda>_. None), show_token = (\<lambda>_. None), parse_uuid = (\<lambda>_. None), terminal_admin_var = None,
     hw264 = False, hw265 = False, errno = 0\<rparr>"

definition plain_handler :: handler where
  "plain_handler = \<lparr>lc_id = ''123'', lc_conn_type = FILE_TRANSFER, is_terminal_admin = False, lc_hash = (''salt'', ''one''), lc_password = [],
     lc_tokenex = [], remember = False, lc_config = peer_default plain_defaults, lc_port_forward = ([], 0), lc_version = 0, lc_features = None,
     lc_session_id = 5, lc_supported_encoding = None, restarting_remote_device = False, force_relay = False, direct = None, received = False,
     switch_uuid = None, get_switch_uuid = None, adapter_luid = None, lc_mark_unsupported = [], selected_windows_session_id = None,
     lc_custom_fps = None, password_source = Undefined, shared_password = Some ''team'', record_state = False, record_permission = True\<rparr>"

lemma pad32_length: "\<forall>x. length (pad32 x) = 32"
  by (auto simp: pad32_def min_def)

lemma plain_penv: "vlt (penv plain_client) = tag_vault" "defaults (penv plain_client) = plain_defaults" "can_write (penv plain_client) p"
  by (simp_all add: plain_client_def plain_peer_env_def)

lemma default_storable: "storable V U (peer_default U)"
  by (simp add: storable_def peer_default_def deserialised_def serde_field_string_def deserialize_edge_thickness_def
      deserialize_custom_image_quality_def deserialize_trackpad_speed_def default_options_def SECRET_OPTIONS_def)

end
