(* ===== verification/Client_Credentials.thy ===== *)
theory Client_Credentials
  imports Client_Login Login_Security
begin

text \<open>
  Both ends of a login together: the client of \<open>Client_Login\<close> answers the challenge of a connection of
  \<open>Login_Session\<close>. The right password opens a session, a remembered one opens the next session under a new
  challenge, and a shared one is never kept. Both sides use the same hash function.
\<close>

section \<open>What the client sends\<close>

lemma load_config_frame:
  "load_config E s = (c, s') \<Longrightarrow> fst s' = fst s \<and> snd (snd s') = snd (snd s)"
  by (cases s) (auto simp: load_config_def Let_def split: prod.splits)

lemma supported_frame:
  assumes "get_supported_decoding E s = (d, s')"
  shows "fst s' = fst s \<and> snd (snd s') = snd (snd s)"
proof -
  obtain c s1 where l: "load_config E s = (c, s1)" by (metis surj_pair)
  have "s' = s \<or> s' = s1"
    using assms by (simp add: get_supported_decoding_def l Let_def split: if_splits)
  then show ?thesis using load_config_frame[OF l] by metis
qed

lemma quality_frame:
  assumes "quality_options E b s = (m, s')"
  shows "fst s' = fst s \<and> snd (snd s') = snd (snd s)"
proof -
  obtain c s1 where l: "load_config E s = (c, s1)" by (metis surj_pair)
  have "s' = s \<or> s' = s1"
    using assms by (simp add: quality_options_def l Let_def split: if_splits option.splits)
  then show ?thesis using load_config_frame[OF l] by metis
qed

lemma option_message_frame:
  assumes "get_option_message E b s = (m, s')"
  shows "fst s' = fst s \<and> snd (snd s') = snd (snd s)"
proof (cases "lc_conn_type (fst s) \<in> set [PORT_FORWARD, RDP, FILE_TRANSFER]")
  case True
  with assms show ?thesis by (auto simp: get_option_message_def)
next
  case False
  obtain q s1 where q: "quality_options E b s = (q, s1)" by (metis surj_pair)
  obtain d s2 where d: "get_supported_decoding E s1 = (d, s2)" by (metis surj_pair)
  show ?thesis using assms False q d quality_frame[OF q] supported_frame[OF d]
    by (auto simp: get_option_message_def)
qed

text \<open>The request that carries an answer.\<close>

definition request_of :: "client_env \<Rightarrow> handler \<Rightarrow> bytes \<Rightarrow> login_request" where
  "request_of E h ans = cl_request (fst (create_login_msg E [] [] ans (h, peer_store.make Map.empty {}, [])))"

lemma create_login:
  obtains m st' where "create_login_msg E a b p (h, st, out) =
    (\<lparr>cl_request = request_of E h p, cl_option = m, cl_os_login = (a, b), cl_avatar = get_option (own E) ''avatar''\<rparr>, h, st', out)"
proof -
  obtain m s' where m: "get_option_message E True (h, st, out) = (m, s')" by (metis surj_pair)
  have s': "s' = (h, fst (snd s'), out)" using option_message_frame[OF m] by (metis fst_conv prod.collapse snd_conv)
  obtain m0 s0 where m0: "get_option_message E True (h, peer_store.make Map.empty {}, []) = (m0, s0)" by (metis surj_pair)
  have "create_login_msg E a b p (h, st, out) =
      (\<lparr>cl_request = request_of E h p, cl_option = m, cl_os_login = (a, b), cl_avatar = get_option (own E) ''avatar''\<rparr>, s')"
    unfolding create_login_msg_def request_of_def m m0 by simp
  then show ?thesis using that s' by metis
qed

lemma request_of_simps [simp]:
  "lr_password (request_of E h p) = p" "username (request_of E h p) = lc_id h" "tokenex (request_of E h p) = login_token E"
  "lr_union (request_of E h p) = login_union_of E h"
  by (cases "get_option_message E True (h, peer_store.make Map.empty {}, [])";
      simp add: request_of_def create_login_msg_def)+

lemma send_login_sends:
  obtains l st' where "send_login E a b p (h, st, out) = (h, st', out @ [SendLogin l])" "cl_request l = request_of E h p"
    "cl_os_login l = (a, b)"
proof -
  obtain m st' where m: "create_login_msg E a b p (h, st, out) =
    (\<lparr>cl_request = request_of E h p, cl_option = m, cl_os_login = (a, b), cl_avatar = get_option (own E) ''avatar''\<rparr>, h, st', out)"
    by (rule create_login)
  let ?l = "\<lparr>cl_request = request_of E h p, cl_option = m, cl_os_login = (a, b), cl_avatar = get_option (own E) ''avatar''\<rparr>"
  show ?thesis by (rule that[where l = ?l and st' = st']) (simp_all add: send_login_def m)
qed

lemma sent_frame [simp]: "fst (send_login E a b p (h, st, out)) = h" "fst (send_switch_login_request E u (h, st, out)) = h"
proof -
  obtain l st' where "send_login E a b p (h, st, out) = (h, st', out @ [SendLogin l])" by (rule send_login_sends)
  then show "fst (send_login E a b p (h, st, out)) = h" by simp
  obtain m st' where "create_login_msg E [] [] [] (h, st, out) =
    (\<lparr>cl_request = request_of E h [], cl_option = m, cl_os_login = ([], []), cl_avatar = get_option (own E) ''avatar''\<rparr>, h, st', out)"
    by (rule create_login)
  then show "fst (send_switch_login_request E u (h, st, out)) = h" by (simp add: send_switch_login_request_def)
qed

section \<open>What the server admits\<close>

text \<open>Everything but the password: the checks that come before it.\<close>

definition admits :: "login_env \<Rightarrow> login_request \<Rightarrow> connection \<Rightarrow> Login_Session.server \<Rightarrow> bool" where
  "admits E r c g \<longleftrightarrow>
    require_2fa c = None \<and> desktop_err E = [] \<and> (host_str E (username r) \<or> username r = cfg_id (conf g)) \<and>
    \<not> click_only E (conf g) \<and> get_option (conf g) ''sso-login'' \<noteq> ''true'' \<and> (tokenex r = [] \<or> \<not> team_file E) \<and>
    fst (handle_union E (lr_union r) (c\<lparr>lr := r\<rparr>, g)) \<and> snd (fst (check_failure E 0 (c\<lparr>lr := r\<rparr>, g)))"

definition password_set :: "config \<Rightarrow> string \<Rightarrow> bool" where
  "password_set cf pw \<longleftrightarrow> pw \<noteq> [] \<and>
    (permanent_enabled cf \<and> permanent_password cf = pw \<or> temporary_enabled cf \<and> temporary_password cf = pw)"

lemma validate_right_password:
  assumes "get_option (conf g) ''sso-login'' \<noteq> ''true''" "tokenex (lr c) = [] \<or> \<not> team_file E"
    and "password_set (conf g) pw" "hash_matches E c pw"
  obtains g' where "validate_password E (c, g) = (True, c, g')" "conf g' = conf g"
proof -
  obtain ok1 c1 g1 where one: "(if temporary_enabled (conf g) then validate_one_password E (temporary_password (conf g)) (c, g) else (False, c, g)) = (ok1, c1, g1)"
    by (metis prod_cases3)
  have c1: "c1 = c \<and> conf g1 = conf g" "ok1 \<longleftrightarrow> temporary_enabled (conf g) \<and> temporary_password (conf g) \<noteq> [] \<and> hash_matches E c (temporary_password (conf g))"
    using one validate_one_password_conn[of E "temporary_password (conf g)" c g ok1 c1 g1] by (auto split: if_splits)
  show ?thesis
  proof (cases ok1)
    case True
    show ?thesis
      by (rule that[of "update_or_insert_session (instant E) (key_of c) (Some (temporary_password (conf g))) (Some False) g1"])
        (use True assms(1,2) one c1 in \<open>auto simp: validate_password_def Let_def update_or_insert_frame\<close>)
  next
    case False
    then have perm: "permanent_enabled (conf g)" "permanent_password (conf g) = pw" "pw \<noteq> []"
      using c1(2) assms(3,4) by (auto simp: password_set_def)
    obtain ok2 c2 g2 where v: "validate_one_password E pw (c, g1) = (ok2, c2, g2)" by (metis prod_cases3)
    from validate_one_password_conn[OF v] perm assms(4) c1 have "ok2" "c2 = c" "conf g2 = conf g" by auto
    then show ?thesis
      by (intro that[of g2]) (use False assms(1,2) one c1 perm v in \<open>auto simp: validate_password_def Let_def\<close>)
  qed
qed

lemma logon_sent:
  assumes "require_2fa c = None"
  shows "Login_Session.authorized (fst (let (c, g) = send_logon_response E (c, g) in try_start_cm a b (Login_Session.authorized c) (c, g)))"
  using logon_authorizes[of c E g] assms by (simp add: case_prod_unfold)

lemma right_password_admitted:
  assumes "admits E r c g" "password_set (conf g) pw" "hash_matches E (c\<lparr>lr := r\<rparr>) pw" "lr_password r \<noteq> []"
  shows "Login_Session.authorized (fst (snd (on_login_request E r (c, g))))"
proof (cases "Login_Session.authorized c")
  case True
  then show ?thesis using assms(1) by (simp add: on_login_request_def handle_login_request_without_validation_def admits_def)
next
  case False
  let ?c = "c\<lparr>lr := r\<rparr>"
  note a = assms(1)[unfolded admits_def]
  have rr: "handle_login_request_without_validation E r (c, g) = (?c, g)"
    using a by (simp add: handle_login_request_without_validation_def)
  obtain c2 g2 where hu: "handle_union E (lr_union r) (?c, g) = (True, c2, g2)"
    using a by (metis fst_conv prod_cases3)
  note u = union_handled[OF hu]
  obtain ok c3 g3 where rs: "is_recent_session E False (c2, g2) = (ok, c3, g3)" by (metis prod_cases3)
  note f = is_recent_session_conn[OF rs]
  have c3: "c3 = c2" "conf g3 = conf g" "require_2fa c3 = None" "lr c3 = r" "login_failures g3 = login_failures g" "ip c3 = ip c"
    using u f a by (auto simp: same_server_def same_conn_def)
  have hm: "hash_matches E c3 = hash_matches E ?c"
    using u c3 by (auto simp: same_conn_def hash_matches_def fun_eq_iff)
  obtain fl where cf: "check_failure E 0 (c3, g3) = ((fl, True), c3, g3)"
    using a c3 by (auto simp: check_failure_def Let_def split: if_splits prod.splits)
  obtain g4 where v: "validate_password E (c3, g3) = (True, c3, g4)" "conf g4 = conf g"
    by (rule validate_right_password[of g3 c3 E pw]) (use a assms(2,3) c3 hm in auto)
  obtain g5 where uf: "update_failure fl True 0 (c3, g4) = (c3, g5)" by (metis update_failure_frame)
  have "Login_Session.authorized (fst (login_by_password E r (c3, g3)))"
    using a logon_sent[OF c3(3)] by (simp add: login_by_password_def cf v uf)
  then show ?thesis
    using False a u c3 logon_sent[OF c3(3)] assms(4)
    by (simp add: on_login_request_def rr hu rs same_conn_def split: prod.splits)
qed

section \<open>Logging in\<close>

text \<open>The answer to the challenge of a connection is the one its password check computes.\<close>

lemma answer_matches:
  assumes "sha256 SE = sha CE" "hash = (hash_salt c, hash_challenge c)"
    and "lr_password r = challenge_answer CE (password_hash CE pw hash) hash"
  shows "hash_matches SE (c\<lparr>lr := r\<rparr>) pw"
  using assms by (simp add: hash_matches_def challenge_answer_def password_hash_def)

lemma handle_login_from_ui_typed:
  assumes "pw \<noteq> []"
  obtains l st' where "handle_login_from_ui CE ou op pw rem (h, st, out) =
      (h\<lparr>password_source := Undefined, lc_password := password_hash CE pw (lc_hash h), remember := rem\<rparr>, st', out @ [SendLogin l])"
    "cl_request l = request_of CE (h\<lparr>password_source := Undefined, lc_password := password_hash CE pw (lc_hash h), remember := rem\<rparr>)
      (challenge_answer CE (password_hash CE pw (lc_hash h)) (lc_hash h))"
proof -
  let ?h = "h\<lparr>password_source := Undefined, lc_password := password_hash CE pw (lc_hash h), remember := rem\<rparr>"
  obtain l st' where l: "send_login CE ou op (challenge_answer CE (password_hash CE pw (lc_hash h)) (lc_hash h)) (?h, st, out)
      = (?h, st', out @ [SendLogin l])" "cl_request l = request_of CE ?h (challenge_answer CE (password_hash CE pw (lc_hash h)) (lc_hash h))"
    by (rule send_login_sends)
  show ?thesis
    by (rule that[of st' l]) (use assms l in \<open>simp_all add: handle_login_from_ui_def on_handler_def Let_def\<close>)
qed

text \<open>
  C26. The right password opens a session: what the client sends when the user types the password of the
  machine is accepted by it, whatever the salt and the challenge, unless something else than the password
  stands against the login.
\<close>

theorem correct_password_logs_in:
  assumes "sha256 SE = sha CE" and "\<forall>x. length (sha CE x) = 32"
    and "lc_hash h = (hash_salt c, hash_challenge c)" and "password_set (conf g) pw"
    and "handle_login_from_ui CE ou op pw rem (h, st, out) = (h', st', out')"
  shows "\<exists>l. out' = out @ [SendLogin l] \<and>
    cl_request l = request_of CE h' (challenge_answer CE (password_hash CE pw (lc_hash h)) (lc_hash h)) \<and>
    (admits SE (cl_request l) c g \<longrightarrow> Login_Session.authorized (fst (snd (on_login_request SE (cl_request l) (c, g)))))"
proof -
  have "pw \<noteq> []" using assms(4) by (simp add: password_set_def)
  from handle_login_from_ui_typed[OF this, of CE ou op rem h st out] obtain l where
    l: "out' = out @ [SendLogin l]" "cl_request l = request_of CE h' (challenge_answer CE (password_hash CE pw (lc_hash h)) (lc_hash h))"
    using assms(5) by (metis (no_types) prod.inject)
  have pw: "lr_password (cl_request l) = challenge_answer CE (password_hash CE pw (lc_hash h)) (lc_hash h)" by (simp add: l(2))
  have "hash_matches SE (c\<lparr>lr := cl_request l\<rparr>) pw" by (rule answer_matches[OF assms(1,3) pw])
  moreover have "lr_password (cl_request l) \<noteq> []" using pw assms(2) by (metis challenge_answer_def list.size(3) zero_neq_numeral)
  ultimately show ?thesis using right_password_admitted[OF _ assms(4)] l by blast
qed

section \<open>Remembering\<close>

lemma handle_hash_plain:
  assumes "switch_uuid h = None" "choose_password E preset hash (h\<lparr>lc_hash := hash, switch_uuid := None\<rparr>) = (p, src)"
    and "\<not> (lc_conn_type h = TERMINAL \<and> is_terminal_admin h)" "p \<noteq> []"
  obtains l st' where "handle_hash E preset hash (h, st, out) =
      (h\<lparr>lc_hash := hash, switch_uuid := None, shared_password := None, password_source := src, lc_password := p\<rparr>, st', out @ [SendLogin l])"
    "cl_request l = request_of E (h\<lparr>lc_hash := hash, switch_uuid := None, shared_password := None, password_source := src, lc_password := p\<rparr>)
      (challenge_answer E p hash)"
proof -
  let ?h = "h\<lparr>lc_hash := hash, switch_uuid := None, shared_password := None, password_source := src, lc_password := p\<rparr>"
  let ?os = "if lc_conn_type h = TERMINAL then ([], []) else (lc_get_option h ''os-username'', lc_get_option h ''os-password'')"
  obtain l st' where l: "send_login E (fst ?os) (snd ?os) (challenge_answer E p hash) (?h, st, out) = (?h, st', out @ [SendLogin l])"
    "cl_request l = request_of E ?h (challenge_answer E p hash)"
    by (rule send_login_sends)
  have o: "lc_get_option ?h k = lc_get_option h k" for k by (simp add: lc_get_option_def)
  have "handle_hash E preset hash (h, st, out) = send_login E (fst ?os) (snd ?os) (challenge_answer E p hash) (?h, st, out)"
    using assms by (simp add: handle_hash_def on_handler_def Let_def o)
  then show ?thesis using that l by simp
qed

lemma storable_password:
  assumes "storable V U c" "length p \<le> ENCRYPT_MAX_LEN" "\<not> fst (snd (decrypt_vec_or_original V p PASSWORD_ENC_VERSION))"
  shows "storable V U (c\<lparr>pc_info := i, pc_password := p, pc_keyboard_mode := k\<rparr>)"
  using assms by (cases c) (simp add: storable_def deserialised_def)

lemma load_config_id: "lc_id h = lc_id h' \<Longrightarrow> fst (load_config E (h, st, out)) = fst (load_config E (h', st, out'))"
  by (simp add: load_config_def split: prod.splits)

text \<open>What the client keeps when the peer lets it in.\<close>

lemma handle_peer_info_saves:
  fixes pinfo :: peer_info and h :: handler and E :: client_env and st :: peer_store and out :: "client_out list"
  defines "c \<equiv> fst (peer_load (penv E) (lc_id h) st)" and "st1 \<equiv> snd (peer_load (penv E) (lc_id h) st)"
  defines "c' \<equiv> c\<lparr>pc_info := \<lparr>info_username = pi_username pinfo, info_hostname = pi_hostname pinfo, info_platform = pi_platform pinfo\<rparr>,
      pc_password := kept_password E h (pc_password c), pc_keyboard_mode := kept_keyboard_mode pinfo (pc_keyboard_mode c)\<rparr>"
  shows "fst (snd (handle_peer_info E pinfo (h, st, out))) = peer_store_config (penv E) (lc_id h) c' st1"
    and "lc_config (fst (handle_peer_info E pinfo (h, st, out))) = c'"
  unfolding c'_def c_def st1_def
  by (cases "peer_load (penv E) (lc_id h) st";
      simp add: handle_peer_info_def Let_def on_handler_def load_config_def save_config_def kept_password_def)+

lemma initialize_stored:
  assumes "peer_load (penv E) i st = (c, st')" "lc_password h = []"
  obtains h' where "initialize E i ct None relay luid None None tok (h, st, out) = (h', st', out)"
    "lc_id h' = i" "lc_password h' = []" "lc_config h' = c" "shared_password h' = None" "switch_uuid h' = None"
    "remember h' \<longleftrightarrow> pc_password c \<noteq> []" "is_terminal_admin h' \<longleftrightarrow> ct = TERMINAL \<and> terminal_admin_var E = Some ''Y''"
proof -
  let ?x = "initialize E i ct None relay luid None None tok (h, st, out)"
  show ?thesis
    by (rule that[of "fst ?x"])
      (use assms in \<open>simp_all add: initialize_def load_config_def on_handler_def Let_def prod_eq_iff case_prod_unfold split: if_split\<close>)
qed

lemma choose_stored:
  assumes "lc_password h = []" "shared_password h = None" "pc_password (lc_config h) \<noteq> []"
  shows "choose_password E [] hash h = (pc_password (lc_config h), Undefined)"
  using assms by (simp add: choose_password_def)

text \<open>The file that a typed password leaves behind.\<close>

lemma remembered_file:
  fixes CE :: client_env and pinfo :: peer_info
  defines "V \<equiv> vlt (penv CE)"
  assumes "vault_ok V" "can_write (penv CE) (peer_path V (lc_id h))" "length H \<le> ENCRYPT_MAX_LEN" "H \<noteq> []"
    and "\<not> fst (snd (decrypt_vec_or_original V H PASSWORD_ENC_VERSION))"
    and "storable V (defaults (penv CE)) (fst (peer_load (penv CE) (lc_id h) st1))"
    and "handle_peer_info CE pinfo (h\<lparr>password_source := Undefined, lc_password := H, remember := True\<rparr>, st1, out1) = (h2, st2, out2)"
    and "vlt (penv CE') = V" "defaults (penv CE') = defaults (penv CE)"
  obtains c' where "peer_load (penv CE') (lc_id h) st2 = (c', snd (peer_load (penv CE') (lc_id h) st2))" "pc_password c' = H"
proof -
  let ?h1 = "h\<lparr>password_source := Undefined, lc_password := H, remember := True\<rparr>"
  define c0 where "c0 = fst (peer_load (penv CE) (lc_id h) st1)"
  have kept: "kept_password CE ?h1 (pc_password c0) = H" using assms(5) by (simp add: kept_password_def)
  define c' where "c' = c0\<lparr>pc_info := \<lparr>info_username = pi_username pinfo, info_hostname = pi_hostname pinfo, info_platform = pi_platform pinfo\<rparr>,
      pc_password := H, pc_keyboard_mode := kept_keyboard_mode pinfo (pc_keyboard_mode c0)\<rparr>"
  have st2: "st2 = peer_store_config (penv CE) (lc_id h) c' (snd (peer_load (penv CE) (lc_id h) st1))"
    using handle_peer_info_saves(1)[of CE pinfo ?h1 st1 out1] assms(8) kept by (simp add: c'_def c0_def)
  have "storable V (defaults (penv CE)) c'"
    unfolding c'_def by (rule storable_password) (use assms(4,6,7) in \<open>simp_all add: c0_def\<close>)
  from load_stored[of "penv CE" c' "lc_id h"] this assms(2,3) have "fst (peer_load (penv CE) (lc_id h) st2) = c'"
    by (simp add: st2 V_def)
  then show ?thesis
    by (intro that[of c']) (use assms(9,10) in \<open>simp_all add: peer_load_def prod_eq_iff c'_def V_def split: option.splits prod.splits\<close>)
qed

text \<open>
  C27. A remembered password opens later sessions: after the user typed the password, asked for it to be
  remembered and was let in, a new session of the same peer answers the next challenge from its file, without a
  dialog, and a machine with the same salt and password accepts it. The second connection may be of another kind,
  other than a terminal of the administrator.
\<close>

theorem remembered_password_logs_in:
  assumes "vault_ok (vlt (penv CE))" and "can_write (penv CE) (peer_path (vlt (penv CE)) (lc_id h))"
    and "\<forall>x. length (sha CE x) = 32" and "pw \<noteq> []" and "lc_hash h = (slt, chal)"
    and "\<not> fst (snd (decrypt_vec_or_original (vlt (penv CE)) (password_hash CE pw (slt, chal)) PASSWORD_ENC_VERSION))"
    and "handle_login_from_ui CE ou op pw True (h, st, out) = (h1, st1, out1)"
    and "storable (vlt (penv CE)) (defaults (penv CE)) (fst (peer_load (penv CE) (lc_id h) st1))"
    and "handle_peer_info CE pinfo (h1, st1, out1) = (h2, st2, out2)"
    and "vlt (penv CE') = vlt (penv CE)" and "defaults (penv CE') = defaults (penv CE)" and "sha CE' = sha CE"
    and "lc_password h0 = []" and "\<not> (ct = TERMINAL \<and> terminal_admin_var CE' = Some ''Y'')"
    and "handle_hash CE' [] (slt, chal') (initialize CE' (lc_id h) ct None relay luid None None tok (h0, st2, [])) = (h4, st4, out4)"
    and "sha256 SE = sha CE" and "hash_salt c = slt" and "hash_challenge c = chal'" and "password_set (conf g) pw"
  shows "\<exists>l. out4 = [SendLogin l] \<and>
    cl_request l = request_of CE' h4 (challenge_answer CE (password_hash CE pw (slt, chal)) (slt, chal')) \<and>
    (admits SE (cl_request l) c g \<longrightarrow> Login_Session.authorized (fst (snd (on_login_request SE (cl_request l) (c, g)))))"
proof -
  let ?H = "password_hash CE pw (slt, chal)" and ?st = "snd (peer_load (penv CE') (lc_id h) st2)"
  have H: "?H \<noteq> []" "length ?H \<le> ENCRYPT_MAX_LEN" "?H = password_hash CE' pw (slt, chal')"
    using assms(3,12) by (auto simp: password_hash_def ENCRYPT_MAX_LEN_def) (metis list.size(3) zero_neq_numeral)
  have h1: "h1 = h\<lparr>password_source := Undefined, lc_password := ?H, remember := True\<rparr>"
    using handle_login_from_ui_typed[OF assms(4), of CE ou op True h st out] assms(5,7) by (metis (no_types) prod.inject)
  obtain c' where c': "peer_load (penv CE') (lc_id h) st2 = (c', ?st)" "pc_password c' = ?H"
    by (rule remembered_file[OF assms(1,2) H(2,1) assms(6,8) _ assms(10,11)]) (use assms(9) h1 in auto)
  obtain h3 where h3: "initialize CE' (lc_id h) ct None relay luid None None tok (h0, st2, []) = (h3, ?st, [])"
    "lc_password h3 = []" "lc_config h3 = c'" "shared_password h3 = None" "switch_uuid h3 = None"
    "is_terminal_admin h3 \<longleftrightarrow> ct = TERMINAL \<and> terminal_admin_var CE' = Some ''Y''"
    by (rule initialize_stored[OF c'(1) assms(13)]) blast
  let ?h4 = "h3\<lparr>lc_hash := (slt, chal'), switch_uuid := None, shared_password := None, password_source := Undefined, lc_password := ?H\<rparr>"
  have "choose_password CE' [] (slt, chal') (h3\<lparr>lc_hash := (slt, chal'), switch_uuid := None\<rparr>) = (?H, Undefined)"
    using choose_stored[of "h3\<lparr>lc_hash := (slt, chal'), switch_uuid := None\<rparr>"] h3 H(1) c'(2) by simp
  moreover have "\<not> (lc_conn_type h3 = TERMINAL \<and> is_terminal_admin h3)" using h3(6) assms(14) by simp
  ultimately obtain l st' where l: "handle_hash CE' [] (slt, chal') (h3, ?st, []) = (?h4, st', [] @ [SendLogin l])"
    "cl_request l = request_of CE' ?h4 (challenge_answer CE' ?H (slt, chal'))"
    using handle_hash_plain[OF h3(5) _ _ H(1)] by metis
  have pw: "lr_password (cl_request l) = challenge_answer CE' ?H (slt, chal')" by (simp add: l(2))
  have "hash_matches SE (c\<lparr>lr := cl_request l\<rparr>) pw"
    using answer_matches[of SE CE' "(slt, chal')" c "cl_request l" pw] pw H(3) assms(12,16-18) by simp
  moreover have "lr_password (cl_request l) \<noteq> []"
    using pw assms(3,12) by (metis challenge_answer_def list.size(3) zero_neq_numeral)
  moreover have "out4 = [SendLogin l]" "cl_request l = request_of CE' h4 (challenge_answer CE ?H (slt, chal'))"
    using l h3(1) assms(12,15) by (auto simp: challenge_answer_def)
  ultimately show ?thesis using right_password_admitted[OF _ assms(19)] by blast
qed

section \<open>Shared passwords\<close>

lemma choose_source:
  assumes "choose_password E preset hash h = (p, SharedAb q)"
    and "\<forall>q'. password_source h = SharedAb q' \<longrightarrow> lc_password h = [] \<or> lc_password h = password_hash E q' hash"
  shows "p = [] \<or> p = password_hash E q hash"
  using assms by (auto simp: choose_password_def Let_def split: if_splits option.splits prod.splits)

fun_cases is_personal_abE: "is_personal_ab s p"

text \<open>A password gets into the file only from the file, or on the user's wish, or from a personal address book.\<close>

lemma kept_password_origin:
  assumes "kept_password E h x \<noteq> []"
  shows "remember h \<and> kept_password E h x = x \<or> kept_password E h x = lc_password h \<and>
    (remember h \<and> \<not> is_shared_ab E (password_source h) (lc_password h) (lc_hash h) \<or> password_source h = PersonalAb (lc_password h))"
  using assms by (auto simp: kept_password_def split: if_splits elim: is_personal_abE)

text \<open>When the password of a login came from a shared address book or from the built-in default, letting the
  client in leaves the stored password as it was, or removes it when the user does not want to be remembered.\<close>

lemma shared_login_keeps_file:
  assumes "handle_hash E preset hash (h, st, out) = (h1, st1, out1)" and "password_source h1 = SharedAb q"
    and "\<forall>q'. password_source h = SharedAb q' \<longrightarrow> lc_password h = [] \<or> lc_password h = password_hash E q' hash"
    and "handle_peer_info E pinfo (h1, st1, out1) = (h2, st2, out2)"
  shows "pc_password (lc_config h2) = (if remember h then pc_password (fst (peer_load (penv E) (lc_id h) st1)) else [])"
proof -
  let ?h = "h\<lparr>lc_hash := hash, switch_uuid := None\<rparr>"
  obtain p src where ch: "choose_password E preset hash ?h = (p, src)" by (metis surj_pair)
  have "h1 = fst (handle_hash E preset hash (h, st, out))" using assms(1) by simp
  moreover have uuid: "(case switch_uuid h of Some u \<Rightarrow> parse_uuid E u | None \<Rightarrow> None) = None"
  proof (rule ccontr)
    assume "\<not> ?thesis"
    then obtain u where "(case switch_uuid h of Some u \<Rightarrow> parse_uuid E u | None \<Rightarrow> None) = Some u" by auto
    then have "password_source (fst (handle_hash E preset hash (h, st, out))) = Undefined"
      using sent_frame(2)[of E u ?h st out]
      by (cases "send_switch_login_request E u (?h, st, out)") (simp add: handle_hash_def on_handler_def)
    then show False using assms(1,2) by simp
  qed
  ultimately have h1: "h1 = ?h\<lparr>shared_password := None, password_source := src, lc_password := p\<rparr>"
    unfolding handle_hash_def Let_def on_handler_def prod.case uuid option.case fst_conv ch
    by (simp add: msgbox_def split: if_splits)
  have "p = [] \<or> p = password_hash E q hash"
    by (rule choose_source[of E preset hash ?h]) (use ch h1 assms(2,3) in auto)
  then have "kept_password E h1 x = (if remember h then x else [])" for x
    using h1 assms(2) by (auto simp: kept_password_def)
  then show ?thesis
    using handle_peer_info_saves(2)[of E pinfo h1 st1 out1] assms(4) by (simp add: h1)
qed

subsection \<open>Whole logins\<close>

text \<open>What happens until the peer lets the client in: challenges, errors, and the dialog.\<close>

datatype login_event =
    Challenged string "string \<times> string"
  | Refused string
  | Typed string string string bool

fun login_step :: "client_env \<Rightarrow> login_event \<Rightarrow> client \<Rightarrow> client" where
  "login_step E (Challenged preset hash) s = handle_hash E preset hash s"
| "login_step E (Refused err) s = snd (handle_login_error E err s)"
| "login_step E (Typed ou op pw rem) s = handle_login_from_ui E ou op pw rem s"

fun login_run :: "client_env \<Rightarrow> login_event list \<Rightarrow> client \<Rightarrow> client" where
  "login_run E [] s = s"
| "login_run E (e # es) s = login_run E es (login_step E e s)"

fun same_salt :: "string \<Rightarrow> login_event \<Rightarrow> bool" where
  "same_salt S (Challenged preset hash) \<longleftrightarrow> fst hash = S"
| "same_salt S _ \<longleftrightarrow> True"

text \<open>The passwords that are the user's own: what the file of the peer has on the way, what is typed, and
  what the program was started with.\<close>

definition in_file :: "client_env \<Rightarrow> client \<Rightarrow> bytes" where
  "in_file E s = pc_password (fst (peer_load (penv E) (lc_id (fst s)) (fst (snd s))))"

fun from_user :: "client_env \<Rightarrow> login_event \<Rightarrow> handler \<Rightarrow> bytes set" where
  "from_user E (Challenged preset hash) h = (if preset = [] then {} else {password_hash E preset hash})"
| "from_user E (Typed ou op pw rem) h = (if pw = [] then {} else {password_hash E pw (lc_hash h)})"
| "from_user E (Refused err) h = {}"

fun own_passwords :: "client_env \<Rightarrow> login_event list \<Rightarrow> client \<Rightarrow> bytes set" where
  "own_passwords E [] s = {in_file E s}"
| "own_passwords E (e # es) s = insert (in_file E s) (from_user E e (fst s)) \<union> own_passwords E es (login_step E e s)"

text \<open>The password of the last attempt is one of \<open>A\<close>, or a shared one that is known as such.\<close>

definition accounted :: "client_env \<Rightarrow> string \<Rightarrow> string \<Rightarrow> bytes set \<Rightarrow> handler \<Rightarrow> bool" where
  "accounted E i S A h \<longleftrightarrow> lc_id h = i \<and> switch_uuid h = None \<and> pc_password (lc_config h) \<in> A \<and>
    (lc_password h \<in> A \<or>
     (\<exists>q. password_source h = SharedAb q \<and> lc_password h = password_hash E q (lc_hash h) \<and> fst (lc_hash h) = S))"

lemma password_hash_salt: "fst hash = fst hash' \<Longrightarrow> password_hash E p hash = password_hash E p hash'"
  by (simp add: password_hash_def)

lemma handle_hash_handler:
  assumes "switch_uuid h = None" and "choose_password E preset hash (h\<lparr>lc_hash := hash, switch_uuid := None\<rparr>) = (p, src)"
  shows "fst (handle_hash E preset hash (h, st, out)) =
    h\<lparr>lc_hash := hash, switch_uuid := None, shared_password := None, password_source := src, lc_password := p\<rparr>"
  unfolding handle_hash_def Let_def on_handler_def prod.case assms option.case fst_conv
  by (simp add: msgbox_def)

lemma choose_accounted:
  assumes "choose_password E preset hash h = (p, src)" and "[] \<in> A" and "pc_password (lc_config h) \<in> A"
    and "preset \<noteq> [] \<Longrightarrow> password_hash E preset hash \<in> A" and "\<And>x. try_get_password_from_personal_ab E (lc_id h) = Some x \<Longrightarrow> x \<in> A"
    and "lc_password h \<in> A \<or> (\<exists>q. password_source h = SharedAb q \<and> lc_password h = password_hash E q hash)"
  shows "p \<in> A \<or> (\<exists>q. src = SharedAb q \<and> p = password_hash E q hash)"
  using assms by (auto simp: choose_password_def Let_def split: if_splits option.splits prod.splits)

lemma typed_handler:
  "fst (handle_login_from_ui E ou op pw rem (h, st, out)) =
    (if pw = [] then
       (if lc_password h = [] \<and> pc_password (lc_config h) \<noteq> []
        then h\<lparr>password_source := Undefined, lc_password := pc_password (lc_config h)\<rparr> else h)
     else h\<lparr>password_source := Undefined, lc_password := password_hash E pw (lc_hash h), remember := rem\<rparr>)"
  by (simp add: handle_login_from_ui_def on_handler_def Let_def)

lemma refused_handler:
  "\<exists>c. fst (snd (handle_login_error E err (h, st, out))) = h\<lparr>lc_password := []\<rparr>
    \<or> fst (snd (handle_login_error E err (h, st, out))) = h
    \<or> fst (snd (handle_login_error E err (h, st, out))) = h\<lparr>lc_config := c\<rparr> \<and> pc_password c = in_file E (h, st, out)"
proof -
  let ?f = "\<lambda>c. c\<lparr>pc_options := (pc_options c)(''trust-this-device'' \<mapsto> [])\<rparr>"
  obtain c st' where l: "peer_load (penv E) (lc_id h) st = (c, st')" by (metis surj_pair)
  have "fst (lc_set_option E ''trust-this-device'' [] (h, st, out)) = h\<lparr>lc_config := ?f c\<rparr>"
    by (simp add: lc_set_option_def change_config_def load_config_def save_config_def l)
  moreover have "pc_password (?f c) = in_file E (h, st, out)" by (simp add: in_file_def l)
  moreover have m: "fst (msgbox a b x y s) = fst s" for a b x y s by (cases s) (simp add: msgbox_def)
  moreover consider "err = LOGIN_MSG_PASSWORD_EMPTY \<or> err = LOGIN_MSG_PASSWORD_WRONG"
    | "err \<noteq> LOGIN_MSG_PASSWORD_EMPTY" "err \<noteq> LOGIN_MSG_PASSWORD_WRONG" "err = LOGIN_MSG_2FA_WRONG \<or> err = REQUIRE_2FA"
    | "err \<noteq> LOGIN_MSG_PASSWORD_EMPTY" "err \<noteq> LOGIN_MSG_PASSWORD_WRONG" "\<not> (err = LOGIN_MSG_2FA_WRONG \<or> err = REQUIRE_2FA)" by blast
  then show ?thesis
  proof cases
    case 1
    then have "fst (snd (handle_login_error E err (h, st, out))) = h\<lparr>lc_password := []\<rparr>"
      by (auto simp: handle_login_error_def on_handler_def m)
    then show ?thesis by blast
  next
    case 2
    then have "fst (snd (handle_login_error E err (h, st, out))) = h
        \<or> fst (snd (handle_login_error E err (h, st, out))) = fst (lc_set_option E ''trust-this-device'' [] (h, st, out))"
      by (simp add: handle_login_error_def m)
    then show ?thesis using calculation(1,2) by metis
  next
    case 3
    then have "fst (snd (handle_login_error E err (h, st, out))) = h"
      by (simp add: handle_login_error_def m split: option.split prod.split)
    then show ?thesis by blast
  qed
qed

lemma step_accounted:
  assumes "accounted E i S A h" and "[] \<in> A" and "\<And>x. try_get_password_from_personal_ab E i = Some x \<Longrightarrow> x \<in> A"
    and "same_salt S e" and "from_user E e h \<subseteq> A" and "in_file E (h, st, out) \<in> A"
  shows "accounted E i S A (fst (login_step E e (h, st, out)))"
proof (cases e)
  case (Challenged preset hash)
  let ?h = "h\<lparr>lc_hash := hash, switch_uuid := None\<rparr>"
  obtain p src where c: "choose_password E preset hash ?h = (p, src)" by (metis surj_pair)
  have u: "switch_uuid h = None" "lc_id h = i" using assms(1) by (simp_all add: accounted_def)
  have S: "fst hash = S" using assms(4) Challenged by simp
  have "p \<in> A \<or> (\<exists>q. src = SharedAb q \<and> p = password_hash E q hash)"
  proof (rule choose_accounted[OF c])
    show "lc_password ?h \<in> A \<or> (\<exists>q. password_source ?h = SharedAb q \<and> lc_password ?h = password_hash E q hash)"
      using assms(1) S password_hash_salt[of "lc_hash h" hash E] by (auto simp: accounted_def)
  qed (use assms Challenged u in \<open>auto simp: accounted_def split: if_splits\<close>)
  then show ?thesis
    using assms(1) S by (auto simp: Challenged handle_hash_handler[OF u(1) c] accounted_def)
next
  case (Refused err)
  then show ?thesis using refused_handler[of E err h st out] assms(1,2,6) by (auto simp: accounted_def)
next
  case (Typed ou op pw rem)
  then show ?thesis using assms(1,5) by (auto simp: typed_handler accounted_def split: if_splits)
qed

lemma run_accounted:
  assumes "[] \<in> A" and "\<And>x. try_get_password_from_personal_ab E i = Some x \<Longrightarrow> x \<in> A"
  shows "accounted E i S A (fst s) \<Longrightarrow> list_all (same_salt S) es \<Longrightarrow> own_passwords E es s \<subseteq> A \<Longrightarrow>
    accounted E i S A (fst (login_run E es s)) \<and> in_file E (login_run E es s) \<in> A"
proof (induction es arbitrary: s)
  case (Cons e es)
  obtain h st out where s: "s = (h, st, out)" by (cases s)
  have "accounted E i S A (fst (login_step E e s))"
    unfolding s by (rule step_accounted[OF _ assms]) (use Cons.prems s in auto)
  then show ?case using Cons by simp
qed simp

lemma kept_accounted:
  assumes "accounted E i S A h" and "[] \<in> A" and "x \<in> A"
  shows "kept_password E h x \<in> A"
  using assms by (auto simp: accounted_def kept_password_def elim: is_personal_abE split: if_splits)


text \<open>
  Two ways around it. A peer that changes its salt between two challenges: the hash of the shared password no longer
  looks like one. And a peer that is asked to switch sides, which makes the client forget where the password came from.
\<close>

lemma new_salt_keeps_shared:
  assumes "remember h" and "switch_uuid h = None" and "shared_password h = None" and "password_source h = SharedAb q"
    and "lc_password h = password_hash E q (lc_hash h)" and "lc_password h \<noteq> []" and "password_hash E q hash \<noteq> lc_password h"
    and "handle_hash E preset hash (h, st, out) = (h1, st1, out1)" and "handle_peer_info E pinfo (h1, st1, out1) = (h2, st2, out2)"
  shows "pc_password (lc_config h2) = password_hash E q (lc_hash h)"
proof -
  have "choose_password E preset hash (h\<lparr>lc_hash := hash, switch_uuid := None\<rparr>) = (lc_password h, SharedAb q)"
    using assms(3,4,6) by (simp add: choose_password_def)
  from handle_hash_handler[OF assms(2) this, of st out] assms(8)
  have "h1 = h\<lparr>lc_hash := hash, switch_uuid := None, shared_password := None, password_source := SharedAb q, lc_password := lc_password h\<rparr>"
    by simp
  then have "kept_password E h1 x = lc_password h" for x using assms(1,5,6,7) by (auto simp: kept_password_def)
  then show ?thesis using handle_peer_info_saves(2)[of E pinfo h1 st1 out1] assms(5,9) by simp
qed

lemma switched_sides_keeps_shared:
  assumes "remember h" and "switch_uuid h = Some u" and "parse_uuid E u = Some v" and "lc_password h \<noteq> []"
    and "handle_hash E preset hash (h, st, out) = (h1, st1, out1)" and "handle_peer_info E pinfo (h1, st1, out1) = (h2, st2, out2)"
  shows "pc_password (lc_config h2) = lc_password h"
proof -
  let ?h = "h\<lparr>lc_hash := hash, switch_uuid := None\<rparr>"
  have "h1 = ?h\<lparr>password_source := Undefined\<rparr>"
    using sent_frame(2)[of E v ?h st out] assms(2,3,5)
    by (cases "send_switch_login_request E v (?h, st, out)") (simp add: handle_hash_def on_handler_def)
  then have "kept_password E h1 x = lc_password h" for x using assms(1,4) by (auto simp: kept_password_def)
  then show ?thesis using handle_peer_info_saves(2)[of E pinfo h1 st1 out1] assms(6) by simp
qed

section \<open>Limits\<close>

text \<open>The version of the login request is fixed, older than the one from which on the server expects the new
  messages for privacy mode and for several windows.\<close>

lemma login_version_is_old:
  "get_version_number (version (request_of E h p)) < get_version_number ''1.40.8''"
  "\<not> is_support_multi_ui_session (version (request_of E h p))"
proof -
  have v: "version (request_of E h p) = ''1.40.7''"
    by (cases "get_option_message E True (h, peer_store.make Map.empty {}, [])") (simp add: request_of_def create_login_msg_def)
  show "get_version_number (version (request_of E h p)) < get_version_number ''1.40.8''"
    unfolding v by code_simp
  show "\<not> is_support_multi_ui_session (version (request_of E h p))"
    unfolding v by code_simp
qed

text \<open>The token of the last single sign-on goes to whatever machine is connected to.\<close>

lemma token_sent_to_every_peer:
  assumes "last_token E = Some t" "args E = []"
  shows "tokenex (request_of E h p) = t"
  using assms by (simp add: login_token_def)

section \<open>Witnesses\<close>

lemma handle_hash_conn_type: "lc_conn_type (fst (handle_hash E preset hash (h, st, out))) = lc_conn_type h"
proof (cases "case switch_uuid h of Some u \<Rightarrow> parse_uuid E u | None \<Rightarrow> None")
  case None
  obtain p src where "choose_password E preset hash (h\<lparr>lc_hash := hash, switch_uuid := None\<rparr>) = (p, src)" by (metis surj_pair)
  with None show ?thesis
    unfolding handle_hash_def Let_def on_handler_def by (simp add: msgbox_def)
next
  case (Some u)
  then show ?thesis using sent_frame(2)[of E u "h\<lparr>lc_hash := hash, switch_uuid := None\<rparr>" st out]
    by (cases "send_switch_login_request E u (h\<lparr>lc_hash := hash, switch_uuid := None\<rparr>, st, out)")
      (simp add: handle_hash_def on_handler_def)
qed

definition password_machine :: "string \<Rightarrow> connection \<times> Login_Session.server" where
  "password_machine challenge = ((first_connection None)\<lparr>hash_salt := ''salt'', hash_challenge := challenge\<rparr>,
     no_server\<lparr>conf := empty_config\<lparr>permanent_password := ''pw''\<rparr>\<rparr>)"

lemma machine_admits:
  assumes "r = request_of plain_client h a" "lc_conn_type h = FILE_TRANSFER"
  shows "admits (plain_env\<lparr>sha256 := pad32\<rparr>) r (fst (password_machine ch)) (snd (password_machine ch))"
proof -
  have "permission ''enable-file-transfer'' (empty_config\<lparr>permanent_password := ''pw''\<rparr>)"
    by (simp add: permission_def get_option_def get_or_def empty_config_def option2bool_def starts_with_def)
  moreover have "\<not> click_only plain_env (empty_config\<lparr>permanent_password := ''pw''\<rparr>)"
    by (simp add: click_only_def approve_mode_def get_option_def get_or_def empty_config_def has_valid_password_def permanent_enabled_def
        verification_method_def)
  ultimately show ?thesis
    using assms
    by (simp add: admits_def password_machine_def login_union_of_def handle_union_def check_failure_def no_server_def
        login_token_def plain_client_def click_only_def plain_env_def get_option_def get_or_def empty_config_def Let_def)
qed

lemma machine_password: "password_set (conf (snd (password_machine ch))) ''pw''"
  by (simp add: password_set_def password_machine_def permanent_enabled_def verification_method_def get_option_def get_or_def empty_config_def)

theorem correct_password_logs_in_witness:
  "\<exists>l. snd (snd (handle_login_from_ui plain_client [] [] ''pw'' True (plain_handler, no_peers, []))) = [SendLogin l] \<and>
    Login_Session.authorized (fst (snd (on_login_request (plain_env\<lparr>sha256 := pad32\<rparr>) (cl_request l) (password_machine ''one''))))"
proof -
  obtain h' st' out' where u: "handle_login_from_ui plain_client [] [] ''pw'' True (plain_handler, no_peers, []) = (h', st', out')"
    by (metis prod_cases3)
  have h': "lc_conn_type h' = FILE_TRANSFER"
  proof -
    obtain l st where "handle_login_from_ui plain_client [] [] ''pw'' True (plain_handler, no_peers, []) =
        (plain_handler\<lparr>password_source := Undefined, lc_password := password_hash plain_client ''pw'' (lc_hash plain_handler), remember := True\<rparr>,
         st, [] @ [SendLogin l])"
      by (rule handle_login_from_ui_typed[of "''pw''" plain_client "[]" "[]" True plain_handler no_peers "[]"]) simp
    then have "h' = plain_handler\<lparr>password_source := Undefined, lc_password := password_hash plain_client ''pw'' (lc_hash plain_handler), remember := True\<rparr>"
      using u by simp
    then show ?thesis by (simp add: plain_handler_def)
  qed
  have s: "sha256 (plain_env\<lparr>sha256 := pad32\<rparr>) = sha plain_client" "\<forall>x. length (sha plain_client x) = 32"
    "lc_hash plain_handler = (hash_salt (fst (password_machine ''one'')), hash_challenge (fst (password_machine ''one'')))"
    using pad32_length by (simp_all add: plain_client_def plain_handler_def password_machine_def)
  obtain l where l: "out' = [] @ [SendLogin l]"
    "cl_request l = request_of plain_client h' (challenge_answer plain_client (password_hash plain_client ''pw'' (lc_hash plain_handler)) (lc_hash plain_handler))"
    "admits (plain_env\<lparr>sha256 := pad32\<rparr>) (cl_request l) (fst (password_machine ''one'')) (snd (password_machine ''one'')) \<longrightarrow>
      Login_Session.authorized (fst (snd (on_login_request (plain_env\<lparr>sha256 := pad32\<rparr>) (cl_request l) (fst (password_machine ''one''), snd (password_machine ''one'')))))"
    using correct_password_logs_in[OF s machine_password u] by blast
  have "Login_Session.authorized (fst (snd (on_login_request (plain_env\<lparr>sha256 := pad32\<rparr>) (cl_request l) (password_machine ''one''))))"
    using l(3) machine_admits[OF l(2) h'] by simp
  then show ?thesis unfolding u using l(1) by simp
qed

text \<open>A file transfer has no session options, so nothing is read from the file.\<close>

lemma ui_login_store:
  "lc_conn_type h = FILE_TRANSFER \<Longrightarrow> pw \<noteq> [] \<Longrightarrow> fst (snd (handle_login_from_ui E a b pw rem (h, st, out))) = st"
  by (simp add: handle_login_from_ui_def on_handler_def send_login_def create_login_msg_def get_option_message_def Let_def)

lemma plain_hash_unsealed:
  "\<not> fst (snd (decrypt_vec_or_original V (password_hash plain_client ''pw'' hash) PASSWORD_ENC_VERSION))"
proof -
  have "take 2 (password_hash plain_client ''pw'' hash) = as_bytes ''pw''"
    by (simp add: password_hash_def plain_client_def pad32_def as_bytes_def)
  moreover have "utf8_valid (as_bytes ''pw'')" by (rule utf8_valid_ascii) (simp add: as_bytes_def)
  ultimately have "from_utf8_lossy (take 2 (password_hash plain_client ''pw'' hash)) = ''pw''"
    using from_utf8_lossy_as_bytes by simp
  then show ?thesis by (simp add: decrypt_vec_or_original_def VERSION_LEN_def Let_def)
qed

definition plain_answer :: peer_info where
  "plain_answer = \<lparr>pi_username = ''u'', pi_hostname = ''h'', pi_platform = ''Linux'', pi_version = ''1.42.0'', pi_features = None, pi_encoding = None\<rparr>"

definition first_session :: client where
  "first_session = handle_peer_info plain_client plain_answer
     (handle_login_from_ui plain_client [] [] ''pw'' True (plain_handler, no_peers, []))"

theorem remembered_password_logs_in_witness:
  "\<exists>l. snd (snd (handle_hash plain_client [] (''salt'', ''two'')
      (initialize plain_client ''123'' FILE_TRANSFER None False None None None [] (plain_handler, fst (snd first_session), [])))) = [SendLogin l] \<and>
    Login_Session.authorized (fst (snd (on_login_request (plain_env\<lparr>sha256 := pad32\<rparr>) (cl_request l) (password_machine ''two''))))"
proof -
  let ?M = "password_machine ''two''" and ?SE = "plain_env\<lparr>sha256 := pad32\<rparr>"
  obtain h1 st1 out1 where u: "handle_login_from_ui plain_client [] [] ''pw'' True (plain_handler, no_peers, []) = (h1, st1, out1)"
    by (metis prod_cases3)
  have st1: "st1 = no_peers" using ui_login_store[of plain_handler "''pw''" plain_client "[]" "[]" True no_peers "[]"] u
    by (simp add: plain_handler_def)
  obtain h2 st2 out2 where p: "handle_peer_info plain_client plain_answer (h1, st1, out1) = (h2, st2, out2)" by (metis prod_cases3)
  have st2: "fst (snd first_session) = st2" by (simp add: first_session_def u p)
  obtain h4 st4 out4 where q: "handle_hash plain_client [] (''salt'', ''two'')
      (initialize plain_client (lc_id plain_handler) FILE_TRANSFER None False None None None [] (plain_handler, st2, [])) = (h4, st4, out4)"
    by (metis prod_cases3)
  have s: "\<forall>x. length (sha plain_client x) = 32" "''pw'' \<noteq> ([] :: string)" "lc_hash plain_handler = (''salt'', ''one'')" "lc_password plain_handler = []"
    "\<not> (FILE_TRANSFER = TERMINAL \<and> terminal_admin_var plain_client = Some ''Y'')" "sha256 ?SE = sha plain_client"
    "hash_salt (fst ?M) = ''salt''" "hash_challenge (fst ?M) = ''two''"
    using pad32_length by (simp_all add: plain_client_def plain_handler_def password_machine_def)
  have c: "storable (vlt (penv plain_client)) (defaults (penv plain_client)) (fst (peer_load (penv plain_client) (lc_id plain_handler) st1))"
    using default_storable by (simp add: st1 peer_load_def no_peers_def plain_penv)
  have v: "vault_ok (vlt (penv plain_client))" by (simp add: plain_penv tag_vault_ok)
  obtain l where l: "out4 = [SendLogin l]"
    "cl_request l = request_of plain_client h4 (challenge_answer plain_client (password_hash plain_client ''pw'' (''salt'', ''one'')) (''salt'', ''two''))"
    "admits ?SE (cl_request l) (fst ?M) (snd ?M) \<longrightarrow> Login_Session.authorized (fst (snd (on_login_request ?SE (cl_request l) (fst ?M, snd ?M))))"
    using remembered_password_logs_in[OF v plain_penv(3) s(1-3) plain_hash_unsealed u c p refl refl refl s(4,5) q s(6-8) machine_password]
    by blast
  have "lc_conn_type (fst (initialize plain_client (lc_id plain_handler) FILE_TRANSFER None False None None None [] (plain_handler, st2, []))) = FILE_TRANSFER"
    by (cases "peer_load (penv plain_client) (lc_id plain_handler) st2")
      (simp add: initialize_def load_config_def on_handler_def plain_client_def Let_def)
  then have "lc_conn_type h4 = FILE_TRANSFER"
    using q handle_hash_conn_type by (metis fst_conv prod.collapse)
  from machine_admits[OF l(2) this] l(3) have "Login_Session.authorized (fst (snd (on_login_request ?SE (cl_request l) ?M)))" by simp
  moreover have "lc_id plain_handler = ''123''" by (simp add: plain_handler_def)
  ultimately show ?thesis using q l(1) by (simp add: st2) 
qed

lemma hash_login_store:
  "switch_uuid h = None \<Longrightarrow> lc_conn_type h = FILE_TRANSFER \<Longrightarrow> fst (snd (handle_hash E preset hash (h, st, out))) = st"
  by (cases "choose_password E preset hash (h\<lparr>lc_hash := hash, switch_uuid := None\<rparr>)")
    (simp add: handle_hash_def on_handler_def send_login_def create_login_msg_def get_option_message_def msgbox_def Let_def)


end
