(* ===== verification/Client_Sessions.thy ===== *)
theory Client_Sessions
  imports Client_Login Session_Properties
begin

text \<open>
  The options of a session at both ends: the client of \<open>Client_Login\<close> keeps them in its configuration and
  sends them, the session of \<open>Session_Control\<close> applies them. Both agree from the login on, and a
  session that only views injects nothing.
\<close>

section \<open>The switches of a session\<close>

type_synonym switches = "bool \<times> bool \<times> bool \<times> bool \<times> bool \<times> bool \<times> bool"

definition switches :: "authed_session \<Rightarrow> switches" where
  "switches c = (lock_after_session_end c, show_remote_cursor c, follow_remote_cursor c, follow_remote_window c, disable_audio c,
     disable_clipboard c, disable_keyboard c)"

definition set_to :: "bool_option \<Rightarrow> bool \<Rightarrow> bool" where
  "set_to q b = (case q of NotSet \<Rightarrow> b | Yes \<Rightarrow> True | No \<Rightarrow> False)"

lemma set_to_simps [simp]: "set_to NotSet b = b" "set_to Yes b" "\<not> set_to No b" "set_to (yes_no x) b = x"
  by (simp_all add: set_to_def yes_no_def)

definition applied :: "option_message \<Rightarrow> switches \<Rightarrow> switches" where
  "applied q = (\<lambda>(l, r, f, w, a, b, k).
    (set_to (o_lock_after_session_end q) l, set_to (o_show_remote_cursor q) r, set_to (o_follow_remote_cursor q) f,
     set_to (o_follow_remote_window q) w, set_to (o_disable_audio q) a, set_to (o_disable_clipboard q) b, set_to (o_disable_keyboard q) k))"

text \<open>Effects and subscriptions are not switches.\<close>

lemma conn_of_sub [simp]: "conn_of (sub n P s) = conn_of s"
  by (cases s) (simp add: sub_def on_server_def)

lemma conn_turn_privacy [simp]: "conn_of (turn_off_privacy E key s) = conn_of s" "conn_of (turn_on_privacy E key s) = conn_of s"
proof -
  show "conn_of (turn_off_privacy E key s) = conn_of s"
    by (simp add: turn_off_privacy_def split: option.split sum.split)
  show "conn_of (turn_on_privacy E key s) = conn_of s"
    by (simp add: turn_on_privacy_def Let_def split: option.split sum.split bool.split)
qed

lemma conn_sub_audio [simp]: "conn_of (sub_audio s) = conn_of s"
  by (simp add: sub_audio_def Let_def)

lemma when_set_switches:
  "switches (conn_of (when_set q f s)) = (case q of NotSet \<Rightarrow> switches (conn_of s) | Yes \<Rightarrow> switches (conn_of (f True s)) | No \<Rightarrow> switches (conn_of (f False s)))"
  by (simp add: when_set_def split: bool_option.split)

lemma opt_plain [simp]:
  "switches (conn_of (opt_quality q s)) = switches (conn_of s)" "switches (conn_of (opt_fps q s)) = switches (conn_of s)"
  "switches (conn_of (opt_decoding q s)) = switches (conn_of s)" "switches (conn_of (opt_privacy E q s)) = switches (conn_of s)"
  "switches (conn_of (opt_block_input q s)) = switches (conn_of s)" "switches (conn_of (opt_my_cursor E q s)) = switches (conn_of s)"
  by (auto simp: opt_quality_def opt_fps_def opt_decoding_def opt_privacy_def opt_block_input_def opt_my_cursor_def when_set_switches
      split: option.split bool_option.split) (auto simp: switches_def)

lemma opt_switches:
  "switches (conn_of (opt_lock q s)) = (case switches (conn_of s) of (l, t) \<Rightarrow> (set_to (o_lock_after_session_end q) l, t))"
  "switches (conn_of (opt_remote_cursor q s)) = (case switches (conn_of s) of (l, r, t) \<Rightarrow> (l, set_to (o_show_remote_cursor q) r, t))"
  "switches (conn_of (opt_follow_cursor q s)) = (case switches (conn_of s) of (l, r, f, t) \<Rightarrow> (l, r, set_to (o_follow_remote_cursor q) f, t))"
  "switches (conn_of (opt_follow_window q s)) =
    (case switches (conn_of s) of (l, r, f, w, t) \<Rightarrow> (l, r, f, set_to (o_follow_remote_window q) w, t))"
  "switches (conn_of (opt_audio q s)) =
    (case switches (conn_of s) of (l, r, f, w, a, t) \<Rightarrow> (l, r, f, w, set_to (o_disable_audio q) a, t))"
  "switches (conn_of (opt_clipboard E q s)) =
    (case switches (conn_of s) of (l, r, f, w, a, b, k) \<Rightarrow> (l, r, f, w, a, set_to (o_disable_clipboard q) b, k))"
  "switches (conn_of (opt_keyboard E q s)) =
    (case switches (conn_of s) of (l, r, f, w, a, b, k) \<Rightarrow> (l, r, f, w, a, b, set_to (o_disable_keyboard q) k))"
  by (auto simp: opt_lock_def opt_remote_cursor_def opt_follow_cursor_def opt_follow_window_def opt_audio_def opt_clipboard_def
      opt_keyboard_def when_set_def switches_def set_to_def split: bool_option.split)

lemma update_options_switches: "switches (conn_of (update_options E q s)) = applied q (switches (conn_of s))"
  by (cases "switches (conn_of s)") (simp add: update_options_def opt_switches applied_def)

section \<open>Agreement\<close>

text \<open>What the client's configuration means for the session.\<close>

definition wanted :: "peer_config \<Rightarrow> switches" where
  "wanted c =
    (let v = pc_view_only c in
     (\<not> v \<and> pc_lock_after_session_end c, v \<or> pc_show_remote_cursor c, pc_follow_remote_cursor c, pc_follow_remote_window c,
      pc_disable_audio c, v \<or> pc_disable_clipboard c, v))"

definition fresh_switches :: switches where
  "fresh_switches = (False, False, False, False, False, False, False)"

lemma applied_decoding: "applied (q\<lparr>o_supported_decoding := z\<rparr>) = applied q"
  by (simp add: applied_def)

lemma switch_options_wanted:
  "applied (switch_options h (option_default\<lparr>o_image_quality := x, o_custom_image_quality := y\<rparr>)) fresh_switches
    = wanted (lc_config h)"
  by (simp add: switch_options_def get_toggle_option_def applied_def wanted_def fresh_switches_def option_default_def Let_def)

text \<open>The switches whose meaning does not change while only viewing.\<close>

definition overridden :: "string list" where
  "overridden = [''show-remote-cursor'', ''disable-clipboard'', ''lock-after-session-end'']"

lemma toggled_agrees:
  assumes "toggled h name c = Some (c', m)" "lc_config h = c" "pc_view_only c \<longrightarrow> name \<notin> set overridden"
  shows "applied m (wanted c) = wanted c'"
  using assms
  by (auto simp: toggled_def toggle_view_only_def overridden_def applied_def wanted_def option_default_def get_toggle_option_def Let_def
      split: if_splits)

text \<open>
  The pair of a client and its session, as far as options go: the client toggles a switch, the message arrives,
  and the session applies it.
\<close>

definition toggle_both :: "client_env \<Rightarrow> session_env \<Rightarrow> string \<Rightarrow> client \<times> 'a session_state \<Rightarrow> client \<times> 'a session_state" where
  "toggle_both CE E name = (\<lambda>(k, s).
    (let (m, k) = toggle_option CE name k in (k, case m of Some o' \<Rightarrow> update_options E o' s | None \<Rightarrow> s)))"

fun toggles :: "client_env \<Rightarrow> (session_env \<times> string) list \<Rightarrow> client \<times> 'a session_state \<Rightarrow> client \<times> 'a session_state" where
  "toggles CE [] x = x"
| "toggles CE ((E, name) # es) x = toggles CE es (toggle_both CE E name x)"

definition agree :: "client \<times> 'a session_state \<Rightarrow> bool" where
  "agree x \<longleftrightarrow> switches (conn_of (snd x)) = wanted (lc_config (fst (fst x)))"

text \<open>The file holds what the handler holds.\<close>

definition in_file :: "client_env \<Rightarrow> client \<Rightarrow> bool" where
  "in_file CE k \<longleftrightarrow> load_config CE k = (lc_config (fst k), k)"

definition kept_well :: "client_env \<Rightarrow> client \<Rightarrow> bool" where
  "kept_well CE k \<longleftrightarrow> in_file CE k \<and> storable (vlt (penv CE)) (defaults (penv CE)) (lc_config (fst k)) \<and>
    can_write (penv CE) (peer_path (vlt (penv CE)) (lc_id (fst k)))"

lemma saved_well:
  assumes "vault_ok (vlt (penv CE))" "storable (vlt (penv CE)) (defaults (penv CE)) c"
    "can_write (penv CE) (peer_path (vlt (penv CE)) (lc_id (fst k)))"
  shows "kept_well CE (save_config CE c k)" "lc_config (fst (save_config CE c k)) = c"
proof -
  obtain h st out where k: "k = (h, st, out)" by (metis prod_cases3)
  show "lc_config (fst (save_config CE c k)) = c" by (simp add: k save_config_def)
  show "kept_well CE (save_config CE c k)"
    using assms load_stored[OF assms(1,2), of "lc_id h" st]
    by (simp add: kept_well_def in_file_def save_config_def load_config_def k)
qed

lemma deserialised_iff: "deserialised U c = c \<longleftrightarrow>
    serde_field_string U ''view_style'' (pc_view_style c) = pc_view_style c \<and>
    serde_field_string U ''scroll_style'' (pc_scroll_style c) = pc_scroll_style c \<and>
    deserialize_edge_thickness U (pc_edge_scroll_edge_thickness c) = pc_edge_scroll_edge_thickness c \<and>
    serde_field_string U ''image_quality'' (pc_image_quality c) = pc_image_quality c \<and>
    deserialize_custom_image_quality U (pc_custom_image_quality c) = pc_custom_image_quality c \<and>
    serde_field_string U ''reverse_mouse_wheel'' (pc_reverse_mouse_wheel c) = pc_reverse_mouse_wheel c \<and>
    serde_field_string U ''displays_as_individual_windows'' (pc_displays_as_individual_windows c) = pc_displays_as_individual_windows c \<and>
    serde_field_string U ''use_all_my_displays_for_the_remote_session'' (pc_use_all_my_displays c) = pc_use_all_my_displays c \<and>
    deserialize_trackpad_speed U (pc_trackpad_speed c) = pc_trackpad_speed c"
  by (cases c) (auto simp: deserialised_def)

lemma storable_flags:
  assumes "storable V U c" "toggled h name c = Some (c', m)"
  shows "storable V U c'"
  using assms
  unfolding storable_def deserialised_iff by (auto simp: toggled_def toggle_view_only_def Let_def split: if_splits)

lemma storable_option:
  assumes "storable V U c" "x = None \<or> x = Some ''Y''"
  shows "storable V U (c\<lparr>pc_options := (pc_options c)(k := x)\<rparr>)"
proof -
  have "utf8_valid (as_bytes ''Y'')" by (rule utf8_valid_ascii) (simp add: as_bytes_def)
  then have "secret_ok V ''Y''"
    by (simp add: secret_ok_def ENCRYPT_MAX_LEN_def decrypt_str_or_original_def VERSION_LEN_def)
  then show ?thesis using assms unfolding storable_def deserialised_iff by auto
qed

lemma toggle_agrees:
  assumes "vault_ok (vlt (penv CE))" "kept_well CE k" "agree (k, s)" "pc_view_only (lc_config (fst k)) \<longrightarrow> name \<notin> set overridden"
  shows "kept_well CE (fst (toggle_both CE E name (k, s))) \<and> agree (toggle_both CE E name (k, s)) \<and>
    (name \<noteq> ''view-only'' \<longrightarrow> pc_view_only (lc_config (fst (fst (toggle_both CE E name (k, s))))) = pc_view_only (lc_config (fst k)))"
proof -
  let ?c = "lc_config (fst k)"
  have l: "load_config CE k = (?c, k)" using assms(2) by (simp add: kept_well_def in_file_def)
  note w = assms(2)[unfolded kept_well_def]
  show ?thesis
  proof (cases "toggled (fst k) name ?c")
    case None
    let ?x = "if (case pc_options ?c name of Some v \<Rightarrow> v \<noteq> [] | None \<Rightarrow> False) then None else Some ''Y''"
    let ?d = "?c\<lparr>pc_options := (pc_options ?c)(name := ?x)\<rparr>"
    have t: "toggle_option CE name k = (None, save_config CE ?d k)"
      by (simp add: toggle_option_def l None Let_def)
    have "storable (vlt (penv CE)) (defaults (penv CE)) ?d"
      by (rule storable_option) (use w in auto)
    from saved_well[OF assms(1) this] w have "kept_well CE (save_config CE ?d k)" "lc_config (fst (save_config CE ?d k)) = ?d" by simp_all
    moreover have "wanted ?d = wanted ?c" by (simp add: wanted_def)
    ultimately show ?thesis using assms(3) by (simp add: toggle_both_def t agree_def)
  next
    case (Some x)
    obtain d m where x: "x = (d, m)" by (metis surj_pair)
    have tg: "toggled (fst k) name ?c = Some (d, m)" using Some x by simp
    let ?k = "if name = ''block-input'' \<or> name = ''unblock-input'' then k else save_config CE d k"
    have t: "toggle_option CE name k = (Some m, ?k)" by (simp add: toggle_option_def l tg Let_def)
    have "kept_well CE (save_config CE d k)" "lc_config (fst (save_config CE d k)) = d"
      using saved_well[OF assms(1) storable_flags[OF _ tg]] w by auto
    moreover have "d = ?c" if "name = ''block-input'' \<or> name = ''unblock-input''" using tg that by (auto simp: toggled_def Let_def)
    ultimately have k: "kept_well CE ?k" "lc_config (fst ?k) = d" using assms(2) by auto
    have "switches (conn_of (update_options E m s)) = wanted d"
      using assms(3) toggled_agrees[OF tg refl assms(4)] by (simp add: update_options_switches agree_def)
    moreover have "name \<noteq> ''view-only'' \<longrightarrow> pc_view_only d = pc_view_only ?c"
      using tg by (auto simp: toggled_def Let_def split: if_splits)
    ultimately show ?thesis using k unfolding toggle_both_def prod.case t Let_def option.case agree_def by simp
  qed
qed

text \<open>A list of toggles that leaves the overridden switches alone, or never starts to view only.\<close>

definition compatible :: "peer_config \<Rightarrow> (session_env \<times> string) list \<Rightarrow> bool" where
  "compatible c es \<longleftrightarrow> (\<forall>e \<in> set es. snd e \<notin> set overridden) \<or> \<not> pc_view_only c \<and> (\<forall>e \<in> set es. snd e \<noteq> ''view-only'')"

lemma toggles_agree:
  assumes "vault_ok (vlt (penv CE))" "kept_well CE (fst x)" "agree x" "compatible (lc_config (fst (fst x))) es"
  shows "agree (toggles CE es x) \<and> kept_well CE (fst (toggles CE es x))"
  using assms
proof (induction es arbitrary: x)
  case (Cons e es)
  obtain E name where e: "e = (E, name)" by (metis surj_pair)
  obtain k s where x: "x = (k, s)" by (metis surj_pair)
  have "pc_view_only (lc_config (fst k)) \<longrightarrow> name \<notin> set overridden"
    using Cons.prems(4) by (auto simp: compatible_def e x)
  note t = toggle_agrees[OF Cons.prems(1), of k s name E] this
  have "compatible (lc_config (fst (fst (toggle_both CE E name x)))) es"
    using Cons.prems t by (auto simp: compatible_def e x)
  then show ?case using Cons.IH[of "toggle_both CE E name x"] Cons.prems t by (simp add: e x)
qed simp

section \<open>From the login on\<close>

lemma start_session_switches:
  "switches (conn_of (start_session E timer q dir wait ss invited s)) =
    (case q of Some o' \<Rightarrow> applied o' (switches (conn_of s)) | None \<Rightarrow> switches (conn_of s))"
proof -
  have c: "conn_of (on_server f s) = conn_of s" for f and s :: "'a session_state" by (cases s) (simp add: on_server_def)
  have m: "switches (conn_of (try_sub_monitor_services E timer s)) = switches (conn_of s)" for s :: "'a session_state"
    by (simp add: try_sub_monitor_services_def c Let_def) (simp add: switches_def)
  have v: "switches (conn_of (try_sub_camera_displays E s)) = switches (conn_of s)" for s :: "'a session_state"
    by (simp add: try_sub_camera_displays_def c)
  have a: "switches (f\<lparr>authorized := b\<rparr>) = switches f" "switches (f\<lparr>delayed_read_dir := d\<rparr>) = switches f"
    "switches (f\<lparr>keyboard := b\<rparr>) = switches f" for f b d by (simp_all add: switches_def)
  show ?thesis by (auto simp: start_session_def Let_def a m v update_options_switches split: option.split)
qed

lemma option_message_agrees:
  assumes "in_file CE k" "lc_conn_type (fst k) \<notin> set [PORT_FORWARD, RDP, FILE_TRANSFER]"
  obtains q where "get_option_message CE b k = (Some q, k)" "applied q fresh_switches = wanted (lc_config (fst k))"
proof -
  have l: "load_config CE k = (lc_config (fst k), k)" using assms(1) by (simp add: in_file_def)
  obtain d where d: "get_supported_decoding CE k = (d, k)"
    by (cases "lc_id (fst k) = []") (auto simp: get_supported_decoding_def l Let_def intro: that)
  obtain x y where q: "quality_options CE b k = (option_default\<lparr>o_image_quality := x, o_custom_image_quality := y\<rparr>, k)"
  proof -
    have "\<exists>x y. quality_options CE b k = (option_default\<lparr>o_image_quality := x, o_custom_image_quality := y\<rparr>, k)"
      by (auto simp: quality_options_def l Let_def option_default_def split: option.split list.split)
    then show ?thesis using that by blast
  qed
  let ?m = "option_default\<lparr>o_image_quality := x, o_custom_image_quality := y\<rparr>"
  have "get_option_message CE b k = (Some ((switch_options (fst k) ?m)\<lparr>o_supported_decoding := Some d\<rparr>), k)"
    using assms(2) unfolding get_option_message_def q d Let_def prod.case by (simp only: if_False)
  moreover have "applied ((switch_options (fst k) ?m)\<lparr>o_supported_decoding := Some d\<rparr>) fresh_switches = wanted (lc_config (fst k))"
    unfolding applied_decoding by (rule switch_options_wanted)
  ultimately show ?thesis by (rule that)
qed


section \<open>Only viewing\<close>

definition is_input :: "peer_msg \<Rightarrow> bool" where
  "is_input m \<longleftrightarrow> (\<exists>me. m = MouseMsg me) \<or> (\<exists>p. m = PointerMsg p) \<or> (\<exists>k. m = KeyMsg k)"

text \<open>A mouse event without control moves the picture of the peer's cursor only.\<close>

definition injects :: "effect \<Rightarrow> bool" where
  "injects e \<longleftrightarrow> (\<exists>me b. e = InputMouse me True b) \<or> (\<exists>p. e = InputPointer p) \<or> (\<exists>k b. e = InputKey k b)"

definition inert :: "effect list \<Rightarrow> authed_session \<Rightarrow> effect list \<Rightarrow> authed_session \<Rightarrow> bool" where
  "inert es c es' c' \<longleftrightarrow> disable_keyboard c' = disable_keyboard c \<and> (\<exists>new. es' = es @ new \<and> \<not> list_ex injects new)"

lemma input_step:
  assumes "is_input m" "disable_keyboard (conn_of s)"
  obtains s' where "handle_peer_msg E m s = Some (True, s')" "inert (effects s) (conn_of s) (effects s') (conn_of s')"
proof -
  have p: "\<not> peer_keyboard_enabled (conn_of s)" using assms(2) by (simp add: peer_keyboard_enabled_def)
  have t: "conn_of (update_auto_disconnect_timer E s) = (conn_of s)\<lparr>auto_disconnect := map_option (\<lambda>(_, minute). (now E, minute)) (auto_disconnect (conn_of s))\<rparr>"
    "effects (update_auto_disconnect_timer E s) = effects s" for s :: "'a session_state"
    by (cases s; simp add: update_auto_disconnect_timer_def on_conn_def)+
  have "inert (effects s) (conn_of s) (effects (handle_mouse_msg E me s)) (conn_of (handle_mouse_msg E me s))" for me
    using p by (simp add: handle_mouse_msg_def inert_def injects_def t Let_def)
  moreover have "inert (effects s) (conn_of s) (effects (handle_pointer_msg E q s)) (conn_of (handle_pointer_msg E q s))" for q
    using p by (simp add: handle_pointer_msg_def inert_def t Let_def)
  moreover have "inert (effects s) (conn_of s) (effects (handle_key_msg E k s)) (conn_of (handle_key_msg E k s))" for k
    using p by (simp add: handle_key_msg_def inert_def t Let_def)
  moreover have "inert (effects s) (conn_of s) (effects s) (conn_of s)" by (simp add: inert_def)
  ultimately have i: "inert (effects s) (conn_of s) (effects (handle_mouse_msg E me s)) (conn_of (handle_mouse_msg E me s))"
    "inert (effects s) (conn_of s) (effects (handle_pointer_msg E q s)) (conn_of (handle_pointer_msg E q s))"
    "inert (effects s) (conn_of s) (effects (handle_key_msg E kk s)) (conn_of (handle_key_msg E kk s))"
    "inert (effects s) (conn_of s) (effects s) (conn_of s)" for me q kk by blast+
  show ?thesis
  proof (cases "\<not> authorized (conn_of s) \<or> forwarding (conn_of s)")
    case True
    then show ?thesis by (intro that[of s] i) (simp add: handle_peer_msg_def)
  next
    case False
    from assms(1) consider me where "m = MouseMsg me" | q where "m = PointerMsg q" | kk where "m = KeyMsg kk"
      by (auto simp: is_input_def)
    then show ?thesis
    proof cases
      case 1
      then show ?thesis using False by (intro that[of "handle_mouse_msg E me s"] i) (simp add: handle_peer_msg_def)
    next
      case 2
      then show ?thesis using False by (intro that[of "handle_pointer_msg E q s"] i) (simp add: handle_peer_msg_def)
    next
      case 3
      then show ?thesis using False by (intro that[of "handle_key_msg E kk s"] i) (simp add: handle_peer_msg_def)
    qed
  qed
qed

lemma input_run:
  assumes "\<forall>e \<in> set es. \<exists>E m. e = FromPeer E m \<and> is_input m" "disable_keyboard (conn_of s)"
  shows "\<exists>s'. session_run es s = Some s' \<and> inert (effects s) (conn_of s) (effects s') (conn_of s')"
  using assms
proof (induction es arbitrary: s)
  case Nil
  then show ?case by (simp add: inert_def)
next
  case (Cons e es)
  then obtain E m where e: "e = FromPeer E m" "is_input m" by auto
  obtain t where t: "handle_peer_msg E m s = Some (True, t)" "inert (effects s) (conn_of s) (effects t) (conn_of t)"
    by (rule input_step[OF e(2) Cons.prems(2)])
  then have "disable_keyboard (conn_of t)" using Cons.prems(2) by (simp add: inert_def)
  from Cons.IH[OF _ this] Cons.prems(1) obtain u where
    "session_run es t = Some u" "inert (effects t) (conn_of t) (effects u) (conn_of u)" by auto
  then show ?case using t e(1) by (auto simp: inert_def)
qed

text \<open>
  C30. Only viewing injects nothing: when the client of a session is set to only view, its login options make
  the controlled side drop whatever the user does with mouse, pen, touch and keyboard; at most the picture of
  the peer's cursor moves.
\<close>

theorem view_only_injects_nothing:
  assumes "in_file CE k" and "lc_conn_type (fst k) \<notin> set [PORT_FORWARD, RDP, FILE_TRANSFER]" and "pc_view_only (lc_config (fst k))"
    and "get_option_message CE b k = (q, k')" and "switches (conn_of s0) = fresh_switches"
    and "s = start_session E timer q dir wait ss invited s0"
    and "\<forall>e \<in> set es. \<exists>E m. e = FromPeer E m \<and> is_input m"
  shows "\<exists>s' new. session_run es s = Some s' \<and> effects s' = effects s @ new \<and> (\<forall>e \<in> set new. \<not> injects e)"
proof -
  obtain o' where o: "get_option_message CE b k = (Some o', k)" "applied o' fresh_switches = wanted (lc_config (fst k))"
    by (rule option_message_agrees[OF assms(1,2)])
  have "switches (conn_of s) = wanted (lc_config (fst k))"
    using o assms(4-6) by (simp add: start_session_switches)
  then have "disable_keyboard (conn_of s)" using assms(3) by (simp add: switches_def wanted_def Let_def)
  from input_run[OF assms(7) this] show ?thesis by (auto simp: inert_def list_ex_iff)
qed

text \<open>
  Outside these limits both ends can part: while only viewing, switching \<open>show-remote-cursor\<close> off turns the cursor off
  although only viewing shows it.
\<close>

lemma overridden_switch_parts:
  assumes "pc_view_only c" "pc_show_remote_cursor c" "toggled h ''show-remote-cursor'' c = Some (c', m)" "lc_config h = c"
  shows "applied m (wanted c) \<noteq> wanted c'"
  using assms by (auto simp: toggled_def applied_def wanted_def option_default_def yes_no_def Let_def)

section \<open>Witnesses\<close>

definition viewer :: client where
  "viewer = save_config plain_client ((peer_default plain_defaults)\<lparr>pc_view_only := True\<rparr>)
     (plain_handler\<lparr>lc_conn_type := DEFAULT_CONN\<rparr>, no_peers, [])"

definition new_state :: "nat session_state" where
  "new_state = (plain_session\<lparr>terminal_session := False\<rparr>, no_services, empty_store, [])"

lemma viewer_well: "kept_well plain_client viewer" "pc_view_only (lc_config (fst viewer))" "lc_conn_type (fst viewer) = DEFAULT_CONN"
proof -
  have "storable (vlt (penv plain_client)) (defaults (penv plain_client)) ((peer_default plain_defaults)\<lparr>pc_view_only := True\<rparr>)"
    using default_storable[of tag_vault plain_defaults] unfolding plain_penv storable_def deserialised_iff by simp
  from saved_well[OF _ this, of "(plain_handler\<lparr>lc_conn_type := DEFAULT_CONN\<rparr>, no_peers, [])"]
  show "kept_well plain_client viewer" by (simp add: viewer_def plain_penv tag_vault_ok)
  show "pc_view_only (lc_config (fst viewer))" "lc_conn_type (fst viewer) = DEFAULT_CONN"
    by (simp_all add: viewer_def save_config_def)
qed

lemma new_state_fresh: "switches (conn_of new_state) = fresh_switches"
  by (simp add: new_state_def switches_def plain_session_def fresh_switches_def)


theorem view_only_injects_nothing_witness:
  "\<exists>q k s' new. get_option_message plain_client True viewer = (q, k) \<and>
    session_run [FromPeer plain_env (MouseMsg \<lparr>mouse_mask = 9, mouse_x = 3, mouse_y = 4\<rparr>)]
      (start_session plain_env None q ([], False) False True False new_state) = Some s' \<and>
    effects s' = effects (start_session plain_env None q ([], False) False True False new_state) @ new \<and> (\<forall>e \<in> set new. \<not> injects e)"
proof -
  obtain q k where g: "get_option_message plain_client True viewer = (q, k)" by (metis surj_pair)
  have n: "lc_conn_type (fst viewer) \<notin> set [PORT_FORWARD, RDP, FILE_TRANSFER]" by (simp add: viewer_well)
  have i: "in_file plain_client viewer" using viewer_well(1) by (simp add: kept_well_def)
  have e: "\<forall>e \<in> set [FromPeer plain_env (MouseMsg \<lparr>mouse_mask = 9, mouse_x = 3, mouse_y = 4\<rparr>)]. \<exists>E m. e = FromPeer E m \<and> is_input m"
    by (simp add: is_input_def)
  from view_only_injects_nothing[OF i n viewer_well(2) g new_state_fresh refl e, of plain_env None "([], False)" False True False] g
  show ?thesis by blast
qed

end
