(* ===== verification/Spec2Isabelle.thy ===== *)
theory Spec2Isabelle
  imports Mcp_Properties Dashboard_Link Dashboard_Socket Bytes_Codec Login_Security Transfer_Resume Directory_Properties Qos_Control Service_Contracts Session_Subscriptions Client_Credentials Client_Sessions
begin

text \<open>
  A verification development of the HopToDesk remote desktop program (the Rust sources under
  \<open>src/\<close>), of its build for FreeBSD and Linux without flutter.

  \<^bold>\<open>The program.\<close> One binary plays both ends of a remote session. The controlled side (\<open>src/server/\<close>) accepts
  a connection, checks the login, captures the screen, injects input, runs terminals and moves files; what its
  user has to decide goes to the connection manager (\<open>ui\_cm\_interface.rs\<close>), a process of its own. The controlling
  side (\<open>client.rs\<close>, \<open>client/io\_loop.rs\<close>) logs in and keeps what it learns of each machine. Both talk framed
  messages over one stream and keep their settings in a shared library (\<open>libs/hbb\_common\<close>). Beside the sessions
  stand a server for automation by a program (\<open>mcp\_server.rs\<close>) and the connection to a dashboard, which manages
  many machines and can use that server (\<open>dashboard.rs\<close>).

  \<^bold>\<open>How it is modelled.\<close> A struct is a record, an enum a datatype, a machine integer a word of its width or a number
  with the wrap-around written out; a string is the list of its UTF-8 bytes. A function that changes state takes
  the state and returns it; an error is the left side of a sum, a panic the value \<^const>\<open>None\<close>. What is not in the
  repository (libraries, the operating system, the network, services) is a parameter, usually a record of
  functions that may change a world of an arbitrary type; where a property needs it to behave, that is a
  hypothesis with a name (\<open>vault\_ok\<close>, \<open>steady\<close>, \<open>logs\_finite\<close>) and an instance on which it holds. A hash map whose
  order of iteration matters is an association list.

  \<^bold>\<open>Theories.\<close>

  Shared: \<open>Hop\_Prelude\<close> (bytes, strings, numerals, signed arithmetic, collections of rules), \<open>Utf8\_Lossy\<close> (the
  standard library's conversions from bytes), \<open>Float\_Rounding\<close> (\<open>f32\<close> and \<open>f64\<close> as correctly rounded rationals),
  \<open>Json\_Value\<close> (values of \<open>serde\_json\<close>).

  Messages and settings:
  \<^item> \<open>Stream\_Framing\<close> is the contract of an incremental decoder with its theorem on chunks; \<open>Bytes\_Codec\<close>
    (\<open>bytes\_codec.rs\<close>) fulfils it.
  \<^item> \<open>At\_Rest\_Encryption\<close> and \<open>Password\_Policy\<close> (\<open>password\_security.rs\<close>), \<open>Config\_Store\<close> and \<open>Peer\_Config\<close> (\<open>config.rs\<close>):
    sealed secrets, layered options, trusted devices, the file of each peer; round trips and what a change revokes.
  \<^item> \<open>Net\_Util\<close> (\<open>hbb\_common/src/lib.rs\<close>): mangled addresses and versions.

  The controlled side:
  \<^item> \<open>Output\_Buffer\<close> and \<open>Terminal\_Service\<close> (\<open>server/terminal\_service.rs\<close>): scrollback against its specification, the
    invariant of the registry of terminals.
  \<^item> \<open>Login\_Session\<close> (\<open>server/connection.rs\<close>, up to authorization and at the end) and \<open>Login\_Security\<close>: which messages
    authorize, and that a connection is registered exactly while it is authorized.
  \<^item> \<open>Service\_Hub\<close> (\<open>server/service.rs\<close>, \<open>server.rs\<close>) and \<open>Service\_Contracts\<close>: services and the registry refine sets and
    relations of subscriptions; the laws of the traits are locales.
  \<^item> \<open>Session\_Control\<close> (\<open>server/connection.rs\<close>, after login), \<open>Session\_Discipline\<close>, \<open>Session\_Properties\<close> and
    \<open>Session\_Subscriptions\<close>: what any sequence of messages can do, by a locale of disciplines.
  \<^item> \<open>Video\_Qos\<close> and \<open>Qos\_Control\<close> (\<open>server/video\_qos.rs\<close>): ranges in every reachable state, and that the frame rate
    recovers; \<open>Codec\_Choice\<close> (\<open>scrap/src/common/codec.rs\<close>): a format that every peer can decode.

  Files:
  \<^item> \<open>File\_Store\<close>, \<open>Transfer\_Job\<close>, \<open>Transfer\_Delivery\<close>, \<open>Transfer\_Properties\<close> (\<open>hbb\_common/src/fs.rs\<close>): jobs that read and
    write over an explicit store; contents arrive, ticks are bounded, nothing is sent unconfirmed.
  \<^item> \<open>Transfer\_Receiver\<close> and \<open>Transfer\_Resume\<close> (\<open>ui\_cm\_interface.rs\<close>, \<open>client/io\_loop.rs\<close>): who receives, resuming.
  \<^item> \<open>Directory\_Tree\<close> and \<open>Directory\_Properties\<close>: listing, transfer and removal of folders.

  The controlling side:
  \<^item> \<open>Client\_Login\<close> (\<open>client.rs\<close>), with both ends together in \<open>Client\_Credentials\<close> (passwords) and \<open>Client\_Sessions\<close> (options).
  \<^item> \<open>Ui\_Sessions\<close> (\<open>ui.rs\<close>, \<open>ui/remote.rs\<close>): the processes of sessions and the commands they read.

  Automation and dashboard:
  \<^item> \<open>Mcp\_Screen\<close>, \<open>Mcp\_Tools\<close>, \<open>Mcp\_Catalogue\<close>, \<open>Mcp\_Server\<close> (\<open>mcp\_server.rs\<close>): captures and their comparison, the 41 tools,
    what is announced, requests and transports.
  \<^item> \<open>Mcp\_Runs\<close>: one step relation for all tools, from which \<open>Mcp\_Properties\<close> draws what holds of every request;
    \<open>Session\_Commands\<close>: what the commands written to a session do there, and the catalogue against the tools.
  \<^item> \<open>Dashboard\<close>, \<open>Dashboard\_Support\<close>, \<open>Dashboard\_Socket\<close> (\<open>dashboard.rs\<close>) and \<open>Dashboard\_Link\<close> (\<open>connection.rs\<close>,
    \<open>ui\_cm\_interface.rs\<close>): enrollment, tickets and attachments, the connection to the service, and linking from
    within a session as a transition system of the connection, the manager and their channels.

  \<^bold>\<open>Bounds and loops.\<close> Decoding takes fuel, and more calls of the decoder than there are messages are enough
  (\<open>framed\_stream\_chunking\<close> says so). The trimming of the scrollback is a partial function, because it may hang
  (\<open>scrollback\_hang\<close>). The capture of the screen makes thirty attempts, as in the code. The loops of the automation
  server that wait for something are partial functions; on a machine whose clock is steady they end
  (\<open>every\_request\_returns\<close>). The runs of a connection to the dashboard are the lists of what arrives.

  \<^bold>\<open>Not modelled.\<close> Capturing, encoding and decoding of pictures and sound, injecting of input and everything in
  \<open>platform/\<close> are calls into libraries and the system. Rendezvous, relays and transports are exchanges with
  services that are not part of the repository. The flutter bridge is not in this build; of the windows only
  the registry of sessions and the reader of commands are modelled. Code for Windows, macOS, Android and iOS is
  left out, as are virtual displays, elevation, printing and the clipboard of files. Interleavings within a
  handler that awaits an answer are not modelled: a connection handles one event at a time, as its loop does.
\<close>

end
